(* ===== verification/Prelude.thy ===== *)
theory Prelude
  imports "HOL-Library.Char_ord" "HOL-Library.List_Lexorder" "HOL-Library.Product_Lexorder"
begin

text \<open>
  What every component of the development shares: the exceptions of the Python
  code as values, the result type of a function that may raise, Python
  dictionaries built by a comprehension, strings, and the generic lemmas about
  them.  Identifiers (UUIDs) and points of time are numbers: the code
  compares and orders them and never looks inside.  A date is its year, month and
  day, ordered lexicographically as Python orders dates.
\<close>

type_synonym uuid = int
type_synonym date = "int \<times> int \<times> int"
type_synonym timestamp = int
type_synonym sha = string

named_theorems shape_defs \<open>definitions of the shape predicates and validators\<close>
named_theorems step_defs \<open>definitions of the operations of a state machine\<close>
named_theorems inv_intros \<open>preservation facts of an invariant\<close>

section \<open>Exceptions and results\<close>

datatype exn =
    ValueError string
  | InvalidTransition
  | KeyError string
  | AssertionError
  | StopIteration
  | IndexError
  | DecimalOverflow

type_synonym 'a result = "exn + 'a"

definition bind_result :: "'e + 'a \<Rightarrow> ('a \<Rightarrow> 'e + 'b) \<Rightarrow> 'e + 'b" where
  "bind_result r f = (case r of Inl e \<Rightarrow> Inl e | Inr x \<Rightarrow> f x)"

definition ensure :: "bool \<Rightarrow> 'e \<Rightarrow> 'e + unit" where
  "ensure b e = (if b then Inr () else Inl e)"

fun is_ok :: "'e + 'a \<Rightarrow> bool" where
  "is_ok (Inr x) = True"
| "is_ok (Inl e) = False"

lemma bind_result_simps [simp]:
  "bind_result (Inl e) f = Inl e"
  "bind_result (Inr x) f = f x"
  by (simp_all add: bind_result_def)

lemma bind_result_Inr_iff [simp]:
  "bind_result r f = Inr y \<longleftrightarrow> (\<exists>x. r = Inr x \<and> f x = Inr y)"
  by (cases r) auto

lemma bind_result_cong [fundef_cong]:
  assumes "r = r'" and "\<And>x. r' = Inr x \<Longrightarrow> f x = f' x"
  shows "bind_result r f = bind_result r' f'"
  using assms by (cases r') auto

lemma ensure_simps [simp]:
  "ensure b e = Inr u \<longleftrightarrow> b"
  "ensure b e = Inl e' \<longleftrightarrow> \<not> b \<and> e' = e"
  by (auto simp: ensure_def)

lemma is_ok_iff: "is_ok r \<longleftrightarrow> (\<exists>x. r = Inr x)"
  by (cases r) auto

lemma if_Some_eq_None: "(if b then Some x else r) = None \<longleftrightarrow> \<not> b \<and> r = None"
  by simp

section \<open>Dictionaries built by a comprehension\<close>

text \<open>\<open>{key(item): item for item in items}\<close>: a later item replaces an earlier one.\<close>

definition dict_of :: "('a \<Rightarrow> 'k) \<Rightarrow> 'a list \<Rightarrow> 'k \<Rightarrow> 'a option" where
  "dict_of key xs = map_of (rev (map (\<lambda>x. (key x, x)) xs))"

lemma dict_of_Nil [simp]: "dict_of key [] = Map.empty"
  by (simp add: dict_of_def)

lemma dict_of_Cons [simp]:
  "dict_of key (x # xs) = (Map.empty(key x \<mapsto> x)) ++ dict_of key xs"
  by (auto simp: dict_of_def map_add_def split: option.splits)

lemma dict_of_None_iff: "dict_of key xs k = None \<longleftrightarrow> k \<notin> key ` set xs"
  by (induction xs) (auto simp: map_add_def split: option.splits)

lemma dict_of_SomeD: "dict_of key xs k = Some x \<Longrightarrow> x \<in> set xs \<and> key x = k"
  by (induction xs) (auto simp: map_add_def split: option.splits if_splits)

lemma dom_dict_of: "dom (dict_of key xs) = key ` set xs"
  using dict_of_None_iff [of key xs] by (auto simp: dom_def)

lemma dict_of_distinct:
  assumes "distinct (map key xs)"
  shows "dict_of key xs k = Some x \<longleftrightarrow> x \<in> set xs \<and> key x = k"
proof
  assume "dict_of key xs k = Some x"
  then show "x \<in> set xs \<and> key x = k" by (rule dict_of_SomeD)
next
  assume x: "x \<in> set xs \<and> key x = k"
  then have "dict_of key xs k \<noteq> None" by (simp add: dict_of_None_iff) blast
  then obtain y where y: "dict_of key xs k = Some y" by blast
  then have "y \<in> set xs \<and> key y = k" by (rule dict_of_SomeD)
  with x assms have "y = x" by (auto simp: distinct_map inj_on_def)
  with y show "dict_of key xs k = Some x" by simp
qed

lemma dict_of_map:
  "(\<And>x. key (f x) = key x) \<Longrightarrow> dict_of key (map f xs) k = map_option f (dict_of key xs k)"
  by (induction xs) (auto simp: map_add_def split: option.splits)

lemma dict_of_distinct_get [simp]:
  "distinct (map key xs) \<Longrightarrow> x \<in> set xs \<Longrightarrow> dict_of key xs (key x) = Some x"
  by (simp add: dict_of_distinct)

lemma map_filter_set: "set (List.map_filter f xs) = {y. \<exists>x\<in>set xs. f x = Some y}"
  by (induction xs) (auto simp: List.map_filter_simps split: option.splits)

lemma card_image_distinct: "card (f ` set xs) = length xs \<longleftrightarrow> distinct (map f xs)"
  by (metis card_distinct distinct_card length_map list.set_map)

section \<open>Strings\<close>

fun split_on :: "char \<Rightarrow> string \<Rightarrow> string list" where
  "split_on c [] = [[]]"
| "split_on c (x # xs) =
     (if x = c then [] # split_on c xs
      else case split_on c xs of [] \<Rightarrow> [[x]] | p # ps \<Rightarrow> (x # p) # ps)"

definition hex_digits :: string where
  "hex_digits = ''0123456789abcdef''"

definition is_sha256 :: "string \<Rightarrow> bool" where
  "is_sha256 s \<longleftrightarrow> length s = 64 \<and> list_all (\<lambda>c. c \<in> set hex_digits) s"

lemma is_sha256_replicate [simp]:
  "is_sha256 (replicate 64 c) \<longleftrightarrow> c \<in> set hex_digits"
  by (simp add: is_sha256_def list_all_iff)

section \<open>Sorted lists without repetition\<close>

lemma sorted_list_of_set_eq_iff:
  fixes xs :: "'a::linorder list"
  shows "xs = sorted_list_of_set (set xs) \<longleftrightarrow> sorted xs \<and> distinct xs"
  by (metis sorted_list_of_set.idem_if_sorted_distinct
        sorted_list_of_set.distinct_sorted_key_list_of_set
        sorted_list_of_set.sorted_sorted_key_list_of_set)

end
