(* ===== verification/Decimals.thy ===== *)
theory Decimals
  imports Complex_Main Prelude
begin

text \<open>
  The part of Python's \<open>decimal\<close> module that the planning policy uses, in the
  default context: 28 significant digits, round half even, exponents from
  -999999 to 999999, and the Overflow trap enabled.  \<open>Dec c e\<close> is the finite
  number c * 10 ^ e; infinities and NaN are refused by the validator of the only
  decimal field, and the trapped Overflow keeps arithmetic from producing them.
\<close>

datatype decimal = Dec (coefficient: int) (exponent: int)

definition decimal_prec :: nat where "decimal_prec = 28"
definition decimal_Etiny :: int where "decimal_Etiny = - 1000026"
definition decimal_Etop :: int where "decimal_Etop = 999972"
definition decimal_Emax :: int where "decimal_Emax = 999999"

lemmas decimal_context_defs = decimal_prec_def decimal_Etiny_def decimal_Etop_def decimal_Emax_def

fun ndigits :: "int \<Rightarrow> nat" where
  "ndigits n = (if n < 10 then 1 else Suc (ndigits (n div 10)))"

declare ndigits.simps [simp del]

definition round_half_even :: "int \<Rightarrow> nat \<Rightarrow> int" where
  "round_half_even n d =
     (let q = n div 10 ^ d; r = n mod 10 ^ d in
      if 2 * r < 10 ^ d then q
      else if 10 ^ d < 2 * r then q + 1
      else if even q then q else q + 1)"

definition decimal_fix :: "decimal \<Rightarrow> decimal result" where
  "decimal_fix d =
     (let c = coefficient d; e = exponent d in
      if c = 0 then Inr (Dec 0 (min (max e decimal_Etiny) decimal_Emax))
      else
        let exp_min = int (ndigits \<bar>c\<bar>) + e - int decimal_prec in
        if exp_min > decimal_Etop then Inl DecimalOverflow
        else
          let exp_min = max exp_min decimal_Etiny in
          if e < exp_min then
            let q = round_half_even \<bar>c\<bar> (nat (exp_min - e));
                carried = 10 ^ decimal_prec \<le> q;
                q' = (if carried then q div 10 else q);
                e' = (if carried then exp_min + 1 else exp_min) in
            if e' > decimal_Etop then Inl DecimalOverflow
            else Inr (Dec (sgn c * q') e')
          else Inr d)"

definition decimal_of_int :: "int \<Rightarrow> decimal" where
  "decimal_of_int n = Dec n 0"

definition decimal_mul :: "decimal \<Rightarrow> decimal \<Rightarrow> decimal result" where
  "decimal_mul a b =
     decimal_fix (Dec (coefficient a * coefficient b) (exponent a + exponent b))"

definition decimal_add :: "decimal \<Rightarrow> decimal \<Rightarrow> decimal result" where
  "decimal_add a b =
     (let m = min (exponent a) (exponent b) in
      decimal_fix (Dec (coefficient a * 10 ^ nat (exponent a - m)
                        + coefficient b * 10 ^ nat (exponent b - m)) m))"

text \<open>Division by a power of ten only moves the exponent.\<close>

definition decimal_div_pow10 :: "decimal \<Rightarrow> nat \<Rightarrow> decimal result" where
  "decimal_div_pow10 a k = decimal_fix (Dec (coefficient a) (exponent a - int k))"

definition decimal_gt :: "decimal \<Rightarrow> decimal \<Rightarrow> bool" where
  "decimal_gt a b =
     (let m = min (exponent a) (exponent b) in
      coefficient a * 10 ^ nat (exponent a - m) > coefficient b * 10 ^ nat (exponent b - m))"

section \<open>The value of a decimal\<close>

definition decimal_value :: "decimal \<Rightarrow> rat" where
  "decimal_value d = of_int (coefficient d) * 10 powi exponent d"

lemma powi_split: "m \<le> e \<Longrightarrow> (10::rat) powi e = 10 ^ nat (e - m) * 10 powi m"
  by (metis power_int_def power_int_add add.commute diff_add_cancel diff_ge_0_iff_ge zero_neq_numeral)

lemma decimal_gt_iff: "decimal_gt a b \<longleftrightarrow> decimal_value b < decimal_value a"
proof -
  let ?m = "min (exponent a) (exponent b)"
  have a: "decimal_value a = of_int (coefficient a * 10 ^ nat (exponent a - ?m)) * 10 powi ?m"
    using powi_split [of ?m "exponent a"] by (simp add: decimal_value_def)
  have b: "decimal_value b = of_int (coefficient b * 10 ^ nat (exponent b - ?m)) * 10 powi ?m"
    using powi_split [of ?m "exponent b"] by (simp add: decimal_value_def)
  have pos: "(0::rat) < 10 powi ?m" by (rule zero_less_power_int) simp
  show ?thesis
    unfolding a b mult_less_cancel_right_pos [OF pos] of_int_less_iff decimal_gt_def Let_def ..
qed

lemma ndigits_pos [simp]: "0 < ndigits n"
  by (cases "n < 10") (simp_all add: ndigits.simps [of n])

lemma ndigits_le: "0 < k \<Longrightarrow> n < 10 ^ k \<Longrightarrow> ndigits n \<le> k"
proof (induction n arbitrary: k rule: ndigits.induct)
  case (1 n)
  show ?case
  proof (cases "n < 10")
    case True
    with 1 show ?thesis by (simp add: ndigits.simps)
  next
    case False
    with 1 obtain j where k: "k = Suc j" "0 < j" by (cases k; cases "k - 1") auto
    with 1 have "n div 10 < 10 ^ j" by (simp add: less_mult_imp_div_less)
    with 1 False k have "ndigits (n div 10) \<le> j" by blast
    with k False show ?thesis by (simp add: ndigits.simps [of n])
  qed
qed

text \<open>A coefficient of at most 28 digits with a moderate exponent is not rounded.\<close>

definition exact_range :: "decimal \<Rightarrow> bool" where
  "exact_range d \<longleftrightarrow>
     \<bar>coefficient d\<bar> < 10 ^ decimal_prec \<and> decimal_Etiny \<le> exponent d \<and> exponent d \<le> decimal_Etop"

lemma decimal_fix_exact:
  assumes "exact_range d"
  shows "decimal_fix d = Inr d"
proof (cases "coefficient d = 0")
  case True
  with assms show ?thesis
    by (cases d) (simp add: decimal_fix_def exact_range_def decimal_context_defs)
next
  case False
  have "\<bar>coefficient d\<bar> < 10 ^ decimal_prec"
    using assms by (simp add: exact_range_def)
  then have "ndigits \<bar>coefficient d\<bar> \<le> decimal_prec"
    by (rule ndigits_le [rotated]) (simp add: decimal_prec_def)
  with assms have
    "\<not> exponent d < max (int (ndigits \<bar>coefficient d\<bar>) + exponent d - int decimal_prec) decimal_Etiny"
    "\<not> decimal_Etop < int (ndigits \<bar>coefficient d\<bar>) + exponent d - int decimal_prec"
    by (simp_all add: exact_range_def not_less)
  with False show ?thesis
    unfolding decimal_fix_def Let_def by (simp only: if_False)
qed

lemma decimal_mul_exact:
  "exact_range (Dec (coefficient a * coefficient b) (exponent a + exponent b)) \<Longrightarrow>
     decimal_mul a b = Inr (Dec (coefficient a * coefficient b) (exponent a + exponent b))"
  by (simp add: decimal_mul_def decimal_fix_exact)

end
