(* ===== verification/Planning_Models.thy ===== *)
theory Planning_Models
  imports Decimals
begin

text \<open>
  The planning contract of \<open>planning/models.py\<close> and \<open>planning/trusted.py\<close>: the
  enumerations, the frozen models and their validators.  A Pydantic field that is
  a \<open>Literal\<close> keeps its type, because the policy checks the version and the
  currency again at run time.  A validator \<open>valid_x\<close> says that the constructor of
  the class \<open>x\<close> accepts the value.  \<open>EvidenceRef\<close> and \<open>TrustedEvidenceRef\<close> have the
  same fields and differ in the authorities their constructors admit, so they are
  one record with two validators.
\<close>

section \<open>Enumerations\<close>

datatype evidence_authority =
    UNTRUSTED_CANDIDATE
  | ACCEPTED_SYNTHETIC_DEMO
  | EXTERNALLY_VERIFIED

datatype evidence_class = SYNTHETIC_DEMO | INSTITUTIONAL | GOVERNMENT

datatype redistribution_class = SYNTHETIC_PUBLIC | LINK_ONLY

datatype country = AUSTRALIA | JAPAN | MALAYSIA

fun country_value :: "country \<Rightarrow> string" where
  "country_value AUSTRALIA = ''australia''"
| "country_value JAPAN = ''japan''"
| "country_value MALAYSIA = ''malaysia''"

datatype route_outcome =
    RO_RECOMMENDED_WITH_CONDITION
  | RO_CONDITIONAL
  | RO_BLOCKED

datatype dimension_outcome = DO_SUPPORTED | DO_CONDITIONAL | DO_BLOCKED

datatype evidence_role = PROGRAM_FIT | TUITION | LIVING_COST | FX | RANKING

datatype run_state =
    RS_DRAFT
  | RS_COLLECTING_EVIDENCE
  | RS_SYNTHESIZING
  | RS_FAILED
  | RS_BLOCKED
  | RS_REVIEW_REQUIRED

datatype case_state =
    CS_INTAKE
  | CS_PLANNING
  | CS_ADVISOR_REVIEW
  | CS_FAMILY_REVIEW
  | CS_DECIDED
  | CS_PLAN_READY

text \<open>Countries are ordered by their value, as \<open>sorted(..., key=lambda c: c.value)\<close> does.\<close>

lemma country_value_inject [simp]: "country_value a = country_value b \<longleftrightarrow> a = b"
  by (cases a; cases b) simp_all

instantiation country :: linorder
begin

definition less_eq_country :: "country \<Rightarrow> country \<Rightarrow> bool" where
  "less_eq_country a b \<longleftrightarrow> country_value a \<le> country_value b"

definition less_country :: "country \<Rightarrow> country \<Rightarrow> bool" where
  "less_country a b \<longleftrightarrow> country_value a < country_value b"

instance
  by standard (auto simp: less_eq_country_def less_country_def intro: le_neq_trans)

end

lemma country_le_simps [simp]:
  "AUSTRALIA \<le> c" "c \<le> MALAYSIA"
  "\<not> JAPAN \<le> AUSTRALIA" "\<not> MALAYSIA \<le> JAPAN" "\<not> MALAYSIA \<le> AUSTRALIA"
  by (cases c; simp add: less_eq_country_def less_eq_char_def)+

lemma country_less_simps [simp]:
  "AUSTRALIA < JAPAN" "JAPAN < MALAYSIA" "AUSTRALIA < MALAYSIA"
  "\<not> c < AUSTRALIA" "\<not> MALAYSIA < c" "\<not> MALAYSIA < JAPAN" "\<not> JAPAN < AUSTRALIA"
  by (simp_all add: not_less order.strict_iff_not)

definition preferred_country_scope_is_valid :: "country list \<Rightarrow> bool" where
  "preferred_country_scope_is_valid cs \<longleftrightarrow>
     (if cs = [] then False else cs = sorted_list_of_set (set cs))"

lemma preferred_country_scope_iff:
  "preferred_country_scope_is_valid cs \<longleftrightarrow> cs \<noteq> [] \<and> sorted cs \<and> distinct cs"
  by (simp add: preferred_country_scope_is_valid_def sorted_list_of_set_eq_iff)

section \<open>Case and preferences\<close>

record budget_envelope =
  be_schema_version :: int
  be_currency :: string
  be_period :: string
  preferred_minor :: "int option"
  hard_ceiling_minor :: "int option"
  elasticity_bps :: int
  refused :: bool

definition positive_opt :: "int option \<Rightarrow> bool" where
  "positive_opt v \<longleftrightarrow> (case v of None \<Rightarrow> True | Some n \<Rightarrow> 0 < n)"

definition validate_envelope :: "budget_envelope \<Rightarrow> budget_envelope result" where
  "validate_envelope b =
     (if \<not> (0 \<le> elasticity_bps b \<and> elasticity_bps b \<le> 2500) then
        Inl (ValueError ''elasticity_bps must be inside the approved 0..2500 boundary'')
      else if refused b then
        (if preferred_minor b \<noteq> None \<or> hard_ceiling_minor b \<noteq> None then
           Inl (ValueError ''refused budget cannot carry monetary ceilings'')
         else Inr b)
      else (case (preferred_minor b, hard_ceiling_minor b) of
          (Some p, Some h) \<Rightarrow>
            if p > h then Inl (ValueError ''preferred budget cannot exceed hard ceiling'')
            else Inr b
        | _ \<Rightarrow> Inl (ValueError ''non-refused budget requires preferred and hard ceilings'')))"

definition valid_budget_envelope :: "budget_envelope \<Rightarrow> bool" where
  [shape_defs]: "valid_budget_envelope b \<longleftrightarrow>
     be_schema_version b = 1 \<and> be_currency b = ''CNY'' \<and> be_period b = ''program_total'' \<and>
     positive_opt (preferred_minor b) \<and> positive_opt (hard_ceiling_minor b) \<and>
     is_ok (validate_envelope b)"

record student_preferences =
  sp_schema_version :: int
  intended_field :: string
  preferred_countries :: "country list"
  intake :: string

definition valid_student_preferences :: "student_preferences \<Rightarrow> bool" where
  [shape_defs]: "valid_student_preferences s \<longleftrightarrow>
     sp_schema_version s = 1 \<and> preferred_country_scope_is_valid (preferred_countries s)"

datatype risk_tolerance = Low | Medium | High

record family_preferences =
  fp_schema_version :: int
  risk_tolerance :: risk_tolerance
  japan_risk_accepted :: bool
  budget :: budget_envelope

definition valid_family_preferences :: "family_preferences \<Rightarrow> bool" where
  [shape_defs]: "valid_family_preferences f \<longleftrightarrow>
     fp_schema_version f = 1 \<and> valid_budget_envelope (budget f)"

record student_case_revision =
  scr_schema_version :: int
  scr_organization_id :: uuid
  scr_case_id :: uuid
  revision :: int
  student :: student_preferences
  family :: family_preferences

definition valid_student_case_revision :: "student_case_revision \<Rightarrow> bool" where
  [shape_defs]: "valid_student_case_revision c \<longleftrightarrow>
     scr_schema_version c = 1 \<and> 0 < revision c \<and>
     valid_student_preferences (student c) \<and> valid_family_preferences (family c)"

section \<open>Source packs and evidence\<close>

record source_pack_entry =
  spe_schema_version :: int
  entry_id :: uuid
  path :: string
  sha256 :: sha
  snapshot_date :: date
  publisher :: string
  institution :: string
  canonical_url :: string
  freshness_days :: int
  redistribution_class :: redistribution_class
  evidence_class :: evidence_class
  coverage :: "string list"
  known_gaps :: "string list"

definition validate_path :: "string \<Rightarrow> string result" where
  "validate_path v =
     (if take 1 v = ''/'' \<or> ''..'' \<in> set (split_on (CHR ''/'') v)
      then Inl (ValueError ''source path must be relative and traversal-free'') else Inr v)"

definition validate_sha256 :: "string \<Rightarrow> string result" where
  "validate_sha256 v =
     (if length v \<noteq> 64 \<or> list_ex (\<lambda>c. c \<notin> set hex_digits) v
      then Inl (ValueError ''sha256 must be 64 lowercase hexadecimal characters'') else Inr v)"

lemma validate_sha256_iff: "is_ok (validate_sha256 v) \<longleftrightarrow> is_sha256 v"
  by (auto simp: validate_sha256_def is_sha256_def list_ex_iff list_all_iff)

definition valid_source_pack_entry :: "source_pack_entry \<Rightarrow> bool" where
  [shape_defs]: "valid_source_pack_entry e \<longleftrightarrow>
     spe_schema_version e = 1 \<and> is_ok (validate_path (path e)) \<and>
     is_ok (validate_sha256 (sha256 e)) \<and> 0 < freshness_days e"

record source_pack_manifest =
  spm_schema_version :: int
  spm_organization_id :: uuid
  pack_id :: uuid
  version :: int
  entries :: "source_pack_entry list"

definition unique_entries :: "source_pack_manifest \<Rightarrow> source_pack_manifest result" where
  "unique_entries m =
     (if card (entry_id ` set (entries m)) \<noteq> length (entries m)
      then Inl (ValueError ''source entry IDs must be unique'') else Inr m)"

definition valid_source_pack_manifest :: "source_pack_manifest \<Rightarrow> bool" where
  [shape_defs]: "valid_source_pack_manifest m \<longleftrightarrow>
     spm_schema_version m = 1 \<and> 0 < version m \<and>
     list_all valid_source_pack_entry (entries m) \<and> is_ok (unique_entries m)"

lemma unique_entries_iff: "is_ok (unique_entries m) \<longleftrightarrow> distinct (map entry_id (entries m))"
  by (simp add: unique_entries_def card_image_distinct)

record evidence_ref =
  er_schema_version :: int
  er_organization_id :: uuid
  evidence_id :: uuid
  claim :: string
  er_source_pack_id :: uuid
  source_pack_version :: int
  source_entry_id :: uuid
  source_sha256 :: sha
  authority :: evidence_authority

definition caller_authority_boundary :: "evidence_ref \<Rightarrow> evidence_ref result" where
  "caller_authority_boundary e =
     (if authority e = EXTERNALLY_VERIFIED
      then Inl (ValueError
        ''externally_verified requires a trusted authority record outside M3A input'')
      else Inr e)"

definition valid_evidence_ref :: "evidence_ref \<Rightarrow> bool" where
  [shape_defs]: "valid_evidence_ref e \<longleftrightarrow>
     er_schema_version e = 1 \<and> 0 < source_pack_version e \<and>
     is_ok (validate_sha256 (source_sha256 e)) \<and> is_ok (caller_authority_boundary e)"

definition valid_trusted_evidence_ref :: "evidence_ref \<Rightarrow> bool" where
  [shape_defs]: "valid_trusted_evidence_ref e \<longleftrightarrow>
     er_schema_version e = 1 \<and> 0 < source_pack_version e \<and>
     is_ok (validate_sha256 (source_sha256 e)) \<and>
     authority e \<in> {ACCEPTED_SYNTHETIC_DEMO, EXTERNALLY_VERIFIED}"

section \<open>Costs, rankings, and the planning input\<close>

record cost_evidence =
  ce_schema_version :: int
  ce_organization_id :: uuid
  ce_country :: country
  ce_intake :: string
  ce_period :: string
  ce_currency :: string
  tuition_minor :: int
  living_minor :: int
  fx_rate :: decimal
  fx_source :: string
  fx_date :: date
  tuition_evidence_id :: uuid
  living_evidence_id :: uuid
  fx_evidence_id :: uuid

definition positive_fx :: "decimal \<Rightarrow> decimal result" where
  "positive_fx v =
     (if coefficient v \<le> 0 then Inl (ValueError ''fx_rate must be finite and positive'')
      else Inr v)"

definition valid_cost_evidence :: "cost_evidence \<Rightarrow> bool" where
  [shape_defs]: "valid_cost_evidence c \<longleftrightarrow>
     ce_schema_version c = 1 \<and> ce_period c = ''program_total'' \<and> ce_currency c = ''AUD'' \<and>
     0 < tuition_minor c \<and> 0 < living_minor c \<and> is_ok (positive_fx (fx_rate c))"

record ranking_evidence =
  re_schema_version :: int
  re_organization_id :: uuid
  re_country :: country
  ranking_system :: string
  rank :: int
  publication_year :: int
  re_evidence_id :: uuid

definition valid_ranking_evidence :: "ranking_evidence \<Rightarrow> bool" where
  [shape_defs]: "valid_ranking_evidence r \<longleftrightarrow> re_schema_version r = 1 \<and> 0 < rank r"

record planning_input =
  pi_schema_version :: int
  pi_organization_id :: uuid
  case_revision :: student_case_revision
  source_pack :: source_pack_manifest
  evidence :: "evidence_ref list"
  costs :: "cost_evidence list"
  rankings :: "ranking_evidence list"
  narrative :: "string option"

definition valid_planning_input_body :: "(evidence_ref \<Rightarrow> bool) \<Rightarrow> 'a planning_input_scheme \<Rightarrow> bool" where
  [shape_defs]: "valid_planning_input_body ev p \<longleftrightarrow>
     pi_schema_version p = 1 \<and> valid_student_case_revision (case_revision p) \<and>
     valid_source_pack_manifest (source_pack p) \<and> list_all ev (evidence p) \<and>
     list_all valid_cost_evidence (costs p) \<and> list_all valid_ranking_evidence (rankings p)"

definition valid_planning_input :: "planning_input \<Rightarrow> bool" where
  [shape_defs]: "valid_planning_input p \<longleftrightarrow> valid_planning_input_body valid_evidence_ref p"

record governed_mixed_planning_input = planning_input +
  operation :: string

definition valid_governed_mixed_planning_input :: "governed_mixed_planning_input \<Rightarrow> bool" where
  [shape_defs]: "valid_governed_mixed_planning_input p \<longleftrightarrow>
     valid_planning_input_body valid_trusted_evidence_ref p \<and>
     operation p = ''generate_governed_mixed_planning_run_v1''"

record governed_mixed_snapshot =
  gms_schema_version :: int
  gms_organization_id :: uuid
  gms_case :: student_case_revision
  gms_source_pack :: source_pack_manifest
  gms_evidence :: "evidence_ref list"
  verification_decision :: string
  verification_claim :: string
  verification_evidence_role :: evidence_role
  baseline_source_pack_id :: uuid
  baseline_source_pack_version :: int
  baseline_manifest_sha256 :: sha
  baseline_raw_manifest_sha256 :: sha
  promoted_source_pack_version :: int
  promoted_source_entry_id :: uuid
  promoted_evidence_id :: uuid

definition valid_governed_mixed_snapshot :: "governed_mixed_snapshot \<Rightarrow> bool" where
  [shape_defs]: "valid_governed_mixed_snapshot s \<longleftrightarrow>
     gms_schema_version s = 1 \<and> valid_student_case_revision (gms_case s) \<and>
     valid_source_pack_manifest (gms_source_pack s) \<and>
     list_all valid_trusted_evidence_ref (gms_evidence s) \<and>
     verification_decision s = ''approve'' \<and>
     verification_claim s = ''australia_program_fit'' \<and>
     verification_evidence_role s = PROGRAM_FIT \<and>
     baseline_source_pack_version s = 1 \<and> 0 < promoted_source_pack_version s \<and>
     is_ok (validate_sha256 (baseline_manifest_sha256 s)) \<and>
     is_ok (validate_sha256 (baseline_raw_manifest_sha256 s))"

section \<open>Results\<close>

record evidence_use =
  role :: evidence_role
  eu_evidence_id :: uuid

record dimension_result =
  dimension_key :: string
  dr_outcome :: dimension_outcome
  dr_reason_code :: string
  evidence_uses :: "evidence_use list"

record route_result =
  rr_country :: country
  rr_outcome :: route_outcome
  rr_reason_code :: string
  dimensions :: "dimension_result list"

record planning_result =
  pr_state :: run_state
  pr_reason_code :: string
  routes :: "route_result list"

end
