(* ===== verification/Planning_Policy.thy ===== *)
theory Planning_Policy
  imports Planning_Models
begin

text \<open>
  The planning policy of \<open>planning/policy.py\<close>: the contract check, the provenance
  check, the three country assessments and the composition into a run result; and
  the closed transition tables of \<open>planning/transitions.py\<close>.
\<close>

section \<open>Transitions\<close>

fun RUN_TRANSITIONS :: "run_state \<Rightarrow> run_state set" where
  "RUN_TRANSITIONS RS_DRAFT = {RS_COLLECTING_EVIDENCE, RS_FAILED}"
| "RUN_TRANSITIONS RS_COLLECTING_EVIDENCE = {RS_SYNTHESIZING, RS_FAILED}"
| "RUN_TRANSITIONS RS_SYNTHESIZING = {RS_FAILED, RS_BLOCKED, RS_REVIEW_REQUIRED}"
| "RUN_TRANSITIONS RS_FAILED = {}"
| "RUN_TRANSITIONS RS_BLOCKED = {}"
| "RUN_TRANSITIONS RS_REVIEW_REQUIRED = {}"

fun CASE_TRANSITIONS :: "case_state \<Rightarrow> case_state set" where
  "CASE_TRANSITIONS CS_INTAKE = {CS_PLANNING}"
| "CASE_TRANSITIONS CS_PLANNING = {}"
| "CASE_TRANSITIONS CS_ADVISOR_REVIEW = {}"
| "CASE_TRANSITIONS CS_FAMILY_REVIEW = {}"
| "CASE_TRANSITIONS CS_DECIDED = {}"
| "CASE_TRANSITIONS CS_PLAN_READY = {}"

definition transition_run :: "run_state \<Rightarrow> run_state \<Rightarrow> run_state result" where
  "transition_run current target =
     (if target \<notin> RUN_TRANSITIONS current then Inl InvalidTransition else Inr target)"

definition transition_case :: "case_state \<Rightarrow> case_state \<Rightarrow> case_state result" where
  "transition_case current target =
     (if target \<notin> CASE_TRANSITIONS current then Inl InvalidTransition else Inr target)"

fun transition_runs :: "run_state \<Rightarrow> run_state list \<Rightarrow> run_state result" where
  "transition_runs s [] = Inr s"
| "transition_runs s (t # ts) = bind_result (transition_run s t) (\<lambda>s'. transition_runs s' ts)"

section \<open>The policy input\<close>

datatype planning_policy_input =
    Plain planning_input
  | Mixed governed_mixed_planning_input

fun view :: "planning_policy_input \<Rightarrow> planning_input" where
  "view (Plain p) = p"
| "view (Mixed g) = planning_input.truncate g"

fun is_mixed :: "planning_policy_input \<Rightarrow> bool" where
  "is_mixed (Plain p) = False"
| "is_mixed (Mixed g) = True"

definition MIXED_BASELINE_CLAIMS :: "string set" where
  "MIXED_BASELINE_CLAIMS =
     {''australia_program_fit'', ''australia_tuition'', ''australia_living_cost'',
      ''australia_fx'', ''japan_program_fit'', ''australia_ranking''}"

definition evidence_by_claim :: "evidence_ref list \<Rightarrow> string \<Rightarrow> evidence_ref option" where
  "evidence_by_claim evs = dict_of claim evs"

section \<open>The contract\<close>

definition schema_versions :: "planning_input \<Rightarrow> int list" where
  "schema_versions p =
     [pi_schema_version p, scr_schema_version (case_revision p),
      sp_schema_version (student (case_revision p)),
      fp_schema_version (family (case_revision p)),
      be_schema_version (budget (family (case_revision p))),
      spm_schema_version (source_pack p)]
     @ map spe_schema_version (entries (source_pack p))
     @ map er_schema_version (evidence p)
     @ map ce_schema_version (costs p)
     @ map re_schema_version (rankings p)"

definition expected_mixed_authority :: "string \<Rightarrow> evidence_authority" where
  "expected_mixed_authority c =
     (if c = ''australia_program_fit'' then EXTERNALLY_VERIFIED else ACCEPTED_SYNTHETIC_DEMO)"

definition validate_contract :: "planning_policy_input \<Rightarrow> string option" where
  "validate_contract inp =
     (let p = view inp in
      if list_ex (\<lambda>v. v \<noteq> 1) (schema_versions p) then Some ''schema_or_version_invalid''
      else if \<not> preferred_country_scope_is_valid
                (preferred_countries (student (case_revision p))) then
        Some ''country_scope_invalid''
      else if revision (case_revision p) \<le> 0 \<or> version (source_pack p) \<le> 0
              \<or> list_ex (\<lambda>e. source_pack_version e \<le> 0) (evidence p) then
        Some ''schema_or_version_invalid''
      else if is_mixed inp \<and>
              (card (claim ` set (evidence p)) \<noteq> length (evidence p)
               \<or> claim ` set (evidence p) \<noteq> MIXED_BASELINE_CLAIMS) then
        Some ''mixed_evidence_baseline_invalid''
      else if is_mixed inp \<and>
              list_ex (\<lambda>e. authority e \<noteq> expected_mixed_authority (claim e)) (evidence p) then
        Some ''mixed_evidence_authority_invalid''
      else if \<not> is_mixed inp \<and>
              list_ex (\<lambda>e. authority e \<noteq> ACCEPTED_SYNTHETIC_DEMO) (evidence p) then
        Some ''evidence_authority_invalid''
      else if list_ex (\<lambda>c. ce_currency c \<noteq> ''AUD'') (costs p) then
        Some ''cost_currency_invalid''
      else None)"

section \<open>Provenance\<close>

definition organization_ids :: "planning_input \<Rightarrow> uuid set" where
  "organization_ids p =
     set ([pi_organization_id p, scr_organization_id (case_revision p),
           spm_organization_id (source_pack p)]
          @ map er_organization_id (evidence p)
          @ map ce_organization_id (costs p)
          @ map re_organization_id (rankings p))"

definition evidence_entry_ok :: "source_pack_manifest \<Rightarrow> evidence_ref \<Rightarrow> bool" where
  "evidence_entry_ok pack e \<longleftrightarrow>
     authority e \<noteq> UNTRUSTED_CANDIDATE
     \<and> er_source_pack_id e = pack_id pack
     \<and> source_pack_version e = version pack
     \<and> (case dict_of entry_id (entries pack) (source_entry_id e) of
          None \<Rightarrow> False
        | Some entry \<Rightarrow> source_sha256 e = sha256 entry \<and> claim e \<in> set (coverage entry))"

definition cites :: "evidence_ref list \<Rightarrow> uuid \<Rightarrow> string \<Rightarrow> bool" where
  "cites evs i expected \<longleftrightarrow>
     (case dict_of evidence_id evs i of None \<Rightarrow> False | Some e \<Rightarrow> claim e = expected)"

definition cost_ok :: "evidence_ref list \<Rightarrow> cost_evidence \<Rightarrow> bool" where
  "cost_ok evs c \<longleftrightarrow>
     cites evs (tuition_evidence_id c) (country_value (ce_country c) @ ''_tuition'')
     \<and> cites evs (living_evidence_id c) (country_value (ce_country c) @ ''_living_cost'')
     \<and> cites evs (fx_evidence_id c) (country_value (ce_country c) @ ''_fx'')"

definition ranking_ok :: "evidence_ref list \<Rightarrow> ranking_evidence \<Rightarrow> bool" where
  "ranking_ok evs r \<longleftrightarrow>
     cites evs (re_evidence_id r) (country_value (re_country r) @ ''_ranking'')"

definition validate_provenance :: "planning_policy_input \<Rightarrow> string option" where
  "validate_provenance inp =
     (let p = view inp in
      if card (organization_ids p) \<noteq> 1 then Some ''tenant_mismatch''
      else if card (evidence_id ` set (evidence p)) \<noteq> length (evidence p)
              \<or> card (claim ` set (evidence p)) \<noteq> length (evidence p) then
        Some ''evidence_provenance_invalid''
      else if list_ex (\<lambda>e. \<not> evidence_entry_ok (source_pack p) e) (evidence p) then
        Some ''evidence_provenance_invalid''
      else if list_ex (\<lambda>c. \<not> cost_ok (evidence p) c) (costs p) then
        Some ''evidence_provenance_invalid''
      else if list_ex (\<lambda>r. \<not> ranking_ok (evidence p) r) (rankings p) then
        Some ''evidence_provenance_invalid''
      else None)"

section \<open>Country assessments\<close>

fun claims_by_country :: "country \<Rightarrow> (string \<times> evidence_role) list" where
  "claims_by_country AUSTRALIA =
     [(''australia_program_fit'', PROGRAM_FIT), (''australia_tuition'', TUITION),
      (''australia_living_cost'', LIVING_COST), (''australia_fx'', FX),
      (''australia_ranking'', RANKING)]"
| "claims_by_country JAPAN = [(''japan_program_fit'', PROGRAM_FIT)]"
| "claims_by_country MALAYSIA = [(''malaysia_program_fit'', PROGRAM_FIT)]"

definition uses_of :: "evidence_ref list \<Rightarrow> country \<Rightarrow> evidence_use list" where
  "uses_of evs c =
     List.map_filter (\<lambda>(cl, r). case evidence_by_claim evs cl of
         None \<Rightarrow> None
       | Some e \<Rightarrow> Some \<lparr>role = r, eu_evidence_id = evidence_id e\<rparr>) (claims_by_country c)"

fun dimension_outcome_of :: "route_outcome \<Rightarrow> dimension_outcome" where
  "dimension_outcome_of RO_BLOCKED = DO_BLOCKED"
| "dimension_outcome_of RO_RECOMMENDED_WITH_CONDITION = DO_SUPPORTED"
| "dimension_outcome_of RO_CONDITIONAL = DO_CONDITIONAL"

definition route_result_of ::
  "country \<Rightarrow> route_outcome \<Rightarrow> string \<Rightarrow> evidence_ref list \<Rightarrow> route_result" where
  "route_result_of c outcome reason evs =
     \<lparr>rr_country = c, rr_outcome = outcome, rr_reason_code = reason,
      dimensions = [\<lparr>dimension_key = ''route_assessment'',
                     dr_outcome = dimension_outcome_of outcome,
                     dr_reason_code = reason, evidence_uses = uses_of evs c\<rparr>]\<rparr>"

definition required_claims :: "string list" where
  "required_claims =
     [''australia_program_fit'', ''australia_tuition'', ''australia_living_cost'',
      ''australia_fx'']"

definition australia_cost :: "planning_input \<Rightarrow> cost_evidence option" where
  "australia_cost p = find (\<lambda>c. ce_country c = AUSTRALIA) (costs p)"

definition australia_complete :: "planning_input \<Rightarrow> bool" where
  "australia_complete p \<longleftrightarrow>
     list_all (\<lambda>cl. evidence_by_claim (evidence p) cl \<noteq> None) required_claims
     \<and> (case australia_cost p of None \<Rightarrow> False
        | Some c \<Rightarrow>
            ce_intake c = intake (student (case_revision p))
            \<and> ce_period c = be_period (budget (family (case_revision p)))
            \<and> list_all (\<lambda>i. i \<in> evidence_id ` set (evidence p))
                [tuition_evidence_id c, living_evidence_id c, fx_evidence_id c])"

definition total_cost :: "cost_evidence \<Rightarrow> decimal result" where
  "total_cost c = decimal_mul (decimal_of_int (tuition_minor c + living_minor c)) (fx_rate c)"

definition elastic_ceiling :: "int \<Rightarrow> int \<Rightarrow> decimal result" where
  "elastic_ceiling pref bps =
     bind_result (decimal_div_pow10 (decimal_of_int bps) 4) (\<lambda>fraction.
     bind_result (decimal_add (decimal_of_int 1) fraction) (\<lambda>factor.
       decimal_mul (decimal_of_int pref) factor))"

definition australia :: "planning_input \<Rightarrow> route_result result" where
  "australia p =
     (let b = budget (family (case_revision p)); evs = evidence p in
      if refused b \<or> \<not> australia_complete p then
        Inr (route_result_of AUSTRALIA RO_BLOCKED
              (if refused b then ''budget_refused'' else ''cost_or_fx_evidence_incomplete'') evs)
      else (case (australia_cost p, preferred_minor b, hard_ceiling_minor b) of
          (Some cost, Some pref, Some hard) \<Rightarrow>
            bind_result (total_cost cost) (\<lambda>total.
            bind_result (elastic_ceiling pref (elasticity_bps b)) (\<lambda>ceiling.
              if decimal_gt total (decimal_of_int hard) \<or> decimal_gt total ceiling then
                Inr (route_result_of AUSTRALIA RO_BLOCKED
                       ''budget_hard_ceiling_or_elasticity_exceeded'' evs)
              else
                Inr (route_result_of AUSTRALIA RO_RECOMMENDED_WITH_CONDITION
                       ''complete_cost_and_fx_within_boundary'' evs)))
        | _ \<Rightarrow> Inl AssertionError))"

definition japan :: "planning_input \<Rightarrow> route_result" where
  "japan p =
     (let ok = evidence_by_claim (evidence p) ''japan_program_fit'' \<noteq> None
               \<and> japan_risk_accepted (family (case_revision p)) in
      route_result_of JAPAN (if ok then RO_CONDITIONAL else RO_BLOCKED)
        (if ok then ''synthetic_high_risk_alternative''
         else ''japan_risk_or_program_fit_unresolved'') (evidence p))"

definition malaysia :: "planning_input \<Rightarrow> route_result" where
  "malaysia p =
     (let ok = evidence_by_claim (evidence p) ''malaysia_program_fit'' \<noteq> None in
      route_result_of MALAYSIA (if ok then RO_CONDITIONAL else RO_BLOCKED)
        (if ok then ''malaysia_program_fit_present''
         else ''direct_program_fit_evidence_absent'') (evidence p))"

section \<open>The run\<close>

definition failed_result :: "string \<Rightarrow> planning_result" where
  "failed_result code = \<lparr>pr_state = RS_FAILED, pr_reason_code = code, routes = []\<rparr>"

fun route_for :: "planning_input \<Rightarrow> route_result \<Rightarrow> country \<Rightarrow> route_result" where
  "route_for p aus AUSTRALIA = aus"
| "route_for p aus JAPAN = japan p"
| "route_for p aus MALAYSIA = malaysia p"

definition recommended :: "route_result list \<Rightarrow> nat" where
  "recommended rs = length (filter (\<lambda>r. rr_outcome r = RO_RECOMMENDED_WITH_CONDITION) rs)"

definition evaluate_planning_run :: "planning_policy_input \<Rightarrow> planning_result result" where
  "evaluate_planning_run inp =
     (case validate_contract inp of
        Some code \<Rightarrow> Inr (failed_result code)
      | None \<Rightarrow>
        (case validate_provenance inp of
           Some code \<Rightarrow> Inr (failed_result code)
         | None \<Rightarrow>
           (let p = view inp in
            bind_result (australia p) (\<lambda>aus.
              let rs = map (route_for p aus) (preferred_countries (student (case_revision p)));
                  n = recommended rs in
              Inr \<lparr>pr_state = (if n = 1 then RS_REVIEW_REQUIRED else RS_BLOCKED),
                   pr_reason_code =
                     (if n = 1 then ''single_fully_evidenced_recommendation''
                      else ''recommendation_cardinality''),
                   routes = rs\<rparr>))))"

section \<open>Lemmas\<close>

lemma transition_runs_append:
  "transition_runs s (xs @ ys) = bind_result (transition_runs s xs) (\<lambda>s'. transition_runs s' ys)"
  by (induction xs arbitrary: s) (auto simp: bind_result_def split: sum.splits)

text \<open>A rank that every accepted transition increases.\<close>

fun run_rank :: "run_state \<Rightarrow> nat" where
  "run_rank RS_DRAFT = 0"
| "run_rank RS_COLLECTING_EVIDENCE = 1"
| "run_rank RS_SYNTHESIZING = 2"
| "run_rank RS_FAILED = 3"
| "run_rank RS_BLOCKED = 3"
| "run_rank RS_REVIEW_REQUIRED = 3"

lemma run_rank_le [simp]: "run_rank s \<le> 3"
  by (cases s) simp_all

lemma transition_run_rank: "transition_run s t = Inr u \<Longrightarrow> u = t \<and> run_rank s < run_rank t"
  by (cases s; cases t) (simp_all add: transition_run_def)

lemma transition_runs_rank: "transition_runs s ts = Inr u \<Longrightarrow> run_rank s + length ts \<le> run_rank u"
  by (induction ts arbitrary: s) (fastforce dest: transition_run_rank)+

lemma evidence_by_claim_SomeD:
  "evidence_by_claim evs c = Some e \<Longrightarrow> e \<in> set evs \<and> claim e = c"
  unfolding evidence_by_claim_def by (rule dict_of_SomeD)

lemma uses_of_iff:
  "u \<in> set (uses_of evs c) \<longleftrightarrow>
     (\<exists>cl e. (cl, role u) \<in> set (claims_by_country c) \<and> evidence_by_claim evs cl = Some e
             \<and> eu_evidence_id u = evidence_id e)"
  by (cases u) (force simp: uses_of_def map_filter_set split: option.splits)

lemma route_result_of_simps [simp]:
  "rr_country (route_result_of c out reason evs) = c"
  "rr_outcome (route_result_of c out reason evs) = out"
  "rr_reason_code (route_result_of c out reason evs) = reason"
  by (simp_all add: route_result_of_def)

lemma australia_country: "australia p = Inr r \<Longrightarrow> rr_country r = AUSTRALIA"
  by (auto simp: australia_def Let_def split: if_splits option.splits)

lemma australia_is_route:
  "australia p = Inr r \<Longrightarrow> \<exists>out reason. r = route_result_of AUSTRALIA out reason (evidence p)"
  by (auto simp: australia_def Let_def split: if_splits option.splits)

lemma route_for_country:
  "australia p = Inr aus \<Longrightarrow> rr_country (route_for p aus c) = c"
  by (cases c) (simp_all add: australia_country japan_def malaysia_def Let_def)

lemma route_for_is_route:
  "australia p = Inr aus \<Longrightarrow>
     \<exists>out reason. route_for p aus c = route_result_of c out reason (evidence p)"
  by (cases c) (auto simp: japan_def malaysia_def Let_def dest: australia_is_route)

lemma route_for_recommended:
  "rr_outcome (route_for p aus c) = RO_RECOMMENDED_WITH_CONDITION \<longleftrightarrow>
     c = AUSTRALIA \<and> rr_outcome aus = RO_RECOMMENDED_WITH_CONDITION"
  by (cases c) (simp_all add: japan_def malaysia_def Let_def)

lemma recommended_count:
  assumes "distinct cs"
  shows "recommended (map (route_for p aus) cs) =
     (if AUSTRALIA \<in> set cs \<and> rr_outcome aus = RO_RECOMMENDED_WITH_CONDITION then 1 else 0)"
proof -
  have "recommended (map (route_for p aus) cs)
        = length (filter (\<lambda>c. c = AUSTRALIA \<and> rr_outcome aus = RO_RECOMMENDED_WITH_CONDITION) cs)"
    by (simp add: recommended_def filter_map o_def route_for_recommended)
  also have "\<dots> = card ({c. c = AUSTRALIA \<and> rr_outcome aus = RO_RECOMMENDED_WITH_CONDITION} \<inter> set cs)"
    using assms by (simp add: distinct_length_filter)
  also have "{c. c = AUSTRALIA \<and> rr_outcome aus = RO_RECOMMENDED_WITH_CONDITION} \<inter> set cs
      = (if AUSTRALIA \<in> set cs \<and> rr_outcome aus = RO_RECOMMENDED_WITH_CONDITION
         then {AUSTRALIA} else {})"
    by auto
  finally show ?thesis by simp
qed

lemma recommended_routes:
  "distinct cs \<Longrightarrow> recommended (map (route_for p aus) cs) = 1 \<longleftrightarrow>
     AUSTRALIA \<in> set cs \<and> rr_outcome aus = RO_RECOMMENDED_WITH_CONDITION"
  by (simp add: recommended_count)

lemma recommended_le: "distinct cs \<Longrightarrow> recommended (map (route_for p aus) cs) \<le> 1"
  by (simp add: recommended_count)

lemma contract_scope:
  "validate_contract inp = None \<Longrightarrow>
     preferred_country_scope_is_valid (preferred_countries (student (case_revision (view inp))))"
  by (auto simp: validate_contract_def Let_def split: if_splits)

lemma evaluate_cases:
  assumes "evaluate_planning_run inp = Inr res"
  obtains (failed) code where "res = failed_result code"
      "validate_contract inp = Some code \<or>
       validate_contract inp = None \<and> validate_provenance inp = Some code"
    | (assessed) aus where "validate_contract inp = None" "validate_provenance inp = None"
      "australia (view inp) = Inr aus"
      "routes res = map (route_for (view inp) aus)
                        (preferred_countries (student (case_revision (view inp))))"
      "pr_state res = (if recommended (routes res) = 1 then RS_REVIEW_REQUIRED else RS_BLOCKED)"
  using assms
  by (auto simp: evaluate_planning_run_def Let_def split: option.splits)

text \<open>The abstract reading of the boundary, in exact rational arithmetic.\<close>

definition within_boundary :: "planning_input \<Rightarrow> bool" where
  "within_boundary p \<longleftrightarrow>
     (let b = budget (family (case_revision p)) in
      \<not> refused b \<and> australia_complete p \<and>
      (\<exists>cost pref hard. australia_cost p = Some cost \<and> preferred_minor b = Some pref \<and>
         hard_ceiling_minor b = Some hard \<and>
         of_int (tuition_minor cost + living_minor cost) * decimal_value (fx_rate cost)
           \<le> (of_int hard :: rat) \<and>
         10000 * (of_int (tuition_minor cost + living_minor cost) * decimal_value (fx_rate cost))
           \<le> (of_int (pref * (10000 + elasticity_bps b)) :: rat)))"

text \<open>Amounts whose product with the rate has at most 28 digits.\<close>

definition cost_in_range :: "cost_evidence \<Rightarrow> bool" where
  "cost_in_range c \<longleftrightarrow>
     exact_range (Dec ((tuition_minor c + living_minor c) * coefficient (fx_rate c))
                      (exponent (fx_rate c)))"

definition budget_in_range :: "budget_envelope \<Rightarrow> bool" where
  "budget_in_range b \<longleftrightarrow>
     0 \<le> elasticity_bps b \<and> elasticity_bps b \<le> 2500 \<and>
     (case preferred_minor b of None \<Rightarrow> True
      | Some pref \<Rightarrow> 0 < pref \<and> pref * (10000 + elasticity_bps b) < 10 ^ decimal_prec)"

definition money_in_range :: "planning_input \<Rightarrow> bool" where
  "money_in_range p \<longleftrightarrow>
     list_all cost_in_range (costs p) \<and> budget_in_range (budget (family (case_revision p)))"

lemma total_cost_exact:
  "cost_in_range c \<Longrightarrow>
     \<exists>t. total_cost c = Inr t \<and>
         decimal_value t = of_int (tuition_minor c + living_minor c) * decimal_value (fx_rate c)"
  using decimal_mul_exact [of "decimal_of_int (tuition_minor c + living_minor c)" "fx_rate c"]
  by (simp add: total_cost_def cost_in_range_def decimal_of_int_def decimal_value_def)

lemma elastic_ceiling_exact:
  assumes "0 \<le> bps" "bps \<le> 2500" "0 < pref" "pref * (10000 + bps) < 10 ^ decimal_prec"
  shows "elastic_ceiling pref bps = Inr (Dec (pref * (10000 + bps)) (- 4))"
proof -
  have 1: "decimal_div_pow10 (decimal_of_int bps) 4 = Inr (Dec bps (- 4))"
    using assms by (simp add: decimal_div_pow10_def decimal_of_int_def decimal_fix_exact
      exact_range_def decimal_context_defs)
  have 2: "decimal_add (decimal_of_int 1) (Dec bps (- 4)) = Inr (Dec (10000 + bps) (- 4))"
    using assms by (simp add: decimal_add_def decimal_of_int_def decimal_fix_exact
      exact_range_def decimal_context_defs Let_def)
  have 3: "decimal_mul (decimal_of_int pref) (Dec (10000 + bps) (- 4))
             = Inr (Dec (pref * (10000 + bps)) (- 4))"
    using assms decimal_mul_exact [of "decimal_of_int pref" "Dec (10000 + bps) (- 4)"]
    by (simp add: decimal_of_int_def exact_range_def decimal_context_defs)
  show ?thesis by (simp add: elastic_ceiling_def 1 2 3)
qed

lemma australia_cost_mem: "australia_cost p = Some c \<Longrightarrow> c \<in> set (costs p)"
  by (auto simp: australia_cost_def find_Some_iff)

end
