(* ===== verification/Planning_Revision.thy ===== *)
theory Planning_Revision
  imports Planning_Policy
begin

text \<open>
  \<open>planning/revision.py\<close>: the lineage of two adjacent case revisions, the one fact
  that changed between them, and the closed comparison of their two planning
  results.  The canonical hash of a result is the parameter \<open>hash_result\<close>.
  A failed field constraint of a model is the error \<open>field_error\<close>.
\<close>

definition field_error :: exn where
  "field_error = ValueError ''field''"

section \<open>Constrained strings\<close>

definition is_lower_alnum :: "char \<Rightarrow> bool" where
  "is_lower_alnum c \<longleftrightarrow> c \<in> set ''abcdefghijklmnopqrstuvwxyz0123456789''"

definition is_reason_code :: "string \<Rightarrow> bool" where
  "is_reason_code s \<longleftrightarrow>
     (case s of [] \<Rightarrow> False
      | c # cs \<Rightarrow> is_lower_alnum c \<and> length cs \<le> 99
                  \<and> list_all (\<lambda>x. is_lower_alnum x \<or> x = CHR ''_'') cs)"

definition is_digit :: "char \<Rightarrow> bool" where
  "is_digit c \<longleftrightarrow> c \<in> set ''0123456789''"

definition is_intake_month :: "string \<Rightarrow> bool" where
  "is_intake_month s \<longleftrightarrow>
     length s = 7 \<and> list_all is_digit (take 4 s) \<and> s ! 4 = CHR ''-''
     \<and> (s ! 5 = CHR ''0'' \<and> is_digit (s ! 6) \<and> s ! 6 \<noteq> CHR ''0''
        \<or> s ! 5 = CHR ''1'' \<and> s ! 6 \<in> set ''012'')"

definition validate_intake_year :: "string \<Rightarrow> string result" where
  "validate_intake_year v =
     (if take 4 v = ''0000'' then Inl (ValueError ''intake_calendar_year_invalid'') else Inr v)"

section \<open>Lineage\<close>

record planning_revision_lineage =
  lin_schema_version :: int
  lin_case_id :: uuid
  previous_revision :: int
  current_revision :: int
  request_revision_review_id :: uuid
  predecessor_planning_run_id :: uuid

definition adjacent_revision :: "planning_revision_lineage \<Rightarrow> planning_revision_lineage result" where
  "adjacent_revision l =
     (if \<not> (lin_schema_version l = 1 \<and> 0 < previous_revision l \<and> 0 < current_revision l) then
        Inl field_error
      else if current_revision l \<noteq> previous_revision l + 1 then
        Inl (ValueError ''planning_revision_not_adjacent'')
      else Inr l)"

section \<open>Fact deltas\<close>

datatype fact_delta =
    PreferredCountriesDelta "country list" "country list"
  | FamilyBudgetDelta budget_envelope budget_envelope
  | IntakeDelta string string

definition changed_closed_country_scopes :: "country list \<Rightarrow> country list \<Rightarrow> fact_delta result" where
  "changed_closed_country_scopes prev cur =
     (if \<not> preferred_country_scope_is_valid prev \<or> \<not> preferred_country_scope_is_valid cur then
        Inl (ValueError ''planning_revision_country_scope_invalid'')
      else if prev = cur then Inl (ValueError ''planning_revision_fact_unchanged'')
      else Inr (PreferredCountriesDelta prev cur))"

definition changed_budget :: "budget_envelope \<Rightarrow> budget_envelope \<Rightarrow> fact_delta result" where
  "changed_budget prev cur =
     (if prev = cur then Inl (ValueError ''planning_revision_fact_unchanged'')
      else Inr (FamilyBudgetDelta prev cur))"

definition changed_calendar_month :: "string \<Rightarrow> string \<Rightarrow> fact_delta result" where
  "changed_calendar_month prev cur =
     (if \<not> is_intake_month prev \<or> \<not> is_intake_month cur then Inl field_error
      else bind_result (validate_intake_year prev) (\<lambda>_.
           bind_result (validate_intake_year cur) (\<lambda>_.
             if prev = cur then Inl (ValueError ''planning_revision_fact_unchanged'')
             else Inr (IntakeDelta prev cur))))"

fun is_v1_delta :: "fact_delta \<Rightarrow> bool" where
  "is_v1_delta (IntakeDelta p c) = False"
| "is_v1_delta (PreferredCountriesDelta p c) = True"
| "is_v1_delta (FamilyBudgetDelta p c) = True"

definition collect_if :: "bool \<Rightarrow> 'a result \<Rightarrow> 'a list \<Rightarrow> 'a list result" where
  "collect_if b r xs = (if b then bind_result r (\<lambda>x. Inr (xs @ [x])) else Inr xs)"

definition derive_planning_revision_fact_delta ::
  "student_preferences \<Rightarrow> student_preferences \<Rightarrow> family_preferences \<Rightarrow> family_preferences
     \<Rightarrow> fact_delta result" where
  "derive_planning_revision_fact_delta ps cs pf cf =
     bind_result (collect_if (preferred_countries ps \<noteq> preferred_countries cs)
        (changed_closed_country_scopes (preferred_countries ps) (preferred_countries cs)) []) (\<lambda>d1.
     bind_result (collect_if (intake ps \<noteq> intake cs)
        (changed_calendar_month (intake ps) (intake cs)) d1) (\<lambda>d2.
     bind_result (collect_if (budget pf \<noteq> budget cf)
        (changed_budget (budget pf) (budget cf)) d2) (\<lambda>ds.
       if length ds \<noteq> 1
          \<or> ps\<lparr>preferred_countries := preferred_countries cs, intake := intake cs\<rparr> \<noteq> cs
          \<or> pf\<lparr>budget := budget cf\<rparr> \<noteq> cf then
         Inl (ValueError ''planning_revision_changed_fact_invalid'')
       else Inr (hd ds))))"

text \<open>What a delta says: the change of one fact, applied to the earlier preferences.\<close>

fun apply_delta :: "fact_delta \<Rightarrow> student_preferences \<times> family_preferences
    \<Rightarrow> student_preferences \<times> family_preferences" where
  "apply_delta (PreferredCountriesDelta p c) (s, f) = (s\<lparr>preferred_countries := c\<rparr>, f)"
| "apply_delta (FamilyBudgetDelta p c) (s, f) = (s, f\<lparr>budget := c\<rparr>)"
| "apply_delta (IntakeDelta p c) (s, f) = (s\<lparr>intake := c\<rparr>, f)"

fun invert_delta :: "fact_delta \<Rightarrow> fact_delta" where
  "invert_delta (PreferredCountriesDelta p c) = PreferredCountriesDelta c p"
| "invert_delta (FamilyBudgetDelta p c) = FamilyBudgetDelta c p"
| "invert_delta (IntakeDelta p c) = IntakeDelta c p"

section \<open>Projections of persisted results\<close>

record result_projection =
  proj_case_id :: uuid
  proj_case_revision :: int
  proj_planning_run_id :: uuid
  supersedes_run_id :: "uuid option"
  proj_state :: run_state
  proj_reason_code :: string
  proj_routes :: "route_result list"

definition closed_result :: "result_projection \<Rightarrow> result_projection result" where
  "closed_result p =
     (if \<not> (0 < proj_case_revision p \<and> is_reason_code (proj_reason_code p)) then Inl field_error
      else if proj_state p \<notin> {RS_REVIEW_REQUIRED, RS_BLOCKED} then
        Inl (ValueError ''planning_revision_run_state_invalid'')
      else if map rr_country (proj_routes p)
                \<noteq> sorted_list_of_set (set (map rr_country (proj_routes p))) then
        Inl (ValueError ''planning_revision_result_countries_invalid'')
      else Inr p)"

definition planning_result_of :: "result_projection \<Rightarrow> planning_result" where
  "planning_result_of p =
     \<lparr>pr_state = proj_state p, pr_reason_code = proj_reason_code p, routes = proj_routes p\<rparr>"

definition verified_result ::
  "(planning_result \<Rightarrow> sha) \<Rightarrow> result_projection \<Rightarrow> sha \<Rightarrow> planning_result result" where
  "verified_result hash_result p expected =
     (if hash_result (planning_result_of p) \<noteq> expected then
        Inl (ValueError ''planning_result_hash_mismatch'')
      else Inr (planning_result_of p))"

section \<open>The comparison\<close>

datatype revision_delta = ADDED | REMOVED | CHANGED | UNCHANGED

record country_comparison =
  cc_country :: country
  cc_delta :: revision_delta
  previous_outcome :: "route_outcome option"
  previous_reason_code :: "string option"
  current_outcome :: "route_outcome option"
  current_reason_code :: "string option"

definition opt_reason_code :: "string option \<Rightarrow> bool" where
  "opt_reason_code r \<longleftrightarrow> (case r of None \<Rightarrow> True | Some s \<Rightarrow> is_reason_code s)"

definition closed_delta_shape :: "country_comparison \<Rightarrow> country_comparison result" where
  "closed_delta_shape c =
     (let previous = (previous_outcome c, previous_reason_code c);
          current = (current_outcome c, current_reason_code c);
          full = (\<lambda>(a, b). a \<noteq> None \<and> b \<noteq> None);
          valid =
            (if cc_delta c = ADDED then previous = (None, None) \<and> full current
             else if cc_delta c = REMOVED then full previous \<and> current = (None, None)
             else if cc_delta c = UNCHANGED then full previous \<and> previous = current
             else full previous \<and> full current \<and> previous \<noteq> current) in
      if \<not> (opt_reason_code (previous_reason_code c) \<and> opt_reason_code (current_reason_code c)) then
        Inl field_error
      else if \<not> valid then Inl (ValueError ''planning_revision_country_delta_invalid'')
      else Inr c)"

definition delta_between :: "route_result option \<Rightarrow> route_result option \<Rightarrow> revision_delta" where
  "delta_between p c =
     (case p of None \<Rightarrow> ADDED
      | Some pr \<Rightarrow> (case c of None \<Rightarrow> REMOVED
          | Some cr \<Rightarrow>
              if rr_outcome pr = rr_outcome cr \<and> rr_reason_code pr = rr_reason_code cr
              then UNCHANGED else CHANGED))"

definition compare_country ::
  "route_result list \<Rightarrow> route_result list \<Rightarrow> country \<Rightarrow> country_comparison" where
  "compare_country prev cur k =
     (let p = dict_of rr_country prev k; c = dict_of rr_country cur k in
      \<lparr>cc_country = k, cc_delta = delta_between p c,
       previous_outcome = map_option rr_outcome p,
       previous_reason_code = map_option rr_reason_code p,
       current_outcome = map_option rr_outcome c,
       current_reason_code = map_option rr_reason_code c\<rparr>)"

fun check_all :: "('a \<Rightarrow> 'a result) \<Rightarrow> 'a list \<Rightarrow> 'a list result" where
  "check_all f [] = Inr []"
| "check_all f (x # xs) =
     bind_result (f x) (\<lambda>y. bind_result (check_all f xs) (\<lambda>ys. Inr (y # ys)))"

record comparison_payload =
  cp_case_id :: uuid
  cp_previous_revision :: int
  cp_current_revision :: int
  previous_planning_run_id :: uuid
  current_planning_run_id :: uuid
  previous_output_sha256 :: sha
  current_output_sha256 :: sha
  cp_countries :: "country_comparison list"
  current_run_state :: string
  approval_eligible :: bool

definition comparison_payload_of ::
  "(planning_result \<Rightarrow> sha) \<Rightarrow> result_projection \<Rightarrow> result_projection \<Rightarrow> sha \<Rightarrow> sha
     \<Rightarrow> comparison_payload result" where
  "comparison_payload_of hash_result previous current psha csha =
     (if proj_case_id current \<noteq> proj_case_id previous
         \<or> proj_case_revision current \<noteq> proj_case_revision previous + 1
         \<or> supersedes_run_id current \<noteq> Some (proj_planning_run_id previous)
         \<or> proj_planning_run_id current = proj_planning_run_id previous then
        Inl (ValueError ''planning_revision_lineage_mismatch'')
      else
        bind_result (verified_result hash_result previous psha) (\<lambda>p.
        bind_result (verified_result hash_result current csha) (\<lambda>c.
        bind_result (check_all closed_delta_shape
            (map (compare_country (routes p) (routes c))
              (sorted_list_of_set (rr_country ` set (routes p) \<union> rr_country ` set (routes c)))))
          (\<lambda>comparisons.
             let state = (if pr_state c = RS_REVIEW_REQUIRED then ''review_required'' else ''blocked'') in
             Inr \<lparr>cp_case_id = proj_case_id current,
                  cp_previous_revision = proj_case_revision previous,
                  cp_current_revision = proj_case_revision current,
                  previous_planning_run_id = proj_planning_run_id previous,
                  current_planning_run_id = proj_planning_run_id current,
                  previous_output_sha256 = psha, current_output_sha256 = csha,
                  cp_countries = comparisons, current_run_state = state,
                  approval_eligible = (state = ''review_required'')\<rparr>))))"

definition payload_fields_ok :: "comparison_payload \<Rightarrow> bool" where
  "payload_fields_ok c \<longleftrightarrow>
     0 < cp_previous_revision c \<and> 0 < cp_current_revision c
     \<and> is_sha256 (previous_output_sha256 c) \<and> is_sha256 (current_output_sha256 c)
     \<and> current_run_state c \<in> {''review_required'', ''blocked''}"

definition canonical_closed_projection :: "comparison_payload \<Rightarrow> unit result" where
  "canonical_closed_projection c =
     (if map cc_country (cp_countries c)
           \<noteq> sorted_list_of_set (set (map cc_country (cp_countries c))) then
        Inl (ValueError ''planning_revision_comparison_countries_invalid'')
      else if cp_current_revision c \<noteq> cp_previous_revision c + 1 then
        Inl (ValueError ''planning_revision_not_adjacent'')
      else if approval_eligible c \<noteq> (current_run_state c = ''review_required'') then
        Inl (ValueError ''planning_revision_approval_eligibility_invalid'')
      else Inr ())"

record revision_comparison = comparison_payload +
  changed_fact :: fact_delta

record request_review =
  review_id :: uuid
  review_version :: int
  rq_planning_run_id :: uuid
  rq_case_revision :: int

record revision_comparison_v2 = comparison_payload +
  changed_fact_v2 :: fact_delta
  previous_request_review :: request_review

definition build_planning_revision_comparison ::
  "(planning_result \<Rightarrow> sha) \<Rightarrow> fact_delta \<Rightarrow> result_projection \<Rightarrow> result_projection \<Rightarrow> sha \<Rightarrow> sha
     \<Rightarrow> revision_comparison result" where
  "build_planning_revision_comparison hash_result changed previous current psha csha =
     bind_result (comparison_payload_of hash_result previous current psha csha) (\<lambda>c.
     bind_result (ensure (payload_fields_ok c \<and> is_v1_delta changed) field_error) (\<lambda>_.
     bind_result (canonical_closed_projection c) (\<lambda>_.
       Inr (comparison_payload.extend c (revision_comparison.fields changed)))))"

definition build_planning_revision_comparison_v2 ::
  "(planning_result \<Rightarrow> sha) \<Rightarrow> fact_delta \<Rightarrow> request_review \<Rightarrow> result_projection
     \<Rightarrow> result_projection \<Rightarrow> sha \<Rightarrow> sha \<Rightarrow> revision_comparison_v2 result" where
  "build_planning_revision_comparison_v2 hash_result changed review previous current psha csha =
     bind_result (comparison_payload_of hash_result previous current psha csha) (\<lambda>c.
     bind_result (ensure (payload_fields_ok c) field_error) (\<lambda>_.
     bind_result (canonical_closed_projection c) (\<lambda>_.
     bind_result (ensure (rq_case_revision review = cp_previous_revision c
                          \<and> rq_planning_run_id review = previous_planning_run_id c)
        (ValueError ''planning_revision_request_review_lineage_mismatch'')) (\<lambda>_.
       Inr (comparison_payload.extend c (revision_comparison_v2.fields changed review))))))"

section \<open>Lemmas\<close>

text \<open>What the delta constructors accept.\<close>

fun well_formed_delta :: "fact_delta \<Rightarrow> bool" where
  "well_formed_delta (PreferredCountriesDelta p c) \<longleftrightarrow>
     preferred_country_scope_is_valid p \<and> preferred_country_scope_is_valid c \<and> p \<noteq> c"
| "well_formed_delta (FamilyBudgetDelta p c) \<longleftrightarrow> p \<noteq> c"
| "well_formed_delta (IntakeDelta p c) \<longleftrightarrow>
     is_intake_month p \<and> is_intake_month c \<and> take 4 p \<noteq> ''0000'' \<and> take 4 c \<noteq> ''0000'' \<and> p \<noteq> c"

fun delta_starts_at :: "fact_delta \<Rightarrow> student_preferences \<times> family_preferences \<Rightarrow> bool" where
  "delta_starts_at (PreferredCountriesDelta p c) (s, f) \<longleftrightarrow> preferred_countries s = p"
| "delta_starts_at (FamilyBudgetDelta p c) (s, f) \<longleftrightarrow> budget f = p"
| "delta_starts_at (IntakeDelta p c) (s, f) \<longleftrightarrow> intake s = p"

lemma changed_closed_country_scopes_iff [simp]:
  "changed_closed_country_scopes p c = Inr d \<longleftrightarrow>
     d = PreferredCountriesDelta p c \<and> well_formed_delta d"
  by (auto simp: changed_closed_country_scopes_def)

lemma changed_budget_iff [simp]:
  "changed_budget p c = Inr d \<longleftrightarrow> d = FamilyBudgetDelta p c \<and> well_formed_delta d"
  by (auto simp: changed_budget_def)

lemma changed_calendar_month_iff [simp]:
  "changed_calendar_month p c = Inr d \<longleftrightarrow> d = IntakeDelta p c \<and> well_formed_delta d"
  by (auto simp: changed_calendar_month_def validate_intake_year_def split: if_splits)

lemma collect_if_iff [simp]:
  "collect_if b r xs = Inr ys \<longleftrightarrow> (if b then \<exists>x. r = Inr x \<and> ys = xs @ [x] else ys = xs)"
  by (auto simp: collect_if_def)

lemma delta_change:
  "well_formed_delta d \<Longrightarrow> delta_starts_at d (s, f) \<Longrightarrow> apply_delta d (s, f) = (s', f') \<Longrightarrow>
     (preferred_countries s \<noteq> preferred_countries s' \<longleftrightarrow> (\<exists>p c. d = PreferredCountriesDelta p c))
     \<and> (intake s \<noteq> intake s' \<longleftrightarrow> (\<exists>p c. d = IntakeDelta p c))
     \<and> (budget f \<noteq> budget f' \<longleftrightarrow> (\<exists>p c. d = FamilyBudgetDelta p c))"
  by (cases d) auto

lemma check_all_Inr_iff:
  assumes "\<And>x y. f x = Inr y \<Longrightarrow> y = x"
  shows "check_all f xs = Inr ys \<longleftrightarrow> ys = xs \<and> (\<forall>x\<in>set xs. f x = Inr x)"
proof (induction xs arbitrary: ys)
  case (Cons x xs)
  show ?case by (auto simp: Cons dest: assms)
qed auto

lemma closed_delta_shape_InrD: "closed_delta_shape c = Inr d \<Longrightarrow> d = c"
  by (auto simp: closed_delta_shape_def Let_def split: if_splits)

lemmas check_countries_iff = check_all_Inr_iff [of closed_delta_shape, OF closed_delta_shape_InrD]

lemma compare_country_shape:
  assumes "dict_of rr_country prev k \<noteq> None \<or> dict_of rr_country cur k \<noteq> None"
    and "\<forall>r\<in>set prev \<union> set cur. is_reason_code (rr_reason_code r)"
  shows "closed_delta_shape (compare_country prev cur k) = Inr (compare_country prev cur k)"
proof -
  have "opt_reason_code (previous_reason_code (compare_country prev cur k))"
    "opt_reason_code (current_reason_code (compare_country prev cur k))"
    using assms(2)
    by (auto simp: opt_reason_code_def compare_country_def Let_def split: option.splits
        dest: dict_of_SomeD)
  with assms(1) show ?thesis
    by (auto simp: closed_delta_shape_def Let_def compare_country_def delta_between_def
        split: option.splits)
qed

lemma compare_country_country [simp]: "cc_country (compare_country prev cur k) = k"
  by (simp add: compare_country_def Let_def)

lemma map_compare_country [simp]: "map (cc_country \<circ> compare_country prev cur) ks = ks"
  by (simp add: o_def)

lemma finite_countries [simp]: "finite (A :: country set)"
proof (rule finite_subset)
  show "A \<subseteq> {AUSTRALIA, JAPAN, MALAYSIA}" using country.exhaust by blast
qed simp

lemma set_sorted_countries [simp]:
  "set (sorted_list_of_set (A :: country set)) = A"
  by simp

end
