(* ===== verification/Planning_Fixtures.thy ===== *)
theory Planning_Fixtures
  imports Planning_Policy
begin

text \<open>
  \<open>planning/fixtures.py\<close>: the eight stable scenarios derived from the checked-in
  fixture \<open>fixtures/m3a/manifest.json\<close>, and the validation of a fixture.  Reading
  the files, JSON decoding and the canonical hash are parameters.  The fixture is
  written out as \<open>golden_input\<close>, so the scenarios run inside the logic.
\<close>

section \<open>Values of the enumerations\<close>

fun run_state_value :: "run_state \<Rightarrow> string" where
  "run_state_value RS_DRAFT = ''draft''"
| "run_state_value RS_COLLECTING_EVIDENCE = ''collecting_evidence''"
| "run_state_value RS_SYNTHESIZING = ''synthesizing''"
| "run_state_value RS_FAILED = ''failed''"
| "run_state_value RS_BLOCKED = ''blocked''"
| "run_state_value RS_REVIEW_REQUIRED = ''review_required''"

fun route_outcome_value :: "route_outcome \<Rightarrow> string" where
  "route_outcome_value RO_RECOMMENDED_WITH_CONDITION = ''recommended_with_condition''"
| "route_outcome_value RO_CONDITIONAL = ''conditional''"
| "route_outcome_value RO_BLOCKED = ''blocked''"

section \<open>Fixtures and scenarios\<close>

definition EVAL_IDS :: "string set" where
  "EVAL_IDS =
     {''golden_australia_conditional'', ''budget_refused'', ''japan_risk_accepted'',
      ''malaysia_program_fit_gap'', ''stale_cost_ranking'', ''dra_fallback_ready'',
      ''mke_zero_hit'', ''family_preference_conflict''}"

record validated_planning_fixture =
  vf_planning_input :: planning_input
  vf_result :: planning_result
  vf_manifest_sha256 :: sha
  vf_evidence_projection_sha256 :: sha
  vf_output_sha256 :: sha
  eval_assertions :: "(string \<times> string) list"

definition result_snapshot :: "planning_result \<Rightarrow> (string \<times> string) list" where
  "result_snapshot r =
     map (\<lambda>x. (country_value (rr_country x), route_outcome_value (rr_outcome x))) (routes r)
     @ [(''run_state'', run_state_value (pr_state r))]"

text \<open>Equality of two dictionaries given by their items (a later item wins).\<close>

definition dict_eq :: "(string \<times> string) list \<Rightarrow> (string \<times> string) list \<Rightarrow> bool" where
  "dict_eq xs ys \<longleftrightarrow>
     list_all (\<lambda>k. map_of (rev xs) k = map_of (rev ys) k) (map fst xs @ map fst ys)"

definition with_budget :: "planning_input \<Rightarrow> budget_envelope \<Rightarrow> planning_input" where
  "with_budget p b =
     p\<lparr>case_revision := (case_revision p)\<lparr>family := (family (case_revision p))\<lparr>budget := b\<rparr>\<rparr>\<rparr>"

definition build_dra_fallback_scenario :: "planning_input \<Rightarrow> planning_input result" where
  "build_dra_fallback_scenario base =
     (case evidence base of [] \<Rightarrow> Inl IndexError
      | e # es \<Rightarrow> Inr (base\<lparr>evidence := e\<lparr>authority := UNTRUSTED_CANDIDATE\<rparr> # es\<rparr>))"

definition state_value_of :: "planning_input \<Rightarrow> string result" where
  "state_value_of p =
     bind_result (evaluate_planning_run (Plain p)) (\<lambda>r. Inr (run_state_value (pr_state r)))"

definition outcome_value_of :: "planning_result \<Rightarrow> country \<Rightarrow> string result" where
  "outcome_value_of r c =
     (case find (\<lambda>x. rr_country x = c) (routes r) of
        None \<Rightarrow> Inl StopIteration
      | Some x \<Rightarrow> Inr (route_outcome_value (rr_outcome x)))"

definition refused_scenario :: "planning_input \<Rightarrow> planning_input" where
  "refused_scenario base =
     with_budget base ((budget (family (case_revision base)))
       \<lparr>preferred_minor := None, hard_ceiling_minor := None, refused := True\<rparr>)"

definition stale_ranking_scenario :: "planning_input \<Rightarrow> planning_input" where
  "stale_ranking_scenario base =
     base\<lparr>evidence := map (\<lambda>e. if claim e = ''australia_ranking''
        then e\<lparr>source_sha256 := replicate 64 (CHR ''f'')\<rparr> else e) (evidence base)\<rparr>"

definition zero_hit_scenario :: "planning_input \<Rightarrow> planning_input" where
  "zero_hit_scenario base =
     base\<lparr>evidence := filter (\<lambda>e. claim e \<noteq> ''australia_program_fit'') (evidence base)\<rparr>"

definition conflict_scenario :: "planning_input \<Rightarrow> planning_input" where
  "conflict_scenario base =
     with_budget base ((budget (family (case_revision base)))
       \<lparr>preferred_minor := Some 10000000, hard_ceiling_minor := Some 10000000\<rparr>)"

definition evaluate_stable_scenarios :: "planning_input \<Rightarrow> (string \<times> string) list result" where
  "evaluate_stable_scenarios base =
     bind_result (build_dra_fallback_scenario base) (\<lambda>dra_fallback.
     bind_result (evaluate_planning_run (Plain base)) (\<lambda>golden.
     bind_result (outcome_value_of golden JAPAN) (\<lambda>jp.
     bind_result (outcome_value_of golden MALAYSIA) (\<lambda>my.
     bind_result (state_value_of (refused_scenario base)) (\<lambda>refused_state.
     bind_result (state_value_of (stale_ranking_scenario base)) (\<lambda>stale.
     bind_result (state_value_of dra_fallback) (\<lambda>dra.
     bind_result (state_value_of (zero_hit_scenario base)) (\<lambda>zero_hit.
     bind_result (state_value_of (conflict_scenario base)) (\<lambda>conflict.
       Inr [(''golden_australia_conditional'', run_state_value (pr_state golden)),
            (''budget_refused'', refused_state),
            (''japan_risk_accepted'', jp),
            (''malaysia_program_fit_gap'', my),
            (''stale_cost_ranking'', stale),
            (''dra_fallback_ready'', dra),
            (''mke_zero_hit'', zero_hit),
            (''family_preference_conflict'', conflict)])))))))))"

text \<open>
  The parameters of \<open>validate_planning_fixture\<close>: whether an entry's resolved path
  stays under the manifest's directory, the SHA-256 of an entry's file, and the
  canonical hashes.
\<close>

record fixture_env =
  inside_root :: "source_pack_entry \<Rightarrow> bool"
  file_sha256 :: "source_pack_entry \<Rightarrow> sha"
  hash_manifest :: "source_pack_manifest \<Rightarrow> sha"
  hash_evidence :: "evidence_ref list \<Rightarrow> sha"
  hash_result :: "planning_result \<Rightarrow> sha"

fun check_entry_files :: "fixture_env \<Rightarrow> source_pack_entry list \<Rightarrow> unit result" where
  "check_entry_files env [] = Inr ()"
| "check_entry_files env (e # es) =
     (if \<not> inside_root env e then Inl (ValueError ''source path escapes manifest root'')
      else if file_sha256 env e \<noteq> sha256 e then Inl (ValueError ''source hash mismatch'')
      else check_entry_files env es)"

definition validate_planning_fixture ::
  "fixture_env \<Rightarrow> planning_input \<Rightarrow> (string \<times> string) list \<Rightarrow> (string \<times> string) list
     \<Rightarrow> validated_planning_fixture result" where
  "validate_planning_fixture env payload expected evals =
     bind_result (ensure (valid_source_pack_manifest (source_pack payload))
                    (ValueError ''source_pack'')) (\<lambda>_.
     bind_result (check_entry_files env (entries (source_pack payload))) (\<lambda>_.
     bind_result (ensure (valid_planning_input payload) (ValueError ''planning_input'')) (\<lambda>_.
     bind_result (evaluate_planning_run (Plain payload)) (\<lambda>r.
     bind_result (ensure (dict_eq (result_snapshot r) expected)
        (ValueError ''planning snapshot does not match expected assertions'')) (\<lambda>_.
     bind_result (ensure (fst ` set evals = EVAL_IDS)
        (ValueError ''eval manifest IDs do not match the stable M3A contract'')) (\<lambda>_.
     bind_result (evaluate_stable_scenarios payload) (\<lambda>scenarios.
     bind_result (ensure (dict_eq scenarios evals)
        (ValueError ''stable eval scenario assertions do not match policy results'')) (\<lambda>_.
     bind_result (ensure (list_all (\<lambda>e. authority e = ACCEPTED_SYNTHETIC_DEMO) (evidence payload))
        (ValueError ''checked-in M3A fixtures may use only accepted_synthetic_demo'')) (\<lambda>_.
       Inr \<lparr>vf_planning_input = payload, vf_result = r,
            vf_manifest_sha256 = hash_manifest env (source_pack payload),
            vf_evidence_projection_sha256 = hash_evidence env (evidence payload),
            vf_output_sha256 = hash_result env r,
            eval_assertions = evals\<rparr>)))))))))"

section \<open>The checked-in fixture\<close>

definition golden_org :: uuid where "golden_org = 0x10000000000000000000000000000001"
definition golden_pack_id :: uuid where "golden_pack_id = 0x50000000000000000000000000000001"

definition golden_budget :: budget_envelope where
  "golden_budget = \<lparr>be_schema_version = 1, be_currency = ''CNY'', be_period = ''program_total'',
     preferred_minor = Some 34000000, hard_ceiling_minor = Some 40000000,
     elasticity_bps = 1000, refused = False\<rparr>"

definition golden_case :: student_case_revision where
  "golden_case = \<lparr>scr_schema_version = 1, scr_organization_id = golden_org,
     scr_case_id = 0x40000000000000000000000000000001, revision = 1,
     student = \<lparr>sp_schema_version = 1, intended_field = ''computing'',
       preferred_countries = [AUSTRALIA, JAPAN, MALAYSIA], intake = ''2027-02''\<rparr>,
     family = \<lparr>fp_schema_version = 1, risk_tolerance = High, japan_risk_accepted = True,
       budget = golden_budget\<rparr>\<rparr>"

definition golden_pack :: source_pack_manifest where
  "golden_pack = \<lparr>spm_schema_version = 1, spm_organization_id = golden_org,
     pack_id = golden_pack_id, version = 1, entries = [
    \<lparr>spe_schema_version = 1, entry_id = 0x51000000000000000000000000000001, path = ''sources/australia.txt'',
     sha256 = ''ec5c5ae9dd8b7575dac15f8e4fcfb1332be2832a0f773a5c4fcd690638038cce'',
     snapshot_date = (2026, 7, 1), publisher = ''Synthetic Demo Publisher'',
     institution = ''Synthetic Australia Institution'',
     canonical_url = ''https://example.invalid/australia'', freshness_days = 365,
     redistribution_class = SYNTHETIC_PUBLIC, evidence_class = SYNTHETIC_DEMO,
     coverage = [''australia_program_fit'', ''australia_tuition'', ''australia_living_cost'', ''australia_fx'', ''australia_ranking''],
     known_gaps = []\<rparr>,
    \<lparr>spe_schema_version = 1, entry_id = 0x51000000000000000000000000000002, path = ''sources/japan.txt'',
     sha256 = ''02aaaf05433d55389d95ba22a18f5dd1c05b59d318ca10e83f7f2485115ba92a'',
     snapshot_date = (2026, 7, 1), publisher = ''Synthetic Demo Publisher'',
     institution = ''Synthetic Japan Institution'',
     canonical_url = ''https://example.invalid/japan'', freshness_days = 365,
     redistribution_class = SYNTHETIC_PUBLIC, evidence_class = SYNTHETIC_DEMO,
     coverage = [''japan_program_fit''],
     known_gaps = [''high_risk_alternative'']\<rparr>,
    \<lparr>spe_schema_version = 1, entry_id = 0x51000000000000000000000000000003, path = ''sources/malaysia.txt'',
     sha256 = ''6c9c0de61110663cba5af542c571bda26791e029f98267790f1065a9ed707179'',
     snapshot_date = (2026, 7, 1), publisher = ''Synthetic Demo Publisher'',
     institution = ''Synthetic Malaysia Institution'',
     canonical_url = ''https://example.invalid/malaysia'', freshness_days = 365,
     redistribution_class = SYNTHETIC_PUBLIC, evidence_class = SYNTHETIC_DEMO,
     coverage = [''malaysia_context''],
     known_gaps = [''direct_program_fit'']\<rparr>]\<rparr>"

definition golden_ref :: "uuid \<Rightarrow> string \<Rightarrow> uuid \<Rightarrow> sha \<Rightarrow> evidence_ref" where
  "golden_ref i c e h = \<lparr>er_schema_version = 1, er_organization_id = golden_org,
     evidence_id = i, claim = c, er_source_pack_id = golden_pack_id, source_pack_version = 1,
     source_entry_id = e, source_sha256 = h, authority = ACCEPTED_SYNTHETIC_DEMO\<rparr>"

definition golden_input :: planning_input where
  "golden_input = \<lparr>pi_schema_version = 1, pi_organization_id = golden_org,
     case_revision = golden_case, source_pack = golden_pack,
     evidence = [
    golden_ref 0x60000000000000000000000000000001 ''australia_program_fit''
       0x51000000000000000000000000000001
       ''ec5c5ae9dd8b7575dac15f8e4fcfb1332be2832a0f773a5c4fcd690638038cce'',
    golden_ref 0x60000000000000000000000000000002 ''australia_tuition''
       0x51000000000000000000000000000001
       ''ec5c5ae9dd8b7575dac15f8e4fcfb1332be2832a0f773a5c4fcd690638038cce'',
    golden_ref 0x60000000000000000000000000000003 ''australia_living_cost''
       0x51000000000000000000000000000001
       ''ec5c5ae9dd8b7575dac15f8e4fcfb1332be2832a0f773a5c4fcd690638038cce'',
    golden_ref 0x60000000000000000000000000000004 ''australia_fx''
       0x51000000000000000000000000000001
       ''ec5c5ae9dd8b7575dac15f8e4fcfb1332be2832a0f773a5c4fcd690638038cce'',
    golden_ref 0x60000000000000000000000000000005 ''japan_program_fit''
       0x51000000000000000000000000000002
       ''02aaaf05433d55389d95ba22a18f5dd1c05b59d318ca10e83f7f2485115ba92a'',
    golden_ref 0x60000000000000000000000000000006 ''australia_ranking''
       0x51000000000000000000000000000001
       ''ec5c5ae9dd8b7575dac15f8e4fcfb1332be2832a0f773a5c4fcd690638038cce''],
     costs = [\<lparr>ce_schema_version = 1, ce_organization_id = golden_org, ce_country = AUSTRALIA,
       ce_intake = ''2027-02'', ce_period = ''program_total'', ce_currency = ''AUD'',
       tuition_minor = 4000000, living_minor = 2500000, fx_rate = Dec 470 (- 2),
       fx_source = ''Synthetic central-bank fixture'', fx_date = (2026, 7, 1),
       tuition_evidence_id = 0x60000000000000000000000000000002,
       living_evidence_id = 0x60000000000000000000000000000003,
       fx_evidence_id = 0x60000000000000000000000000000004\<rparr>],
     rankings = [\<lparr>re_schema_version = 1, re_organization_id = golden_org, re_country = AUSTRALIA,
       ranking_system = ''synthetic_demo_scale'', rank = 10, publication_year = 2026,
       re_evidence_id = 0x60000000000000000000000000000006\<rparr>],
     narrative = None\<rparr>"

definition golden_expected :: "(string \<times> string) list" where
  "golden_expected = [(''australia'', ''recommended_with_condition''),
      (''japan'', ''conditional''),
      (''malaysia'', ''blocked''),
      (''run_state'', ''review_required'')]"

definition golden_eval :: "(string \<times> string) list" where
  "golden_eval =
     [(''golden_australia_conditional'', ''review_required''),
      (''budget_refused'', ''blocked''),
      (''japan_risk_accepted'', ''conditional''),
      (''malaysia_program_fit_gap'', ''blocked''),
      (''stale_cost_ranking'', ''failed''),
      (''dra_fallback_ready'', ''failed''),
      (''mke_zero_hit'', ''blocked''),
      (''family_preference_conflict'', ''blocked'')]"

end
