(* ===== verification/Planning_Properties.thy ===== *)
theory Planning_Properties
  imports Planning_Fixtures
begin

text \<open>
  The properties of the planning policy.  Their witnesses run the policy on the
  checked-in fixture.
\<close>

lemma golden_valid: "valid_planning_input golden_input"
  by code_simp

definition golden_result :: planning_result where
  "golden_result = \<lparr>pr_state = RS_REVIEW_REQUIRED,
     pr_reason_code = ''single_fully_evidenced_recommendation'',
     routes = [route_result_of AUSTRALIA RO_RECOMMENDED_WITH_CONDITION
                 ''complete_cost_and_fx_within_boundary'' (evidence golden_input),
               route_result_of JAPAN RO_CONDITIONAL ''synthetic_high_risk_alternative''
                 (evidence golden_input),
               route_result_of MALAYSIA RO_BLOCKED ''direct_program_fit_evidence_absent''
                 (evidence golden_input)]\<rparr>"

lemma golden_run: "evaluate_planning_run (Plain golden_input) = Inr golden_result"
  by code_simp

lemma golden_money: "money_in_range golden_input"
  by code_simp

lemma golden_state: "pr_state golden_result = RS_REVIEW_REQUIRED"
  by (simp add: golden_result_def)

lemma contract_None_iff:
  "validate_contract inp = None \<longleftrightarrow>
     (\<forall>v\<in>set (schema_versions (view inp)). v = 1)
     \<and> preferred_country_scope_is_valid (preferred_countries (student (case_revision (view inp))))
     \<and> 0 < revision (case_revision (view inp)) \<and> 0 < version (source_pack (view inp))
     \<and> (\<forall>e\<in>set (evidence (view inp)). 0 < source_pack_version e)
     \<and> (is_mixed inp \<longrightarrow> distinct (map claim (evidence (view inp)))
           \<and> claim ` set (evidence (view inp)) = MIXED_BASELINE_CLAIMS)
     \<and> (\<forall>e\<in>set (evidence (view inp)). authority e =
           (if is_mixed inp then expected_mixed_authority (claim e) else ACCEPTED_SYNTHETIC_DEMO))
     \<and> (\<forall>c\<in>set (costs (view inp)). ce_currency c = ''AUD'')"
  unfolding validate_contract_def Let_def if_Some_eq_None
  by (cases "is_mixed inp") (simp_all add: list_ex_iff card_image_distinct not_le conj_ac)

lemma provenance_None_iff:
  "validate_provenance inp = None \<longleftrightarrow>
     card (organization_ids (view inp)) = 1
     \<and> distinct (map evidence_id (evidence (view inp)))
     \<and> distinct (map claim (evidence (view inp)))
     \<and> (\<forall>e\<in>set (evidence (view inp)). evidence_entry_ok (source_pack (view inp)) e)
     \<and> (\<forall>c\<in>set (costs (view inp)). cost_ok (evidence (view inp)) c)
     \<and> (\<forall>r\<in>set (rankings (view inp)). ranking_ok (evidence (view inp)) r)"
  unfolding validate_provenance_def Let_def if_Some_eq_None
  by (simp add: list_ex_iff card_image_distinct conj_ac)

lemma australia_recommended:
  assumes "money_in_range p" "australia p = Inr aus"
  shows "rr_outcome aus = RO_RECOMMENDED_WITH_CONDITION \<longleftrightarrow> within_boundary p"
proof (cases "refused (budget (family (case_revision p))) \<or> \<not> australia_complete p")
  case True
  with assms show ?thesis by (auto simp: australia_def within_boundary_def Let_def)
next
  case False
  let ?b = "budget (family (case_revision p))"
  from False assms(2) obtain cost pref hard where
    cph: "australia_cost p = Some cost" "preferred_minor ?b = Some pref"
         "hard_ceiling_minor ?b = Some hard"
    by (auto simp: australia_def Let_def split: option.splits)
  from cph assms(1) have "cost_in_range cost"
    by (auto simp: money_in_range_def list_all_iff dest: australia_cost_mem)
  then obtain t where t: "total_cost cost = Inr t" and
    tv: "decimal_value t = of_int (tuition_minor cost + living_minor cost) * decimal_value (fx_rate cost)"
    using total_cost_exact by blast
  have c: "elastic_ceiling pref (elasticity_bps ?b)
             = Inr (Dec (pref * (10000 + elasticity_bps ?b)) (- 4))"
    using assms(1) cph by (intro elastic_ceiling_exact) (auto simp: money_in_range_def budget_in_range_def)
  have v: "decimal_value (decimal_of_int hard) = of_int hard"
    "decimal_value (Dec (pref * (10000 + elasticity_bps ?b)) (- 4))
       = of_int (pref * (10000 + elasticity_bps ?b)) / 10000"
    by (simp_all add: decimal_value_def decimal_of_int_def power_int_def field_simps)
  have "rr_outcome aus = RO_RECOMMENDED_WITH_CONDITION \<longleftrightarrow>
      \<not> decimal_gt t (decimal_of_int hard) \<and>
      \<not> decimal_gt t (Dec (pref * (10000 + elasticity_bps ?b)) (- 4))"
    using False assms(2) cph t c by (auto simp: australia_def Let_def split: if_splits)
  also have "\<dots> \<longleftrightarrow> within_boundary p"
    using False cph
    by (simp only: decimal_gt_iff within_boundary_def Let_def not_less v tv)
       (simp add: pos_le_divide_eq mult.commute)
  finally show ?thesis .
qed

section \<open>When a run may go to the advisor\<close>

text \<open>C1: A planning run that evaluates goes to advisor review exactly when the contract and the
  provenance of its input hold, Australia is among the preferred countries, its evidence is
  complete and the budget not refused, and the exact total cost is within both the hard ceiling
  and the elastic ceiling (amounts with at most 28 significant digits, which the decimal
  arithmetic does not round).\<close>

theorem review_required_iff:
  assumes "money_in_range (view inp)" and "evaluate_planning_run inp = Inr res"
  shows "pr_state res = RS_REVIEW_REQUIRED \<longleftrightarrow>
     validate_contract inp = None \<and> validate_provenance inp = None
     \<and> AUSTRALIA \<in> set (preferred_countries (student (case_revision (view inp))))
     \<and> within_boundary (view inp)"
  using assms(2)
proof (cases rule: evaluate_cases)
  case (failed code)
  then show ?thesis by (auto simp: failed_result_def)
next
  case (assessed aus)
  let ?cs = "preferred_countries (student (case_revision (view inp)))"
  have "distinct ?cs"
    using contract_scope [OF assessed(1)] by (simp add: preferred_country_scope_iff)
  with assessed assms(1) show ?thesis
    by (simp add: recommended_routes [simplified] australia_recommended)
qed

theorem review_required_iff_witness:
  "within_boundary golden_input \<and> AUSTRALIA \<in> set (preferred_countries (student golden_case))"
  using review_required_iff [of "Plain golden_input" golden_result, simplified,
    OF golden_money golden_run] golden_state
  by (simp add: golden_input_def)

section \<open>What a result may cite\<close>

text \<open>C2: Evidence used by any route of a result belongs to the input, carries the claim of the
  country and role it is used for, comes from the input's own tenant, source pack and version,
  and its source entry has the cited hash and covers the claim.\<close>

theorem used_evidence_is_governed:
  assumes "evaluate_planning_run inp = Inr res"
    and "r \<in> set (routes res)" and "d \<in> set (dimensions r)" and "u \<in> set (evidence_uses d)"
  shows "\<exists>e entry. e \<in> set (evidence (view inp)) \<and> evidence_id e = eu_evidence_id u
     \<and> (claim e, role u) \<in> set (claims_by_country (rr_country r))
     \<and> er_organization_id e = pi_organization_id (view inp)
     \<and> er_source_pack_id e = pack_id (source_pack (view inp))
     \<and> source_pack_version e = version (source_pack (view inp))
     \<and> entry \<in> set (entries (source_pack (view inp))) \<and> entry_id entry = source_entry_id e
     \<and> source_sha256 e = sha256 entry \<and> claim e \<in> set (coverage entry)
     \<and> authority e \<noteq> UNTRUSTED_CANDIDATE"
  using assms(1)
proof (cases rule: evaluate_cases)
  case (failed code)
  with assms(2) show ?thesis by (simp add: failed_result_def)
next
  case (assessed aus)
  with assms(2) have "r \<in> route_for (view inp) aus ` set (preferred_countries (student (case_revision (view inp))))"
    by simp
  then obtain c out reason where
    r: "r = route_result_of c out reason (evidence (view inp))"
    using route_for_is_route [OF assessed(3)] by (metis (no_types, lifting) image_iff list.set_map)
  from assms(3,4) r obtain e where e: "(claim e, role u) \<in> set (claims_by_country c)"
      "e \<in> set (evidence (view inp))" "eu_evidence_id u = evidence_id e"
    by (auto simp: route_result_of_def uses_of_iff dest: evidence_by_claim_SomeD)
  have "evidence_entry_ok (source_pack (view inp)) e"
    using assessed(2) e(2) by (simp add: provenance_None_iff)
  moreover have "er_organization_id e = pi_organization_id (view inp)"
    using assessed(2) e(2)
    by (auto simp: provenance_None_iff organization_ids_def card_1_singleton_iff)
  ultimately show ?thesis
    using e r by (auto simp: evidence_entry_ok_def split: option.splits dest!: dict_of_SomeD)
qed

theorem used_evidence_is_governed_witness:
  "\<exists>e. e \<in> set (evidence golden_input) \<and> claim e = ''australia_fx''
       \<and> er_organization_id e = golden_org \<and> authority e \<noteq> UNTRUSTED_CANDIDATE"
proof -
  let ?u = "\<lparr>role = FX, eu_evidence_id = 0x60000000000000000000000000000004\<rparr>"
  let ?r = "route_result_of AUSTRALIA RO_RECOMMENDED_WITH_CONDITION
              ''complete_cost_and_fx_within_boundary'' (evidence golden_input)"
  have "?u \<in> set (evidence_uses (hd (dimensions ?r)))" by code_simp
  moreover have "hd (dimensions ?r) \<in> set (dimensions ?r)" by (simp add: route_result_of_def)
  moreover have "?r \<in> set (routes golden_result)" by (simp add: golden_result_def)
  ultimately obtain e where "e \<in> set (evidence golden_input)"
      "(claim e, FX) \<in> set (claims_by_country AUSTRALIA)"
      "er_organization_id e = pi_organization_id golden_input" "authority e \<noteq> UNTRUSTED_CANDIDATE"
    using used_evidence_is_governed [OF golden_run, of ?r _ ?u] by fastforce
  then show ?thesis by (auto simp: golden_input_def)
qed

section \<open>The shape of a result\<close>

text \<open>C20: A result that is not failed assesses exactly the preferred countries, each once and in
  their order, with at most one recommended route; and every state the policy returns is one
  the run's transition table reaches from synthesizing.\<close>

theorem result_shape:
  assumes "evaluate_planning_run inp = Inr res"
  shows "transition_run RS_SYNTHESIZING (pr_state res) = Inr (pr_state res) \<and>
     (pr_state res = RS_FAILED \<and> routes res = []
      \<or> pr_state res \<noteq> RS_FAILED \<and> recommended (routes res) \<le> 1
        \<and> map rr_country (routes res)
            = preferred_countries (student (case_revision (view inp)))
        \<and> preferred_country_scope_is_valid (map rr_country (routes res)))"
  using assms
proof (cases rule: evaluate_cases)
  case (failed code)
  then show ?thesis by (simp add: failed_result_def transition_run_def)
next
  case (assessed aus)
  have scope: "preferred_country_scope_is_valid
      (preferred_countries (student (case_revision (view inp))))"
    using assessed(1) by (rule contract_scope)
  have m: "map rr_country (routes res)
      = preferred_countries (student (case_revision (view inp)))"
    by (simp add: assessed(4) o_def route_for_country [OF assessed(3)])
  have "recommended (routes res) \<le> 1"
    using recommended_le [of _ "view inp" aus] scope
    by (simp add: assessed(4) preferred_country_scope_iff)
  with m scope show ?thesis by (simp add: assessed(5) transition_run_def)
qed

theorem result_shape_witness:
  "recommended (routes golden_result) \<le> 1
   \<and> map rr_country (routes golden_result) = [AUSTRALIA, JAPAN, MALAYSIA]"
  using result_shape [OF golden_run] golden_state
  by (simp add: golden_input_def golden_case_def)

section \<open>The run's transitions\<close>

text \<open>Every accepted sequence of transitions of a draft run is at most three steps long, and a
  run that has failed, been blocked or reached review accepts no further transition.\<close>

theorem run_transitions_terminate:
  assumes "transition_runs RS_DRAFT ts = Inr u"
  shows "length ts \<le> 3 \<and>
     (u \<in> {RS_FAILED, RS_BLOCKED, RS_REVIEW_REQUIRED} \<longleftrightarrow>
        (\<forall>t. transition_run u t = Inl InvalidTransition))"
proof
  show "length ts \<le> 3"
    using transition_runs_rank [OF assms] run_rank_le [of u] by linarith
  show "u \<in> {RS_FAILED, RS_BLOCKED, RS_REVIEW_REQUIRED} \<longleftrightarrow>
           (\<forall>t. transition_run u t = Inl InvalidTransition)"
    by (cases u) (auto simp: transition_run_def)
qed

theorem run_transitions_terminate_witness:
  "length [RS_COLLECTING_EVIDENCE, RS_SYNTHESIZING, RS_BLOCKED] \<le> 3"
  using run_transitions_terminate [of "[RS_COLLECTING_EVIDENCE, RS_SYNTHESIZING, RS_BLOCKED]" RS_BLOCKED]
  by (simp add: transition_run_def)

section \<open>The stable scenarios\<close>

text \<open>The checked-in fixture passes its own validation for every reading of the hashes that
  agrees with its entries: its run has the expected snapshot, and the eight stable scenarios
  give the recorded assertions.\<close>

theorem golden_fixture_validates:
  assumes "\<forall>e\<in>set (entries golden_pack). inside_root env e \<and> file_sha256 env e = sha256 e"
  shows "\<exists>f. validate_planning_fixture env golden_input golden_expected golden_eval = Inr f
     \<and> vf_result f = golden_result \<and> vf_output_sha256 f = hash_result env golden_result"
proof -
  have files: "check_entry_files env (entries golden_pack) = Inr ()"
    using assms by (simp add: golden_pack_def)
  have pack: "source_pack golden_input = golden_pack" by (simp add: golden_input_def)
  have "valid_source_pack_manifest golden_pack" by code_simp
  moreover have "dict_eq (result_snapshot golden_result) golden_expected" by code_simp
  moreover have "fst ` set golden_eval = EVAL_IDS" by code_simp
  moreover have "evaluate_stable_scenarios golden_input = Inr golden_eval" by code_simp
  moreover have "dict_eq golden_eval golden_eval" by (simp add: dict_eq_def list_all_iff)
  moreover have "list_all (\<lambda>e. authority e = ACCEPTED_SYNTHETIC_DEMO) (evidence golden_input)"
    by code_simp
  ultimately show ?thesis
    by (simp add: validate_planning_fixture_def pack files golden_valid golden_run ensure_def)
qed

definition faithful_env :: fixture_env where
  "faithful_env = \<lparr>inside_root = (\<lambda>e. is_ok (validate_path (path e))), file_sha256 = sha256,
     hash_manifest = (\<lambda>_. replicate 64 (CHR ''0'')), hash_evidence = (\<lambda>_. replicate 64 (CHR ''0'')),
     hash_result = (\<lambda>_. replicate 64 (CHR ''0''))\<rparr>"

theorem golden_fixture_validates_witness:
  "is_ok (validate_planning_fixture faithful_env golden_input golden_expected golden_eval)"
proof -
  have "\<forall>e\<in>set (entries golden_pack). inside_root faithful_env e
          \<and> file_sha256 faithful_env e = sha256 e"
    by code_simp
  from golden_fixture_validates [OF this] show ?thesis by auto
qed

end
