(* ===== verification/Revision_Properties.thy ===== *)
theory Revision_Properties
  imports Planning_Revision Planning_Properties
begin

text \<open>
  The properties of the planning revision contracts: the changed fact is exactly
  the difference of the two preferences, and the comparison of two results says of
  every country what happened to it.
\<close>

section \<open>The changed fact\<close>

text \<open>A fact delta is derived from two pairs of preferences exactly when it is a well-formed
  delta that starts at the earlier pair and turns it into the later one; so one supported fact,
  and nothing else, changed.\<close>

theorem derive_delta_iff:
  "derive_planning_revision_fact_delta ps cs pf cf = Inr d \<longleftrightarrow>
     well_formed_delta d \<and> delta_starts_at d (ps, pf) \<and> apply_delta d (ps, pf) = (cs, cf)"
proof
  assume L: "derive_planning_revision_fact_delta ps cs pf cf = Inr d"
  show "well_formed_delta d \<and> delta_starts_at d (ps, pf) \<and> apply_delta d (ps, pf) = (cs, cf)"
    using L
    by (cases ps; cases cs; cases pf; cases cf)
       (auto simp: derive_planning_revision_fact_delta_def split: if_splits)
next
  assume R: "well_formed_delta d \<and> delta_starts_at d (ps, pf) \<and> apply_delta d (ps, pf) = (cs, cf)"
  then have wf: "well_formed_delta d" by blast
  show "derive_planning_revision_fact_delta ps cs pf cf = Inr d"
  proof (cases d)
    case (PreferredCountriesDelta p c)
    with R have "cs = ps\<lparr>preferred_countries := c\<rparr>" "cf = pf" "preferred_countries ps = p" by auto
    with PreferredCountriesDelta wf show ?thesis
      by (simp add: derive_planning_revision_fact_delta_def)
  next
    case (FamilyBudgetDelta p c)
    with R have "cs = ps" "cf = pf\<lparr>budget := c\<rparr>" "budget pf = p" by auto
    with FamilyBudgetDelta wf show ?thesis
      by (simp add: derive_planning_revision_fact_delta_def)
  next
    case (IntakeDelta p c)
    with R have "cs = ps\<lparr>intake := c\<rparr>" "cf = pf" "intake ps = p" by auto
    with IntakeDelta wf show ?thesis
      by (simp add: derive_planning_revision_fact_delta_def)
  qed
qed

section \<open>The comparison\<close>

definition comparison_spec ::
  "route_result list \<Rightarrow> route_result list \<Rightarrow> country_comparison \<Rightarrow> bool" where
  "comparison_spec prev cur x \<longleftrightarrow>
     (let k = cc_country x;
          before = (\<lambda>p. p \<in> set prev \<and> rr_country p = k
                     \<and> previous_outcome x = Some (rr_outcome p) \<and> previous_reason_code x = Some (rr_reason_code p));
          after = (\<lambda>c. c \<in> set cur \<and> rr_country c = k
                     \<and> current_outcome x = Some (rr_outcome c) \<and> current_reason_code x = Some (rr_reason_code c));
          not_before = (k \<notin> rr_country ` set prev \<and> previous_outcome x = None \<and> previous_reason_code x = None);
          not_after = (k \<notin> rr_country ` set cur \<and> current_outcome x = None \<and> current_reason_code x = None) in
      case cc_delta x of
        ADDED \<Rightarrow> not_before \<and> (\<exists>c. after c)
      | REMOVED \<Rightarrow> (\<exists>p. before p) \<and> not_after
      | CHANGED \<Rightarrow> (\<exists>p c. before p \<and> after c \<and> (rr_outcome p \<noteq> rr_outcome c \<or> rr_reason_code p \<noteq> rr_reason_code c))
      | UNCHANGED \<Rightarrow> (\<exists>p c. before p \<and> after c \<and> rr_outcome p = rr_outcome c \<and> rr_reason_code p = rr_reason_code c))"

lemma compare_country_spec:
  assumes "k \<in> rr_country ` set prev \<union> rr_country ` set cur"
  shows "comparison_spec prev cur (compare_country prev cur k)"
proof -
  have found: "r \<in> set rs \<and> rr_country r = k" if "dict_of rr_country rs k = Some r" for rs r
    using that by (auto dest: dict_of_SomeD)
  have none: "k \<notin> rr_country ` set rs" if "dict_of rr_country rs k = None" for rs
    using that by (simp add: dict_of_None_iff)
  show ?thesis
  proof (cases "dict_of rr_country prev k")
    case None
    note p = None
    from none [OF this] assms obtain c where c: "dict_of rr_country cur k = Some c"
      using none [of cur] by (cases "dict_of rr_country cur k") auto
    from none [OF p] found [OF c] show ?thesis
      by (auto simp: comparison_spec_def compare_country_def delta_between_def p c)
  next
    case (Some p)
    note p = this
    show ?thesis
    proof (cases "dict_of rr_country cur k")
      case None
      from found [OF p] none [OF None] show ?thesis
        by (auto simp: comparison_spec_def compare_country_def delta_between_def p None)
    next
      case (Some c)
      from found [OF p] found [OF Some] show ?thesis
        by (auto simp: comparison_spec_def compare_country_def delta_between_def p Some)
    qed
  qed
qed

lemma closed_result_distinct:
  "closed_result p = Inr q \<Longrightarrow> q = p \<and> distinct (map rr_country (proj_routes p))"
  by (auto simp: closed_result_def sorted_list_of_set_eq_iff split: if_splits
      simp del: set_map list.set_map)

lemma payload_cases:
  assumes "comparison_payload_of h previous current psha csha = Inr c"
  shows "h (planning_result_of previous) = psha \<and> h (planning_result_of current) = csha
    \<and> proj_case_revision current = proj_case_revision previous + 1
    \<and> supersedes_run_id current = Some (proj_planning_run_id previous)
    \<and> cp_countries c = map (compare_country (proj_routes previous) (proj_routes current))
        (sorted_list_of_set (rr_country ` set (proj_routes previous)
                              \<union> rr_country ` set (proj_routes current)))
    \<and> approval_eligible c = (proj_state current = RS_REVIEW_REQUIRED)"
  using assms
  by (auto simp: comparison_payload_of_def verified_result_def check_countries_iff Let_def
      planning_result_of_def split: if_splits)

text \<open>C21: A comparison that is built binds both results to the hashes it was given and both runs
  to adjacent revisions of the case, lists the countries of either result once and in order, and is
  eligible for approval exactly when the later run requires review.  A country is added when only
  the later result has it, removed when only the earlier one does, changed when both have it with
  another outcome or another reason, and unchanged when both have it with the same; the comparison
  gives its outcomes and reasons as the results do.\<close>

theorem comparison_sound:
  assumes "closed_result previous = Inr previous" "closed_result current = Inr current"
    and "build_planning_revision_comparison_v2 h changed review previous current psha csha = Inr c"
  shows "h (planning_result_of previous) = psha \<and> h (planning_result_of current) = csha
    \<and> proj_case_revision current = proj_case_revision previous + 1
    \<and> supersedes_run_id current = Some (proj_planning_run_id previous)
    \<and> rq_case_revision review = proj_case_revision previous
    \<and> sorted (map cc_country (cp_countries c)) \<and> distinct (map cc_country (cp_countries c))
    \<and> cc_country ` set (cp_countries c)
        = rr_country ` set (proj_routes previous) \<union> rr_country ` set (proj_routes current)
    \<and> list_all (comparison_spec (proj_routes previous) (proj_routes current)) (cp_countries c)
    \<and> approval_eligible c = (proj_state current = RS_REVIEW_REQUIRED)"
proof -
  from assms(3) obtain c' where c': "comparison_payload_of h previous current psha csha = Inr c'"
    and eqs: "cp_countries c = cp_countries c'" "approval_eligible c = approval_eligible c'"
      "rq_case_revision review = cp_previous_revision c'"
    by (auto simp: build_planning_revision_comparison_v2_def comparison_payload.defs
        revision_comparison_v2.defs)
  from c' have rev: "cp_previous_revision c' = proj_case_revision previous"
    by (auto simp: comparison_payload_of_def Let_def split: if_splits)
  note P = payload_cases [OF c']
  let ?ks = "sorted_list_of_set (rr_country ` set (proj_routes previous)
                                   \<union> rr_country ` set (proj_routes current))"
  have "list_all (comparison_spec (proj_routes previous) (proj_routes current)) (cp_countries c)"
    using P eqs closed_result_distinct [OF assms(1)] closed_result_distinct [OF assms(2)]
    by (auto simp: list_all_iff intro!: compare_country_spec)
  moreover have "map cc_country (cp_countries c) = ?ks"
    using P eqs by simp
  moreover have "cc_country ` set (cp_countries c) = set ?ks"
    by (metis calculation(2) list.set_map)
  ultimately show ?thesis
    using P eqs rev by simp
qed

section \<open>Comparing two evaluated runs\<close>

text \<open>Every reason code of the policy satisfies the pattern of the comparison contract.\<close>

lemma policy_reason_codes:
  "is_reason_code ''budget_refused''" "is_reason_code ''cost_or_fx_evidence_incomplete''"
  "is_reason_code ''budget_hard_ceiling_or_elasticity_exceeded''"
  "is_reason_code ''complete_cost_and_fx_within_boundary''"
  "is_reason_code ''synthetic_high_risk_alternative''"
  "is_reason_code ''japan_risk_or_program_fit_unresolved''"
  "is_reason_code ''malaysia_program_fit_present''"
  "is_reason_code ''direct_program_fit_evidence_absent''"
  "is_reason_code ''single_fully_evidenced_recommendation''"
  "is_reason_code ''recommendation_cardinality''"
  by code_simp+

lemma australia_reason: "australia p = Inr r \<Longrightarrow> is_reason_code (rr_reason_code r)"
  by (auto simp: australia_def Let_def policy_reason_codes split: if_splits option.splits)

lemma route_for_reason:
  "australia p = Inr aus \<Longrightarrow> is_reason_code (rr_reason_code (route_for p aus k))"
  by (cases k) (auto simp: japan_def malaysia_def Let_def policy_reason_codes australia_reason)

lemma evaluated_reason_codes:
  assumes "evaluate_planning_run inp = Inr res" "pr_state res \<noteq> RS_FAILED"
  shows "is_reason_code (pr_reason_code res)"
    and "\<forall>r\<in>set (routes res). is_reason_code (rr_reason_code r)"
  using assms
  by (auto simp: evaluate_planning_run_def Let_def failed_result_def policy_reason_codes
      route_for_reason split: option.splits)

definition project_run ::
  "uuid \<Rightarrow> int \<Rightarrow> uuid \<Rightarrow> uuid option \<Rightarrow> planning_result \<Rightarrow> result_projection" where
  "project_run case_id n run supersedes res =
     \<lparr>proj_case_id = case_id, proj_case_revision = n, proj_planning_run_id = run,
      supersedes_run_id = supersedes, proj_state = pr_state res,
      proj_reason_code = pr_reason_code res, proj_routes = routes res\<rparr>"

lemma planning_result_of_project [simp]:
  "planning_result_of (project_run i n run prior res) = res"
  by (simp add: planning_result_of_def project_run_def)

lemma project_run_simps [simp]:
  "proj_case_id (project_run i n run prior res) = i"
  "proj_case_revision (project_run i n run prior res) = n"
  "proj_planning_run_id (project_run i n run prior res) = run"
  "supersedes_run_id (project_run i n run prior res) = prior"
  "proj_state (project_run i n run prior res) = pr_state res"
  "proj_routes (project_run i n run prior res) = routes res"
  by (simp_all add: project_run_def)

lemma verified_project_run [simp]:
  "verified_result h (project_run i n run prior res) (h res) = Inr res"
  by (simp add: verified_result_def)

lemma project_run_closed:
  assumes "evaluate_planning_run inp = Inr res" "pr_state res \<noteq> RS_FAILED" "0 < n"
  shows "closed_result (project_run i n run prior res) = Inr (project_run i n run prior res)"
proof -
  have scope: "preferred_country_scope_is_valid (map rr_country (routes res))"
    and st: "pr_state res \<in> {RS_REVIEW_REQUIRED, RS_BLOCKED}"
    using assms(1,2)
    by (auto elim!: evaluate_cases dest: contract_scope
        simp: o_def route_for_country failed_result_def split: if_splits)
  then show ?thesis
    using assms(3) evaluated_reason_codes(1) [OF assms(1,2)]
    by (simp add: closed_result_def project_run_def preferred_country_scope_iff
        sorted_list_of_set_eq_iff [symmetric] del: list.set_map)
qed

definition witness_review :: request_review where
  "witness_review = \<lparr>review_id = 1, review_version = 1, rq_planning_run_id = 7,
     rq_case_revision = 1\<rparr>"

definition witness_delta :: fact_delta where
  "witness_delta = FamilyBudgetDelta golden_budget (golden_budget
     \<lparr>preferred_minor := None, hard_ceiling_minor := None, refused := True\<rparr>)"

definition witness_hash :: "planning_result \<Rightarrow> sha" where
  "witness_hash r = replicate 64 (if pr_state r = RS_BLOCKED then CHR ''b'' else CHR ''a'')"

text \<open>The result of the golden input with a refused budget.\<close>

definition refused_result :: planning_result where
  "refused_result = \<lparr>pr_state = RS_BLOCKED, pr_reason_code = ''recommendation_cardinality'',
     routes = [route_result_of AUSTRALIA RO_BLOCKED ''budget_refused'' (evidence golden_input),
               route_result_of JAPAN RO_CONDITIONAL ''synthetic_high_risk_alternative''
                 (evidence golden_input),
               route_result_of MALAYSIA RO_BLOCKED ''direct_program_fit_evidence_absent''
                 (evidence golden_input)]\<rparr>"

lemma refused_run: "evaluate_planning_run (Plain (refused_scenario golden_input)) = Inr refused_result"
  by code_simp

text \<open>Two evaluated runs of adjacent revisions that did not fail can always be compared: the
  stored projections pass their own check, and with the hashes of the two results the comparison
  is built and is eligible for approval exactly when the later run requires review.\<close>

theorem evaluated_runs_compare:
  assumes "evaluate_planning_run inp1 = Inr r1" "pr_state r1 \<noteq> RS_FAILED"
    and "evaluate_planning_run inp2 = Inr r2" "pr_state r2 \<noteq> RS_FAILED"
    and "0 < n" "run1 \<noteq> run2"
    and "is_sha256 (h r1)" "is_sha256 (h r2)"
    and "rq_case_revision review = n" "rq_planning_run_id review = run1"
  shows "\<exists>c. build_planning_revision_comparison_v2 h changed review
                (project_run i n run1 prior r1) (project_run i (n + 1) run2 (Some run1) r2)
                (h r1) (h r2) = Inr c
           \<and> approval_eligible c = (pr_state r2 = RS_REVIEW_REQUIRED)
           \<and> closed_result (project_run i n run1 prior r1) = Inr (project_run i n run1 prior r1)"
proof -
  let ?p = "project_run i n run1 prior r1" and ?c = "project_run i (n + 1) run2 (Some run1) r2"
  have reasons: "\<forall>r\<in>set (routes r1) \<union> set (routes r2). is_reason_code (rr_reason_code r)"
    using evaluated_reason_codes(2) [OF assms(1,2)] evaluated_reason_codes(2) [OF assms(3,4)]
    by blast
  have shape: "closed_delta_shape (compare_country (routes r1) (routes r2) k)
      = Inr (compare_country (routes r1) (routes r2) k)"
    if "k \<in> rr_country ` set (routes r1) \<union> rr_country ` set (routes r2)" for k
    using that by (intro compare_country_shape reasons) (auto simp: dict_of_None_iff)
  have "\<exists>pay. comparison_payload_of h ?p ?c (h r1) (h r2) = Inr pay"
    using shape assms(6)
    by (simp add: comparison_payload_of_def check_countries_iff Let_def)
  then obtain pay where pay: "comparison_payload_of h ?p ?c (h r1) (h r2) = Inr pay" ..
  have fields: "payload_fields_ok pay" "cp_previous_revision pay = n"
      "previous_planning_run_id pay = run1"
    using pay assms(5,7,8)
    by (auto simp: comparison_payload_of_def check_countries_iff Let_def payload_fields_ok_def
        split: if_splits)
  have "canonical_closed_projection pay = Inr ()"
    using pay
    by (auto simp: canonical_closed_projection_def comparison_payload_of_def
        check_countries_iff Let_def image_image split: if_splits)
  with pay fields assms(9,10) payload_cases [OF pay] project_run_closed [OF assms(1,2,5)]
  show ?thesis
    by (auto simp: build_planning_revision_comparison_v2_def comparison_payload.defs)
qed

theorem evaluated_runs_compare_witness:
  "\<exists>c. build_planning_revision_comparison_v2 witness_hash
          witness_delta witness_review
          (project_run 4 1 7 None golden_result) (project_run 4 2 8 (Some 7) refused_result)
          (witness_hash golden_result) (witness_hash refused_result) = Inr c
     \<and> \<not> approval_eligible c"
  using evaluated_runs_compare [OF golden_run _ refused_run, of 1 7 8 witness_hash witness_review
      witness_delta 4 None]
  by (auto simp: golden_result_def refused_result_def witness_hash_def witness_review_def
      hex_digits_def)

theorem comparison_sound_witness:
  "\<exists>c. build_planning_revision_comparison_v2 witness_hash
          witness_delta witness_review
          (project_run 4 1 7 None golden_result) (project_run 4 2 8 (Some 7) refused_result)
          (witness_hash golden_result) (witness_hash refused_result) = Inr c
     \<and> distinct (map cc_country (cp_countries c))
     \<and> list_all (comparison_spec (routes golden_result) (routes refused_result)) (cp_countries c)"
proof -
  let ?p = "project_run 4 1 7 None golden_result"
  let ?c = "project_run 4 2 8 (Some 7) refused_result"
  have p: "closed_result ?p = Inr ?p"
    by (rule project_run_closed [OF golden_run]) (simp_all add: golden_result_def)
  have c: "closed_result ?c = Inr ?c"
    by (rule project_run_closed [OF refused_run]) (simp_all add: refused_result_def)
  have "is_ok (build_planning_revision_comparison_v2 witness_hash
          witness_delta witness_review ?p ?c
          (witness_hash golden_result) (witness_hash refused_result))"
    by code_simp
  then obtain cmp where b: "build_planning_revision_comparison_v2 witness_hash
          witness_delta witness_review ?p ?c
          (witness_hash golden_result) (witness_hash refused_result) = Inr cmp"
    by (auto simp: is_ok_iff)
  with comparison_sound [OF p c b] show ?thesis by auto
qed

end
