(* ===== verification/Planning_Materialize.thy ===== *)
theory Planning_Materialize
  imports Planning_Fixtures
begin

text \<open>
  \<open>planning/synthetic.py\<close>, \<open>planning/intake_fixture.py\<close> and \<open>planning/mixed.py\<close>: how a
  worker turns a persisted snapshot into the input of the policy.  Loading a
  manifest (its raw SHA-256 and its validated fixture) is the parameter
  \<open>loaded_manifest\<close>; the exact-pin checks are the code's.
\<close>

section \<open>The exact baselines\<close>

definition BASELINE_SOURCE_PACK_ID :: uuid where
  "BASELINE_SOURCE_PACK_ID = 0x50000000000000000000000000000001"

definition BASELINE_SOURCE_PACK_VERSION :: int where
  "BASELINE_SOURCE_PACK_VERSION = 1"

definition BASELINE_POLICY_VERSION :: string where
  "BASELINE_POLICY_VERSION = ''m3a-policy-v1''"

definition BASELINE_MANIFEST_SHA256 :: sha where
  "BASELINE_MANIFEST_SHA256 =
     ''84350ea5705d9681d3e6550e1bd06e3340a9fcf0e7e7bbed4478ed3403405f28''"

definition BASELINE_RAW_MANIFEST_SHA256 :: sha where
  "BASELINE_RAW_MANIFEST_SHA256 =
     ''5d455d2c409c322e093f3a116387f3cef0fb7ea0f7357fec5e76e9da5b3a2a25''"

definition EXTERNAL_CLAIM :: string where
  "EXTERNAL_CLAIM = ''australia_program_fit''"

definition INTAKE_DELAY_SOURCE_PACK_ID :: uuid where
  "INTAKE_DELAY_SOURCE_PACK_ID = 0x50000000000000000000000000000017"

definition INTAKE_DELAY_SOURCE_PACK_VERSION :: int where
  "INTAKE_DELAY_SOURCE_PACK_VERSION = 1"

definition INTAKE_DELAY_INTAKE :: string where
  "INTAKE_DELAY_INTAKE = ''2028-02''"

definition INTAKE_DELAY_MANIFEST_SHA256 :: sha where
  "INTAKE_DELAY_MANIFEST_SHA256 =
     ''832aab1715564dee0e3a4530a181ccd4581bb7e5199144cb34dc55b20077add1''"

definition INTAKE_DELAY_RAW_MANIFEST_SHA256 :: sha where
  "INTAKE_DELAY_RAW_MANIFEST_SHA256 =
     ''27cde816426600fe355eaca842a028b451395be5c9ded0b0e29418d58998cee2''"

record loaded_manifest =
  raw_sha256 :: sha
  fixture_of :: "validated_planning_fixture result"

definition load_exact_synthetic_baseline :: "loaded_manifest \<Rightarrow> planning_input result" where
  "load_exact_synthetic_baseline m =
     (if raw_sha256 m \<noteq> BASELINE_RAW_MANIFEST_SHA256 then
        Inl (ValueError ''synthetic baseline raw manifest mismatch'')
      else bind_result (fixture_of m) (\<lambda>f.
        let p = vf_planning_input f in
        if pack_id (source_pack p) \<noteq> BASELINE_SOURCE_PACK_ID
           \<or> version (source_pack p) \<noteq> BASELINE_SOURCE_PACK_VERSION
           \<or> vf_manifest_sha256 f \<noteq> BASELINE_MANIFEST_SHA256 then
          Inl (ValueError ''synthetic baseline identity mismatch'')
        else Inr p))"

definition load_exact_baseline :: "loaded_manifest \<Rightarrow> planning_input result" where
  "load_exact_baseline m =
     (if raw_sha256 m \<noteq> BASELINE_RAW_MANIFEST_SHA256 then
        Inl (ValueError ''governed mixed baseline raw manifest mismatch'')
      else bind_result (fixture_of m) (\<lambda>f.
        let p = vf_planning_input f in
        if pack_id (source_pack p) \<noteq> BASELINE_SOURCE_PACK_ID
           \<or> version (source_pack p) \<noteq> BASELINE_SOURCE_PACK_VERSION
           \<or> vf_manifest_sha256 f \<noteq> BASELINE_MANIFEST_SHA256 then
          Inl (ValueError ''governed mixed baseline identity mismatch'')
        else Inr p))"

definition load_exact_intake_delay_fixture :: "loaded_manifest \<Rightarrow> planning_input result" where
  "load_exact_intake_delay_fixture m =
     (if raw_sha256 m \<noteq> INTAKE_DELAY_RAW_MANIFEST_SHA256 then
        Inl (ValueError ''intake fixture raw manifest mismatch'')
      else bind_result (fixture_of m) (\<lambda>f.
        let p = vf_planning_input f in
        if pack_id (source_pack p) \<noteq> INTAKE_DELAY_SOURCE_PACK_ID
           \<or> version (source_pack p) \<noteq> INTAKE_DELAY_SOURCE_PACK_VERSION
           \<or> vf_manifest_sha256 f \<noteq> INTAKE_DELAY_MANIFEST_SHA256
           \<or> intake (student (case_revision p)) \<noteq> INTAKE_DELAY_INTAKE
           \<or> (case costs p of [c] \<Rightarrow> ce_intake c \<noteq> INTAKE_DELAY_INTAKE | _ \<Rightarrow> True) then
          Inl (ValueError ''intake fixture identity mismatch'')
        else Inr p))"

section \<open>Synthetic snapshots\<close>

record persisted_synthetic_snapshot =
  pss_schema_version :: int
  pss_organization_id :: uuid
  pss_case :: student_case_revision
  pss_source_pack_id :: uuid
  pss_source_pack_version :: int
  pss_policy_version :: string

definition exact_case_organization ::
  "persisted_synthetic_snapshot \<Rightarrow> persisted_synthetic_snapshot result" where
  "exact_case_organization s =
     (if \<not> (pss_schema_version s = 1 \<and> valid_student_case_revision (pss_case s)
             \<and> 0 < pss_source_pack_version s \<and> pss_policy_version s = ''m3a-policy-v1'') then
        Inl (ValueError ''field'')
      else if pss_organization_id s \<noteq> scr_organization_id (pss_case s) then
        Inl (ValueError ''snapshot organization must match the persisted Case'')
      else Inr s)"

definition project_selected_country_rows ::
  "student_case_revision \<Rightarrow> cost_evidence list \<Rightarrow> ranking_evidence list
     \<Rightarrow> (cost_evidence list \<times> ranking_evidence list) result" where
  "project_selected_country_rows c cs rs =
     (let countries = preferred_countries (student c) in
      if \<not> preferred_country_scope_is_valid countries then
        Inl (ValueError ''persisted preferred_countries scope is invalid'')
      else Inr (filter (\<lambda>x. ce_country x \<in> set countries) cs,
                filter (\<lambda>x. re_country x \<in> set countries) rs))"

definition synthetic_baseline ::
  "loaded_manifest \<Rightarrow> loaded_manifest \<Rightarrow> persisted_synthetic_snapshot \<Rightarrow> planning_input result" where
  "synthetic_baseline base_m intake_m s =
     (let pin = (pss_source_pack_id s, pss_source_pack_version s, pss_policy_version s) in
      if pin = (BASELINE_SOURCE_PACK_ID, BASELINE_SOURCE_PACK_VERSION, BASELINE_POLICY_VERSION)
      then load_exact_synthetic_baseline base_m
      else if pin = (INTAKE_DELAY_SOURCE_PACK_ID, INTAKE_DELAY_SOURCE_PACK_VERSION,
                     BASELINE_POLICY_VERSION)
      then (if intake (student (pss_case s)) \<noteq> INTAKE_DELAY_INTAKE then
              Inl (ValueError ''persisted intake does not match source pack'')
            else load_exact_intake_delay_fixture intake_m)
      else Inl (ValueError ''persisted synthetic snapshot pins are invalid''))"

definition materialize_persisted_synthetic_input ::
  "loaded_manifest \<Rightarrow> loaded_manifest \<Rightarrow> persisted_synthetic_snapshot \<Rightarrow> planning_input result" where
  "materialize_persisted_synthetic_input base_m intake_m s =
     bind_result (synthetic_baseline base_m intake_m s) (\<lambda>baseline.
     let org = pss_organization_id s in
     bind_result (project_selected_country_rows (pss_case s)
         (map (\<lambda>c. c\<lparr>ce_organization_id := org\<rparr>) (costs baseline))
         (map (\<lambda>r. r\<lparr>re_organization_id := org\<rparr>) (rankings baseline))) (\<lambda>(cs, rs).
       Inr \<lparr>pi_schema_version = 1, pi_organization_id = org, case_revision = pss_case s,
            source_pack = (source_pack baseline)\<lparr>spm_organization_id := org\<rparr>,
            evidence = map (\<lambda>e. e\<lparr>er_organization_id := org\<rparr>) (evidence baseline),
            costs = cs, rankings = rs, narrative = narrative baseline\<rparr>))"

section \<open>Governed mixed snapshots\<close>

definition promoted_entry :: "source_pack_entry \<Rightarrow> source_pack_entry" where
  "promoted_entry e = e\<lparr>coverage := filter (\<lambda>c. c \<noteq> EXTERNAL_CLAIM) (coverage e)\<rparr>"

definition require :: "string \<Rightarrow> 'a option \<Rightarrow> 'a result" where
  "require k v = (case v of None \<Rightarrow> Inl (KeyError k) | Some x \<Rightarrow> Inr x)"

definition rebind_cost ::
  "uuid \<Rightarrow> (string \<Rightarrow> evidence_ref option) \<Rightarrow> cost_evidence \<Rightarrow> cost_evidence result" where
  "rebind_cost org by_claim c =
     (let k = country_value (ce_country c) in
      bind_result (require (k @ ''_tuition'') (by_claim (k @ ''_tuition''))) (\<lambda>t.
      bind_result (require (k @ ''_living_cost'') (by_claim (k @ ''_living_cost''))) (\<lambda>l.
      bind_result (require (k @ ''_fx'') (by_claim (k @ ''_fx''))) (\<lambda>f.
        Inr (c\<lparr>ce_organization_id := org, tuition_evidence_id := evidence_id t,
               living_evidence_id := evidence_id l, fx_evidence_id := evidence_id f\<rparr>)))))"

definition rebind_ranking ::
  "uuid \<Rightarrow> (string \<Rightarrow> evidence_ref option) \<Rightarrow> ranking_evidence \<Rightarrow> ranking_evidence result" where
  "rebind_ranking org by_claim r =
     (let k = country_value (re_country r) @ ''_ranking'' in
      bind_result (require k (by_claim k)) (\<lambda>e.
        Inr (r\<lparr>re_organization_id := org, re_evidence_id := evidence_id e\<rparr>)))"

fun map_result :: "('a \<Rightarrow> 'b result) \<Rightarrow> 'a list \<Rightarrow> 'b list result" where
  "map_result f [] = Inr []"
| "map_result f (x # xs) =
     bind_result (f x) (\<lambda>y. bind_result (map_result f xs) (\<lambda>ys. Inr (y # ys)))"

definition rebound_rows ::
  "uuid \<Rightarrow> student_case_revision \<Rightarrow> evidence_ref list \<Rightarrow> planning_input
     \<Rightarrow> (cost_evidence list \<times> ranking_evidence list) result" where
  "rebound_rows org c evs baseline =
     bind_result (map_result (rebind_cost org (evidence_by_claim evs)) (costs baseline)) (\<lambda>cs.
     bind_result (map_result (rebind_ranking org (evidence_by_claim evs)) (rankings baseline)) (\<lambda>rs.
       project_selected_country_rows c cs rs))"

definition snapshot_pins_ok :: "governed_mixed_snapshot \<Rightarrow> bool" where
  "snapshot_pins_ok s \<longleftrightarrow>
     baseline_source_pack_id s = BASELINE_SOURCE_PACK_ID
     \<and> baseline_source_pack_version s = BASELINE_SOURCE_PACK_VERSION
     \<and> baseline_manifest_sha256 s = BASELINE_MANIFEST_SHA256
     \<and> baseline_raw_manifest_sha256 s = BASELINE_RAW_MANIFEST_SHA256
     \<and> gms_organization_id s = scr_organization_id (gms_case s)
     \<and> gms_organization_id s = spm_organization_id (gms_source_pack s)
     \<and> pack_id (gms_source_pack s) = baseline_source_pack_id s
     \<and> version (gms_source_pack s) = promoted_source_pack_version s
     \<and> BASELINE_SOURCE_PACK_VERSION < promoted_source_pack_version s"

definition evidence_bound ::
  "uuid \<Rightarrow> source_pack_manifest \<Rightarrow> evidence_ref \<Rightarrow> bool" where
  "evidence_bound org pack e \<longleftrightarrow>
     er_organization_id e = org \<and> er_source_pack_id e = pack_id pack
     \<and> source_pack_version e = version pack
     \<and> (case dict_of entry_id (entries pack) (source_entry_id e) of None \<Rightarrow> False
        | Some entry \<Rightarrow> source_sha256 e = sha256 entry \<and> claim e \<in> set (coverage entry))"

definition baseline_evidence_ok ::
  "(string \<Rightarrow> evidence_ref option) \<Rightarrow> evidence_ref \<Rightarrow> bool" where
  "baseline_evidence_ok baseline_by_claim e \<longleftrightarrow>
     (case baseline_by_claim (claim e) of None \<Rightarrow> False
      | Some b \<Rightarrow> authority e = ACCEPTED_SYNTHETIC_DEMO
                  \<and> source_entry_id e = source_entry_id b \<and> source_sha256 e = source_sha256 b)"

fun check_mixed_evidence ::
  "uuid \<Rightarrow> source_pack_manifest \<Rightarrow> (string \<Rightarrow> evidence_ref option) \<Rightarrow> evidence_ref list
     \<Rightarrow> unit result" where
  "check_mixed_evidence org pack base [] = Inr ()"
| "check_mixed_evidence org pack base (e # es) =
     (if \<not> evidence_bound org pack e then
        Inl (ValueError ''governed mixed Evidence provenance is invalid'')
      else if claim e \<noteq> EXTERNAL_CLAIM \<and> \<not> baseline_evidence_ok base e then
        Inl (ValueError ''governed mixed synthetic Evidence baseline drifted'')
      else check_mixed_evidence org pack base es)"

definition materialize_governed_mixed_input ::
  "loaded_manifest \<Rightarrow> governed_mixed_snapshot \<Rightarrow> governed_mixed_planning_input result" where
  "materialize_governed_mixed_input m s =
     bind_result (load_exact_baseline m) (\<lambda>baseline.
     let org = gms_organization_id s; pack = gms_source_pack s; evs = gms_evidence s in
     bind_result (ensure (snapshot_pins_ok s)
        (ValueError ''governed mixed snapshot pins are invalid'')) (\<lambda>_.
     bind_result (ensure (card (claim ` set evs) = length evs
                          \<and> claim ` set evs = claim ` set (evidence baseline))
        (ValueError ''governed mixed Evidence baseline is invalid'')) (\<lambda>_.
     bind_result (require EXTERNAL_CLAIM (evidence_by_claim evs EXTERNAL_CLAIM)) (\<lambda>external.
     bind_result (ensure (verification_decision s = ''approve''
                          \<and> verification_claim s = EXTERNAL_CLAIM
                          \<and> verification_evidence_role s = PROGRAM_FIT
                          \<and> promoted_source_entry_id s = source_entry_id external
                          \<and> promoted_evidence_id s = evidence_id external
                          \<and> authority external = EXTERNALLY_VERIFIED)
        (ValueError ''governed mixed verification linkage is invalid'')) (\<lambda>_.
     bind_result (ensure (card (entry_id ` set (entries pack)) = length (entries pack))
        (ValueError ''governed mixed source entry identity is invalid'')) (\<lambda>_.
     bind_result (ensure (entry_id ` set (entries pack)
            = entry_id ` set (entries (source_pack baseline)) \<union> {promoted_source_entry_id s})
        (ValueError ''governed mixed source entry baseline is invalid'')) (\<lambda>_.
     bind_result (ensure (list_all (\<lambda>b. dict_of entry_id (entries pack) (entry_id b)
                                         = Some (promoted_entry b))
                           (entries (source_pack baseline)))
        (ValueError ''governed mixed synthetic source entry drifted'')) (\<lambda>_.
     bind_result (require ''promoted_source_entry_id''
        (dict_of entry_id (entries pack) (promoted_source_entry_id s))) (\<lambda>external_entry.
     bind_result (ensure (coverage external_entry = [EXTERNAL_CLAIM]
                          \<and> sha256 external_entry = source_sha256 external
                          \<and> redistribution_class external_entry = LINK_ONLY)
        (ValueError ''governed mixed external source entry is invalid'')) (\<lambda>_.
     bind_result (check_mixed_evidence org pack (evidence_by_claim (evidence baseline)) evs) (\<lambda>_.
     bind_result (rebound_rows org (gms_case s) evs baseline) (\<lambda>(cs, rs).
       Inr \<lparr>pi_schema_version = 1, pi_organization_id = org, case_revision = gms_case s,
            source_pack = pack, evidence = evs, costs = cs, rankings = rs, narrative = None,
            operation = ''generate_governed_mixed_planning_run_v1''\<rparr>))))))))))))"

text \<open>The comparison of two evidence dumps without tenant, identifier and pack version.\<close>

definition dump_without_binding :: "evidence_ref \<Rightarrow> evidence_ref" where
  "dump_without_binding e =
     e\<lparr>er_organization_id := 0, evidence_id := 0, source_pack_version := 0\<rparr>"

definition payload_drift :: exn where
  "payload_drift = ValueError ''governed mixed payload baseline drift''"

definition validate_governed_mixed_payload_baseline ::
  "loaded_manifest \<Rightarrow> governed_mixed_planning_input \<Rightarrow> unit result" where
  "validate_governed_mixed_payload_baseline m p =
     bind_result (load_exact_baseline m) (\<lambda>baseline.
     let pack = source_pack p; evs = evidence p;
         base_by_claim = evidence_by_claim (evidence baseline) in
     bind_result (ensure (pack_id pack = BASELINE_SOURCE_PACK_ID
                          \<and> BASELINE_SOURCE_PACK_VERSION < version pack) payload_drift) (\<lambda>_.
     bind_result (ensure (card (entry_id ` set (entries pack)) = length (entries pack)
                          \<and> card (claim ` set evs) = length evs
                          \<and> claim ` set evs = claim ` set (evidence baseline)) payload_drift) (\<lambda>_.
     bind_result (ensure (list_all (\<lambda>b. dict_of entry_id (entries pack) (entry_id b)
                                         = Some (promoted_entry b))
                           (entries (source_pack baseline))) payload_drift) (\<lambda>_.
     bind_result (require EXTERNAL_CLAIM (evidence_by_claim evs EXTERNAL_CLAIM)) (\<lambda>external.
     bind_result (ensure (entry_id ` set (entries pack)
              = entry_id ` set (entries (source_pack baseline)) \<union> {source_entry_id external}
          \<and> card (evidence_id ` set evs) = length evs
          \<and> authority external = EXTERNALLY_VERIFIED
          \<and> (case dict_of entry_id (entries pack) (source_entry_id external) of None \<Rightarrow> False
             | Some x \<Rightarrow> coverage x = [EXTERNAL_CLAIM] \<and> sha256 x = source_sha256 external
                         \<and> redistribution_class x = LINK_ONLY)) payload_drift) (\<lambda>_.
     bind_result (ensure (list_all (\<lambda>e. evidence_bound (pi_organization_id p) pack e
              \<and> (claim e = EXTERNAL_CLAIM \<or>
                 map_option dump_without_binding (base_by_claim (claim e))
                   = Some (dump_without_binding e))) evs) payload_drift) (\<lambda>_.
     bind_result (rebound_rows (pi_organization_id p) (case_revision p) evs baseline) (\<lambda>(cs, rs).
       ensure (costs p = cs \<and> rankings p = rs) payload_drift))))))))"

end
