(* ===== verification/Materialize_Properties.thy ===== *)
theory Materialize_Properties
  imports Planning_Materialize Planning_Properties
begin

text \<open>
  What materialization guarantees: the input built from a snapshot satisfies the
  contract check of the policy and, when its evidence has distinct identifiers, the
  provenance check and the payload check of the worker, so a run on it can only be
  blocked or reviewed, never failed.
\<close>

lemma map_result_Inr_iff: "map_result f xs = Inr ys \<longleftrightarrow> list_all2 (\<lambda>x y. f x = Inr y) xs ys"
  by (induction xs arbitrary: ys) (auto simp: list_all2_Cons1)

lemma map_result_set:
  "map_result f xs = Inr ys \<Longrightarrow> y \<in> set ys \<Longrightarrow> \<exists>x\<in>set xs. f x = Inr y"
  by (induction xs arbitrary: ys) auto

lemma check_mixed_evidence_iff:
  "check_mixed_evidence org pack base es = Inr u \<longleftrightarrow>
     (\<forall>e\<in>set es. evidence_bound org pack e
        \<and> (claim e = EXTERNAL_CLAIM \<or> baseline_evidence_ok base e))"
  by (induction es) auto

lemma require_Inr_iff [simp]: "require k v = Inr x \<longleftrightarrow> v = Some x"
  by (cases v) (simp_all add: require_def)

lemma project_selected_iff:
  "project_selected_country_rows c cs rs = Inr (cs', rs') \<longleftrightarrow>
     preferred_country_scope_is_valid (preferred_countries (student c))
     \<and> cs' = filter (\<lambda>x. ce_country x \<in> set (preferred_countries (student c))) cs
     \<and> rs' = filter (\<lambda>x. re_country x \<in> set (preferred_countries (student c))) rs"
  by (auto simp: project_selected_country_rows_def Let_def)

lemma cites_by_claim:
  assumes "distinct (map evidence_id evs)" "evidence_by_claim evs k = Some e"
  shows "cites evs (evidence_id e) k"
  using assms evidence_by_claim_SomeD [OF assms(2)] by (simp add: cites_def)

lemma rebind_cost_facts:
  assumes "rebind_cost org (evidence_by_claim evs) c = Inr c'"
  shows "ce_organization_id c' = org \<and> ce_schema_version c' = ce_schema_version c
     \<and> ce_currency c' = ce_currency c \<and> ce_country c' = ce_country c"
    and "distinct (map evidence_id evs) \<Longrightarrow> cost_ok evs c'"
  using assms
  by (auto simp: rebind_cost_def Let_def cost_ok_def intro!: cites_by_claim)

lemma rebind_ranking_facts:
  assumes "rebind_ranking org (evidence_by_claim evs) r = Inr r'"
  shows "re_organization_id r' = org \<and> re_schema_version r' = re_schema_version r \<and> re_country r' = re_country r"
    and "distinct (map evidence_id evs) \<Longrightarrow> ranking_ok evs r'"
  using assms
  by (auto simp: rebind_ranking_def Let_def ranking_ok_def intro!: cites_by_claim)

lemma rebound_rows_facts:
  assumes "rebound_rows org c evs baseline = Inr (cs, rs)"
    and "list_all valid_cost_evidence (costs baseline)"
    and "list_all valid_ranking_evidence (rankings baseline)"
  shows "\<forall>x\<in>set cs. ce_organization_id x = org \<and> ce_schema_version x = 1 \<and> ce_currency x = ''AUD''"
    and "\<forall>x\<in>set rs. re_organization_id x = org \<and> re_schema_version x = 1"
    and "distinct (map evidence_id evs) \<Longrightarrow> (\<forall>x\<in>set cs. cost_ok evs x) \<and> (\<forall>x\<in>set rs. ranking_ok evs x)"
    and "preferred_country_scope_is_valid (preferred_countries (student c))"
proof -
  from assms(1) obtain cs' rs' where
    c: "map_result (rebind_cost org (evidence_by_claim evs)) (costs baseline) = Inr cs'" and
    r: "map_result (rebind_ranking org (evidence_by_claim evs)) (rankings baseline) = Inr rs'" and
    p: "project_selected_country_rows c cs' rs' = Inr (cs, rs)"
    by (auto simp: rebound_rows_def)
  then have sub: "set cs \<subseteq> set cs'" "set rs \<subseteq> set rs'" by (auto simp: project_selected_iff)
  show "preferred_country_scope_is_valid (preferred_countries (student c))"
    using p by (simp add: project_selected_iff)
  have cost: "\<exists>y\<in>set (costs baseline). rebind_cost org (evidence_by_claim evs) y = Inr x" if "x \<in> set cs" for x
    using map_result_set [OF c] sub(1) that by blast
  have rank: "\<exists>y\<in>set (rankings baseline). rebind_ranking org (evidence_by_claim evs) y = Inr x" if "x \<in> set rs" for x
    using map_result_set [OF r] sub(2) that by blast
  show "\<forall>x\<in>set cs. ce_organization_id x = org \<and> ce_schema_version x = 1 \<and> ce_currency x = ''AUD''"
    using cost assms(2) rebind_cost_facts(1) by (fastforce simp: list_all_iff valid_cost_evidence_def)
  show "\<forall>x\<in>set rs. re_organization_id x = org \<and> re_schema_version x = 1"
    using rank assms(3) rebind_ranking_facts(1) by (fastforce simp: list_all_iff valid_ranking_evidence_def)
  show "(\<forall>x\<in>set cs. cost_ok evs x) \<and> (\<forall>x\<in>set rs. ranking_ok evs x)" if "distinct (map evidence_id evs)"
    using cost rank rebind_cost_facts(2) [OF _ that] rebind_ranking_facts(2) [OF _ that] by blast
qed

lemma load_exact_baseline_iff:
  "load_exact_baseline m = Inr p \<longleftrightarrow>
     raw_sha256 m = BASELINE_RAW_MANIFEST_SHA256
     \<and> (\<exists>f. fixture_of m = Inr f \<and> p = vf_planning_input f
           \<and> pack_id (source_pack p) = BASELINE_SOURCE_PACK_ID
           \<and> version (source_pack p) = BASELINE_SOURCE_PACK_VERSION
           \<and> vf_manifest_sha256 f = BASELINE_MANIFEST_SHA256)"
  by (auto simp: load_exact_baseline_def Let_def)

text \<open>What a successful materialization has checked.\<close>

definition materialized_facts ::
  "planning_input \<Rightarrow> governed_mixed_snapshot \<Rightarrow> governed_mixed_planning_input \<Rightarrow> evidence_ref
     \<Rightarrow> source_pack_entry \<Rightarrow> bool" where
  "materialized_facts baseline s g external x \<longleftrightarrow>
     snapshot_pins_ok s
     \<and> distinct (map claim (evidence g)) \<and> claim ` set (evidence g) = claim ` set (evidence baseline)
     \<and> evidence_by_claim (evidence g) EXTERNAL_CLAIM = Some external
     \<and> promoted_source_entry_id s = source_entry_id external
     \<and> authority external = EXTERNALLY_VERIFIED
     \<and> distinct (map entry_id (entries (source_pack g)))
     \<and> entry_id ` set (entries (source_pack g))
         = entry_id ` set (entries (source_pack baseline)) \<union> {source_entry_id external}
     \<and> list_all (\<lambda>b. dict_of entry_id (entries (source_pack g)) (entry_id b)
                      = Some (promoted_entry b)) (entries (source_pack baseline))
     \<and> dict_of entry_id (entries (source_pack g)) (source_entry_id external) = Some x
     \<and> coverage x = [EXTERNAL_CLAIM] \<and> sha256 x = source_sha256 external
     \<and> redistribution_class x = LINK_ONLY
     \<and> (\<forall>e\<in>set (evidence g). evidence_bound (pi_organization_id g) (source_pack g) e
           \<and> (claim e = EXTERNAL_CLAIM \<or>
              baseline_evidence_ok (evidence_by_claim (evidence baseline)) e))
     \<and> rebound_rows (pi_organization_id g) (case_revision g) (evidence g) baseline
         = Inr (costs g, rankings g)
     \<and> pi_schema_version g = 1 \<and> pi_organization_id g = gms_organization_id s
     \<and> case_revision g = gms_case s \<and> source_pack g = gms_source_pack s
     \<and> evidence g = gms_evidence s"

lemma materialize_mixed_facts:
  assumes "materialize_governed_mixed_input m s = Inr g"
  shows "\<exists>baseline external x. load_exact_baseline m = Inr baseline
           \<and> materialized_facts baseline s g external x"
  using assms
  by (auto simp: materialize_governed_mixed_input_def materialized_facts_def Let_def
      card_image_distinct check_mixed_evidence_iff split: prod.splits)

lemma view_mixed_simps [simp]:
  "pi_schema_version (planning_input.truncate g) = pi_schema_version g"
  "pi_organization_id (planning_input.truncate g) = pi_organization_id g"
  "case_revision (planning_input.truncate g) = case_revision g"
  "source_pack (planning_input.truncate g) = source_pack g"
  "evidence (planning_input.truncate g) = evidence g"
  "costs (planning_input.truncate g) = costs g"
  "rankings (planning_input.truncate g) = rankings g"
  by (simp_all add: planning_input.defs)

lemma evidence_by_claim_distinct:
  "distinct (map claim evs) \<Longrightarrow> evidence_by_claim evs k = Some e \<longleftrightarrow> e \<in> set evs \<and> claim e = k"
  unfolding evidence_by_claim_def by (rule dict_of_distinct)

text \<open>The validity of a loaded baseline: a valid input on which the policy does not fail.\<close>

definition sound_baseline :: "planning_input \<Rightarrow> bool" where
  "sound_baseline p \<longleftrightarrow>
     valid_planning_input p \<and> validate_contract (Plain p) = None
     \<and> validate_provenance (Plain p) = None
     \<and> claim ` set (evidence p) = MIXED_BASELINE_CLAIMS"

lemma sound_baseline_evidence:
  assumes "sound_baseline p" "e \<in> set (evidence p)"
  shows "er_schema_version e = 1 \<and> authority e = ACCEPTED_SYNTHETIC_DEMO
     \<and> er_source_pack_id e = pack_id (source_pack p)"
  using assms
  by (simp add: sound_baseline_def contract_None_iff provenance_None_iff evidence_entry_ok_def
      valid_planning_input_def valid_planning_input_body_def list_all_iff valid_evidence_ref_def)

lemma sound_baseline_rows:
  "sound_baseline p \<Longrightarrow>
     list_all valid_cost_evidence (costs p) \<and> list_all valid_ranking_evidence (rankings p)"
  by (simp add: sound_baseline_def valid_planning_input_def valid_planning_input_body_def)

lemma valid_snapshot_versions:
  assumes "valid_governed_mixed_snapshot s"
  shows "scr_schema_version (gms_case s) = 1" "sp_schema_version (student (gms_case s)) = 1"
    "fp_schema_version (family (gms_case s)) = 1"
    "be_schema_version (budget (family (gms_case s))) = 1" "0 < revision (gms_case s)"
    "spm_schema_version (gms_source_pack s) = 1" "0 < version (gms_source_pack s)"
    "\<forall>e\<in>set (entries (gms_source_pack s)). spe_schema_version e = 1"
    "\<forall>e\<in>set (gms_evidence s). er_schema_version e = 1 \<and> 0 < source_pack_version e"
  using assms unfolding shape_defs list_all_iff by blast+

lemma materialized_rows:
  assumes "materialized_facts baseline s g external x" "sound_baseline baseline"
  shows "\<forall>c\<in>set (costs g). ce_organization_id c = pi_organization_id g
            \<and> ce_schema_version c = 1 \<and> ce_currency c = ''AUD''"
    and "\<forall>r\<in>set (rankings g). re_organization_id r = pi_organization_id g \<and> re_schema_version r = 1"
    and "distinct (map evidence_id (evidence g)) \<Longrightarrow>
           (\<forall>c\<in>set (costs g). cost_ok (evidence g) c) \<and> (\<forall>r\<in>set (rankings g). ranking_ok (evidence g) r)"
    and "preferred_country_scope_is_valid (preferred_countries (student (case_revision g)))"
proof -
  have r: "rebound_rows (pi_organization_id g) (case_revision g) (evidence g) baseline
             = Inr (costs g, rankings g)"
    using assms(1) unfolding materialized_facts_def by blast
  note F = rebound_rows_facts [OF r sound_baseline_rows [OF assms(2), THEN conjunct1]
      sound_baseline_rows [OF assms(2), THEN conjunct2]]
  show "\<forall>c\<in>set (costs g). ce_organization_id c = pi_organization_id g
            \<and> ce_schema_version c = 1 \<and> ce_currency c = ''AUD''"
    and "\<forall>r\<in>set (rankings g). re_organization_id r = pi_organization_id g \<and> re_schema_version r = 1"
    and "distinct (map evidence_id (evidence g)) \<Longrightarrow>
           (\<forall>c\<in>set (costs g). cost_ok (evidence g) c) \<and> (\<forall>r\<in>set (rankings g). ranking_ok (evidence g) r)"
    and "preferred_country_scope_is_valid (preferred_countries (student (case_revision g)))"
    by (rule F(1), rule F(2), erule F(3), rule F(4))
qed

lemma materialized_from_snapshot:
  assumes "materialized_facts baseline s g external x"
  shows "pi_schema_version g = 1" "pi_organization_id g = gms_organization_id s"
    "case_revision g = gms_case s" "source_pack g = gms_source_pack s"
    "evidence g = gms_evidence s"
  using assms unfolding materialized_facts_def by blast+

lemma materialized_authority:
  assumes "materialized_facts baseline s g external x" "e \<in> set (evidence g)"
  shows "authority e = expected_mixed_authority (claim e)"
proof (cases "claim e = EXTERNAL_CLAIM")
  case True
  from assms(1) have "distinct (map claim (evidence g))"
    "evidence_by_claim (evidence g) EXTERNAL_CLAIM = Some external"
    by (auto simp: materialized_facts_def)
  then have "e = external"
    using True assms(2) evidence_by_claim_distinct [of "evidence g" EXTERNAL_CLAIM e] by simp
  with assms True show ?thesis
    by (simp add: materialized_facts_def expected_mixed_authority_def EXTERNAL_CLAIM_def)
next
  case False
  with assms show ?thesis
    by (auto simp: materialized_facts_def expected_mixed_authority_def EXTERNAL_CLAIM_def
        baseline_evidence_ok_def split: option.splits)
qed

lemma materialized_contract:
  assumes "materialized_facts baseline s g external x" "sound_baseline baseline"
    and "valid_governed_mixed_snapshot s"
  shows "validate_contract (Mixed g) = None"
proof -
  note rows = materialized_rows [OF assms(1,2)]
  note snap = materialized_from_snapshot [OF assms(1)] valid_snapshot_versions [OF assms(3)]
  have v: "\<forall>v\<in>set (schema_versions (planning_input.truncate g)). v = 1"
    using snap rows by (auto simp: schema_versions_def)
  have pos: "\<forall>e\<in>set (evidence g). 0 < source_pack_version e" "0 < version (source_pack g)"
    "0 < revision (case_revision g)"
    using snap by auto
  have "distinct (map claim (evidence g))" "claim ` set (evidence g) = MIXED_BASELINE_CLAIMS"
    using assms(1,2) by (auto simp: materialized_facts_def sound_baseline_def)
  with v rows pos materialized_authority [OF assms(1)] show ?thesis
    by (simp add: contract_None_iff)
qed

lemma materialized_provenance:
  assumes "materialized_facts baseline s g external x" "sound_baseline baseline"
  shows "validate_provenance (Mixed g) = None \<longleftrightarrow> distinct (map evidence_id (evidence g))"
proof -
  note rows = materialized_rows [OF assms]
  have ev: "\<forall>e\<in>set (evidence g). evidence_bound (pi_organization_id g) (source_pack g) e"
    and d: "distinct (map claim (evidence g))"
    and o: "scr_organization_id (case_revision g) = pi_organization_id g"
      "spm_organization_id (source_pack g) = pi_organization_id g"
    using assms(1) by (auto simp: materialized_facts_def snapshot_pins_ok_def)
  have "organization_ids (planning_input.truncate g) = {pi_organization_id g}"
    using rows ev o by (auto simp: organization_ids_def evidence_bound_def)
  moreover have "\<forall>e\<in>set (evidence g). evidence_entry_ok (source_pack g) e"
    using ev materialized_authority [OF assms(1)]
    by (auto simp: evidence_entry_ok_def evidence_bound_def expected_mixed_authority_def
        split: option.splits)
  ultimately show ?thesis
    using rows(3) d by (auto simp: provenance_None_iff)
qed

lemma materialized_dump:
  assumes "materialized_facts baseline s g external x" "sound_baseline baseline"
    and "valid_governed_mixed_snapshot s" "load_exact_baseline m = Inr baseline"
    and "e \<in> set (evidence g)" "claim e \<noteq> EXTERNAL_CLAIM"
  shows "map_option dump_without_binding (evidence_by_claim (evidence baseline) (claim e))
           = Some (dump_without_binding e)"
proof -
  from assms(1,5,6) obtain b where b: "evidence_by_claim (evidence baseline) (claim e) = Some b"
    "authority e = ACCEPTED_SYNTHETIC_DEMO" "source_entry_id e = source_entry_id b"
    "source_sha256 e = source_sha256 b"
    by (auto simp: materialized_facts_def baseline_evidence_ok_def split: option.splits)
  from b(1) have mem: "b \<in> set (evidence baseline)" "claim b = claim e"
    by (auto dest: evidence_by_claim_SomeD)
  have "er_schema_version e = 1"
    using materialized_from_snapshot [OF assms(1)] valid_snapshot_versions [OF assms(3)] assms(5)
    by auto
  moreover have "er_source_pack_id e = pack_id (source_pack baseline)"
    using assms(1,4,5)
    by (auto simp: materialized_facts_def snapshot_pins_ok_def evidence_bound_def
        load_exact_baseline_iff)
  ultimately have "dump_without_binding b = dump_without_binding e"
    using b mem(2) sound_baseline_evidence [OF assms(2) mem(1)]
    by (simp add: dump_without_binding_def)
  with b(1) show ?thesis by simp
qed

text \<open>C22: A governed mixed snapshot that materializes against a sound baseline gives an input that
  satisfies the contract of the policy.  Materializing does not look at the identifiers of the evidence;
  the provenance check of the policy and the payload check that the worker repeats before it runs
  do, and they refuse nothing else: both pass exactly when the identifiers are distinct, which the
  primary key of the evidence table grants.  So the run can be blocked or reviewed but does not fail.\<close>

theorem materialized_mixed_accepted:
  assumes "materialize_governed_mixed_input m s = Inr g"
    and "load_exact_baseline m = Inr baseline" "sound_baseline baseline"
    and "valid_governed_mixed_snapshot s"
  shows "validate_contract (Mixed g) = None
    \<and> (validate_provenance (Mixed g) = None \<longleftrightarrow> distinct (map evidence_id (gms_evidence s)))
    \<and> (validate_governed_mixed_payload_baseline m g = Inr () \<longleftrightarrow> distinct (map evidence_id (gms_evidence s)))"
proof -
  obtain external x where F: "materialized_facts baseline s g external x"
    using materialize_mixed_facts [OF assms(1)] assms(2) by auto
  have ids: "evidence g = gms_evidence s" using F by (simp add: materialized_facts_def)
  have dumps: "\<forall>e\<in>set (evidence g). claim e = EXTERNAL_CLAIM \<or>
      map_option dump_without_binding (evidence_by_claim (evidence baseline) (claim e))
        = Some (dump_without_binding e)"
    using materialized_dump [OF F assms(3,4,2)] by blast
  have "validate_governed_mixed_payload_baseline m g = Inr () \<longleftrightarrow> distinct (map evidence_id (evidence g))"
    using F dumps assms(2)
    by (auto simp: validate_governed_mixed_payload_baseline_def Let_def materialized_facts_def
        snapshot_pins_ok_def card_image_distinct list_all_iff simp del: map_option_eq_Some)
  then show ?thesis
    using materialized_contract [OF F assms(3,4)] materialized_provenance [OF F assms(3)] ids by simp
qed

text \<open>A persisted synthetic snapshot that materializes against a baseline on which the policy
  does not fail gives an input of the snapshot's own tenant, case and country scope, with costs and
  rankings only of the preferred countries, on which the contract and provenance checks hold.\<close>

theorem materialized_synthetic_accepted:
  assumes "materialize_persisted_synthetic_input bm im s = Inr p"
    and "exact_case_organization s = Inr s"
    and "synthetic_baseline bm im s = Inr baseline" "valid_planning_input baseline"
    and "validate_contract (Plain baseline) = None" "validate_provenance (Plain baseline) = None"
  shows "validate_contract (Plain p) = None \<and> validate_provenance (Plain p) = None
     \<and> case_revision p = pss_case s \<and> pi_organization_id p = pss_organization_id s
     \<and> (\<forall>c\<in>set (costs p). ce_country c \<in> set (preferred_countries (student (pss_case s))))"
proof -
  let ?org = "pss_organization_id s" and ?cs = "preferred_countries (student (pss_case s))"
  let ?pack = "(source_pack baseline)\<lparr>spm_organization_id := ?org\<rparr>"
  let ?evs = "map (\<lambda>e. e\<lparr>er_organization_id := ?org\<rparr>) (evidence baseline)"
  from assms(1,3) have p: "p = \<lparr>pi_schema_version = 1, pi_organization_id = ?org,
      case_revision = pss_case s, source_pack = ?pack, evidence = ?evs,
      costs = filter (\<lambda>x. ce_country x \<in> set ?cs)
        (map (\<lambda>c. c\<lparr>ce_organization_id := ?org\<rparr>) (costs baseline)),
      rankings = filter (\<lambda>x. re_country x \<in> set ?cs)
        (map (\<lambda>r. r\<lparr>re_organization_id := ?org\<rparr>) (rankings baseline)),
      narrative = narrative baseline\<rparr>"
    and scope: "preferred_country_scope_is_valid ?cs"
    by (auto simp: materialize_persisted_synthetic_input_def Let_def project_selected_iff)
  from assms(2) have c: "valid_student_case_revision (pss_case s)"
    and org: "scr_organization_id (pss_case s) = ?org"
    by (auto simp: exact_case_organization_def split: if_splits)
  have cites: "cites ?evs j k \<longleftrightarrow> cites (evidence baseline) j k" for j k
    by (auto simp: cites_def dict_of_map split: option.splits)
  have entry: "evidence_entry_ok ?pack (e\<lparr>er_organization_id := ?org\<rparr>)
      \<longleftrightarrow> evidence_entry_ok (source_pack baseline) e" for e
    by (auto simp: evidence_entry_ok_def split: option.splits)
  have vers: "\<forall>v\<in>set (schema_versions baseline). v = 1"
    using assms(5) by (simp add: contract_None_iff)
  have caseok: "scr_schema_version (pss_case s) = 1" "sp_schema_version (student (pss_case s)) = 1"
    "fp_schema_version (family (pss_case s)) = 1"
    "be_schema_version (budget (family (pss_case s))) = 1" "0 < revision (pss_case s)"
    using c unfolding shape_defs by blast+
  have "validate_contract (Plain p) = None"
    using assms(5) vers caseok scope unfolding p
    by (auto simp: contract_None_iff schema_versions_def)
  moreover have "organization_ids p = {?org}"
    unfolding p by (auto simp: organization_ids_def org)
  then have "validate_provenance (Plain p) = None"
    using assms(6) unfolding p
    by (auto simp: provenance_None_iff o_def entry cost_ok_def ranking_ok_def cites)
  ultimately show ?thesis unfolding p by auto
qed

section \<open>Witnesses\<close>

definition baseline_manifest :: loaded_manifest where
  "baseline_manifest = \<lparr>raw_sha256 = BASELINE_RAW_MANIFEST_SHA256,
     fixture_of = Inr \<lparr>vf_planning_input = golden_input, vf_result = golden_result,
        vf_manifest_sha256 = BASELINE_MANIFEST_SHA256,
        vf_evidence_projection_sha256 = replicate 64 (CHR ''0''),
        vf_output_sha256 = replicate 64 (CHR ''0''), eval_assertions = golden_eval\<rparr>\<rparr>"

definition external_entry :: source_pack_entry where
  "external_entry = (hd (entries golden_pack))
     \<lparr>entry_id := 0x51000000000000000000000000000009, redistribution_class := LINK_ONLY,
      evidence_class := INSTITUTIONAL, coverage := [EXTERNAL_CLAIM],
      sha256 := replicate 64 (CHR ''e'')\<rparr>"

definition mixed_evidence :: "evidence_ref \<Rightarrow> evidence_ref" where
  "mixed_evidence e =
     (if claim e = EXTERNAL_CLAIM
      then e\<lparr>source_pack_version := 2, source_entry_id := entry_id external_entry,
             source_sha256 := sha256 external_entry, authority := EXTERNALLY_VERIFIED\<rparr>
      else e\<lparr>source_pack_version := 2\<rparr>)"

definition mixed_snapshot :: governed_mixed_snapshot where
  "mixed_snapshot = \<lparr>gms_schema_version = 1, gms_organization_id = golden_org,
     gms_case = golden_case,
     gms_source_pack = golden_pack\<lparr>version := 2,
       entries := map promoted_entry (entries golden_pack) @ [external_entry]\<rparr>,
     gms_evidence = map mixed_evidence (evidence golden_input),
     verification_decision = ''approve'', verification_claim = ''australia_program_fit'',
     verification_evidence_role = PROGRAM_FIT,
     baseline_source_pack_id = BASELINE_SOURCE_PACK_ID, baseline_source_pack_version = 1,
     baseline_manifest_sha256 = BASELINE_MANIFEST_SHA256,
     baseline_raw_manifest_sha256 = BASELINE_RAW_MANIFEST_SHA256,
     promoted_source_pack_version = 2, promoted_source_entry_id = entry_id external_entry,
     promoted_evidence_id = 0x60000000000000000000000000000001\<rparr>"

definition synthetic_snapshot :: persisted_synthetic_snapshot where
  "synthetic_snapshot = \<lparr>pss_schema_version = 1, pss_organization_id = 77,
     pss_case = golden_case\<lparr>scr_organization_id := 77,
       student := (student golden_case)\<lparr>preferred_countries := [AUSTRALIA]\<rparr>\<rparr>,
     pss_source_pack_id = BASELINE_SOURCE_PACK_ID, pss_source_pack_version = 1,
     pss_policy_version = ''m3a-policy-v1''\<rparr>"

lemma golden_contract: "validate_contract (Plain golden_input) = None"
  by code_simp

lemma golden_provenance: "validate_provenance (Plain golden_input) = None"
  by code_simp

lemma golden_baseline: "sound_baseline golden_input"
proof -
  have "claim ` set (evidence golden_input) = MIXED_BASELINE_CLAIMS" by code_simp
  then show ?thesis
    by (simp add: sound_baseline_def golden_valid golden_contract golden_provenance)
qed

theorem materialized_mixed_accepted_witness:
  "\<exists>g. materialize_governed_mixed_input baseline_manifest mixed_snapshot = Inr g
       \<and> validate_contract (Mixed g) = None \<and> validate_provenance (Mixed g) = None
       \<and> validate_governed_mixed_payload_baseline baseline_manifest g = Inr ()"
proof -
  have "is_ok (materialize_governed_mixed_input baseline_manifest mixed_snapshot)" by code_simp
  then obtain g where g: "materialize_governed_mixed_input baseline_manifest mixed_snapshot = Inr g"
    by (auto simp: is_ok_iff)
  have l: "load_exact_baseline baseline_manifest = Inr golden_input" by code_simp
  have v: "valid_governed_mixed_snapshot mixed_snapshot" by code_simp
  have d: "distinct (map evidence_id (gms_evidence mixed_snapshot))" by code_simp
  from materialized_mixed_accepted [OF g l golden_baseline v] d g show ?thesis by blast
qed

theorem materialized_synthetic_accepted_witness:
  "\<exists>p. materialize_persisted_synthetic_input baseline_manifest baseline_manifest synthetic_snapshot
         = Inr p \<and> validate_provenance (Plain p) = None \<and> pi_organization_id p = 77"
proof -
  have "is_ok (materialize_persisted_synthetic_input baseline_manifest baseline_manifest
          synthetic_snapshot)" by code_simp
  then obtain p where p: "materialize_persisted_synthetic_input baseline_manifest
      baseline_manifest synthetic_snapshot = Inr p"
    by (auto simp: is_ok_iff)
  have e: "exact_case_organization synthetic_snapshot = Inr synthetic_snapshot" by code_simp
  have b: "synthetic_baseline baseline_manifest baseline_manifest synthetic_snapshot
             = Inr golden_input" by code_simp
  from materialized_synthetic_accepted [OF p e b golden_valid golden_contract golden_provenance] p
  show ?thesis by (simp add: synthetic_snapshot_def)
qed

end
