(* ===== verification/Store.thy ===== *)
theory Store
  imports Prelude "HOL-Library.AList"
begin

text \<open>
  What the PostgreSQL authority functions share: the error codes they raise, the
  session context, tables as association lists and their filtered updates, the append-only event log and the
  idempotency records.  A function that raises rolls its transaction back, so it
  returns an error and no state.  The interfaces are two locales: a command that
  is replayed by its idempotency key, and a log that only grows.
\<close>

datatype sql_error =
    NV003 | NV005 | NV006 | NV007 | NV008 | NV009 | NV010 | NV011 | NV012 | NV013 | NV014 | NV015
  | NV016 | NV017 | NV018 | NV019
  | NV020 | NV021 | NV022 | NV023 | NV024 | NV025 | NV026 | NV027
  | UNIQUE_VIOLATION | NOT_NULL_VIOLATION | CHECK_VIOLATION | FOREIGN_KEY_VIOLATION | NUMERIC_OUT_OF_RANGE
  | DATETIME_OVERFLOW
  | SERIALIZATION_FAILURE
  | RAISE_EXCEPTION

record session =
  ses_organization :: uuid
  ses_actor :: uuid
  ses_role :: string

definition assert_context :: "session \<Rightarrow> uuid \<Rightarrow> sql_error + unit" where
  "assert_context s org = (if ses_organization s \<noteq> org then Inl NV007 else Inr ())"

definition assert_m3b_context :: "session \<Rightarrow> uuid \<Rightarrow> uuid \<Rightarrow> string \<Rightarrow> sql_error + unit" where
  "assert_m3b_context s org actor role =
     (if ses_organization s \<noteq> org \<or> ses_actor s \<noteq> actor \<or> ses_role s \<noteq> role then Inl NV007
      else Inr ())"

section \<open>Tables\<close>

type_synonym row_key = "uuid \<times> uuid"

lemma update_existing_keys:
  "map_of xs k \<noteq> None \<Longrightarrow> map fst (AList.update k v xs) = map fst xs"
  by (induction xs) (auto split: if_splits)

lemma map_of_update [simp]:
  "map_of (AList.update k v xs) k' = (if k' = k then Some v else map_of xs k')"
  by (simp add: update_conv')

lemma map_of_delete [simp]:
  "map_of (AList.delete k xs) k' = (if k' = k then None else map_of xs k')"
  by (simp add: delete_conv')

text \<open>Updates of a filtered set of rows, any of which may raise.\<close>

fun traverse :: "('a \<Rightarrow> 'e + 'b) \<Rightarrow> 'a list \<Rightarrow> 'e + 'b list" where
  "traverse f [] = Inr []"
| "traverse f (x # xs) =
     bind_result (f x) (\<lambda>y. bind_result (traverse f xs) (\<lambda>ys. Inr (y # ys)))"

definition update_where ::
  "('k \<Rightarrow> 'r \<Rightarrow> bool) \<Rightarrow> ('r \<Rightarrow> 'e + 'r) \<Rightarrow> ('k \<times> 'r) list \<Rightarrow> 'e + ('k \<times> 'r) list" where
  "update_where P f rows =
     traverse (\<lambda>(k, r). if P k r then bind_result (f r) (\<lambda>r'. Inr (k, r')) else Inr (k, r)) rows"

definition rows_of :: "'k \<Rightarrow> ('k \<times> 'r) list \<Rightarrow> 'r list" where
  "rows_of k rows = map snd (filter (\<lambda>(k', r). k' = k) rows)"

lemma rows_of_simps [simp]:
  "rows_of k [] = []"
  "rows_of k ((k', r) # rows) = (if k' = k then r # rows_of k rows else rows_of k rows)"
  "rows_of k (rows @ rows') = rows_of k rows @ rows_of k rows'"
  by (simp_all add: rows_of_def)

lemma rows_of_set: "x \<in> set (rows_of k rows) \<longleftrightarrow> (k, x) \<in> set rows"
  by (induction rows) (auto split: if_splits)

lemma traverse_Inr_induct:
  assumes "traverse f xs = Inr ys" and "R [] []"
    and "\<And>x y xs ys. f x = Inr y \<Longrightarrow> R xs ys \<Longrightarrow> R (x # xs) (y # ys)"
  shows "R xs ys"
  using assms(1) by (induction xs arbitrary: ys) (auto intro: assms(2,3))

lemma traverse_append:
  "traverse f (xs @ ys) = Inr zs \<longleftrightarrow>
     (\<exists>us vs. traverse f xs = Inr us \<and> traverse f ys = Inr vs \<and> zs = us @ vs)"
  by (induction xs arbitrary: zs) auto

lemma traverse_id: "(\<And>x. x \<in> set xs \<Longrightarrow> f x = Inr x) \<Longrightarrow> traverse f xs = Inr xs"
  by (induction xs) auto

lemma traverse_total: "(\<And>x. x \<in> set xs \<Longrightarrow> is_ok (f x)) \<Longrightarrow> is_ok (traverse f xs)"
  by (induction xs) (auto simp: is_ok_iff)

lemma update_where_other:
  assumes "update_where (\<lambda>k' x. k' = k \<and> Q x) f rows = Inr rows'" and "k' \<noteq> k"
  shows "rows_of k' rows' = rows_of k' rows"
  using assms by (induction rows arbitrary: rows')
    (auto simp: update_where_def split: if_splits)

lemma update_where_same:
  assumes "update_where (\<lambda>k' x. k' = k \<and> Q x) f rows = Inr rows'"
  shows "traverse (\<lambda>x. if Q x then f x else Inr x) (rows_of k rows) = Inr (rows_of k rows')"
  using assms by (induction rows arbitrary: rows')
    (auto simp: update_where_def split: if_splits)

section \<open>Idempotency records\<close>

record idem_key =
  ik_organization :: uuid
  ik_actor :: uuid
  ik_operation :: string
  ik_key_sha256 :: sha

record idem_record =
  ir_request_sha256 :: sha
  ir_response_id :: uuid

text \<open>
  A command that looks its key up first: a known key replays the stored response
  when the request hash is the same and is refused otherwise, and a successful run
  leaves a record.  \<open>ready\<close> is what the command checks before the lookup.
\<close>

locale idempotent_command =
  fixes recall :: "'req \<Rightarrow> 'db \<Rightarrow> idem_record option"
    and run :: "'req \<Rightarrow> 'db \<Rightarrow> sql_error + ('db \<times> 'out)"
    and request_hash :: "'req \<Rightarrow> sha"
    and ready :: "'req \<Rightarrow> 'db \<Rightarrow> bool"
    and replayed :: "'req \<Rightarrow> uuid \<Rightarrow> 'db \<Rightarrow> 'out"
    and refused :: sql_error
  assumes run_known:
      "ready r db \<Longrightarrow> recall r db = Some rec \<Longrightarrow> ir_request_sha256 rec = request_hash r \<Longrightarrow>
         run r db = Inr (db, replayed r (ir_response_id rec) db)"
    and run_mismatch:
      "ready r db \<Longrightarrow> recall r db = Some rec \<Longrightarrow> ir_request_sha256 rec \<noteq> request_hash r \<Longrightarrow>
         run r db = Inl refused"
    and run_records:
      "run r db = Inr (db', out) \<Longrightarrow>
         ready r db \<and> ready r db' \<and>
         (\<exists>rec. recall r db' = Some rec \<and> ir_request_sha256 rec = request_hash r)"
begin

fun run_times :: "nat \<Rightarrow> 'req \<Rightarrow> 'db \<Rightarrow> sql_error + 'db" where
  "run_times 0 r db = Inr db"
| "run_times (Suc n) r db =
     (case run r db of Inl e \<Rightarrow> Inl e | Inr (db', out) \<Rightarrow> run_times n r db')"

lemma rerun: "run r db = Inr (db', out) \<Longrightarrow> \<exists>out'. run r db' = Inr (db', out')"
  using run_records run_known by blast

lemma run_times_fixed: "run r db = Inr (db, out) \<Longrightarrow> run_times n r db = Inr db"
  by (induction n) simp_all

lemma repeat_is_once:
  assumes "run r db = Inr (db', out)"
  shows "run_times (Suc n) r db = Inr db'"
  using assms rerun [OF assms] by (auto simp: run_times_fixed)

lemma other_request_refused:
  assumes "run r db = Inr (db', out)" "recall r' db' = recall r db'" "ready r' db'"
    and "request_hash r' \<noteq> request_hash r"
  shows "run r' db' = Inl refused"
  using assms run_records [OF assms(1)] run_mismatch by metis

end

section \<open>Growing logs\<close>

text \<open>A system whose steps only append to its log.\<close>

locale growing_log =
  fixes step :: "'s \<Rightarrow> 's \<Rightarrow> bool" and log :: "'s \<Rightarrow> 'e list"
  assumes step_appends: "step s s' \<Longrightarrow> \<exists>es. log s' = log s @ es"
begin

lemma steps_append: "step\<^sup>*\<^sup>* s s' \<Longrightarrow> \<exists>es. log s' = log s @ es"
proof (induction rule: rtranclp_induct)
  case (step t u)
  with step_appends show ?case by (metis append_assoc)
qed simp

lemma steps_take: "step\<^sup>*\<^sup>* s s' \<Longrightarrow> take (length (log s)) (log s') = log s"
  using steps_append by force

lemma steps_mono: "step\<^sup>*\<^sup>* s s' \<Longrightarrow> set (log s) \<subseteq> set (log s')"
  using steps_append by force

end

end
