(* ===== verification/Task_Policy.thy ===== *)
theory Task_Policy
  imports Planning_Materialize
begin

text \<open>
  \<open>tasks/models.py\<close>, \<open>tasks/policy.py\<close> and \<open>adapters/\<close>: task states and their public
  projection, the classification of adapter failures, the leaf bindings, and the
  validation of an adapter's payload.  Decoding JSON, Pydantic's parsing and the
  UTF-8 length of a text are parameters collected in \<open>payload_env\<close>.
\<close>

section \<open>States and codes\<close>

datatype task_state =
    TS_QUEUED | TS_LEASED | TS_RUNNING | TS_WAITING_REVIEW | TS_SUCCEEDED
  | TS_BLOCKED | TS_TIMED_OUT | TS_FAILED | TS_CANCELLED

datatype execution_state =
    XS_LEASED | XS_RUNNING | XS_SUCCEEDED | XS_RETRY_SCHEDULED | XS_BLOCKED
  | XS_TIMED_OUT | XS_FAILED | XS_CANCELLED | XS_DISCARDED

datatype task_view_status =
    PREPARING | NEEDS_ADVISOR_REVIEW | READY | NEEDS_EVIDENCE
  | VIEW_TIMED_OUT | VIEW_FAILED | VIEW_CANCELLED | OUTDATED

datatype task_event_code =
    EV_QUEUED | EV_LEASE_ACQUIRED | EV_EXECUTION_STARTED | EV_HEARTBEAT_RECORDED
  | EV_RETRY_SCHEDULED | EV_LEASE_RECLAIMED | EV_WAITING_REVIEW | EV_SUCCEEDED
  | EV_BLOCKED | EV_TIMED_OUT | EV_FAILED | EV_CANCELLED

record task_runtime_policy =
  lease_seconds :: int
  heartbeat_seconds :: int
  poll_seconds :: int
  sse_heartbeat_seconds :: int
  max_attempts :: int
  sse_page_size :: nat
  max_payload_bytes :: nat
  max_narrative_bytes :: nat
  max_evidence_refs :: nat

definition default_policy :: task_runtime_policy where
  "default_policy = \<lparr>lease_seconds = 60, heartbeat_seconds = 15, poll_seconds = 1,
     sse_heartbeat_seconds = 15, max_attempts = 3, sse_page_size = 100,
     max_payload_bytes = 1024 * 1024, max_narrative_bytes = 64 * 1024, max_evidence_refs = 20\<rparr>"

datatype planning_operation = GENERATE_PLANNING_RUN | GENERATE_GOVERNED_MIXED

fun operation_value :: "planning_operation \<Rightarrow> string" where
  "operation_value GENERATE_PLANNING_RUN = ''generate_planning_run_v1''"
| "operation_value GENERATE_GOVERNED_MIXED = ''generate_governed_mixed_planning_run_v1''"

datatype adapter_failure_code =
    TRANSIENT_UNAVAILABLE | TRANSPORT_INTERRUPTED | LEASE_EXPIRED | DEADLINE_EXCEEDED
  | REQUIRED_EVIDENCE_GAP | INVALID_SCHEMA | PIN_MISMATCH | FALLBACK_AUTHORITY
  | OVERSIZE | POLICY_REJECTED | UNKNOWN

fun failure_value :: "adapter_failure_code \<Rightarrow> string" where
  "failure_value TRANSIENT_UNAVAILABLE = ''transient_unavailable''"
| "failure_value TRANSPORT_INTERRUPTED = ''transport_interrupted''"
| "failure_value LEASE_EXPIRED = ''lease_expired''"
| "failure_value DEADLINE_EXCEEDED = ''deadline_exceeded''"
| "failure_value REQUIRED_EVIDENCE_GAP = ''required_evidence_gap''"
| "failure_value INVALID_SCHEMA = ''invalid_schema''"
| "failure_value PIN_MISMATCH = ''pin_mismatch''"
| "failure_value FALLBACK_AUTHORITY = ''fallback_authority''"
| "failure_value OVERSIZE = ''oversize''"
| "failure_value POLICY_REJECTED = ''policy_rejected''"
| "failure_value UNKNOWN = ''unknown''"

definition RETRYABLE_FAILURES :: "adapter_failure_code set" where
  "RETRYABLE_FAILURES = {TRANSIENT_UNAVAILABLE, TRANSPORT_INTERRUPTED, LEASE_EXPIRED}"

definition TERMINAL_RECOVERY_CODES :: "string set" where
  "TERMINAL_RECOVERY_CODES =
     {''transient_unavailable'', ''transport_interrupted'', ''lease_expired'', ''deadline_exceeded''}"

definition terminal_recovery_allowed :: "string \<Rightarrow> string option \<Rightarrow> bool \<Rightarrow> bool" where
  "terminal_recovery_allowed state code has_result \<longleftrightarrow>
     \<not> has_result \<and>
     (state = ''failed'' \<and>
        (case code of None \<Rightarrow> False
         | Some c \<Rightarrow> c \<in> TERMINAL_RECOVERY_CODES - {''deadline_exceeded''})
      \<or> state = ''timed_out'' \<and> code = Some ''deadline_exceeded'')"

fun status_of_state :: "task_state \<Rightarrow> task_view_status" where
  "status_of_state TS_QUEUED = PREPARING"
| "status_of_state TS_LEASED = PREPARING"
| "status_of_state TS_RUNNING = PREPARING"
| "status_of_state TS_WAITING_REVIEW = NEEDS_ADVISOR_REVIEW"
| "status_of_state TS_SUCCEEDED = READY"
| "status_of_state TS_BLOCKED = NEEDS_EVIDENCE"
| "status_of_state TS_TIMED_OUT = VIEW_TIMED_OUT"
| "status_of_state TS_FAILED = VIEW_FAILED"
| "status_of_state TS_CANCELLED = VIEW_CANCELLED"

definition project_task_status :: "task_state \<Rightarrow> bool \<Rightarrow> task_view_status" where
  "project_task_status state result_is_current =
     (if \<not> result_is_current \<and> state \<in> {TS_WAITING_REVIEW, TS_SUCCEEDED} then OUTDATED
      else status_of_state state)"

record retry_decision =
  retryable :: bool
  terminal_state :: "task_state option"
  public_code :: string

definition classify_adapter_outcome :: "adapter_failure_code \<Rightarrow> int \<Rightarrow> retry_decision" where
  "classify_adapter_outcome code attempt_no =
     (if code \<in> RETRYABLE_FAILURES \<and> attempt_no < max_attempts default_policy then
        \<lparr>retryable = True, terminal_state = None, public_code = failure_value code\<rparr>
      else
        \<lparr>retryable = False,
         terminal_state = Some (if code = DEADLINE_EXCEEDED then TS_TIMED_OUT
                                else if code = REQUIRED_EVIDENCE_GAP then TS_BLOCKED
                                else TS_FAILED),
         public_code = failure_value code\<rparr>)"

section \<open>Requests, leaves and payloads\<close>

record skill_leaf_binding =
  leaf_operation :: planning_operation
  leaf_adapter_id :: string
  leaf_adapter_version :: string

fun expected_leaf :: "planning_operation \<Rightarrow> string \<times> string" where
  "expected_leaf GENERATE_PLANNING_RUN = (''deterministic_planning'', ''m4a-v1'')"
| "expected_leaf GENERATE_GOVERNED_MIXED = (''governed_mixed_planning'', ''dra-mixed-v1'')"

definition exact_operation_leaf ::
  "planning_operation \<Rightarrow> string \<Rightarrow> string \<Rightarrow> skill_leaf_binding result" where
  "exact_operation_leaf opn aid aver =
     (if (aid, aver) \<noteq> expected_leaf opn then
        Inl (ValueError ''operation leaf must be an approved exact binding'')
      else Inr \<lparr>leaf_operation = opn, leaf_adapter_id = aid, leaf_adapter_version = aver\<rparr>)"

record planning_adapter_request =
  req_operation :: planning_operation
  req_organization_id :: uuid
  req_case_id :: uuid
  req_case_revision :: int
  req_source_pack_id :: uuid
  req_source_pack_version :: int
  req_policy_version :: string

type_synonym bytes = string

record adapter_payload =
  payload :: bytes
  adapter_id :: string
  adapter_version :: string

definition exact_adapter_pair :: "adapter_payload \<Rightarrow> adapter_payload result" where
  "exact_adapter_pair p =
     (if (adapter_id p, adapter_version p)
           \<notin> {(''deterministic_planning'', ''m4a-v1''), (''governed_mixed_planning'', ''dra-mixed-v1'')}
      then Inl (ValueError ''adapter identity must be an approved exact pair'') else Inr p)"

datatype adapter_outcome = Payload adapter_payload | Failure adapter_failure_code

section \<open>Validation of a payload\<close>

datatype json =
    JNull | JBool bool | JInt int | JFloat rat | JStr string | JArr "json list"
  | JObj "(string \<times> json) list"

fun json_get :: "(string \<times> json) list \<Rightarrow> string \<Rightarrow> json option" where
  "json_get items k = map_of (rev items) k"

text \<open>\<open>value == 1\<close> in Python: the integer, the float and the boolean \<open>True\<close>.\<close>

fun json_is_one :: "json \<Rightarrow> bool" where
  "json_is_one (JInt n) = (n = 1)"
| "json_is_one (JFloat x) = (x = 1)"
| "json_is_one (JBool b) = b"
| "json_is_one _ = False"

fun is_obj :: "json \<Rightarrow> bool" where
  "is_obj (JObj items) = True"
| "is_obj _ = False"

fun str_value :: "json \<Rightarrow> string option" where
  "str_value (JStr s) = Some s"
| "str_value _ = None"

definition APPROVED_COUNTRIES :: "string set" where
  "APPROVED_COUNTRIES = {''australia'', ''japan'', ''malaysia''}"

datatype payload_exn = AdapterPayloadError string | Uncaught exn

record payload_env =
  decode_json :: "bytes \<Rightarrow> json option"
  utf8_length :: "string \<Rightarrow> nat"
  parse_plain :: "json \<Rightarrow> planning_input option"
  parse_mixed :: "bytes \<Rightarrow> governed_mixed_planning_input option"
  baseline_of :: loaded_manifest

definition raw_countries_ok :: "json list \<Rightarrow> bool" where
  "raw_countries_ok raw \<longleftrightarrow>
     (let strings = List.map_filter str_value raw in
      raw \<noteq> [] \<and> length strings = length raw
      \<and> strings = sorted_list_of_set (set strings) \<and> set strings \<subseteq> APPROVED_COUNTRIES)"

definition check_raw_payload ::
  "payload_env \<Rightarrow> bytes \<Rightarrow> payload_exn + json" where
  "check_raw_payload env bs =
     (if length bs > max_payload_bytes default_policy then Inl (AdapterPayloadError ''oversize'')
      else case decode_json env bs of
        Some (JObj raw) \<Rightarrow>
          (if \<not> (case json_get raw ''schema_version'' of None \<Rightarrow> False | Some v \<Rightarrow> json_is_one v) then
             Inl (AdapterPayloadError ''invalid_schema'')
           else case json_get raw ''evidence'' of
             Some (JArr items) \<Rightarrow>
               (if \<not> list_all is_obj items then Inl (AdapterPayloadError ''invalid_schema'')
                else if length items > max_evidence_refs default_policy then
                  Inl (AdapterPayloadError ''evidence_limit'')
                else if (case json_get raw ''narrative'' of
                           Some (JStr n) \<Rightarrow> utf8_length env n > max_narrative_bytes default_policy
                         | _ \<Rightarrow> False) then
                  Inl (AdapterPayloadError ''narrative_oversize'')
                else case json_get raw ''case'' of
                  Some (JObj cs) \<Rightarrow>
                    (case json_get cs ''student'' of
                       Some (JObj st) \<Rightarrow>
                         (case json_get st ''preferred_countries'' of
                            Some (JArr raw_countries) \<Rightarrow>
                              if \<not> raw_countries_ok raw_countries then
                                Inl (AdapterPayloadError ''country_scope_invalid'')
                              else Inr (JObj raw)
                          | _ \<Rightarrow> Inl (AdapterPayloadError ''country_scope_invalid''))
                     | _ \<Rightarrow> Inl (AdapterPayloadError ''invalid_schema''))
                | _ \<Rightarrow> Inl (AdapterPayloadError ''invalid_schema''))
           | _ \<Rightarrow> Inl (AdapterPayloadError ''invalid_schema''))
      | _ \<Rightarrow> Inl (AdapterPayloadError ''invalid_schema''))"

definition resolve_leaf ::
  "adapter_payload \<Rightarrow> planning_adapter_request \<Rightarrow> skill_leaf_binding option
     \<Rightarrow> payload_exn + skill_leaf_binding" where
  "resolve_leaf outcome req leaf =
     (case leaf of Some l \<Rightarrow> Inr l
      | None \<Rightarrow> (case exact_operation_leaf (req_operation req) (adapter_id outcome)
                        (adapter_version outcome) of
                   Inl e \<Rightarrow> Inl (AdapterPayloadError ''invalid_schema'') | Inr l \<Rightarrow> Inr l))"

definition parse_input ::
  "payload_env \<Rightarrow> planning_adapter_request \<Rightarrow> bytes \<Rightarrow> json \<Rightarrow> payload_exn + planning_policy_input" where
  "parse_input env req bs raw =
     (case (if req_operation req = GENERATE_PLANNING_RUN
            then map_option Plain (parse_plain env raw)
            else map_option Mixed (parse_mixed env bs)) of
        None \<Rightarrow> Inl (AdapterPayloadError ''invalid_schema'') | Some p \<Rightarrow> Inr p)"

definition pins_match :: "planning_adapter_request \<Rightarrow> planning_input \<Rightarrow> bool" where
  "pins_match req p \<longleftrightarrow>
     pi_organization_id p = req_organization_id req
     \<and> scr_organization_id (case_revision p) = req_organization_id req
     \<and> scr_case_id (case_revision p) = req_case_id req
     \<and> revision (case_revision p) = req_case_revision req
     \<and> spm_organization_id (source_pack p) = req_organization_id req
     \<and> pack_id (source_pack p) = req_source_pack_id req
     \<and> version (source_pack p) = req_source_pack_version req
     \<and> list_all (\<lambda>e. er_organization_id e = req_organization_id req) (evidence p)
     \<and> list_all (\<lambda>c. ce_organization_id c = req_organization_id req) (costs p)
     \<and> list_all (\<lambda>r. re_organization_id r = req_organization_id req) (rankings p)"

definition selected_scope_ok :: "planning_input \<Rightarrow> bool" where
  "selected_scope_ok p \<longleftrightarrow>
     (let selected = country_value ` set (preferred_countries (student (case_revision p))) in
      selected \<noteq> {} \<and> selected \<subseteq> APPROVED_COUNTRIES
      \<and> list_all (\<lambda>c. country_value (ce_country c) \<in> selected) (costs p)
      \<and> list_all (\<lambda>r. country_value (re_country r) \<in> selected) (rankings p))"

definition check_authority ::
  "payload_env \<Rightarrow> planning_policy_input \<Rightarrow> payload_exn + planning_policy_input" where
  "check_authority env inp =
     (case inp of
        Plain p \<Rightarrow>
          if list_ex (\<lambda>e. authority e \<noteq> ACCEPTED_SYNTHETIC_DEMO) (evidence p) then
            Inl (AdapterPayloadError ''fallback_authority'')
          else Inr inp
      | Mixed g \<Rightarrow>
          (case filter (\<lambda>e. authority e = EXTERNALLY_VERIFIED) (evidence g) of
             [e] \<Rightarrow>
               if claim e \<noteq> ''australia_program_fit'' then
                 Inl (AdapterPayloadError ''fallback_authority'')
               else (case validate_governed_mixed_payload_baseline (baseline_of env) g of
                       Inr _ \<Rightarrow> Inr inp
                     | Inl (ValueError m) \<Rightarrow> Inl (AdapterPayloadError ''baseline_drift'')
                     | Inl x \<Rightarrow> Inl (Uncaught x))
           | _ \<Rightarrow> Inl (AdapterPayloadError ''fallback_authority'')))"

definition validate_adapter_payload ::
  "payload_env \<Rightarrow> adapter_payload \<Rightarrow> planning_adapter_request \<Rightarrow> skill_leaf_binding option
     \<Rightarrow> payload_exn + planning_policy_input" where
  "validate_adapter_payload env outcome req leaf =
     bind_result (check_raw_payload env (payload outcome)) (\<lambda>raw.
     bind_result (resolve_leaf outcome req leaf) (\<lambda>l.
     bind_result (ensure (leaf_operation l = req_operation req
                          \<and> adapter_id outcome = leaf_adapter_id l
                          \<and> adapter_version outcome = leaf_adapter_version l)
                    (AdapterPayloadError ''invalid_schema'')) (\<lambda>_.
     bind_result (parse_input env req (payload outcome) raw) (\<lambda>inp.
     bind_result (ensure (pins_match req (view inp)) (AdapterPayloadError ''pin_mismatch'')) (\<lambda>_.
     bind_result (ensure (selected_scope_ok (view inp))
                    (AdapterPayloadError ''country_scope_invalid'')) (\<lambda>_.
       check_authority env inp))))))"

section \<open>Adapters\<close>

text \<open>Loading a snapshot: it may fail with a retryable or a final load error.\<close>

datatype 'a load_result = Loaded 'a | LoadError bool

definition deterministic_generate ::
  "loaded_manifest \<Rightarrow> loaded_manifest \<Rightarrow> (planning_input \<Rightarrow> bytes) \<Rightarrow> adapter_failure_code option
     \<Rightarrow> (planning_adapter_request \<Rightarrow> persisted_synthetic_snapshot load_result)
     \<Rightarrow> planning_adapter_request \<Rightarrow> exn + adapter_outcome" where
  "deterministic_generate bm im dump injected load req =
     (case injected of Some f \<Rightarrow> Inr (Failure f)
      | None \<Rightarrow>
        if req_operation req \<noteq> GENERATE_PLANNING_RUN then Inr (Failure PIN_MISMATCH)
        else case load req of
          LoadError again \<Rightarrow>
            Inr (Failure (if again then TRANSIENT_UNAVAILABLE else PIN_MISMATCH))
        | Loaded s \<Rightarrow>
            if pss_organization_id s \<noteq> req_organization_id req
               \<or> scr_case_id (pss_case s) \<noteq> req_case_id req
               \<or> revision (pss_case s) \<noteq> req_case_revision req
               \<or> pss_source_pack_id s \<noteq> req_source_pack_id req
               \<or> pss_source_pack_version s \<noteq> req_source_pack_version req
               \<or> pss_policy_version s \<noteq> req_policy_version req then Inr (Failure PIN_MISMATCH)
            else (case materialize_persisted_synthetic_input bm im s of
                Inr p \<Rightarrow> Inr (Payload \<lparr>payload = dump p, adapter_id = ''deterministic_planning'',
                                       adapter_version = ''m4a-v1''\<rparr>)
              | Inl (ValueError m) \<Rightarrow> Inr (Failure PIN_MISMATCH)
              | Inl e \<Rightarrow> Inl e))"

definition governed_mixed_generate ::
  "loaded_manifest \<Rightarrow> (governed_mixed_planning_input \<Rightarrow> bytes)
     \<Rightarrow> (planning_adapter_request \<Rightarrow> governed_mixed_snapshot load_result)
     \<Rightarrow> planning_adapter_request \<Rightarrow> exn + adapter_outcome" where
  "governed_mixed_generate m dump load req =
     (if req_operation req \<noteq> GENERATE_GOVERNED_MIXED then Inr (Failure PIN_MISMATCH)
      else case load req of
        LoadError again \<Rightarrow> Inr (Failure (if again then TRANSIENT_UNAVAILABLE else PIN_MISMATCH))
      | Loaded s \<Rightarrow>
          if gms_organization_id s \<noteq> req_organization_id req
             \<or> scr_case_id (gms_case s) \<noteq> req_case_id req
             \<or> revision (gms_case s) \<noteq> req_case_revision req
             \<or> pack_id (gms_source_pack s) \<noteq> req_source_pack_id req
             \<or> version (gms_source_pack s) \<noteq> req_source_pack_version req then
            Inr (Failure PIN_MISMATCH)
          else (case materialize_governed_mixed_input m s of
              Inr g \<Rightarrow> Inr (Payload \<lparr>payload = dump g, adapter_id = ''governed_mixed_planning'',
                                     adapter_version = ''dra-mixed-v1''\<rparr>)
            | Inl (ValueError e) \<Rightarrow> Inr (Failure PIN_MISMATCH)
            | Inl e \<Rightarrow> Inl e))"

text \<open>The router: one adapter per operation, with its exact leaf.\<close>

definition resolve_adapter :: "string \<Rightarrow> skill_leaf_binding result" where
  "resolve_adapter opn =
     (if opn = ''generate_planning_run_v1'' then
        exact_operation_leaf GENERATE_PLANNING_RUN ''deterministic_planning'' ''m4a-v1''
      else if opn = ''generate_governed_mixed_planning_run_v1'' then
        exact_operation_leaf GENERATE_GOVERNED_MIXED ''governed_mixed_planning'' ''dra-mixed-v1''
      else Inl (ValueError ''unsupported planning operation''))"

end
