(* ===== verification/Task_Authority.thy ===== *)
theory Task_Authority
  imports Store Task_Policy
begin

text \<open>
  The task authority of the database: the functions \<open>app.*_agent_task\<close> of the
  migrations, in their current versions (create of 0017, claim of 0008, finalize of
  0004 as rewritten by 0012, retry of 0016, the rest of 0004), over the tables
  \<open>agent_tasks\<close>, \<open>agent_executions\<close>, \<open>agent_task_events\<close>, \<open>agent_task_dispatch\<close>,
  \<open>idempotency_records\<close>, \<open>student_cases\<close> and \<open>planning_runs\<close>.  Timestamps are
  microseconds, one reading of the clock per call.  What the functions only read
  (participants, Skill activations, source packs, revisions, verifications) is the
  record \<open>catalog\<close>; the child rows of a planning result are the check
  \<open>output_accepted\<close> of the constraints on them.
\<close>

section \<open>Rows\<close>

record skill_pin =
  pin_definition :: uuid
  pin_version :: uuid
  pin_activation :: uuid
  pin_sequence :: int
  pin_binding_sha256 :: sha

record agent_task =
  t_case :: uuid
  t_operation :: planning_operation
  t_case_revision :: int
  t_source_pack :: uuid
  t_source_pack_version :: int
  t_policy_version :: string
  t_request_sha256 :: sha
  t_created_by :: uuid
  t_row_version :: int
  t_state :: task_state
  t_attempt_count :: int
  t_lease_owner :: "string option"
  t_lease_generation :: int
  t_lease_expires_at :: "timestamp option"
  t_result_run :: "uuid option"
  t_terminal_code :: "string option"
  t_pin :: "skill_pin option"
  t_predecessor_run :: "uuid option"
  t_retried_from :: "uuid option"
  t_created_at :: timestamp

record agent_execution =
  x_attempt_no :: int
  x_lease_generation :: int
  x_pin :: "skill_pin option"
  x_adapter_id :: string
  x_adapter_version :: string
  x_status :: execution_state
  x_retryable :: bool
  x_fallback_used :: bool
  x_input_sha256 :: "sha option"
  x_output_sha256 :: "sha option"
  x_result_run :: "uuid option"
  x_public_code :: "string option"
  x_duration_ms :: "int option"
  x_started_at :: "timestamp option"
  x_finished_at :: "timestamp option"
  x_created_at :: timestamp

record task_event =
  ev_sequence :: int
  ev_code :: task_event_code
  ev_status :: task_view_status
  ev_public_code :: "string option"
  ev_attempt_no :: int
  ev_result_run :: "uuid option"
  ev_created_at :: timestamp

record student_case =
  sc_current_revision :: int
  sc_state :: case_state

record planning_run =
  run_case :: uuid
  run_case_revision :: int
  run_source_pack :: uuid
  run_source_pack_version :: int
  run_policy_version :: string
  run_evidence_sha256 :: sha
  run_status :: run_state
  run_reason :: "string option"
  run_output_sha256 :: "sha option"
  run_supersedes :: "uuid option"
  run_is_current :: bool

record task_db =
  tasks :: "(row_key \<times> agent_task) list"
  executions :: "(row_key \<times> agent_execution) list"
  events :: "(row_key \<times> task_event) list"
  dispatch :: "(row_key \<times> timestamp) list"
  idempotency :: "(idem_key \<times> idem_record) list"
  cases :: "(row_key \<times> student_case) list"
  runs :: "(row_key \<times> planning_run) list"

definition empty_db :: task_db where
  "empty_db = \<lparr>tasks = [], executions = [], events = [], dispatch = [], idempotency = [],
     cases = [], runs = []\<rparr>"

section \<open>Shared statements\<close>

definition LIVE_STATES :: "task_state set" where
  "LIVE_STATES = {TS_QUEUED, TS_LEASED, TS_RUNNING}"

definition TERMINAL_STATES :: "task_state set" where
  "TERMINAL_STATES =
     {TS_WAITING_REVIEW, TS_SUCCEEDED, TS_BLOCKED, TS_TIMED_OUT, TS_FAILED, TS_CANCELLED}"

definition LEASED_STATES :: "task_state set" where
  "LEASED_STATES = {TS_LEASED, TS_RUNNING}"

definition set_task :: "row_key \<Rightarrow> agent_task \<Rightarrow> task_db \<Rightarrow> task_db" where
  "set_task k t db = db\<lparr>tasks := AList.update k t (tasks db)\<rparr>"

definition events_of :: "row_key \<Rightarrow> task_db \<Rightarrow> task_event list" where
  "events_of k db = map snd (filter (\<lambda>(k', e). k' = k) (events db))"

definition executions_of :: "row_key \<Rightarrow> task_db \<Rightarrow> agent_execution list" where
  "executions_of k db = map snd (filter (\<lambda>(k', e). k' = k) (executions db))"

definition next_sequence :: "row_key \<Rightarrow> task_db \<Rightarrow> int" where
  "next_sequence k db = fold max (map ev_sequence (events_of k db)) 0 + 1"

definition append_agent_task_event ::
  "row_key \<Rightarrow> task_event_code \<Rightarrow> task_view_status \<Rightarrow> string option \<Rightarrow> int \<Rightarrow> uuid option
     \<Rightarrow> timestamp \<Rightarrow> task_db \<Rightarrow> task_db" where
  "append_agent_task_event k code status pub attempt run now db =
     db\<lparr>events := events db @ [(k, \<lparr>ev_sequence = next_sequence k db, ev_code = code,
          ev_status = status, ev_public_code = pub, ev_attempt_no = attempt,
          ev_result_run = run, ev_created_at = now\<rparr>)]\<rparr>"

text \<open>\<open>GREATEST(0, floor(extract(epoch FROM now - start) * 1000)::integer)\<close>: the cast is to int4.\<close>

definition duration_ms :: "timestamp \<Rightarrow> agent_execution \<Rightarrow> sql_error + int" where
  "duration_ms now x =
     (let start = (case x_started_at x of Some s \<Rightarrow> s | None \<Rightarrow> x_created_at x);
          d = (now - start) div 1000 in
      if - 2147483648 \<le> d \<and> d \<le> 2147483647 then Inr (max 0 d) else Inl NUMERIC_OUT_OF_RANGE)"

definition finish_execution ::
  "timestamp \<Rightarrow> (agent_execution \<Rightarrow> agent_execution) \<Rightarrow> agent_execution \<Rightarrow> sql_error + agent_execution" where
  "finish_execution now f x =
     bind_result (duration_ms now x) (\<lambda>d.
       Inr ((f x)\<lparr>x_duration_ms := Some d, x_finished_at := Some now\<rparr>))"

definition close_open_execution ::
  "row_key \<Rightarrow> int \<Rightarrow> timestamp \<Rightarrow> execution_state \<Rightarrow> bool \<Rightarrow> string \<Rightarrow> task_db \<Rightarrow> sql_error + task_db" where
  "close_open_execution k gen now status again code db =
     bind_result (update_where
        (\<lambda>k' x. k' = k \<and> x_lease_generation x = gen \<and> x_status x \<in> {XS_LEASED, XS_RUNNING})
        (finish_execution now (\<lambda>x. x\<lparr>x_status := status, x_retryable := again,
                                     x_public_code := Some code\<rparr>))
        (executions db)) (\<lambda>xs. Inr (db\<lparr>executions := xs\<rparr>))"

definition update_execution ::
  "row_key \<Rightarrow> int \<Rightarrow> (agent_execution \<Rightarrow> sql_error + agent_execution) \<Rightarrow> task_db \<Rightarrow> sql_error + task_db" where
  "update_execution k gen f db =
     bind_result (update_where (\<lambda>k' x. k' = k \<and> x_lease_generation x = gen) f (executions db))
       (\<lambda>xs. Inr (db\<lparr>executions := xs\<rparr>))"

definition set_dispatch :: "row_key \<Rightarrow> timestamp \<Rightarrow> task_db \<Rightarrow> task_db" where
  "set_dispatch k at_time db =
     db\<lparr>dispatch := map (\<lambda>(k', a). if k' = k then (k', at_time) else (k', a)) (dispatch db)\<rparr>"

definition delete_dispatch :: "row_key \<Rightarrow> task_db \<Rightarrow> task_db" where
  "delete_dispatch k db = db\<lparr>dispatch := AList.delete k (dispatch db)\<rparr>"

lemmas statement_defs =
  set_task_def set_dispatch_def delete_dispatch_def append_agent_task_event_def

section \<open>Creation\<close>

text \<open>What the functions only read.\<close>

record case_revision_row =
  cr_intake :: "string option"
  cr_superseded_run :: "uuid option"

record skill_version_row =
  sv_planning_runtime :: bool
  sv_manifest :: json
  sv_binding_sha256 :: "sha option"

record catalog =
  advisor_assigned :: "uuid \<Rightarrow> uuid \<Rightarrow> uuid \<Rightarrow> bool"
  skill_definition :: "uuid \<Rightarrow> uuid option"
  latest_activation :: "uuid \<Rightarrow> uuid \<Rightarrow> (uuid \<times> int \<times> uuid) option"
  skill_version :: "uuid \<Rightarrow> uuid \<Rightarrow> uuid \<Rightarrow> skill_version_row option"
  pin_registered :: "uuid \<Rightarrow> skill_pin \<Rightarrow> bool"
  source_pack_exists :: "uuid \<Rightarrow> uuid \<Rightarrow> int \<Rightarrow> bool"
  baseline_manifest_present :: "uuid \<Rightarrow> uuid \<Rightarrow> bool"
  case_revision_of :: "uuid \<Rightarrow> uuid \<Rightarrow> int \<Rightarrow> case_revision_row option"
  controlled_intake_source :: "uuid \<Rightarrow> uuid \<Rightarrow> int \<Rightarrow> string option \<Rightarrow> sql_error + unit"
  mixed_approved :: "uuid \<Rightarrow> uuid \<Rightarrow> int \<Rightarrow> uuid \<Rightarrow> int \<Rightarrow> bool"

record create_request =
  cq_org :: uuid
  cq_actor :: uuid
  cq_case :: uuid
  cq_task :: uuid
  cq_operation :: planning_operation
  cq_revision :: int
  cq_pack :: uuid
  cq_pack_version :: int
  cq_policy :: string
  cq_manifest :: json
  cq_request_hash :: sha
  cq_key_hash :: sha

type_synonym task_row = "(agent_task option \<times> bool)"

definition create_key :: "create_request \<Rightarrow> idem_key" where
  "create_key r = \<lparr>ik_organization = cq_org r, ik_actor = cq_actor r,
     ik_operation = ''agent_task_create'', ik_key_sha256 = cq_key_hash r\<rparr>"

definition invalid_task_pins :: "create_request \<Rightarrow> bool" where
  "invalid_task_pins r \<longleftrightarrow>
     cq_policy r \<noteq> ''m3a-policy-v1'' \<or> cq_revision r \<le> 0 \<or> cq_pack_version r \<le> 0
     \<or> \<not> is_sha256 (cq_request_hash r) \<or> \<not> is_sha256 (cq_key_hash r) \<or> \<not> is_obj (cq_manifest r)"

text \<open>The active Skill version, from the definition, its latest activation and the version.\<close>

definition resolve_skill_pin :: "catalog \<Rightarrow> create_request \<Rightarrow> sql_error + skill_pin" where
  "resolve_skill_pin cat r =
     (case skill_definition cat (cq_org r) of None \<Rightarrow> Inl NV015
      | Some d \<Rightarrow> (case latest_activation cat (cq_org r) d of None \<Rightarrow> Inl NV015
          | Some (act, sequence, ver) \<Rightarrow>
              (case skill_version cat (cq_org r) d ver of None \<Rightarrow> Inl NV022
               | Some v \<Rightarrow>
                   (case sv_binding_sha256 v of None \<Rightarrow> Inl NV022
                    | Some b \<Rightarrow>
                        if \<not> sv_planning_runtime v \<or> sv_manifest v \<noteq> cq_manifest r then Inl NV022
                        else Inr \<lparr>pin_definition = d, pin_version = ver, pin_activation = act,
                                  pin_sequence = sequence, pin_binding_sha256 = b\<rparr>))))"

text \<open>The source pin that the lineage of the revision demands.\<close>

definition check_lineage ::
  "catalog \<Rightarrow> create_request \<Rightarrow> case_revision_row \<Rightarrow> task_db \<Rightarrow> sql_error + unit" where
  "check_lineage cat r rev_row db =
     (case cr_superseded_run rev_row of
        None \<Rightarrow> if cq_pack r = INTAKE_DELAY_SOURCE_PACK_ID then Inl NV027 else Inr ()
      | Some old_run \<Rightarrow>
          (case map_of (runs db) (cq_org r, old_run) of
             None \<Rightarrow> Inl NV027
           | Some run \<Rightarrow>
               if run_case run \<noteq> cq_case r then Inl NV027
               else (case case_revision_of cat (cq_org r) (cq_case r) (run_case_revision run) of
                  None \<Rightarrow> Inl NV027
                | Some old \<Rightarrow>
                    let changed = (cr_intake rev_row \<noteq> cr_intake old) in
                    if changed \<and> (cr_intake old \<noteq> Some ''2027-02''
                                  \<or> cr_intake rev_row \<noteq> Some ''2028-02''
                                  \<or> run_source_pack run \<noteq> BASELINE_SOURCE_PACK_ID
                                  \<or> run_source_pack_version run \<noteq> 1
                                  \<or> run_policy_version run \<noteq> ''m3a-policy-v1'') then Inl NV027
                    else
                      let pack = (if changed then INTAKE_DELAY_SOURCE_PACK_ID else run_source_pack run);
                          ver = (if changed then 1 else run_source_pack_version run) in
                      if cq_pack r \<noteq> pack \<or> cq_pack_version r \<noteq> ver
                         \<or> cq_policy r \<noteq> run_policy_version run then Inl NV027
                      else Inr ())))"

definition same_operation :: "create_request \<Rightarrow> skill_pin \<Rightarrow> row_key \<Rightarrow> agent_task \<Rightarrow> bool" where
  "same_operation r pin k t \<longleftrightarrow>
     fst k = cq_org r \<and> t_case t = cq_case r \<and> t_operation t = cq_operation r
     \<and> t_case_revision t = cq_revision r \<and> t_source_pack t = cq_pack r
     \<and> t_source_pack_version t = cq_pack_version r \<and> t_policy_version t = cq_policy r
     \<and> t_pin t = Some pin
     \<and> t_state t \<in> {TS_QUEUED, TS_LEASED, TS_RUNNING, TS_WAITING_REVIEW, TS_SUCCEEDED}"

definition live_task_for :: "create_request \<Rightarrow> row_key \<Rightarrow> agent_task \<Rightarrow> bool" where
  "live_task_for r k t \<longleftrightarrow>
     fst k = cq_org r \<and> t_case t = cq_case r \<and> t_case_revision t = cq_revision r
     \<and> t_state t \<in> {TS_QUEUED, TS_LEASED, TS_RUNNING, TS_WAITING_REVIEW}"

definition new_task ::
  "create_request \<Rightarrow> skill_pin \<Rightarrow> case_revision_row \<Rightarrow> timestamp \<Rightarrow> agent_task" where
  "new_task r pin rev_row now =
     \<lparr>t_case = cq_case r, t_operation = cq_operation r, t_case_revision = cq_revision r,
      t_source_pack = cq_pack r, t_source_pack_version = cq_pack_version r,
      t_policy_version = cq_policy r, t_request_sha256 = cq_request_hash r,
      t_created_by = cq_actor r, t_row_version = 1, t_state = TS_QUEUED, t_attempt_count = 0,
      t_lease_owner = None, t_lease_generation = 0, t_lease_expires_at = None,
      t_result_run = None, t_terminal_code = None, t_pin = Some pin,
      t_predecessor_run = cr_superseded_run rev_row, t_retried_from = None, t_created_at = now\<rparr>"

definition insert_task ::
  "create_request \<Rightarrow> agent_task \<Rightarrow> timestamp \<Rightarrow> task_db \<Rightarrow> sql_error + (task_db \<times> task_row)" where
  "insert_task r t now db =
     (let k = (cq_org r, cq_task r) in
      if map_of (tasks db) k \<noteq> None then Inl UNIQUE_VIOLATION
      else
        let db1 = db\<lparr>tasks := tasks db @ [(k, t)], dispatch := dispatch db @ [(k, now)]\<rparr>;
            db2 = append_agent_task_event k EV_QUEUED PREPARING (Some ''queued'') 0 None now db1;
            db3 = db2\<lparr>idempotency := AList.update (create_key r)
                      \<lparr>ir_request_sha256 = cq_request_hash r, ir_response_id = cq_task r\<rparr>
                      (idempotency db2)\<rparr> in
        Inr (db3, (Some t, False)))"

text \<open>The guards of a creation; what they find is the pin, the revision, and the case to start.\<close>

definition check_case_state :: "create_request \<Rightarrow> student_case \<Rightarrow> sql_error + student_case" where
  "check_case_state r c =
     (if sc_state c = CS_INTAKE \<and> cq_operation r = GENERATE_PLANNING_RUN then
        Inr (c\<lparr>sc_state := CS_PLANNING\<rparr>)
      else if sc_state c \<noteq> CS_PLANNING then Inl NV003 else Inr c)"

definition check_sources ::
  "catalog \<Rightarrow> create_request \<Rightarrow> case_revision_row \<Rightarrow> task_db \<Rightarrow> sql_error + unit" where
  "check_sources cat r rev_row db =
     bind_result (check_lineage cat r rev_row db) (\<lambda>_.
     bind_result (if cq_pack r = INTAKE_DELAY_SOURCE_PACK_ID
                  then controlled_intake_source cat (cq_org r) (cq_pack r)
                         (cq_pack_version r) (cr_intake rev_row)
                  else Inr ()) (\<lambda>_.
       ensure (\<not> (cq_pack r = INTAKE_DELAY_SOURCE_PACK_ID \<and> cq_operation r \<noteq> GENERATE_PLANNING_RUN))
         NV027))"

definition admit_task ::
  "catalog \<Rightarrow> create_request \<Rightarrow> task_db \<Rightarrow> sql_error + (skill_pin \<times> case_revision_row \<times> student_case)" where
  "admit_task cat r db =
     (if invalid_task_pins r then Inl NV006
      else if \<not> advisor_assigned cat (cq_org r) (cq_case r) (cq_actor r) then Inl NV007
      else bind_result (resolve_skill_pin cat r) (\<lambda>pin.
        case map_of (cases db) (cq_org r, cq_case r) of None \<Rightarrow> Inl NV003
        | Some c \<Rightarrow>
            if sc_current_revision c \<noteq> cq_revision r
               \<or> cq_pack r \<noteq> INTAKE_DELAY_SOURCE_PACK_ID
                  \<and> \<not> source_pack_exists cat (cq_org r) (cq_pack r) (cq_pack_version r) then Inl NV003
            else (case case_revision_of cat (cq_org r) (cq_case r) (cq_revision r) of None \<Rightarrow> Inl NV003
            | Some rev_row \<Rightarrow>
                bind_result (check_sources cat r rev_row db) (\<lambda>_.
                bind_result (check_case_state r c) (\<lambda>c'.
                  if cq_operation r = GENERATE_GOVERNED_MIXED
                     \<and> \<not> mixed_approved cat (cq_org r) (cq_case r) (cq_revision r)
                            (cq_pack r) (cq_pack_version r) then Inl NV011
                  else if list_ex (\<lambda>(k, t). live_task_for r k t) (tasks db) then Inl NV009
                  else if list_ex (\<lambda>(k, t). same_operation r pin k t) (tasks db) then Inl NV009
                  else Inr (pin, rev_row, c'))))))"

definition create_fresh ::
  "catalog \<Rightarrow> create_request \<Rightarrow> timestamp \<Rightarrow> task_db \<Rightarrow> sql_error + (task_db \<times> task_row)" where
  "create_fresh cat r now db =
     bind_result (admit_task cat r db) (\<lambda>(pin, rev_row, c).
       insert_task r (new_task r pin rev_row now) now
         (db\<lparr>cases := AList.update (cq_org r, cq_case r) c (cases db)\<rparr>))"

definition create_agent_task ::
  "catalog \<Rightarrow> session \<Rightarrow> create_request \<Rightarrow> timestamp \<Rightarrow> task_db \<Rightarrow> sql_error + (task_db \<times> task_row)" where
  "create_agent_task cat ses r now db =
     bind_result (assert_m3b_context ses (cq_org r) (cq_actor r) ''advisor'') (\<lambda>_.
       case map_of (idempotency db) (create_key r) of
         Some prior \<Rightarrow>
           if ir_request_sha256 prior \<noteq> cq_request_hash r then Inl NV008
           else (case map_of (tasks db) (cq_org r, ir_response_id prior) of
                   None \<Rightarrow> Inr (db, (None, True))
                 | Some t \<Rightarrow> if t_operation t \<noteq> cq_operation r then Inl NV008
                             else Inr (db, (Some t, True)))
       | None \<Rightarrow> create_fresh cat r now db)"

section \<open>Cancellation\<close>

record cancel_request =
  xq_org :: uuid
  xq_actor :: uuid
  xq_task :: uuid
  xq_expected_version :: int
  xq_request_hash :: sha
  xq_key_hash :: sha

definition cancel_key :: "cancel_request \<Rightarrow> idem_key" where
  "cancel_key r = \<lparr>ik_organization = xq_org r, ik_actor = xq_actor r,
     ik_operation = ''agent_task_cancel'', ik_key_sha256 = xq_key_hash r\<rparr>"

definition release ::
  "task_state \<Rightarrow> string option \<Rightarrow> agent_task \<Rightarrow> agent_task" where
  "release st code t =
     t\<lparr>t_state := st, t_row_version := t_row_version t + 1, t_lease_owner := None,
       t_lease_expires_at := None, t_terminal_code := code\<rparr>"

definition cancel_agent_task ::
  "catalog \<Rightarrow> session \<Rightarrow> cancel_request \<Rightarrow> timestamp \<Rightarrow> task_db \<Rightarrow> sql_error + (task_db \<times> task_row)" where
  "cancel_agent_task cat ses r now db =
     bind_result (assert_m3b_context ses (xq_org r) (xq_actor r) ''advisor'') (\<lambda>_.
       let k = (xq_org r, xq_task r) in
       case map_of (idempotency db) (cancel_key r) of
         Some prior \<Rightarrow>
           if ir_request_sha256 prior \<noteq> xq_request_hash r then Inl NV008
           else Inr (db, (map_of (tasks db) (xq_org r, ir_response_id prior), True))
       | None \<Rightarrow>
           (case map_of (tasks db) k of None \<Rightarrow> Inl NV007
            | Some t \<Rightarrow>
                if \<not> advisor_assigned cat (xq_org r) (t_case t) (xq_actor r) then Inl NV007
                else if t_row_version t \<noteq> xq_expected_version r \<or> t_state t \<notin> LIVE_STATES then Inl NV003
                else
                  bind_result (close_open_execution k (t_lease_generation t) now XS_CANCELLED False
                                 ''cancelled'' db) (\<lambda>db1.
                  let t' = release TS_CANCELLED (Some ''cancelled'') t;
                      db2 = delete_dispatch k (set_task k t' db1);
                      db3 = append_agent_task_event k EV_CANCELLED VIEW_CANCELLED (Some ''cancelled'')
                              (t_attempt_count t) None now db2 in
                  Inr (db3\<lparr>idempotency := AList.update (cancel_key r)
                             \<lparr>ir_request_sha256 = xq_request_hash r, ir_response_id = xq_task r\<rparr>
                             (idempotency db3)\<rparr>, (Some t', False)))))"

section \<open>Claims and leases\<close>

definition lease_microseconds :: int where
  "lease_microseconds = 60 * 1000000"

definition earlier :: "row_key \<times> timestamp \<Rightarrow> row_key \<times> timestamp \<Rightarrow> bool" where
  "earlier p q \<longleftrightarrow> snd p < snd q \<or> snd p = snd q \<and> snd (fst p) < snd (fst q)"

fun first_dispatch :: "(row_key \<times> timestamp) list \<Rightarrow> (row_key \<times> timestamp) option" where
  "first_dispatch [] = None"
| "first_dispatch (p # ps) =
     (case first_dispatch ps of None \<Rightarrow> Some p
      | Some q \<Rightarrow> if earlier q p then Some q else Some p)"

text \<open>\<open>ORDER BY available_at,task_id FOR UPDATE SKIP LOCKED LIMIT 1\<close>; \<open>locked\<close> are the rows that
  other transactions hold.\<close>

definition claim_candidate :: "row_key list \<Rightarrow> timestamp \<Rightarrow> task_db \<Rightarrow> row_key option" where
  "claim_candidate locked now db =
     map_option fst (first_dispatch
       (filter (\<lambda>(k, a). a \<le> now \<and> k \<notin> set locked) (dispatch db)))"

definition invalid_worker :: "string \<Rightarrow> bool" where
  "invalid_worker w \<longleftrightarrow> list_all (\<lambda>c. c = CHR '' '') w \<or> length w > 200"

definition adapter_of :: "planning_operation \<Rightarrow> string \<times> string" where
  "adapter_of opn =
     (case opn of GENERATE_PLANNING_RUN \<Rightarrow> (''deterministic_planning'', ''m4a-v1'')
      | GENERATE_GOVERNED_MIXED \<Rightarrow> (''governed_mixed_planning'', ''dra-mixed-v1''))"

definition pin_valid :: "catalog \<Rightarrow> row_key \<Rightarrow> agent_task \<Rightarrow> bool" where
  "pin_valid cat k t \<longleftrightarrow> (case t_pin t of None \<Rightarrow> False | Some p \<Rightarrow> pin_registered cat (fst k) p)"

definition new_execution :: "agent_task \<Rightarrow> timestamp \<Rightarrow> agent_execution" where
  "new_execution t now =
     \<lparr>x_attempt_no = t_attempt_count t, x_lease_generation = t_lease_generation t,
      x_pin = t_pin t, x_adapter_id = fst (adapter_of (t_operation t)),
      x_adapter_version = snd (adapter_of (t_operation t)), x_status = XS_LEASED,
      x_retryable = False, x_fallback_used = False, x_input_sha256 = None,
      x_output_sha256 = None, x_result_run = None, x_public_code = None, x_duration_ms = None,
      x_started_at = None, x_finished_at = None, x_created_at = now\<rparr>"

definition leased_row :: "string \<Rightarrow> agent_task \<Rightarrow> timestamp \<Rightarrow> agent_task" where
  "leased_row worker t expiry =
     t\<lparr>t_state := TS_LEASED, t_row_version := t_row_version t + 1,
       t_attempt_count := t_attempt_count t + 1, t_lease_owner := Some worker,
       t_lease_generation := t_lease_generation t + 1,
       t_lease_expires_at := Some expiry, t_terminal_code := None\<rparr>"

text \<open>The lease itself: the next attempt and generation, an expiry sixty seconds ahead.\<close>

definition lease_task ::
  "row_key \<Rightarrow> string \<Rightarrow> bool \<Rightarrow> agent_task \<Rightarrow> timestamp \<Rightarrow> task_db \<Rightarrow> task_db \<times> (row_key \<times> int) option" where
  "lease_task k worker reclaimed t now db =
     (let expiry = now + lease_microseconds;
          t' = leased_row worker t expiry;
          db1 = set_dispatch k expiry (set_task k t' db);
          db2 = db1\<lparr>executions := executions db1 @ [(k, new_execution t' now)]\<rparr>;
          db3 = (if reclaimed
                 then append_agent_task_event k EV_LEASE_RECLAIMED PREPARING (Some ''lease_expired'')
                        (t_attempt_count t') None now db2
                 else db2);
          db4 = append_agent_task_event k EV_LEASE_ACQUIRED PREPARING (Some ''lease_acquired'')
                  (t_attempt_count t') None now db3 in
      (db4, Some (k, t_lease_generation t')))"

text \<open>The end of a task that the claim itself fails.\<close>

definition claim_failure ::
  "row_key \<Rightarrow> string \<Rightarrow> agent_task \<Rightarrow> timestamp \<Rightarrow> task_db \<Rightarrow> task_db" where
  "claim_failure k code t now db =
     append_agent_task_event k EV_FAILED VIEW_FAILED (Some code) (t_attempt_count t) None now
       (delete_dispatch k (set_task k (release TS_FAILED (Some code) t) db))"

text \<open>The expiry of a lease that still runs.\<close>

definition unexpired :: "agent_task \<Rightarrow> timestamp \<Rightarrow> timestamp option" where
  "unexpired t now =
     (case t_lease_expires_at t of None \<Rightarrow> None | Some e \<Rightarrow> if e > now then Some e else None)"

definition claim_agent_task ::
  "catalog \<Rightarrow> row_key list \<Rightarrow> string \<Rightarrow> timestamp \<Rightarrow> task_db
     \<Rightarrow> sql_error + (task_db \<times> (row_key \<times> int) option)" where
  "claim_agent_task cat locked worker now db =
     (if invalid_worker worker then Inl NV006
      else case claim_candidate locked now db of
        None \<Rightarrow> Inr (db, None)
      | Some k \<Rightarrow>
          (case map_of (tasks db) k of
             None \<Rightarrow> Inr (delete_dispatch k db, None)
           | Some t \<Rightarrow>
               if t_state t \<in> TERMINAL_STATES then Inr (delete_dispatch k db, None)
               else if \<not> pin_valid cat k t then
                 Inr (claim_failure k ''skill_pin_invalid'' t now db, None)
               else if t_state t \<in> LEASED_STATES then
                 (case unexpired t now of
                    Some expiry \<Rightarrow> Inr (set_dispatch k expiry db, None)
                  | None \<Rightarrow>
                      if t_attempt_count t \<ge> 3 then
                        bind_result (close_open_execution k (t_lease_generation t) now XS_FAILED False
                                       ''lease_expired'' db) (\<lambda>db1.
                          Inr (claim_failure k ''lease_expired'' t now db1, None))
                      else
                        bind_result (close_open_execution k (t_lease_generation t) now
                                       XS_RETRY_SCHEDULED True ''lease_expired'' db) (\<lambda>db1.
                          Inr (lease_task k worker True t now db1)))
               else Inr (lease_task k worker False t now db)))"

text \<open>The fence of every call of a lease holder.\<close>

definition holds_lease ::
  "task_state set \<Rightarrow> agent_task \<Rightarrow> string \<Rightarrow> int \<Rightarrow> timestamp \<Rightarrow> bool" where
  "holds_lease states t worker gen now \<longleftrightarrow>
     t_state t \<in> states \<and> t_lease_owner t = Some worker \<and> t_lease_generation t = gen
     \<and> (case t_lease_expires_at t of None \<Rightarrow> True | Some e \<Rightarrow> e > now)"

definition leased_task ::
  "task_state set \<Rightarrow> row_key \<Rightarrow> string \<Rightarrow> int \<Rightarrow> timestamp \<Rightarrow> task_db \<Rightarrow> sql_error + agent_task" where
  "leased_task states k worker gen now db =
     (case map_of (tasks db) k of None \<Rightarrow> Inl NV010
      | Some t \<Rightarrow> if holds_lease states t worker gen now then Inr t else Inl NV010)"

definition start_agent_task ::
  "session \<Rightarrow> row_key \<Rightarrow> string \<Rightarrow> int \<Rightarrow> sha \<Rightarrow> timestamp \<Rightarrow> task_db \<Rightarrow> sql_error + task_db" where
  "start_agent_task ses k worker gen input now db =
     bind_result (assert_context ses (fst k)) (\<lambda>_.
     if \<not> is_sha256 input then Inl NV006
     else bind_result (leased_task {TS_LEASED} k worker gen now db) (\<lambda>t.
       let db1 = set_task k (t\<lparr>t_state := TS_RUNNING, t_row_version := t_row_version t + 1\<rparr>) db in
       bind_result (update_execution k gen
          (\<lambda>x. Inr (x\<lparr>x_status := XS_RUNNING, x_input_sha256 := Some input,
                      x_started_at := Some now\<rparr>)) db1) (\<lambda>db2.
         Inr (append_agent_task_event k EV_EXECUTION_STARTED PREPARING (Some ''execution_started'')
                (t_attempt_count t) None now db2))))"

definition heartbeat_agent_task ::
  "session \<Rightarrow> row_key \<Rightarrow> string \<Rightarrow> int \<Rightarrow> timestamp \<Rightarrow> task_db \<Rightarrow> sql_error + (task_db \<times> timestamp)" where
  "heartbeat_agent_task ses k worker gen now db =
     bind_result (assert_context ses (fst k)) (\<lambda>_.
     bind_result (leased_task LEASED_STATES k worker gen now db) (\<lambda>t.
     bind_result (ensure (t_lease_expires_at t \<noteq> None) NV010) (\<lambda>_.
       let expiry = now + lease_microseconds in
       Inr (set_dispatch k expiry (set_task k (t\<lparr>t_lease_expires_at := Some expiry\<rparr>) db), expiry))))"

section \<open>Failures\<close>

definition terminal_state_of :: "string \<Rightarrow> task_state" where
  "terminal_state_of code =
     (if code = ''deadline_exceeded'' then TS_TIMED_OUT
      else if code = ''required_evidence_gap'' then TS_BLOCKED else TS_FAILED)"

fun execution_of_terminal :: "task_state \<Rightarrow> execution_state" where
  "execution_of_terminal TS_TIMED_OUT = XS_TIMED_OUT"
| "execution_of_terminal TS_BLOCKED = XS_BLOCKED"
| "execution_of_terminal _ = XS_FAILED"

fun event_of_terminal :: "task_state \<Rightarrow> task_event_code" where
  "event_of_terminal TS_TIMED_OUT = EV_TIMED_OUT"
| "event_of_terminal TS_BLOCKED = EV_BLOCKED"
| "event_of_terminal _ = EV_FAILED"

fun status_of_terminal :: "task_state \<Rightarrow> task_view_status" where
  "status_of_terminal TS_BLOCKED = NEEDS_EVIDENCE"
| "status_of_terminal TS_TIMED_OUT = VIEW_TIMED_OUT"
| "status_of_terminal _ = VIEW_FAILED"

definition fail_agent_task ::
  "session \<Rightarrow> row_key \<Rightarrow> string \<Rightarrow> int \<Rightarrow> string \<Rightarrow> bool \<Rightarrow> bool \<Rightarrow> timestamp \<Rightarrow> task_db
     \<Rightarrow> sql_error + (task_db \<times> task_state)" where
  "fail_agent_task ses k worker gen code again fallback now db =
     bind_result (assert_context ses (fst k)) (\<lambda>_.
     if fallback \<noteq> (code = ''fallback_authority'') then Inl NV006
     else bind_result (leased_task LEASED_STATES k worker gen now db) (\<lambda>t.
       if again \<and> t_attempt_count t < 3 then
         bind_result (update_execution k gen (finish_execution now
            (\<lambda>x. x\<lparr>x_status := XS_RETRY_SCHEDULED, x_retryable := True,
                   x_fallback_used := fallback, x_public_code := Some code\<rparr>)) db) (\<lambda>db1.
           Inr (append_agent_task_event k EV_RETRY_SCHEDULED PREPARING (Some code)
                  (t_attempt_count t) None now
                  (set_dispatch k now (set_task k (release TS_QUEUED None t) db1)), TS_QUEUED))
       else
         let st = terminal_state_of code in
         bind_result (update_execution k gen (finish_execution now
            (\<lambda>x. x\<lparr>x_status := execution_of_terminal st, x_retryable := False,
                   x_fallback_used := fallback, x_public_code := Some code\<rparr>)) db) (\<lambda>db1.
           Inr (append_agent_task_event k (event_of_terminal st) (status_of_terminal st) (Some code)
                  (t_attempt_count t) None now
                  (delete_dispatch k (set_task k (release st (Some code) t) db1)), st))))"

section \<open>Results\<close>

record finalize_request =
  fq_run :: uuid
  fq_evidence_hash :: sha
  fq_state :: run_state
  fq_reason :: "string option"
  fq_output_hash :: sha
  fq_supersedes :: "uuid option"

text \<open>Persisting a result: the unique indexes \<open>planning_runs_one_current_per_case\<close> and
  \<open>planning_runs_one_successor\<close>, the lineage of the revision, and the handoff trigger that moves the
  case to advisor review.\<close>

definition current_run_exists :: "uuid \<Rightarrow> uuid \<Rightarrow> task_db \<Rightarrow> bool" where
  "current_run_exists org case_id db \<longleftrightarrow>
     list_ex (\<lambda>(k, r). fst k = org \<and> run_case r = case_id \<and> run_is_current r) (runs db)"

definition successor_exists :: "uuid \<Rightarrow> uuid option \<Rightarrow> task_db \<Rightarrow> bool" where
  "successor_exists org superseded db \<longleftrightarrow>
     superseded \<noteq> None \<and> list_ex (\<lambda>(k, r). fst k = org \<and> run_supersedes r = superseded) (runs db)"

definition predecessor_available :: "uuid \<Rightarrow> agent_task \<Rightarrow> uuid option \<Rightarrow> task_db \<Rightarrow> bool" where
  "predecessor_available org t superseded db \<longleftrightarrow>
     (case superseded of None \<Rightarrow> True
      | Some old \<Rightarrow>
          (case map_of (runs db) (org, old) of None \<Rightarrow> False
           | Some r \<Rightarrow> run_case r = t_case t \<and> run_case_revision r = t_case_revision t - 1
                       \<and> \<not> run_is_current r))"

definition persist_planning_result ::
  "catalog \<Rightarrow> (finalize_request \<Rightarrow> bool) \<Rightarrow> uuid \<Rightarrow> agent_task \<Rightarrow> finalize_request \<Rightarrow> uuid option
     \<Rightarrow> task_db \<Rightarrow> sql_error + task_db" where
  "persist_planning_result cat output_accepted org t q superseded db =
     (let case_key = (org, t_case t) in
      if fq_state q \<notin> {RS_FAILED, RS_BLOCKED, RS_REVIEW_REQUIRED} then Inl NV006
      else case map_of (cases db) case_key of None \<Rightarrow> Inl NV003
      | Some c \<Rightarrow>
          if sc_current_revision c \<noteq> t_case_revision t \<or> sc_state c \<noteq> CS_PLANNING then Inl NV003
          else case case_revision_of cat org (t_case t) (t_case_revision t) of None \<Rightarrow> Inl NV003
          | Some rev_row \<Rightarrow>
              if cr_superseded_run rev_row \<noteq> superseded then Inl NV003
              else if \<not> predecessor_available org t superseded db then Inl NV003
              else if map_of (runs db) (org, fq_run q) \<noteq> None
                      \<or> current_run_exists org (t_case t) db
                      \<or> successor_exists org superseded db then Inl UNIQUE_VIOLATION
              else if \<not> is_sha256 (fq_evidence_hash q) \<or> \<not> is_sha256 (fq_output_hash q)
                      \<or> \<not> output_accepted q then Inl CHECK_VIOLATION
              else
                let run = \<lparr>run_case = t_case t, run_case_revision = t_case_revision t,
                           run_source_pack = t_source_pack t,
                           run_source_pack_version = t_source_pack_version t,
                           run_policy_version = t_policy_version t,
                           run_evidence_sha256 = fq_evidence_hash q, run_status = fq_state q,
                           run_reason = fq_reason q, run_output_sha256 = Some (fq_output_hash q),
                           run_supersedes = superseded, run_is_current = True\<rparr>;
                    c' = (if fq_state q = RS_REVIEW_REQUIRED
                          then c\<lparr>sc_state := CS_ADVISOR_REVIEW\<rparr> else c) in
                Inr (db\<lparr>runs := runs db @ [((org, fq_run q), run)],
                        cases := AList.update case_key c' (cases db)\<rparr>))"

fun target_state :: "run_state \<Rightarrow> task_state" where
  "target_state RS_REVIEW_REQUIRED = TS_WAITING_REVIEW"
| "target_state RS_BLOCKED = TS_BLOCKED"
| "target_state _ = TS_FAILED"

fun target_event :: "run_state \<Rightarrow> task_event_code" where
  "target_event RS_REVIEW_REQUIRED = EV_WAITING_REVIEW"
| "target_event RS_BLOCKED = EV_BLOCKED"
| "target_event _ = EV_FAILED"

fun target_execution :: "run_state \<Rightarrow> execution_state" where
  "target_execution RS_REVIEW_REQUIRED = XS_SUCCEEDED"
| "target_execution RS_BLOCKED = XS_BLOCKED"
| "target_execution _ = XS_FAILED"

text \<open>A finalize that repeats one that has already been recorded.\<close>

definition replays_result ::
  "row_key \<Rightarrow> agent_task \<Rightarrow> int \<Rightarrow> finalize_request \<Rightarrow> task_db \<Rightarrow> bool" where
  "replays_result k t gen q db \<longleftrightarrow>
     t_state t = target_state (fq_state q) \<and> fq_supersedes q = t_predecessor_run t
     \<and> (case map_of (runs db) (fst k, fq_run q) of None \<Rightarrow> False
        | Some r \<Rightarrow> run_status r = fq_state q \<and> run_reason r = fq_reason q
            \<and> run_evidence_sha256 r = fq_evidence_hash q
            \<and> run_output_sha256 r = Some (fq_output_hash q) \<and> run_supersedes r = fq_supersedes q)
     \<and> list_ex (\<lambda>x. x_lease_generation x = gen \<and> x_status x = target_execution (fq_state q)
            \<and> x_output_sha256 x = Some (fq_output_hash q) \<and> x_result_run x = Some (fq_run q)
            \<and> x_public_code x = fq_reason q) (executions_of k db)"

definition finalize_agent_task_result ::
  "catalog \<Rightarrow> (finalize_request \<Rightarrow> bool) \<Rightarrow> session \<Rightarrow> row_key \<Rightarrow> string \<Rightarrow> int \<Rightarrow> finalize_request
     \<Rightarrow> timestamp \<Rightarrow> task_db \<Rightarrow> sql_error + (task_db \<times> task_state)" where
  "finalize_agent_task_result cat output_accepted ses k worker gen q now db =
     bind_result (assert_context ses (fst k)) (\<lambda>_.
     case map_of (tasks db) k of None \<Rightarrow> Inl NV010
     | Some t \<Rightarrow>
       if t_result_run t = Some (fq_run q)
          \<and> t_state t \<in> {TS_WAITING_REVIEW, TS_BLOCKED, TS_FAILED} then
         (if t_lease_generation t \<noteq> gen then Inl NV010
          else if \<not> replays_result k t gen q db then Inl NV008
          else Inr (db, t_state t))
       else if \<not> holds_lease LEASED_STATES t worker gen now then Inl NV010
       else if fq_state q \<notin> {RS_REVIEW_REQUIRED, RS_BLOCKED, RS_FAILED} then Inl NV006
       else if fq_supersedes q \<noteq> t_predecessor_run t then Inl NV003
       else
         bind_result (persist_planning_result cat output_accepted (fst k) t q
                        (t_predecessor_run t) db) (\<lambda>db1.
         bind_result (update_execution k gen (finish_execution now
            (\<lambda>x. x\<lparr>x_status := target_execution (fq_state q), x_retryable := False,
                   x_output_sha256 := Some (fq_output_hash q), x_result_run := Some (fq_run q),
                   x_public_code := fq_reason q\<rparr>)) db1) (\<lambda>db2.
         let st = target_state (fq_state q);
             code = (if fq_state q = RS_REVIEW_REQUIRED then None else fq_reason q);
             t' = (release st code t)\<lparr>t_result_run := Some (fq_run q)\<rparr> in
         Inr (append_agent_task_event k (target_event (fq_state q)) (status_of_state st)
                (fq_reason q) (t_attempt_count t) (Some (fq_run q)) now
                (delete_dispatch k (set_task k t' db2)), st))))"

section \<open>Recovery\<close>

record retry_request =
  rq_org :: uuid
  rq_actor :: uuid
  rq_source :: uuid
  rq_expected_row_version :: int
  rq_expected_case_revision :: int
  rq_task :: uuid
  rq_manifest :: json
  rq_request_hash :: sha
  rq_key_hash :: sha

definition retry_key :: "retry_request \<Rightarrow> idem_key" where
  "retry_key r = \<lparr>ik_organization = rq_org r, ik_actor = rq_actor r,
     ik_operation = ''agent_task_retry'', ik_key_sha256 = rq_key_hash r\<rparr>"

text \<open>\<open>ORDER BY created_at DESC,id LIMIT 1\<close> among the tasks of a case revision.\<close>

definition is_latest_task :: "row_key \<Rightarrow> agent_task \<Rightarrow> task_db \<Rightarrow> bool" where
  "is_latest_task k t db \<longleftrightarrow>
     list_all (\<lambda>(k', t'). fst k' = fst k \<and> t_case t' = t_case t
          \<and> t_case_revision t' = t_case_revision t \<and> k' \<noteq> k \<longrightarrow>
        t_created_at t' < t_created_at t
        \<or> t_created_at t' = t_created_at t \<and> snd k < snd k') (tasks db)"

definition retry_eligible :: "catalog \<Rightarrow> row_key \<Rightarrow> agent_task \<Rightarrow> task_db \<Rightarrow> bool" where
  "retry_eligible cat k t db \<longleftrightarrow>
     (case map_of (cases db) (fst k, t_case t) of None \<Rightarrow> False
      | Some c \<Rightarrow> sc_state c = CS_PLANNING \<and> sc_current_revision c = t_case_revision t)
     \<and> t_result_run t = None
     \<and> (t_state t = TS_FAILED \<and> t_terminal_code t \<in> Some ` {''transient_unavailable'',
            ''transport_interrupted'', ''lease_expired''}
        \<or> t_state t = TS_TIMED_OUT \<and> t_terminal_code t = Some ''deadline_exceeded'')
     \<and> is_latest_task k t db
     \<and> \<not> list_ex (\<lambda>(k', t'). fst k' = fst k \<and> t_retried_from t' = Some (snd k)) (tasks db)
     \<and> \<not> list_ex (\<lambda>(k', t'). fst k' = fst k \<and> t_case t' = t_case t
            \<and> t_case_revision t' = t_case_revision t
            \<and> (t_state t' \<in> {TS_QUEUED, TS_LEASED, TS_RUNNING, TS_WAITING_REVIEW, TS_SUCCEEDED}
               \<or> t_result_run t' \<noteq> None)) (tasks db)
     \<and> t_policy_version t = ''m3a-policy-v1''
     \<and> (t_operation t = GENERATE_PLANNING_RUN \<and> t_source_pack t = BASELINE_SOURCE_PACK_ID
          \<and> t_source_pack_version t = 1 \<and> baseline_manifest_present cat (fst k) (t_source_pack t)
        \<or> t_operation t = GENERATE_GOVERNED_MIXED
          \<and> mixed_approved cat (fst k) (t_case t) (t_case_revision t) (t_source_pack t)
               (t_source_pack_version t))"

definition invalid_retry :: "retry_request \<Rightarrow> bool" where
  "invalid_retry r \<longleftrightarrow>
     rq_expected_row_version r \<le> 0 \<or> rq_expected_case_revision r \<le> 0
     \<or> \<not> is_sha256 (rq_request_hash r) \<or> \<not> is_sha256 (rq_key_hash r)"

definition retry_create_request :: "(uuid \<Rightarrow> sha \<Rightarrow> sha) \<Rightarrow> retry_request \<Rightarrow> agent_task \<Rightarrow> create_request" where
  "retry_create_request inner_key r t =
     \<lparr>cq_org = rq_org r, cq_actor = rq_actor r, cq_case = t_case t, cq_task = rq_task r,
      cq_operation = t_operation t, cq_revision = rq_expected_case_revision r,
      cq_pack = t_source_pack t, cq_pack_version = t_source_pack_version t,
      cq_policy = t_policy_version t, cq_manifest = rq_manifest r,
      cq_request_hash = rq_request_hash r, cq_key_hash = inner_key (rq_source r) (rq_key_hash r)\<rparr>"

definition mark_retried :: "row_key \<Rightarrow> uuid \<Rightarrow> task_db \<Rightarrow> task_db" where
  "mark_retried k source db =
     (case map_of (tasks db) k of None \<Rightarrow> db
      | Some s \<Rightarrow> set_task k (s\<lparr>t_retried_from := Some source\<rparr>) db)"

text \<open>The successor: an ordinary creation with the pins of the source, marked with it; the identity of the
  task that the creation returned is the response of its record.\<close>

definition retry_fresh ::
  "catalog \<Rightarrow> (uuid \<Rightarrow> sha \<Rightarrow> sha) \<Rightarrow> session \<Rightarrow> retry_request \<Rightarrow> agent_task \<Rightarrow> timestamp \<Rightarrow> task_db
     \<Rightarrow> sql_error + (task_db \<times> task_row)" where
  "retry_fresh cat inner_key ses r t now db =
     (let q = retry_create_request inner_key r t in
      bind_result (create_agent_task cat ses q now db) (\<lambda>(db1, created, again).
        let created_id = (case map_of (idempotency db1) (create_key q) of
                            None \<Rightarrow> rq_task r | Some prior \<Rightarrow> ir_response_id prior);
            db2 = mark_retried (rq_org r, created_id) (rq_source r) db1 in
        Inr (db2\<lparr>idempotency := AList.update (retry_key r)
               \<lparr>ir_request_sha256 = rq_request_hash r, ir_response_id = created_id\<rparr>
               (idempotency db2)\<rparr>, (created, False))))"

definition retry_agent_task ::
  "catalog \<Rightarrow> (uuid \<Rightarrow> sha \<Rightarrow> sha) \<Rightarrow> session \<Rightarrow> retry_request \<Rightarrow> timestamp \<Rightarrow> task_db
     \<Rightarrow> sql_error + (task_db \<times> task_row)" where
  "retry_agent_task cat inner_key ses r now db =
     bind_result (assert_m3b_context ses (rq_org r) (rq_actor r) ''advisor'') (\<lambda>_.
     let k = (rq_org r, rq_source r) in
     if invalid_retry r then Inl NV006
     else case map_of (tasks db) k of None \<Rightarrow> Inl NV007
     | Some t \<Rightarrow>
       if \<not> advisor_assigned cat (rq_org r) (t_case t) (rq_actor r) then Inl NV007
       else case map_of (cases db) (rq_org r, t_case t) of None \<Rightarrow> Inl NV003
       | Some c \<Rightarrow>
         if sc_current_revision c \<noteq> rq_expected_case_revision r
            \<or> t_case_revision t \<noteq> rq_expected_case_revision r
            \<or> t_row_version t \<noteq> rq_expected_row_version r then Inl NV003
         else case map_of (idempotency db) (retry_key r) of
           Some prior \<Rightarrow>
             if ir_request_sha256 prior \<noteq> rq_request_hash r then Inl NV008
             else (case map_of (tasks db) (rq_org r, ir_response_id prior) of
                     None \<Rightarrow> Inl NV008
                   | Some s \<Rightarrow>
                       if t_retried_from s \<noteq> Some (rq_source r)
                          \<or> t_case_revision s \<noteq> rq_expected_case_revision r then Inl NV008
                       else Inr (db, (Some s, True)))
         | None \<Rightarrow>
             if \<not> retry_eligible cat k t db then Inl NV023
             else
               retry_fresh cat inner_key ses r t now db)"

end
