(* ===== verification/Task_Invariant.thy ===== *)
theory Task_Invariant
  imports Task_Authority
begin

text \<open>
  The invariant of the task authority: what holds of one task, its executions, its
  events and its dispatch row (\<open>view_ok\<close>), the statements as changes of one such
  view, and the steps of the system.
\<close>

section \<open>The invariant of one task\<close>

lemma events_of_rows: "events_of k db = rows_of k (events db)"
  by (simp add: events_of_def rows_of_def)

lemma executions_of_rows: "executions_of k db = rows_of k (executions db)"
  by (simp add: executions_of_def rows_of_def)

definition upto_int :: "nat \<Rightarrow> int list" where
  "upto_int n = map int [1..<Suc n]"

definition CLOSED_EXECUTIONS :: "execution_state set" where
  "CLOSED_EXECUTIONS =
     {XS_SUCCEEDED, XS_RETRY_SCHEDULED, XS_BLOCKED, XS_TIMED_OUT, XS_FAILED, XS_CANCELLED, XS_DISCARDED}"

fun events_of_state :: "task_state \<Rightarrow> task_event_code set" where
  "events_of_state TS_QUEUED = {EV_QUEUED, EV_RETRY_SCHEDULED}"
| "events_of_state TS_LEASED = {EV_LEASE_ACQUIRED}"
| "events_of_state TS_RUNNING = {EV_EXECUTION_STARTED}"
| "events_of_state TS_WAITING_REVIEW = {EV_WAITING_REVIEW}"
| "events_of_state TS_SUCCEEDED = {}"
| "events_of_state TS_BLOCKED = {EV_BLOCKED}"
| "events_of_state TS_TIMED_OUT = {EV_TIMED_OUT}"
| "events_of_state TS_FAILED = {EV_FAILED}"
| "events_of_state TS_CANCELLED = {EV_CANCELLED}"

definition lease_ok :: "agent_task \<Rightarrow> bool" where
  "lease_ok t \<longleftrightarrow>
     (t_state t \<in> LEASED_STATES \<longleftrightarrow> t_lease_owner t \<noteq> None)
     \<and> (t_state t \<in> LEASED_STATES \<longleftrightarrow> t_lease_expires_at t \<noteq> None)
     \<and> t_lease_generation t = t_attempt_count t \<and> 0 \<le> t_attempt_count t \<and> t_attempt_count t \<le> 3
     \<and> (t_state t = TS_QUEUED \<longrightarrow> t_attempt_count t \<le> 2)
     \<and> (t_state t \<in> LEASED_STATES \<longrightarrow> 1 \<le> t_attempt_count t)"

definition outcome_ok :: "agent_task \<Rightarrow> bool" where
  "outcome_ok t \<longleftrightarrow>
     (t_result_run t \<noteq> None \<longrightarrow> t_state t \<in> {TS_WAITING_REVIEW, TS_BLOCKED, TS_FAILED})
     \<and> (t_state t = TS_WAITING_REVIEW \<longrightarrow> t_result_run t \<noteq> None)
     \<and> (t_state t \<in> LIVE_STATES \<union> {TS_WAITING_REVIEW} \<longrightarrow> t_terminal_code t = None)
     \<and> t_state t \<noteq> TS_SUCCEEDED"

definition version_ok :: "agent_task \<Rightarrow> bool" where
  "version_ok t \<longleftrightarrow>
     1 \<le> t_row_version t
     \<and> t_row_version t \<le> (if t_state t = TS_QUEUED then 3 * t_attempt_count t + 1
          else if t_state t = TS_LEASED then 3 * t_attempt_count t - 1
          else if t_state t = TS_RUNNING then 3 * t_attempt_count t else 10)"

definition executions_ok :: "agent_task \<Rightarrow> agent_execution list \<Rightarrow> bool" where
  "executions_ok t xs \<longleftrightarrow>
     t_attempt_count t = int (length xs)
     \<and> map x_attempt_no xs = upto_int (length xs) \<and> map x_lease_generation xs = upto_int (length xs)
     \<and> list_all (\<lambda>x. x_status x \<in> CLOSED_EXECUTIONS) (butlast xs)
     \<and> (t_state t = TS_LEASED \<longrightarrow> xs \<noteq> [] \<and> x_status (last xs) = XS_LEASED)
     \<and> (t_state t = TS_RUNNING \<longrightarrow> xs \<noteq> [] \<and> x_status (last xs) = XS_RUNNING)
     \<and> (t_state t \<notin> LEASED_STATES \<longrightarrow> t_terminal_code t = Some ''skill_pin_invalid''
          \<or> list_all (\<lambda>x. x_status x \<in> CLOSED_EXECUTIONS) xs)"

definition dispatch_ok :: "agent_task \<Rightarrow> timestamp option \<Rightarrow> bool" where
  "dispatch_ok t d \<longleftrightarrow>
     (t_state t \<in> LIVE_STATES \<longleftrightarrow> d \<noteq> None)
     \<and> (t_state t \<in> LEASED_STATES \<longrightarrow> d = t_lease_expires_at t)"

definition log_ok :: "agent_task \<Rightarrow> task_event list \<Rightarrow> bool" where
  "log_ok t es \<longleftrightarrow>
     es \<noteq> [] \<and> map ev_sequence es = upto_int (length es)
     \<and> ev_code (last es) \<in> events_of_state (t_state t)
     \<and> ev_status (last es) = project_task_status (t_state t) True
     \<and> ev_attempt_no (last es) = t_attempt_count t
     \<and> ev_result_run (last es) = t_result_run t"

definition view_ok ::
  "agent_task \<Rightarrow> agent_execution list \<Rightarrow> task_event list \<Rightarrow> timestamp option \<Rightarrow> bool" where
  "view_ok t xs es d \<longleftrightarrow>
     lease_ok t \<and> outcome_ok t \<and> version_ok t \<and> executions_ok t xs \<and> dispatch_ok t d \<and> log_ok t es"

lemmas view_defs = view_ok_def lease_ok_def outcome_ok_def version_ok_def executions_ok_def
  dispatch_ok_def log_ok_def

definition key_ok :: "task_db \<Rightarrow> row_key \<Rightarrow> bool" where
  "key_ok db k \<longleftrightarrow>
     (case map_of (tasks db) k of
        None \<Rightarrow> executions_of k db = [] \<and> events_of k db = [] \<and> map_of (dispatch db) k = None
      | Some t \<Rightarrow> view_ok t (executions_of k db) (events_of k db) (map_of (dispatch db) k))"

definition task_invariant :: "task_db \<Rightarrow> bool" where
  "task_invariant db \<longleftrightarrow>
     distinct (map fst (tasks db)) \<and> distinct (map fst (dispatch db)) \<and> (\<forall>k. key_ok db k)"

lemma task_invariantD:
  "task_invariant db \<Longrightarrow> map_of (tasks db) k = Some t \<Longrightarrow>
     view_ok t (executions_of k db) (events_of k db) (map_of (dispatch db) k)"
  unfolding task_invariant_def key_ok_def by (metis option.simps(5))

lemma task_invariant_no_task:
  "task_invariant db \<Longrightarrow> map_of (tasks db) k = None \<Longrightarrow>
     executions_of k db = [] \<and> events_of k db = [] \<and> map_of (dispatch db) k = None"
  unfolding task_invariant_def key_ok_def by (metis option.simps(4))

lemma task_invariant_cong:
  assumes "tasks db' = tasks db" "executions db' = executions db" "events db' = events db"
    and "dispatch db' = dispatch db"
  shows "task_invariant db' = task_invariant db"
  unfolding task_invariant_def key_ok_def events_of_def executions_of_def by (simp only: assms)

lemma task_invariant_empty: "task_invariant empty_db"
  by (simp add: task_invariant_def key_ok_def empty_db_def executions_of_rows events_of_rows)

section \<open>What a statement changes\<close>

lemma tasks_statements [simp]:
  "map_of (tasks (set_task k t db)) k' = (if k' = k then Some t else map_of (tasks db) k')"
  "tasks (append_agent_task_event k c s p n r now db) = tasks db"
  "tasks (set_dispatch k a db) = tasks db"
  "tasks (delete_dispatch k db) = tasks db"
  by (simp_all add: statement_defs)

lemma executions_statements [simp]:
  "executions (set_task k t db) = executions db"
  "executions (append_agent_task_event k c s p n r now db) = executions db"
  "executions (set_dispatch k a db) = executions db"
  "executions (delete_dispatch k db) = executions db"
  by (simp_all add: statement_defs)

lemma events_statements [simp]:
  "events (set_task k t db) = events db"
  "events (set_dispatch k a db) = events db"
  "events (delete_dispatch k db) = events db"
  by (simp_all add: statement_defs)

lemma dispatch_statements [simp]:
  "dispatch (set_task k t db) = dispatch db"
  "dispatch (append_agent_task_event k c s p n r now db) = dispatch db"
  "map_of (dispatch (delete_dispatch k db)) k' = (if k' = k then None else map_of (dispatch db) k')"
  by (simp_all add: statement_defs)

lemma set_dispatch_lookup [simp]:
  "map_of (dispatch (set_dispatch k a db)) k' =
     (if k' = k then map_option (\<lambda>_. a) (map_of (dispatch db) k) else map_of (dispatch db) k')"
proof -
  have "map_of (map (\<lambda>(k', x). if k' = k then (k', a) else (k', x)) xs) k' =
      (if k' = k then map_option (\<lambda>_. a) (map_of xs k) else map_of xs k')" for xs
    by (induction xs) auto
  then show ?thesis by (simp add: set_dispatch_def)
qed

lemma other_statements [simp]:
  "cases (set_task k t db) = cases db" "runs (set_task k t db) = runs db"
  "cases (append_agent_task_event k c s p n r now db) = cases db"
  "runs (append_agent_task_event k c s p n r now db) = runs db"
  "cases (set_dispatch k a db) = cases db" "runs (set_dispatch k a db) = runs db"
  "cases (delete_dispatch k db) = cases db" "runs (delete_dispatch k db) = runs db"
  "idempotency (set_task k t db) = idempotency db"
  "idempotency (append_agent_task_event k c s p n r now db) = idempotency db"
  "idempotency (set_dispatch k a db) = idempotency db"
  "idempotency (delete_dispatch k db) = idempotency db"
  by (simp_all add: statement_defs)

lemma distinct_statements [simp]:
  "distinct (map fst (tasks db)) \<Longrightarrow> distinct (map fst (tasks (set_task k t db)))"
  "distinct (map fst (dispatch db)) \<Longrightarrow> distinct (map fst (dispatch (delete_dispatch k db)))"
  "map fst (dispatch (set_dispatch k a db)) = map fst (dispatch db)"
  by (simp_all add: statement_defs distinct_update distinct_delete) (induction "dispatch db", auto)

lemma fold_max_upto: "fold max (upto_int n) 0 = int n"
  by (induction n) (auto simp: upto_int_def)

lemma next_sequence_is:
  "map ev_sequence (events_of k db) = upto_int (length (events_of k db)) \<Longrightarrow>
     next_sequence k db = int (length (events_of k db)) + 1"
  by (simp add: next_sequence_def fold_max_upto)

lemma append_event_events [simp]:
  "events_of k' (append_agent_task_event k c s p n r now db) =
     (if k' = k then events_of k db @ [\<lparr>ev_sequence = next_sequence k db, ev_code = c,
        ev_status = s, ev_public_code = p, ev_attempt_no = n, ev_result_run = r,
        ev_created_at = now\<rparr>] else events_of k' db)"
  by (simp add: append_agent_task_event_def events_of_rows)

lemma upto_int_Suc: "upto_int (Suc n) = upto_int n @ [int n + 1]"
  by (simp add: upto_int_def)

lemma upto_int_append: "upto_int (length es) @ [int (length es) + 1] = upto_int (Suc (length es))"
  by (simp add: upto_int_Suc)

section \<open>Changes of one task\<close>

definition touches_only :: "row_key \<Rightarrow> task_db \<Rightarrow> task_db \<Rightarrow> bool" where
  "touches_only k db db' \<longleftrightarrow>
     (\<forall>k'. k' \<noteq> k \<longrightarrow> map_of (tasks db') k' = map_of (tasks db) k'
        \<and> executions_of k' db' = executions_of k' db \<and> events_of k' db' = events_of k' db
        \<and> map_of (dispatch db') k' = map_of (dispatch db) k')
     \<and> (distinct (map fst (tasks db)) \<longrightarrow> distinct (map fst (tasks db')))
     \<and> (distinct (map fst (dispatch db)) \<longrightarrow> distinct (map fst (dispatch db')))"

lemma touches_only_refl [simp]: "touches_only k db db"
  by (simp add: touches_only_def)

lemma touches_only_trans:
  "touches_only k db db1 \<Longrightarrow> touches_only k db1 db2 \<Longrightarrow> touches_only k db db2"
  by (simp add: touches_only_def)

lemma touches_statements:
  "touches_only k db (set_task k t db)"
  "touches_only k db (append_agent_task_event k c s p n r now db)"
  "touches_only k db (set_dispatch k a db)"
  "touches_only k db (delete_dispatch k db)"
  by (simp_all add: touches_only_def executions_of_rows events_of_rows append_agent_task_event_def)

lemma touches_set_task [simp]: "touches_only k db db1 \<Longrightarrow> touches_only k db (set_task k t db1)"
  and touches_append [simp]: "touches_only k db db1 \<Longrightarrow>
        touches_only k db (append_agent_task_event k c s p n r now db1)"
  and touches_set_dispatch [simp]: "touches_only k db db1 \<Longrightarrow> touches_only k db (set_dispatch k a db1)"
  and touches_delete [simp]: "touches_only k db db1 \<Longrightarrow> touches_only k db (delete_dispatch k db1)"
  by (blast intro: touches_only_trans touches_statements)+

lemma touches_insert_execution [simp]:
  "touches_only k db db1 \<Longrightarrow> executions db1 = es \<Longrightarrow>
     touches_only k db (db1\<lparr>executions := es @ [(k, x)]\<rparr>)"
  by (auto simp: touches_only_def executions_of_rows events_of_rows)

lemma touches_idempotency [simp]:
  "touches_only k db (db1\<lparr>idempotency := i\<rparr>) = touches_only k db db1"
  by (simp add: touches_only_def executions_of_rows events_of_rows)

lemma touches_executions:
  assumes "update_where (\<lambda>k' x. k' = k \<and> Q x) f (executions db) = Inr xs"
  shows "touches_only k db (db\<lparr>executions := xs\<rparr>)"
  using update_where_other [OF assms]
  by (simp add: touches_only_def executions_of_rows events_of_rows)

text \<open>The two updates of executions, as changes of the list of one task.\<close>

definition only_executions :: "row_key \<Rightarrow> task_db \<Rightarrow> task_db \<Rightarrow> bool" where
  "only_executions k db db' \<longleftrightarrow> touches_only k db db' \<and> db' = db\<lparr>executions := executions db'\<rparr>"

lemma only_executionsD:
  assumes "only_executions k db db'"
  shows "tasks db' = tasks db" "events db' = events db" "dispatch db' = dispatch db"
    "cases db' = cases db" "runs db' = runs db" "idempotency db' = idempotency db"
    "touches_only k db db'" "events_of k' db' = events_of k' db"
proof -
  from assms have eq: "db' = db\<lparr>executions := executions db'\<rparr>" by (simp add: only_executions_def)
  show "tasks db' = tasks db" "events db' = events db" "dispatch db' = dispatch db"
    "cases db' = cases db" "runs db' = runs db" "idempotency db' = idempotency db"
    by (subst eq, simp)+
  then show "events_of k' db' = events_of k' db" by (simp add: events_of_def)
  from assms show "touches_only k db db'" by (simp add: only_executions_def)
qed

lemma update_execution_only:
  assumes "update_execution k gen f db = Inr db'"
  shows "only_executions k db db'"
    and "traverse (\<lambda>x. if x_lease_generation x = gen then f x else Inr x) (executions_of k db)
           = Inr (executions_of k db')" (is ?T)
proof -
  from assms obtain rs
    where rs: "update_where (\<lambda>k' x. k' = k \<and> x_lease_generation x = gen) f (executions db) = Inr rs"
    and db': "db' = db\<lparr>executions := rs\<rparr>" by (auto simp: update_execution_def)
  from touches_executions [OF rs] db' show "only_executions k db db'" by (simp add: only_executions_def)
  from update_where_same [OF rs] db' show ?T by (simp add: executions_of_rows)
qed

lemma close_open_only:
  assumes "close_open_execution k gen now st again code db = Inr db'"
  shows "only_executions k db db'"
    and "traverse (\<lambda>x. if x_lease_generation x = gen \<and> x_status x \<in> {XS_LEASED, XS_RUNNING}
             then finish_execution now (\<lambda>x. x\<lparr>x_status := st, x_retryable := again,
                                     x_public_code := Some code\<rparr>) x else Inr x) (executions_of k db)
           = Inr (executions_of k db')" (is ?T)
proof -
  from assms obtain rs
    where rs: "update_where (\<lambda>k' x. k' = k \<and> x_lease_generation x = gen
          \<and> x_status x \<in> {XS_LEASED, XS_RUNNING})
        (finish_execution now (\<lambda>x. x\<lparr>x_status := st, x_retryable := again,
           x_public_code := Some code\<rparr>)) (executions db) = Inr rs"
    and db': "db' = db\<lparr>executions := rs\<rparr>" unfolding close_open_execution_def by fastforce
  from touches_executions [OF rs] db' show "only_executions k db db'" by (simp add: only_executions_def)
  from update_where_same [OF rs] db' show ?T by (simp add: executions_of_rows)
qed

lemma invariant_focus:
  assumes inv: "task_invariant db" and only: "touches_only k db db'"
    and "map_of (tasks db') k = Some t"
    and "view_ok t (executions_of k db') (events_of k db') (map_of (dispatch db') k)"
  shows "task_invariant db'"
proof -
  have "key_ok db' k'" for k'
  proof (cases "k' = k")
    case True
    with assms show ?thesis by (simp add: key_ok_def)
  next
    case False
    with only have "map_of (tasks db') k' = map_of (tasks db) k'"
      "executions_of k' db' = executions_of k' db" "events_of k' db' = events_of k' db"
      "map_of (dispatch db') k' = map_of (dispatch db) k'" unfolding touches_only_def by blast+
    moreover from inv have "key_ok db k'" unfolding task_invariant_def by blast
    ultimately show ?thesis by (simp add: key_ok_def split: option.splits)
  qed
  with inv only show ?thesis by (simp add: task_invariant_def touches_only_def)
qed

section \<open>Executions that are closed\<close>

definition same_attempts :: "agent_execution list \<Rightarrow> agent_execution list \<Rightarrow> bool" where
  "same_attempts xs ys \<longleftrightarrow>
     map x_attempt_no ys = map x_attempt_no xs
     \<and> map x_lease_generation ys = map x_lease_generation xs"

lemma same_attempts_length: "same_attempts xs ys \<Longrightarrow> length ys = length xs"
  unfolding same_attempts_def using map_eq_imp_length_eq by blast

lemma traverse_same_attempts:
  assumes "traverse f xs = Inr ys"
    and "\<And>x y. f x = Inr y \<Longrightarrow> x_attempt_no y = x_attempt_no x \<and> x_lease_generation y = x_lease_generation x"
  shows "same_attempts xs ys"
  using assms(1) by (rule traverse_Inr_induct) (auto simp: same_attempts_def dest: assms(2))

lemma finish_execution_Inr:
  "finish_execution now f x = Inr y \<longleftrightarrow>
     (\<exists>d. duration_ms now x = Inr d
        \<and> y = (f x)\<lparr>x_duration_ms := Some d, x_finished_at := Some now\<rparr>)"
  by (auto simp: finish_execution_def)

lemma upto_int_last: "n > 0 \<Longrightarrow> last (upto_int n) = int n"
  by (cases n) (simp_all add: upto_int_Suc)

lemma last_generation:
  assumes "executions_ok t xs" and "xs \<noteq> []"
  shows "x_lease_generation (last xs) = int (length xs)"
    and "x \<in> set (butlast xs) \<Longrightarrow> x_lease_generation x \<noteq> int (length xs)"
proof -
  from assms obtain ys y where xs: "xs = ys @ [y]" by (metis append_butlast_last_id)
  from assms have g: "map x_lease_generation xs = upto_int (length xs)" by (simp add: executions_ok_def)
  with xs have "map x_lease_generation ys = upto_int (length ys)" "x_lease_generation y = int (length xs)"
    by (simp_all add: upto_int_Suc)
  then have "x_lease_generation ` set ys = set (upto_int (length ys))" by (metis list.set_map)
  then have "x_lease_generation z \<le> int (length ys)" if "z \<in> set ys" for z
    using that by (force simp: upto_int_def simp del: upt_Suc dest: imageI [of z _ x_lease_generation])
  with xs show "x \<in> set (butlast xs) \<Longrightarrow> x_lease_generation x \<noteq> int (length xs)" by force
  from xs \<open>x_lease_generation y = int (length xs)\<close>
  show "x_lease_generation (last xs) = int (length xs)" by simp
qed

text \<open>An update that reaches the execution of the current generation reaches the last one only.\<close>

lemma traverse_last:
  assumes ok: "executions_ok t xs" and ne: "xs \<noteq> []"
    and f: "\<And>x. x_lease_generation x \<noteq> int (length xs) \<Longrightarrow> f x = Inr x"
  shows "traverse f xs = Inr ys \<longleftrightarrow> (\<exists>y. f (last xs) = Inr y \<and> ys = butlast xs @ [y])"
proof -
  have "traverse f (butlast xs) = Inr (butlast xs)"
    using last_generation(2) [OF ok ne] by (intro traverse_id f) blast
  then have "traverse f (butlast xs @ [last xs]) = Inr ys \<longleftrightarrow>
      (\<exists>y. f (last xs) = Inr y \<and> ys = butlast xs @ [y])" by (auto simp: traverse_append)
  with ne show ?thesis by simp
qed

section \<open>Preservation, on one task\<close>

lemma closed_or_open: "st \<in> CLOSED_EXECUTIONS \<longleftrightarrow> st \<notin> {XS_LEASED, XS_RUNNING}"
  by (cases st) (simp_all add: CLOSED_EXECUTIONS_def)

lemma list_all_butlast:
  "list_all P ys \<longleftrightarrow> list_all P (butlast ys) \<and> (ys \<noteq> [] \<longrightarrow> P (last ys))"
  by (cases ys rule: rev_cases) auto

lemma close_open_view:
  assumes v: "view_ok t xs es d"
    and tr: "traverse (\<lambda>x. if x_lease_generation x = t_lease_generation t
               \<and> x_status x \<in> {XS_LEASED, XS_RUNNING}
             then finish_execution now (\<lambda>x. x\<lparr>x_status := st, x_retryable := again,
                    x_public_code := Some code\<rparr>) x else Inr x) xs = Inr ys"
    and st: "st \<in> CLOSED_EXECUTIONS"
  shows "same_attempts xs ys \<and> list_all (\<lambda>x. x_status x \<in> CLOSED_EXECUTIONS) ys"
proof (cases "xs = []")
  case True
  with tr show ?thesis by (simp add: same_attempts_def)
next
  case False
  have same: "same_attempts xs ys"
    by (rule traverse_same_attempts [OF tr]) (auto simp: finish_execution_Inr split: if_splits)
  from v have ok: "executions_ok t xs" and gen: "t_lease_generation t = int (length xs)"
    by (simp_all add: view_ok_def lease_ok_def executions_ok_def)
  from traverse_last [OF ok False, THEN iffD1, OF _ tr [unfolded gen]]
  have "\<exists>y. (if x_lease_generation (last xs) = int (length xs)
               \<and> x_status (last xs) \<in> {XS_LEASED, XS_RUNNING}
             then finish_execution now (\<lambda>x. x\<lparr>x_status := st, x_retryable := again,
                    x_public_code := Some code\<rparr>) (last xs) else Inr (last xs)) = Inr y
       \<and> ys = butlast xs @ [y]" by simp
  then have "butlast ys = butlast xs" "x_status (last ys) \<in> CLOSED_EXECUTIONS"
    using last_generation(1) [OF ok False] st
    by (auto simp: finish_execution_Inr closed_or_open split: if_splits)
  with ok same show ?thesis by (simp add: list_all_butlast [of _ ys] executions_ok_def)
qed

lemma update_view:
  assumes v: "view_ok t xs es d" and leased: "t_state t \<in> LEASED_STATES"
    and tr: "traverse (\<lambda>x. if x_lease_generation x = t_lease_generation t then f x else Inr x) xs = Inr ys"
    and f: "\<And>x y. f x = Inr y \<Longrightarrow> x_attempt_no y = x_attempt_no x
              \<and> x_lease_generation y = x_lease_generation x \<and> P y"
  shows "same_attempts xs ys" and "butlast ys = butlast xs" and "ys \<noteq> []" and "P (last ys)"
proof -
  show "same_attempts xs ys"
    by (rule traverse_same_attempts [OF tr]) (auto dest: f split: if_splits)
  from v leased have ok: "executions_ok t xs" and gen: "t_lease_generation t = int (length xs)"
    and ne: "xs \<noteq> []" by (auto simp: view_ok_def lease_ok_def executions_ok_def)
  from traverse_last [OF ok ne, THEN iffD1, OF _ tr [unfolded gen]]
  obtain y where "f (last xs) = Inr y" "ys = butlast xs @ [y]"
    by (auto simp: last_generation(1) [OF ok ne])
  then show "butlast ys = butlast xs" "ys \<noteq> []" "P (last ys)" by (auto dest: f)
qed

lemma log_ok_append:
  assumes "log_ok t es" and "ev_sequence e = int (length es) + 1"
    and "ev_code e \<in> events_of_state (t_state t')" and "ev_status e = status_of_state (t_state t')"
    and "ev_attempt_no e = t_attempt_count t'" and "ev_result_run e = t_result_run t'"
  shows "log_ok t' (es @ [e])"
  using assms by (simp add: log_ok_def project_task_status_def upto_int_append)

text \<open>A task that leaves its lease: to the queue or to its end.\<close>

lemma view_release:
  assumes v: "view_ok t xs es d" and live: "t_state t \<in> LIVE_STATES"
    and xs: "same_attempts xs ys" "list_all (\<lambda>x. x_status x \<in> CLOSED_EXECUTIONS) ys
               \<or> st \<noteq> TS_QUEUED \<and> code = Some ''skill_pin_invalid'' \<and> ys = xs"
    and st: "st \<notin> LEASED_STATES" "st \<noteq> TS_SUCCEEDED"
    and queue: "st = TS_QUEUED \<Longrightarrow> t_state t \<in> LEASED_STATES \<and> t_attempt_count t < 3 \<and> d' \<noteq> None \<and> code = None \<and> run = None"
    and ended: "st \<noteq> TS_QUEUED \<Longrightarrow> d' = None"
    and review: "st = TS_WAITING_REVIEW \<Longrightarrow> run \<noteq> None \<and> code = None"
    and run: "run \<noteq> None \<Longrightarrow> st \<in> {TS_WAITING_REVIEW, TS_BLOCKED, TS_FAILED}"
    and e: "ev_sequence e = int (length es) + 1" "ev_code e \<in> events_of_state st"
      "ev_status e = status_of_state st" "ev_attempt_no e = t_attempt_count t" "ev_result_run e = run"
  shows "view_ok ((release st code t)\<lparr>t_result_run := run\<rparr>) ys (es @ [e]) d'"
proof -
  let ?t = "(release st code t)\<lparr>t_result_run := run\<rparr>"
  from v have parts: "lease_ok t" "version_ok t" "executions_ok t xs" "log_ok t es"
    by (simp_all add: view_ok_def)
  have "lease_ok ?t" using parts(1) queue st by (auto simp: lease_ok_def release_def)
  moreover have "outcome_ok ?t" using st queue review run
    by (auto simp: outcome_ok_def release_def LIVE_STATES_def LEASED_STATES_def)
  moreover have "version_ok ?t" using parts(1,2) live queue st
    by (auto simp: version_ok_def lease_ok_def release_def LIVE_STATES_def LEASED_STATES_def split: if_splits)
  moreover have "executions_ok ?t ys"
    using parts(3) xs st same_attempts_length [OF xs(1)]
    by (auto simp: executions_ok_def same_attempts_def release_def LEASED_STATES_def list_all_iff dest: in_set_butlastD)
  moreover have "dispatch_ok ?t d'" using queue ended st
    by (auto simp: dispatch_ok_def release_def LIVE_STATES_def LEASED_STATES_def)
  moreover have "log_ok ?t (es @ [e])" by (rule log_ok_append [OF parts(4)]) (simp_all add: release_def e)
  ultimately show ?thesis by (simp add: view_ok_def)
qed

end
