(* ===== verification/Task_Safety.thy ===== *)
theory Task_Safety
  imports Task_Invariant
begin

text \<open>
  The steps of the task system and what holds in every reachable state: each
  function of the authority keeps \<open>task_invariant\<close>, a step of another component
  changes neither tasks nor their executions, events and dispatch rows.
\<close>

section \<open>Preservation by the claim and by the lease holder\<close>

lemma view_lease:
  assumes v: "view_ok t xs es d" and live: "t_state t \<in> LIVE_STATES" and three: "t_attempt_count t < 3"
    and ys: "same_attempts xs ys" "list_all (\<lambda>x. x_status x \<in> CLOSED_EXECUTIONS) ys"
    and t': "t' = leased_row worker t expiry" and fs: "log_ok t' fs"
  shows "view_ok t' (ys @ [new_execution t' now]) fs (Some expiry)"
proof -
  from v have parts: "lease_ok t" "outcome_ok t" "version_ok t" "executions_ok t xs"
    by (simp_all add: view_ok_def)
  have "lease_ok t'" using parts(1) three by (auto simp: lease_ok_def t' leased_row_def LEASED_STATES_def)
  moreover have "outcome_ok t'" using parts(2) live
    by (auto simp: outcome_ok_def t' leased_row_def LIVE_STATES_def)
  moreover have "version_ok t'" using parts(1,3) live
    by (auto simp: version_ok_def lease_ok_def t' leased_row_def LIVE_STATES_def LEASED_STATES_def
        split: if_splits)
  moreover have "executions_ok t' (ys @ [new_execution t' now])"
    using parts(1,4) ys same_attempts_length [OF ys(1)]
    by (simp add: executions_ok_def same_attempts_def lease_ok_def t' leased_row_def new_execution_def
        upto_int_Suc LEASED_STATES_def)
  moreover have "dispatch_ok t' (Some expiry)"
    by (simp add: dispatch_ok_def t' leased_row_def LIVE_STATES_def LEASED_STATES_def)
  ultimately show ?thesis using fs by (simp add: view_ok_def)
qed

lemma view_start:
  assumes v: "view_ok t xs es d" and leased: "t_state t = TS_LEASED"
    and ys: "same_attempts xs ys" "butlast ys = butlast xs" "ys \<noteq> []" "x_status (last ys) = XS_RUNNING"
    and t': "t' = t\<lparr>t_state := TS_RUNNING, t_row_version := t_row_version t + 1\<rparr>"
    and fs: "log_ok t' fs"
  shows "view_ok t' ys fs d"
proof -
  from v have parts: "lease_ok t" "outcome_ok t" "version_ok t" "executions_ok t xs" "dispatch_ok t d"
    by (simp_all add: view_ok_def)
  have "lease_ok t'" using parts(1) leased by (simp add: lease_ok_def t' LEASED_STATES_def)
  moreover have "outcome_ok t'" using parts(2) leased by (simp add: outcome_ok_def t' LIVE_STATES_def)
  moreover have "version_ok t'" using parts(3) leased by (simp add: version_ok_def t')
  moreover have "executions_ok t' ys" using parts(4) ys same_attempts_length [OF ys(1)]
    by (simp add: executions_ok_def same_attempts_def t' LEASED_STATES_def)
  moreover have "dispatch_ok t' d" using parts(5) leased
    by (auto simp: dispatch_ok_def t' LIVE_STATES_def LEASED_STATES_def)
  ultimately show ?thesis using fs by (simp add: view_ok_def)
qed

lemma view_heartbeat:
  assumes "view_ok t xs es d" and "t_state t \<in> LEASED_STATES"
  shows "view_ok (t\<lparr>t_lease_expires_at := Some expiry\<rparr>) xs es (Some expiry)"
proof -
  let ?t = "t\<lparr>t_lease_expires_at := Some expiry\<rparr>"
  from assms have parts: "lease_ok t" "outcome_ok t" "version_ok t" "executions_ok t xs" "log_ok t es"
    by (simp_all add: view_ok_def)
  have "lease_ok ?t" using parts(1) assms(2) by (simp add: lease_ok_def)
  moreover have "outcome_ok ?t" using parts(2) by (simp add: outcome_ok_def)
  moreover have "version_ok ?t" using parts(3) by (auto simp: version_ok_def split: if_splits)
  moreover have "executions_ok ?t xs" using parts(4) by (simp add: executions_ok_def)
  moreover have "log_ok ?t es" using parts(5) by (simp add: log_ok_def)
  moreover have "dispatch_ok ?t (Some expiry)" using assms(2)
    by (auto simp: dispatch_ok_def LIVE_STATES_def LEASED_STATES_def)
  ultimately show ?thesis by (simp add: view_ok_def)
qed

lemma view_attempts:
  "view_ok t xs es d \<Longrightarrow> map ev_sequence es = upto_int (length es)"
  by (simp add: view_ok_def log_ok_def)

lemma view_queued_closed:
  "view_ok t xs es d \<Longrightarrow> t_state t = TS_QUEUED \<Longrightarrow> list_all (\<lambda>x. x_status x \<in> CLOSED_EXECUTIONS) xs"
  by (auto simp: view_ok_def executions_ok_def outcome_ok_def LIVE_STATES_def LEASED_STATES_def)

lemma same_attempts_refl [simp]: "same_attempts xs xs"
  by (simp add: same_attempts_def)

section \<open>Preservation by every function\<close>

text \<open>\<open>keeps k db db'\<close>: the function touched only the task \<open>k\<close> and kept the invariant.\<close>

definition keeps :: "row_key \<Rightarrow> task_db \<Rightarrow> task_db \<Rightarrow> bool" where
  "keeps k db db' \<longleftrightarrow> touches_only k db db' \<and> task_invariant db'"

lemma keeps_focus:
  assumes "task_invariant db" "touches_only k db db'" "map_of (tasks db') k = Some t"
    and "view_ok t (executions_of k db') (events_of k db') (map_of (dispatch db') k)"
  shows "keeps k db db'"
  using assms invariant_focus by (simp add: keeps_def)

lemma leased_task_Inr:
  "leased_task states k worker gen now db = Inr t \<longleftrightarrow>
     map_of (tasks db) k = Some t \<and> holds_lease states t worker gen now"
  by (auto simp: leased_task_def split: option.splits)

lemma executions_of_cong: "executions db' = executions db \<Longrightarrow> executions_of k db' = executions_of k db"
  by (simp add: executions_of_def)

lemma executions_of_statements [simp]:
  "executions_of k' (set_task k t db) = executions_of k' db"
  "executions_of k' (append_agent_task_event k c s p n r now db) = executions_of k' db"
  "executions_of k' (set_dispatch k a db) = executions_of k' db"
  "executions_of k' (delete_dispatch k db) = executions_of k' db"
  by (rule executions_of_cong, simp)+

lemma events_of_cong: "events db' = events db \<Longrightarrow> events_of k db' = events_of k db"
  by (simp add: events_of_def)

lemma events_of_statements [simp]:
  "events_of k' (set_task k t db) = events_of k' db"
  "events_of k' (set_dispatch k a db) = events_of k' db"
  "events_of k' (delete_dispatch k db) = events_of k' db"
  by (rule events_of_cong, simp)+

lemma next_sequence_cong: "events_of k db' = events_of k db \<Longrightarrow> next_sequence k db' = next_sequence k db"
  by (simp add: next_sequence_def)

lemma next_sequence_statements [simp]:
  "next_sequence k (set_task k' t db) = next_sequence k db"
  "next_sequence k (set_dispatch k' a db) = next_sequence k db"
  "next_sequence k (delete_dispatch k' db) = next_sequence k db"
  by (rule next_sequence_cong, simp)+

lemma finish_update:
  assumes "task_invariant db" "map_of (tasks db) k = Some t" "holds_lease LEASED_STATES t worker gen now"
    and "update_execution k gen (finish_execution now f) db = Inr db1"
    and "\<And>x. x_attempt_no (f x) = x_attempt_no x \<and> x_lease_generation (f x) = x_lease_generation x
           \<and> x_status (f x) \<in> CLOSED_EXECUTIONS"
  shows "only_executions k db db1 \<and> same_attempts (executions_of k db) (executions_of k db1)
           \<and> list_all (\<lambda>x. x_status x \<in> CLOSED_EXECUTIONS) (executions_of k db1)"
proof -
  from assms(3) have leased: "t_state t \<in> LEASED_STATES" and gen: "gen = t_lease_generation t"
    by (simp_all add: holds_lease_def)
  note v = task_invariantD [OF assms(1,2)]
  note u = update_view [OF v leased update_execution_only(2) [OF assms(4), unfolded gen],
      of "\<lambda>x. x_status x \<in> CLOSED_EXECUTIONS"]
  have f: "x_attempt_no y = x_attempt_no x \<and> x_lease_generation y = x_lease_generation x
      \<and> x_status y \<in> CLOSED_EXECUTIONS" if "finish_execution now f x = Inr y" for x y
    using that assms(5) [of x] by (auto simp: finish_execution_Inr)
  note u = u [OF f]
  moreover from v have "list_all (\<lambda>x. x_status x \<in> CLOSED_EXECUTIONS) (butlast (executions_of k db))"
    by (simp add: view_ok_def executions_ok_def)
  ultimately show ?thesis
    using update_execution_only(1) [OF assms(4)]
    by (simp add: list_all_butlast [of _ "executions_of k db1"])
qed

lemma start_keeps:
  assumes inv: "task_invariant db" and "start_agent_task ses k worker gen input now db = Inr db'"
  shows "keeps k db db'"
proof -
  from assms(2) obtain t db2 where t: "map_of (tasks db) k = Some t"
    and held: "holds_lease {TS_LEASED} t worker gen now"
    and u: "update_execution k gen (\<lambda>x. Inr (x\<lparr>x_status := XS_RUNNING, x_input_sha256 := Some input,
                      x_started_at := Some now\<rparr>))
              (set_task k (t\<lparr>t_state := TS_RUNNING, t_row_version := t_row_version t + 1\<rparr>) db) = Inr db2"
    and db': "db' = append_agent_task_event k EV_EXECUTION_STARTED PREPARING
       (Some ''execution_started'') (t_attempt_count t) None now db2"
    by (auto simp: start_agent_task_def Let_def leased_task_Inr split: if_splits)
  let ?t = "t\<lparr>t_state := TS_RUNNING, t_row_version := t_row_version t + 1\<rparr>"
  note o = only_executionsD [OF update_execution_only(1) [OF u]]
  note v = task_invariantD [OF inv t]
  from held have leased: "t_state t = TS_LEASED" "t_state t \<in> LEASED_STATES"
    and gen: "gen = t_lease_generation t" by (simp_all add: holds_lease_def LEASED_STATES_def)
  let ?f = "\<lambda>x. Inr (x\<lparr>x_status := XS_RUNNING, x_input_sha256 := Some input, x_started_at := Some now\<rparr>)
      :: sql_error + agent_execution"
  have tr: "traverse (\<lambda>x. if x_lease_generation x = t_lease_generation t then ?f x else Inr x)
      (executions_of k db) = Inr (executions_of k db2)"
    using update_execution_only(2) [OF u] by (simp add: gen)
  have f: "x_attempt_no y = x_attempt_no x \<and> x_lease_generation y = x_lease_generation x
      \<and> x_status y = XS_RUNNING" if "?f x = Inr y" for x y
    using that by auto
  note x = update_view [OF v leased(2) tr f]
  show ?thesis
  proof (rule keeps_focus [OF inv, of _ _ ?t])
    show "touches_only k db db'" using touches_only_trans [OF _ o(7)] by (simp add: db')
    show "map_of (tasks db') k = Some ?t" by (simp add: db' o)
    from v leased have "log_ok t (events_of k db)" "t_result_run t = None"
      by (simp_all add: view_ok_def outcome_ok_def)
    then have "log_ok ?t (events_of k db')"
      by (simp add: db' o(8) next_sequence_cong [OF o(8)] next_sequence_is [OF view_attempts [OF v]]
          log_ok_append)
    moreover have "map_of (dispatch db') k = map_of (dispatch db) k" by (simp add: db' o)
    ultimately show "view_ok ?t (executions_of k db') (events_of k db') (map_of (dispatch db') k)"
      using view_start [OF v leased(1) x refl] by (metis db' executions_of_statements(2))
  qed
qed

lemma heartbeat_keeps:
  assumes inv: "task_invariant db" and "heartbeat_agent_task ses k worker gen now db = Inr (db', e)"
  shows "keeps k db db'"
proof -
  from assms(2) obtain t where t: "map_of (tasks db) k = Some t"
    and leased: "t_state t \<in> LEASED_STATES" and e: "e = now + lease_microseconds"
    and db': "db' = set_dispatch k e (set_task k (t\<lparr>t_lease_expires_at := Some e\<rparr>) db)"
    by (auto simp: heartbeat_agent_task_def Let_def leased_task_Inr holds_lease_def)
  note v = task_invariantD [OF inv t]
  from v leased have "map_of (dispatch db) k \<noteq> None"
    by (auto simp: view_ok_def dispatch_ok_def LIVE_STATES_def LEASED_STATES_def)
  with view_heartbeat [OF v leased, of e] show ?thesis
    by (intro keeps_focus [OF inv, of _ _ "t\<lparr>t_lease_expires_at := Some e\<rparr>"]) (auto simp: db')
qed

lemma release_no_run: "t_result_run t = None \<Longrightarrow> release st code t = (release st code t)\<lparr>t_result_run := None\<rparr>"
  by (simp add: release_def)

lemma live_no_run: "view_ok t xs es d \<Longrightarrow> t_state t \<in> LIVE_STATES \<Longrightarrow> t_result_run t = None"
  by (auto simp: view_ok_def outcome_ok_def LIVE_STATES_def)

lemma leased_live: "t_state t \<in> LEASED_STATES \<Longrightarrow> t_state t \<in> LIVE_STATES"
  by (auto simp: LIVE_STATES_def LEASED_STATES_def)

lemma release_keeps:
  assumes inv: "task_invariant db" and t: "map_of (tasks db) k = Some t" and live: "t_state t \<in> LIVE_STATES"
    and o: "only_executions k db db1"
    and xs: "same_attempts (executions_of k db) (executions_of k db1)"
      "list_all (\<lambda>x. x_status x \<in> CLOSED_EXECUTIONS) (executions_of k db1)
         \<or> st \<noteq> TS_QUEUED \<and> code = Some ''skill_pin_invalid'' \<and> db1 = db"
    and st: "st \<notin> LEASED_STATES" "st \<noteq> TS_SUCCEEDED"
    and queue: "st = TS_QUEUED \<Longrightarrow> t_state t \<in> LEASED_STATES \<and> t_attempt_count t < 3 \<and> code = None \<and> run = None"
    and review: "st = TS_WAITING_REVIEW \<Longrightarrow> run \<noteq> None \<and> code = None"
    and run: "run \<noteq> None \<Longrightarrow> st \<in> {TS_WAITING_REVIEW, TS_BLOCKED, TS_FAILED}"
    and ec: "ec \<in> events_of_state st"
    and t': "t' = (release st code t)\<lparr>t_result_run := run\<rparr>"
    and db2: "db2 = (if st = TS_QUEUED then set_dispatch k now else delete_dispatch k) (set_task k t' db1)"
  shows "keeps k db (append_agent_task_event k ec (status_of_state st) pub (t_attempt_count t) run now db2)"
proof -
  let ?db' = "append_agent_task_event k ec (status_of_state st) pub (t_attempt_count t) run now db2"
  note o = only_executionsD [OF o]
  note v = task_invariantD [OF inv t]
  from v live have d: "map_of (dispatch db) k \<noteq> None" by (simp add: view_ok_def dispatch_ok_def)
  have sequence: "next_sequence k db2 = int (length (events_of k db)) + 1"
    by (simp add: db2 o next_sequence_cong [OF o(8)] next_sequence_is [OF view_attempts [OF v]])
  show ?thesis
  proof (rule keeps_focus [OF inv])
    show "touches_only k db ?db'" using o(7) by (simp add: db2)
    show "map_of (tasks ?db') k = Some t'" by (simp add: db2 o)
    have "executions_of k ?db' = executions_of k db1" "events_of k db2 = events_of k db"
      by (simp_all add: db2 o)
    moreover have "map_of (dispatch ?db') k = None" if "st \<noteq> TS_QUEUED" using that by (simp add: db2)
    moreover have "map_of (dispatch ?db') k \<noteq> None" if "st = TS_QUEUED" using that d by (auto simp: db2 o)
    ultimately show "view_ok t' (executions_of k ?db') (events_of k ?db') (map_of (dispatch ?db') k)"
      using xs st queue review run ec
      by (auto simp: t' sequence intro!: view_release [OF v live])
  qed
qed

lemma fail_keeps:
  assumes inv: "task_invariant db"
    and "fail_agent_task ses k worker gen code again fallback now db = Inr (db', st)"
  shows "keeps k db db'"
proof -
  from assms(2) obtain t where t: "map_of (tasks db) k = Some t"
    and held: "holds_lease LEASED_STATES t worker gen now"
    by (auto simp: fail_agent_task_def leased_task_Inr split: if_splits)
  from held have leased: "t_state t \<in> LEASED_STATES" by (simp add: holds_lease_def)
  note run = release_no_run [OF live_no_run [OF task_invariantD [OF inv t] leased_live [OF leased]]]
  note finish = finish_update [OF inv t held]
  show ?thesis
  proof (cases "again \<and> t_attempt_count t < 3")
    case True
    with assms(2) t obtain db1
      where u: "update_execution k gen (finish_execution now
            (\<lambda>x. x\<lparr>x_status := XS_RETRY_SCHEDULED, x_retryable := True,
                   x_fallback_used := fallback, x_public_code := Some code\<rparr>)) db = Inr db1"
        and db': "db' = append_agent_task_event k EV_RETRY_SCHEDULED PREPARING (Some code)
                  (t_attempt_count t) None now
                  (set_dispatch k now (set_task k (release TS_QUEUED None t) db1))"
      by (auto simp: fail_agent_task_def leased_task_Inr split: if_splits)
    note f = finish [OF u]
    show ?thesis unfolding db'
    proof (rule release_keeps [OF inv t leased_live [OF leased], where st = TS_QUEUED, simplified])
      show "only_executions k db db1" "same_attempts (executions_of k db) (executions_of k db1)"
        "list_all (\<lambda>x. x_status x \<in> CLOSED_EXECUTIONS) (executions_of k db1)"
        using f by (simp_all add: CLOSED_EXECUTIONS_def)
    qed (use True leased in \<open>auto intro: run simp: LEASED_STATES_def\<close>)
  next
    case False
    let ?st = "terminal_state_of code"
    from False assms(2) t obtain db1
      where u: "update_execution k gen (finish_execution now
            (\<lambda>x. x\<lparr>x_status := execution_of_terminal ?st, x_retryable := False,
                   x_fallback_used := fallback, x_public_code := Some code\<rparr>)) db = Inr db1"
        and db': "db' = append_agent_task_event k (event_of_terminal ?st) (status_of_terminal ?st)
                  (Some code) (t_attempt_count t) None now
                  (delete_dispatch k (set_task k (release ?st (Some code) t) db1))"
      by (auto simp: fail_agent_task_def leased_task_Inr Let_def split: if_splits)
    have "?st \<in> {TS_TIMED_OUT, TS_BLOCKED, TS_FAILED}" by (simp add: terminal_state_of_def)
    then have st: "execution_of_terminal ?st \<in> CLOSED_EXECUTIONS" "?st \<notin> LEASED_STATES" "?st \<noteq> TS_QUEUED"
      "?st \<noteq> TS_SUCCEEDED" "?st \<noteq> TS_WAITING_REVIEW" "event_of_terminal ?st \<in> events_of_state ?st"
      "status_of_terminal ?st = status_of_state ?st"
      by (auto simp: CLOSED_EXECUTIONS_def LEASED_STATES_def)
    from finish [OF u] st(1) have f: "only_executions k db db1"
      "same_attempts (executions_of k db) (executions_of k db1)"
      "list_all (\<lambda>x. x_status x \<in> CLOSED_EXECUTIONS) (executions_of k db1)" by simp_all
    show ?thesis unfolding db' st(7)
      by (rule release_keeps [OF inv t leased_live [OF leased] f(1,2) disjI1 [OF f(3)] st(2,4) _ _ _ st(6) run])
        (use st in simp_all)
  qed
qed

lemma keeps_idempotency: "keeps k db (db'\<lparr>idempotency := i\<rparr>) = keeps k db db'"
  by (simp add: keeps_def task_invariant_cong [of "db'\<lparr>idempotency := i\<rparr>" db'])

lemma cancel_keeps:
  assumes inv: "task_invariant db" and "cancel_agent_task cat ses r now db = Inr (db', out)"
  shows "keeps (xq_org r, xq_task r) db db'"
proof (cases "map_of (idempotency db) (cancel_key r)")
  case (Some prior)
  with assms show ?thesis
    by (auto simp: cancel_agent_task_def Let_def keeps_def split: if_splits)
next
  case None
  let ?k = "(xq_org r, xq_task r)"
  from None assms(2) obtain t db1
    where t: "map_of (tasks db) ?k = Some t" and live: "t_state t \<in> LIVE_STATES"
      and c: "close_open_execution ?k (t_lease_generation t) now XS_CANCELLED False ''cancelled'' db = Inr db1"
      and db': "db' = (append_agent_task_event ?k EV_CANCELLED VIEW_CANCELLED (Some ''cancelled'')
              (t_attempt_count t) None now (delete_dispatch ?k
                (set_task ?k (release TS_CANCELLED (Some ''cancelled'') t) db1)))
          \<lparr>idempotency := idempotency db'\<rparr>"
    by (auto simp: cancel_agent_task_def Let_def split: option.splits if_splits)
  note v = task_invariantD [OF inv t]
  have x: "same_attempts (executions_of ?k db) (executions_of ?k db1)"
    "list_all (\<lambda>x. x_status x \<in> CLOSED_EXECUTIONS) (executions_of ?k db1)"
    using close_open_view [OF v close_open_only(2) [OF c]] by (simp_all add: CLOSED_EXECUTIONS_def)
  have "keeps ?k db (append_agent_task_event ?k EV_CANCELLED (status_of_state TS_CANCELLED) (Some ''cancelled'')
              (t_attempt_count t) None now (delete_dispatch ?k
                (set_task ?k (release TS_CANCELLED (Some ''cancelled'') t) db1)))"
    by (rule release_keeps [OF inv t live close_open_only(1) [OF c] x(1) disjI1 [OF x(2)] _ _ _ _ _ _
          release_no_run [OF live_no_run [OF v live]]])
      (simp_all add: LEASED_STATES_def)
  then show ?thesis by (subst db') (simp add: keeps_idempotency)
qed

section \<open>The claim\<close>

lemma claim_failure_keeps:
  assumes inv: "task_invariant db" and t: "map_of (tasks db) k = Some t" and live: "t_state t \<in> LIVE_STATES"
    and o: "only_executions k db db1"
    and xs: "same_attempts (executions_of k db) (executions_of k db1)"
      "list_all (\<lambda>x. x_status x \<in> CLOSED_EXECUTIONS) (executions_of k db1)
         \<or> code = ''skill_pin_invalid'' \<and> db1 = db"
  shows "keeps k db (claim_failure k code t now db1)"
proof -
  have "keeps k db (append_agent_task_event k EV_FAILED (status_of_state TS_FAILED) (Some code)
      (t_attempt_count t) None now (delete_dispatch k (set_task k (release TS_FAILED (Some code) t) db1)))"
    by (rule release_keeps [OF inv t live o xs(1) _ _ _ _ _ _ _
          release_no_run [OF live_no_run [OF task_invariantD [OF inv t] live]]])
      (use xs(2) in \<open>auto simp: LEASED_STATES_def\<close>)
  then show ?thesis by (simp add: claim_failure_def)
qed

lemma only_executions_refl [simp]: "only_executions k db db"
  by (simp add: only_executions_def)

lemma lease_task_keeps:
  assumes inv: "task_invariant db" and t: "map_of (tasks db) k = Some t" and live: "t_state t \<in> LIVE_STATES"
    and three: "t_attempt_count t < 3" and o: "only_executions k db db1"
    and xs: "same_attempts (executions_of k db) (executions_of k db1)"
      "list_all (\<lambda>x. x_status x \<in> CLOSED_EXECUTIONS) (executions_of k db1)"
    and db': "lease_task k worker again t now db1 = (db', out)"
  shows "keeps k db db'"
proof -
  let ?e = "now + lease_microseconds"
  let ?t = "leased_row worker t ?e"
  note o = only_executionsD [OF o]
  note v = task_invariantD [OF inv t]
  from v live obtain a where d: "map_of (dispatch db) k = Some a" by (auto simp: view_ok_def dispatch_ok_def)
  from v live have log: "log_ok t (events_of k db)" and run: "t_result_run t = None"
    by (auto simp: view_ok_def outcome_ok_def LIVE_STATES_def)
  have t': "t_state ?t = TS_LEASED" "t_result_run ?t = None" by (simp_all add: leased_row_def run)
  have insert: "events_of k (db\<lparr>executions := xs\<rparr>) = events_of k db"
    "next_sequence k (db\<lparr>executions := xs\<rparr>) = next_sequence k db" for xs and db :: task_db
    by (simp_all add: events_of_def next_sequence_def)
  have "\<exists>es. events_of k db' = events_of k db @ es \<and> log_ok ?t (events_of k db @ es)"
  proof (cases again)
    case False
    with db' log show ?thesis
      by (auto simp: lease_task_def Let_def o insert next_sequence_cong [OF o(8)]
          next_sequence_is [OF view_attempts [OF v]] t' intro!: log_ok_append)
  next
    case True
    let ?ev = "\<lparr>ev_sequence = int (length (events_of k db)) + 1, ev_code = EV_LEASE_RECLAIMED,
        ev_status = PREPARING, ev_public_code = Some ''lease_expired'',
        ev_attempt_no = t_attempt_count ?t, ev_result_run = None, ev_created_at = now\<rparr>"
    let ?ev2 = "\<lparr>ev_sequence = int (length (events_of k db)) + 2, ev_code = EV_LEASE_ACQUIRED,
        ev_status = PREPARING, ev_public_code = Some ''lease_acquired'',
        ev_attempt_no = t_attempt_count ?t, ev_result_run = None, ev_created_at = now\<rparr>"
    have e: "map ev_sequence (events_of k db @ [?ev]) = upto_int (length (events_of k db @ [?ev]))"
      using view_attempts [OF v] by (simp add: upto_int_append)
    have "events_of k db' = (events_of k db @ [?ev]) @ [?ev2]"
    proof -
      let ?d1 = "set_dispatch k ?e (set_task k ?t db1)"
      let ?d2 = "?d1\<lparr>executions := executions ?d1 @ [(k, new_execution ?t now)]\<rparr>"
      let ?d3 = "append_agent_task_event k EV_LEASE_RECLAIMED PREPARING (Some ''lease_expired'')
                   (t_attempt_count ?t) None now ?d2"
      have "events_of k ?d3 = events_of k db @ [?ev]"
        by (simp add: o insert next_sequence_cong [OF o(8)] next_sequence_is [OF view_attempts [OF v]])
      then have "next_sequence k ?d3 = int (length (events_of k db)) + 2"
        using next_sequence_is [of k ?d3] e by simp
      with \<open>events_of k ?d3 = _\<close> True db' show ?thesis by (auto simp: lease_task_def Let_def)
    qed
    moreover have "log_ok ?t ((events_of k db @ [?ev]) @ [?ev2])"
      using e by (simp add: log_ok_def t' project_task_status_def upto_int_Suc)
    ultimately show ?thesis by (metis append.assoc)
  qed
  then obtain es where es: "events_of k db' = events_of k db @ es" "log_ok ?t (events_of k db @ es)" by blast
  show ?thesis
  proof (rule keeps_focus [OF inv])
    show "touches_only k db db'" using o(7) db' by (auto simp: lease_task_def Let_def)
    show "map_of (tasks db') k = Some ?t" using db' by (auto simp: lease_task_def Let_def)
    have "executions_of k db' = executions_of k db1 @ [new_execution ?t now]"
      "map_of (dispatch db') k = Some ?e"
      using db' by (auto simp: lease_task_def Let_def executions_of_rows o d)
    then show "view_ok ?t (executions_of k db') (events_of k db') (map_of (dispatch db') k)"
      using view_lease [OF v live three xs refl es(2), of now] es(1) by simp
  qed
qed

lemma terminal_or_live: "t_state t \<notin> TERMINAL_STATES \<longleftrightarrow> t_state t \<in> LIVE_STATES"
  by (cases "t_state t") (simp_all add: TERMINAL_STATES_def LIVE_STATES_def)

lemma live_cases: "t_state t \<in> LIVE_STATES \<longleftrightarrow> t_state t = TS_QUEUED \<or> t_state t \<in> LEASED_STATES"
  by (auto simp: LIVE_STATES_def LEASED_STATES_def)

text \<open>What a claim does with its candidate.\<close>

lemma claim_cases:
  assumes inv: "task_invariant db" and "claim_agent_task cat locked worker now db = Inr (db', out)"
  obtains (idle) "claim_candidate locked now db = None" "db' = db" "out = None"
  | (orphan) k where "claim_candidate locked now db = Some k" "map_of (tasks db) k = None"
      "db' = delete_dispatch k db" "out = None"
  | (ended) k t where "claim_candidate locked now db = Some k" "map_of (tasks db) k = Some t"
      "t_state t \<in> TERMINAL_STATES" "db' = delete_dispatch k db" "out = None"
  | (unpinned) k t where "claim_candidate locked now db = Some k" "map_of (tasks db) k = Some t"
      "t_state t \<in> LIVE_STATES" "\<not> pin_valid cat k t"
      "db' = claim_failure k ''skill_pin_invalid'' t now db" "out = None"
  | (held) k t e where "claim_candidate locked now db = Some k" "map_of (tasks db) k = Some t"
      "t_state t \<in> LEASED_STATES" "t_lease_expires_at t = Some e" "e > now"
      "db' = set_dispatch k e db" "out = None"
  | (exhausted) k t e db1 where "claim_candidate locked now db = Some k" "map_of (tasks db) k = Some t"
      "t_state t \<in> LEASED_STATES" "t_lease_expires_at t = Some e" "e \<le> now" "t_attempt_count t \<ge> 3"
      "close_open_execution k (t_lease_generation t) now XS_FAILED False ''lease_expired'' db = Inr db1"
      "db' = claim_failure k ''lease_expired'' t now db1" "out = None"
  | (reclaimed) k t e db1 where "claim_candidate locked now db = Some k" "map_of (tasks db) k = Some t"
      "t_state t \<in> LEASED_STATES" "t_lease_expires_at t = Some e" "e \<le> now" "t_attempt_count t < 3"
      "pin_valid cat k t"
      "close_open_execution k (t_lease_generation t) now XS_RETRY_SCHEDULED True ''lease_expired'' db = Inr db1"
      "lease_task k worker True t now db1 = (db', out)"
  | (fresh) k t where "claim_candidate locked now db = Some k" "map_of (tasks db) k = Some t"
      "t_state t = TS_QUEUED" "pin_valid cat k t" "lease_task k worker False t now db = (db', out)"
proof (cases "claim_candidate locked now db")
  case None
  with assms idle show ?thesis by (auto simp: claim_agent_task_def split: if_splits)
next
  case (Some k)
  from assms(2) have valid: "\<not> invalid_worker worker" by (auto simp: claim_agent_task_def split: if_splits)
  note body = assms(2) [unfolded claim_agent_task_def, simplified valid Some, simplified]
  show ?thesis
  proof (cases "map_of (tasks db) k")
    case None
    with body Some orphan show ?thesis by auto
  next
    case t: (Some t)
    consider "t_state t \<in> TERMINAL_STATES" | "t_state t \<in> LIVE_STATES" "\<not> pin_valid cat k t"
      | "t_state t \<in> LEASED_STATES" "pin_valid cat k t" | "t_state t = TS_QUEUED" "pin_valid cat k t"
      using terminal_or_live live_cases by blast
    then show ?thesis
    proof cases
      case 1
      with body Some t ended show ?thesis by auto
    next
      case 2
      then have "t_state t \<notin> TERMINAL_STATES" by (simp add: terminal_or_live)
      with body t 2 show ?thesis by (auto intro: unpinned [OF Some t])
    next
      case 4
      then have "t_state t \<notin> LEASED_STATES" "t_state t \<notin> TERMINAL_STATES"
        by (simp_all add: LEASED_STATES_def TERMINAL_STATES_def)
      with body Some t 4 fresh show ?thesis by auto
    next
      case 3
      then have nt: "t_state t \<notin> TERMINAL_STATES" by (simp add: leased_live terminal_or_live)
      from 3 obtain e where e: "t_lease_expires_at t = Some e"
        using task_invariantD [OF inv t] by (auto simp: view_ok_def lease_ok_def)
      have "t_state t \<in> LEASED_STATES" "pin_valid cat k t" using 3 by simp_all
      note b = body [simplified t option.case if_not_P [OF nt] this if_True not_True_eq_False if_False
          unexpired_def e]
      consider "e > now" | "e \<le> now" "t_attempt_count t \<ge> 3" | "e \<le> now" "t_attempt_count t < 3" by linarith
      then show ?thesis
      proof cases
        case 1
        with b show ?thesis by (auto intro: held [OF Some t \<open>t_state t \<in> LEASED_STATES\<close> e])
      next
        case 2
        with b show ?thesis by (auto intro: exhausted [OF Some t \<open>t_state t \<in> LEASED_STATES\<close> e])
      next
        case 3
        with b \<open>pin_valid cat k t\<close> show ?thesis
          by (auto intro: reclaimed [OF Some t \<open>t_state t \<in> LEASED_STATES\<close> e])
      qed
    qed
  qed
qed

lemma claim_keeps:
  assumes inv: "task_invariant db" and c: "claim_agent_task cat locked worker now db = Inr (db', out)"
  shows "\<exists>k. keeps k db db'"
  using inv c
proof (cases rule: claim_cases)
  case idle
  with inv show ?thesis by (simp add: keeps_def)
next
  case (orphan k)
  have "map_of (dispatch db) k = None" using task_invariant_no_task [OF inv orphan(2)] by simp
  then have "db' = db" by (simp add: orphan delete_dispatch_def delete_idem map_of_eq_None_iff)
  with inv show ?thesis by (simp add: keeps_def)
next
  case (ended k t)
  then have "map_of (dispatch db) k = None" using task_invariantD [OF inv ended(2)] terminal_or_live [of t]
    by (auto simp: view_ok_def dispatch_ok_def)
  then have "db' = db" by (simp add: ended delete_dispatch_def delete_idem map_of_eq_None_iff)
  with inv show ?thesis by (simp add: keeps_def)
next
  case (unpinned k t)
  have "keeps k db db'" unfolding unpinned(5)
    by (rule claim_failure_keeps [OF inv unpinned(2,3)]) simp_all
  then show ?thesis ..
next
  case (held k t e)
  note v = task_invariantD [OF inv held(2)]
  with held(3) leased_live have d: "map_of (dispatch db) k = Some e"
    by (auto simp: view_ok_def dispatch_ok_def held)
  have "keeps k db db'"
    by (rule keeps_focus [OF inv, where t = t]) (use v d held in simp_all)
  then show ?thesis ..
next
  case (exhausted k t e db1)
  note v = task_invariantD [OF inv exhausted(2)]
  have "same_attempts (executions_of k db) (executions_of k db1)
      \<and> list_all (\<lambda>x. x_status x \<in> CLOSED_EXECUTIONS) (executions_of k db1)"
    by (rule close_open_view [OF v close_open_only(2) [OF exhausted(7)]]) (simp add: CLOSED_EXECUTIONS_def)
  with claim_failure_keeps [OF inv exhausted(2) leased_live [OF exhausted(3)] close_open_only(1) [OF exhausted(7)]]
  have "keeps k db db'" by (simp add: exhausted)
  then show ?thesis ..
next
  case (reclaimed k t e db1)
  note v = task_invariantD [OF inv reclaimed(2)]
  have "same_attempts (executions_of k db) (executions_of k db1)
      \<and> list_all (\<lambda>x. x_status x \<in> CLOSED_EXECUTIONS) (executions_of k db1)"
    by (rule close_open_view [OF v close_open_only(2) [OF reclaimed(8)]]) (simp add: CLOSED_EXECUTIONS_def)
  with lease_task_keeps [OF inv reclaimed(2) leased_live [OF reclaimed(3)] reclaimed(6)
      close_open_only(1) [OF reclaimed(8)] _ _ reclaimed(9)]
  show ?thesis by blast
next
  case (fresh k t)
  note v = task_invariantD [OF inv fresh(2)]
  from v fresh(3) have "t_attempt_count t < 3" "t_state t \<in> LIVE_STATES"
    by (auto simp: view_ok_def lease_ok_def LIVE_STATES_def)
  with lease_task_keeps [OF inv fresh(2) _ _ only_executions_refl same_attempts_refl
      view_queued_closed [OF v fresh(3)] fresh(5)]
  show ?thesis by blast
qed

section \<open>Results, creation and recovery\<close>

lemma task_target:
  assumes "st \<in> {RS_REVIEW_REQUIRED, RS_BLOCKED, RS_FAILED}"
  shows "target_execution st \<in> CLOSED_EXECUTIONS" "target_state st \<notin> LEASED_STATES"
    "target_state st \<noteq> TS_QUEUED" "target_state st \<noteq> TS_SUCCEEDED"
    "target_event st \<in> events_of_state (target_state st)"
    "target_state st = TS_WAITING_REVIEW \<longleftrightarrow> st = RS_REVIEW_REQUIRED"
    "target_state st \<in> {TS_WAITING_REVIEW, TS_BLOCKED, TS_FAILED}"
  using assms by (auto simp: CLOSED_EXECUTIONS_def LEASED_STATES_def)

lemma persist_only_runs:
  assumes "persist_planning_result cat ok org t q superseded db = Inr db'"
  shows "tasks db' = tasks db" "executions db' = executions db" "events db' = events db"
    "dispatch db' = dispatch db" "idempotency db' = idempotency db"
  using assms by (auto simp: persist_planning_result_def Let_def split: option.splits if_splits)

lemma touches_frame:
  assumes "tasks db' = tasks db" "executions db' = executions db" "events db' = events db"
    and "dispatch db' = dispatch db"
  shows "touches_only k db db'"
  using assms by (simp add: touches_only_def executions_of_def events_of_def)

lemma finalize_cases:
  assumes "finalize_agent_task_result cat ok ses k worker gen q now db = Inr (db', st)"
  obtains (replay) t where "map_of (tasks db) k = Some t" "t_result_run t = Some (fq_run q)"
      "t_state t \<in> {TS_WAITING_REVIEW, TS_BLOCKED, TS_FAILED}" "t_lease_generation t = gen"
      "replays_result k t gen q db" "db' = db" "st = t_state t"
  | (recorded) t db1 db2 where "map_of (tasks db) k = Some t" "holds_lease LEASED_STATES t worker gen now"
      "fq_state q \<in> {RS_REVIEW_REQUIRED, RS_BLOCKED, RS_FAILED}" "fq_supersedes q = t_predecessor_run t"
      "persist_planning_result cat ok (fst k) t q (t_predecessor_run t) db = Inr db1"
      "update_execution k gen (finish_execution now
            (\<lambda>x. x\<lparr>x_status := target_execution (fq_state q), x_retryable := False,
                   x_output_sha256 := Some (fq_output_hash q), x_result_run := Some (fq_run q),
                   x_public_code := fq_reason q\<rparr>)) db1 = Inr db2"
      "st = target_state (fq_state q)"
      "db' = append_agent_task_event k (target_event (fq_state q)) (status_of_state st)
                (fq_reason q) (t_attempt_count t) (Some (fq_run q)) now
                (delete_dispatch k (set_task k
                  ((release st (if fq_state q = RS_REVIEW_REQUIRED then None else fq_reason q) t)
                     \<lparr>t_result_run := Some (fq_run q)\<rparr>) db2))"
  using assms by (auto simp: finalize_agent_task_result_def Let_def split: option.splits if_splits)

lemma finalize_keeps:
  assumes inv: "task_invariant db" and "finalize_agent_task_result cat ok ses k worker gen q now db = Inr (db', st)"
  shows "keeps k db db'"
  using assms(2)
proof (cases rule: finalize_cases)
  case (replay t)
  with inv show ?thesis by (simp add: keeps_def)
next
  case (recorded t db1 db2)
  note p = persist_only_runs [OF recorded(5)]
  have inv1: "task_invariant db1" using inv p by (simp add: task_invariant_cong [of db1 db])
  have t1: "map_of (tasks db1) k = Some t" using recorded(1) p by simp
  from recorded(2) have live: "t_state t \<in> LIVE_STATES" by (simp add: holds_lease_def leased_live)
  note g = task_target [OF recorded(3)]
  from finish_update [OF inv1 t1 recorded(2,6)] g(1) have f: "only_executions k db1 db2"
    "same_attempts (executions_of k db1) (executions_of k db2)"
    "list_all (\<lambda>x. x_status x \<in> CLOSED_EXECUTIONS) (executions_of k db2)" by simp_all
  have "keeps k db1 db'" unfolding recorded(8)
    by (rule release_keeps [OF inv1 t1 live f(1,2) disjI1 [OF f(3)] _ _ _ _ _ _ refl])
      (use g in \<open>simp_all add: recorded(7)\<close>)
  then show ?thesis using touches_frame [OF p(1-4), of k] by (auto simp: keeps_def intro: touches_only_trans)
qed

lemma new_task_view:
  "view_ok (new_task r pin row now) [] [\<lparr>ev_sequence = 1, ev_code = EV_QUEUED, ev_status = PREPARING,
      ev_public_code = c, ev_attempt_no = 0, ev_result_run = None, ev_created_at = now\<rparr>] (Some now)"
  by (simp add: view_defs new_task_def LEASED_STATES_def LIVE_STATES_def upto_int_def project_task_status_def)

lemma single_map_add: "k' \<noteq> k \<Longrightarrow> ([k \<mapsto> v] ++ m) k' = m k'"
  by (cases "m k'") (simp_all add: map_add_def)

lemma insert_task_keeps:
  assumes inv: "task_invariant db" and t: "t = new_task r pin row now"
    and "insert_task r t now db = Inr (db', out)"
  shows "keeps (cq_org r, cq_task r) db db'"
proof -
  let ?k = "(cq_org r, cq_task r)"
  let ?db1 = "db\<lparr>tasks := tasks db @ [(?k, t)], dispatch := dispatch db @ [(?k, now)]\<rparr>"
  let ?db2 = "append_agent_task_event ?k EV_QUEUED PREPARING (Some ''queued'') 0 None now ?db1"
  from assms(3) have fresh: "map_of (tasks db) ?k = None"
    and db': "db' = ?db2\<lparr>idempotency := idempotency db'\<rparr>"
    by (auto simp: insert_task_def Let_def split: if_splits)
  note none = task_invariant_no_task [OF inv fresh]
  have sequence: "next_sequence ?k ?db1 = 1"
    using none by (simp add: next_sequence_def events_of_def)
  have "?k \<notin> set (map fst (tasks db))" "?k \<notin> set (map fst (dispatch db))"
    using fresh none by (simp_all add: map_of_eq_None_iff)
  then have only: "touches_only ?k db ?db1"
    unfolding touches_only_def by (simp add: single_map_add events_of_def executions_of_def)
  have "keeps ?k db ?db2"
  proof (rule keeps_focus [OF inv])
    show "touches_only ?k db ?db2" using only by simp
    show "map_of (tasks ?db2) ?k = Some t" using fresh by (simp add: map_add_def)
    have "executions_of ?k ?db2 = []" "events_of ?k ?db1 = []" "map_of (dispatch ?db2) ?k = Some now"
      using none by (simp_all add: events_of_def executions_of_def map_add_def append_agent_task_event_def)
    then show "view_ok t (executions_of ?k ?db2) (events_of ?k ?db2) (map_of (dispatch ?db2) ?k)"
      using new_task_view [of r pin row now] by (simp add: t [symmetric] sequence)
  qed
  then show ?thesis by (subst db') (simp add: keeps_idempotency)
qed

lemma create_keeps:
  assumes inv: "task_invariant db" and "create_agent_task cat ses r now db = Inr (db', out)"
  shows "db' = db \<and> map_of (idempotency db) (create_key r) \<noteq> None
       \<or> keeps (cq_org r, cq_task r) db db' \<and> map_of (idempotency db) (create_key r) = None
         \<and> map_of (idempotency db') (create_key r)
             = Some \<lparr>ir_request_sha256 = cq_request_hash r, ir_response_id = cq_task r\<rparr>"
proof (cases "map_of (idempotency db) (create_key r)")
  case (Some prior)
  with assms(2) show ?thesis
    by (auto simp: create_agent_task_def split: option.splits if_splits)
next
  case None
  with assms(2) obtain pin row c where
      "insert_task r (new_task r pin row now) now
         (db\<lparr>cases := AList.update (cq_org r, cq_case r) c (cases db)\<rparr>) = Inr (db', out)"
    by (auto simp: create_agent_task_def create_fresh_def)
  then obtain db1 where i: "insert_task r (new_task r pin row now) now db1 = Inr (db', out)"
    and frame: "tasks db1 = tasks db" "executions db1 = executions db" "events db1 = events db"
      "dispatch db1 = dispatch db" by force
  have inv1: "task_invariant db1" using inv frame by (simp add: task_invariant_cong [of db1 db])
  have "keeps (cq_org r, cq_task r) db db'" using insert_task_keeps [OF inv1 refl i] touches_frame [OF frame]
    by (auto simp: keeps_def intro: touches_only_trans)
  moreover have "map_of (idempotency db') (create_key r)
             = Some \<lparr>ir_request_sha256 = cq_request_hash r, ir_response_id = cq_task r\<rparr>"
    using i by (auto simp: insert_task_def Let_def split: if_splits)
  ultimately show ?thesis using None by simp
qed

lemma view_retried: "view_ok (t\<lparr>t_retried_from := x\<rparr>) xs es d = view_ok t xs es d"
  by (simp add: view_defs)

lemma mark_retried_idempotency [simp]: "idempotency (mark_retried k source db) = idempotency db"
  by (simp add: mark_retried_def split: option.splits)

lemma retry_cases:
  assumes "retry_agent_task cat inner ses r now db = Inr (db', out)"
  obtains (replay) t prior s where "map_of (tasks db) (rq_org r, rq_source r) = Some t"
      "map_of (idempotency db) (retry_key r) = Some prior"
      "ir_request_sha256 prior = rq_request_hash r"
      "map_of (tasks db) (rq_org r, ir_response_id prior) = Some s"
      "t_retried_from s = Some (rq_source r)" "db' = db" "out = (Some s, True)"
  | (created) t db1 created again created_id where
      "map_of (tasks db) (rq_org r, rq_source r) = Some t"
      "map_of (idempotency db) (retry_key r) = None"
      "retry_eligible cat (rq_org r, rq_source r) t db"
      "create_agent_task cat ses (retry_create_request inner r t) now db = Inr (db1, created, again)"
      "created_id = (case map_of (idempotency db1) (create_key (retry_create_request inner r t)) of
                       None \<Rightarrow> rq_task r | Some prior \<Rightarrow> ir_response_id prior)"
      "db' = (mark_retried (rq_org r, created_id) (rq_source r) db1)
         \<lparr>idempotency := AList.update (retry_key r)
            \<lparr>ir_request_sha256 = rq_request_hash r, ir_response_id = created_id\<rparr> (idempotency db1)\<rparr>"
      "out = (created, False)"
proof -
  note u = assms [unfolded retry_agent_task_def Let_def]
  from u obtain t where t: "map_of (tasks db) (rq_org r, rq_source r) = Some t"
    by (cases "map_of (tasks db) (rq_org r, rq_source r)") (auto split: if_splits)
  from u t obtain c where c: "map_of (cases db) (rq_org r, t_case t) = Some c"
    by (cases "map_of (cases db) (rq_org r, t_case t)") (auto split: if_splits)
  show ?thesis
  proof (cases "map_of (idempotency db) (retry_key r)")
    case (Some prior)
    with u t c obtain s where s: "map_of (tasks db) (rq_org r, ir_response_id prior) = Some s"
      by (cases "map_of (tasks db) (rq_org r, ir_response_id prior)") (auto split: if_splits)
    from u t c Some s show ?thesis by (intro replay [OF t Some _ s]) (auto split: if_splits)
  next
    case None
    with u t c have e: "retry_eligible cat (rq_org r, rq_source r) t db"
      and f: "retry_fresh cat inner ses r t now db = Inr (db', out)" by (simp_all split: if_splits)
    from f obtain db1 c again where
        cr: "create_agent_task cat ses (retry_create_request inner r t) now db = Inr (db1, c, again)"
        and "(let created_id = (case map_of (idempotency db1) (create_key (retry_create_request inner r t)) of
              None \<Rightarrow> rq_task r | Some prior \<Rightarrow> ir_response_id prior);
            db2 = mark_retried (rq_org r, created_id) (rq_source r) db1 in
          (db2\<lparr>idempotency := AList.update (retry_key r)
               \<lparr>ir_request_sha256 = rq_request_hash r, ir_response_id = created_id\<rparr>
               (idempotency db2)\<rparr>, (c, False))) = (db', out)"
      unfolding retry_fresh_def Let_def by auto
    then show ?thesis by (intro created [OF t None e cr refl]) (auto simp: Let_def)
  qed
qed

lemma retry_keeps:
  assumes inv: "task_invariant db" and "retry_agent_task cat inner ses r now db = Inr (db', out)"
  shows "\<exists>k. fst k = rq_org r \<and> keeps k db db'"
  using assms(2)
proof (cases rule: retry_cases)
  case replay
  with inv show ?thesis by (auto simp: keeps_def intro: exI [of _ "(rq_org r, 0)"])
next
  case (created t db1 c again created_id)
  let ?q = "retry_create_request inner r t"
  let ?k = "(rq_org r, created_id)"
  have org: "cq_org ?q = rq_org r" "cq_task ?q = rq_task r" by (simp_all add: retry_create_request_def)
  from create_keeps [OF inv created(4)] created(5) inv have k1: "keeps ?k db db1"
    by (auto simp: keeps_def org)
  then have inv1: "task_invariant db1" by (simp add: keeps_def)
  have "keeps ?k db1 (mark_retried ?k (rq_source r) db1)"
  proof (cases "map_of (tasks db1) ?k")
    case None
    with inv1 show ?thesis by (simp add: keeps_def mark_retried_def)
  next
    case (Some s)
    with task_invariantD [OF inv1 Some] show ?thesis
      by (auto simp: view_retried mark_retried_def intro!: keeps_focus [OF inv1])
  qed
  then have "keeps ?k db1 db'" by (subst created(6)) (simp add: keeps_idempotency)
  with k1 have "keeps ?k db db'" by (auto simp: keeps_def intro: touches_only_trans)
  then show ?thesis by (auto intro: exI [of _ ?k])
qed

end
