(* ===== verification/Task_System.thy ===== *)
theory Task_System
  imports Task_Safety
begin

text \<open>
  The task system as a step relation: one step per successful call of the authority,
  with any catalog, session and clock, and steps of the other components.  What a
  step may do to a task row is \<open>advances\<close>.
\<close>

section \<open>Steps\<close>

definition TASK_OPERATIONS :: "string set" where
  "TASK_OPERATIONS = {''agent_task_create'', ''agent_task_cancel'', ''agent_task_retry''}"

inductive task_step :: "task_db \<Rightarrow> task_db \<Rightarrow> bool" where
  step_create: "create_agent_task cat ses r now db = Inr (db', out) \<Longrightarrow> task_step db db'"
| step_cancel: "cancel_agent_task cat ses x now db = Inr (db', out) \<Longrightarrow> task_step db db'"
| step_claim: "claim_agent_task cat locked worker now db = Inr (db', claimed) \<Longrightarrow> task_step db db'"
| step_start: "start_agent_task ses k worker gen input now db = Inr db' \<Longrightarrow> task_step db db'"
| step_heartbeat: "heartbeat_agent_task ses k worker gen now db = Inr (db', expiry) \<Longrightarrow> task_step db db'"
| step_fail: "fail_agent_task ses k worker gen code again fallback now db = Inr (db', st) \<Longrightarrow> task_step db db'"
| step_finalize:
    "finalize_agent_task_result cat accepted ses k worker gen q now db = Inr (db', st) \<Longrightarrow> task_step db db'"
| step_retry: "retry_agent_task cat inner_key ses y now db = Inr (db', out) \<Longrightarrow> task_step db db'"
| step_environment:
    "tasks db' = tasks db \<Longrightarrow> executions db' = executions db \<Longrightarrow> events db' = events db \<Longrightarrow>
     dispatch db' = dispatch db \<Longrightarrow>
     (\<And>key. ik_operation key \<in> TASK_OPERATIONS \<Longrightarrow>
        map_of (idempotency db') key = map_of (idempotency db) key) \<Longrightarrow> task_step db db'"

inductive_cases task_stepE: "task_step db db'"

definition task_reachable :: "task_db \<Rightarrow> bool" where
  "task_reachable db \<longleftrightarrow> task_step\<^sup>*\<^sup>* empty_db db"

lemma step_keeps:
  assumes "task_step db db'" and inv: "task_invariant db"
  shows "task_invariant db'"
  using assms(1)
proof (cases rule: task_step.cases)
  case step_create
  from create_keeps [OF inv this] inv show ?thesis by (auto simp: keeps_def)
next
  case step_cancel
  with inv show ?thesis using cancel_keeps by (auto simp: keeps_def)
next
  case step_claim
  with inv show ?thesis using claim_keeps by (auto simp: keeps_def)
next
  case step_start
  with inv show ?thesis using start_keeps by (auto simp: keeps_def)
next
  case step_heartbeat
  with inv show ?thesis using heartbeat_keeps by (auto simp: keeps_def)
next
  case step_fail
  with inv show ?thesis using fail_keeps by (auto simp: keeps_def)
next
  case step_finalize
  with inv show ?thesis using finalize_keeps by (auto simp: keeps_def)
next
  case step_retry
  with inv show ?thesis using retry_keeps by (auto simp: keeps_def)
next
  case step_environment
  with inv show ?thesis by (simp add: task_invariant_cong [of db' db])
qed

lemma steps_keep: "task_step\<^sup>*\<^sup>* db db' \<Longrightarrow> task_invariant db \<Longrightarrow> task_invariant db'"
  by (induction rule: rtranclp_induct) (auto intro: step_keeps)

lemma reachable_invariant: "task_reachable db \<Longrightarrow> task_invariant db"
  using steps_keep task_invariant_empty by (simp add: task_reachable_def)

lemma reachable_view:
  "task_reachable db \<Longrightarrow> map_of (tasks db) k = Some t \<Longrightarrow>
     view_ok t (executions_of k db) (events_of k db) (map_of (dispatch db) k)"
  by (rule task_invariantD [OF reachable_invariant])

lemma reachable_step: "task_reachable db \<Longrightarrow> task_step\<^sup>*\<^sup>* db db' \<Longrightarrow> task_reachable db'"
  unfolding task_reachable_def by (rule rtranclp_trans)

section \<open>What a step may do to a row\<close>

definition OPEN_STATES :: "task_state set" where
  "OPEN_STATES = {TS_QUEUED, TS_LEASED, TS_RUNNING, TS_WAITING_REVIEW}"

definition same_pins :: "agent_task \<Rightarrow> agent_task \<Rightarrow> bool" where
  "same_pins t t' \<longleftrightarrow>
     t_case t' = t_case t \<and> t_operation t' = t_operation t \<and> t_case_revision t' = t_case_revision t
     \<and> t_source_pack t' = t_source_pack t \<and> t_source_pack_version t' = t_source_pack_version t
     \<and> t_policy_version t' = t_policy_version t \<and> t_request_sha256 t' = t_request_sha256 t
     \<and> t_created_by t' = t_created_by t \<and> t_pin t' = t_pin t
     \<and> t_predecessor_run t' = t_predecessor_run t \<and> t_created_at t' = t_created_at t"

definition forget_retry :: "agent_task \<Rightarrow> agent_task" where
  "forget_retry t = t\<lparr>t_retried_from := None\<rparr>"

lemma forget_retry_state: "forget_retry t' = forget_retry t \<Longrightarrow> t_state t' = t_state t"
  unfolding forget_retry_def by (drule arg_cong [of _ _ t_state]) simp

definition advances :: "agent_task \<Rightarrow> agent_task \<Rightarrow> bool" where
  "advances t t' \<longleftrightarrow>
     same_pins t t' \<and> t_lease_generation t \<le> t_lease_generation t'
     \<and> t_attempt_count t \<le> t_attempt_count t' \<and> t_row_version t \<le> t_row_version t'
     \<and> (t_state t \<in> TERMINAL_STATES \<longrightarrow> forget_retry t' = forget_retry t)
     \<and> (t_state t' \<in> OPEN_STATES \<longrightarrow> t_state t \<in> OPEN_STATES)"

definition advances_db :: "task_db \<Rightarrow> task_db \<Rightarrow> bool" where
  "advances_db db db' \<longleftrightarrow>
     (\<forall>k t. map_of (tasks db) k = Some t \<longrightarrow>
        (\<exists>t'. map_of (tasks db') k = Some t' \<and> advances t t'))"

lemma advances_refl [simp]: "advances t t"
  by (simp add: advances_def same_pins_def)

lemma advances_trans: "advances t t' \<Longrightarrow> advances t' t'' \<Longrightarrow> advances t t''"
  unfolding advances_def same_pins_def using forget_retry_state [of t' t] by simp

lemma advances_db_refl [simp]: "advances_db db db"
  by (simp add: advances_db_def)

lemma advances_db_trans: "advances_db db db1 \<Longrightarrow> advances_db db1 db2 \<Longrightarrow> advances_db db db2"
  unfolding advances_db_def using advances_trans by meson

lemma advances_focus:
  assumes "touches_only k db db'"
    and "\<And>t. map_of (tasks db) k = Some t \<Longrightarrow> \<exists>t'. map_of (tasks db') k = Some t' \<and> advances t t'"
  shows "advances_db db db'"
  unfolding advances_db_def
proof (intro allI impI)
  fix k' t assume t: "map_of (tasks db) k' = Some t"
  show "\<exists>t'. map_of (tasks db') k' = Some t' \<and> advances t t'"
  proof (cases "k' = k")
    case True with assms t show ?thesis by blast
  next
    case False
    with assms(1) have "map_of (tasks db') k' = map_of (tasks db) k'" unfolding touches_only_def by blast
    with t show ?thesis by simp
  qed
qed

lemma advances_frame: "tasks db' = tasks db \<Longrightarrow> advances_db db db'"
  by (simp add: advances_db_def)

lemma advances_release:
  assumes "t_state t \<in> LIVE_STATES"
  shows "advances t (release st code t)" "advances t ((release st code t)\<lparr>t_result_run := run\<rparr>)"
  using assms by (auto simp: advances_def same_pins_def release_def LIVE_STATES_def TERMINAL_STATES_def
      OPEN_STATES_def)

lemma advances_lease:
  assumes "t_state t \<in> LIVE_STATES"
  shows "advances t (leased_row worker t e)"
  using assms by (auto simp: advances_def same_pins_def leased_row_def LIVE_STATES_def TERMINAL_STATES_def
      OPEN_STATES_def)

lemma advances_leased_updates:
  "t_state t = TS_LEASED \<Longrightarrow>
     advances t (t\<lparr>t_state := TS_RUNNING, t_row_version := t_row_version t + 1\<rparr>)"
  "t_state t \<in> LEASED_STATES \<Longrightarrow> advances t (t\<lparr>t_lease_expires_at := e\<rparr>)"
  by (auto simp: advances_def same_pins_def LEASED_STATES_def TERMINAL_STATES_def OPEN_STATES_def)

lemma advances_retried: "advances t (t\<lparr>t_retried_from := x\<rparr>)"
  by (simp add: advances_def same_pins_def forget_retry_def)

lemmas advances_intros = advances_release advances_lease advances_leased_updates advances_retried

lemma lease_task_row:
  "lease_task k worker again t now db1 = (db', out) \<Longrightarrow>
     map_of (tasks db') k = Some (leased_row worker t (now + lease_microseconds))
     \<and> out = Some (k, t_lease_generation t + 1)"
  by (auto simp: lease_task_def Let_def leased_row_def)

lemma claim_failure_row:
  "map_of (tasks (claim_failure k code t now db)) k = Some (release TS_FAILED (Some code) t)"
  by (simp add: claim_failure_def)

definition progresses :: "task_db \<Rightarrow> task_db \<Rightarrow> bool" where
  "progresses db db' \<longleftrightarrow>
     advances_db db db' \<and> (\<forall>k. map_of (tasks db') k \<noteq> None \<longrightarrow> map_of (tasks db) k \<noteq> None)"

lemma progressesD: "progresses db db' \<Longrightarrow> advances_db db db'"
  by (simp add: progresses_def)

lemma progresses_frame: "tasks db' = tasks db \<Longrightarrow> progresses db db'"
  by (simp add: progresses_def advances_frame)

lemma progresses_refl [simp]: "progresses db db"
  by (simp add: progresses_frame)

lemma start_advances:
  assumes "start_agent_task ses k worker gen input now db = Inr db'"
  shows "progresses db db'"
proof -
  from assms obtain t db2 where t: "map_of (tasks db) k = Some t" "t_state t = TS_LEASED"
    and u: "update_execution k gen (\<lambda>x. Inr (x\<lparr>x_status := XS_RUNNING, x_input_sha256 := Some input,
                      x_started_at := Some now\<rparr>))
              (set_task k (t\<lparr>t_state := TS_RUNNING, t_row_version := t_row_version t + 1\<rparr>) db) = Inr db2"
    and db': "tasks db' = tasks db2"
    by (auto simp: start_agent_task_def Let_def leased_task_Inr holds_lease_def split: if_splits)
  note o = only_executionsD [OF update_execution_only(1) [OF u]]
  show ?thesis unfolding progresses_def advances_db_def db' o(1)
    using t advances_leased_updates(1) [OF t(2)] by auto
qed

lemma set_task_advances:
  assumes "map_of (tasks db) k = Some t" and "advances t t'" and "tasks db' = tasks (set_task k t' db1)"
    and "tasks db1 = tasks db"
  shows "progresses db db'"
proof -
  have "map_of (tasks db') k' = (if k' = k then Some t' else map_of (tasks db) k')" for k'
    using assms(3,4) by simp
  with assms(1,2) show ?thesis by (auto simp: progresses_def advances_db_def)
qed

lemma heartbeat_advances:
  assumes "heartbeat_agent_task ses k worker gen now db = Inr (db', e)"
  shows "progresses db db'"
proof -
  from assms obtain t where t: "map_of (tasks db) k = Some t" "t_state t \<in> LEASED_STATES"
    and db': "tasks db' = tasks (set_task k (t\<lparr>t_lease_expires_at := Some e\<rparr>) db)"
    by (auto simp: heartbeat_agent_task_def Let_def leased_task_Inr holds_lease_def)
  show ?thesis by (rule set_task_advances [OF t(1) advances_leased_updates(2) [OF t(2)] db' refl])
qed

lemma update_execution_tasks: "update_execution k gen f db = Inr db1 \<Longrightarrow> tasks db1 = tasks db"
  and close_open_tasks: "close_open_execution k gen now st again c db = Inr db1 \<Longrightarrow> tasks db1 = tasks db"
  using only_executionsD(1) update_execution_only(1) close_open_only(1) by blast+

lemma fail_advances:
  assumes "fail_agent_task ses k worker gen code again fallback now db = Inr (db', st)"
  shows "progresses db db'"
proof -
  from assms obtain t db1 code' st' where t: "map_of (tasks db) k = Some t" "t_state t \<in> LEASED_STATES"
    and db': "tasks db' = tasks (set_task k (release st' code' t) db1)" "tasks db1 = tasks db"
    by (auto simp: fail_agent_task_def Let_def leased_task_Inr holds_lease_def dest: update_execution_tasks
        split: if_splits)
  show ?thesis by (rule set_task_advances [OF t(1) advances_release(1) [OF leased_live [OF t(2)]] db'])
qed

lemma cancel_advances:
  assumes "cancel_agent_task cat ses r now db = Inr (db', out)"
  shows "progresses db db'"
proof (cases "map_of (idempotency db) (cancel_key r)")
  case (Some prior)
  with assms show ?thesis by (auto simp: cancel_agent_task_def Let_def split: if_splits)
next
  case None
  with assms obtain t db1 where t: "map_of (tasks db) (xq_org r, xq_task r) = Some t" "t_state t \<in> LIVE_STATES"
    and db': "tasks db' = tasks (set_task (xq_org r, xq_task r) (release TS_CANCELLED (Some ''cancelled'') t) db1)"
      "tasks db1 = tasks db"
    by (auto simp: cancel_agent_task_def Let_def dest: close_open_tasks split: option.splits if_splits)
  show ?thesis by (rule set_task_advances [OF t(1) advances_release(1) [OF t(2)] db'])
qed

lemma finalize_advances:
  assumes "finalize_agent_task_result cat ok ses k worker gen q now db = Inr (db', st)"
  shows "progresses db db'"
  using assms
proof (cases rule: finalize_cases)
  case (recorded t db1 db2)
  have "tasks db2 = tasks db"
    using update_execution_tasks [OF recorded(6)] persist_only_runs(1) [OF recorded(5)] by simp
  moreover from recorded(2) have "t_state t \<in> LIVE_STATES" by (simp add: holds_lease_def leased_live)
  ultimately show ?thesis using set_task_advances [OF recorded(1) advances_release(2), of db' _ _ _ db2]
    by (auto simp: recorded(8))
qed simp

lemma claim_advances:
  assumes inv: "task_invariant db" and c: "claim_agent_task cat locked worker now db = Inr (db', out)"
  shows "progresses db db'"
  using inv c
proof (cases rule: claim_cases)
  case (unpinned k t)
  have "tasks db' = tasks (set_task k (release TS_FAILED (Some ''skill_pin_invalid'') t) db)"
    by (simp add: unpinned claim_failure_def)
  then show ?thesis by (rule set_task_advances [OF unpinned(2) advances_release(1) [OF unpinned(3)]]) simp
next
  case (exhausted k t e db1)
  have "tasks db' = tasks (set_task k (release TS_FAILED (Some ''lease_expired'') t) db1)"
    by (simp add: exhausted claim_failure_def)
  then show ?thesis
    by (rule set_task_advances [OF exhausted(2) advances_release(1) [OF leased_live [OF exhausted(3)]]])
      (rule close_open_tasks [OF exhausted(7)])
next
  case (reclaimed k t e db1)
  have "tasks db' = tasks (set_task k (leased_row worker t (now + lease_microseconds)) db1)"
    using reclaimed(9) by (auto simp: lease_task_def Let_def)
  then show ?thesis
    by (rule set_task_advances [OF reclaimed(2) advances_lease [OF leased_live [OF reclaimed(3)]]])
      (rule close_open_tasks [OF reclaimed(8)])
next
  case (fresh k t)
  have "tasks db' = tasks (set_task k (leased_row worker t (now + lease_microseconds)) db)"
    using fresh(5) by (auto simp: lease_task_def Let_def)
  moreover have "t_state t \<in> LIVE_STATES" by (simp add: fresh LIVE_STATES_def)
  ultimately show ?thesis by (intro set_task_advances [OF fresh(2) advances_lease _ refl])
qed (simp_all add: progresses_frame)

lemma insert_task_rows:
  "insert_task r t now db = Inr (db', out) \<Longrightarrow>
     map_of (tasks db) (cq_org r, cq_task r) = None
     \<and> tasks db' = tasks db @ [((cq_org r, cq_task r), t)] \<and> out = (Some t, False)"
  by (auto simp: insert_task_def Let_def split: if_splits)

lemma create_rows:
  assumes "create_agent_task cat ses r now db = Inr (db', out)"
  obtains (replay) "tasks db' = tasks db"
  | (created) pin row c where "admit_task cat r db = Inr (pin, row, c)"
      "map_of (tasks db) (cq_org r, cq_task r) = None"
      "tasks db' = tasks db @ [((cq_org r, cq_task r), new_task r pin row now)]"
      "map_of (idempotency db) (create_key r) = None"
proof (cases "map_of (idempotency db) (create_key r)")
  case (Some prior)
  with assms replay show ?thesis by (auto simp: create_agent_task_def split: option.splits if_splits)
next
  case None
  with assms created show ?thesis
    by (auto simp: create_agent_task_def create_fresh_def dest!: insert_task_rows)
qed

lemma advances_snoc: "tasks db' = tasks db @ [(k, t)] \<Longrightarrow> advances_db db db'"
  by (auto simp: advances_db_def map_add_def)

lemma create_advances: "create_agent_task cat ses r now db = Inr (db', out) \<Longrightarrow> advances_db db db'"
  by (erule create_rows) (auto intro: advances_frame advances_snoc)

lemma mark_retried_advances: "advances_db db (mark_retried k source db)"
  unfolding mark_retried_def
  by (cases "map_of (tasks db) k") (auto simp: advances_db_def advances_retried)

lemma retry_advances:
  assumes "retry_agent_task cat inner ses r now db = Inr (db', out)"
  shows "advances_db db db'"
  using assms
proof (cases rule: retry_cases)
  case (created t db1 c again created_id)
  have "advances_db db1 db'"
    using mark_retried_advances [of db1 "(rq_org r, created_id)" "rq_source r"]
    by (simp add: created(6) advances_db_def)
  then show ?thesis by (rule advances_db_trans [OF create_advances [OF created(4)]])
qed simp

lemma step_advances:
  assumes "task_step db db'" and inv: "task_invariant db"
  shows "advances_db db db'"
  using assms(1)
proof (cases rule: task_step.cases)
  case step_claim
  with inv show ?thesis using claim_advances progressesD by blast
qed (blast intro: create_advances retry_advances advances_frame progressesD
      dest: cancel_advances start_advances heartbeat_advances fail_advances finalize_advances)+

lemma steps_advance: "task_step\<^sup>*\<^sup>* db db' \<Longrightarrow> task_invariant db \<Longrightarrow> advances_db db db'"
  by (induction rule: rtranclp_induct) (auto intro: advances_db_trans step_advances steps_keep)

lemma steps_advance_row:
  assumes "task_reachable db" "task_step\<^sup>*\<^sup>* db db'" "map_of (tasks db) k = Some t"
  obtains t' where "map_of (tasks db') k = Some t'" "advances t t'"
  using steps_advance [OF assms(2) reachable_invariant [OF assms(1)]] assms(3) that
  unfolding advances_db_def by blast

section \<open>Event logs\<close>

text \<open>Events are only appended, to the log of one task at a time.\<close>

definition appends :: "task_db \<Rightarrow> task_db \<Rightarrow> bool" where
  "appends db db' \<longleftrightarrow> (\<exists>es. events db' = events db @ es)"

lemma appends_refl [simp]: "appends db db"
  by (simp add: appends_def)

lemma appends_eq: "events db' = events db \<Longrightarrow> appends db db'"
  by (simp add: appends_def)

lemma appends_event: "events db1 = events db \<Longrightarrow> appends db (append_agent_task_event k c s p n r now db1)"
  by (simp add: appends_def append_agent_task_event_def)

lemma appends_event2 [simp]: "appends db db1 \<Longrightarrow> appends db (append_agent_task_event k c s p n r now db1)"
  by (auto simp: appends_def append_agent_task_event_def)

lemma appends_statements [simp]:
  "appends db (set_task k t db1) = appends db db1"
  "appends db (set_dispatch k a db1) = appends db db1"
  "appends db (delete_dispatch k db1) = appends db db1"
  "appends db (db1\<lparr>idempotency := i\<rparr>) = appends db db1"
  "appends db (db1\<lparr>executions := x\<rparr>) = appends db db1"
  "appends db (mark_retried k source db1) = appends db db1"
  "appends (set_task k t db) db1 = appends db db1"
  by (simp_all add: appends_def mark_retried_def split: option.splits)

lemma update_execution_appends: "update_execution k gen f db = Inr db1 \<Longrightarrow> appends db db1"
  and close_open_appends: "close_open_execution k gen now st again c db = Inr db1 \<Longrightarrow> appends db db1"
  using only_executionsD(2) update_execution_only(1) close_open_only(1) by (blast intro: appends_eq)+

lemma create_appends: "create_agent_task cat ses r now db = Inr (db', out) \<Longrightarrow> appends db db'"
  by (auto simp: create_agent_task_def create_fresh_def insert_task_def Let_def appends_def
      append_agent_task_event_def split: option.splits if_splits)

lemma cancel_appends: "cancel_agent_task cat ses r now db = Inr (db', out) \<Longrightarrow> appends db db'"
  by (auto simp: cancel_agent_task_def Let_def dest!: close_open_appends split: option.splits if_splits)

lemma start_appends: "start_agent_task ses k worker gen input now db = Inr db' \<Longrightarrow> appends db db'"
  by (auto simp: start_agent_task_def Let_def dest!: update_execution_appends split: if_splits)

lemma heartbeat_appends: "heartbeat_agent_task ses k worker gen now db = Inr (db', e) \<Longrightarrow> appends db db'"
  by (auto simp: heartbeat_agent_task_def Let_def)

lemma fail_appends:
  "fail_agent_task ses k worker gen code again fallback now db = Inr (db', st) \<Longrightarrow> appends db db'"
  by (auto simp: fail_agent_task_def Let_def dest!: update_execution_appends split: if_splits)

lemma finalize_appends:
  assumes "finalize_agent_task_result cat ok ses k worker gen q now db = Inr (db', st)"
  shows "appends db db'"
  using assms
proof (cases rule: finalize_cases)
  case (recorded t db1 db2)
  have "appends db db2" using update_execution_appends [OF recorded(6)] persist_only_runs(3) [OF recorded(5)]
    by (simp add: appends_def)
  then show ?thesis by (simp add: recorded(8))
qed simp

lemma claim_appends:
  assumes inv: "task_invariant db" and c: "claim_agent_task cat locked worker now db = Inr (db', out)"
  shows "appends db db'"
  using inv c
proof (cases rule: claim_cases)
  case (reclaimed k t e db1)
  from close_open_appends [OF reclaimed(8)] reclaimed(9) show ?thesis by (auto simp: lease_task_def Let_def)
next
  case (fresh k t)
  from fresh(5) show ?thesis by (auto simp: lease_task_def Let_def)
next
  case (exhausted k t e db1)
  from close_open_appends [OF exhausted(7)] show ?thesis by (simp add: exhausted claim_failure_def)
qed (simp_all add: claim_failure_def)

lemma retry_appends:
  assumes "retry_agent_task cat inner ses r now db = Inr (db', out)"
  shows "appends db db'"
  using assms
proof (cases rule: retry_cases)
  case (created t db1 c again created_id)
  from create_appends [OF created(4)] show ?thesis by (simp add: created(6))
qed simp

lemma step_appends_events:
  assumes "task_step db db'" and inv: "task_invariant db"
  shows "appends db db'"
  using assms(1)
proof (cases rule: task_step.cases)
  case step_claim
  with inv show ?thesis using claim_appends by blast
qed (blast intro: create_appends cancel_appends start_appends heartbeat_appends fail_appends
      finalize_appends retry_appends appends_eq)+

text \<open>The log of a task, as a growing log over the steps from reachable states.\<close>

definition live_step :: "task_db \<Rightarrow> task_db \<Rightarrow> bool" where
  "live_step db db' \<longleftrightarrow> task_reachable db \<and> task_step db db'"

lemma live_steps:
  assumes "task_reachable db" and "task_step\<^sup>*\<^sup>* db db'"
  shows "live_step\<^sup>*\<^sup>* db db'"
  using assms(2)
proof (induction rule: rtranclp_induct)
  case (step db1 db2)
  with reachable_step [OF assms(1)] have "live_step db1 db2" by (simp add: live_step_def)
  with step show ?case by (meson rtranclp.rtrancl_into_rtrancl)
qed simp

interpretation task_log: growing_log live_step "events_of k" for k
proof
  fix db db' assume "live_step db db'"
  then have "appends db db'" using step_appends_events reachable_invariant by (simp add: live_step_def)
  then show "\<exists>es. events_of k db' = events_of k db @ es" by (auto simp: appends_def events_of_rows)
qed

section \<open>At most one open task\<close>

definition one_open :: "task_db \<Rightarrow> bool" where
  "one_open db \<longleftrightarrow>
     (\<forall>k k' t t'. map_of (tasks db) k = Some t \<longrightarrow> map_of (tasks db) k' = Some t' \<longrightarrow> fst k = fst k' \<longrightarrow>
        t_case t = t_case t' \<longrightarrow> t_case_revision t = t_case_revision t' \<longrightarrow>
        t_state t \<in> OPEN_STATES \<longrightarrow> t_state t' \<in> OPEN_STATES \<longrightarrow> k = k')"

text \<open>A step that adds no row keeps it, and a creation adds a row only where no open task is.\<close>

lemma one_open_advances:
  assumes "one_open db" and adv: "advances_db db db'"
    and keys: "\<And>k. map_of (tasks db') k \<noteq> None \<Longrightarrow> map_of (tasks db) k \<noteq> None"
  shows "one_open db'"
proof -
  have before: "\<exists>t. map_of (tasks db) k = Some t \<and> t_case t = t_case t' \<and> t_case_revision t = t_case_revision t'
      \<and> t_state t \<in> OPEN_STATES"
    if "map_of (tasks db') k = Some t'" "t_state t' \<in> OPEN_STATES" for k t'
  proof -
    from keys that(1) obtain t where t: "map_of (tasks db) k = Some t" by fastforce
    with adv that(1) have "advances t t'" unfolding advances_db_def by (metis option.inject)
    with t that(2) show ?thesis by (auto simp: advances_def same_pins_def)
  qed
  show ?thesis unfolding one_open_def
  proof (intro allI impI)
    fix k k' t t'
    assume "map_of (tasks db') k = Some t" "map_of (tasks db') k' = Some t'" "fst k = fst k'"
      "t_case t = t_case t'" "t_case_revision t = t_case_revision t'"
      "t_state t \<in> OPEN_STATES" "t_state t' \<in> OPEN_STATES"
    with before [of k t] before [of k' t'] assms(1) show "k = k'" unfolding one_open_def by metis
  qed
qed

lemma admit_task_guards:
  assumes "admit_task cat r db = Inr (pin, row, c)"
  shows "\<not> list_ex (\<lambda>(k, t). live_task_for r k t) (tasks db)"
    and "\<not> list_ex (\<lambda>(k, t). same_operation r pin k t) (tasks db)"
    and "resolve_skill_pin cat r = Inr pin" and "\<not> invalid_task_pins r"
    and "advisor_assigned cat (cq_org r) (cq_case r) (cq_actor r)" and "sc_state c = CS_PLANNING"
proof -
  have valid: "\<not> invalid_task_pins r" and adv: "advisor_assigned cat (cq_org r) (cq_case r) (cq_actor r)"
    using assms by (simp_all add: admit_task_def split: if_splits)
  note u = assms [unfolded admit_task_def, simplified valid adv if_False not_True_eq_False]
  from u obtain cs where cs: "map_of (cases db) (cq_org r, cq_case r) = Some cs"
    by (cases "map_of (cases db) (cq_org r, cq_case r)") auto
  from u cs obtain row' where row': "case_revision_of cat (cq_org r) (cq_case r) (cq_revision r) = Some row'"
    by (cases "case_revision_of cat (cq_org r) (cq_case r) (cq_revision r)") (auto split: if_splits)
  from u cs row' have g: "resolve_skill_pin cat r = Inr pin \<and> check_case_state r cs = Inr c
      \<and> \<not> list_ex (\<lambda>(k, t). live_task_for r k t) (tasks db)
      \<and> \<not> list_ex (\<lambda>(k, t). same_operation r pin k t) (tasks db)"
    by (simp split: if_splits) (elim exE conjE, simp)
  then show "\<not> list_ex (\<lambda>(k, t). live_task_for r k t) (tasks db)"
    "\<not> list_ex (\<lambda>(k, t). same_operation r pin k t) (tasks db)" "resolve_skill_pin cat r = Inr pin" by simp_all
  from g show "sc_state c = CS_PLANNING" by (auto simp: check_case_state_def split: if_splits)
qed (use assms in \<open>simp_all add: admit_task_def split: if_splits\<close>)

lemma one_open_progresses: "one_open db \<Longrightarrow> progresses db db' \<Longrightarrow> one_open db'"
  unfolding progresses_def by (rule one_open_advances) blast+

lemma one_open_snoc:
  assumes inv: "task_invariant db" and one: "one_open db"
    and c: "create_agent_task cat ses r now db = Inr (db', out)"
  shows "one_open db'"
  using c
proof (cases rule: create_rows)
  case replay
  with one show ?thesis by (simp add: one_open_progresses progresses_frame)
next
  case (created pin row c)
  let ?n = "(cq_org r, cq_task r)"
  have rows: "map_of (tasks db') k = (if k = ?n then Some (new_task r pin row now) else map_of (tasks db) k)" for k
    using created(2) by (cases "map_of (tasks db) k") (auto simp: created(3) map_add_def)
  have no: "\<not> (fst k = cq_org r \<and> t_case t = cq_case r \<and> t_case_revision t = cq_revision r \<and> t_state t \<in> OPEN_STATES)"
    if "map_of (tasks db) k = Some t" for k t
    using admit_task_guards(1) [OF created(1)] map_of_SomeD [OF that]
    by (auto simp: list_ex_iff live_task_for_def OPEN_STATES_def)
  show ?thesis unfolding one_open_def
  proof (intro allI impI)
    fix k k' t t'
    assume a: "map_of (tasks db') k = Some t" "map_of (tasks db') k' = Some t'" "fst k = fst k'"
      "t_case t = t_case t'" "t_case_revision t = t_case_revision t'"
      "t_state t \<in> OPEN_STATES" "t_state t' \<in> OPEN_STATES"
    consider "k = ?n" "k' = ?n" | "k = ?n" "k' \<noteq> ?n" | "k \<noteq> ?n" "k' = ?n" | "k \<noteq> ?n" "k' \<noteq> ?n" by blast
    then show "k = k'"
    proof cases
      case 2 with a rows no [of k' t'] show ?thesis by (auto simp: new_task_def)
    next
      case 3 with a rows no [of k t] show ?thesis by (auto simp: new_task_def)
    next
      case 4 with a rows one show ?thesis unfolding one_open_def by metis
    qed simp
  qed
qed

lemma step_one_open:
  assumes "task_step db db'" and inv: "task_invariant db" and one: "one_open db"
  shows "one_open db'"
  using assms(1)
proof (cases rule: task_step.cases)
  case step_create
  with inv one show ?thesis using one_open_snoc by blast
next
  case (step_retry cat inner ses r now out)
  from step_retry show ?thesis
  proof (cases rule: retry_cases)
    case (created t db1 c again created_id)
    have "one_open db1" by (rule one_open_snoc [OF inv one created(4)])
    moreover have "progresses db1 (mark_retried (rq_org r, created_id) (rq_source r) db1)"
      using mark_retried_advances [of db1 "(rq_org r, created_id)" "rq_source r"]
      by (auto simp: progresses_def mark_retried_def split: option.splits if_splits)
    ultimately have "one_open (mark_retried (rq_org r, created_id) (rq_source r) db1)"
      by (rule one_open_progresses)
    then show ?thesis by (simp add: created(6) one_open_def)
  qed (simp add: one)
next
  case step_claim
  with inv one show ?thesis using claim_advances one_open_progresses by blast
qed (blast intro: one_open_progresses [OF one] cancel_advances start_advances heartbeat_advances fail_advances
      finalize_advances progresses_frame)+

lemma reachable_one_open: "task_reachable db \<Longrightarrow> one_open db"
  unfolding task_reachable_def
proof (induction rule: rtranclp_induct)
  case base
  show ?case by (simp add: one_open_def empty_db_def)
next
  case (step db db')
  then have "task_invariant db" using reachable_invariant by (simp add: task_reachable_def)
  with step step_one_open show ?case by blast
qed

end
