(* ===== verification/Task_Properties.thy ===== *)
theory Task_Properties
  imports Task_System
begin

text \<open>
  What the task authority guarantees: the invariant, leases, terminal states, the
  event log, idempotency, claims, failures and recovery, and the places where the
  code departs from what it means to do.  The witnesses run one task of a small
  organization through creation, claim, start and end.
\<close>

section \<open>A concrete history\<close>

definition demo_hash :: "char \<Rightarrow> sha" where
  "demo_hash c = replicate 64 c"

definition demo_catalog :: catalog where
  "demo_catalog = \<lparr>advisor_assigned = (\<lambda>org case_id actor. org = 1 \<and> case_id = 10 \<and> actor = 5),
     skill_definition = (\<lambda>org. Some 100), latest_activation = (\<lambda>org d. Some (200, 1, 300)),
     skill_version = (\<lambda>org d v. Some \<lparr>sv_planning_runtime = True, sv_manifest = JObj [],
                        sv_binding_sha256 = Some (demo_hash CHR ''b'')\<rparr>),
     pin_registered = (\<lambda>org p. True), source_pack_exists = (\<lambda>org p v. v = 1),
     baseline_manifest_present = (\<lambda>org p. True),
     case_revision_of = (\<lambda>org c v. Some \<lparr>cr_intake = Some ''2027-02'', cr_superseded_run = None\<rparr>),
     controlled_intake_source = (\<lambda>org p v i. Inl NV027), mixed_approved = (\<lambda>org c v p w. False)\<rparr>"

definition demo_session :: session where
  "demo_session = \<lparr>ses_organization = 1, ses_actor = 5, ses_role = ''advisor''\<rparr>"

definition demo_create :: create_request where
  "demo_create = \<lparr>cq_org = 1, cq_actor = 5, cq_case = 10, cq_task = 50,
     cq_operation = GENERATE_PLANNING_RUN, cq_revision = 1, cq_pack = BASELINE_SOURCE_PACK_ID,
     cq_pack_version = 1, cq_policy = ''m3a-policy-v1'', cq_manifest = JObj [],
     cq_request_hash = demo_hash CHR ''1'', cq_key_hash = demo_hash CHR ''2''\<rparr>"

definition demo_start :: task_db where
  "demo_start = empty_db\<lparr>cases := [((1, 10), \<lparr>sc_current_revision = 1, sc_state = CS_PLANNING\<rparr>)]\<rparr>"

definition demo_created :: task_db where
  "demo_created = fst (projr (create_agent_task demo_catalog demo_session demo_create 1000 demo_start))"

definition demo_claimed :: task_db where
  "demo_claimed = fst (projr (claim_agent_task demo_catalog [] ''w1'' 2000 demo_created))"

definition demo_reclaimed :: task_db where
  "demo_reclaimed = fst (projr (claim_agent_task demo_catalog [] ''w2'' 70000000 demo_claimed))"

definition demo_failed :: task_db where
  "demo_failed = fst (projr (fail_agent_task demo_session (1, 50) ''w1'' 1 ''policy_rejected'' False False
     3000 demo_claimed))"

lemmas demo_defs = demo_start_def demo_created_def demo_claimed_def demo_reclaimed_def demo_failed_def

lemma projr_ok: "is_ok r \<Longrightarrow> r = Inr (fst (projr r), snd (projr r))"
  by (cases r) auto

lemma demo_ok:
  "is_ok (create_agent_task demo_catalog demo_session demo_create 1000 demo_start)"
  "is_ok (claim_agent_task demo_catalog [] ''w1'' 2000 demo_created)"
  "is_ok (claim_agent_task demo_catalog [] ''w2'' 70000000 demo_claimed)"
  "is_ok (fail_agent_task demo_session (1, 50) ''w1'' 1 ''policy_rejected'' False False 3000 demo_claimed)"
  by code_simp+

lemmas demo_runs = demo_ok [THEN projr_ok]

lemma demo_reachable:
  "task_reachable demo_start" "task_reachable demo_created" "task_reachable demo_claimed"
  "task_reachable demo_reclaimed" "task_reachable demo_failed"
proof -
  have "task_step empty_db demo_start"
    by (rule step_environment) (simp_all add: demo_start_def empty_db_def)
  then show s: "task_reachable demo_start" by (simp add: task_reachable_def)
  have "task_step demo_start demo_created"
    unfolding demo_created_def by (rule step_create [OF demo_runs(1)])
  with s show c: "task_reachable demo_created" by (auto intro: reachable_step)
  have "task_step demo_created demo_claimed"
    unfolding demo_claimed_def by (rule step_claim [OF demo_runs(2)])
  with c show l: "task_reachable demo_claimed" by (auto intro: reachable_step)
  have "task_step demo_claimed demo_reclaimed"
    unfolding demo_reclaimed_def by (rule step_claim [OF demo_runs(3)])
  with l show "task_reachable demo_reclaimed" by (auto intro: reachable_step)
  have "task_step demo_claimed demo_failed"
    unfolding demo_failed_def by (rule step_fail [OF demo_runs(4)])
  with l show "task_reachable demo_failed" by (auto intro: reachable_step)
qed

section \<open>The state of a task\<close>

text \<open>C23: In every reachable state, whatever the order of calls, clocks and catalogs, a task agrees
  with its lease, its executions, its events and its dispatch row: a lease exists exactly in the leased
  states, attempts and generations count the executions, the row version is bounded by them, all
  executions but the last are closed, a task is in the dispatch table exactly while it is live, and its
  events are numbered from one with the last one describing its state.\<close>

theorem task_always_consistent:
  assumes "task_reachable db" and "map_of (tasks db) k = Some t"
  shows "view_ok t (executions_of k db) (events_of k db) (map_of (dispatch db) k)"
  using assms by (rule reachable_view)

lemma task_always_consistent_witness:
  "view_ok (the (map_of (tasks demo_claimed) (1, 50))) (executions_of (1, 50) demo_claimed)
     (events_of (1, 50) demo_claimed) (map_of (dispatch demo_claimed) (1, 50))
   \<and> t_state (the (map_of (tasks demo_claimed) (1, 50))) = TS_LEASED"
proof -
  have t: "map_of (tasks demo_claimed) (1, 50) = Some (the (map_of (tasks demo_claimed) (1, 50)))"
    by code_simp
  have "t_state (the (map_of (tasks demo_claimed) (1, 50))) = TS_LEASED" by code_simp
  with task_always_consistent [OF demo_reachable(3) t] show ?thesis by blast
qed

text \<open>The public status that the database writes with the last event of a task is the status the
  Python projection computes from its state.\<close>

theorem public_status_is_projection:
  assumes "task_reachable db" and "map_of (tasks db) k = Some t"
  shows "ev_status (last (events_of k db)) = project_task_status (t_state t) True"
  using reachable_view [OF assms] by (simp add: view_ok_def log_ok_def)

lemma public_status_is_projection_witness:
  "ev_status (last (events_of (1, 50) demo_failed)) = VIEW_FAILED"
proof -
  have t: "map_of (tasks demo_failed) (1, 50) = Some (the (map_of (tasks demo_failed) (1, 50)))"
    by code_simp
  have "t_state (the (map_of (tasks demo_failed) (1, 50))) = TS_FAILED" by code_simp
  with public_status_is_projection [OF demo_reachable(5) t] show ?thesis
    by (simp add: project_task_status_def)
qed

text \<open>C28: A task is tried at most three times: it never has more than three executions, and its row is
  never written more than ten times.\<close>

theorem attempts_bounded:
  assumes "task_reachable db" and "map_of (tasks db) k = Some t"
  shows "length (executions_of k db) \<le> 3 \<and> t_attempt_count t = int (length (executions_of k db))
    \<and> t_row_version t \<le> 10"
  using reachable_view [OF assms]
  by (auto simp: view_ok_def lease_ok_def executions_ok_def version_ok_def split: if_splits)

lemma attempts_bounded_witness:
  "length (executions_of (1, 50) demo_reclaimed) \<le> 3
   \<and> t_row_version (the (map_of (tasks demo_reclaimed) (1, 50))) \<le> 10
   \<and> length (executions_of (1, 50) demo_reclaimed) = 2"
proof -
  have t: "map_of (tasks demo_reclaimed) (1, 50) = Some (the (map_of (tasks demo_reclaimed) (1, 50)))"
    by code_simp
  have "length (executions_of (1, 50) demo_reclaimed) = 2" by code_simp
  with attempts_bounded [OF demo_reachable(4) t] show ?thesis by blast
qed

section \<open>Leases\<close>

lemma not_holding_rejected:
  assumes "\<And>t. map_of (tasks db) k = Some t \<Longrightarrow> \<not> holds_lease LEASED_STATES t worker gen now"
    and "assert_context ses (fst k) = Inr ()"
  shows "is_sha256 input \<Longrightarrow> start_agent_task ses k worker gen input now db = Inl NV010"
    and "heartbeat_agent_task ses k worker gen now db = Inl NV010"
    and "fallback = (code = ''fallback_authority'') \<Longrightarrow>
           fail_agent_task ses k worker gen code again fallback now db = Inl NV010"
    and "(\<And>t. map_of (tasks db) k = Some t \<Longrightarrow> t_lease_generation t \<noteq> gen) \<Longrightarrow>
           finalize_agent_task_result cat output_accepted ses k worker gen q now db = Inl NV010"
proof -
  from assms(1) have "leased_task LEASED_STATES k worker gen now db = Inl NV010"
    "leased_task {TS_LEASED} k worker gen now db = Inl NV010"
    by (auto simp: leased_task_def holds_lease_def LEASED_STATES_def split: option.splits)
  with assms(2) show "is_sha256 input \<Longrightarrow> start_agent_task ses k worker gen input now db = Inl NV010"
    "heartbeat_agent_task ses k worker gen now db = Inl NV010"
    "fallback = (code = ''fallback_authority'') \<Longrightarrow>
       fail_agent_task ses k worker gen code again fallback now db = Inl NV010"
    by (simp_all add: start_agent_task_def heartbeat_agent_task_def fail_agent_task_def)
  show "finalize_agent_task_result cat output_accepted ses k worker gen q now db = Inl NV010"
    if "\<And>t. map_of (tasks db) k = Some t \<Longrightarrow> t_lease_generation t \<noteq> gen"
    using assms that by (simp add: finalize_agent_task_result_def split: option.splits)
qed

text \<open>C24: A lease that was lost stays lost.  Once the generation of a task has passed that of a worker,
  each of the four calls that a lease admits - start, heartbeat, failure and result, a repeated result included - is
  refused with NV010, in every state the system can still reach.\<close>

theorem lost_lease_stays_lost:
  assumes "task_reachable db" and "task_step\<^sup>*\<^sup>* db db'"
    and "map_of (tasks db) k = Some t" and "gen < t_lease_generation t"
    and "assert_context ses (fst k) = Inr ()" and "is_sha256 input"
    and "fallback = (code = ''fallback_authority'')"
  shows "start_agent_task ses k worker gen input now db' = Inl NV010
    \<and> heartbeat_agent_task ses k worker gen now db' = Inl NV010
    \<and> fail_agent_task ses k worker gen code again fallback now db' = Inl NV010
    \<and> finalize_agent_task_result cat output_accepted ses k worker gen q now db' = Inl NV010"
proof -
  obtain t' where t': "map_of (tasks db') k = Some t'" "advances t t'"
    using steps_advance_row [OF assms(1-3)] .
  with assms(4) have "\<not> holds_lease LEASED_STATES t'' worker gen now" if "map_of (tasks db') k = Some t''" for t''
    using that by (auto simp: holds_lease_def advances_def)
  note no = not_holding_rejected [OF this assms(5)]
  have "t_lease_generation t'' \<noteq> gen" if "map_of (tasks db') k = Some t''" for t''
    using that t' assms(4) by (simp add: advances_def)
  then show ?thesis using no(1) [OF _ assms(6)] no(2) no(3) [OF _ assms(7)] no(4) by blast
qed

lemma lost_lease_stays_lost_witness:
  "heartbeat_agent_task demo_session (1, 50) ''w1'' 1 70000001 demo_reclaimed = Inl NV010
   \<and> is_ok (heartbeat_agent_task demo_session (1, 50) ''w1'' 1 3000 demo_claimed)"
proof -
  have t: "map_of (tasks demo_reclaimed) (1, 50) = Some (the (map_of (tasks demo_reclaimed) (1, 50)))"
    "1 < t_lease_generation (the (map_of (tasks demo_reclaimed) (1, 50)))" by code_simp+
  have ses: "assert_context demo_session (fst (1, 50)) = Inr ()" by code_simp
  have "is_ok (heartbeat_agent_task demo_session (1, 50) ''w1'' 1 3000 demo_claimed)" by code_simp
  with lost_lease_stays_lost [OF demo_reachable(4) rtranclp.rtrancl_refl t ses, where
      input = "replicate 64 CHR ''a''" and code = "''unknown''" and worker = "''w1''" and now = 70000001
      and fallback = False and again = False]
  show ?thesis by (simp add: hex_digits_def)
qed

text \<open>A lease has one holder: two workers that can both renew, fail or finish the same task in the
  same state are the same worker with the same generation.\<close>

theorem lease_has_one_holder:
  assumes "heartbeat_agent_task ses k w gen now db = Inr (db1, e)"
    and "fail_agent_task ses' k w' gen' code again fallback now' db = Inr (db2, st)"
  shows "w = w' \<and> gen = gen'"
proof -
  from assms(1) obtain t where t: "map_of (tasks db) k = Some t" "holds_lease LEASED_STATES t w gen now"
    by (auto simp: heartbeat_agent_task_def leased_task_Inr)
  moreover from assms(2) obtain t' where "map_of (tasks db) k = Some t'"
    "holds_lease LEASED_STATES t' w' gen' now'"
    by (auto simp: fail_agent_task_def leased_task_Inr split: if_splits)
  ultimately show ?thesis by (simp add: holds_lease_def)
qed

lemma lease_has_one_holder_witness:
  "(''w1'', 1 :: int) = (''w1'', 1) \<and> is_ok (heartbeat_agent_task demo_session (1, 50) ''w1'' 1 3000 demo_claimed)
   \<and> fail_agent_task demo_session (1, 50) ''w2'' 1 ''unknown'' False False 3000 demo_claimed = Inl NV010"
proof -
  have h: "is_ok (heartbeat_agent_task demo_session (1, 50) ''w1'' 1 3000 demo_claimed)" by code_simp
  have "fail_agent_task demo_session (1, 50) ''w2'' 1 ''unknown'' False False 3000 demo_claimed = Inl NV010"
    by code_simp
  with h lease_has_one_holder [OF h [THEN projr_ok] demo_runs(4)] show ?thesis by simp
qed

section \<open>The life of a task\<close>

text \<open>C26: A task that has ended stays as it ended: no later call changes anything in its row but the
  mark that a recovery leaves.\<close>

theorem ended_task_is_final:
  assumes "task_reachable db" and "task_step\<^sup>*\<^sup>* db db'"
    and "map_of (tasks db) k = Some t" and "t_state t \<in> TERMINAL_STATES"
  shows "\<exists>mark. map_of (tasks db') k = Some (t\<lparr>t_retried_from := mark\<rparr>)"
proof -
  obtain t' where t': "map_of (tasks db') k = Some t'" "advances t t'"
    using steps_advance_row [OF assms(1-3)] .
  with assms(4) have f: "forget_retry t' = forget_retry t" by (simp add: advances_def)
  have "t' = (forget_retry t')\<lparr>t_retried_from := t_retried_from t'\<rparr>" by (simp add: forget_retry_def)
  also have "\<dots> = t\<lparr>t_retried_from := t_retried_from t'\<rparr>" by (simp add: f) (simp add: forget_retry_def)
  finally show ?thesis using t'(1) by auto
qed

lemma ended_task_is_final_witness:
  "\<exists>mark. map_of (tasks demo_failed) (1, 50)
     = Some ((the (map_of (tasks demo_failed) (1, 50)))\<lparr>t_retried_from := mark\<rparr>)"
proof -
  have t: "map_of (tasks demo_failed) (1, 50) = Some (the (map_of (tasks demo_failed) (1, 50)))"
    "t_state (the (map_of (tasks demo_failed) (1, 50))) \<in> TERMINAL_STATES" by code_simp+
  show ?thesis by (rule ended_task_is_final [OF demo_reachable(5) rtranclp.rtrancl_refl t])
qed

text \<open>What a task was created for never changes: its case, operation, revision, source pack, policy,
  Skill pin and predecessor are the same in every later state, its row is never removed, and its
  generation and row version never go back.\<close>

theorem task_pins_never_change:
  assumes "task_reachable db" and "task_step\<^sup>*\<^sup>* db db'" and "map_of (tasks db) k = Some t"
  shows "\<exists>t'. map_of (tasks db') k = Some t' \<and> same_pins t t'
    \<and> t_lease_generation t \<le> t_lease_generation t' \<and> t_row_version t \<le> t_row_version t'"
proof -
  obtain t' where "map_of (tasks db') k = Some t'" "advances t t'"
    using steps_advance_row [OF assms(1-3)] .
  then show ?thesis by (auto simp: advances_def)
qed

lemma demo_steps: "task_step\<^sup>*\<^sup>* demo_created demo_failed" "task_step\<^sup>*\<^sup>* demo_claimed demo_reclaimed"
proof -
  have "task_step demo_created demo_claimed"
    unfolding demo_claimed_def by (rule step_claim [OF demo_runs(2)])
  moreover have "task_step demo_claimed demo_failed"
    unfolding demo_failed_def by (rule step_fail [OF demo_runs(4)])
  ultimately show "task_step\<^sup>*\<^sup>* demo_created demo_failed" by auto
  have "task_step demo_claimed demo_reclaimed"
    unfolding demo_reclaimed_def by (rule step_claim [OF demo_runs(3)])
  then show "task_step\<^sup>*\<^sup>* demo_claimed demo_reclaimed" by auto
qed

lemma task_pins_never_change_witness:
  "\<exists>t'. map_of (tasks demo_failed) (1, 50) = Some t'
     \<and> same_pins (the (map_of (tasks demo_created) (1, 50))) t'"
proof -
  have t: "map_of (tasks demo_created) (1, 50) = Some (the (map_of (tasks demo_created) (1, 50)))" by code_simp
  from task_pins_never_change [OF demo_reachable(2) demo_steps(1) t] show ?thesis by blast
qed

text \<open>C25: The event log of a task is append only and has no gaps: later states extend it, and its
  sequence numbers are one, two, three and so on.\<close>

theorem event_log_grows_without_gaps:
  assumes "task_reachable db" and "task_step\<^sup>*\<^sup>* db db'" and "map_of (tasks db) k = Some t"
  shows "take (length (events_of k db)) (events_of k db') = events_of k db
    \<and> map ev_sequence (events_of k db') = map int [1..<Suc (length (events_of k db'))]"
proof
  show "take (length (events_of k db)) (events_of k db') = events_of k db"
    by (rule task_log.steps_take [OF live_steps [OF assms(1,2)]])
  obtain t' where "map_of (tasks db') k = Some t'" using steps_advance_row [OF assms(1-3)] .
  from reachable_view [OF reachable_step [OF assms(1,2)] this]
  show "map ev_sequence (events_of k db') = map int [1..<Suc (length (events_of k db'))]"
    by (simp add: view_ok_def log_ok_def upto_int_def)
qed

lemma event_log_grows_without_gaps_witness:
  "take (length (events_of (1, 50) demo_created)) (events_of (1, 50) demo_failed) = events_of (1, 50) demo_created
   \<and> map ev_sequence (events_of (1, 50) demo_failed) = [1, 2, 3]"
proof -
  have t: "map_of (tasks demo_created) (1, 50) = Some (the (map_of (tasks demo_created) (1, 50)))"
    "length (events_of (1, 50) demo_failed) = 3" by code_simp+
  from event_log_grows_without_gaps [OF demo_reachable(2) demo_steps(1) t(1)] t(2)
  show ?thesis by (simp add: upt_rec)
qed

text \<open>C27: A revision of a case has at most one open task: no two tasks of the same organization, case and
  revision are queued, leased, running or waiting for review together.\<close>

theorem one_open_task_per_revision:
  assumes "task_reachable db"
    and "map_of (tasks db) (org, a) = Some t" and "map_of (tasks db) (org, b) = Some u"
    and "t_case t = t_case u" and "t_case_revision t = t_case_revision u"
    and "t_state t \<in> OPEN_STATES" and "t_state u \<in> OPEN_STATES"
  shows "a = b"
  using reachable_one_open [OF assms(1)] assms(2-) unfolding one_open_def
  by (metis fst_conv prod.inject)

lemma one_open_task_per_revision_witness:
  "(50 :: int) = 50 \<and> t_state (the (map_of (tasks demo_claimed) (1, 50))) \<in> OPEN_STATES
   \<and> create_agent_task demo_catalog demo_session (demo_create\<lparr>cq_task := 51, cq_key_hash := demo_hash CHR ''3''\<rparr>)
       2500 demo_claimed = Inl NV009"
proof -
  have t: "map_of (tasks demo_claimed) (1, 50) = Some (the (map_of (tasks demo_claimed) (1, 50)))"
    "t_state (the (map_of (tasks demo_claimed) (1, 50))) \<in> OPEN_STATES" by code_simp+
  have "create_agent_task demo_catalog demo_session (demo_create\<lparr>cq_task := 51, cq_key_hash := demo_hash CHR ''3''\<rparr>)
       2500 demo_claimed = Inl NV009" by code_simp
  with t one_open_task_per_revision [OF demo_reachable(3) t(1) t(1) refl refl t(2) t(2)]
  show ?thesis by blast
qed

end
