(* ===== verification/Task_Commands.thy ===== *)
theory Task_Commands
  imports Task_Properties
begin

text \<open>
  The commands of the task authority: creation and cancellation replayed by their
  idempotency keys, the claim and its order, results and their replay, failures and
  recovery against the Python policy.
\<close>

section \<open>Records of commands\<close>

definition create_recall :: "create_request \<Rightarrow> task_db \<Rightarrow> idem_record option" where
  "create_recall r db = map_of (idempotency db) (create_key r)"

definition create_ready :: "session \<Rightarrow> create_request \<Rightarrow> task_db \<Rightarrow> bool" where
  "create_ready ses r db \<longleftrightarrow>
     is_ok (assert_m3b_context ses (cq_org r) (cq_actor r) ''advisor'')
     \<and> (case create_recall r db of None \<Rightarrow> True
        | Some rec \<Rightarrow> (case map_of (tasks db) (cq_org r, ir_response_id rec) of None \<Rightarrow> True
                      | Some t \<Rightarrow> t_operation t = cq_operation r))"

interpretation creation: idempotent_command create_recall
  "\<lambda>r. create_agent_task cat ses r now" cq_request_hash "create_ready ses"
  "\<lambda>r i db. (map_of (tasks db) (cq_org r, i), True)" NV008 for cat ses now
proof
  fix r db rec
  assume "create_ready ses r db" "create_recall r db = Some rec" "ir_request_sha256 rec = cq_request_hash r"
  then show "create_agent_task cat ses r now db
      = Inr (db, map_of (tasks db) (cq_org r, ir_response_id rec), True)"
    by (auto simp: create_ready_def create_recall_def create_agent_task_def is_ok_iff split: option.splits)
next
  fix r db rec
  assume "create_ready ses r db" "create_recall r db = Some rec" "ir_request_sha256 rec \<noteq> cq_request_hash r"
  then show "create_agent_task cat ses r now db = Inl NV008"
    by (auto simp: create_ready_def create_recall_def create_agent_task_def is_ok_iff)
next
  fix r db db' out
  assume run: "create_agent_task cat ses r now db = Inr (db', out)"
  show "create_ready ses r db \<and> create_ready ses r db'
    \<and> (\<exists>rec. create_recall r db' = Some rec \<and> ir_request_sha256 rec = cq_request_hash r)"
  proof (cases "map_of (idempotency db) (create_key r)")
    case (Some prior)
    with run show ?thesis
      by (auto simp: create_agent_task_def create_ready_def create_recall_def split: option.splits if_splits)
  next
    case None
    with run obtain pin row c where
      i: "insert_task r (new_task r pin row now) now
            (db\<lparr>cases := AList.update (cq_org r, cq_case r) c (cases db)\<rparr>) = Inr (db', out)"
      and ctx: "is_ok (assert_m3b_context ses (cq_org r) (cq_actor r) ''advisor'')"
      by (auto simp: create_agent_task_def create_fresh_def)
    from i have "create_recall r db' = Some \<lparr>ir_request_sha256 = cq_request_hash r, ir_response_id = cq_task r\<rparr>"
      by (auto simp: insert_task_def Let_def create_recall_def split: if_splits)
    moreover from insert_task_rows [OF i]
    have "map_of (tasks db') (cq_org r, cq_task r) = Some (new_task r pin row now)"
      by (simp add: map_add_def)
    ultimately show ?thesis using None ctx by (simp add: create_ready_def create_recall_def new_task_def)
  qed
qed

definition cancel_recall :: "cancel_request \<Rightarrow> task_db \<Rightarrow> idem_record option" where
  "cancel_recall r db = map_of (idempotency db) (cancel_key r)"

definition cancel_ready :: "session \<Rightarrow> cancel_request \<Rightarrow> task_db \<Rightarrow> bool" where
  "cancel_ready ses r db \<longleftrightarrow> is_ok (assert_m3b_context ses (xq_org r) (xq_actor r) ''advisor'')"

interpretation cancellation: idempotent_command cancel_recall
  "\<lambda>r. cancel_agent_task cat ses r now" xq_request_hash "cancel_ready ses"
  "\<lambda>r i db. (map_of (tasks db) (xq_org r, i), True)" NV008 for cat ses now
proof
  fix r db db' out
  assume run: "cancel_agent_task cat ses r now db = Inr (db', out)"
  then have "is_ok (assert_m3b_context ses (xq_org r) (xq_actor r) ''advisor'')"
    by (auto simp: cancel_agent_task_def)
  moreover from run have "\<exists>rec. map_of (idempotency db') (cancel_key r) = Some rec
      \<and> ir_request_sha256 rec = xq_request_hash r"
    by (cases "map_of (idempotency db) (cancel_key r)")
      (auto simp: cancel_agent_task_def Let_def split: option.splits if_splits)
  ultimately show "cancel_ready ses r db \<and> cancel_ready ses r db'
    \<and> (\<exists>rec. cancel_recall r db' = Some rec \<and> ir_request_sha256 rec = xq_request_hash r)"
    by (simp add: cancel_ready_def cancel_recall_def)
qed (auto simp: cancel_ready_def cancel_recall_def cancel_agent_task_def is_ok_iff Let_def)

text \<open>A record that was left stays.\<close>

definition keeps_records :: "task_db \<Rightarrow> task_db \<Rightarrow> bool" where
  "keeps_records db db' \<longleftrightarrow>
     (\<forall>key rec. ik_operation key \<in> TASK_OPERATIONS \<longrightarrow> map_of (idempotency db) key = Some rec \<longrightarrow>
        map_of (idempotency db') key = Some rec)"

lemma keeps_records_eq: "idempotency db' = idempotency db \<Longrightarrow> keeps_records db db'"
  by (simp add: keeps_records_def)

lemma keeps_records_refl [simp]: "keeps_records db db"
  by (simp add: keeps_records_eq)

lemma keeps_records_trans:
  "keeps_records db db1 \<Longrightarrow> keeps_records db1 db2 \<Longrightarrow> keeps_records db db2"
  by (auto simp: keeps_records_def)

lemma keeps_records_update:
  "map_of (idempotency db) key = None \<Longrightarrow> idempotency db1 = idempotency db \<Longrightarrow>
     keeps_records db (db1\<lparr>idempotency := AList.update key rec (idempotency db1)\<rparr>)"
  by (auto simp: keeps_records_def)

lemma update_execution_records: "update_execution k gen f db = Inr db1 \<Longrightarrow> idempotency db1 = idempotency db"
  and close_open_records: "close_open_execution k gen now st again c db = Inr db1 \<Longrightarrow> idempotency db1 = idempotency db"
  using only_executionsD(6) update_execution_only(1) close_open_only(1) by blast+

lemma create_records: "create_agent_task cat ses r now db = Inr (db', out) \<Longrightarrow> keeps_records db db'"
  by (cases "map_of (idempotency db) (create_key r)")
    (auto simp: create_agent_task_def create_fresh_def insert_task_def Let_def keeps_records_def
      split: option.splits if_splits)

lemma create_records_other:
  assumes "create_agent_task cat ses r now db = Inr (db', out)" and "ik_operation key \<noteq> ''agent_task_create''"
  shows "map_of (idempotency db') key = map_of (idempotency db) key"
proof (cases "map_of (idempotency db) (create_key r)")
  case (Some prior)
  with assms show ?thesis by (auto simp: create_agent_task_def split: option.splits if_splits)
next
  case None
  from assms(2) have "key \<noteq> create_key r" by (auto simp: create_key_def)
  with None assms(1) show ?thesis
    by (auto simp: create_agent_task_def create_fresh_def insert_task_def Let_def split: if_splits)
qed

lemma cancel_records: "cancel_agent_task cat ses r now db = Inr (db', out) \<Longrightarrow> keeps_records db db'"
  by (cases "map_of (idempotency db) (cancel_key r)")
    (auto simp: cancel_agent_task_def Let_def keeps_records_def dest!: close_open_records
      split: option.splits if_splits)

lemma start_records: "start_agent_task ses k w gen input now db = Inr db' \<Longrightarrow> keeps_records db db'"
  by (auto simp: start_agent_task_def Let_def intro!: keeps_records_eq dest!: update_execution_records
      split: if_splits)

lemma heartbeat_records: "heartbeat_agent_task ses k w gen now db = Inr (db', e) \<Longrightarrow> keeps_records db db'"
  by (auto simp: heartbeat_agent_task_def Let_def intro!: keeps_records_eq)

lemma fail_records:
  "fail_agent_task ses k w gen code again fallback now db = Inr (db', st) \<Longrightarrow> keeps_records db db'"
  by (auto simp: fail_agent_task_def Let_def intro!: keeps_records_eq dest!: update_execution_records
      split: if_splits)

lemma finalize_records:
  assumes "finalize_agent_task_result cat ok ses k w gen q now db = Inr (db', st)"
  shows "keeps_records db db'"
  using assms
proof (cases rule: finalize_cases)
  case (recorded t db1 db2)
  then show ?thesis
    by (auto intro!: keeps_records_eq dest!: update_execution_records persist_only_runs(5))
qed simp

lemma claim_records:
  assumes inv: "task_invariant db" and c: "claim_agent_task cat locked worker now db = Inr (db', out)"
  shows "keeps_records db db'"
  using inv c
proof (cases rule: claim_cases)
  case (reclaimed k t e db1)
  from close_open_records [OF reclaimed(8)] reclaimed(9) show ?thesis
    by (auto simp: lease_task_def Let_def intro!: keeps_records_eq)
next
  case (fresh k t)
  from fresh(5) show ?thesis by (auto simp: lease_task_def Let_def intro!: keeps_records_eq)
next
  case (exhausted k t e db1)
  from close_open_records [OF exhausted(7)] show ?thesis
    by (simp add: exhausted claim_failure_def keeps_records_eq)
qed (simp_all add: claim_failure_def keeps_records_eq)

lemma retry_records:
  assumes "retry_agent_task cat inner ses r now db = Inr (db', out)"
  shows "keeps_records db db'"
  using assms
proof (cases rule: retry_cases)
  case (created t db1 c again created_id)
  have "map_of (idempotency db1) (retry_key r) = None"
    using created(2) by (simp add: create_records_other [OF created(4)] retry_key_def)
  then have "keeps_records db1 db'" unfolding created(6)
    using keeps_records_update [of db1 "retry_key r" "mark_retried (rq_org r, created_id) (rq_source r) db1"]
    by simp
  with create_records [OF created(4)] show ?thesis by (rule keeps_records_trans)
qed simp

lemma step_records:
  assumes "task_step db db'" and inv: "task_invariant db"
  shows "keeps_records db db'"
  using assms(1)
proof (cases rule: task_step.cases)
  case step_claim
  with inv show ?thesis using claim_records by blast
next
  case step_environment
  then show ?thesis by (simp add: keeps_records_def)
qed (blast intro: create_records cancel_records start_records heartbeat_records fail_records
      finalize_records retry_records)+

lemma steps_records: "task_step\<^sup>*\<^sup>* db db' \<Longrightarrow> task_invariant db \<Longrightarrow> keeps_records db db'"
  by (induction rule: rtranclp_induct) (auto intro: keeps_records_trans step_records steps_keep)

lemma operation_keys [simp]:
  "ik_operation (create_key r) \<in> TASK_OPERATIONS" "ik_operation (cancel_key x) \<in> TASK_OPERATIONS"
  by (simp_all add: create_key_def cancel_key_def TASK_OPERATIONS_def)

lemma records_recall:
  "keeps_records db db' \<Longrightarrow> create_recall r db = Some rec \<Longrightarrow> create_recall r db' = Some rec"
  "keeps_records db db' \<Longrightarrow> cancel_recall x db = Some rec' \<Longrightarrow> cancel_recall x db' = Some rec'"
  by (auto simp: keeps_records_def create_recall_def cancel_recall_def)

lemma created_task_exists:
  assumes "create_agent_task cat ses r now db = Inr (db', out)"
    and "map_of (idempotency db) (create_key r) = None"
  shows "\<exists>rec t. create_recall r db' = Some rec \<and> ir_request_sha256 rec = cq_request_hash r
    \<and> ir_response_id rec = cq_task r \<and> map_of (tasks db') (cq_org r, cq_task r) = Some t
    \<and> t_operation t = cq_operation r"
proof -
  from assms obtain pin row c where
    i: "insert_task r (new_task r pin row now) now
          (db\<lparr>cases := AList.update (cq_org r, cq_case r) c (cases db)\<rparr>) = Inr (db', out)"
    by (auto simp: create_agent_task_def create_fresh_def)
  from i have "create_recall r db' = Some \<lparr>ir_request_sha256 = cq_request_hash r, ir_response_id = cq_task r\<rparr>"
    by (auto simp: insert_task_def Let_def create_recall_def split: if_splits)
  moreover from insert_task_rows [OF i]
  have "map_of (tasks db') (cq_org r, cq_task r) = Some (new_task r pin row now)"
    by (simp add: map_add_def)
  ultimately show ?thesis by (simp add: new_task_def)
qed

text \<open>A creation happens once, for ever: when a creation has made a task, the same request sent
  again at any later time, whatever happened to the task in between, changes nothing and returns
  the row that task has then.\<close>

theorem create_happens_once:
  assumes "task_reachable db" and "create_agent_task cat ses r now db = Inr (db1, out)"
    and "map_of (idempotency db) (create_key r) = None" and "task_step\<^sup>*\<^sup>* db1 db2"
  shows "create_agent_task cat' ses r now' db2 = Inr (db2, map_of (tasks db2) (cq_org r, cq_task r), True)"
proof -
  have r1: "task_reachable db1"
    using reachable_step [OF assms(1)] step_create [OF assms(2)] by blast
  obtain rec t where rec: "create_recall r db1 = Some rec" "ir_request_sha256 rec = cq_request_hash r"
      "ir_response_id rec = cq_task r"
    and t: "map_of (tasks db1) (cq_org r, cq_task r) = Some t" "t_operation t = cq_operation r"
    using created_task_exists [OF assms(2,3)] by blast
  obtain t' where t': "map_of (tasks db2) (cq_org r, cq_task r) = Some t'" "advances t t'"
    using steps_advance_row [OF r1 assms(4) t(1)] .
  have "create_recall r db2 = Some rec"
    by (rule records_recall(1) [OF steps_records [OF assms(4) reachable_invariant [OF r1]] rec(1)])
  moreover from this have "create_ready ses r db2"
    using creation.run_records [OF assms(2)] t' t(2) rec(3)
    by (simp add: create_ready_def advances_def same_pins_def)
  ultimately show ?thesis using creation.run_known rec(2,3) by metis
qed

lemma create_happens_once_witness:
  "create_agent_task demo_catalog demo_session demo_create 99999 demo_failed
     = Inr (demo_failed, map_of (tasks demo_failed) (1, 50), True)"
proof -
  have none: "map_of (idempotency demo_start) (create_key demo_create) = None" by code_simp
  from create_happens_once [OF demo_reachable(1) demo_runs(1) none, folded demo_created_def, OF demo_steps(1)]
  show ?thesis by (simp add: demo_create_def)
qed

definition demo_cancel :: cancel_request where
  "demo_cancel = \<lparr>xq_org = 1, xq_actor = 5, xq_task = 50, xq_expected_version = 2,
     xq_request_hash = demo_hash CHR ''4'', xq_key_hash = demo_hash CHR ''5''\<rparr>"

definition demo_cancelled :: task_db where
  "demo_cancelled = fst (projr (cancel_agent_task demo_catalog demo_session demo_cancel 4000 demo_claimed))"

lemma demo_cancel_ok:
  "is_ok (cancel_agent_task demo_catalog demo_session demo_cancel 4000 demo_claimed)"
  by code_simp

text \<open>A cancellation ends the task at once: the task is cancelled with its lease and its dispatch
  row gone, its open execution is closed, and sending the request again changes nothing, while another
  request under the same key is refused with NV008.\<close>

theorem cancel_ends_task_once:
  assumes "task_reachable db" and "cancel_agent_task cat ses r now db = Inr (db1, out)"
    and "map_of (idempotency db) (cancel_key r) = None"
    and "cancel_key r' = cancel_key r" and "xq_request_hash r' \<noteq> xq_request_hash r"
  shows "(\<exists>t. map_of (tasks db1) (xq_org r, xq_task r) = Some t \<and> t_state t = TS_CANCELLED
       \<and> t_lease_owner t = None \<and> map_of (dispatch db1) (xq_org r, xq_task r) = None
       \<and> list_all (\<lambda>x. x_status x \<in> CLOSED_EXECUTIONS) (executions_of (xq_org r, xq_task r) db1))
    \<and> (\<exists>out'. cancel_agent_task cat ses r now db1 = Inr (db1, out'))
    \<and> cancel_agent_task cat ses r' now db1 = Inl NV008"
proof -
  let ?k = "(xq_org r, xq_task r)"
  have r1: "task_reachable db1" using reachable_step [OF assms(1)] step_cancel [OF assms(2)] by blast
  from assms(2,3) obtain t where t: "map_of (tasks db1) ?k = Some (release TS_CANCELLED (Some ''cancelled'') t)"
    "map_of (dispatch db1) ?k = None"
    by (auto simp: cancel_agent_task_def Let_def split: option.splits if_splits)
  have "list_all (\<lambda>x. x_status x \<in> CLOSED_EXECUTIONS) (executions_of ?k db1)"
    using reachable_view [OF r1 t(1)]
    by (simp add: view_ok_def executions_ok_def release_def LEASED_STATES_def)
  moreover obtain out' where "cancel_agent_task cat ses r now db1 = Inr (db1, out')"
    using cancellation.rerun [OF assms(2)] by blast
  moreover have "cancel_agent_task cat ses r' now db1 = Inl NV008"
  proof (rule cancellation.other_request_refused [OF assms(2)])
    show "cancel_recall r' db1 = cancel_recall r db1" by (simp add: cancel_recall_def assms(4))
    have "xq_org r' = xq_org r" "xq_actor r' = xq_actor r" using assms(4) by (simp_all add: cancel_key_def)
    with cancellation.run_records [OF assms(2)] show "cancel_ready ses r' db1" by (simp add: cancel_ready_def)
  qed (rule assms(5))
  ultimately show ?thesis using t by (auto simp: release_def)
qed

lemma cancel_ends_task_once_witness:
  "(\<exists>t. map_of (tasks demo_cancelled) (1, 50) = Some t \<and> t_state t = TS_CANCELLED)
   \<and> cancel_agent_task demo_catalog demo_session (demo_cancel\<lparr>xq_request_hash := demo_hash CHR ''6''\<rparr>) 4000
       demo_cancelled = Inl NV008"
proof -
  have none: "map_of (idempotency demo_claimed) (cancel_key demo_cancel) = None"
    "cancel_key (demo_cancel\<lparr>xq_request_hash := demo_hash CHR ''6''\<rparr>) = cancel_key demo_cancel"
    "xq_request_hash (demo_cancel\<lparr>xq_request_hash := demo_hash CHR ''6''\<rparr>) \<noteq> xq_request_hash demo_cancel"
    by code_simp+
  have keys: "xq_org demo_cancel = 1" "xq_task demo_cancel = 50" by (simp_all add: demo_cancel_def)
  from cancel_ends_task_once [OF demo_reachable(3) demo_cancel_ok [THEN projr_ok] none,
      folded demo_cancelled_def, unfolded keys]
  show ?thesis by blast
qed

section \<open>The claim\<close>

lemma earlier_order:
  "\<not> earlier p p" "earlier p q \<Longrightarrow> \<not> earlier q p"
  "\<not> earlier p q \<Longrightarrow> \<not> earlier q r \<Longrightarrow> \<not> earlier p r"
  by (auto simp: earlier_def)

lemma first_dispatch_first:
  "first_dispatch ps = Some p \<Longrightarrow> p \<in> set ps \<and> (\<forall>q\<in>set ps. \<not> earlier q p)"
proof (induction ps arbitrary: p)
  case (Cons a ps)
  show ?case
  proof (cases "first_dispatch ps")
    case None
    then have "ps = []" by (cases ps) (auto split: option.splits if_splits)
    with Cons.prems None show ?thesis by (simp add: earlier_order)
  next
    case (Some q)
    with Cons.IH have q: "q \<in> set ps" "\<forall>x\<in>set ps. \<not> earlier x q" by blast+
    show ?thesis
    proof (cases "earlier q a")
      case True
      with Cons.prems Some have "p = q" by simp
      with True q earlier_order(2) show ?thesis by auto
    next
      case False
      with Cons.prems Some have "p = a" by simp
      moreover have "\<not> earlier x a" if "x \<in> set ps" for x
        using q(2) that False earlier_order(3) by blast
      ultimately show ?thesis by (simp add: earlier_order(1))
    qed
  qed
qed simp

lemma first_dispatch_None: "first_dispatch ps = None \<longleftrightarrow> ps = []"
  by (cases ps) (auto split: option.splits)

lemma claim_serves_due:
  assumes "distinct (map fst (dispatch db))"
  shows "case claim_candidate locked now db of
      None \<Rightarrow> \<forall>row\<in>set (dispatch db). snd row > now \<or> fst row \<in> set locked
    | Some k \<Rightarrow> (\<exists>a. map_of (dispatch db) k = Some a \<and> a \<le> now \<and> k \<notin> set locked
        \<and> (\<forall>row\<in>set (dispatch db). snd row \<le> now \<longrightarrow> fst row \<notin> set locked \<longrightarrow> \<not> earlier row (k, a)))"
proof (cases "first_dispatch (filter (\<lambda>(k, a). a \<le> now \<and> k \<notin> set locked) (dispatch db))")
  case None
  then show ?thesis by (fastforce simp: claim_candidate_def first_dispatch_None filter_empty_conv)
next
  case (Some p)
  note first = first_dispatch_first [OF this]
  have p: "p \<in> set (dispatch db)" "snd p \<le> now" "fst p \<notin> set locked"
    using first by (auto simp: case_prod_beta)
  have "\<forall>row\<in>set (dispatch db). snd row \<le> now \<longrightarrow> fst row \<notin> set locked \<longrightarrow> \<not> earlier row (fst p, snd p)"
  proof (intro ballI impI)
    fix row assume "row \<in> set (dispatch db)" "snd row \<le> now" "fst row \<notin> set locked"
    then have "row \<in> set (filter (\<lambda>(k, a). a \<le> now \<and> k \<notin> set locked) (dispatch db))"
      by (simp add: case_prod_beta)
    with first have "\<not> earlier row p" by blast
    then show "\<not> earlier row (fst p, snd p)" by simp
  qed
  moreover from p(1) assms have "map_of (dispatch db) (fst p) = Some (snd p)" by simp
  ultimately show ?thesis using p Some by (simp add: claim_candidate_def)
qed

text \<open>A claim serves the earliest row that is due: its candidate is due and not held by another
  transaction, no other such row is earlier, and there is no candidate only when no such row exists.\<close>

theorem claim_serves_earliest_due:
  assumes "distinct (map fst (dispatch db))"
  shows "case claim_candidate locked now db of
      None \<Rightarrow> \<forall>row\<in>set (dispatch db). snd row > now \<or> fst row \<in> set locked
    | Some k \<Rightarrow> (\<exists>a. map_of (dispatch db) k = Some a \<and> a \<le> now \<and> k \<notin> set locked
        \<and> (\<forall>row\<in>set (dispatch db). snd row \<le> now \<longrightarrow> fst row \<notin> set locked \<longrightarrow> \<not> earlier row (k, a)))"
  using assms by (rule claim_serves_due)

lemma claim_serves_earliest_due_witness:
  "claim_candidate [] 5000 (empty_db\<lparr>dispatch := [((1, 8), 40), ((1, 9), 30), ((1, 7), 30)]\<rparr>) = Some (1, 7)
   \<and> (\<exists>a. map_of [((1, 8), 40), ((1, 9), 30), ((1, 7), 30)] (1, 7) = Some a \<and> a \<le> (5000 :: int))"
proof -
  let ?db = "empty_db\<lparr>dispatch := [((1, 8), 40), ((1, 9), 30), ((1, 7), 30)]\<rparr>"
  have c: "claim_candidate [] 5000 ?db = Some (1, 7)" by code_simp
  from claim_serves_earliest_due [of ?db 5000 "[]"] c show ?thesis by simp
qed

lemma close_open_total:
  assumes "\<And>x. x \<in> set (executions_of k db) \<Longrightarrow> is_ok (duration_ms now x)"
  shows "is_ok (close_open_execution k gen now st again code db)"
proof -
  have "is_ok (update_where (\<lambda>k' x. k' = k \<and> x_lease_generation x = gen
          \<and> x_status x \<in> {XS_LEASED, XS_RUNNING})
        (finish_execution now (\<lambda>x. x\<lparr>x_status := st, x_retryable := again,
           x_public_code := Some code\<rparr>)) (executions db))"
    unfolding update_where_def
  proof (rule traverse_total)
    fix row assume row: "row \<in> set (executions db)"
    obtain k' x where "row = (k', x)" by (cases row)
    moreover have "is_ok (duration_ms now x)" if "k' = k"
      using that row \<open>row = _\<close> assms by (simp add: executions_of_rows rows_of_set)
    ultimately show "is_ok (case row of (k', r) \<Rightarrow>
        if k' = k \<and> x_lease_generation r = gen \<and> x_status r \<in> {XS_LEASED, XS_RUNNING}
        then bind_result (finish_execution now (\<lambda>x. x\<lparr>x_status := st, x_retryable := again,
               x_public_code := Some code\<rparr>) r) (\<lambda>r'. Inr (k', r')) else Inr (k', r))"
      by (auto simp: is_ok_iff finish_execution_def)
  qed
  then show ?thesis by (auto simp: close_open_execution_def is_ok_iff)
qed

text \<open>The task of a due dispatch row.\<close>

lemma due_task:
  assumes "task_reachable db" and "claim_candidate locked now db = Some k"
  obtains t a where "map_of (tasks db) k = Some t" "a \<le> now" "t_state t \<notin> TERMINAL_STATES"
    "t_state t \<in> LEASED_STATES \<Longrightarrow> t_lease_expires_at t = Some a"
    "t_state t \<notin> LEASED_STATES \<Longrightarrow> t_attempt_count t < 3"
proof -
  have inv: "task_invariant db" by (rule reachable_invariant [OF assms(1)])
  then have "distinct (map fst (dispatch db))" by (simp add: task_invariant_def)
  from claim_serves_due [OF this, of now locked] assms(2)
  obtain a where d: "map_of (dispatch db) k = Some a" and a: "a \<le> now" by auto
  from task_invariant_no_task [OF inv, of k] d obtain t where t: "map_of (tasks db) k = Some t" by fastforce
  note v = reachable_view [OF assms(1) t]
  from v d have live: "t_state t \<in> LIVE_STATES" by (simp add: view_ok_def dispatch_ok_def)
  show ?thesis
  proof (rule that [OF t a])
    show "t_state t \<notin> TERMINAL_STATES" using live by (simp add: terminal_or_live)
    show "t_lease_expires_at t = Some a" if "t_state t \<in> LEASED_STATES"
      using v d that by (simp add: view_ok_def dispatch_ok_def)
    show "t_attempt_count t < 3" if "t_state t \<notin> LEASED_STATES"
      using that v live live_cases [of t] by (auto simp: view_ok_def lease_ok_def)
  qed
qed

text \<open>C29: A claim never idles while work is due.  If a dispatch row is due and free, and the durations of
  its executions fit their column, the claim of a valid worker succeeds and moves that task: either the
  worker holds a new lease of it for the next sixty seconds, with the next generation and attempt, or the
  task has failed because its attempts are used up or its Skill pin is no longer registered.\<close>

theorem claim_makes_progress:
  assumes "task_reachable db" and "\<not> invalid_worker worker"
    and "claim_candidate locked now db = Some k"
    and "\<And>x. x \<in> set (executions_of k db) \<Longrightarrow> is_ok (duration_ms now x)"
  shows "\<exists>db' out t t'. claim_agent_task cat locked worker now db = Inr (db', out)
    \<and> map_of (tasks db) k = Some t \<and> map_of (tasks db') k = Some t'
    \<and> (if pin_valid cat k t \<and> t_attempt_count t < 3
       then t_state t' = TS_LEASED \<and> t_lease_owner t' = Some worker
          \<and> t_lease_expires_at t' = Some (now + 60 * 1000000)
          \<and> t_attempt_count t' = t_attempt_count t + 1
          \<and> out = Some (k, t_lease_generation t + 1) \<and> t_lease_generation t' = t_lease_generation t + 1
       else t_state t' = TS_FAILED \<and> out = None \<and> map_of (dispatch db') k = None
          \<and> t_terminal_code t' \<in> {Some ''skill_pin_invalid'', Some ''lease_expired''})"
proof -
  obtain t a where t: "map_of (tasks db) k = Some t" and a: "a \<le> now" and nt: "t_state t \<notin> TERMINAL_STATES"
    and expiry: "t_state t \<in> LEASED_STATES \<Longrightarrow> t_lease_expires_at t = Some a"
    and queued: "t_state t \<notin> LEASED_STATES \<Longrightarrow> t_attempt_count t < 3"
    using due_task [OF assms(1,3)] by metis
  have lease: "\<exists>db'. lease_task k worker again t now db1 = (db', Some (k, t_lease_generation t + 1))
      \<and> map_of (tasks db') k = Some (leased_row worker t (now + lease_microseconds))" for again db1
    using lease_task_row [of k worker again t now db1] by (cases "lease_task k worker again t now db1") simp
  have close: "\<exists>db1. close_open_execution k (t_lease_generation t) now st again ''lease_expired'' db = Inr db1"
    for st again
    using close_open_total [OF assms(4)] by (simp add: is_ok_iff)
  have fail: "map_of (tasks (claim_failure k code t now db1)) k = Some (release TS_FAILED (Some code) t)
      \<and> map_of (dispatch (claim_failure k code t now db1)) k = None" for code db1
    by (simp add: claim_failure_def)
  show ?thesis
  proof (cases "pin_valid cat k t")
    case False
    then show ?thesis
      using assms(2,3) t nt fail by (auto simp: claim_agent_task_def release_def)
  next
    case pin: True
    show ?thesis
    proof (cases "t_attempt_count t < 3")
      case True
      obtain db1 where c: "close_open_execution k (t_lease_generation t) now XS_RETRY_SCHEDULED True
          ''lease_expired'' db = Inr db1" using close by blast
      obtain db' where l: "lease_task k worker (t_state t \<in> LEASED_STATES) t now
            (if t_state t \<in> LEASED_STATES then db1 else db) = (db', Some (k, t_lease_generation t + 1))"
        "map_of (tasks db') k = Some (leased_row worker t (now + lease_microseconds))" using lease by blast
      have "claim_agent_task cat locked worker now db = Inr (db', Some (k, t_lease_generation t + 1))"
        using assms(2,3) t nt pin True c l(1) expiry a
        by (cases "t_state t \<in> LEASED_STATES") (simp_all add: claim_agent_task_def unexpired_def)
      with t l(2) pin True show ?thesis by (auto simp: leased_row_def lease_microseconds_def)
    next
      case False
      obtain db1 where c: "close_open_execution k (t_lease_generation t) now XS_FAILED False
          ''lease_expired'' db = Inr db1" using close by blast
      have "t_state t \<in> LEASED_STATES" using queued False by blast
      with assms(2,3) t nt pin False c expiry a
      have "claim_agent_task cat locked worker now db = Inr (claim_failure k ''lease_expired'' t now db1, None)"
        by (simp add: claim_agent_task_def unexpired_def)
      with t fail pin False show ?thesis by (auto simp: release_def)
    qed
  qed
qed

lemma claim_makes_progress_witness:
  "\<exists>db' t'. claim_agent_task demo_catalog [] ''w2'' 70000000 demo_claimed = Inr (db', Some ((1, 50), 2))
     \<and> map_of (tasks db') (1, 50) = Some t' \<and> t_lease_owner t' = Some ''w2''"
proof -
  have c: "\<not> invalid_worker ''w2''" "claim_candidate [] 70000000 demo_claimed = Some (1, 50)" by code_simp+
  have "list_all (\<lambda>x. is_ok (duration_ms 70000000 x)) (executions_of (1, 50) demo_claimed)" by code_simp
  then have d: "is_ok (duration_ms 70000000 x)" if "x \<in> set (executions_of (1, 50) demo_claimed)" for x
    using that by (simp add: list_all_iff)
  have t: "map_option (\<lambda>t. (pin_valid demo_catalog (1, 50) t, t_attempt_count t, t_lease_generation t))
      (map_of (tasks demo_claimed) (1, 50)) = Some (True, 1, 1)" by code_simp
  from claim_makes_progress [OF demo_reachable(3) c d, of demo_catalog] t show ?thesis by force
qed

section \<open>Results\<close>

lemma finish_last:
  assumes "task_invariant db" "map_of (tasks db) k = Some t" "holds_lease LEASED_STATES t worker gen now"
    and "update_execution k gen (finish_execution now f) db = Inr db1"
    and f: "\<And>x. x_attempt_no (f x) = x_attempt_no x \<and> x_lease_generation (f x) = x_lease_generation x"
    and P: "\<And>x d. P ((f x)\<lparr>x_duration_ms := Some d, x_finished_at := Some now\<rparr>)"
  shows "\<exists>x\<in>set (executions_of k db1). x_lease_generation x = gen \<and> P x"
proof -
  from assms(3) have leased: "t_state t \<in> LEASED_STATES" and gen: "gen = t_lease_generation t"
    by (simp_all add: holds_lease_def)
  note v = task_invariantD [OF assms(1,2)]
  have g: "x_attempt_no y = x_attempt_no x \<and> x_lease_generation y = x_lease_generation x \<and> P y"
    if "finish_execution now f x = Inr y" for x y
    using that f P by (auto simp: finish_execution_Inr)
  note u = update_view [OF v leased update_execution_only(2) [OF assms(4), unfolded gen] g]
  from v leased have ok: "executions_ok t (executions_of k db)" and ne: "executions_of k db \<noteq> []"
    and n: "t_lease_generation t = int (length (executions_of k db))"
    by (auto simp: view_ok_def lease_ok_def executions_ok_def)
  have "map x_lease_generation (executions_of k db1) = upto_int (length (executions_of k db1))"
    using u(1) ok same_attempts_length [OF u(1)] by (simp add: same_attempts_def executions_ok_def)
  then have "x_lease_generation (last (executions_of k db1)) = gen"
    using u(3) n same_attempts_length [OF u(1)] by (metis gen last_map length_greater_0_conv upto_int_last)
  with u(3,4) show ?thesis by (intro bexI [of _ "last (executions_of k db1)"]) simp_all
qed

lemma persist_result:
  assumes "persist_planning_result cat ok org t q superseded db = Inr db'"
  obtains c where "map_of (cases db) (org, t_case t) = Some c" "sc_state c = CS_PLANNING"
    "sc_current_revision c = t_case_revision t" "\<not> current_run_exists org (t_case t) db"
    "map_of (runs db') (org, fq_run q) = Some \<lparr>run_case = t_case t, run_case_revision = t_case_revision t,
       run_source_pack = t_source_pack t, run_source_pack_version = t_source_pack_version t,
       run_policy_version = t_policy_version t, run_evidence_sha256 = fq_evidence_hash q,
       run_status = fq_state q, run_reason = fq_reason q, run_output_sha256 = Some (fq_output_hash q),
       run_supersedes = superseded, run_is_current = True\<rparr>"
    "map_of (cases db') (org, t_case t) = Some (if fq_state q = RS_REVIEW_REQUIRED
       then c\<lparr>sc_state := CS_ADVISOR_REVIEW\<rparr> else c)"
proof -
  note u = assms [unfolded persist_planning_result_def Let_def]
  from u obtain c where c: "map_of (cases db) (org, t_case t) = Some c"
    by (cases "map_of (cases db) (org, t_case t)") (auto split: if_splits)
  from u c obtain row where "case_revision_of cat org (t_case t) (t_case_revision t) = Some row"
    by (cases "case_revision_of cat org (t_case t) (t_case_revision t)") (auto split: if_splits)
  with u c show ?thesis by (intro that [OF c]) (auto simp: map_add_def split: if_splits)
qed

text \<open>A recorded result stays recorded exactly once: after a successful finalize, the same result sent
  again for the same lease, by any worker and at any time, is answered with the same state and changes
  nothing.\<close>

theorem finalize_replays:
  assumes "task_reachable db"
    and "finalize_agent_task_result cat ok ses k worker gen q now db = Inr (db1, st)"
  shows "finalize_agent_task_result cat' ok' ses k worker' gen q now' db1 = Inr (db1, st)"
proof -
  from assms(2) have ctx: "assert_context ses (fst k) = Inr ()" by (auto simp: finalize_agent_task_result_def)
  have replay: "finalize_agent_task_result cat' ok' ses k worker' gen q now' db1 = Inr (db1, t_state t)"
    if "map_of (tasks db1) k = Some t" "t_result_run t = Some (fq_run q)"
      "t_state t \<in> {TS_WAITING_REVIEW, TS_BLOCKED, TS_FAILED}" "t_lease_generation t = gen"
      "replays_result k t gen q db1" for t
    using that ctx by (simp add: finalize_agent_task_result_def)
  show ?thesis
    using assms(2)
  proof (cases rule: finalize_cases)
    case r: (replay t)
    with replay [of t] show ?thesis by simp
  next
    case (recorded t dbp db2)
    note p = persist_only_runs [OF recorded(5)]
    have inv: "task_invariant dbp"
      using reachable_invariant [OF assms(1)] p by (simp add: task_invariant_cong [of dbp db])
    have t: "map_of (tasks dbp) k = Some t" using recorded(1) p by simp
    let ?P = "\<lambda>x. x_status x = target_execution (fq_state q) \<and> x_output_sha256 x = Some (fq_output_hash q)
        \<and> x_result_run x = Some (fq_run q) \<and> x_public_code x = fq_reason q"
    have "\<exists>x\<in>set (executions_of k db2). x_lease_generation x = gen \<and> ?P x"
      by (rule finish_last [OF inv t recorded(2,6)]) simp_all
    moreover note o = only_executionsD [OF update_execution_only(1) [OF recorded(6)]]
    obtain c where "map_of (runs dbp) (fst k, fq_run q) = Some \<lparr>run_case = t_case t,
       run_case_revision = t_case_revision t, run_source_pack = t_source_pack t,
       run_source_pack_version = t_source_pack_version t, run_policy_version = t_policy_version t,
       run_evidence_sha256 = fq_evidence_hash q, run_status = fq_state q, run_reason = fq_reason q,
       run_output_sha256 = Some (fq_output_hash q), run_supersedes = t_predecessor_run t, run_is_current = True\<rparr>"
      using persist_result [OF recorded(5)] by metis
    moreover from recorded(2) have "t_lease_generation t = gen" by (simp add: holds_lease_def)
    ultimately show ?thesis
      using replay [of "(release st (if fq_state q = RS_REVIEW_REQUIRED then None else fq_reason q) t)
          \<lparr>t_result_run := Some (fq_run q)\<rparr>"] task_target [OF recorded(3)]
      by (auto simp: recorded(4,7,8) release_def replays_result_def list_ex_iff o)
  qed
qed

definition demo_result :: "run_state \<Rightarrow> uuid \<Rightarrow> finalize_request" where
  "demo_result st run = \<lparr>fq_run = run, fq_evidence_hash = demo_hash CHR ''7'', fq_state = st,
     fq_reason = Some ''explained'', fq_output_hash = demo_hash CHR ''8'', fq_supersedes = None\<rparr>"

definition demo_reviewed :: task_db where
  "demo_reviewed = fst (projr (finalize_agent_task_result demo_catalog (\<lambda>q. True) demo_session (1, 50) ''w1'' 1
     (demo_result RS_REVIEW_REQUIRED 90) 5000 demo_claimed))"

lemma demo_reviewed_ok:
  "is_ok (finalize_agent_task_result demo_catalog (\<lambda>q. True) demo_session (1, 50) ''w1'' 1
     (demo_result RS_REVIEW_REQUIRED 90) 5000 demo_claimed)"
  by code_simp

lemma finalize_replays_witness:
  "\<exists>st. finalize_agent_task_result demo_catalog (\<lambda>q. True) demo_session (1, 50) ''w2'' 1
     (demo_result RS_REVIEW_REQUIRED 90) 99000 demo_reviewed = Inr (demo_reviewed, st)"
  using finalize_replays [OF demo_reachable(3) demo_reviewed_ok [THEN projr_ok], folded demo_reviewed_def] by blast

text \<open>A first successful finalize of a leased task records the result it was given, with the pins of
  the task and as the current run, moves the task to the state of the result and, when the result asks
  for review, moves the case from planning to advisor review; it never does so when the case already
  had a current run.\<close>

theorem finalize_records_result:
  assumes "finalize_agent_task_result cat ok ses k worker gen q now db = Inr (db1, st)"
    and "map_of (tasks db) k = Some t" and "t_result_run t = None"
  shows "\<exists>r c t'. map_of (runs db1) (fst k, fq_run q) = Some r \<and> run_is_current r
    \<and> run_status r = fq_state q \<and> run_case r = t_case t \<and> run_case_revision r = t_case_revision t
    \<and> run_source_pack r = t_source_pack t \<and> run_policy_version r = t_policy_version t
    \<and> run_supersedes r = t_predecessor_run t \<and> \<not> current_run_exists (fst k) (t_case t) db
    \<and> map_of (tasks db1) k = Some t' \<and> t_state t' = st \<and> st = target_state (fq_state q)
    \<and> t_result_run t' = Some (fq_run q) \<and> map_of (dispatch db1) k = None
    \<and> map_of (cases db1) (fst k, t_case t) = Some c
    \<and> sc_state c = (if fq_state q = RS_REVIEW_REQUIRED then CS_ADVISOR_REVIEW else CS_PLANNING)"
  using assms(1)
proof (cases rule: finalize_cases)
  case (replay t')
  with assms(2,3) show ?thesis by simp
next
  case (recorded t' dbp db2)
  then have t: "t' = t" using assms(2) by simp
  note o = only_executionsD [OF update_execution_only(1) [OF recorded(6)]]
  show ?thesis
    using persist_result [OF recorded(5)]
    by (rule persist_result [OF recorded(5)]) (auto simp: recorded(7,8) o t release_def)
qed

lemma finalize_records_result_witness:
  "\<exists>r. map_of (runs demo_reviewed) (1, 90) = Some r \<and> run_is_current r
     \<and> (\<exists>c. map_of (cases demo_reviewed) (1, 10) = Some c \<and> sc_state c = CS_ADVISOR_REVIEW)"
proof -
  have t: "map_of (tasks demo_claimed) (1, 50) = Some (the (map_of (tasks demo_claimed) (1, 50)))"
    "t_result_run (the (map_of (tasks demo_claimed) (1, 50))) = None"
    "t_case (the (map_of (tasks demo_claimed) (1, 50))) = 10" by code_simp+
  have q: "fq_run (demo_result st run) = run" "fq_state (demo_result st run) = st" for st run
    by (simp_all add: demo_result_def)
  from finalize_records_result [OF demo_reviewed_ok [THEN projr_ok] t(1,2), folded demo_reviewed_def]
  show ?thesis by (auto simp: q t(3))
qed

section \<open>Failures and recovery\<close>

text \<open>Python and the database classify a failure alike: when the worker reports an adapter failure
  with the decision of \<open>classify_adapter_outcome\<close> for the attempt of its task, the state the database
  moves the task to is the one that decision names, the queue when it names none.\<close>

theorem failure_classified_alike:
  assumes "map_of (tasks db) k = Some t"
    and "d = classify_adapter_outcome f (t_attempt_count t)"
    and "fail_agent_task ses k worker gen (public_code d) (retryable d) (f = FALLBACK_AUTHORITY) now db
           = Inr (db', st)"
  shows "st = (case terminal_state d of None \<Rightarrow> TS_QUEUED | Some s \<Rightarrow> s)
    \<and> (\<exists>t'. map_of (tasks db') k = Some t' \<and> t_state t' = st)"
proof -
  have d: "public_code d = failure_value f" "retryable d \<longleftrightarrow> f \<in> RETRYABLE_FAILURES \<and> t_attempt_count t < 3"
    "terminal_state d = (if retryable d then None else Some (terminal_state_of (failure_value f)))"
    by (cases f; simp add: assms(2) classify_adapter_outcome_def RETRYABLE_FAILURES_def default_policy_def
        terminal_state_of_def)+
  show ?thesis
  proof (cases "retryable d")
    case True
    with assms(1,3) d show ?thesis
      by (auto simp: fail_agent_task_def leased_task_Inr Let_def release_def dest: update_execution_tasks
          split: if_splits)
  next
    case False
    with assms(1,3) d show ?thesis
      by (auto simp: fail_agent_task_def leased_task_Inr Let_def release_def dest: update_execution_tasks
          split: if_splits)
  qed
qed

lemma failure_classified_alike_witness:
  "snd (projr (fail_agent_task demo_session (1, 50) ''w1'' 1 ''transient_unavailable'' True False 3000 demo_claimed))
     = TS_QUEUED"
proof -
  have t: "map_of (tasks demo_claimed) (1, 50) = Some (the (map_of (tasks demo_claimed) (1, 50)))" by code_simp
  have n: "t_attempt_count (the (map_of (tasks demo_claimed) (1, 50))) = 1" by code_simp
  let ?d = "\<lparr>retryable = True, terminal_state = None, public_code = ''transient_unavailable''\<rparr>"
  have d: "?d = classify_adapter_outcome TRANSIENT_UNAVAILABLE
      (t_attempt_count (the (map_of (tasks demo_claimed) (1, 50))))"
    by (simp add: n classify_adapter_outcome_def RETRYABLE_FAILURES_def default_policy_def)
  have "is_ok (fail_agent_task demo_session (1, 50) ''w1'' 1 ''transient_unavailable'' True False 3000 demo_claimed)"
    by code_simp
  then obtain db' st where r: "fail_agent_task demo_session (1, 50) ''w1'' 1 ''transient_unavailable'' True False
      3000 demo_claimed = Inr (db', st)" by (auto simp: is_ok_iff)
  then have "fail_agent_task demo_session (1, 50) ''w1'' 1 (public_code ?d) (retryable ?d)
      (TRANSIENT_UNAVAILABLE = FALLBACK_AUTHORITY) 3000 demo_claimed = Inr (db', st)" by simp
  from failure_classified_alike [OF t d this] r show ?thesis by simp
qed

fun task_state_value :: "task_state \<Rightarrow> string" where
  "task_state_value TS_QUEUED = ''queued''"
| "task_state_value TS_LEASED = ''leased''"
| "task_state_value TS_RUNNING = ''running''"
| "task_state_value TS_WAITING_REVIEW = ''waiting_review''"
| "task_state_value TS_SUCCEEDED = ''succeeded''"
| "task_state_value TS_BLOCKED = ''blocked''"
| "task_state_value TS_TIMED_OUT = ''timed_out''"
| "task_state_value TS_FAILED = ''failed''"
| "task_state_value TS_CANCELLED = ''cancelled''"

text \<open>A recovery is offered only where the Python policy allows one: a task the database finds
  eligible for a retry is one that \<open>terminal_recovery_allowed\<close> accepts, it has ended, and no task of the
  same case revision is open.\<close>

theorem retry_needs_recoverable_task:
  assumes "retry_eligible cat k t db"
  shows "terminal_recovery_allowed (task_state_value (t_state t)) (t_terminal_code t) (t_result_run t \<noteq> None)
    \<and> t_state t \<in> TERMINAL_STATES
    \<and> (\<forall>k' t'. map_of (tasks db) k' = Some t' \<longrightarrow> fst k' = fst k \<longrightarrow> t_case t' = t_case t \<longrightarrow>
         t_case_revision t' = t_case_revision t \<longrightarrow> t_state t' \<notin> OPEN_STATES \<and> t_result_run t' = None)"
proof -
  have no: "\<not> list_ex (\<lambda>(k', t'). fst k' = fst k \<and> t_case t' = t_case t
            \<and> t_case_revision t' = t_case_revision t
            \<and> (t_state t' \<in> {TS_QUEUED, TS_LEASED, TS_RUNNING, TS_WAITING_REVIEW, TS_SUCCEEDED}
               \<or> t_result_run t' \<noteq> None)) (tasks db)"
    and ended: "t_state t = TS_FAILED \<and> t_terminal_code t \<in> Some ` {''transient_unavailable'',
            ''transport_interrupted'', ''lease_expired''}
        \<or> t_state t = TS_TIMED_OUT \<and> t_terminal_code t = Some ''deadline_exceeded''"
    and "t_result_run t = None"
    using assms unfolding retry_eligible_def by blast+
  then have "terminal_recovery_allowed (task_state_value (t_state t)) (t_terminal_code t) (t_result_run t \<noteq> None)"
    "t_state t \<in> TERMINAL_STATES"
    by (auto simp: terminal_recovery_allowed_def TERMINAL_RECOVERY_CODES_def TERMINAL_STATES_def)
  moreover have "t_state t' \<notin> OPEN_STATES \<and> t_result_run t' = None"
    if "map_of (tasks db) k' = Some t'" "fst k' = fst k" "t_case t' = t_case t"
      "t_case_revision t' = t_case_revision t" for k' t'
    using no map_of_SomeD [OF that(1)] that(2-) by (auto simp: list_ex_iff OPEN_STATES_def)
  ultimately show ?thesis by blast
qed

definition demo_transient :: task_db where
  "demo_transient = (let db = fst (projr (fail_agent_task demo_session (1, 50) ''w1'' 1 ''deadline_exceeded''
     False False 3000 demo_claimed)) in db)"

definition demo_retry :: retry_request where
  "demo_retry = \<lparr>rq_org = 1, rq_actor = 5, rq_source = 50, rq_expected_row_version = 3,
     rq_expected_case_revision = 1, rq_task = 60, rq_manifest = JObj [],
     rq_request_hash = demo_hash CHR ''9'', rq_key_hash = demo_hash CHR ''c''\<rparr>"

lemma retry_needs_recoverable_task_witness:
  "t_state (the (map_of (tasks demo_transient) (1, 50))) \<in> TERMINAL_STATES
   \<and> retry_eligible demo_catalog (1, 50) (the (map_of (tasks demo_transient) (1, 50))) demo_transient"
proof -
  have "retry_eligible demo_catalog (1, 50) (the (map_of (tasks demo_transient) (1, 50))) demo_transient"
    by code_simp
  with retry_needs_recoverable_task [OF this] show ?thesis by blast
qed

text \<open>A recovery makes a new task and touches nothing else: the successor is queued, carries the pins of
  its source under the current catalog, and is marked with it; the source itself is unchanged.\<close>

theorem retry_makes_marked_successor:
  assumes "retry_agent_task cat inner ses r now db = Inr (db', out)"
    and "map_of (idempotency db) (retry_key r) = None"
    and "map_of (tasks db) (rq_org r, rq_source r) = Some t"
    and "map_of (idempotency db) (create_key (retry_create_request inner r t)) = None"
  shows "\<exists>s. map_of (tasks db') (rq_org r, rq_task r) = Some s \<and> t_state s = TS_QUEUED
    \<and> t_retried_from s = Some (rq_source r) \<and> t_case s = t_case t \<and> t_operation s = t_operation t
    \<and> t_case_revision s = rq_expected_case_revision r \<and> t_source_pack s = t_source_pack t
    \<and> t_attempt_count s = 0 \<and> map_of (tasks db') (rq_org r, rq_source r) = Some t"
  using assms(1)
proof (cases rule: retry_cases)
  case (replay t' prior s)
  with assms(2) show ?thesis by simp
next
  case (created t' db1 c again created_id)
  then have t': "t' = t" using assms(3) by simp
  let ?q = "retry_create_request inner r t"
  have q: "cq_org ?q = rq_org r" "cq_task ?q = rq_task r" "cq_case ?q = t_case t" "cq_operation ?q = t_operation t"
    "cq_revision ?q = rq_expected_case_revision r" "cq_pack ?q = t_source_pack t"
    by (simp_all add: retry_create_request_def)
  from created(4) t' assms(4) obtain pin row c' where
    i: "insert_task ?q (new_task ?q pin row now) now
          (db\<lparr>cases := AList.update (cq_org ?q, cq_case ?q) c' (cases db)\<rparr>) = Inr (db1, c, again)"
    by (auto simp: create_agent_task_def create_fresh_def)
  from i have id: "created_id = rq_task r"
    unfolding created(5) t' by (auto simp: insert_task_def Let_def q split: if_splits)
  note rows = insert_task_rows [OF i, unfolded q, simplified]
  have t1: "map_of (tasks db1) (rq_org r, rq_task r) = Some (new_task ?q pin row now)"
    "map_of (tasks db1) (rq_org r, rq_source r) = Some t" "rq_task r \<noteq> rq_source r"
    using rows assms(3) by (auto simp: map_add_def)
  then show ?thesis
    by (simp add: created(6) id mark_retried_def) (simp add: new_task_def q)
qed

lemma retry_makes_marked_successor_witness:
  "\<exists>db' out. retry_agent_task demo_catalog (\<lambda>s h. demo_hash CHR ''d'') demo_session demo_retry 6000 demo_transient
      = Inr (db', out)
    \<and> (\<exists>s. map_of (tasks db') (1, 60) = Some s \<and> t_retried_from s = Some 50)"
proof -
  let ?inner = "\<lambda>s h :: sha. demo_hash CHR ''d''"
  have ok: "is_ok (retry_agent_task demo_catalog ?inner demo_session demo_retry 6000 demo_transient)" by code_simp
  have n: "map_of (idempotency demo_transient) (retry_key demo_retry) = None" by code_simp
  have t: "map_of (tasks demo_transient) (rq_org demo_retry, rq_source demo_retry)
      = Some (the (map_of (tasks demo_transient) (1, 50)))" by code_simp
  have n2: "map_of (idempotency demo_transient) (create_key (retry_create_request ?inner demo_retry
      (the (map_of (tasks demo_transient) (1, 50))))) = None" by code_simp
  have k: "rq_org demo_retry = 1" "rq_task demo_retry = 60" "rq_source demo_retry = 50"
    by (simp_all add: demo_retry_def)
  from retry_makes_marked_successor [OF projr_ok [OF ok] n t n2, unfolded k] projr_ok [OF ok]
  show ?thesis by blast
qed

end
