(* ===== verification/Task_Limits.thy ===== *)
theory Task_Limits
  imports Task_Commands
begin

text \<open>
  How far a call of the task authority reaches, and three places where the code does
  not do what it means to do: a second task of a case that already has a current
  run, a lease that stays abandoned for more than 24 days, and a task that fails for
  its Skill pin.
\<close>

text \<open>A call reaches one task: every step of the system leaves the row, the executions, the events and
  the dispatch row of all tasks but one as they were.\<close>

theorem step_touches_one_task:
  assumes "task_reachable db" and "task_step db db'"
  shows "\<exists>k. \<forall>k'. k' \<noteq> k \<longrightarrow> map_of (tasks db') k' = map_of (tasks db) k'
    \<and> executions_of k' db' = executions_of k' db \<and> events_of k' db' = events_of k' db
    \<and> map_of (dispatch db') k' = map_of (dispatch db) k'"
proof -
  have inv: "task_invariant db" by (rule reachable_invariant [OF assms(1)])
  from assms(2) have "\<exists>k. touches_only k db db'"
  proof (cases rule: task_step.cases)
    case step_create
    from create_keeps [OF inv this] show ?thesis by (auto simp: keeps_def)
  next
    case step_cancel
    from cancel_keeps [OF inv this] show ?thesis unfolding keeps_def by blast
  next
    case step_claim
    from claim_keeps [OF inv this] show ?thesis unfolding keeps_def by blast
  next
    case step_start
    from start_keeps [OF inv this] show ?thesis unfolding keeps_def by blast
  next
    case step_heartbeat
    from heartbeat_keeps [OF inv this] show ?thesis unfolding keeps_def by blast
  next
    case step_fail
    from fail_keeps [OF inv this] show ?thesis unfolding keeps_def by blast
  next
    case step_finalize
    from finalize_keeps [OF inv this] show ?thesis unfolding keeps_def by blast
  next
    case step_retry
    from retry_keeps [OF inv this] show ?thesis unfolding keeps_def by blast
  next
    case step_environment
    then have "touches_only k db db'" for k by (intro touches_frame)
    then show ?thesis by blast
  qed
  then show ?thesis unfolding touches_only_def by blast
qed

lemma step_touches_one_task_witness:
  "\<exists>k. \<forall>k'. k' \<noteq> k \<longrightarrow> map_of (tasks demo_claimed) k' = map_of (tasks demo_created) k'"
proof -
  have "task_step demo_created demo_claimed"
    unfolding demo_claimed_def by (rule step_claim [OF demo_runs(2)])
  from step_touches_one_task [OF demo_reachable(2) this] show ?thesis by blast
qed

section \<open>A second task of a case with a current run\<close>

text \<open>C38: While a case has a current run, no task of it can record a result, whatever the result and the
  catalog are: the finalize of a task without a result is never accepted.\<close>

theorem current_run_blocks_results:
  assumes "map_of (tasks db) k = Some t" and "t_result_run t = None"
    and "current_run_exists (fst k) (t_case t) db"
  shows "\<not> is_ok (finalize_agent_task_result cat ok ses k worker gen q now db)"
proof
  assume "is_ok (finalize_agent_task_result cat ok ses k worker gen q now db)"
  then obtain db1 st where "finalize_agent_task_result cat ok ses k worker gen q now db = Inr (db1, st)"
    by (auto simp: is_ok_iff)
  then show False
  proof (cases rule: finalize_cases)
    case (replay t')
    with assms(1,2) show ?thesis by simp
  next
    case (recorded t' dbp db2)
    with assms(1,3) show ?thesis by (auto elim: persist_result)
  qed
qed

text \<open>The situation arises: after a blocked result the case stays in planning, and a second task is
  admitted and leased.\<close>

definition demo_blocked :: task_db where
  "demo_blocked = fst (projr (finalize_agent_task_result demo_catalog (\<lambda>q. True) demo_session (1, 50) ''w1'' 1
     (demo_result RS_BLOCKED 90) 5000 demo_claimed))"

definition demo_create_again :: create_request where
  "demo_create_again = demo_create\<lparr>cq_task := 51, cq_key_hash := demo_hash CHR ''3''\<rparr>"

definition demo_second :: task_db where
  "demo_second = fst (projr (claim_agent_task demo_catalog [] ''w1'' 7000
     (fst (projr (create_agent_task demo_catalog demo_session demo_create_again 6000 demo_blocked)))))"

lemma current_run_blocks_results_witness:
  "is_ok (create_agent_task demo_catalog demo_session demo_create_again 6000 demo_blocked)
   \<and> t_state (the (map_of (tasks demo_second) (1, 51))) = TS_LEASED
   \<and> finalize_agent_task_result demo_catalog (\<lambda>q. True) demo_session (1, 51) ''w1'' 1
        (demo_result RS_REVIEW_REQUIRED 91) 8000 demo_second = Inl UNIQUE_VIOLATION
   \<and> (\<forall>q. \<not> is_ok (finalize_agent_task_result demo_catalog (\<lambda>q. True) demo_session (1, 51) ''w1'' 1 q 8000
        demo_second))"
proof -
  have t: "map_of (tasks demo_second) (1, 51) = Some (the (map_of (tasks demo_second) (1, 51)))"
    "t_result_run (the (map_of (tasks demo_second) (1, 51))) = None"
    "current_run_exists (fst (1, 51)) (t_case (the (map_of (tasks demo_second) (1, 51)))) demo_second"
    by code_simp+
  have "is_ok (create_agent_task demo_catalog demo_session demo_create_again 6000 demo_blocked)"
    "t_state (the (map_of (tasks demo_second) (1, 51))) = TS_LEASED"
    "finalize_agent_task_result demo_catalog (\<lambda>q. True) demo_session (1, 51) ''w1'' 1
        (demo_result RS_REVIEW_REQUIRED 91) 8000 demo_second = Inl UNIQUE_VIOLATION" by code_simp+
  with current_run_blocks_results [OF t] show ?thesis by blast
qed

section \<open>A lease that stays abandoned\<close>

lemma traverse_fails:
  assumes "traverse f xs = Inr ys" and "x \<in> set xs"
  shows "is_ok (f x)"
  using assms by (induction xs arbitrary: ys) (auto simp: is_ok_iff)

lemma close_open_fails:
  assumes "x \<in> set (executions_of k db)" "x_lease_generation x = gen" "x_status x \<in> {XS_LEASED, XS_RUNNING}"
    and "\<not> is_ok (duration_ms now x)"
  shows "\<not> is_ok (close_open_execution k gen now st again code db)"
proof
  assume "is_ok (close_open_execution k gen now st again code db)"
  then obtain db' where "close_open_execution k gen now st again code db = Inr db'" by (auto simp: is_ok_iff)
  from traverse_fails [OF close_open_only(2) [OF this] assms(1)] assms(2-4)
  show False by (auto simp: is_ok_iff finish_execution_def)
qed

text \<open>C39: A lease abandoned for too long can never be taken back: when the open execution of a leased task
  began more than \<open>2 ^ 31\<close> milliseconds ago, the claim that finds the task and every cancellation of it
  fail, because the duration no longer fits its column.\<close>

theorem abandoned_lease_is_stuck:
  assumes "task_reachable db" and "claim_candidate locked now db = Some k"
    and "map_of (tasks db) k = Some t" and "t_state t \<in> LEASED_STATES" and "pin_valid cat k t"
    and "(now - (case x_started_at (last (executions_of k db)) of
                   Some s \<Rightarrow> s | None \<Rightarrow> x_created_at (last (executions_of k db)))) div 1000 > 2147483647"
  shows "\<not> is_ok (claim_agent_task cat locked worker now db)
    \<and> (map_of (idempotency db) (cancel_key r) = None \<and> (xq_org r, xq_task r) = k \<longrightarrow>
         \<not> is_ok (cancel_agent_task cat' ses r now db))"
proof -
  let ?x = "last (executions_of k db)"
  note v = reachable_view [OF assms(1,3)]
  then have ok: "executions_ok t (executions_of k db)" by (simp add: view_ok_def)
  have ne: "executions_of k db \<noteq> []" "x_status ?x \<in> {XS_LEASED, XS_RUNNING}"
    using ok assms(4) by (auto simp: executions_ok_def LEASED_STATES_def)
  have gen: "x_lease_generation ?x = t_lease_generation t"
    using last_generation(1) [OF ok ne(1)] v by (simp add: view_ok_def lease_ok_def executions_ok_def)
  have "\<not> is_ok (duration_ms now ?x)" using assms(6) by (simp add: duration_ms_def Let_def)
  with close_open_fails [of ?x k db "t_lease_generation t"] ne gen
  have closed: "\<not> is_ok (close_open_execution k (t_lease_generation t) now st again code db)" for st again code
    by simp
  have inv: "task_invariant db" by (rule reachable_invariant [OF assms(1)])
  have "\<not> is_ok (claim_agent_task cat locked worker now db)"
  proof
    assume "is_ok (claim_agent_task cat locked worker now db)"
    then obtain db' out where c: "claim_agent_task cat locked worker now db = Inr (db', out)"
      by (auto simp: is_ok_iff)
    from v assms(4) have expiry: "map_of (dispatch db) k = t_lease_expires_at t"
      by (simp add: view_ok_def dispatch_ok_def)
    from claim_serves_due [of db now locked] inv assms(2)
    obtain a where a: "map_of (dispatch db) k = Some a" "a \<le> now" by (auto simp: task_invariant_def)
    from inv c show False
    proof (cases rule: claim_cases)
      case (exhausted k' t' e db1)
      with assms(2,3) closed show ?thesis by (metis is_ok.simps(1) option.inject)
    next
      case (reclaimed k' t' e db1)
      with assms(2,3) closed show ?thesis by (metis is_ok.simps(1) option.inject)
    qed (use assms(2-5) expiry a in \<open>auto simp: TERMINAL_STATES_def LEASED_STATES_def\<close>)
  qed
  moreover have "\<not> is_ok (cancel_agent_task cat' ses r now db)"
    if "map_of (idempotency db) (cancel_key r) = None" "(xq_org r, xq_task r) = k"
    using that assms(3) closed [of XS_CANCELLED False "''cancelled''"]
    by (auto simp: cancel_agent_task_def Let_def is_ok_iff split: if_splits)
  ultimately show ?thesis by blast
qed

lemma abandoned_lease_is_stuck_witness:
  "claim_candidate [] 2147483700000000 demo_claimed = Some (1, 50)
   \<and> \<not> is_ok (claim_agent_task demo_catalog [] ''w2'' 2147483700000000 demo_claimed)
   \<and> \<not> is_ok (cancel_agent_task demo_catalog demo_session demo_cancel 2147483700000000 demo_claimed)"
proof -
  have c: "claim_candidate [] 2147483700000000 demo_claimed = Some (1, 50)"
    "map_of (tasks demo_claimed) (1, 50) = Some (the (map_of (tasks demo_claimed) (1, 50)))"
    "t_state (the (map_of (tasks demo_claimed) (1, 50))) \<in> LEASED_STATES"
    "pin_valid demo_catalog (1, 50) (the (map_of (tasks demo_claimed) (1, 50)))"
    "(2147483700000000 - (case x_started_at (last (executions_of (1, 50) demo_claimed)) of
        Some s \<Rightarrow> s | None \<Rightarrow> x_created_at (last (executions_of (1, 50) demo_claimed)))) div 1000 > 2147483647"
    by code_simp+
  have x: "map_of (idempotency demo_claimed) (cancel_key demo_cancel) = None"
    "(xq_org demo_cancel, xq_task demo_cancel) = (1, 50)" by code_simp+
  from abandoned_lease_is_stuck [OF demo_reachable(3) c, of "''w2''" demo_cancel demo_catalog demo_session] x c(1)
  show ?thesis by blast
qed

section \<open>A task that fails for its Skill pin\<close>

text \<open>C40: A claim that fails a task for its Skill pin leaves the execution of its last attempt open: the
  task has ended and its execution still says it is leased or running, for ever.\<close>

theorem pin_failure_leaves_execution_open:
  assumes "task_reachable db" and "claim_agent_task cat locked worker now db = Inr (db', out)"
    and "claim_candidate locked now db = Some k" and "map_of (tasks db) k = Some t"
    and "t_state t \<in> LEASED_STATES" and "\<not> pin_valid cat k t"
  shows "(\<exists>t'. map_of (tasks db') k = Some t' \<and> t_state t' = TS_FAILED)
    \<and> x_status (last (executions_of k db')) \<in> {XS_LEASED, XS_RUNNING}
    \<and> executions_of k db' \<noteq> []"
proof -
  note v = reachable_view [OF assms(1,4)]
  have "t_state t \<notin> TERMINAL_STATES" using assms(5) by (auto simp: TERMINAL_STATES_def LEASED_STATES_def)
  with assms(2-4,6) have db': "db' = claim_failure k ''skill_pin_invalid'' t now db"
    by (auto simp: claim_agent_task_def split: if_splits)
  have "x_status (last (executions_of k db)) \<in> {XS_LEASED, XS_RUNNING}" "executions_of k db \<noteq> []"
    using v assms(5) by (auto simp: view_ok_def executions_ok_def LEASED_STATES_def)
  then show ?thesis by (simp add: db' claim_failure_def release_def)
qed

lemma pin_failure_leaves_execution_open_witness:
  "x_status (last (executions_of (1, 50) (fst (projr (claim_agent_task
      (demo_catalog\<lparr>pin_registered := \<lambda>org p. False\<rparr>) [] ''w2'' 70000000 demo_claimed))))) \<in> {XS_LEASED, XS_RUNNING}"
proof -
  let ?cat = "demo_catalog\<lparr>pin_registered := \<lambda>org p. False\<rparr>"
  have ok: "is_ok (claim_agent_task ?cat [] ''w2'' 70000000 demo_claimed)" by code_simp
  have c: "claim_candidate [] 70000000 demo_claimed = Some (1, 50)"
    "map_of (tasks demo_claimed) (1, 50) = Some (the (map_of (tasks demo_claimed) (1, 50)))"
    "t_state (the (map_of (tasks demo_claimed) (1, 50))) \<in> LEASED_STATES"
    "\<not> pin_valid ?cat (1, 50) (the (map_of (tasks demo_claimed) (1, 50)))" by code_simp+
  from pin_failure_leaves_execution_open [OF demo_reachable(3) projr_ok [OF ok] c] show ?thesis by blast
qed

end
