(* ===== verification/Decision.thy ===== *)
theory Decision
  imports Planning_Policy
begin

text \<open>
  \<open>decision/models.py\<close> and \<open>decision/policy.py\<close>: the advisor's review command, the
  decision brief with its eligible routes, the family's decision and the
  deterministic timeline of the selected route.
\<close>

section \<open>Models\<close>

datatype review_action = APPROVE_FOR_CONSULTATION | REJECT | REQUEST_REVISION

datatype decision_source = DIRECT | FAMILY_CONSULTATION

datatype evidence_risk_kind = RISK_OPTIONAL | RISK_STALE | RISK_UNVERIFIED

record evidence_risk_acceptance =
  era_evidence_id :: uuid
  kind :: evidence_risk_kind
  reason :: string

fun narrow_kind :: "string \<Rightarrow> evidence_risk_kind result" where
  "narrow_kind v =
     (if v = ''optional'' then Inr RISK_OPTIONAL
      else if v = ''stale'' then Inr RISK_STALE
      else if v = ''unverified'' then Inr RISK_UNVERIFIED
      else Inl (ValueError ''Evidence risk acceptance cannot waive this risk''))"

record brief_route =
  route_id :: uuid
  br_country :: country
  br_outcome :: route_outcome
  br_reason_code :: string

record decision_brief =
  db_schema_version :: int
  db_intake :: string
  db_routes :: "brief_route list"
  db_eligible_route_ids :: "uuid list"
  accepted_evidence_risks :: "evidence_risk_acceptance list"
  synthetic_proof :: bool

definition eligible_routes_are_present_and_unblocked :: "decision_brief \<Rightarrow> decision_brief result" where
  "eligible_routes_are_present_and_unblocked b =
     (if db_schema_version b \<noteq> 1 then Inl (ValueError ''field'')
      else if list_ex (\<lambda>i. case dict_of route_id (db_routes b) i of None \<Rightarrow> True
                         | Some r \<Rightarrow> br_outcome r = RO_BLOCKED) (db_eligible_route_ids b) then
        Inl (ValueError ''eligible route must be present and non-blocked'')
      else Inr b)"

record family_decision_command =
  fdc_schema_version :: int
  fdc_brief_id :: uuid
  expected_brief_version :: int
  selected_route_id :: uuid
  accepted_budget_min_minor :: int
  accepted_budget_max_minor :: int
  fdc_currency :: string
  accepted_trade_offs :: "string list"
  decision_made_by_actor_id :: uuid
  fdc_source :: decision_source

definition valid_range :: "family_decision_command \<Rightarrow> family_decision_command result" where
  "valid_range c =
     (if \<not> (fdc_schema_version c = 1 \<and> 0 < expected_brief_version c
             \<and> 0 < accepted_budget_min_minor c \<and> 0 < accepted_budget_max_minor c
             \<and> fdc_currency c = ''CNY'') then Inl (ValueError ''field'')
      else if accepted_budget_min_minor c > accepted_budget_max_minor c then
        Inl (ValueError ''accepted budget range is invalid'')
      else Inr c)"

record timeline_milestone =
  key :: string
  due_date :: date

record timeline_plan =
  tp_schema_version :: int
  tp_country :: country
  tp_intake :: string
  milestones :: "timeline_milestone list"

record review_command =
  rc_schema_version :: int
  rc_case_id :: uuid
  rc_planning_run_id :: uuid
  expected_case_revision :: int
  action :: review_action
  rc_review_id :: uuid
  rc_eligible_route_ids :: "uuid list"
  risk_acceptances :: "evidence_risk_acceptance list"
  reviewer_notes :: "string option"
  rc_brief_id :: "uuid option"

definition action_payload :: "review_command \<Rightarrow> review_command result" where
  "action_payload c =
     (let approving = (action c = APPROVE_FOR_CONSULTATION) in
      if \<not> (rc_schema_version c = 1 \<and> 0 < expected_case_revision c) then Inl (ValueError ''field'')
      else if approving \<noteq> (rc_brief_id c \<noteq> None) then
        Inl (ValueError ''only approval creates a decision brief'')
      else if \<not> approving \<and> (rc_eligible_route_ids c \<noteq> [] \<or> risk_acceptances c \<noteq> []) then
        Inl (ValueError ''non-approval review cannot grant eligibility or accept risks'')
      else Inr c)"

section \<open>Policy\<close>

definition eligible_route_ids :: "brief_route list \<Rightarrow> uuid list" where
  "eligible_route_ids rs =
     map route_id (filter (\<lambda>r. br_country r = AUSTRALIA
        \<and> br_outcome r = RO_RECOMMENDED_WITH_CONDITION) rs)"

definition validate_risk_acceptances :: "evidence_risk_acceptance list \<Rightarrow> unit result" where
  "validate_risk_acceptances as =
     (if card (era_evidence_id ` set as) \<noteq> length as then
        Inl (ValueError ''Evidence risk acceptance must be unique'') else Inr ())"

definition validate_family_decision ::
  "family_decision_command \<Rightarrow> decision_brief \<Rightarrow> uuid \<Rightarrow> int \<Rightarrow> int \<Rightarrow> int \<Rightarrow> unit result" where
  "validate_family_decision command brief brief_id brief_version hard_ceiling pinned_cost =
     (if fdc_brief_id command \<noteq> brief_id \<or> expected_brief_version command \<noteq> brief_version then
        Inl (ValueError ''decision brief is stale'')
      else if selected_route_id command \<notin> set (db_eligible_route_ids brief) then
        Inl (ValueError ''selected route is not eligible'')
      else case find (\<lambda>r. route_id r = selected_route_id command) (db_routes brief) of
        None \<Rightarrow> Inl StopIteration
      | Some route \<Rightarrow>
          if accepted_budget_max_minor command > hard_ceiling then
            Inl (ValueError ''accepted budget exceeds pinned hard ceiling'')
          else if br_country route = AUSTRALIA then
            (if ''budget_elasticity'' \<notin> set (accepted_trade_offs command) then
               Inl (ValueError ''Australia requires budget_elasticity trade-off'')
             else if \<not> (accepted_budget_min_minor command \<le> pinned_cost
                         \<and> pinned_cost \<le> accepted_budget_max_minor command) then
               Inl (ValueError ''accepted budget must contain pinned cost'')
             else Inr ())
          else Inr ())"

section \<open>The timeline\<close>

text \<open>\<open>int(text)\<close> on ASCII text: surrounding white space, a sign, digits with single underscores.\<close>

definition is_space :: "char \<Rightarrow> bool" where
  "is_space c \<longleftrightarrow> of_char c \<in> ({9, 10, 11, 12, 13, 28, 29, 30, 31, 32} :: nat set)"

definition strip :: "string \<Rightarrow> string" where
  "strip s = rev (dropWhile is_space (rev (dropWhile is_space s)))"

definition digit_value :: "char \<Rightarrow> int option" where
  "digit_value c =
     (if (48::int) \<le> of_char c \<and> of_char c \<le> (57::int) then Some (of_char c - 48) else None)"

fun parse_digits :: "int \<Rightarrow> string \<Rightarrow> int option" where
  "parse_digits acc [] = Some acc"
| "parse_digits acc (c # cs) =
     (if c = CHR ''_'' then
        (case cs of [] \<Rightarrow> None
         | d # ds \<Rightarrow> (case digit_value d of None \<Rightarrow> None
                      | Some v \<Rightarrow> parse_digits (10 * acc + v) ds))
      else (case digit_value c of None \<Rightarrow> None
            | Some v \<Rightarrow> parse_digits (10 * acc + v) cs))"

definition parse_unsigned :: "string \<Rightarrow> int option" where
  "parse_unsigned s =
     (case s of [] \<Rightarrow> None
      | c # cs \<Rightarrow> (case digit_value c of None \<Rightarrow> None | Some v \<Rightarrow> parse_digits v cs))"

definition py_int :: "string \<Rightarrow> int result" where
  "py_int s =
     (let t = strip s;
          v = (case t of [] \<Rightarrow> None
               | c # cs \<Rightarrow> if c = CHR ''-'' then map_option uminus (parse_unsigned cs)
                           else if c = CHR ''+'' then parse_unsigned cs
                           else parse_unsigned t) in
      case v of None \<Rightarrow> Inl (ValueError ''invalid literal for int'') | Some n \<Rightarrow> Inr n)"

text \<open>\<open>intake.split("-", maxsplit=1)\<close> unpacked into two integers.\<close>

definition year_month :: "string \<Rightarrow> (int \<times> int) result" where
  "year_month s =
     (case dropWhile (\<lambda>c. c \<noteq> CHR ''-'') s of
        [] \<Rightarrow> bind_result (py_int s) (\<lambda>_. Inl (ValueError ''not enough values to unpack''))
      | _ # rest \<Rightarrow>
          bind_result (py_int (takeWhile (\<lambda>c. c \<noteq> CHR ''-'') s)) (\<lambda>y.
          bind_result (py_int rest) (\<lambda>m. Inr (y, m))))"

definition mk_date :: "int \<Rightarrow> int \<Rightarrow> int \<Rightarrow> date result" where
  "mk_date y m d =
     (if 1 \<le> y \<and> y \<le> 9999 then Inr (y, m, d) else Inl (ValueError ''year is out of range''))"

definition build_timeline_plan :: "country \<Rightarrow> string \<Rightarrow> date \<Rightarrow> timeline_plan result" where
  "build_timeline_plan country when decided_on =
     (if country \<noteq> AUSTRALIA then
        Inl (ValueError ''M3B synthetic timeline supports the selected Australia route'')
      else bind_result (year_month when) (\<lambda>(year, month).
        if month \<noteq> 2 then
          Inl (ValueError ''M3B synthetic timeline requires the February intake'')
        else bind_result (mk_date (year - 1) 9 1) (\<lambda>documents.
          if decided_on \<ge> documents then
            Inl (ValueError ''decision date is outside the deterministic timeline window'')
          else
            bind_result (mk_date (year - 1) 10 15) (\<lambda>application.
            bind_result (mk_date (year - 1) 12 15) (\<lambda>visa.
            bind_result (mk_date year 1 20) (\<lambda>arrival.
              Inr \<lparr>tp_schema_version = 1, tp_country = country, tp_intake = when,
                   milestones = [\<lparr>key = ''documents'', due_date = documents\<rparr>,
                                 \<lparr>key = ''application'', due_date = application\<rparr>,
                                 \<lparr>key = ''visa'', due_date = visa\<rparr>,
                                 \<lparr>key = ''arrival'', due_date = arrival\<rparr>]\<rparr>))))))"

section \<open>Lemmas and properties\<close>

text \<open>The brief an advisor's approval builds from the routes of a run.\<close>

definition brief_of :: "string \<Rightarrow> brief_route list \<Rightarrow> evidence_risk_acceptance list \<Rightarrow> decision_brief" where
  "brief_of when rs risks =
     \<lparr>db_schema_version = 1, db_intake = when, db_routes = rs,
      db_eligible_route_ids = eligible_route_ids rs, accepted_evidence_risks = risks,
      synthetic_proof = True\<rparr>"

lemma eligible_route_unblocked:
  assumes "distinct (map route_id rs)" "i \<in> set (eligible_route_ids rs)"
  shows "\<exists>r. dict_of route_id rs i = Some r \<and> find (\<lambda>r. route_id r = i) rs = Some r
           \<and> br_country r = AUSTRALIA \<and> br_outcome r = RO_RECOMMENDED_WITH_CONDITION"
proof -
  from assms(2) obtain r where r: "r \<in> set rs" "route_id r = i" "br_country r = AUSTRALIA"
      "br_outcome r = RO_RECOMMENDED_WITH_CONDITION"
    by (auto simp: eligible_route_ids_def)
  from r(1,2) obtain q where q: "find (\<lambda>r. route_id r = i) rs = Some q"
    by (cases "find (\<lambda>r. route_id r = i) rs") (auto simp: find_None_iff)
  then have "q \<in> set rs" "route_id q = i" by (auto simp: find_Some_iff)
  with r assms(1) have "q = r" by (auto simp: distinct_map inj_on_def)
  with q r assms(1) show ?thesis by (auto simp: dict_of_distinct)
qed

text \<open>A brief whose eligible routes are those of the policy passes its own check; and a family
  decision accepted against it selects a recommended Australian route of the brief, accepts the
  budget trade-off, and takes a budget range that contains the pinned cost and stays within the
  pinned hard ceiling.\<close>

theorem family_decision_within_budget:
  assumes "distinct (map route_id rs)" and "valid_range cmd = Inr cmd"
    and "validate_family_decision cmd (brief_of when rs risks) bid bver hard cost = Inr ()"
  shows "eligible_routes_are_present_and_unblocked (brief_of when rs risks)
           = Inr (brief_of when rs risks)
     \<and> fdc_brief_id cmd = bid \<and> expected_brief_version cmd = bver
     \<and> (\<exists>r\<in>set rs. route_id r = selected_route_id cmd \<and> br_country r = AUSTRALIA
            \<and> br_outcome r = RO_RECOMMENDED_WITH_CONDITION)
     \<and> ''budget_elasticity'' \<in> set (accepted_trade_offs cmd)
     \<and> 0 < accepted_budget_min_minor cmd \<and> accepted_budget_min_minor cmd \<le> cost
     \<and> cost \<le> accepted_budget_max_minor cmd \<and> accepted_budget_max_minor cmd \<le> hard"
proof -
  have "eligible_routes_are_present_and_unblocked (brief_of when rs risks)
           = Inr (brief_of when rs risks)"
    using eligible_route_unblocked [OF assms(1)]
    by (fastforce simp: eligible_routes_are_present_and_unblocked_def brief_of_def list_ex_iff)
  moreover from assms(3) have "selected_route_id cmd \<in> set (eligible_route_ids rs)"
    by (auto simp: validate_family_decision_def brief_of_def split: if_splits)
  from eligible_route_unblocked [OF assms(1) this] obtain r where
    r: "find (\<lambda>r. route_id r = selected_route_id cmd) rs = Some r" "br_country r = AUSTRALIA"
      "br_outcome r = RO_RECOMMENDED_WITH_CONDITION" by blast
  moreover from r(1) have "r \<in> set rs" "route_id r = selected_route_id cmd"
    by (auto simp: find_Some_iff)
  ultimately show ?thesis
    using assms(2,3)
    by (auto simp: validate_family_decision_def brief_of_def valid_range_def not_le not_less
        split: if_splits)
qed

definition witness_command :: family_decision_command where
  "witness_command = \<lparr>fdc_schema_version = 1, fdc_brief_id = 5, expected_brief_version = 1,
     selected_route_id = 3, accepted_budget_min_minor = 30000000,
     accepted_budget_max_minor = 36000000, fdc_currency = ''CNY'',
     accepted_trade_offs = [''budget_elasticity''], decision_made_by_actor_id = 9,
     fdc_source = DIRECT\<rparr>"

definition witness_routes :: "brief_route list" where
  "witness_routes =
     [\<lparr>route_id = 3, br_country = AUSTRALIA, br_outcome = RO_RECOMMENDED_WITH_CONDITION,
       br_reason_code = ''complete_cost_and_fx_within_boundary''\<rparr>,
      \<lparr>route_id = 4, br_country = JAPAN, br_outcome = RO_CONDITIONAL,
       br_reason_code = ''synthetic_high_risk_alternative''\<rparr>]"

theorem family_decision_within_budget_witness:
  "accepted_budget_min_minor witness_command \<le> 30550000
   \<and> 30550000 \<le> accepted_budget_max_minor witness_command
   \<and> accepted_budget_max_minor witness_command \<le> 40000000"
proof -
  have d: "distinct (map route_id witness_routes)" by code_simp
  have v: "valid_range witness_command = Inr witness_command" by code_simp
  have a: "validate_family_decision witness_command (brief_of ''2027-02'' witness_routes []) 5 1
             40000000 30550000 = Inr ()" by code_simp
  from family_decision_within_budget [OF d v a] show ?thesis by blast
qed

text \<open>A timeline that is built has the four milestones in strictly increasing order, all after
  the day of the decision, and the last one before the first day of the intake month.\<close>

theorem timeline_plan_ordered:
  assumes "build_timeline_plan c when decided_on = Inr plan"
  shows "c = AUSTRALIA
     \<and> map key (milestones plan) = [''documents'', ''application'', ''visa'', ''arrival'']
     \<and> sorted_wrt (<) (decided_on # map due_date (milestones plan))
     \<and> (\<exists>year. year_month when = Inr (year, 2)
          \<and> (\<forall>m\<in>set (milestones plan). due_date m < (year, 2, 1)))"
  using assms
  by (auto simp: build_timeline_plan_def mk_date_def less_prod_def' not_le split: if_splits prod.splits)

theorem timeline_plan_ordered_witness:
  "\<exists>plan. build_timeline_plan AUSTRALIA ''2027-02'' (2026, 7, 1) = Inr plan
     \<and> sorted_wrt (<) ((2026, 7, 1) # map due_date (milestones plan))"
proof -
  have "is_ok (build_timeline_plan AUSTRALIA ''2027-02'' (2026, 7, 1))" by code_simp
  then obtain plan where "build_timeline_plan AUSTRALIA ''2027-02'' (2026, 7, 1) = Inr plan"
    by (auto simp: is_ok_iff)
  with timeline_plan_ordered [OF this] show ?thesis by blast
qed

end
