(* ===== verification/Task_Streaming.thy ===== *)
theory Task_Streaming
  imports Task_Limits Decision
begin

text \<open>
  \<open>tasks/streaming.py\<close>: the cursor of a client, the pages of a task's event log, the
  frames of server-sent events, and the streaming loop.  The loop may never end, so it
  has fuel; the texts of UUIDs and times are parameters.  The queries of \<open>read_page\<close>
  run over the database of the task authority.
\<close>

section \<open>Cursors and pages\<close>

definition CLOSING_STATES :: "task_state set" where
  "CLOSING_STATES =
     {TS_WAITING_REVIEW, TS_SUCCEEDED, TS_BLOCKED, TS_TIMED_OUT, TS_FAILED, TS_CANCELLED}"

text \<open>\<open>int\<close> refuses more than 4300 digits.\<close>

definition MAX_STR_DIGITS :: nat where
  "MAX_STR_DIGITS = 4300"

definition parse_last_event_id :: "string option \<Rightarrow> int result" where
  "parse_last_event_id raw =
     (case raw of None \<Rightarrow> Inr 0
      | Some s \<Rightarrow>
          if s = [] \<or> \<not> list_all (\<lambda>c. digit_value c \<noteq> None) s then
            Inl (ValueError ''invalid_last_event_id'')
          else if length s > MAX_STR_DIGITS then Inl (ValueError ''Exceeds the limit for integer string conversion'')
          else case parse_unsigned s of
            None \<Rightarrow> Inl (ValueError ''invalid literal for int'')
          | Some v \<Rightarrow> if v < 0 then Inl (ValueError ''invalid_last_event_id'') else Inr v)"

record task_public_event =
  pe_task :: uuid
  pe_sequence :: int
  pe_code :: task_event_code
  pe_status :: task_view_status
  pe_public_code :: "string option"
  pe_attempt_count :: int
  pe_run :: "uuid option"
  pe_created_at :: timestamp

record event_page =
  page_events :: "task_public_event list"
  maximum_sequence :: int
  closing :: bool

datatype page_error = BadLimit | NotAuthorized | EventCursorAhead

definition public_event :: "row_key \<Rightarrow> task_event \<Rightarrow> task_public_event" where
  "public_event k e = \<lparr>pe_task = snd k, pe_sequence = ev_sequence e, pe_code = ev_code e,
     pe_status = ev_status e, pe_public_code = ev_public_code e, pe_attempt_count = ev_attempt_no e,
     pe_run = ev_result_run e, pe_created_at = ev_created_at e\<rparr>"

definition maximum_of :: "row_key \<Rightarrow> task_db \<Rightarrow> int" where
  "maximum_of k db = fold max (map ev_sequence (events_of k db)) 0"

text \<open>The two queries of \<open>read_page\<close> are two statements at the default isolation, so the second one may
  see a later state, \<open>db2\<close>.\<close>

definition read_page ::
  "catalog \<Rightarrow> uuid \<Rightarrow> row_key \<Rightarrow> int \<Rightarrow> nat \<Rightarrow> task_db \<Rightarrow> task_db \<Rightarrow> page_error + event_page" where
  "read_page cat actor k after limit db db2 =
     (if limit < 1 \<or> limit > sse_page_size default_policy then Inl BadLimit
      else case map_of (tasks db) k of None \<Rightarrow> Inl NotAuthorized
      | Some t \<Rightarrow>
          if \<not> advisor_assigned cat (fst k) (t_case t) actor then Inl NotAuthorized
          else if after > maximum_of k db then Inl EventCursorAhead
          else Inr \<lparr>page_events = map (public_event k) (take limit (sort_key ev_sequence
                      (filter (\<lambda>e. ev_sequence e > after \<and> ev_sequence e \<le> maximum_of k db)
                         (events_of k db2)))),
                   maximum_sequence = maximum_of k db,
                   closing = t_state t \<in> CLOSING_STATES\<rparr>)"

section \<open>Frames\<close>

fun event_code_value :: "task_event_code \<Rightarrow> string" where
  "event_code_value EV_QUEUED = ''queued''"
| "event_code_value EV_LEASE_ACQUIRED = ''lease_acquired''"
| "event_code_value EV_EXECUTION_STARTED = ''execution_started''"
| "event_code_value EV_HEARTBEAT_RECORDED = ''heartbeat_recorded''"
| "event_code_value EV_RETRY_SCHEDULED = ''retry_scheduled''"
| "event_code_value EV_LEASE_RECLAIMED = ''lease_reclaimed''"
| "event_code_value EV_WAITING_REVIEW = ''waiting_review''"
| "event_code_value EV_SUCCEEDED = ''succeeded''"
| "event_code_value EV_BLOCKED = ''blocked''"
| "event_code_value EV_TIMED_OUT = ''timed_out''"
| "event_code_value EV_FAILED = ''failed''"
| "event_code_value EV_CANCELLED = ''cancelled''"

fun view_status_value :: "task_view_status \<Rightarrow> string" where
  "view_status_value PREPARING = ''preparing''"
| "view_status_value NEEDS_ADVISOR_REVIEW = ''needs_advisor_review''"
| "view_status_value READY = ''ready''"
| "view_status_value NEEDS_EVIDENCE = ''needs_evidence''"
| "view_status_value VIEW_TIMED_OUT = ''timed_out''"
| "view_status_value VIEW_FAILED = ''failed''"
| "view_status_value VIEW_CANCELLED = ''cancelled''"
| "view_status_value OUTDATED = ''outdated''"

text \<open>Decimal digits, and JSON strings as \<open>json.dumps\<close> writes them with \<open>ensure_ascii\<close>; a character is a
  code point below 256.\<close>

definition digit_char :: "nat \<Rightarrow> char" where
  "digit_char d = char_of (48 + d)"

fun nat_digits :: "nat \<Rightarrow> string" where
  "nat_digits n = (if n < 10 then [digit_char n] else nat_digits (n div 10) @ [digit_char (n mod 10)])"

declare nat_digits.simps [simp del]

definition int_text :: "int \<Rightarrow> string" where
  "int_text i = (if i < 0 then CHR ''-'' # nat_digits (nat (- i)) else nat_digits (nat i))"

definition hex_char :: "nat \<Rightarrow> char" where
  "hex_char d = hex_digits ! (d mod 16)"

definition escape_char :: "char \<Rightarrow> string" where
  "escape_char c =
     (let n = (of_char c :: nat) in
      if n = 34 then [CHR 0x5C, c] else if n = 92 then [CHR 0x5C, c]
      else if n = 10 then [CHR 0x5C, CHR ''n''] else if n = 13 then [CHR 0x5C, CHR ''r'']
      else if n = 9 then [CHR 0x5C, CHR ''t''] else if n = 8 then [CHR 0x5C, CHR ''b'']
      else if n = 12 then [CHR 0x5C, CHR ''f'']
      else if n < 32 \<or> n > 126 then
        [CHR 0x5C, CHR ''u'', CHR ''0'', CHR ''0'', hex_char (n div 16), hex_char n]
      else [c])"

definition json_string :: "string \<Rightarrow> string" where
  "json_string s = CHR 0x22 # concat (map escape_char s) @ [CHR 0x22]"

definition json_opt :: "string option \<Rightarrow> string" where
  "json_opt v = (case v of None \<Rightarrow> ''null'' | Some s \<Rightarrow> json_string s)"

text \<open>\<open>public_data\<close>, dumped with sorted keys and without spaces.\<close>

record texts =
  uuid_text :: "uuid \<Rightarrow> string"
  time_text :: "timestamp \<Rightarrow> string"

definition public_data :: "texts \<Rightarrow> task_public_event \<Rightarrow> (string \<times> string) list" where
  "public_data tx e =
     [(''attempt_count'', int_text (pe_attempt_count e)),
      (''created_at'', json_string (time_text tx (pe_created_at e))),
      (''event_sequence'', int_text (pe_sequence e)),
      (''planning_run_id'', json_opt (map_option (uuid_text tx) (pe_run e))),
      (''public_code'', json_opt (pe_public_code e)),
      (''schema_version'', ''1''),
      (''status'', json_string (view_status_value (pe_status e))),
      (''task_id'', json_string (uuid_text tx (pe_task e)))]"

fun join_with :: "string \<Rightarrow> string list \<Rightarrow> string" where
  "join_with sep [] = []"
| "join_with sep [x] = x"
| "join_with sep (x # y # zs) = x @ sep @ join_with sep (y # zs)"

definition json_object :: "(string \<times> string) list \<Rightarrow> string" where
  "json_object members =
     ''{'' @ join_with '','' (map (\<lambda>(k, v). json_string k @ '':'' @ v) members) @ ''}''"

definition newline :: char where
  "newline = CHR 0x0A"

definition encode_task_event :: "texts \<Rightarrow> task_public_event \<Rightarrow> string" where
  "encode_task_event tx e =
     ''id: '' @ int_text (pe_sequence e) @ [newline] @
     ''event: '' @ event_code_value (pe_code e) @ [newline] @
     ''data: '' @ json_object (public_data tx e) @ [newline, newline]"

section \<open>The stream\<close>

datatype chunk = EventChunk task_public_event | HeartbeatChunk

definition chunk_text :: "texts \<Rightarrow> chunk \<Rightarrow> string" where
  "chunk_text tx c =
     (case c of EventChunk e \<Rightarrow> encode_task_event tx e
      | HeartbeatChunk \<Rightarrow> '': heartbeat'' @ [newline, newline])"

datatype stream_end = Returned | Raised page_error | OutOfFuel

text \<open>\<open>load i c\<close> is the i-th page that the loop loads, after the cursor \<open>c\<close>; \<open>clock i\<close> are the readings of
  the clock after the i-th sleep: for the comparison and for the new heartbeat.\<close>

fun stream_task_events ::
  "nat \<Rightarrow> (nat \<Rightarrow> int \<Rightarrow> page_error + event_page) \<Rightarrow> (nat \<Rightarrow> int \<times> int) \<Rightarrow> nat \<Rightarrow> event_page \<Rightarrow> int \<Rightarrow> int
     \<Rightarrow> chunk list \<times> stream_end" where
  "stream_task_events 0 load clock i page cursor last_heartbeat = ([], OutOfFuel)"
| "stream_task_events (Suc n) load clock i page cursor last_heartbeat =
     (let out = map EventChunk (page_events page);
          cursor' = (if page_events page = [] then cursor else pe_sequence (last (page_events page))) in
      if closing page \<and> cursor' \<ge> maximum_sequence page then (out, Returned)
      else
        let full = (length (page_events page) = sse_page_size default_policy);
            beat = (\<not> full \<and> fst (clock i) - last_heartbeat \<ge> sse_heartbeat_seconds default_policy);
            hb = (if beat then snd (clock i) else last_heartbeat);
            out' = (if beat then out @ [HeartbeatChunk] else out) in
        case load i cursor' of
          Inl e \<Rightarrow> (out', Raised e)
        | Inr page' \<Rightarrow>
            (let (rest, result) = stream_task_events n load clock (Suc i) page' cursor' hb in
             (out' @ rest, result)))"

definition events_sent :: "chunk list \<Rightarrow> task_public_event list" where
  "events_sent cs = List.map_filter (\<lambda>c. case c of EventChunk e \<Rightarrow> Some e | HeartbeatChunk \<Rightarrow> None) cs"

lemma events_sent_simps [simp]:
  "events_sent [] = []" "events_sent (xs @ ys) = events_sent xs @ events_sent ys"
  "events_sent (map EventChunk es) = es" "events_sent [HeartbeatChunk] = []"
  by (simp_all add: events_sent_def List.map_filter_def) (induction es, simp_all)

end
