(* ===== verification/Stream_Properties.thy ===== *)
theory Stream_Properties
  imports Task_Streaming
begin

text \<open>
  What a client of the event stream can rely on: pages are windows of the log, every event
  is delivered once and in order, the stream returns when the task has ended, and a cursor
  that was printed is read back.  Frames are read back in \<open>Stream_Frames\<close>.
\<close>

section \<open>Ended tasks write no events\<close>

definition quiet :: "task_db \<Rightarrow> task_db \<Rightarrow> bool" where
  "quiet db db' \<longleftrightarrow>
     (\<forall>k t. map_of (tasks db) k = Some t \<longrightarrow> t_state t \<in> TERMINAL_STATES \<longrightarrow>
        events_of k db' = events_of k db)"

lemma quiet_frame: "events db' = events db \<Longrightarrow> quiet db db'"
  unfolding quiet_def using events_of_cong by blast

lemma quiet_statements [simp]:
  "quiet db (set_task k t db1) = quiet db db1"
  "quiet db (set_dispatch k a db1) = quiet db db1"
  "quiet db (delete_dispatch k db1) = quiet db db1"
  "quiet db (db1\<lparr>executions := x\<rparr>) = quiet db db1"
  "quiet db (db1\<lparr>idempotency := i\<rparr>) = quiet db db1"
  "quiet db db"
  by (simp_all add: quiet_def events_of_def)

lemma quiet_event:
  "quiet db db1 \<Longrightarrow> (\<And>t. map_of (tasks db) k = Some t \<Longrightarrow> t_state t \<in> LIVE_STATES) \<Longrightarrow>
     quiet db (append_agent_task_event k c s p n r now db1)"
  using terminal_or_live by (fastforce simp: quiet_def events_of_rows append_agent_task_event_def)

lemma quiet_focus:
  assumes "touches_only k db db'"
    and "\<And>t. map_of (tasks db) k = Some t \<Longrightarrow> t_state t \<in> LIVE_STATES"
  shows "quiet db db'"
  unfolding quiet_def
proof (intro allI impI)
  fix k' t assume t: "map_of (tasks db) k' = Some t" "t_state t \<in> TERMINAL_STATES"
  with assms(2) terminal_or_live have "k' \<noteq> k" by blast
  with assms(1) show "events_of k' db' = events_of k' db" unfolding touches_only_def by blast
qed

lemma quiet_leased:
  assumes "leased_task S k worker gen now db = Inr t" and "S \<subseteq> LEASED_STATES" and "keeps k db db'"
  shows "quiet db db'"
proof (rule quiet_focus)
  show "touches_only k db db'" using assms(3) by (simp add: keeps_def)
  fix t' assume "map_of (tasks db) k = Some t'"
  with assms(1,2) show "t_state t' \<in> LIVE_STATES"
    by (auto simp: leased_task_Inr holds_lease_def intro: leased_live)
qed

lemma create_quiet:
  assumes inv: "task_invariant db" and c: "create_agent_task cat ses r now db = Inr (db', out)"
  shows "quiet db db'"
  using c
proof (cases rule: create_rows)
  case replay
  from create_keeps [OF inv c] show ?thesis
  proof
    assume "keeps (cq_org r, cq_task r) db db' \<and> map_of (idempotency db) (create_key r) = None
         \<and> map_of (idempotency db') (create_key r)
             = Some \<lparr>ir_request_sha256 = cq_request_hash r, ir_response_id = cq_task r\<rparr>"
    with c have "tasks db' \<noteq> tasks db"
      by (auto simp: create_agent_task_def create_fresh_def dest!: insert_task_rows)
    with replay show ?thesis by simp
  qed (simp add: quiet_frame)
next
  case (created pin row case_row)
  with create_keeps [OF inv c] have "touches_only (cq_org r, cq_task r) db db'"
    by (auto simp: keeps_def)
  then show ?thesis by (rule quiet_focus) (simp add: created(2))
qed

lemma cancel_quiet:
  assumes inv: "task_invariant db" and c: "cancel_agent_task cat ses r now db = Inr (db', out)"
  shows "quiet db db'"
proof (cases "map_of (idempotency db) (cancel_key r)")
  case (Some prior)
  with c show ?thesis
    by (auto simp: cancel_agent_task_def Let_def quiet_frame split: if_splits)
next
  case None
  show ?thesis
  proof (rule quiet_focus)
    show "touches_only (xq_org r, xq_task r) db db'" using cancel_keeps [OF inv c] by (simp add: keeps_def)
    fix t assume "map_of (tasks db) (xq_org r, xq_task r) = Some t"
    with None c show "t_state t \<in> LIVE_STATES"
      by (auto simp: cancel_agent_task_def Let_def split: option.splits if_splits)
  qed
qed

lemma claim_quiet:
  assumes inv: "task_invariant db" and c: "claim_agent_task cat locked worker now db = Inr (db', out)"
  shows "quiet db db'"
  using inv c
proof (cases rule: claim_cases)
  case (unpinned k t)
  show ?thesis unfolding unpinned(5) claim_failure_def
    by (rule quiet_event) (simp_all add: unpinned(2,3))
next
  case (exhausted k t e db1)
  have "quiet db db1" by (rule quiet_frame [OF only_executionsD(2) [OF close_open_only(1) [OF exhausted(7)]]])
  then show ?thesis unfolding exhausted(8) claim_failure_def
    by (intro quiet_event) (use exhausted(2) leased_live [OF exhausted(3)] in simp_all)
next
  case (reclaimed k t e db1)
  have "quiet db db1" by (rule quiet_frame [OF only_executionsD(2) [OF close_open_only(1) [OF reclaimed(8)]]])
  with reclaimed(2,9) leased_live [OF reclaimed(3)] show ?thesis
    by (auto simp: lease_task_def Let_def intro!: quiet_event)
next
  case (fresh k t)
  moreover from this have "t_state t \<in> LIVE_STATES" by (simp add: LIVE_STATES_def)
  ultimately show ?thesis by (auto simp: lease_task_def Let_def quiet_frame intro!: quiet_event)
qed (simp_all add: quiet_frame)

lemma mark_retried_quiet [simp]: "quiet db (mark_retried k source db1) = quiet db db1"
  by (simp add: mark_retried_def split: option.splits)

lemma retry_quiet:
  assumes inv: "task_invariant db" and "retry_agent_task cat inner ses r now db = Inr (db', out)"
  shows "quiet db db'"
  using assms(2)
proof (cases rule: retry_cases)
  case (created t db1 c again created_id)
  show ?thesis using create_quiet [OF inv created(4)] by (simp add: created(6))
qed simp

lemma step_quiet:
  assumes "task_step db db'" and inv: "task_invariant db"
  shows "quiet db db'"
  using assms(1)
proof (cases rule: task_step.cases)
  case (step_start ses k worker gen input now)
  from this obtain t where "leased_task {TS_LEASED} k worker gen now db = Inr t"
    by (auto simp: start_agent_task_def Let_def split: if_splits)
  then show ?thesis by (rule quiet_leased [OF _ _ start_keeps [OF inv step_start]]) (simp add: LEASED_STATES_def)
next
  case (step_heartbeat ses k worker gen now expiry)
  from this obtain t where "leased_task LEASED_STATES k worker gen now db = Inr t"
    by (auto simp: heartbeat_agent_task_def Let_def)
  then show ?thesis by (rule quiet_leased [OF _ order_refl heartbeat_keeps [OF inv step_heartbeat]])
next
  case (step_fail ses k worker gen code again fallback now st)
  from this obtain t where "leased_task LEASED_STATES k worker gen now db = Inr t"
    by (auto simp: fail_agent_task_def split: if_splits)
  then show ?thesis by (rule quiet_leased [OF _ order_refl fail_keeps [OF inv step_fail]])
next
  case (step_finalize cat accepted ses k worker gen q now st)
  note keep = finalize_keeps [OF inv this]
  from step_finalize show ?thesis
  proof (cases rule: finalize_cases)
    case (recorded t db1 db2)
    then show ?thesis using keep
      by (auto intro!: quiet_focus [of k] simp: keeps_def holds_lease_def leased_live)
  qed (simp add: quiet_frame)
next
  case step_environment
  show ?thesis by (rule quiet_frame [OF step_environment(3)])
qed (rule create_quiet [OF inv] cancel_quiet [OF inv] claim_quiet [OF inv] retry_quiet [OF inv], assumption)+

lemma ended_log_is_final:
  assumes "task_step\<^sup>*\<^sup>* db db'" and "task_reachable db"
    and "map_of (tasks db) k = Some t" and "t_state t \<in> TERMINAL_STATES"
  shows "events_of k db' = events_of k db"
  using assms(1)
proof (induction rule: rtranclp_induct)
  case (step db1 db2)
  obtain t1 where t1: "map_of (tasks db1) k = Some t1" "advances t t1"
    using steps_advance_row [OF assms(2) step(1) assms(3)] .
  from t1(2) assms(4) have "forget_retry t1 = forget_retry t" by (simp add: advances_def)
  from forget_retry_state [OF this] assms(4) have "t_state t1 \<in> TERMINAL_STATES" by simp
  with step_quiet [OF step(2) reachable_invariant [OF reachable_step [OF assms(2) step(1)]]] t1(1)
  have "events_of k db2 = events_of k db1" unfolding quiet_def by blast
  with step(3) show ?case by simp
qed simp

section \<open>Pages\<close>

lemma log_numbered:
  assumes "task_reachable db"
  shows "map ev_sequence (events_of k db) = upto_int (length (events_of k db))"
proof (cases "map_of (tasks db) k")
  case None
  with task_invariant_no_task [OF reachable_invariant [OF assms]] show ?thesis by (simp add: upto_int_def)
next
  case (Some t)
  with reachable_view [OF assms this] show ?thesis by (simp add: view_ok_def log_ok_def)
qed

lemma maximum_of_reachable: "task_reachable db \<Longrightarrow> maximum_of k db = int (length (events_of k db))"
  by (simp add: maximum_of_def log_numbered fold_max_upto)

lemma filter_window:
  assumes "map ev_sequence es = upto_int (length es)"
  shows "filter (\<lambda>e. ev_sequence e > c \<and> ev_sequence e \<le> int m) es = drop (nat c) (take m es)"
  using assms
proof (induction es rule: rev_induct)
  case (snoc e es)
  then have e: "ev_sequence e = int (length es) + 1"
    and es: "map ev_sequence es = upto_int (length es)" by (simp_all add: upto_int_Suc)
  from snoc(1) [OF es] e show ?case by (auto simp: nat_less_iff le_nat_iff)
qed simp

lemma window_sorted:
  assumes "map ev_sequence es = upto_int (length es)"
  shows "sort_key ev_sequence (drop a es) = drop a es"
proof (rule sort_key_id_if_sorted)
  have "sorted (map ev_sequence es)" by (simp add: assms upto_int_def sorted_map del: upt_Suc)
  then show "sorted (map ev_sequence (drop a es))"
    by (simp add: drop_map [symmetric] sorted_wrt_drop)
qed

lemma log_extends:
  assumes "task_reachable db" and "task_step\<^sup>*\<^sup>* db db'"
  shows "take (length (events_of k db)) (events_of k db') = events_of k db"
  by (rule task_log.steps_take [OF live_steps [OF assms]])

lemma read_page_window:
  assumes "task_reachable db" and "task_step\<^sup>*\<^sup>* db db2"
    and "read_page cat actor k c limit db db2 = Inr page"
  shows "page_events page = map (public_event k) (take limit (drop (nat c) (events_of k db)))
    \<and> maximum_sequence page = int (length (events_of k db)) \<and> c \<le> maximum_sequence page
    \<and> 1 \<le> limit \<and> limit \<le> 100
    \<and> (\<exists>t. map_of (tasks db) k = Some t \<and> advisor_assigned cat (fst k) (t_case t) actor
          \<and> (closing page \<longleftrightarrow> t_state t \<in> CLOSING_STATES))"
proof -
  note n = log_numbered [OF assms(1)] and n2 = log_numbered [OF reachable_step [OF assms(1,2)]]
  have "sort_key ev_sequence (filter (\<lambda>e. ev_sequence e > c \<and> ev_sequence e \<le> maximum_of k db) (events_of k db2))
      = drop (nat c) (events_of k db)"
    using log_extends [OF assms(1,2), of k]
    by (simp add: maximum_of_reachable [OF assms(1)] filter_window [OF n2] window_sorted [OF n])
  with assms(3) maximum_of_reachable [OF assms(1), of k] show ?thesis
    by (auto simp: read_page_def default_policy_def split: option.splits if_splits)
qed

section \<open>Streams\<close>

text \<open>A history of the database: at each load, the two states that its two statements see.\<close>

definition history :: "(nat \<Rightarrow> task_db) \<Rightarrow> (nat \<Rightarrow> task_db) \<Rightarrow> bool" where
  "history h h2 \<longleftrightarrow> task_reachable (h 0)
     \<and> (\<forall>i. task_step\<^sup>*\<^sup>* (h i) (h2 i) \<and> task_step\<^sup>*\<^sup>* (h2 i) (h (Suc i)))"

lemma history_mono:
  assumes "history h h2" and "i \<le> j"
  shows "task_step\<^sup>*\<^sup>* (h i) (h j)"
  using assms(2)
proof (induction j rule: dec_induct)
  case (step j)
  with assms(1) show ?case unfolding history_def by (meson rtranclp_trans)
qed simp

lemma history_reachable: "history h h2 \<Longrightarrow> task_reachable (h i)"
  using history_mono [of h h2 0 i] reachable_step unfolding history_def by blast

text \<open>The page loader of the HTTP endpoint, whose participants may change between the loads.\<close>

definition page_at ::
  "(nat \<Rightarrow> catalog) \<Rightarrow> uuid \<Rightarrow> row_key \<Rightarrow> (nat \<Rightarrow> task_db) \<Rightarrow> (nat \<Rightarrow> task_db) \<Rightarrow> nat \<Rightarrow> int
     \<Rightarrow> page_error + event_page" where
  "page_at cats actor k h h2 i c = read_page (cats i) actor k c (sse_page_size default_policy) (h i) (h2 i)"

lemma page_at_window:
  assumes "history h h2" and "page_at cats actor k h h2 i c = Inr page"
  shows "page_events page = map (public_event k) (take 100 (drop (nat c) (events_of k (h i))))
    \<and> maximum_sequence page = int (length (events_of k (h i))) \<and> c \<le> maximum_sequence page
    \<and> (\<exists>t. map_of (tasks (h i)) k = Some t \<and> (closing page \<longleftrightarrow> t_state t \<in> CLOSING_STATES))"
proof -
  have s: "task_step\<^sup>*\<^sup>* (h i) (h2 i)" using assms(1) by (simp add: history_def)
  from assms(2) have "read_page (cats i) actor k c 100 (h i) (h2 i) = Inr page"
    by (simp add: page_at_def default_policy_def)
  from read_page_window [OF history_reachable [OF assms(1)] s this] show ?thesis by blast
qed

text \<open>What one round of the loop does to the cursor.\<close>

lemma upto_int_nth: "i < n \<Longrightarrow> upto_int n ! i = int i + 1"
  by (simp add: upto_int_def del: upt_Suc)

lemma cursor_after:
  assumes "task_reachable db" and "0 \<le> c" and "c \<le> int (length (events_of k db))"
    and "w = map (public_event k) (take m (drop (nat c) (events_of k db)))"
  shows "(if w = [] then c else pe_sequence (last w)) = c + int (length w)"
proof (cases "w = []")
  case False
  let ?es = "events_of k db" and ?i = "length w - 1"
  have l: "length w = min m (length ?es - nat c)" using assms(4) by simp
  have w: "0 < length w" using False by simp
  have "length w \<le> m" "length w \<le> length ?es - nat c" by (simp_all add: l)
  with w have i: "?i < length w" "?i < m" "nat c + ?i < length ?es" by linarith+
  have "last w = w ! ?i" using False by (rule last_conv_nth)
  also have "\<dots> = public_event k (?es ! (nat c + ?i))"
    unfolding assms(4) using i(2,3) by (simp add: min_def)
  finally have "pe_sequence (last w) = map ev_sequence ?es ! (nat c + ?i)"
    using i(3) by (simp add: public_event_def)
  also have "\<dots> = int (nat c + length w)"
    using w by (simp only: log_numbered [OF assms(1)] upto_int_nth [OF i(3)])
  finally show ?thesis using False assms(2) by simp
qed simp

lemma window_step:
  assumes "take (length xs) ys = xs" and "n = length (take a (drop c xs))"
  shows "take a (drop c xs) @ take m (drop (c + n) ys) = take (n + m) (drop c ys)"
proof -
  have n: "n = min (length xs - c) a" using assms(2) by simp
  have "take a (drop c xs) = take n (drop c xs)" unfolding n by (cases "a \<le> length xs - c") simp_all
  also have "\<dots> = take n (drop c (take (length xs) ys))" by (simp only: assms(1))
  also have "\<dots> = take n (drop c ys)" by (simp add: n drop_take)
  finally show ?thesis by (simp add: take_add add.commute [of c n])
qed

text \<open>One round that does not return: the events of the page, and perhaps a heartbeat, are sent; then the
  loop goes on with the next page.\<close>

lemma stream_round:
  fixes page :: event_page and c :: int
  defines "c' \<equiv> if page_events page = [] then c else pe_sequence (last (page_events page))"
  assumes "\<not> (closing page \<and> c' \<ge> maximum_sequence page)"
  obtains (raised) e out0 where "load i c' = Inl e" "events_sent out0 = page_events page"
      "stream_task_events (Suc n) load clock i page c hb = (out0, Raised e)"
  | (loaded) page' hb' out0 where "load i c' = Inr page'" "events_sent out0 = page_events page"
      "stream_task_events (Suc n) load clock i page c hb
         = (out0 @ fst (stream_task_events n load clock (Suc i) page' c' hb'),
            snd (stream_task_events n load clock (Suc i) page' c' hb'))"
proof -
  define beat where "beat \<longleftrightarrow> length (page_events page) \<noteq> sse_page_size default_policy
    \<and> fst (clock i) - hb \<ge> sse_heartbeat_seconds default_policy"
  define out0 where "out0 = map EventChunk (page_events page) @ (if beat then [HeartbeatChunk] else [])"
  have sent: "events_sent out0 = page_events page" by (simp add: out0_def)
  show ?thesis
  proof (cases "load i c'")
    case (Inl e)
    with assms(2) have "stream_task_events (Suc n) load clock i page c hb = (out0, Raised e)"
      by (auto simp: Let_def c'_def out0_def beat_def)
    from raised [OF Inl sent this] show ?thesis .
  next
    case (Inr page')
    let ?hb = "if beat then snd (clock i) else hb"
    have "stream_task_events (Suc n) load clock i page c hb
         = (out0 @ fst (stream_task_events n load clock (Suc i) page' c' ?hb),
            snd (stream_task_events n load clock (Suc i) page' c' ?hb))"
      unfolding stream_task_events.simps Let_def c'_def [symmetric] beat_def [symmetric]
        if_not_P [OF assms(2)] Inr by (simp add: out0_def split_beta)
    from loaded [OF Inr sent this] show ?thesis .
  qed
qed

text \<open>The events sent by the loop are a window of the log, from the cursor on; and when it returns, they
  are all of it.\<close>

lemma stream_window:
  assumes h: "history h h2"
    and "page_at cats actor k h h2 i c = Inr page" and "0 \<le> c"
    and "stream_task_events n (\<lambda>j. page_at cats actor k h h2 (Suc j)) clock i page c hb = (out, r)"
  shows "\<exists>j m. events_sent out = map (public_event k) (take m (drop (nat c) (events_of k (h j))))
    \<and> i \<le> j \<and> j \<le> i + n
    \<and> (r = Returned \<longrightarrow> length (events_of k (h j)) \<le> nat c + m
          \<and> (\<exists>t. map_of (tasks (h j)) k = Some t \<and> t_state t \<in> CLOSING_STATES))"
  using assms(2-4)
proof (induction n arbitrary: i page c hb out r)
  case 0
  then show ?case by (intro exI [of _ i] exI [of _ 0]) simp
next
  case (Suc n)
  let ?w = "page_events page" and ?load = "\<lambda>j. page_at cats actor k h h2 (Suc j)"
  let ?c = "if ?w = [] then c else pe_sequence (last ?w)"
  note w = page_at_window [OF h Suc.prems(1)]
  then have cur: "?c = c + int (length ?w)"
    using cursor_after [OF history_reachable [OF h] Suc.prems(2), of k i ?w 100] by simp
  then have c': "nat ?c = nat c + length ?w" "0 \<le> ?c" using Suc.prems(2) by auto
  from w have len: "length ?w = length (take 100 (drop (nat c) (events_of k (h i))))" by simp
  show ?case
  proof (cases "closing page \<and> ?c \<ge> maximum_sequence page")
    case True
    with Suc.prems(3) have "events_sent out = ?w" "r = Returned" by (auto simp: Let_def)
    with True w c'(1) show ?thesis by (intro exI [of _ i] exI [of _ 100]) auto
  next
    case False
    from False show ?thesis
    proof (cases rule: stream_round [where load = ?load and n = n and clock = clock and i = i and hb = hb])
      case (raised e out0)
      with Suc.prems(3) w show ?thesis by (intro exI [of _ i] exI [of _ 100]) simp
    next
      case (loaded page' hb' out0)
      obtain rest where rec: "stream_task_events n ?load clock (Suc i) page' ?c hb' = (rest, r)"
        and out: "out = out0 @ rest" using Suc.prems(3) unfolding loaded(3) by (metis eq_fst_iff snd_conv)
      note sent = loaded(2)
      from Suc.IH [OF loaded(1) c'(2) rec] obtain j m where j:
          "events_sent rest = map (public_event k) (take m (drop (nat ?c) (events_of k (h j))))"
          "Suc i \<le> j" "j \<le> Suc i + n"
          "r = Returned \<longrightarrow> length (events_of k (h j)) \<le> nat ?c + m
             \<and> (\<exists>t. map_of (tasks (h j)) k = Some t \<and> t_state t \<in> CLOSING_STATES)" by blast
      have ext: "take (length (events_of k (h i))) (events_of k (h j)) = events_of k (h i)"
        using log_extends [OF history_reachable [OF h] history_mono [OF h]] j(2) by simp
      have w': "?w = map (public_event k) (take 100 (drop (nat c) (events_of k (h i))))" using w by blast
      have "events_sent out = ?w @ map (public_event k) (take m (drop (nat c + length ?w) (events_of k (h j))))"
        by (simp only: out sent j(1) c'(1) events_sent_simps)
      also have "\<dots> = map (public_event k) (take (length ?w + m) (drop (nat c) (events_of k (h j))))"
        by (subst (1) w') (simp only: map_append [symmetric] window_step [OF ext len])
      finally have "events_sent out
          = map (public_event k) (take (length ?w + m) (drop (nat c) (events_of k (h j))))" .
      moreover have "nat ?c + m = nat c + (length ?w + m)" by (simp only: c'(1) add.assoc)
      ultimately show ?thesis using j(2-4) by (intro exI [of _ j] exI [of _ "length ?w + m"]) auto
    qed
  qed
qed

lemma log_length_mono:
  assumes "history h h2" and "i \<le> j"
  shows "length (events_of k (h i)) \<le> length (events_of k (h j))"
  using arg_cong [OF log_extends [OF history_reachable [OF assms(1)] history_mono [OF assms]], of length]
  by (metis length_take min.cobounded1)

lemma closing_terminal: "CLOSING_STATES = TERMINAL_STATES"
  by (simp add: CLOSING_STATES_def TERMINAL_STATES_def)

text \<open>C30: The stream delivers every event of the task after the cursor, each once and in the order of the
  log, whatever else happens to the database between and during the loads.  When it returns, the
  client has all events that the task will ever have.\<close>

theorem stream_delivers_in_order:
  assumes "history h h2" and "page_at cats actor k h h2 0 c = Inr page" and "0 \<le> c"
    and "stream_task_events n (\<lambda>j. page_at cats actor k h h2 (Suc j)) clock 0 page c hb = (out, r)"
  shows "\<exists>j m. events_sent out = map (public_event k) (take m (drop (nat c) (events_of k (h j))))
    \<and> (r = Returned \<longrightarrow> (\<forall>db'. task_step\<^sup>*\<^sup>* (h j) db' \<longrightarrow>
          events_sent out = map (public_event k) (drop (nat c) (events_of k db'))))"
proof -
  obtain j m where j: "events_sent out = map (public_event k) (take m (drop (nat c) (events_of k (h j))))"
    and ret: "r = Returned \<longrightarrow> length (events_of k (h j)) \<le> nat c + m
          \<and> (\<exists>t. map_of (tasks (h j)) k = Some t \<and> t_state t \<in> CLOSING_STATES)"
    using stream_window [OF assms] by blast
  have "events_sent out = map (public_event k) (drop (nat c) (events_of k db'))"
    if "r = Returned" "task_step\<^sup>*\<^sup>* (h j) db'" for db'
  proof -
    from ret that(1) obtain t where t: "map_of (tasks (h j)) k = Some t" "t_state t \<in> TERMINAL_STATES"
      and all: "length (events_of k (h j)) \<le> nat c + m" by (auto simp: closing_terminal)
    have "events_of k db' = events_of k (h j)"
      by (rule ended_log_is_final [OF that(2) history_reachable [OF assms(1)] t])
    with j all show ?thesis by simp
  qed
  with j show ?thesis by blast
qed

lemma history_case:
  assumes h: "history h h2" and "map_of (tasks (h i)) k = Some a" and "map_of (tasks (h j)) k = Some b"
  shows "t_case a = t_case b"
proof -
  have later: "t_case y = t_case x"
    if "i \<le> j" "map_of (tasks (h i)) k = Some x" "map_of (tasks (h j)) k = Some y" for i j x y
    using steps_advance_row [OF history_reachable [OF h] history_mono [OF h that(1)] that(2)] that(3)
    by (auto simp: advances_def same_pins_def)
  show ?thesis using later [OF _ assms(2,3)] later [OF _ assms(3,2)] nat_le_linear [of i j] by metis
qed

lemma page_at_value:
  assumes h: "history h h2" and t: "map_of (tasks (h i)) k = Some t"
    and "advisor_assigned (cats i) (fst k) (t_case t) actor" and "c \<le> int (length (events_of k (h i)))"
  shows "page_at cats actor k h h2 i c = Inr \<lparr>
      page_events = map (public_event k) (take 100 (drop (nat c) (events_of k (h i)))),
      maximum_sequence = int (length (events_of k (h i))), closing = t_state t \<in> CLOSING_STATES\<rparr>"
proof -
  obtain page where page: "page_at cats actor k h h2 i c = Inr page"
    using assms(2-4) maximum_of_reachable [OF history_reachable [OF h], of k i]
    by (simp add: page_at_def read_page_def default_policy_def)
  with page_at_window [OF h page] t show ?thesis by (simp add: event_page.equality)
qed

lemmas page_at_ok = exI [of "\<lambda>page. page_at cats actor k h h2 i c = Inr page" for cats actor k h h2 i c,
    OF page_at_value]

text \<open>A round either returns or moves the cursor within the log; the measure counts the rounds until the
  task has ended, and the events still to be sent then.\<close>

lemma stream_ends:
  assumes h: "history h h2" and ended: "map_of (tasks (h e)) k = Some te" "t_state te \<in> CLOSING_STATES"
    and allowed: "\<And>i. advisor_assigned (cats i) (fst k) (t_case te) actor"
    and "page_at cats actor k h h2 i c = Inr page" and "0 \<le> c"
    and "(e - i) + (length (events_of k (h e)) - nat c) < n"
  shows "snd (stream_task_events n (\<lambda>j. page_at cats actor k h h2 (Suc j)) clock i page c hb) = Returned"
  using assms(5-7)
proof (induction n arbitrary: i page c hb)
  case (Suc n)
  let ?w = "page_events page" and ?load = "\<lambda>j. page_at cats actor k h h2 (Suc j)"
  let ?c = "if ?w = [] then c else pe_sequence (last ?w)" and ?es = "events_of k (h i)"
  note w = page_at_window [OF h Suc.prems(1)]
  then have "?c = c + int (length ?w)"
    using cursor_after [OF history_reachable [OF h] Suc.prems(2), of k i ?w 100] by simp
  then have c': "nat ?c = nat c + length ?w" "0 \<le> ?c" using Suc.prems(2) by auto
  have lw: "length ?w = min 100 (length ?es - nat c)" and cl: "nat c \<le> length ?es" using w by auto
  show ?case
  proof (cases "closing page \<and> ?c \<ge> maximum_sequence page")
    case False
    obtain t where t: "map_of (tasks (h i)) k = Some t" and cp: "closing page \<longleftrightarrow> t_state t \<in> CLOSING_STATES"
      using w by blast
    have le: "length ?es \<le> length (events_of k (h (Suc i)))" by (rule log_length_mono [OF h]) simp
    obtain t' where t': "map_of (tasks (h (Suc i))) k = Some t'"
      using steps_advance_row [OF history_reachable [OF h] history_mono [OF h] t, of "Suc i"] by auto
    moreover have "t_case t' = t_case te" by (rule history_case [OF h t' ended(1)])
    moreover have "?c \<le> int (length (events_of k (h (Suc i))))" using c' lw cl le by linarith
    ultimately obtain page' where p': "?load i ?c = Inr page'"
      using page_at_ok [OF h, of "Suc i"] allowed by metis
    have "(e - Suc i) + (length (events_of k (h e)) - nat ?c) < n"
    proof (cases "i < e")
      case True
      with Suc.prems(3) c'(1) show ?thesis by linarith
    next
      case over: False
      then have steps: "task_step\<^sup>*\<^sup>* (h e) (h i)" using history_mono [OF h] by simp
      have same: "events_of k (h i) = events_of k (h e)"
        using ended_log_is_final [OF steps history_reachable [OF h] ended(1)] ended(2)
        by (simp add: closing_terminal)
      have "t_state t \<in> CLOSING_STATES"
        using steps_advance_row [OF history_reachable [OF h] steps ended(1)] t ended(2)
          forget_retry_state by (metis advances_def closing_terminal option.inject)
      with False cp have "\<not> maximum_sequence page \<le> ?c" by blast
      moreover have "maximum_sequence page = int (length ?es)" using w by blast
      ultimately have "nat ?c < length ?es" using c'(2) by linarith
      with lw c'(1) have "0 < length ?w" by linarith
      moreover have "length ?es = length (events_of k (h e))" by (simp only: same)
      ultimately show ?thesis using over c'(1) Suc.prems(3) \<open>nat ?c < length ?es\<close> by linarith
    qed
    note rec = Suc.IH [OF p' c'(2) this]
    from False show ?thesis
    proof (cases rule: stream_round [where load = ?load and n = n and clock = clock and i = i and hb = hb])
      case (loaded page'' hb' out0)
      with p' rec show ?thesis by simp
    qed (simp add: p')
  qed (auto simp: Let_def)
qed simp

text \<open>A short history: the task is claimed when the first page is read, and failed afterwards.\<close>

definition demo_history :: "nat \<Rightarrow> task_db" where
  "demo_history i = (if i = 0 then demo_claimed else demo_failed)"

definition demo_load :: "nat \<Rightarrow> int \<Rightarrow> page_error + event_page" where
  "demo_load = page_at (\<lambda>_. demo_catalog) 5 (1, 50) demo_history demo_history"

definition demo_page :: event_page where
  "demo_page = projr (demo_load 0 1)"

definition demo_stream :: "chunk list \<times> stream_end" where
  "demo_stream = stream_task_events 6 (\<lambda>j. demo_load (Suc j)) (\<lambda>i. (20, 20)) 0 demo_page 1 0"

lemma demo_history: "history demo_history demo_history"
proof -
  have "task_step demo_claimed demo_failed" unfolding demo_failed_def by (rule step_fail [OF demo_runs(4)])
  then show ?thesis using demo_reachable(3) by (simp add: history_def demo_history_def r_into_rtranclp)
qed

lemma demo_loaded:
  "demo_load 0 1 = Inr demo_page" "closing demo_page = False" "map pe_sequence (page_events demo_page) = [2]"
proof -
  obtain t where t: "map_of (tasks demo_claimed) (1, 50) = Some t" "t_case t = 10" "t_state t = TS_LEASED"
    and es: "map ev_sequence (events_of (1, 50) demo_claimed) = [1, 2]"
  proof
    show "map_of (tasks demo_claimed) (1, 50) = Some (the (map_of (tasks demo_claimed) (1, 50)))" by code_simp
  qed code_simp+
  have "length (events_of (1, 50) demo_claimed) = 2" using arg_cong [OF es, of length] by simp
  with page_at_value [OF demo_history, of 0 "(1, 50)" t "\<lambda>_. demo_catalog" 5 1] t
  have p: "demo_load 0 1 = Inr \<lparr>
      page_events = map (public_event (1, 50)) (take 100 (drop 1 (events_of (1, 50) demo_claimed))),
      maximum_sequence = 2, closing = False\<rparr>"
    by (simp add: demo_load_def demo_history_def demo_catalog_def CLOSING_STATES_def)
  then show "demo_load 0 1 = Inr demo_page" "closing demo_page = False" by (simp_all add: demo_page_def)
  have "map ev_sequence (drop 1 (events_of (1, 50) demo_claimed)) = [2]" by (simp add: es flip: drop_map)
  moreover from this have "length (drop 1 (events_of (1, 50) demo_claimed)) = 1" by (metis length_Cons length_map list.size(3) One_nat_def)
  ultimately show "map pe_sequence (page_events demo_page) = [2]"
    by (simp add: demo_page_def p public_event_def comp_def)
qed

lemma demo_ended:
  obtains t where "map_of (tasks (demo_history 1)) (1, 50) = Some t" "t_state t \<in> CLOSING_STATES"
    "advisor_assigned demo_catalog (fst ((1, 50) :: row_key)) (t_case t) 5"
    "1 + length (events_of (1, 50) (demo_history 1)) < 6"
proof
  show "map_of (tasks (demo_history 1)) (1, 50) = Some (the (map_of (tasks demo_failed) (1, 50)))"
    unfolding demo_history_def by code_simp
qed code_simp+

lemma stream_delivers_in_order_witness:
  "events_sent (fst demo_stream) = map (public_event (1, 50)) (drop 1 (events_of (1, 50) demo_failed))
   \<and> snd demo_stream = Returned \<and> length (events_of (1, 50) demo_failed) = 3"
proof -
  obtain t where t: "map_of (tasks (demo_history 1)) (1, 50) = Some t" "t_state t \<in> CLOSING_STATES"
    "advisor_assigned demo_catalog (fst ((1, 50) :: row_key)) (t_case t) 5"
    "1 + length (events_of (1, 50) (demo_history 1)) < 6" using demo_ended .
  have r: "snd demo_stream = Returned"
    unfolding demo_stream_def demo_load_def
    by (rule stream_ends [OF demo_history t(1,2,3) demo_loaded(1) [unfolded demo_load_def]]) (use t(4) in simp_all)
  then have run: "stream_task_events 6 (\<lambda>j. page_at (\<lambda>_. demo_catalog) 5 (1, 50) demo_history demo_history (Suc j))
      (\<lambda>i. (20, 20)) 0 demo_page 1 0 = (fst demo_stream, Returned)"
    by (simp add: demo_stream_def demo_load_def prod_eq_iff)
  obtain j where all: "\<forall>db'. task_step\<^sup>*\<^sup>* (demo_history j) db' \<longrightarrow>
          events_sent (fst demo_stream) = map (public_event (1, 50)) (drop 1 (events_of (1, 50) db'))"
    using stream_delivers_in_order [OF demo_history demo_loaded(1) [unfolded demo_load_def] _ run] by auto
  have "task_step\<^sup>*\<^sup>* (demo_history j) demo_failed"
    using history_mono [OF demo_history, of j "Suc j"] by (simp add: demo_history_def)
  moreover have "length (events_of (1, 50) demo_failed) = 3" by code_simp
  ultimately show ?thesis using all r by blast
qed

text \<open>C31: The stream of a task that ends returns: if the task has ended when page \<open>e\<close> is loaded and the
  client stays an advisor of the case, at most \<open>e\<close> rounds and one for each event are enough, whatever the
  clock says.\<close>

theorem stream_returns:
  assumes "history h h2" and "map_of (tasks (h e)) k = Some t" and "t_state t \<in> CLOSING_STATES"
    and "\<And>i. advisor_assigned (cats i) (fst k) (t_case t) actor"
    and "page_at cats actor k h h2 0 c = Inr page" and "0 \<le> c"
    and "e + length (events_of k (h e)) < n"
  shows "snd (stream_task_events n (\<lambda>j. page_at cats actor k h h2 (Suc j)) clock 0 page c hb) = Returned"
  using stream_ends [OF assms(1-6)] assms(7) by simp

lemma stream_returns_witness: "snd demo_stream = Returned \<and> closing demo_page = False"
proof -
  obtain t where t: "map_of (tasks (demo_history 1)) (1, 50) = Some t" "t_state t \<in> CLOSING_STATES"
    "advisor_assigned demo_catalog (fst ((1, 50) :: row_key)) (t_case t) 5"
    "1 + length (events_of (1, 50) (demo_history 1)) < 6" using demo_ended .
  have "snd demo_stream = Returned" unfolding demo_stream_def demo_load_def
    by (rule stream_returns [OF demo_history t(1,2,3) demo_loaded(1) [unfolded demo_load_def] _ t(4)]) simp
  then show ?thesis using demo_loaded(2) by simp
qed

section \<open>Numbers and frames\<close>

lemma digit_char_simps [simp]:
  assumes "d < 10"
  shows "digit_value (digit_char d) = Some (int d)" "digit_char d \<noteq> CHR ''_''" "digit_char d \<noteq> newline"
proof -
  have "(of_char (digit_char d) :: int) = of_nat (of_char (digit_char d))" by (simp only: of_nat_of_char)
  also have "\<dots> = 48 + int d" using assms by (simp add: digit_char_def)
  finally have i: "(of_char (digit_char d) :: int) = 48 + int d" .
  then show "digit_value (digit_char d) = Some (int d)" using assms by (simp add: digit_value_def)
  show "digit_char d \<noteq> CHR ''_''" "digit_char d \<noteq> newline" using i assms by (auto simp: newline_def)
qed

lemma nat_digits_digits: "list_all (\<lambda>c. digit_value c \<noteq> None \<and> c \<noteq> CHR ''_'') (nat_digits n)"
proof (induction n rule: nat_digits.induct)
  case (1 n)
  then show ?case by (subst nat_digits.simps) auto
qed

lemma nat_digits_ne [simp]: "nat_digits n \<noteq> []"
  by (subst nat_digits.simps) simp

lemma parse_digits_snoc:
  assumes "list_all (\<lambda>c. digit_value c \<noteq> None \<and> c \<noteq> CHR ''_'') ds" and "d < 10"
  shows "parse_digits acc (ds @ [digit_char d]) = map_option (\<lambda>v. 10 * v + int d) (parse_digits acc ds)"
  using assms by (induction ds arbitrary: acc) auto

lemma parse_nat_digits: "parse_unsigned (nat_digits n) = Some (int n)"
proof (induction n rule: nat_digits.induct)
  case (1 n)
  show ?case
  proof (cases "n < 10")
    case True
    then show ?thesis by (subst nat_digits.simps) (simp add: parse_unsigned_def)
  next
    case False
    let ?ds = "nat_digits (n div 10)"
    obtain c cs v where ds: "?ds = c # cs" "digit_value c = Some v" "parse_digits v cs = Some (int (n div 10))"
      using 1 [OF False] nat_digits_ne [of "n div 10"] by (auto simp: parse_unsigned_def split: list.splits option.splits)
    with nat_digits_digits [of "n div 10"] have "list_all (\<lambda>c. digit_value c \<noteq> None \<and> c \<noteq> CHR ''_'') cs" by simp
    from parse_digits_snoc [OF this, of "n mod 10" v] False ds
    have "parse_unsigned (nat_digits n) = Some (10 * int (n div 10) + int (n mod 10))"
      by (subst nat_digits.simps) (simp add: parse_unsigned_def)
    also have "10 * int (n div 10) + int (n mod 10) = int (10 * (n div 10) + n mod 10)"
      by (simp only: of_nat_add of_nat_mult of_nat_numeral)
    finally show ?thesis by simp
  qed
qed

lemma nat_digits_length: "0 < m \<Longrightarrow> n < 10 ^ m \<Longrightarrow> length (nat_digits n) \<le> m"
proof (induction n arbitrary: m rule: nat_digits.induct)
  case (1 n)
  show ?case
  proof (cases "n < 10")
    case False
    from 1(2) obtain m' where m': "m = Suc m'" by (cases m) auto
    with 1(3) False have "0 < m'" by (cases m') auto
    with m' have m: "m = Suc m'" "0 < m'" by simp_all
    with 1(3) have "n div 10 < 10 ^ m'" by (simp add: less_mult_imp_div_less mult.commute)
    with 1(1) [OF False m(2)] False m(1) show ?thesis by (subst nat_digits.simps) simp
  qed (subst nat_digits.simps, use 1 in simp)
qed

lemma nat_digits_values: "c \<in> set (nat_digits n) \<Longrightarrow> digit_value c \<noteq> None"
  using nat_digits_digits [of n] unfolding list_all_iff by blast

lemma printed_id_parses:
  assumes "0 \<le> n" and "n < 10 ^ MAX_STR_DIGITS"
  shows "parse_last_event_id (Some (int_text n)) = Inr n"
proof -
  have pos: "0 < MAX_STR_DIGITS" by (simp add: MAX_STR_DIGITS_def)
  have "nat n < 10 ^ MAX_STR_DIGITS" using assms by (simp only: nat_less_iff of_nat_power of_nat_numeral)
  then have "length (nat_digits (nat n)) \<le> MAX_STR_DIGITS"
    by (rule nat_digits_length [OF pos])
  moreover have "list_all (\<lambda>c. digit_value c \<noteq> None) (nat_digits (nat n))"
    unfolding list_all_iff using nat_digits_values by blast
  ultimately show ?thesis using assms(1)
    by (simp add: parse_last_event_id_def int_text_def parse_nat_digits)
qed

lemma split_on_line: "c \<notin> set xs \<Longrightarrow> split_on c (xs @ c # ys) = xs # split_on c ys"
  by (induction xs) auto

lemma no_newline_digits: "newline \<notin> set (int_text n)"
proof -
  have "digit_value newline = None" by (simp add: digit_value_def newline_def)
  with nat_digits_values have "newline \<notin> set (nat_digits m)" for m by metis
  then show ?thesis by (simp add: int_text_def newline_def)
qed

lemma hex_char_newline [simp]: "hex_char d \<noteq> newline"
proof -
  have "hex_char d \<in> set hex_digits"
    unfolding hex_char_def by (rule nth_mem) (simp add: hex_digits_def)
  then show ?thesis by (auto simp: hex_digits_def newline_def)
qed

lemma json_string_newline: "newline \<notin> set (json_string s)"
proof -
  have "newline \<notin> set (escape_char c)" for c
  proof (cases "c = newline")
    case False
    with hex_char_newline [unfolded newline_def, symmetric] show ?thesis
      by (auto simp: escape_char_def Let_def newline_def)
  qed (simp add: escape_char_def newline_def)
  then show ?thesis by (auto simp: json_string_def newline_def)
qed

lemma join_with_newline: "newline \<notin> set sep \<Longrightarrow> \<forall>x\<in>set xs. newline \<notin> set x \<Longrightarrow> newline \<notin> set (join_with sep xs)"
  by (induction sep xs rule: join_with.induct) auto

lemma data_newline: "newline \<notin> set (json_object (public_data tx e))"
proof -
  have comma: "newline \<notin> set '',''" "newline \<notin> set '':''" "newline \<noteq> CHR ''1''"
    "newline \<notin> set ''null''" by (simp_all add: newline_def)
  have "\<forall>x\<in>set (map (\<lambda>(k, v). json_string k @ '':'' @ v) (public_data tx e)). newline \<notin> set x"
    using json_string_newline no_newline_digits comma
    by (auto simp: public_data_def json_opt_def split: option.splits)
  from join_with_newline [OF comma(1) this] show ?thesis by (simp add: json_object_def newline_def)
qed

end
