(* ===== verification/Stream_Frames.thy ===== *)
theory Stream_Frames
  imports Stream_Properties
begin

text \<open>
  The frames of server-sent events, read by a client: a reader of flat JSON objects, written from the grammar of JSON
  and not from the printer, takes the data line apart again.
\<close>

section \<open>Reading JSON\<close>

datatype scalar = Sc_null | Sc_int int | Sc_string string

definition hex_value :: "char \<Rightarrow> nat" where
  "hex_value c = length (takeWhile (\<lambda>d. d \<noteq> c) hex_digits)"

text \<open>The character behind a backslash.\<close>

definition unescape :: "char \<Rightarrow> char option" where
  "unescape c = map_of [(CHR 0x22, CHR 0x22), (CHR 0x5C, CHR 0x5C), (CHR ''/'', CHR ''/''), (CHR ''b'', CHR 0x08),
     (CHR ''f'', CHR 0x0C), (CHR ''n'', CHR 0x0A), (CHR ''r'', CHR 0x0D), (CHR ''t'', CHR 0x09)] c"

text \<open>A string up to its closing quote, and what is behind it; code points below 256.\<close>

fun read_chars :: "string \<Rightarrow> (string \<times> string) option" where
  "read_chars [] = None"
| "read_chars (c # cs) =
     (if c = CHR 0x22 then Some ([], cs)
      else if c \<noteq> CHR 0x5C then map_option (apfst ((#) c)) (read_chars cs)
      else case cs of [] \<Rightarrow> None
        | e # r \<Rightarrow>
            if e \<noteq> CHR ''u'' then
              (case unescape e of None \<Rightarrow> None | Some x \<Rightarrow> map_option (apfst ((#) x)) (read_chars r))
            else if length r < 4 \<or> take 2 r \<noteq> ''00'' then None
            else map_option (apfst ((#) (char_of (16 * hex_value (r ! 2) + hex_value (r ! 3))))) (read_chars (drop 4 r)))"

definition digits_value :: "string \<Rightarrow> int" where
  "digits_value ds = foldl (\<lambda>a c. 10 * a + (case digit_value c of None \<Rightarrow> 0 | Some d \<Rightarrow> d)) 0 ds"

definition read_number :: "string \<Rightarrow> (int \<times> string) option" where
  "read_number s =
     (let ds = takeWhile (\<lambda>c. digit_value c \<noteq> None) s in
      if ds = [] then None else Some (digits_value ds, dropWhile (\<lambda>c. digit_value c \<noteq> None) s))"

definition read_scalar :: "string \<Rightarrow> (scalar \<times> string) option" where
  "read_scalar s =
     (case s of [] \<Rightarrow> None
      | c # cs \<Rightarrow>
          if c = CHR 0x22 then map_option (apfst Sc_string) (read_chars cs)
          else if c = CHR ''-'' then map_option (apfst (\<lambda>n. Sc_int (- n))) (read_number cs)
          else if take 4 s = ''null'' then Some (Sc_null, drop 4 s)
          else map_option (apfst Sc_int) (read_number s))"

text \<open>The members of an object that is not empty, each of which takes at least one character.\<close>

fun read_members :: "nat \<Rightarrow> string \<Rightarrow> (string \<times> scalar) list option" where
  "read_members 0 s = None"
| "read_members (Suc n) s =
     (case read_scalar s of
        Some (Sc_string k, c # v) \<Rightarrow>
          if c \<noteq> CHR '':'' then None
          else (case read_scalar v of
              Some (x, d # r) \<Rightarrow>
                if d = CHR '','' then map_option ((#) (k, x)) (read_members n r)
                else if d = CHR ''}'' \<and> r = [] then Some [(k, x)] else None
            | _ \<Rightarrow> None)
      | _ \<Rightarrow> None)"

definition read_object :: "string \<Rightarrow> (string \<times> scalar) list option" where
  "read_object s = (case s of [] \<Rightarrow> None | c # cs \<Rightarrow> if c = CHR ''{'' then read_members (length cs) cs else None)"

section \<open>What was printed is read\<close>

lemma index_nth: "distinct xs \<Longrightarrow> i < length xs \<Longrightarrow> length (takeWhile (\<lambda>x. x \<noteq> xs ! i) xs) = i"
proof (induction xs arbitrary: i)
  case (Cons y ys)
  show ?case
  proof (cases i)
    case (Suc j)
    with Cons.prems have "ys ! j \<in> set ys" "distinct ys" "j < length ys" by simp_all
    moreover from this(1) Cons.prems(1) have "y \<noteq> ys ! j" by auto
    ultimately show ?thesis using Cons.IH [of j] by (simp add: Suc)
  qed simp
qed simp

lemma hex_digits_16: "distinct hex_digits" "length hex_digits = 16"
  by code_simp+

lemma hex_value_char: "hex_value (hex_char d) = d mod 16"
proof -
  have "d mod 16 < length hex_digits" unfolding hex_digits_16(2) by simp
  from index_nth [OF hex_digits_16(1) this] show ?thesis unfolding hex_value_def hex_char_def .
qed

lemma escaped_chars:
  "escape_char CHR 0x22 = [CHR 0x5C, CHR 0x22]" "escape_char CHR 0x5C = [CHR 0x5C, CHR 0x5C]"
  "escape_char CHR 0x0A = [CHR 0x5C, CHR ''n'']" "escape_char CHR 0x0D = [CHR 0x5C, CHR ''r'']"
  "escape_char CHR 0x09 = [CHR 0x5C, CHR ''t'']" "escape_char CHR 0x08 = [CHR 0x5C, CHR ''b'']"
  "escape_char CHR 0x0C = [CHR 0x5C, CHR ''f'']"
  by (simp_all add: escape_char_def)

lemma read_escaped: "read_chars (escape_char c @ rest) = map_option (apfst ((#) c)) (read_chars rest)"
proof -
  define n where "n = (of_char c :: nat)"
  have c: "c = char_of n" by (simp add: n_def)
  have small: "n < 256" unfolding n_def by simp
  note eq = of_char_eq_iff [where 'a = nat, of c, folded n_def]
  have special: "c = CHR 0x22 \<longleftrightarrow> n = 34" "c = CHR 0x5C \<longleftrightarrow> n = 92" "c = CHR 0x0A \<longleftrightarrow> n = 10" "c = CHR 0x0D \<longleftrightarrow> n = 13"
    "c = CHR 0x09 \<longleftrightarrow> n = 9" "c = CHR 0x08 \<longleftrightarrow> n = 8" "c = CHR 0x0C \<longleftrightarrow> n = 12"
    using eq [of "CHR 0x22"] eq [of "CHR 0x5C"] eq [of "CHR 0x0A"] eq [of "CHR 0x0D"] eq [of "CHR 0x09"] eq [of "CHR 0x08"]
      eq [of "CHR 0x0C"] by simp_all
  have hex: "16 * hex_value (hex_char (n div 16)) + hex_value (hex_char n) = n"
    using small by (simp add: hex_value_char)
  consider "n = 34" | "n = 92" | "n = 10" | "n = 13" | "n = 9" | "n = 8" | "n = 12"
    | "n \<notin> {34, 92, 10, 13, 9, 8, 12}" "n < 32 \<or> n > 126" | "n \<notin> {34, 92}" "32 \<le> n" "n \<le> 126" by force
  then show ?thesis
  proof cases
    case 8
    then have "escape_char c = [CHR 0x5C, CHR ''u'', CHR ''0'', CHR ''0'', hex_char (n div 16), hex_char n]"
      by (simp add: escape_char_def Let_def flip: n_def)
    with hex c show ?thesis by (simp del: of_char_of)
  next
    case 9
    then have "escape_char c = [c]" by (simp add: escape_char_def Let_def flip: n_def)
    with 9 special(1,2) show ?thesis by simp
  qed (simp only: special [symmetric], simp add: escaped_chars unescape_def)+
qed

lemma read_json_string: "read_scalar (json_string s @ rest) = Some (Sc_string s, rest)"
proof -
  have "read_chars (concat (map escape_char s) @ CHR 0x22 # rest) = Some (s, rest)"
    by (induction s) (simp_all add: read_escaped)
  then show ?thesis by (simp add: read_scalar_def json_string_def)
qed

lemma digits_value_snoc: "d < 10 \<Longrightarrow> digits_value (ds @ [digit_char d]) = 10 * digits_value ds + int d"
  by (simp add: digits_value_def)

lemma digits_value_digits: "digits_value (nat_digits n) = int n"
proof (induction n rule: nat_digits.induct)
  case (1 n)
  show ?case
  proof (cases "n < 10")
    case True
    then show ?thesis by (subst nat_digits.simps) (simp add: digits_value_def)
  next
    case False
    then have "nat_digits n = nat_digits (n div 10) @ [digit_char (n mod 10)]" by (subst nat_digits.simps) simp
    with 1 [OF False] have "digits_value (nat_digits n) = 10 * int (n div 10) + int (n mod 10)"
      by (simp add: digits_value_snoc)
    also have "\<dots> = int (10 * (n div 10) + n mod 10)" by (simp only: of_nat_add of_nat_mult of_nat_numeral)
    finally show ?thesis by simp
  qed
qed

lemma read_digits:
  assumes "digit_value c = None"
  shows "read_number (nat_digits n @ c # rest) = Some (int n, c # rest)"
proof -
  have "\<forall>x \<in> set (nat_digits n). digit_value x \<noteq> None" using nat_digits_values by blast
  with assms show ?thesis
    by (simp add: read_number_def takeWhile_append2 dropWhile_append2 digits_value_digits)
qed

text \<open>A text of which a value is read, in front of the end of a member.\<close>

definition spells :: "string \<Rightarrow> scalar \<Rightarrow> bool" where
  "spells v x \<longleftrightarrow> (\<forall>c rest. c = CHR '','' \<or> c = CHR ''}'' \<longrightarrow> read_scalar (v @ c # rest) = Some (x, c # rest))"

lemma spells_string: "spells (json_string s) (Sc_string s)"
  by (simp add: spells_def read_json_string)

lemma spells_opt: "spells (json_opt v) (case v of None \<Rightarrow> Sc_null | Some s \<Rightarrow> Sc_string s)"
  by (cases v) (simp_all add: json_opt_def spells_string, simp add: spells_def read_scalar_def)

lemma spells_int: "spells (int_text i) (Sc_int i)"
proof -
  have stop: "digit_value CHR '','' = None" "digit_value CHR ''}'' = None" by (simp_all add: digit_value_def)
  have first: "\<exists>d ds. nat_digits n = d # ds \<and> digit_value d \<noteq> None" for n
    using nat_digits_ne [of n] nat_digits_values [of _ n] by (cases "nat_digits n") auto
  have number: "read_scalar (nat_digits n @ c # rest) = Some (Sc_int (int n), c # rest)" if "digit_value c = None" for n c rest
  proof -
    obtain d ds where d: "nat_digits n = d # ds" "digit_value d \<noteq> None" using first by blast
    have "d \<noteq> CHR 0x22" "d \<noteq> CHR ''-''" "d \<noteq> CHR ''n''" using d(2) by (auto simp: digit_value_def)
    with read_digits [OF that, of n rest] d(1) show ?thesis by (simp add: read_scalar_def)
  qed
  show ?thesis
    using stop number read_digits by (auto simp: spells_def int_text_def read_scalar_def [of "CHR ''-'' # _"])
qed

lemma read_members_printed:
  assumes "ms \<noteq> []" and "\<forall>(k, v, x) \<in> set ms. spells v x" and "length ms \<le> n"
  shows "read_members n (join_with '','' (map (\<lambda>(k, v, x). json_string k @ '':'' @ v) ms) @ ''}'')
    = Some (map (\<lambda>(k, v, x). (k, x)) ms)"
  using assms
proof (induction ms arbitrary: n rule: list_nonempty_induct)
  case (single m)
  then obtain n' where n: "n = Suc n'" by (cases n) auto
  obtain k v x where m: "m = (k, v, x)" by (cases m) auto
  with single have "read_scalar (v @ ''}'') = Some (x, ''}'')" by (simp add: spells_def)
  then show ?case by (simp add: n m read_json_string)
next
  case (cons m ms)
  then obtain n' where n: "n = Suc n'" by (cases n) auto
  obtain k v x where m: "m = (k, v, x)" by (cases m) auto
  obtain m' ms' where ms: "ms = m' # ms'" using cons.hyps by (cases ms) auto
  from cons.prems m have sc: "read_scalar (v @ CHR '','' # rest) = Some (x, CHR '','' # rest)" for rest
    by (simp add: spells_def)
  from cons.IH [of n'] cons.prems n have IH: "read_members n' (join_with '','' (map (\<lambda>(k, v, x). json_string k @ '':'' @ v) ms) @ ''}'')
    = Some (map (\<lambda>(k, v, x). (k, x)) ms)" by simp
  then show ?case by (simp add: n m ms read_json_string sc)
qed

lemma join_length: "\<forall>x \<in> set xs. 1 \<le> length x \<Longrightarrow> length xs \<le> length (join_with sep xs)"
proof (induction sep xs rule: join_with.induct)
  case (3 sep x y zs)
  then have "1 \<le> length x" "length (y # zs) \<le> length (join_with sep (y # zs))" by simp_all
  then show ?case by simp
qed simp_all

lemma read_printed_object:
  assumes "ms \<noteq> []" and "\<forall>(k, v, x) \<in> set ms. spells v x"
  shows "read_object (json_object (map (\<lambda>(k, v, x). (k, v)) ms)) = Some (map (\<lambda>(k, v, x). (k, x)) ms)"
proof -
  let ?texts = "map (\<lambda>(k, v, x). json_string k @ '':'' @ v) ms"
  have "\<forall>x \<in> set ?texts. 1 \<le> length x" by (auto simp: json_string_def)
  from join_length [OF this, of "'',''"] have "length ms \<le> length (join_with '','' ?texts @ ''}'')" by simp
  from read_members_printed [OF assms this] show ?thesis
    by (simp add: read_object_def json_object_def case_prod_unfold comp_def)
qed

section \<open>Frames\<close>

text \<open>The members of the data of an event.\<close>

definition event_data :: "texts \<Rightarrow> task_public_event \<Rightarrow> (string \<times> scalar) list" where
  "event_data tx e =
     [(''attempt_count'', Sc_int (pe_attempt_count e)),
      (''created_at'', Sc_string (time_text tx (pe_created_at e))),
      (''event_sequence'', Sc_int (pe_sequence e)),
      (''planning_run_id'', case pe_run e of None \<Rightarrow> Sc_null | Some r \<Rightarrow> Sc_string (uuid_text tx r)),
      (''public_code'', case pe_public_code e of None \<Rightarrow> Sc_null | Some s \<Rightarrow> Sc_string s),
      (''schema_version'', Sc_int 1),
      (''status'', Sc_string (view_status_value (pe_status e))),
      (''task_id'', Sc_string (uuid_text tx (pe_task e)))]"

lemma digit_char_one: "digit_char (Suc 0) = CHR ''1''"
  by code_simp

lemma data_read: "read_object (json_object (public_data tx e)) = Some (event_data tx e)"
proof -
  have one: "spells ''1'' (Sc_int 1)"
    using spells_int [of 1] by (simp add: int_text_def nat_digits.simps digit_char_one)
  let ?ms = "[(''attempt_count'', int_text (pe_attempt_count e), Sc_int (pe_attempt_count e)),
      (''created_at'', json_string (time_text tx (pe_created_at e)), Sc_string (time_text tx (pe_created_at e))),
      (''event_sequence'', int_text (pe_sequence e), Sc_int (pe_sequence e)),
      (''planning_run_id'', json_opt (map_option (uuid_text tx) (pe_run e)),
         case map_option (uuid_text tx) (pe_run e) of None \<Rightarrow> Sc_null | Some s \<Rightarrow> Sc_string s),
      (''public_code'', json_opt (pe_public_code e), case pe_public_code e of None \<Rightarrow> Sc_null | Some s \<Rightarrow> Sc_string s),
      (''schema_version'', ''1'', Sc_int 1),
      (''status'', json_string (view_status_value (pe_status e)), Sc_string (view_status_value (pe_status e))),
      (''task_id'', json_string (uuid_text tx (pe_task e)), Sc_string (uuid_text tx (pe_task e)))]"
  have "\<forall>(k, v, x) \<in> set ?ms. spells v x"
    using spells_opt [of "map_option (uuid_text tx) (pe_run e)"] by (simp add: spells_int spells_string spells_opt one)
  from read_printed_object [OF _ this] show ?thesis
    by (simp add: public_data_def event_data_def option.case_eq_if option.map_sel)
qed

lemma frame_lines:
  "split_on newline (encode_task_event tx e)
     = [''id: '' @ int_text (pe_sequence e), ''event: '' @ event_code_value (pe_code e),
        ''data: '' @ json_object (public_data tx e), [], []]"
proof -
  have "newline \<notin> set (''id: '' @ int_text (pe_sequence e))"
    using no_newline_digits by (auto simp: newline_def)
  moreover have "newline \<notin> set (''event: '' @ event_code_value (pe_code e))"
    by (cases "pe_code e") (simp_all add: newline_def)
  moreover have "newline \<notin> set (''data: '' @ json_object (public_data tx e))"
    using data_newline by (auto simp: newline_def)
  ultimately show ?thesis by (simp add: encode_task_event_def split_on_line newline_def)
qed

lemma event_code_inj: "event_code_value a = event_code_value b \<Longrightarrow> a = b"
  by (cases a; cases b) simp_all

lemma view_status_inj: "view_status_value a = view_status_value b \<Longrightarrow> a = b"
  by (cases a; cases b) simp_all

lemma event_of_data:
  assumes "event_data tx e = event_data tx e'" and "pe_code e = pe_code e'"
    and texts: "inj (uuid_text tx)" "inj (time_text tx)"
  shows "e = e'"
proof -
  note d = assms(1) [unfolded event_data_def]
  from d have "pe_attempt_count e = pe_attempt_count e'" "pe_sequence e = pe_sequence e'"
    "view_status_value (pe_status e) = view_status_value (pe_status e')"
    "time_text tx (pe_created_at e) = time_text tx (pe_created_at e')" "uuid_text tx (pe_task e) = uuid_text tx (pe_task e')"
    by simp_all
  moreover from d have "pe_public_code e = pe_public_code e'" by (simp split: option.splits)
  moreover from d have "pe_run e = pe_run e'" by (auto split: option.splits dest: injD [OF texts(1)])
  ultimately show ?thesis using assms(2) texts by (cases e; cases e') (auto dest: injD view_status_inj)
qed

text \<open>C32: A frame is one event: whatever the texts in it are, it splits into an id line, an event line, a data line and the
  empty line that ends it.  The id, sent back as the last event id, is parsed as the sequence number of the event; the data, read
  as JSON, has exactly the public fields of the event with their values; and so two events with the same frame are the same event,
  if UUIDs have different texts and times have.\<close>

theorem frame_is_one_event:
  assumes "0 \<le> pe_sequence e" and "pe_sequence e < 10 ^ MAX_STR_DIGITS"
  shows "split_on newline (encode_task_event tx e)
      = [''id: '' @ int_text (pe_sequence e), ''event: '' @ event_code_value (pe_code e),
         ''data: '' @ json_object (public_data tx e), [], []]
    \<and> parse_last_event_id (Some (int_text (pe_sequence e))) = Inr (pe_sequence e)
    \<and> read_object (json_object (public_data tx e)) = Some (event_data tx e)
    \<and> (inj (uuid_text tx) \<and> inj (time_text tx) \<longrightarrow>
         (\<forall>e'. encode_task_event tx e' = encode_task_event tx e \<longrightarrow> e' = e))"
proof -
  have "e' = e" if t: "inj (uuid_text tx)" "inj (time_text tx)" "encode_task_event tx e' = encode_task_event tx e" for e'
  proof -
    from t(3) frame_lines [of tx e] frame_lines [of tx e'] have
      "event_code_value (pe_code e') = event_code_value (pe_code e)"
      "json_object (public_data tx e') = json_object (public_data tx e)" by simp_all
    with data_read [of tx e] data_read [of tx e'] have "event_data tx e' = event_data tx e" "pe_code e' = pe_code e"
      by (auto dest: event_code_inj)
    then show ?thesis using t(1,2) by (rule event_of_data)
  qed
  with frame_lines printed_id_parses [OF assms] data_read show ?thesis by blast
qed

definition demo_frame_event :: task_public_event where
  "demo_frame_event = \<lparr>pe_task = 50, pe_sequence = 1, pe_code = EV_FAILED, pe_status = VIEW_FAILED,
     pe_public_code = Some [CHR ''a'', newline, CHR ''b''], pe_attempt_count = 1, pe_run = None,
     pe_created_at = 7\<rparr>"

definition demo_texts :: texts where
  "demo_texts = \<lparr>uuid_text = int_text, time_text = int_text\<rparr>"

lemma int_text_inj: "inj int_text"
proof (rule injI)
  fix i j assume "int_text i = int_text j"
  with spells_int [of i] spells_int [of j] show "i = j" by (auto simp: spells_def)
qed

theorem frame_is_one_event_witness:
  "length (split_on newline (encode_task_event demo_texts demo_frame_event)) = 5
   \<and> map_of (the (read_object (json_object (public_data demo_texts demo_frame_event)))) ''public_code''
       = Some (Sc_string [CHR ''a'', newline, CHR ''b''])
   \<and> encode_task_event demo_texts (demo_frame_event\<lparr>pe_public_code := None\<rparr>) \<noteq> encode_task_event demo_texts demo_frame_event"
proof -
  have "(1::int) < 10 ^ MAX_STR_DIGITS" by (rule one_less_power) (simp_all add: MAX_STR_DIGITS_def)
  then have "0 \<le> pe_sequence demo_frame_event" "pe_sequence demo_frame_event < 10 ^ MAX_STR_DIGITS"
    by (simp_all add: demo_frame_event_def)
  note frame = frame_is_one_event [OF this, of demo_texts]
  have "inj (uuid_text demo_texts)" "inj (time_text demo_texts)" using int_text_inj by (simp_all add: demo_texts_def)
  moreover have "demo_frame_event\<lparr>pe_public_code := None\<rparr> \<noteq> demo_frame_event" by (simp add: demo_frame_event_def)
  ultimately have "encode_task_event demo_texts (demo_frame_event\<lparr>pe_public_code := None\<rparr>) \<noteq> encode_task_event demo_texts demo_frame_event"
    using frame by blast
  with frame show ?thesis by (simp add: event_data_def) (simp add: demo_frame_event_def)
qed

end
