(* ===== verification/Timeline_Models.thy ===== *)
theory Timeline_Models
  imports Decision Store
begin

text \<open>
  \<open>timeline_execution/models.py\<close> and \<open>timeline_execution/policy.py\<close>: the states and codes of a
  timeline execution, the projections that the database returns with their validators, and
  the pure functions that snapshot a plan, rate a checkpoint, check codes and derive the
  current action.  Roles and milestone keys are their literal strings.
\<close>

section \<open>States and codes\<close>

datatype timeline_execution_state = TE_ACTIVE | TE_REASSESSMENT_REQUIRED | TE_COMPLETED

datatype timeline_checkpoint_state =
  CP_PENDING | CP_IN_PROGRESS | CP_AWAITING_ADVISOR | CP_VERIFIED | CP_BLOCKED

datatype timeline_risk_state = ON_TRACK | DUE_SOON | OVERDUE

datatype attestation_kind = KIND_PROGRESS | KIND_COMPLETION | KIND_BLOCKED

datatype checkpoint_status_code = WORK_IN_PROGRESS | READY_FOR_ADVISOR | WORK_BLOCKED

datatype attestation_code =
    DOCUMENTS_STATUS_CONFIRMED | APPLICATION_STATUS_CONFIRMED
  | VISA_STATUS_CONFIRMED | ARRIVAL_STATUS_CONFIRMED

fun attestation_code_value :: "attestation_code \<Rightarrow> string" where
  "attestation_code_value DOCUMENTS_STATUS_CONFIRMED = ''documents_status_confirmed''"
| "attestation_code_value APPLICATION_STATUS_CONFIRMED = ''application_status_confirmed''"
| "attestation_code_value VISA_STATUS_CONFIRMED = ''visa_status_confirmed''"
| "attestation_code_value ARRIVAL_STATUS_CONFIRMED = ''arrival_status_confirmed''"

datatype attestation_reason =
    NOT_APPLICABLE | MISSING_REQUIRED_INPUT | EXTERNAL_DEPENDENCY_UNAVAILABLE | DEADLINE_AT_RISK

datatype verification_action = VERIFY | REQUEST_UPDATE

datatype verification_reason = ATTESTATION_VERIFIED | STATUS_UPDATE_REQUIRED | STATUS_INCONSISTENT

datatype reassessment_trigger = BLOCKED_ATTESTATION | DEADLINE_ELAPSED

datatype current_action_code =
    CHECKPOINT_ATTESTATION_REQUIRED | ADVISOR_VERIFICATION_REQUIRED
  | EXECUTION_COMPLETED | REASSESSMENT_HANDOFF_REQUIRED

datatype receipt_operation = OP_START | OP_ATTEST | OP_VERIFY | OP_REASSESS

datatype receipt_result_kind =
    TIMELINE_EXECUTION_STARTED | TIMELINE_CHECKPOINT_ATTESTED
  | TIMELINE_CHECKPOINT_VERIFIED | TIMELINE_REASSESSMENT_REQUESTED

datatype activity_kind =
    ATTESTATION_RECORDED | VERIFICATION_RECORDED | REASSESSMENT_RECORDED | MUTATION_RECEIPT_RECORDED

datatype timeline_error =
    ProjectionError string
  | UnavailableError string
  | ConflictError string
  | DatabaseError sql_error

section \<open>Projections\<close>

record checkpoint_seed =
  seed_ordinal :: int
  seed_milestone :: string
  seed_due :: date
  seed_role :: string

record timeline_execution_v1 =
  ev1_id :: uuid
  ev1_case :: uuid
  ev1_case_revision :: int
  ev1_decision :: uuid
  ev1_receipt :: uuid
  ev1_plan :: uuid
  ev1_state :: timeline_execution_state
  ev1_row_version :: int
  ev1_created_at :: timestamp
  ev1_updated_at :: timestamp

record timeline_checkpoint_v1 =
  cv1_id :: uuid
  cv1_execution :: uuid
  cv1_ordinal :: int
  cv1_milestone :: string
  cv1_due :: date
  cv1_role :: string
  cv1_state :: timeline_checkpoint_state
  cv1_risk :: timeline_risk_state
  cv1_row_version :: int
  cv1_created_at :: timestamp
  cv1_updated_at :: timestamp

record timeline_attestation_v1 =
  av1_id :: uuid
  av1_execution :: uuid
  av1_checkpoint :: uuid
  av1_reporter :: uuid
  av1_role :: string
  av1_kind :: attestation_kind
  av1_status :: checkpoint_status_code
  av1_code :: attestation_code
  av1_reason :: attestation_reason
  av1_execution_version :: int
  av1_checkpoint_version :: int
  av1_created_at :: timestamp

record timeline_verification_v1 =
  vv1_id :: uuid
  vv1_execution :: uuid
  vv1_checkpoint :: uuid
  vv1_attestation :: uuid
  vv1_advisor :: uuid
  vv1_action :: verification_action
  vv1_reason :: verification_reason
  vv1_execution_version :: int
  vv1_checkpoint_version :: int
  vv1_created_at :: timestamp

record timeline_reassessment_v1 =
  rv1_id :: uuid
  rv1_execution :: uuid
  rv1_checkpoint :: uuid
  rv1_advisor :: uuid
  rv1_trigger :: reassessment_trigger
  rv1_reference :: "uuid option"
  rv1_date :: date
  rv1_projection_sha256 :: sha
  rv1_case :: uuid
  rv1_case_revision :: int
  rv1_decision :: uuid
  rv1_receipt :: uuid
  rv1_plan :: uuid
  rv1_pred_execution :: uuid
  rv1_pred_checkpoint :: uuid
  rv1_owner_role :: string
  rv1_successor_status :: string
  rv1_created_at :: timestamp

record timeline_receipt_v1 =
  rc1_id :: uuid
  rc1_operation :: receipt_operation
  rc1_result_kind :: receipt_result_kind
  rc1_result :: uuid
  rc1_execution :: uuid
  rc1_checkpoint :: "uuid option"
  rc1_before_execution :: "int option"
  rc1_after_execution :: int
  rc1_before_checkpoint :: "int option"
  rc1_after_checkpoint :: "int option"
  rc1_created_at :: timestamp

record timeline_activity_item =
  ai_kind :: activity_kind
  ai_durable_id :: uuid
  ai_execution :: uuid
  ai_checkpoint :: "uuid option"
  ai_created_at :: timestamp

record timeline_current_action =
  ca_code :: current_action_code
  ca_owner_role :: string
  ca_checkpoint :: "uuid option"
  ca_execution_version :: int
  ca_checkpoint_version :: "int option"

record timeline_execution_view =
  tv_execution :: timeline_execution_v1
  tv_checkpoints :: "timeline_checkpoint_v1 list"
  tv_current_checkpoint :: "timeline_checkpoint_v1 option"
  tv_latest_attestation :: "timeline_attestation_v1 option"
  tv_latest_verification :: "timeline_verification_v1 option"
  tv_reassessment :: "timeline_reassessment_v1 option"
  tv_current_action :: timeline_current_action
  tv_observed_date :: date
  tv_activity :: "timeline_activity_item list"
  tv_activity_total :: int
  tv_activity_truncated :: bool

text \<open>The fields that Pydantic constrains: positive integers and hashes.\<close>

definition positive_option :: "int option \<Rightarrow> bool" where
  "positive_option v = (case v of None \<Rightarrow> True | Some n \<Rightarrow> n > 0)"

definition valid_execution_v1 :: "timeline_execution_v1 \<Rightarrow> bool" where
  "valid_execution_v1 e \<longleftrightarrow> ev1_case_revision e > 0 \<and> ev1_row_version e > 0"

definition valid_checkpoint_v1 :: "timeline_checkpoint_v1 \<Rightarrow> bool" where
  "valid_checkpoint_v1 c \<longleftrightarrow>
     cv1_ordinal c > 0 \<and> cv1_row_version c > 0 \<and> cv1_role c \<in> {''student'', ''parent''}
     \<and> cv1_milestone c \<in> {''documents'', ''application'', ''visa'', ''arrival''}"

definition valid_attestation_v1 :: "timeline_attestation_v1 \<Rightarrow> bool" where
  "valid_attestation_v1 a \<longleftrightarrow>
     av1_execution_version a > 0 \<and> av1_checkpoint_version a > 0 \<and> av1_role a \<in> {''student'', ''parent''}"

definition valid_verification_v1 :: "timeline_verification_v1 \<Rightarrow> bool" where
  "valid_verification_v1 v \<longleftrightarrow> vv1_execution_version v > 0 \<and> vv1_checkpoint_version v > 0"

definition valid_reassessment_v1 :: "timeline_reassessment_v1 \<Rightarrow> bool" where
  "valid_reassessment_v1 r \<longleftrightarrow>
     rv1_case_revision r > 0 \<and> is_sha256 (rv1_projection_sha256 r)
     \<and> rv1_owner_role r = ''advisor'' \<and> rv1_successor_status r = ''pending_future_authorization''"

definition valid_receipt_v1 :: "timeline_receipt_v1 \<Rightarrow> bool" where
  "valid_receipt_v1 r \<longleftrightarrow>
     positive_option (rc1_before_execution r) \<and> rc1_after_execution r > 0
     \<and> positive_option (rc1_before_checkpoint r) \<and> positive_option (rc1_after_checkpoint r)"

definition valid_current_action :: "timeline_current_action \<Rightarrow> bool" where
  "valid_current_action a \<longleftrightarrow>
     ca_owner_role a \<in> {''advisor'', ''student'', ''parent'', ''none''}
     \<and> ca_execution_version a > 0 \<and> positive_option (ca_checkpoint_version a)"

text \<open>\<open>sorted(..., reverse=True)\<close> keeps equal items in their order.\<close>

definition activity_order :: "timeline_activity_item list \<Rightarrow> timeline_activity_item list" where
  "activity_order items = rev (sort_key (\<lambda>i. (ai_created_at i, ai_durable_id i)) (rev items))"

definition bounded_activity :: "timeline_execution_view \<Rightarrow> timeline_execution_view result" where
  "bounded_activity v =
     (let e = tv_execution v in
      bind_result (case tv_reassessment v of None \<Rightarrow> Inr ()
        | Some r \<Rightarrow> ensure (rv1_execution r = ev1_id e \<and> rv1_pred_execution r = ev1_id e
              \<and> rv1_pred_checkpoint r = rv1_checkpoint r \<and> rv1_case r = ev1_case e
              \<and> rv1_case_revision r = ev1_case_revision e \<and> rv1_decision r = ev1_decision e
              \<and> rv1_receipt r = ev1_receipt e \<and> rv1_plan r = ev1_plan e)
            (ValueError ''reassessment predecessor must match execution lineage'')) (\<lambda>_.
      if tv_activity_total v < 0 \<or> tv_activity_total v < int (length (tv_activity v)) then
        Inl (ValueError ''activity_total must cover the returned activity'')
      else if length (tv_activity v) > 64 then Inl (ValueError ''activity is limited to 64 items'')
      else if tv_activity_truncated v \<noteq> (tv_activity_total v > int (length (tv_activity v))) then
        Inl (ValueError ''activity_truncated must reflect the exact total'')
      else if tv_activity v \<noteq> activity_order (tv_activity v) then
        Inl (ValueError ''activity must use stable descending order'')
      else Inr v))"

definition valid_view_fields :: "timeline_execution_view \<Rightarrow> bool" where
  "valid_view_fields v \<longleftrightarrow>
     valid_execution_v1 (tv_execution v) \<and> list_all valid_checkpoint_v1 (tv_checkpoints v)
     \<and> pred_option valid_checkpoint_v1 (tv_current_checkpoint v)
     \<and> pred_option valid_attestation_v1 (tv_latest_attestation v)
     \<and> pred_option valid_verification_v1 (tv_latest_verification v)
     \<and> pred_option valid_reassessment_v1 (tv_reassessment v)
     \<and> valid_current_action (tv_current_action v)"

section \<open>Policy\<close>

definition MILESTONES :: "string list" where
  "MILESTONES = [''documents'', ''application'', ''visa'', ''arrival'']"

definition ACCOUNTABLE_ROLES :: "string list" where
  "ACCOUNTABLE_ROLES = [''student'', ''student'', ''student'', ''parent'']"

definition snapshot_timeline_plan :: "timeline_plan \<Rightarrow> timeline_error + checkpoint_seed list" where
  "snapshot_timeline_plan plan =
     (if map key (milestones plan) \<noteq> MILESTONES then
        Inl (ProjectionError ''timeline milestones must match canonical order'')
      else Inr (map (\<lambda>(index, m). \<lparr>seed_ordinal = int index, seed_milestone = key m, seed_due = due_date m,
                       seed_role = ACCOUNTABLE_ROLES ! (index - 1)\<rparr>)
                 (enumerate 1 (milestones plan))))"

text \<open>\<open>date.toordinal\<close> of the standard library.\<close>

definition is_leap :: "int \<Rightarrow> bool" where
  "is_leap y \<longleftrightarrow> y mod 4 = 0 \<and> (y mod 100 \<noteq> 0 \<or> y mod 400 = 0)"

definition days_before_month :: "int \<Rightarrow> int \<Rightarrow> int" where
  "days_before_month y m =
     [0, 31, 59, 90, 120, 151, 181, 212, 243, 273, 304, 334] ! nat (m - 1)
     + (if m > 2 \<and> is_leap y then 1 else 0)"

definition date_ordinal :: "date \<Rightarrow> int" where
  "date_ordinal = (\<lambda>(y, m, d). (y - 1) * 365 + (y - 1) div 4 - (y - 1) div 100 + (y - 1) div 400
     + days_before_month y m + d)"

definition derive_risk_state :: "timeline_checkpoint_state \<Rightarrow> date \<Rightarrow> date \<Rightarrow> timeline_risk_state" where
  "derive_risk_state st due observed =
     (if st = CP_VERIFIED then ON_TRACK
      else let remaining = date_ordinal due - date_ordinal observed in
        if remaining < 0 then OVERDUE else if remaining \<le> 14 then DUE_SOON else ON_TRACK)"

fun exact_status :: "attestation_kind \<Rightarrow> checkpoint_status_code" where
  "exact_status KIND_PROGRESS = WORK_IN_PROGRESS"
| "exact_status KIND_COMPLETION = READY_FOR_ADVISOR"
| "exact_status KIND_BLOCKED = WORK_BLOCKED"

definition validate_attestation_codes ::
  "string \<Rightarrow> attestation_kind \<Rightarrow> checkpoint_status_code \<Rightarrow> attestation_code \<Rightarrow> attestation_reason
     \<Rightarrow> timeline_error + unit" where
  "validate_attestation_codes milestone knd status code why =
     (if milestone \<notin> set MILESTONES \<or> attestation_code_value code \<noteq> milestone @ ''_status_confirmed'' then
        Inl (ProjectionError ''attestation code must match milestone'')
      else if status \<noteq> exact_status knd then
        Inl (ProjectionError ''status code must match attestation kind'')
      else if knd = KIND_BLOCKED then
        (if why = NOT_APPLICABLE then Inl (ProjectionError ''blocked attestation requires a reason'')
         else Inr ())
      else if why \<noteq> NOT_APPLICABLE then
        Inl (ProjectionError ''non-blocked attestation uses not_applicable'')
      else Inr ())"

definition validate_verification_codes ::
  "verification_action \<Rightarrow> verification_reason \<Rightarrow> timeline_error + unit" where
  "validate_verification_codes act why =
     (let valid = (if act = VERIFY then why = ATTESTATION_VERIFIED
                   else why \<in> {STATUS_UPDATE_REQUIRED, STATUS_INCONSISTENT}) in
      if \<not> valid then Inl (ProjectionError ''verification reason must match action'') else Inr ())"

definition derive_current_action :: "timeline_execution_view \<Rightarrow> timeline_error + timeline_current_action" where
  "derive_current_action v =
     (let e = tv_execution v in
      if ev1_state e = TE_COMPLETED then
        (if tv_current_checkpoint v \<noteq> None then
           Inl (ProjectionError ''completed execution has no current checkpoint'')
         else Inr \<lparr>ca_code = EXECUTION_COMPLETED, ca_owner_role = ''none'', ca_checkpoint = None,
                ca_execution_version = ev1_row_version e, ca_checkpoint_version = None\<rparr>)
      else if ev1_state e = TE_REASSESSMENT_REQUIRED then
        Inr \<lparr>ca_code = REASSESSMENT_HANDOFF_REQUIRED, ca_owner_role = ''advisor'',
             ca_checkpoint = map_option cv1_id (tv_current_checkpoint v),
             ca_execution_version = ev1_row_version e,
             ca_checkpoint_version = map_option cv1_row_version (tv_current_checkpoint v)\<rparr>
      else
        (case filter (\<lambda>c. cv1_state c \<in> {CP_IN_PROGRESS, CP_AWAITING_ADVISOR, CP_BLOCKED}) (tv_checkpoints v) of
           [c] \<Rightarrow>
             (if tv_current_checkpoint v \<noteq> Some c then
                Inl (ProjectionError ''active execution must have one current checkpoint'')
              else
                let (code, owner) =
                  (if cv1_state c = CP_AWAITING_ADVISOR then (ADVISOR_VERIFICATION_REQUIRED, ''advisor'')
                   else if cv1_state c = CP_BLOCKED then (REASSESSMENT_HANDOFF_REQUIRED, ''advisor'')
                   else (CHECKPOINT_ATTESTATION_REQUIRED, cv1_role c)) in
                Inr \<lparr>ca_code = code, ca_owner_role = owner, ca_checkpoint = Some (cv1_id c),
                     ca_execution_version = ev1_row_version e,
                     ca_checkpoint_version = Some (cv1_row_version c)\<rparr>)
         | _ \<Rightarrow> Inl (ProjectionError ''active execution must have one current checkpoint'')))"

end
