(* ===== verification/Timeline_Authority.thy ===== *)
theory Timeline_Authority
  imports Timeline_Models
begin

text \<open>
  The SQL functions of migration 0014 that own timeline executions: start, attest, verify,
  reassess and read.  Checkpoints, attestations, verifications and reassessments are
  keyed by their execution, receipts and executions by their own id, each within its
  organization.  Plans with their decisions and cases, and the participants of a case,
  are a catalog; \<open>gen_random_uuid\<close>, the clock and the hash of a trigger are arguments.
  A failed call changes nothing.
\<close>

section \<open>Tables\<close>

record milestone_json =
  ms_key :: "string option"
  ms_due :: "date option"
  ms_other_keys :: "string list"

record plan_anchor =
  pa_milestones :: "milestone_json list"
  pa_decision :: uuid
  pa_receipt :: uuid
  pa_case :: uuid
  pa_revision :: int

record timeline_catalog =
  plan_rows :: "(row_key \<times> plan_anchor) list"
  participates :: "uuid \<Rightarrow> uuid \<Rightarrow> uuid \<Rightarrow> string \<Rightarrow> bool"
  trigger_sha256 :: "reassessment_trigger \<Rightarrow> uuid option \<Rightarrow> uuid \<Rightarrow> uuid \<Rightarrow> timeline_checkpoint_state
      \<Rightarrow> date \<Rightarrow> date \<Rightarrow> sha"

record timeline_checkpoint =
  cp_id :: uuid
  cp_ordinal :: int
  cp_milestone :: string
  cp_due :: date
  cp_role :: string
  cp_state :: timeline_checkpoint_state
  cp_row_version :: int
  cp_attested_at :: "timestamp option"
  cp_verified_at :: "timestamp option"
  cp_created_at :: timestamp
  cp_updated_at :: timestamp

record timeline_attestation = timeline_attestation_v1 +
  at_request_sha256 :: sha

record timeline_verification = timeline_verification_v1 +
  vf_request_sha256 :: sha

record timeline_reassessment = timeline_reassessment_v1 +
  rs_execution_version :: int
  rs_checkpoint_version :: int
  rs_request_sha256 :: sha

record timeline_receipt = timeline_receipt_v1 +
  rc_actor :: uuid
  rc_key_sha256 :: sha
  rc_request_sha256 :: sha

record timeline_idem = idem_record +
  ir_response_kind :: string

record timeline_db =
  tl_executions :: "(row_key \<times> timeline_execution_v1) list"
  tl_checkpoints :: "(row_key \<times> timeline_checkpoint) list"
  tl_attestations :: "(row_key \<times> timeline_attestation) list"
  tl_verifications :: "(row_key \<times> timeline_verification) list"
  tl_reassessments :: "(row_key \<times> timeline_reassessment) list"
  tl_receipts :: "(row_key \<times> timeline_receipt) list"
  tl_idempotency :: "(idem_key \<times> timeline_idem) list"

definition empty_timeline_db :: timeline_db where
  "empty_timeline_db = \<lparr>tl_executions = [], tl_checkpoints = [], tl_attestations = [],
     tl_verifications = [], tl_reassessments = [], tl_receipts = [], tl_idempotency = []\<rparr>"

section \<open>Commands\<close>

record start_request =
  sq_org :: uuid
  sq_actor :: uuid
  sq_role :: string
  sq_timeline :: uuid
  sq_case :: uuid
  sq_revision :: int
  sq_execution :: uuid
  sq_receipt :: uuid
  sq_key_hash :: sha
  sq_request_hash :: sha

record timeline_request =
  tq_org :: uuid
  tq_actor :: uuid
  tq_role :: string
  tq_case :: uuid
  tq_execution :: uuid
  tq_checkpoint :: uuid
  tq_execution_version :: int
  tq_checkpoint_version :: int
  tq_receipt :: uuid
  tq_key_hash :: sha
  tq_request_hash :: sha

record attest_request = timeline_request +
  aq_kind :: attestation_kind
  aq_status :: checkpoint_status_code
  aq_code :: attestation_code
  aq_reason :: attestation_reason
  aq_attestation :: uuid

record verify_request = timeline_request +
  vq_attestation :: uuid
  vq_action :: verification_action
  vq_reason :: verification_reason
  vq_verification :: uuid

record reassess_request = timeline_request +
  eq_reference :: "uuid option"
  eq_trigger :: reassessment_trigger
  eq_reassessment :: uuid

definition execution_key :: "'a timeline_request_scheme \<Rightarrow> row_key" where
  "execution_key r = (tq_org r, tq_execution r)"

section \<open>Shared statements\<close>

definition idem_key_of :: "string \<Rightarrow> uuid \<Rightarrow> uuid \<Rightarrow> sha \<Rightarrow> idem_key" where
  "idem_key_of op org actor key_hash = \<lparr>ik_organization = org, ik_actor = actor,
     ik_operation = op, ik_key_sha256 = key_hash\<rparr>"

definition timeline_key :: "string \<Rightarrow> 'a timeline_request_scheme \<Rightarrow> idem_key" where
  "timeline_key op r = idem_key_of op (tq_org r) (tq_actor r) (tq_key_hash r)"

definition start_key :: "start_request \<Rightarrow> idem_key" where
  "start_key r = idem_key_of ''timeline_execution_start'' (sq_org r) (sq_actor r) (sq_key_hash r)"

text \<open>The projection of a stored receipt, and the replay of a prior record.\<close>

definition receipt_json :: "row_key \<Rightarrow> timeline_db \<Rightarrow> timeline_receipt_v1 option" where
  "receipt_json k db = map_option timeline_receipt_v1.truncate (map_of (tl_receipts db) k)"

definition replay_receipt ::
  "string \<Rightarrow> uuid \<Rightarrow> sha \<Rightarrow> timeline_idem \<Rightarrow> timeline_db
     \<Rightarrow> sql_error + timeline_db \<times> timeline_receipt_v1 option" where
  "replay_receipt response org request_hash prior db =
     (if ir_request_sha256 prior \<noteq> request_hash \<or> ir_response_kind prior \<noteq> response then Inl NV008
      else Inr (db, receipt_json (org, ir_response_id prior) db))"

definition current_checkpoints :: "row_key \<Rightarrow> timeline_db \<Rightarrow> timeline_checkpoint list" where
  "current_checkpoints k db =
     filter (\<lambda>c. cp_state c \<notin> {CP_PENDING, CP_VERIFIED}) (rows_of k (tl_checkpoints db))"

definition current_target ::
  "'a timeline_request_scheme \<Rightarrow> timeline_execution_v1 \<Rightarrow> timeline_db \<Rightarrow> sql_error + timeline_checkpoint" where
  "current_target r e db =
     (if ev1_case e \<noteq> tq_case r then Inl NV003
      else if ev1_state e = TE_COMPLETED then Inl NV022
      else if ev1_state e \<noteq> TE_ACTIVE then Inl NV026
      else case current_checkpoints (execution_key r) db of
        [c] \<Rightarrow> if cp_id c \<noteq> tq_checkpoint r then Inl NV023 else Inr c
      | _ \<Rightarrow> Inl NV023)"

definition check_versions ::
  "'a timeline_request_scheme \<Rightarrow> timeline_execution_v1 \<Rightarrow> timeline_checkpoint \<Rightarrow> sql_error + unit" where
  "check_versions r e c =
     (if ev1_row_version e \<noteq> tq_execution_version r then Inl NV020
      else if cp_row_version c \<noteq> tq_checkpoint_version r then Inl NV021 else Inr ())"

text \<open>\<open>row_version + 1\<close> in an integer column.\<close>

definition bump :: "int \<Rightarrow> sql_error + int" where
  "bump v = (if v < 2147483647 then Inr (v + 1) else Inl NUMERIC_OUT_OF_RANGE)"

definition bump_checkpoint ::
  "(timeline_checkpoint \<Rightarrow> timeline_checkpoint) \<Rightarrow> timeline_checkpoint \<Rightarrow> sql_error + timeline_checkpoint" where
  "bump_checkpoint f c = bind_result (bump (cp_row_version c)) (\<lambda>v. Inr ((f c)\<lparr>cp_row_version := v\<rparr>))"

definition update_checkpoints ::
  "(row_key \<Rightarrow> timeline_checkpoint \<Rightarrow> bool) \<Rightarrow> (timeline_checkpoint \<Rightarrow> timeline_checkpoint) \<Rightarrow> timeline_db
     \<Rightarrow> sql_error + timeline_db" where
  "update_checkpoints P f db =
     bind_result (update_where P (bump_checkpoint f) (tl_checkpoints db)) (\<lambda>rows. Inr (db\<lparr>tl_checkpoints := rows\<rparr>))"

definition update_timeline_execution ::
  "row_key \<Rightarrow> (timeline_execution_v1 \<Rightarrow> timeline_execution_v1) \<Rightarrow> timestamp \<Rightarrow> timeline_db
     \<Rightarrow> sql_error + timeline_db" where
  "update_timeline_execution k f now db =
     bind_result (update_where (\<lambda>k' e. k' = k)
         (\<lambda>e. bind_result (bump (ev1_row_version e)) (\<lambda>v. Inr ((f e)\<lparr>ev1_row_version := v, ev1_updated_at := now\<rparr>)))
         (tl_executions db))
       (\<lambda>rows. Inr (db\<lparr>tl_executions := rows\<rparr>))"

text \<open>The last two inserts of every command, and the receipt it returns.\<close>

definition record_mutation ::
  "uuid \<Rightarrow> idem_key \<Rightarrow> string \<Rightarrow> timeline_receipt \<Rightarrow> timeline_db
     \<Rightarrow> sql_error + timeline_db \<times> timeline_receipt_v1 option" where
  "record_mutation org ik response rc db =
     (if map_of (tl_receipts db) (org, rc1_id rc) \<noteq> None
         \<or> list_ex (\<lambda>(k, r). fst k = org \<and> rc_actor r = rc_actor rc \<and> rc1_operation r = rc1_operation rc
                \<and> rc_key_sha256 r = rc_key_sha256 rc) (tl_receipts db)
      then Inl UNIQUE_VIOLATION
      else let db1 = db\<lparr>tl_receipts := tl_receipts db @ [((org, rc1_id rc), rc)],
               tl_idempotency := AList.update ik
                 \<lparr>ir_request_sha256 = rc_request_sha256 rc, ir_response_id = rc1_id rc,
                  ir_response_kind = response\<rparr> (tl_idempotency db)\<rparr> in
        Inr (db1, receipt_json (org, rc1_id rc) db1))"

definition checkpoint_receipt ::
  "'a timeline_request_scheme \<Rightarrow> receipt_operation \<Rightarrow> receipt_result_kind \<Rightarrow> uuid \<Rightarrow> int \<Rightarrow> timestamp
     \<Rightarrow> timeline_receipt" where
  "checkpoint_receipt r op knd result after_checkpoint now =
     \<lparr>rc1_id = tq_receipt r, rc1_operation = op, rc1_result_kind = knd, rc1_result = result,
      rc1_execution = tq_execution r, rc1_checkpoint = Some (tq_checkpoint r),
      rc1_before_execution = Some (tq_execution_version r), rc1_after_execution = tq_execution_version r + 1,
      rc1_before_checkpoint = Some (tq_checkpoint_version r), rc1_after_checkpoint = Some after_checkpoint,
      rc1_created_at = now, rc_actor = tq_actor r, rc_key_sha256 = tq_key_hash r,
      rc_request_sha256 = tq_request_hash r\<rparr>"

definition valid_command :: "'a timeline_request_scheme \<Rightarrow> bool" where
  "valid_command r \<longleftrightarrow>
     tq_execution_version r > 0 \<and> tq_checkpoint_version r > 0 \<and> is_sha256 (tq_key_hash r)
     \<and> is_sha256 (tq_request_hash r)"

section \<open>Start\<close>

text \<open>\<open>->>'key' <> 'documents'\<close> is null, and so not true, where the key is missing; the insert then
  violates the column.\<close>

definition milestone_mismatch :: "milestone_json list \<Rightarrow> bool" where
  "milestone_mismatch ms \<longleftrightarrow>
     length ms \<noteq> 4
     \<or> list_ex (\<lambda>(m, expected). ms_key m \<noteq> None \<and> ms_key m \<noteq> Some expected) (zip ms MILESTONES)
     \<or> list_ex (\<lambda>m. ms_other_keys m \<noteq> []) ms"

definition new_checkpoint :: "timestamp \<Rightarrow> nat \<Rightarrow> uuid \<Rightarrow> string \<Rightarrow> date \<Rightarrow> timeline_checkpoint" where
  "new_checkpoint now ordinality checkpoint_id milestone due =
     \<lparr>cp_id = checkpoint_id, cp_ordinal = int ordinality, cp_milestone = milestone, cp_due = due,
      cp_role = (if ordinality = 4 then ''parent'' else ''student''),
      cp_state = (if ordinality = 1 then CP_IN_PROGRESS else CP_PENDING), cp_row_version = 1,
      cp_attested_at = None, cp_verified_at = None, cp_created_at = now, cp_updated_at = now\<rparr>"

definition insert_checkpoints ::
  "row_key \<Rightarrow> (nat \<Rightarrow> uuid) \<Rightarrow> milestone_json list \<Rightarrow> timestamp \<Rightarrow> timeline_db \<Rightarrow> sql_error + timeline_db" where
  "insert_checkpoints k fresh ms now db =
     (if list_ex (\<lambda>m. ms_key m = None \<or> ms_due m = None) ms then Inl NOT_NULL_VIOLATION
      else if \<not> distinct (map (fresh \<circ> fst) (enumerate 1 ms))
           \<or> list_ex (\<lambda>(k', c). fst k' = fst k \<and> cp_id c \<in> set (map (fresh \<circ> fst) (enumerate 1 ms)))
               (tl_checkpoints db)
           \<or> rows_of k (tl_checkpoints db) \<noteq> [] then Inl UNIQUE_VIOLATION
      else Inr (db\<lparr>tl_checkpoints := tl_checkpoints db @
             map (\<lambda>(i, m). (k, new_checkpoint now i (fresh i) (the (ms_key m)) (the (ms_due m))))
               (enumerate 1 ms)\<rparr>))"

definition started_execution :: "start_request \<Rightarrow> plan_anchor \<Rightarrow> timestamp \<Rightarrow> timeline_execution_v1" where
  "started_execution r anchor now =
     \<lparr>ev1_id = sq_execution r, ev1_case = pa_case anchor, ev1_case_revision = pa_revision anchor,
      ev1_decision = pa_decision anchor, ev1_receipt = pa_receipt anchor, ev1_plan = sq_timeline r,
      ev1_state = TE_ACTIVE, ev1_row_version = 1, ev1_created_at = now, ev1_updated_at = now\<rparr>"

definition started_receipt :: "start_request \<Rightarrow> timestamp \<Rightarrow> timeline_receipt" where
  "started_receipt r now =
     \<lparr>rc1_id = sq_receipt r, rc1_operation = OP_START, rc1_result_kind = TIMELINE_EXECUTION_STARTED,
      rc1_result = sq_execution r, rc1_execution = sq_execution r, rc1_checkpoint = None,
      rc1_before_execution = None, rc1_after_execution = 1, rc1_before_checkpoint = None,
      rc1_after_checkpoint = None, rc1_created_at = now, rc_actor = sq_actor r,
      rc_key_sha256 = sq_key_hash r, rc_request_sha256 = sq_request_hash r\<rparr>"

definition start_timeline_execution ::
  "timeline_catalog \<Rightarrow> session \<Rightarrow> start_request \<Rightarrow> (nat \<Rightarrow> uuid) \<Rightarrow> timestamp \<Rightarrow> timeline_db
     \<Rightarrow> sql_error + timeline_db \<times> timeline_receipt_v1 option" where
  "start_timeline_execution cat ses r fresh now db =
     (if sq_role r \<notin> {''student'', ''parent''} \<or> sq_revision r \<le> 0 \<or> \<not> is_sha256 (sq_key_hash r)
         \<or> \<not> is_sha256 (sq_request_hash r) then Inl NV006
      else bind_result (assert_m3b_context ses (sq_org r) (sq_actor r) (sq_role r)) (\<lambda>_.
      case map_of (tl_idempotency db) (start_key r) of
        Some prior \<Rightarrow>
          bind_result (replay_receipt ''timeline_execution_started'' (sq_org r) (sq_request_hash r) prior db)
            (\<lambda>(db', json). if json = None then Inl NV006 else Inr (db', json))
      | None \<Rightarrow>
        (case map_of (plan_rows cat) (sq_org r, sq_timeline r) of None \<Rightarrow> Inl NV003
         | Some anchor \<Rightarrow>
           if \<not> participates cat (sq_org r) (pa_case anchor) (sq_actor r) (sq_role r) then Inl NV003
           else if pa_case anchor \<noteq> sq_case r then Inl NV003
           else if pa_revision anchor \<noteq> sq_revision r then Inl NV020
           else if milestone_mismatch (pa_milestones anchor) then Inl NV006
           else if list_ex (\<lambda>(k, e). fst k = sq_org r \<and> ev1_plan e = sq_timeline r) (tl_executions db) then Inl NV023
           else if map_of (tl_executions db) (sq_org r, sq_execution r) \<noteq> None then Inl UNIQUE_VIOLATION
           else bind_result (insert_checkpoints (sq_org r, sq_execution r) fresh (pa_milestones anchor) now
               (db\<lparr>tl_executions := tl_executions db @ [((sq_org r, sq_execution r), started_execution r anchor now)]\<rparr>))
             (record_mutation (sq_org r) (start_key r) ''timeline_execution_started''
               (started_receipt r now)))))"

section \<open>Attest\<close>

definition attestation_codes_refused :: "attest_request \<Rightarrow> timeline_checkpoint \<Rightarrow> bool" where
  "attestation_codes_refused a c \<longleftrightarrow>
     attestation_code_value (aq_code a) \<noteq> cp_milestone c @ ''_status_confirmed''
     \<or> aq_kind a = KIND_PROGRESS \<and> (aq_status a \<noteq> WORK_IN_PROGRESS \<or> aq_reason a \<noteq> NOT_APPLICABLE)
     \<or> aq_kind a = KIND_COMPLETION \<and> (aq_status a \<noteq> READY_FOR_ADVISOR \<or> aq_reason a \<noteq> NOT_APPLICABLE)
     \<or> aq_kind a = KIND_BLOCKED \<and> (aq_status a \<noteq> WORK_BLOCKED
          \<or> aq_reason a \<notin> {MISSING_REQUIRED_INPUT, EXTERNAL_DEPENDENCY_UNAVAILABLE, DEADLINE_AT_RISK})"

fun attested_state :: "attestation_kind \<Rightarrow> timeline_checkpoint_state" where
  "attested_state KIND_PROGRESS = CP_IN_PROGRESS"
| "attested_state KIND_COMPLETION = CP_AWAITING_ADVISOR"
| "attested_state KIND_BLOCKED = CP_BLOCKED"

definition insert_attestation ::
  "attest_request \<Rightarrow> timestamp \<Rightarrow> timeline_db \<Rightarrow> sql_error + timeline_db" where
  "insert_attestation a now db =
     (if list_ex (\<lambda>(k, r). fst k = tq_org a \<and> av1_id r = aq_attestation a) (tl_attestations db)
      then Inl UNIQUE_VIOLATION
      else Inr (db\<lparr>tl_attestations := tl_attestations db @ [(execution_key a,
             \<lparr>av1_id = aq_attestation a, av1_execution = tq_execution a, av1_checkpoint = tq_checkpoint a,
              av1_reporter = tq_actor a, av1_role = tq_role a, av1_kind = aq_kind a, av1_status = aq_status a,
              av1_code = aq_code a, av1_reason = aq_reason a, av1_execution_version = tq_execution_version a,
              av1_checkpoint_version = tq_checkpoint_version a, av1_created_at = now,
              at_request_sha256 = tq_request_hash a\<rparr>)]\<rparr>))"

definition attest_timeline_checkpoint ::
  "timeline_catalog \<Rightarrow> session \<Rightarrow> attest_request \<Rightarrow> timestamp \<Rightarrow> timeline_db
     \<Rightarrow> sql_error + timeline_db \<times> timeline_receipt_v1 option" where
  "attest_timeline_checkpoint cat ses a now db =
     (if tq_role a \<notin> {''student'', ''parent''} \<or> \<not> valid_command a then Inl NV006
      else bind_result (assert_m3b_context ses (tq_org a) (tq_actor a) (tq_role a)) (\<lambda>_.
      case map_of (tl_executions db) (execution_key a) of None \<Rightarrow> Inl NV003
      | Some e \<Rightarrow>
        (case map_of (tl_idempotency db) (timeline_key ''timeline_checkpoint_attest'' a) of
          Some prior \<Rightarrow> replay_receipt ''timeline_checkpoint_attested'' (tq_org a) (tq_request_hash a) prior db
        | None \<Rightarrow>
          bind_result (current_target a e db) (\<lambda>c.
          bind_result (check_versions a e c) (\<lambda>_.
          if cp_state c \<noteq> CP_IN_PROGRESS \<or> cp_role c \<noteq> tq_role a
             \<or> \<not> participates cat (tq_org a) (ev1_case e) (tq_actor a) (tq_role a) then Inl NV024
          else if attestation_codes_refused a c then Inl NV024
          else bind_result (insert_attestation a now db) (\<lambda>db1.
            bind_result (update_checkpoints (\<lambda>k' c'. fst k' = tq_org a \<and> cp_id c' = tq_checkpoint a)
                (\<lambda>c'. c'\<lparr>cp_state := attested_state (aq_kind a), cp_attested_at := Some now,
                         cp_updated_at := now\<rparr>) db1) (\<lambda>db2.
            bind_result (update_timeline_execution (execution_key a) (\<lambda>e'. e') now db2)
              (record_mutation (tq_org a) (timeline_key ''timeline_checkpoint_attest'' a)
                ''timeline_checkpoint_attested''
                (checkpoint_receipt a OP_ATTEST TIMELINE_CHECKPOINT_ATTESTED (aq_attestation a)
                  (tq_checkpoint_version a + 1) now)))))))))"

section \<open>Verify\<close>

text \<open>\<open>ORDER BY created_at DESC, attestation_id DESC LIMIT 1\<close>.\<close>

definition latest_attestation :: "timeline_attestation list \<Rightarrow> timeline_attestation option" where
  "latest_attestation rows =
     (if rows = [] then None else Some (last (sort_key (\<lambda>a. (av1_created_at a, av1_id a)) rows)))"

definition verification_refused :: "verify_request \<Rightarrow> bool" where
  "verification_refused r \<longleftrightarrow>
     vq_action r = VERIFY \<and> vq_reason r \<noteq> ATTESTATION_VERIFIED
     \<or> vq_action r = REQUEST_UPDATE \<and> vq_reason r \<notin> {STATUS_UPDATE_REQUIRED, STATUS_INCONSISTENT}"

definition insert_verification ::
  "verify_request \<Rightarrow> timestamp \<Rightarrow> timeline_db \<Rightarrow> sql_error + timeline_db" where
  "insert_verification r now db =
     (if list_ex (\<lambda>(k, v). fst k = tq_org r \<and> vv1_id v = vq_verification r) (tl_verifications db)
      then Inl UNIQUE_VIOLATION
      else Inr (db\<lparr>tl_verifications := tl_verifications db @ [(execution_key r,
             \<lparr>vv1_id = vq_verification r, vv1_execution = tq_execution r, vv1_checkpoint = tq_checkpoint r,
              vv1_attestation = vq_attestation r, vv1_advisor = tq_actor r, vv1_action = vq_action r,
              vv1_reason = vq_reason r, vv1_execution_version = tq_execution_version r,
              vv1_checkpoint_version = tq_checkpoint_version r, vv1_created_at = now,
              vf_request_sha256 = tq_request_hash r\<rparr>)]\<rparr>))"

text \<open>The updates of the current checkpoint, of the next one and of the execution.\<close>

definition apply_verification ::
  "verify_request \<Rightarrow> timeline_checkpoint \<Rightarrow> timestamp \<Rightarrow> timeline_db \<Rightarrow> sql_error + timeline_db" where
  "apply_verification r c now db =
     (let this_one = (\<lambda>k' c'. fst k' = tq_org r \<and> cp_id c' = tq_checkpoint r) in
      if vq_action r = REQUEST_UPDATE then
        bind_result (update_checkpoints this_one
            (\<lambda>c'. c'\<lparr>cp_state := CP_IN_PROGRESS, cp_verified_at := None, cp_updated_at := now\<rparr>) db)
          (update_timeline_execution (execution_key r) (\<lambda>e. e) now)
      else
        bind_result (update_checkpoints this_one
            (\<lambda>c'. c'\<lparr>cp_state := CP_VERIFIED, cp_verified_at := Some now, cp_updated_at := now\<rparr>) db) (\<lambda>db1.
          if cp_milestone c = ''arrival'' then
            update_timeline_execution (execution_key r) (\<lambda>e. e\<lparr>ev1_state := TE_COMPLETED\<rparr>) now db1
          else
            bind_result (update_checkpoints
                (\<lambda>k' c'. k' = execution_key r \<and> cp_ordinal c' = cp_ordinal c + 1 \<and> cp_state c' = CP_PENDING)
                (\<lambda>c'. c'\<lparr>cp_state := CP_IN_PROGRESS, cp_updated_at := now\<rparr>) db1)
              (update_timeline_execution (execution_key r) (\<lambda>e. e) now)))"

definition verify_timeline_checkpoint ::
  "timeline_catalog \<Rightarrow> session \<Rightarrow> verify_request \<Rightarrow> timestamp \<Rightarrow> timeline_db
     \<Rightarrow> sql_error + timeline_db \<times> timeline_receipt_v1 option" where
  "verify_timeline_checkpoint cat ses r now db =
     (if tq_role r \<noteq> ''advisor'' \<or> \<not> valid_command r then Inl NV006
      else bind_result (assert_m3b_context ses (tq_org r) (tq_actor r) (tq_role r)) (\<lambda>_.
      case map_of (tl_executions db) (execution_key r) of None \<Rightarrow> Inl NV003
      | Some e \<Rightarrow>
        (case map_of (tl_idempotency db) (timeline_key ''timeline_checkpoint_verify'' r) of
          Some prior \<Rightarrow> replay_receipt ''timeline_checkpoint_verified'' (tq_org r) (tq_request_hash r) prior db
        | None \<Rightarrow>
          bind_result (current_target r e db) (\<lambda>c.
          let latest = latest_attestation (filter (\<lambda>a. av1_checkpoint a = tq_checkpoint r
                \<and> av1_kind a = KIND_COMPLETION) (rows_of (execution_key r) (tl_attestations db))) in
          bind_result (check_versions r e c) (\<lambda>_.
          if cp_state c \<noteq> CP_AWAITING_ADVISOR \<or> map_option av1_id latest \<noteq> Some (vq_attestation r)
             \<or> \<not> participates cat (tq_org r) (ev1_case e) (tq_actor r) ''advisor''
             \<or> verification_refused r then Inl NV025
          else bind_result (insert_verification r now db) (\<lambda>db1.
            bind_result (apply_verification r c now db1)
              (record_mutation (tq_org r) (timeline_key ''timeline_checkpoint_verify'' r)
                ''timeline_checkpoint_verified''
                (checkpoint_receipt r OP_VERIFY TIMELINE_CHECKPOINT_VERIFIED (vq_verification r)
                  (tq_checkpoint_version r + 1) now))))))))"

section \<open>Reassess\<close>

definition trigger_refused ::
  "reassess_request \<Rightarrow> timeline_checkpoint \<Rightarrow> date \<Rightarrow> timeline_db \<Rightarrow> bool" where
  "trigger_refused r c today db \<longleftrightarrow>
     (case eq_trigger r of
        BLOCKED_ATTESTATION \<Rightarrow>
          (let rows = filter (\<lambda>a. av1_checkpoint a = tq_checkpoint r)
                 (rows_of (execution_key r) (tl_attestations db)) in
           cp_state c \<noteq> CP_BLOCKED \<or> eq_reference r = None
           \<or> \<not> list_ex (\<lambda>a. Some (av1_id a) = eq_reference r \<and> av1_kind a = KIND_BLOCKED
                  \<and> Some (av1_id a) = map_option av1_id (latest_attestation rows)) rows)
      | DEADLINE_ELAPSED \<Rightarrow>
          eq_reference r \<noteq> None \<or> cp_state c = CP_VERIFIED \<or> date_ordinal today \<le> date_ordinal (cp_due c))"

definition insert_reassessment ::
  "reassess_request \<Rightarrow> timeline_execution_v1 \<Rightarrow> sha \<Rightarrow> date \<Rightarrow> timestamp \<Rightarrow> timeline_db
     \<Rightarrow> sql_error + timeline_db" where
  "insert_reassessment r e hash today now db =
     (if \<not> is_sha256 hash then Inl CHECK_VIOLATION
      else if list_ex (\<lambda>(k, s). fst k = tq_org r \<and> rv1_id s = eq_reassessment r) (tl_reassessments db)
           \<or> rows_of (execution_key r) (tl_reassessments db) \<noteq> [] then Inl UNIQUE_VIOLATION
      else Inr (db\<lparr>tl_reassessments := tl_reassessments db @ [(execution_key r,
             \<lparr>rv1_id = eq_reassessment r, rv1_execution = tq_execution r, rv1_checkpoint = tq_checkpoint r,
              rv1_advisor = tq_actor r, rv1_trigger = eq_trigger r, rv1_reference = eq_reference r,
              rv1_date = today, rv1_projection_sha256 = hash, rv1_case = ev1_case e,
              rv1_case_revision = ev1_case_revision e, rv1_decision = ev1_decision e,
              rv1_receipt = ev1_receipt e, rv1_plan = ev1_plan e, rv1_pred_execution = tq_execution r,
              rv1_pred_checkpoint = tq_checkpoint r, rv1_owner_role = ''advisor'',
              rv1_successor_status = ''pending_future_authorization'', rv1_created_at = now,
              rs_execution_version = tq_execution_version r, rs_checkpoint_version = tq_checkpoint_version r,
              rs_request_sha256 = tq_request_hash r\<rparr>)]\<rparr>))"

definition request_timeline_reassessment ::
  "timeline_catalog \<Rightarrow> session \<Rightarrow> reassess_request \<Rightarrow> date \<Rightarrow> timestamp \<Rightarrow> timeline_db
     \<Rightarrow> sql_error + timeline_db \<times> timeline_receipt_v1 option" where
  "request_timeline_reassessment cat ses r today now db =
     (if tq_role r \<noteq> ''advisor'' \<or> \<not> valid_command r then Inl NV006
      else bind_result (assert_m3b_context ses (tq_org r) (tq_actor r) (tq_role r)) (\<lambda>_.
      case map_of (tl_executions db) (execution_key r) of None \<Rightarrow> Inl NV003
      | Some e \<Rightarrow>
        (case map_of (tl_idempotency db) (timeline_key ''timeline_reassessment_request'' r) of
          Some prior \<Rightarrow> replay_receipt ''timeline_reassessment_requested'' (tq_org r) (tq_request_hash r) prior db
        | None \<Rightarrow>
          bind_result (current_target r e db) (\<lambda>c.
          bind_result (check_versions r e c) (\<lambda>_.
          if \<not> participates cat (tq_org r) (ev1_case e) (tq_actor r) ''advisor'' then Inl NV026
          else if trigger_refused r c today db then Inl NV026
          else bind_result (insert_reassessment r e
                 (trigger_sha256 cat (eq_trigger r) (eq_reference r) (tq_execution r) (tq_checkpoint r)
                    (cp_state c) (cp_due c) today) today now db) (\<lambda>db1.
            bind_result (update_timeline_execution (execution_key r)
                (\<lambda>e'. e'\<lparr>ev1_state := TE_REASSESSMENT_REQUIRED\<rparr>) now db1)
              (record_mutation (tq_org r) (timeline_key ''timeline_reassessment_request'' r)
                ''timeline_reassessment_requested''
                (checkpoint_receipt r OP_REASSESS TIMELINE_REASSESSMENT_REQUESTED (eq_reassessment r)
                  (tq_checkpoint_version r) now))))))))"

end
