(* ===== verification/Timeline_Read.thy ===== *)
theory Timeline_Read
  imports Timeline_Authority
begin

text \<open>
  The reading side of timeline executions: the SQL functions \<open>read_plan_execution_context\<close> and
  \<open>read_timeline_execution\<close>, what \<open>timeline_execution/postgres.py\<close> does with their results and
  errors, and the service of \<open>timeline_execution/application.py\<close> in front of it.
\<close>

section \<open>Contexts\<close>

record plan_execution_context =
  pc_case :: uuid
  pc_case_revision :: int
  pc_decision :: uuid
  pc_receipt :: uuid
  pc_plan :: uuid
  pc_execution :: "uuid option"
  pc_active_role :: string

definition execution_of_plan :: "row_key \<Rightarrow> timeline_db \<Rightarrow> uuid option" where
  "execution_of_plan k db =
     map_option (\<lambda>(k', e). snd k')
       (List.find (\<lambda>(k', e). fst k' = fst k \<and> ev1_plan e = snd k) (tl_executions db))"

definition read_plan_execution_context ::
  "timeline_catalog \<Rightarrow> session \<Rightarrow> uuid \<Rightarrow> uuid \<Rightarrow> string \<Rightarrow> string \<Rightarrow> timeline_db
     \<Rightarrow> sql_error + plan_execution_context" where
  "read_plan_execution_context cat ses org actor as_role scenario db =
     (if scenario \<noteq> ''governed-plan-execution-v1'' \<or> as_role \<notin> {''advisor'', ''student'', ''parent''}
      then Inl NV003
      else bind_result (assert_m3b_context ses org actor as_role) (\<lambda>_.
      case filter (\<lambda>(k, a). fst k = org \<and> participates cat org (pa_case a) actor as_role) (plan_rows cat) of
        [(k, a)] \<Rightarrow> Inr \<lparr>pc_case = pa_case a, pc_case_revision = pa_revision a, pc_decision = pa_decision a,
             pc_receipt = pa_receipt a, pc_plan = snd k, pc_execution = execution_of_plan k db,
             pc_active_role = as_role\<rparr>
      | _ \<Rightarrow> Inl NV003))"

text \<open>A row of the connected context query, with the columns of the left join.\<close>

record connected_row = plan_execution_context +
  cr_execution_case :: "uuid option"
  cr_execution_case_revision :: "int option"
  cr_execution_decision :: "uuid option"
  cr_execution_receipt :: "uuid option"
  cr_execution_plan :: "uuid option"

definition connected_context ::
  "uuid \<Rightarrow> string \<Rightarrow> connected_row list \<Rightarrow> timeline_error + plan_execution_context option" where
  "connected_context case_id as_role rows =
     (case rows of [] \<Rightarrow> Inr None
      | [row] \<Rightarrow>
          if pc_case row \<noteq> case_id \<or> pc_active_role row \<noteq> as_role then
            Inl (ProjectionError ''connected plan execution projection is contradictory'')
          else if (case pc_execution row of
              None \<Rightarrow> cr_execution_case row \<noteq> None \<or> cr_execution_case_revision row \<noteq> None
                \<or> cr_execution_decision row \<noteq> None \<or> cr_execution_receipt row \<noteq> None
                \<or> cr_execution_plan row \<noteq> None
            | Some _ \<Rightarrow> cr_execution_case row \<noteq> Some (pc_case row)
                \<or> cr_execution_case_revision row \<noteq> Some (pc_case_revision row)
                \<or> cr_execution_decision row \<noteq> Some (pc_decision row)
                \<or> cr_execution_receipt row \<noteq> Some (pc_receipt row)
                \<or> cr_execution_plan row \<noteq> Some (pc_plan row)) then
            Inl (ProjectionError ''connected plan execution projection is contradictory'')
          else if pc_case_revision row \<le> 0 \<or> as_role \<notin> {''advisor'', ''student'', ''parent''} then
            Inl (ProjectionError ''connected plan execution projection is malformed'')
          else Inr (Some (plan_execution_context.truncate row))
      | _ \<Rightarrow> Inl (ProjectionError ''connected plan execution projection is contradictory''))"

section \<open>The projection of an execution\<close>

definition risk_case :: "timeline_checkpoint_state \<Rightarrow> date \<Rightarrow> date \<Rightarrow> timeline_risk_state" where
  "risk_case st due observed =
     (if st = CP_VERIFIED then ON_TRACK
      else if date_ordinal observed > date_ordinal due then OVERDUE
      else if 0 \<le> date_ordinal due - date_ordinal observed \<and> date_ordinal due - date_ordinal observed \<le> 14
        then DUE_SOON
      else ON_TRACK)"

definition checkpoint_json :: "uuid \<Rightarrow> date \<Rightarrow> timeline_checkpoint \<Rightarrow> timeline_checkpoint_v1" where
  "checkpoint_json execution today c =
     \<lparr>cv1_id = cp_id c, cv1_execution = execution, cv1_ordinal = cp_ordinal c, cv1_milestone = cp_milestone c,
      cv1_due = cp_due c, cv1_role = cp_role c, cv1_state = cp_state c,
      cv1_risk = risk_case (cp_state c) (cp_due c) today, cv1_row_version = cp_row_version c,
      cv1_created_at = cp_created_at c, cv1_updated_at = cp_updated_at c\<rparr>"

definition current_action_json ::
  "timeline_execution_v1 \<Rightarrow> timeline_checkpoint_v1 option \<Rightarrow> timeline_current_action" where
  "current_action_json e current =
     (let action = (\<lambda>code owner. \<lparr>ca_code = code, ca_owner_role = owner,
            ca_checkpoint = map_option cv1_id current, ca_execution_version = ev1_row_version e,
            ca_checkpoint_version = map_option cv1_row_version current\<rparr>) in
      if ev1_state e = TE_COMPLETED then
        \<lparr>ca_code = EXECUTION_COMPLETED, ca_owner_role = ''none'', ca_checkpoint = None,
         ca_execution_version = ev1_row_version e, ca_checkpoint_version = None\<rparr>
      else if ev1_state e = TE_REASSESSMENT_REQUIRED then action REASSESSMENT_HANDOFF_REQUIRED ''advisor''
      else if map_option cv1_state current = Some CP_AWAITING_ADVISOR then
        action ADVISOR_VERIFICATION_REQUIRED ''advisor''
      else if map_option cv1_state current = Some CP_BLOCKED then
        action REASSESSMENT_HANDOFF_REQUIRED ''advisor''
      else action CHECKPOINT_ATTESTATION_REQUIRED (case current of None \<Rightarrow> '''' | Some c \<Rightarrow> cv1_role c))"

text \<open>\<open>ORDER BY created_at DESC, durable_id DESC LIMIT 64\<close>.\<close>

definition newest_first :: "timeline_activity_item list \<Rightarrow> timeline_activity_item list" where
  "newest_first items = rev (sort_key (\<lambda>i. (ai_created_at i, ai_durable_id i)) items)"

definition attestation_item :: "timeline_attestation \<Rightarrow> timeline_activity_item" where
  "attestation_item a = \<lparr>ai_kind = ATTESTATION_RECORDED, ai_durable_id = av1_id a,
     ai_execution = av1_execution a, ai_checkpoint = Some (av1_checkpoint a), ai_created_at = av1_created_at a\<rparr>"

definition verification_item :: "timeline_verification \<Rightarrow> timeline_activity_item" where
  "verification_item v = \<lparr>ai_kind = VERIFICATION_RECORDED, ai_durable_id = vv1_id v,
     ai_execution = vv1_execution v, ai_checkpoint = Some (vv1_checkpoint v), ai_created_at = vv1_created_at v\<rparr>"

definition reassessment_item :: "timeline_reassessment \<Rightarrow> timeline_activity_item" where
  "reassessment_item r = \<lparr>ai_kind = REASSESSMENT_RECORDED, ai_durable_id = rv1_id r,
     ai_execution = rv1_execution r, ai_checkpoint = Some (rv1_checkpoint r), ai_created_at = rv1_created_at r\<rparr>"

definition receipt_item :: "timeline_receipt \<Rightarrow> timeline_activity_item" where
  "receipt_item r = \<lparr>ai_kind = MUTATION_RECEIPT_RECORDED, ai_durable_id = rc1_id r,
     ai_execution = rc1_execution r, ai_checkpoint = rc1_checkpoint r, ai_created_at = rc1_created_at r\<rparr>"

definition receipts_of :: "row_key \<Rightarrow> timeline_db \<Rightarrow> timeline_receipt list" where
  "receipts_of k db =
     map snd (filter (\<lambda>(k', r). fst k' = fst k \<and> rc1_execution r = snd k) (tl_receipts db))"

definition activity_rows :: "row_key \<Rightarrow> timeline_db \<Rightarrow> timeline_activity_item list list" where
  "activity_rows k db =
     [map attestation_item (rows_of k (tl_attestations db)),
      map verification_item (rows_of k (tl_verifications db)),
      map reassessment_item (rows_of k (tl_reassessments db)),
      map receipt_item (receipts_of k db)]"

definition read_view :: "row_key \<Rightarrow> timeline_execution_v1 \<Rightarrow> date \<Rightarrow> timeline_db \<Rightarrow> timeline_execution_view" where
  "read_view k e today db =
     (let attestations = rows_of k (tl_attestations db);
          verifications = rows_of k (tl_verifications db);
          current = (case current_checkpoints k db of [] \<Rightarrow> None
                     | c # _ \<Rightarrow> Some (checkpoint_json (snd k) today c));
          activity = take 64 (newest_first (concat (map (take 64 \<circ> newest_first) (activity_rows k db))));
          total = length (concat (activity_rows k db)) in
      \<lparr>tv_execution = e,
       tv_checkpoints = map (checkpoint_json (snd k) today) (sort_key cp_ordinal (rows_of k (tl_checkpoints db))),
       tv_current_checkpoint = current,
       tv_latest_attestation = map_option timeline_attestation_v1.truncate (latest_attestation attestations),
       tv_latest_verification = (if verifications = [] then None
          else Some (timeline_verification_v1.truncate
                 (last (sort_key (\<lambda>v. (vv1_created_at v, vv1_id v)) verifications)))),
       tv_reassessment = (case rows_of k (tl_reassessments db) of [] \<Rightarrow> None
          | r # _ \<Rightarrow> Some (timeline_reassessment_v1.truncate r)),
       tv_current_action = current_action_json e current,
       tv_observed_date = today, tv_activity = activity, tv_activity_total = int total,
       tv_activity_truncated = (total > length activity)\<rparr>)"

definition read_timeline_execution ::
  "timeline_catalog \<Rightarrow> session \<Rightarrow> uuid \<Rightarrow> uuid \<Rightarrow> string \<Rightarrow> uuid \<Rightarrow> date \<Rightarrow> timeline_db
     \<Rightarrow> sql_error + timeline_execution_view option" where
  "read_timeline_execution cat ses org actor as_role case_id today db =
     (if as_role \<notin> {''advisor'', ''student'', ''parent''} then Inl NV003
      else bind_result (assert_m3b_context ses org actor as_role) (\<lambda>_.
      case filter (\<lambda>(k, e). fst k = org \<and> ev1_case e = case_id
               \<and> participates cat org (ev1_case e) actor as_role) (tl_executions db) of
        [] \<Rightarrow> Inr None
      | [(k, e)] \<Rightarrow>
          (let current_count = length (current_checkpoints k db) in
           if ev1_state e = TE_ACTIVE \<and> current_count \<noteq> 1
              \<or> ev1_state e = TE_COMPLETED \<and> current_count \<noteq> 0
              \<or> ev1_state e = TE_REASSESSMENT_REQUIRED \<and> current_count > 1 then Inl NV006
           else Inr (Some (read_view k e today db)))
      | _ \<Rightarrow> Inl NV006))"

section \<open>The repository and the service\<close>

definition map_sql_error :: "sql_error \<Rightarrow> timeline_error" where
  "map_sql_error err =
     (if err \<in> {NV003, NV007} then UnavailableError ''execution authority unavailable''
      else if err = NV006 then ConflictError ''checkpoint_not_current''
      else if err = NV008 then ConflictError ''idempotency_conflict''
      else if err = NV020 then ConflictError ''stale_execution_version''
      else if err = NV021 then ConflictError ''stale_checkpoint_version''
      else if err = NV022 then ConflictError ''execution_completed''
      else if err = NV023 then ConflictError ''checkpoint_not_current''
      else if err = NV024 then ConflictError ''checkpoint_attestation_conflict''
      else if err = NV025 then ConflictError ''advisor_verification_required''
      else if err = NV026 then ConflictError ''reassessment_required''
      else if err = UNIQUE_VIOLATION then ConflictError ''checkpoint_not_current''
      else if err = SERIALIZATION_FAILURE then ConflictError ''stale_execution_version''
      else DatabaseError err)"

definition call_sql :: "sql_error + 'a \<Rightarrow> timeline_error + 'a" where
  "call_sql r = (case r of Inl err \<Rightarrow> Inl (map_sql_error err) | Inr x \<Rightarrow> Inr x)"

definition decode_view :: "timeline_execution_view \<Rightarrow> timeline_error + timeline_execution_view" where
  "decode_view v =
     (if \<not> valid_view_fields v then Inl (ProjectionError ''timeline execution projection is malformed'')
      else case bounded_activity v of
        Inl _ \<Rightarrow> Inl (ProjectionError ''timeline execution projection is malformed'')
      | Inr v' \<Rightarrow> Inr v')"

definition repository_read ::
  "sql_error + timeline_execution_view option \<Rightarrow> timeline_error + timeline_execution_view option" where
  "repository_read raw =
     bind_result (call_sql raw) (\<lambda>json.
     case json of None \<Rightarrow> Inr None
     | Some v \<Rightarrow>
         bind_result (decode_view v) (\<lambda>view.
         bind_result (derive_current_action view) (\<lambda>act.
         if act \<noteq> tv_current_action view then
           Inl (ProjectionError ''timeline execution current action is contradictory'')
         else Inr (Some view))))"

definition decode_receipt :: "timeline_receipt_v1 option \<Rightarrow> timeline_error + timeline_receipt_v1" where
  "decode_receipt json =
     (case json of None \<Rightarrow> Inl (ProjectionError ''timeline execution projection is malformed'')
      | Some r \<Rightarrow> if valid_receipt_v1 r then Inr r
                  else Inl (ProjectionError ''timeline execution projection is malformed''))"

definition require_family :: "string \<Rightarrow> timeline_error + unit" where
  "require_family as_role =
     ensure (as_role \<in> {''student'', ''parent''}) (UnavailableError ''execution authority unavailable'')"

definition require_advisor :: "string \<Rightarrow> timeline_error + unit" where
  "require_advisor as_role = ensure (as_role = ''advisor'') (UnavailableError ''execution authority unavailable'')"

text \<open>A mutation of the service: its guard, the repository call and the decoded receipt; the state is
  kept only when the transaction commits, so not when decoding raises.\<close>

definition service_mutation ::
  "timeline_error + unit \<Rightarrow> sql_error + timeline_db \<times> timeline_receipt_v1 option
     \<Rightarrow> timeline_error + timeline_db \<times> timeline_receipt_v1" where
  "service_mutation guarded raw =
     bind_result guarded (\<lambda>_. bind_result (call_sql raw) (\<lambda>(db', json).
       bind_result (decode_receipt json) (\<lambda>r. Inr (db', r))))"

definition service_start where
  "service_start cat ses r fresh now db =
     service_mutation (require_family (sq_role r)) (start_timeline_execution cat ses r fresh now db)"

definition service_attest where
  "service_attest cat ses a now db =
     service_mutation (require_family (tq_role a)) (attest_timeline_checkpoint cat ses a now db)"

definition service_verify where
  "service_verify cat ses r now db =
     service_mutation (bind_result (require_advisor (tq_role r))
         (\<lambda>_. validate_verification_codes (vq_action r) (vq_reason r)))
       (verify_timeline_checkpoint cat ses r now db)"

definition service_reassess where
  "service_reassess cat ses r today now db =
     service_mutation (require_advisor (tq_role r)) (request_timeline_reassessment cat ses r today now db)"

definition service_context ::
  "string \<Rightarrow> sql_error + plan_execution_context \<Rightarrow> timeline_error + plan_execution_context" where
  "service_context scenario raw =
     (if scenario \<noteq> ''governed-plan-execution-v1'' then
        Inl (UnavailableError ''execution context unavailable'')
      else bind_result (call_sql raw) (\<lambda>c.
        if pc_case_revision c \<le> 0 then Inl (ProjectionError ''timeline execution projection is malformed'')
        else Inr c))"

end
