(* ===== verification/Timeline_Invariant.thy ===== *)
theory Timeline_Invariant
  imports Timeline_Read
begin

text \<open>
  The invariant of the timeline authority.  \<open>timeline_ok\<close> says what holds of one execution and
  its rows: four checkpoints in the order of the plan, verified up to the current one, with
  the attestations and verifications that brought them there, and as many receipts as
  versions.  The statements of the commands are described as changes of those rows.
\<close>

section \<open>Updates of filtered rows\<close>

lemma update_where_map:
  assumes "update_where P f rows = Inr rows'"
    and "\<And>k r r'. P k r \<Longrightarrow> f r = Inr r' \<Longrightarrow> g k r' = g k r"
  shows "map (\<lambda>(k, r). g k r) rows' = map (\<lambda>(k, r). g k r) rows"
  using assms by (induction rows arbitrary: rows') (auto simp: update_where_def split: if_splits)

lemma update_where_keys: "update_where P f rows = Inr rows' \<Longrightarrow> map fst rows' = map fst rows"
  using update_where_map [of P f rows rows' "\<lambda>k r. k"] by (simp add: case_prod_unfold)

lemma update_where_map_of:
  assumes "update_where (\<lambda>k' r. k' = k) f rows = Inr rows'"
  shows "map_of rows' k' = (if k' = k then (case map_of rows k of None \<Rightarrow> None
       | Some r \<Rightarrow> Some (projr (f r))) else map_of rows k')"
    and "map_of rows k = Some r \<Longrightarrow> is_ok (f r)"
  using assms by (induction rows arbitrary: rows') (auto simp: update_where_def split: if_splits)

lemma traverse_map:
  "traverse f xs = Inr ys \<longleftrightarrow> list_all (\<lambda>x. is_ok (f x)) xs \<and> ys = map (projr \<circ> f) xs"
  by (induction xs arbitrary: ys) (auto simp: is_ok_iff)

section \<open>Statements as changes of rows\<close>

lemma update_timeline_execution_rows:
  assumes "update_timeline_execution k f now db = Inr db'"
  shows "db' = db\<lparr>tl_executions := tl_executions db'\<rparr>"
    and "map fst (tl_executions db') = map fst (tl_executions db)"
    and "map_of (tl_executions db) k = Some e \<Longrightarrow> map_of (tl_executions db') k
           = Some ((f e)\<lparr>ev1_row_version := ev1_row_version e + 1, ev1_updated_at := now\<rparr>)
         \<and> ev1_row_version e < 2147483647"
    and "k' \<noteq> k \<Longrightarrow> map_of (tl_executions db') k' = map_of (tl_executions db) k'"
    and "(\<And>e. ev1_plan (f e) = ev1_plan e) \<Longrightarrow>
           map (\<lambda>(k, e). (fst k, ev1_plan e)) (tl_executions db') = map (\<lambda>(k, e). (fst k, ev1_plan e)) (tl_executions db)"
proof -
  let ?g = "\<lambda>e. bind_result (bump (ev1_row_version e))
      (\<lambda>v. Inr ((f e)\<lparr>ev1_row_version := v, ev1_updated_at := now\<rparr>))"
  obtain rows where rows: "update_where (\<lambda>k' e. k' = k) ?g (tl_executions db) = Inr rows"
    and db': "db' = db\<lparr>tl_executions := rows\<rparr>"
    using assms by (auto simp: update_timeline_execution_def)
  show "db' = db\<lparr>tl_executions := tl_executions db'\<rparr>" by (simp add: db')
  show "map fst (tl_executions db') = map fst (tl_executions db)"
    using update_where_keys [OF rows] by (simp add: db')
  show "map_of (tl_executions db) k = Some e \<Longrightarrow> map_of (tl_executions db') k
           = Some ((f e)\<lparr>ev1_row_version := ev1_row_version e + 1, ev1_updated_at := now\<rparr>)
         \<and> ev1_row_version e < 2147483647"
    using update_where_map_of [OF rows] by (auto simp: db' bump_def split: if_splits)
  show "k' \<noteq> k \<Longrightarrow> map_of (tl_executions db') k' = map_of (tl_executions db) k'"
    using update_where_map_of(1) [OF rows] by (simp add: db')
  assume plan: "\<And>e. ev1_plan (f e) = ev1_plan e"
  show "map (\<lambda>(k, e). (fst k, ev1_plan e)) (tl_executions db') = map (\<lambda>(k, e). (fst k, ev1_plan e)) (tl_executions db)"
    unfolding db' using plan
    by (auto intro!: update_where_map [OF rows, where g = "\<lambda>k e. (fst k, ev1_plan e)", simplified])
qed

text \<open>The changed row of a checkpoint.\<close>

definition bumped :: "(timeline_checkpoint \<Rightarrow> timeline_checkpoint) \<Rightarrow> timeline_checkpoint \<Rightarrow> timeline_checkpoint" where
  "bumped f c = (f c)\<lparr>cp_row_version := cp_row_version c + 1\<rparr>"

lemma bump_checkpoint_Inr: "bump_checkpoint f c = Inr c' \<longleftrightarrow> c' = bumped f c \<and> cp_row_version c < 2147483647"
  by (auto simp: bump_checkpoint_def bump_def bumped_def)

lemma bump_checkpoint_ok: "cp_row_version c < 2147483647 \<Longrightarrow> bump_checkpoint f c = Inr (bumped f c)"
  by (simp add: bump_checkpoint_Inr)

definition ids_of :: "timeline_db \<Rightarrow> (uuid \<times> uuid) list" where
  "ids_of db = map (\<lambda>(k, c). (fst k, cp_id c)) (tl_checkpoints db)"

lemma update_checkpoints_rows:
  assumes "update_checkpoints (\<lambda>k' c. k' = k \<and> Q c) f db = Inr db'" and "\<And>c. cp_id (f c) = cp_id c"
  shows "db' = db\<lparr>tl_checkpoints := tl_checkpoints db'\<rparr>"
    and "rows_of k (tl_checkpoints db') = map (\<lambda>c. if Q c then bumped f c else c) (rows_of k (tl_checkpoints db))"
    and "k' \<noteq> k \<Longrightarrow> rows_of k' (tl_checkpoints db') = rows_of k' (tl_checkpoints db)"
    and "ids_of db' = ids_of db"
proof -
  obtain rows where rows: "update_where (\<lambda>k' c. k' = k \<and> Q c) (bump_checkpoint f) (tl_checkpoints db) = Inr rows"
    and db': "db' = db\<lparr>tl_checkpoints := rows\<rparr>"
    using assms(1) by (auto simp: update_checkpoints_def)
  show "db' = db\<lparr>tl_checkpoints := tl_checkpoints db'\<rparr>" by (simp add: db')
  show "k' \<noteq> k \<Longrightarrow> rows_of k' (tl_checkpoints db') = rows_of k' (tl_checkpoints db)"
    using update_where_other [OF rows] by (simp add: db')
  show "ids_of db' = ids_of db" unfolding ids_of_def db'
    using update_where_map [OF rows, of "\<lambda>k c. (fst k, cp_id c)"] assms(2)
    by (auto simp: bump_checkpoint_Inr bumped_def)
  have ok: "list_all (\<lambda>x. is_ok (if Q x then bump_checkpoint f x else Inr x)) (rows_of k (tl_checkpoints db))"
    and eq: "rows_of k rows
      = map (projr \<circ> (\<lambda>x. if Q x then bump_checkpoint f x else Inr x)) (rows_of k (tl_checkpoints db))"
    using update_where_same [OF rows] by (simp_all add: traverse_map)
  have "projr (if Q x then bump_checkpoint f x else Inr x) = (if Q x then bumped f x else x)"
    if "x \<in> set (rows_of k (tl_checkpoints db))" for x
    using bspec [OF ok [unfolded list_all_iff] that] by (auto simp: is_ok_iff bump_checkpoint_Inr bump_checkpoint_ok)
  then show "rows_of k (tl_checkpoints db') = map (\<lambda>c. if Q c then bumped f c else c) (rows_of k (tl_checkpoints db))"
    by (simp add: db' eq)
qed

text \<open>An update by primary key touches the rows of one execution.\<close>

lemma update_where_cong:
  "(\<And>k r. (k, r) \<in> set rows \<Longrightarrow> P k r \<longleftrightarrow> P' k r) \<Longrightarrow> update_where P f rows = update_where P' f rows"
  by (induction rows) (auto simp: update_where_def)

lemma update_by_id:
  assumes "distinct (ids_of db)" and "c \<in> set (rows_of k (tl_checkpoints db))" and "fst k = org" and "cp_id c = i"
  shows "update_checkpoints (\<lambda>k' c. fst k' = org \<and> cp_id c = i) f db
    = update_checkpoints (\<lambda>k' c. k' = k \<and> cp_id c = i) f db"
proof -
  have c: "(k, c) \<in> set (tl_checkpoints db)" using assms(2) by (simp add: rows_of_set)
  have "k' = k" if "(k', c') \<in> set (tl_checkpoints db)" "fst k' = org" "cp_id c' = i" for k' c'
    using assms(1,3,4) c that by (auto simp: ids_of_def distinct_map inj_on_def)
  with assms(3) have "update_where (\<lambda>k' c. fst k' = org \<and> cp_id c = i) (bump_checkpoint f) (tl_checkpoints db)
      = update_where (\<lambda>k' c. k' = k \<and> cp_id c = i) (bump_checkpoint f) (tl_checkpoints db)"
    by (intro update_where_cong) blast
  then show ?thesis by (simp add: update_checkpoints_def)
qed

section \<open>The invariant\<close>

text \<open>The states of the four checkpoints when \<open>i\<close> of them are verified and the next one is in state \<open>cur\<close>.\<close>

definition OPEN_CHECKPOINTS :: "timeline_checkpoint_state set" where
  "OPEN_CHECKPOINTS = {CP_IN_PROGRESS, CP_AWAITING_ADVISOR, CP_BLOCKED}"

definition plan_states :: "nat \<Rightarrow> timeline_checkpoint_state \<Rightarrow> timeline_checkpoint_state list" where
  "plan_states i cur =
     replicate i CP_VERIFIED @ (if i < 4 then cur # replicate (3 - i) CP_PENDING else [])"

definition checkpoints_ok :: "timeline_execution_v1 \<Rightarrow> timeline_checkpoint list \<Rightarrow> bool" where
  "checkpoints_ok e cs \<longleftrightarrow>
     map cp_ordinal cs = [1, 2, 3, 4] \<and> map cp_milestone cs = MILESTONES \<and> map cp_role cs = ACCOUNTABLE_ROLES
     \<and> distinct (map cp_id cs) \<and> list_all (\<lambda>c. cp_row_version c \<ge> 1) cs
     \<and> (\<exists>i\<le>4. \<exists>cur\<in>OPEN_CHECKPOINTS. map cp_state cs = plan_states i cur
          \<and> (ev1_state e = TE_COMPLETED \<longleftrightarrow> i = 4))"

definition attested_completion :: "timeline_checkpoint \<Rightarrow> timeline_attestation \<Rightarrow> bool" where
  "attested_completion c a \<longleftrightarrow> av1_checkpoint a = cp_id c \<and> av1_kind a = KIND_COMPLETION
     \<and> av1_status a = READY_FOR_ADVISOR \<and> av1_role a = cp_role c
     \<and> attestation_code_value (av1_code a) = cp_milestone c @ ''_status_confirmed''"

definition verified_by ::
  "timeline_attestation list \<Rightarrow> timeline_verification list \<Rightarrow> timeline_checkpoint \<Rightarrow> bool" where
  "verified_by ats vfs c \<longleftrightarrow>
     (\<exists>v\<in>set vfs. vv1_checkpoint v = cp_id c \<and> vv1_action v = VERIFY \<and> vv1_reason v = ATTESTATION_VERIFIED
        \<and> (\<exists>a\<in>set ats. av1_id a = vv1_attestation v \<and> attested_completion c a))"

definition evidence_ok ::
  "timeline_checkpoint list \<Rightarrow> timeline_attestation list \<Rightarrow> timeline_verification list \<Rightarrow> bool" where
  "evidence_ok cs ats vfs \<longleftrightarrow>
     (\<forall>c\<in>set cs. cp_state c = CP_VERIFIED \<longrightarrow> verified_by ats vfs c)
     \<and> (\<forall>a\<in>set ats. valid_attestation_v1 (timeline_attestation_v1.truncate a)
          \<and> (av1_kind a = KIND_COMPLETION \<longrightarrow> (\<forall>c\<in>set cs. cp_id c = av1_checkpoint a \<longrightarrow> attested_completion c a)))
     \<and> (\<forall>v\<in>set vfs. valid_verification_v1 (timeline_verification_v1.truncate v))"

definition lineage_ok :: "row_key \<Rightarrow> timeline_execution_v1 \<Rightarrow> timeline_reassessment \<Rightarrow> bool" where
  "lineage_ok k e r \<longleftrightarrow>
     rv1_execution r = snd k \<and> rv1_pred_execution r = snd k \<and> rv1_pred_checkpoint r = rv1_checkpoint r
     \<and> rv1_case r = ev1_case e \<and> rv1_case_revision r = ev1_case_revision e \<and> rv1_decision r = ev1_decision e
     \<and> rv1_receipt r = ev1_receipt e \<and> rv1_plan r = ev1_plan e
     \<and> valid_reassessment_v1 (timeline_reassessment_v1.truncate r)"

definition timeline_ok ::
  "row_key \<Rightarrow> timeline_execution_v1 \<Rightarrow> timeline_checkpoint list \<Rightarrow> timeline_attestation list
     \<Rightarrow> timeline_verification list \<Rightarrow> timeline_reassessment list \<Rightarrow> timeline_receipt list \<Rightarrow> bool" where
  "timeline_ok k e cs ats vfs res rcs \<longleftrightarrow>
     ev1_id e = snd k \<and> ev1_case_revision e \<ge> 1 \<and> ev1_row_version e = int (length rcs) \<and> rcs \<noteq> []
     \<and> checkpoints_ok e cs \<and> evidence_ok cs ats vfs
     \<and> (if ev1_state e = TE_REASSESSMENT_REQUIRED then \<exists>r. res = [r] \<and> lineage_ok k e r else res = [])
     \<and> list_all (\<lambda>r. valid_receipt_v1 (timeline_receipt_v1.truncate r)) rcs"

definition view_of :: "row_key \<Rightarrow> timeline_db \<Rightarrow> bool" where
  "view_of k db \<longleftrightarrow>
     (case map_of (tl_executions db) k of
        None \<Rightarrow> rows_of k (tl_checkpoints db) = [] \<and> rows_of k (tl_attestations db) = []
          \<and> rows_of k (tl_verifications db) = [] \<and> rows_of k (tl_reassessments db) = [] \<and> receipts_of k db = []
      | Some e \<Rightarrow> timeline_ok k e (rows_of k (tl_checkpoints db)) (rows_of k (tl_attestations db))
          (rows_of k (tl_verifications db)) (rows_of k (tl_reassessments db)) (receipts_of k db))"

text \<open>A record points to the receipt of its command.\<close>

definition TIMELINE_OPERATIONS :: "string set" where
  "TIMELINE_OPERATIONS = {''timeline_execution_start'', ''timeline_checkpoint_attest'',
     ''timeline_checkpoint_verify'', ''timeline_reassessment_request''}"

definition records_ok :: "timeline_db \<Rightarrow> bool" where
  "records_ok db \<longleftrightarrow>
     (\<forall>ik rec. map_of (tl_idempotency db) ik = Some rec \<longrightarrow> ik_operation ik \<in> TIMELINE_OPERATIONS \<longrightarrow>
        (\<exists>rc. map_of (tl_receipts db) (ik_organization ik, ir_response_id rec) = Some rc
           \<and> rc_request_sha256 rc = ir_request_sha256 rec))"

definition timeline_invariant :: "timeline_db \<Rightarrow> bool" where
  "timeline_invariant db \<longleftrightarrow>
     distinct (map (\<lambda>(k, e). (fst k, ev1_plan e)) (tl_executions db)) \<and> distinct (map fst (tl_executions db))
     \<and> distinct (ids_of db) \<and> records_ok db \<and> (\<forall>k. view_of k db)"

lemma timeline_invariant_empty: "timeline_invariant empty_timeline_db"
  by (simp add: timeline_invariant_def empty_timeline_db_def ids_of_def records_ok_def view_of_def receipts_of_def)

lemma timeline_invariantD:
  assumes "timeline_invariant db" and "map_of (tl_executions db) k = Some e"
  shows "timeline_ok k e (rows_of k (tl_checkpoints db)) (rows_of k (tl_attestations db))
          (rows_of k (tl_verifications db)) (rows_of k (tl_reassessments db)) (receipts_of k db)"
proof -
  have "view_of k db" using assms(1) unfolding timeline_invariant_def by blast
  with assms(2) show ?thesis by (simp add: view_of_def)
qed

text \<open>Four checkpoints, so four positions of the current one.\<close>

lemma plan_states_simps [simp]:
  "plan_states 0 cur = [cur, CP_PENDING, CP_PENDING, CP_PENDING]"
  "plan_states (Suc 0) cur = [CP_VERIFIED, cur, CP_PENDING, CP_PENDING]"
  "plan_states 2 cur = [CP_VERIFIED, CP_VERIFIED, cur, CP_PENDING]"
  "plan_states 3 cur = [CP_VERIFIED, CP_VERIFIED, CP_VERIFIED, cur]"
  "plan_states 4 cur = [CP_VERIFIED, CP_VERIFIED, CP_VERIFIED, CP_VERIFIED]"
  by (simp_all add: plan_states_def eval_nat_numeral)

lemma nat_le_4: "(i::nat) \<le> 4 \<longleftrightarrow> i = 0 \<or> i = 1 \<or> i = 2 \<or> i = 3 \<or> i = 4"
  by auto

lemma current_of_states:
  assumes "checkpoints_ok e cs" and "filter (\<lambda>c. cp_state c \<notin> {CP_PENDING, CP_VERIFIED}) cs = [c]"
  obtains i where "i < 4" "cs ! i = c" "map cp_state cs = plan_states i (cp_state c)" "length cs = 4"
    "cp_state c \<in> OPEN_CHECKPOINTS" "ev1_state e \<noteq> TE_COMPLETED"
proof -
  obtain i cur where i: "i \<le> 4" "cur \<in> OPEN_CHECKPOINTS" "map cp_state cs = plan_states i cur"
    "ev1_state e = TE_COMPLETED \<longleftrightarrow> i = 4" and len: "length cs = 4"
    using assms(1) by (auto simp: checkpoints_ok_def dest: arg_cong [of _ _ length])
  obtain c1 c2 c3 c4 where cs: "cs = [c1, c2, c3, c4]"
    using len by (auto simp: length_Suc_conv eval_nat_numeral)
  have "i < 4 \<and> cs ! i = c \<and> cur = cp_state c"
    using i(1) i(2,3) assms(2) unfolding nat_le_4
    by (elim disjE) (auto simp: cs OPEN_CHECKPOINTS_def split: if_splits)
  with i len that show ?thesis by blast
qed

end
