(* ===== verification/Timeline_Safety.thy ===== *)
theory Timeline_Safety
  imports Timeline_Invariant
begin

text \<open>
  Every command of the timeline authority keeps the invariant: the cases of each command, what
  its statements do to the rows of one execution, and the preservation lemmas.
\<close>

section \<open>Receipts and records\<close>

lemma record_mutation_Inr:
  "record_mutation org ik response rc db = Inr (db', out) \<longleftrightarrow>
     map_of (tl_receipts db) (org, rc1_id rc) = None
     \<and> \<not> list_ex (\<lambda>(k, r). fst k = org \<and> rc_actor r = rc_actor rc \<and> rc1_operation r = rc1_operation rc
                \<and> rc_key_sha256 r = rc_key_sha256 rc) (tl_receipts db)
     \<and> db' = db\<lparr>tl_receipts := tl_receipts db @ [((org, rc1_id rc), rc)],
               tl_idempotency := AList.update ik
                 \<lparr>ir_request_sha256 = rc_request_sha256 rc, ir_response_id = rc1_id rc,
                  ir_response_kind = response\<rparr> (tl_idempotency db)\<rparr>
     \<and> out = Some (timeline_receipt_v1.truncate rc)"
  by (auto simp: record_mutation_def Let_def receipt_json_def map_add_def)

lemma replay_receipt_Inr:
  "replay_receipt response org h prior db = Inr (db', out) \<longleftrightarrow>
     ir_request_sha256 prior = h \<and> ir_response_kind prior = response \<and> db' = db
     \<and> out = receipt_json (org, ir_response_id prior) db"
  by (auto simp: replay_receipt_def)

text \<open>What a successful command does beside the rows of its execution.\<close>

definition records_mutation :: "row_key \<Rightarrow> idem_key \<Rightarrow> timeline_receipt \<Rightarrow> timeline_db \<Rightarrow> timeline_db \<Rightarrow> bool" where
  "records_mutation k ik rc db db' \<longleftrightarrow>
     map_of (tl_receipts db) (fst k, rc1_id rc) = None \<and> rc1_execution rc = snd k \<and> ik_organization ik = fst k
     \<and> tl_receipts db' = tl_receipts db @ [((fst k, rc1_id rc), rc)]
     \<and> (\<exists>response. tl_idempotency db' = AList.update ik
           \<lparr>ir_request_sha256 = rc_request_sha256 rc, ir_response_id = rc1_id rc,
            ir_response_kind = response\<rparr> (tl_idempotency db))"

definition other_rows_same :: "row_key \<Rightarrow> timeline_db \<Rightarrow> timeline_db \<Rightarrow> bool" where
  "other_rows_same k db db' \<longleftrightarrow>
     (\<forall>k'. k' \<noteq> k \<longrightarrow> map_of (tl_executions db') k' = map_of (tl_executions db) k'
        \<and> rows_of k' (tl_checkpoints db') = rows_of k' (tl_checkpoints db)
        \<and> rows_of k' (tl_attestations db') = rows_of k' (tl_attestations db)
        \<and> rows_of k' (tl_verifications db') = rows_of k' (tl_verifications db)
        \<and> rows_of k' (tl_reassessments db') = rows_of k' (tl_reassessments db))"

definition keys_same :: "timeline_db \<Rightarrow> timeline_db \<Rightarrow> bool" where
  "keys_same db db' \<longleftrightarrow>
     map fst (tl_executions db') = map fst (tl_executions db)
     \<and> map (\<lambda>(k, e). (fst k, ev1_plan e)) (tl_executions db') = map (\<lambda>(k, e). (fst k, ev1_plan e)) (tl_executions db)
     \<and> ids_of db' = ids_of db"

lemma receipts_of_append:
  "tl_receipts db' = tl_receipts db @ [((fst k, i), rc)] \<Longrightarrow> rc1_execution rc = snd k \<Longrightarrow>
     receipts_of k' db' = receipts_of k' db @ (if k' = k then [rc] else [])"
  by (auto simp: receipts_of_def prod_eq_iff)

lemma records_ok_mutation:
  assumes "records_mutation k ik rc db db'" and "records_ok db"
  shows "records_ok db'"
  unfolding records_ok_def
proof (intro allI impI)
  fix ik' rec assume rec: "map_of (tl_idempotency db') ik' = Some rec" "ik_operation ik' \<in> TIMELINE_OPERATIONS"
  have new: "map_of (tl_receipts db') (fst k, rc1_id rc) = Some rc"
    using assms(1) by (auto simp: records_mutation_def map_add_def)
  have old: "map_of (tl_receipts db) q = Some rc' \<Longrightarrow> map_of (tl_receipts db') q = Some rc'" for q rc'
    using assms(1) by (auto simp: records_mutation_def map_add_def)
  show "\<exists>rc. map_of (tl_receipts db') (ik_organization ik', ir_response_id rec) = Some rc
      \<and> rc_request_sha256 rc = ir_request_sha256 rec"
  proof (cases "ik' = ik")
    case True
    with rec(1) assms(1) have "ir_response_id rec = rc1_id rc" "ir_request_sha256 rec = rc_request_sha256 rc"
      "ik_organization ik' = fst k" by (auto simp: records_mutation_def)
    with new show ?thesis by simp
  next
    case False
    with rec(1) assms(1) have "map_of (tl_idempotency db) ik' = Some rec" by (auto simp: records_mutation_def)
    with rec(2) assms(2) old show ?thesis unfolding records_ok_def by blast
  qed
qed

lemma invariant_commit:
  assumes inv: "timeline_invariant db" and m: "records_mutation k ik rc db db'"
    and o: "other_rows_same k db db'"
    and keys: "distinct (map (\<lambda>(k, e). (fst k, ev1_plan e)) (tl_executions db'))"
      "distinct (map fst (tl_executions db'))" "distinct (ids_of db')"
    and e': "map_of (tl_executions db') k = Some e'"
    and ok: "timeline_ok k e' (rows_of k (tl_checkpoints db')) (rows_of k (tl_attestations db'))
          (rows_of k (tl_verifications db')) (rows_of k (tl_reassessments db')) (receipts_of k db @ [rc])"
  shows "timeline_invariant db'"
proof -
  have rcs: "receipts_of k' db' = receipts_of k' db @ (if k' = k then [rc] else [])" for k'
    using m by (intro receipts_of_append) (auto simp: records_mutation_def)
  have "view_of k' db'" for k'
  proof (cases "k' = k")
    case True
    with e' ok rcs show ?thesis by (simp add: view_of_def)
  next
    case False
    then have "map_of (tl_executions db') k' = map_of (tl_executions db) k'
        \<and> rows_of k' (tl_checkpoints db') = rows_of k' (tl_checkpoints db)
        \<and> rows_of k' (tl_attestations db') = rows_of k' (tl_attestations db)
        \<and> rows_of k' (tl_verifications db') = rows_of k' (tl_verifications db)
        \<and> rows_of k' (tl_reassessments db') = rows_of k' (tl_reassessments db)"
      using o unfolding other_rows_same_def by blast
    moreover have "view_of k' db" using inv unfolding timeline_invariant_def by blast
    ultimately show ?thesis using False rcs [of k']
      by (cases "map_of (tl_executions db) k'") (simp_all add: view_of_def)
  qed
  then show ?thesis using inv keys records_ok_mutation [OF m]
    unfolding timeline_invariant_def by presburger
qed

section \<open>Checkpoints\<close>

lemma four_checkpoints:
  assumes "checkpoints_ok e cs"
  obtains c1 c2 c3 c4 where "cs = [c1, c2, c3, c4]" "distinct [cp_id c1, cp_id c2, cp_id c3, cp_id c4]"
    "map cp_ordinal cs = [1, 2, 3, 4]" "map cp_milestone cs = MILESTONES" "map cp_role cs = ACCOUNTABLE_ROLES"
proof -
  have "length cs = 4" using assms by (auto simp: checkpoints_ok_def dest: arg_cong [of _ _ length])
  then obtain c1 c2 c3 c4 where "cs = [c1, c2, c3, c4]" by (auto simp: length_Suc_conv eval_nat_numeral)
  with assms that show ?thesis by (auto simp: checkpoints_ok_def)
qed

text \<open>An update that keeps what identifies a checkpoint.\<close>

definition keeps_identity :: "(timeline_checkpoint \<Rightarrow> timeline_checkpoint) \<Rightarrow> bool" where
  "keeps_identity f \<longleftrightarrow> (\<forall>c. cp_id (f c) = cp_id c \<and> cp_ordinal (f c) = cp_ordinal c
     \<and> cp_milestone (f c) = cp_milestone c \<and> cp_role (f c) = cp_role c)"

lemma bumped_fields [simp]:
  "keeps_identity f \<Longrightarrow> cp_id (bumped f c) = cp_id c" "keeps_identity f \<Longrightarrow> cp_ordinal (bumped f c) = cp_ordinal c"
  "keeps_identity f \<Longrightarrow> cp_milestone (bumped f c) = cp_milestone c" "keeps_identity f \<Longrightarrow> cp_role (bumped f c) = cp_role c"
  "cp_state (bumped f c) = cp_state (f c)" "cp_row_version (bumped f c) = cp_row_version c + 1"
  by (simp_all add: bumped_def keeps_identity_def)

definition same_plan :: "timeline_checkpoint list \<Rightarrow> timeline_checkpoint list \<Rightarrow> bool" where
  "same_plan cs cs' \<longleftrightarrow> map cp_ordinal cs' = map cp_ordinal cs \<and> map cp_milestone cs' = map cp_milestone cs
     \<and> map cp_role cs' = map cp_role cs \<and> map cp_id cs' = map cp_id cs
     \<and> (list_all (\<lambda>c. cp_row_version c \<ge> 1) cs \<longrightarrow> list_all (\<lambda>c. cp_row_version c \<ge> 1) cs')"

lemma same_plan_update: "keeps_identity f \<Longrightarrow> same_plan cs (map (\<lambda>x. if P x then bumped f x else x) cs)"
  unfolding same_plan_def by (intro conjI) (simp_all add: comp_def if_distrib cong: if_cong, force simp: list_all_iff)

lemma same_plan_trans: "same_plan cs cs1 \<Longrightarrow> same_plan cs1 cs2 \<Longrightarrow> same_plan cs cs2"
  by (simp add: same_plan_def)

lemma checkpoints_okI:
  assumes "checkpoints_ok e cs" and "same_plan cs cs'" and "map cp_state cs' = plan_states i cur"
    and "i \<le> 4" and "cur \<in> OPEN_CHECKPOINTS" and "ev1_state e' = TE_COMPLETED \<longleftrightarrow> i = 4"
  shows "checkpoints_ok e' cs'"
  using assms unfolding checkpoints_ok_def same_plan_def by auto

lemma move_current:
  assumes ok: "checkpoints_ok e cs" and "i < 4" and "cs ! i = c" and "map cp_state cs = plan_states i (cp_state c)"
    and f: "keeps_identity f" "\<And>c. cp_state (f c) = cur" and "cur \<in> OPEN_CHECKPOINTS" and "ev1_state e' \<noteq> TE_COMPLETED"
  shows "checkpoints_ok e' (map (\<lambda>x. if cp_id x = cp_id c then bumped f x else x) cs)"
proof (rule checkpoints_okI [OF ok same_plan_update [OF f(1)] _ _ assms(7)])
  from ok obtain c1 c2 c3 c4 where cs: "cs = [c1, c2, c3, c4]" "distinct [cp_id c1, cp_id c2, cp_id c3, cp_id c4]"
    by (rule four_checkpoints)
  from assms(2) have i: "i = 0 \<or> i = Suc 0 \<or> i = 2 \<or> i = 3" by auto
  show "map cp_state (map (\<lambda>x. if cp_id x = cp_id c then bumped f x else x) cs) = plan_states i cur"
    using i assms(3,4) cs f(2) by (elim disjE) auto
qed (use assms(2,8) in auto)

section \<open>The commands on the current checkpoint\<close>

lemma current_target_Inr:
  "current_target r e db = Inr c \<longleftrightarrow>
     ev1_case e = tq_case r \<and> ev1_state e = TE_ACTIVE \<and> current_checkpoints (execution_key r) db = [c]
     \<and> cp_id c = tq_checkpoint r"
  by (cases "ev1_state e") (auto simp: current_target_def split: list.splits)

lemma check_versions_Inr:
  "check_versions r e c = Inr u \<longleftrightarrow>
     ev1_row_version e = tq_execution_version r \<and> cp_row_version c = tq_checkpoint_version r"
  by (simp add: check_versions_def)

text \<open>The current checkpoint of a request, in the invariant.\<close>

lemma target_facts:
  assumes "timeline_invariant db" and "map_of (tl_executions db) (execution_key r) = Some e"
    and "current_target r e db = Inr c"
  obtains i where "i < 4" "rows_of (execution_key r) (tl_checkpoints db) ! i = c"
    "map cp_state (rows_of (execution_key r) (tl_checkpoints db)) = plan_states i (cp_state c)"
    "checkpoints_ok e (rows_of (execution_key r) (tl_checkpoints db))"
    "c \<in> set (rows_of (execution_key r) (tl_checkpoints db))" "cp_state c \<in> OPEN_CHECKPOINTS"
    "distinct (ids_of db)" "cp_id c = tq_checkpoint r" "ev1_state e = TE_ACTIVE"
proof -
  have ok: "checkpoints_ok e (rows_of (execution_key r) (tl_checkpoints db))"
    using timeline_invariantD [OF assms(1,2)] by (simp add: timeline_ok_def)
  have f: "filter (\<lambda>c. cp_state c \<notin> {CP_PENDING, CP_VERIFIED}) (rows_of (execution_key r) (tl_checkpoints db)) = [c]"
    using assms(3) by (simp add: current_target_Inr current_checkpoints_def)
  from current_of_states [OF ok f] obtain i where i: "i < 4" "rows_of (execution_key r) (tl_checkpoints db) ! i = c"
      "map cp_state (rows_of (execution_key r) (tl_checkpoints db)) = plan_states i (cp_state c)"
      "length (rows_of (execution_key r) (tl_checkpoints db)) = 4" "cp_state c \<in> OPEN_CHECKPOINTS" .
  moreover have "c \<in> set (rows_of (execution_key r) (tl_checkpoints db))"
    using i(1,2,4) nth_mem by metis
  ultimately show ?thesis using that ok assms by (auto simp: current_target_Inr timeline_invariant_def)
qed

text \<open>The update of the current checkpoint by its id.\<close>

lemma update_target:
  assumes "timeline_invariant db" and "map_of (tl_executions db) (execution_key r) = Some e"
    and c: "current_target r e db = Inr c" and same: "tl_checkpoints dbx = tl_checkpoints db"
    and f: "keeps_identity f"
    and up: "update_checkpoints (\<lambda>k' c'. fst k' = tq_org r \<and> cp_id c' = tq_checkpoint r) f dbx = Inr dby"
  obtains rows where "dby = dbx\<lparr>tl_checkpoints := rows\<rparr>"
    "rows_of (execution_key r) rows = map (\<lambda>x. if cp_id x = cp_id c then bumped f x else x)
       (rows_of (execution_key r) (tl_checkpoints db))"
    "\<And>k'. k' \<noteq> execution_key r \<Longrightarrow> rows_of k' rows = rows_of k' (tl_checkpoints db)"
    "ids_of dby = ids_of db"
proof -
  from target_facts [OF assms(1-3)] have t: "c \<in> set (rows_of (execution_key r) (tl_checkpoints dbx))"
    "distinct (ids_of dbx)" "cp_id c = tq_checkpoint r" using same by (metis ids_of_def)+
  have "update_checkpoints (\<lambda>k' c'. k' = execution_key r \<and> cp_id c' = tq_checkpoint r) f dbx = Inr dby"
    using up update_by_id [OF t(2,1)] t(3) by (simp add: execution_key_def)
  from update_checkpoints_rows [OF this] f t(3) same that [of "tl_checkpoints dby"] show ?thesis
    by (auto simp: keeps_identity_def ids_of_def)
qed

lemma same_checkpoint:
  "checkpoints_ok e cs \<Longrightarrow> c \<in> set cs \<Longrightarrow> c' \<in> set cs \<Longrightarrow> cp_id c' = cp_id c \<Longrightarrow> c' = c"
  by (auto simp: checkpoints_ok_def distinct_map inj_on_def)

text \<open>What a successful mutation does to its execution.\<close>

definition mutates ::
  "row_key \<Rightarrow> int \<Rightarrow> idem_key \<Rightarrow> timeline_receipt \<Rightarrow> timeline_execution_v1 \<Rightarrow> timeline_execution_v1
     \<Rightarrow> timeline_db \<Rightarrow> timeline_db \<Rightarrow> bool" where
  "mutates k ver ik rc e e' db db' \<longleftrightarrow>
     map_of (tl_executions db) k = Some e \<and> map_of (tl_executions db') k = Some e'
     \<and> ev1_state e = TE_ACTIVE \<and> ev1_row_version e = ver
     \<and> e' = e\<lparr>ev1_state := ev1_state e', ev1_row_version := ver + 1, ev1_updated_at := ev1_updated_at e'\<rparr>
     \<and> records_mutation k ik rc db db' \<and> other_rows_same k db db' \<and> keys_same db db'"

lemma mutates_invariant:
  assumes "timeline_invariant db" and "mutates k ver ik rc e e' db db'"
    and cs: "checkpoints_ok e' (rows_of k (tl_checkpoints db'))"
    and ev: "evidence_ok (rows_of k (tl_checkpoints db')) (rows_of k (tl_attestations db'))
      (rows_of k (tl_verifications db'))"
    and res: "if ev1_state e' = TE_REASSESSMENT_REQUIRED
       then \<exists>r. rows_of k (tl_reassessments db') = [r] \<and> lineage_ok k e' r
       else rows_of k (tl_reassessments db') = []"
    and rc: "valid_receipt_v1 (timeline_receipt_v1.truncate rc)"
  shows "timeline_invariant db'"
proof -
  have ok: "timeline_ok k e (rows_of k (tl_checkpoints db)) (rows_of k (tl_attestations db))
          (rows_of k (tl_verifications db)) (rows_of k (tl_reassessments db)) (receipts_of k db)"
    using timeline_invariantD [OF assms(1)] assms(2) by (simp add: mutates_def)
  have e': "ev1_id e' = ev1_id e" "ev1_case_revision e' = ev1_case_revision e"
    "ev1_row_version e' = ev1_row_version e + 1"
    using assms(2) unfolding mutates_def
    by (metis timeline_execution_v1.select_convs timeline_execution_v1.surjective
        timeline_execution_v1.update_convs)+
  have "timeline_ok k e' (rows_of k (tl_checkpoints db')) (rows_of k (tl_attestations db'))
          (rows_of k (tl_verifications db')) (rows_of k (tl_reassessments db')) (receipts_of k db @ [rc])"
    using ok e' cs ev res rc by (simp add: timeline_ok_def)
  moreover have "distinct (map (\<lambda>(k, e). (fst k, ev1_plan e)) (tl_executions db'))"
    "distinct (map fst (tl_executions db'))" "distinct (ids_of db')"
    using assms(1,2) unfolding timeline_invariant_def mutates_def keys_same_def by presburger+
  ultimately show ?thesis using invariant_commit [OF assms(1)] assms(2) unfolding mutates_def by blast
qed

lemma attest_cases:
  assumes "attest_timeline_checkpoint cat ses a now db = Inr (db', out)"
  obtains (replay) e prior where "map_of (tl_executions db) (execution_key a) = Some e"
      "map_of (tl_idempotency db) (timeline_key ''timeline_checkpoint_attest'' a) = Some prior"
      "ir_request_sha256 prior = tq_request_hash a" "db' = db"
      "out = receipt_json (tq_org a, ir_response_id prior) db"
  | (fresh) e c db1 db2 db3 where "map_of (tl_executions db) (execution_key a) = Some e"
      "map_of (tl_idempotency db) (timeline_key ''timeline_checkpoint_attest'' a) = None"
      "valid_command a" "tq_role a \<in> {''student'', ''parent''}"
      "current_target a e db = Inr c" "check_versions a e c = Inr ()" "cp_state c = CP_IN_PROGRESS"
      "cp_role c = tq_role a" "participates cat (tq_org a) (ev1_case e) (tq_actor a) (tq_role a)"
      "\<not> attestation_codes_refused a c" "insert_attestation a now db = Inr db1"
      "update_checkpoints (\<lambda>k' c'. fst k' = tq_org a \<and> cp_id c' = tq_checkpoint a)
          (\<lambda>c'. c'\<lparr>cp_state := attested_state (aq_kind a), cp_attested_at := Some now,
                   cp_updated_at := now\<rparr>) db1 = Inr db2"
      "update_timeline_execution (execution_key a) (\<lambda>e'. e') now db2 = Inr db3"
      "record_mutation (tq_org a) (timeline_key ''timeline_checkpoint_attest'' a) ''timeline_checkpoint_attested''
          (checkpoint_receipt a OP_ATTEST TIMELINE_CHECKPOINT_ATTESTED (aq_attestation a)
             (tq_checkpoint_version a + 1) now) db3 = Inr (db', out)"
proof -
  note u = assms [unfolded attest_timeline_checkpoint_def]
  from u have v: "tq_role a \<in> {''student'', ''parent''}" "valid_command a" by (auto split: if_splits)
  from u obtain e where e: "map_of (tl_executions db) (execution_key a) = Some e"
    by (cases "map_of (tl_executions db) (execution_key a)") (auto split: if_splits)
  show ?thesis
  proof (cases "map_of (tl_idempotency db) (timeline_key ''timeline_checkpoint_attest'' a)")
    case (Some prior)
    with u e show ?thesis by (intro replay [OF e Some]) (auto simp: replay_receipt_Inr split: if_splits)
  next
    case None
    with u e show ?thesis by (auto split: if_splits intro: fresh [OF e None v(2,1)])
  qed
qed

text \<open>The update of the execution and the two inserts that end every command.\<close>

lemma commit_mutates:
  assumes e: "map_of (tl_executions db) k = Some e" "ev1_state e = TE_ACTIVE" "ev1_row_version e = ver"
    and same: "tl_executions dbx = tl_executions db" "tl_receipts dbx = tl_receipts db"
      "tl_idempotency dbx = tl_idempotency db" "ids_of dbx = ids_of db"
    and rows: "\<And>k'. k' \<noteq> k \<Longrightarrow> rows_of k' (tl_checkpoints dbx) = rows_of k' (tl_checkpoints db)"
      "\<And>k'. k' \<noteq> k \<Longrightarrow> rows_of k' (tl_attestations dbx) = rows_of k' (tl_attestations db)"
      "\<And>k'. k' \<noteq> k \<Longrightarrow> rows_of k' (tl_verifications dbx) = rows_of k' (tl_verifications db)"
      "\<And>k'. k' \<noteq> k \<Longrightarrow> rows_of k' (tl_reassessments dbx) = rows_of k' (tl_reassessments db)"
    and up: "update_timeline_execution k f now dbx = Inr db3" and f: "\<And>e. f e = e\<lparr>ev1_state := g e\<rparr>"
    and rec: "record_mutation (fst k) ik response rc db3 = Inr (db', out)"
    and keys: "rc1_execution rc = snd k" "ik_organization ik = fst k"
  shows "mutates k ver ik rc e (e\<lparr>ev1_state := g e, ev1_row_version := ver + 1, ev1_updated_at := now\<rparr>) db db'"
    and "tl_checkpoints db' = tl_checkpoints dbx" and "tl_attestations db' = tl_attestations dbx"
    and "tl_verifications db' = tl_verifications dbx" and "tl_reassessments db' = tl_reassessments dbx"
    and "out = Some (timeline_receipt_v1.truncate rc)"
proof -
  note x = update_timeline_execution_rows [OF up]
  obtain exs where db3: "db3 = dbx\<lparr>tl_executions := exs\<rparr>" using x(1) by blast
  have exs: "tl_executions db3 = exs" by (simp add: db3)
  have e3: "map_of exs k = Some (e\<lparr>ev1_state := g e, ev1_row_version := ver + 1, ev1_updated_at := now\<rparr>)"
    using x(3) [of e] e same(1) by (simp add: exs f)
  have m3: "k' \<noteq> k \<Longrightarrow> map_of exs k' = map_of (tl_executions db) k'" for k' using x(4) same(1) by (simp add: exs)
  have p3: "map fst exs = map fst (tl_executions db)"
      "map (\<lambda>(k, e). (fst k, ev1_plan e)) exs = map (\<lambda>(k, e). (fst k, ev1_plan e)) (tl_executions db)"
    using x(2) x(5) same(1) by (simp_all add: exs f)
  note r = rec [unfolded record_mutation_Inr]
  have db': "db' = db3\<lparr>tl_receipts := tl_receipts db3 @ [((fst k, rc1_id rc), rc)],
               tl_idempotency := AList.update ik
                 \<lparr>ir_request_sha256 = rc_request_sha256 rc, ir_response_id = rc1_id rc,
                  ir_response_kind = response\<rparr> (tl_idempotency db3)\<rparr>" using r by blast
  show "tl_checkpoints db' = tl_checkpoints dbx" "tl_attestations db' = tl_attestations dbx"
    "tl_verifications db' = tl_verifications dbx" "tl_reassessments db' = tl_reassessments dbx"
    "out = Some (timeline_receipt_v1.truncate rc)" using r by (simp_all add: db3)
  have "records_mutation k ik rc db db'"
    using r keys same by (auto simp: records_mutation_def db3)
  moreover have "other_rows_same k db db'"
    unfolding other_rows_same_def using rows m3 by (simp add: db' db3)
  moreover have "keys_same db db'" using p3 same(4) by (simp add: keys_same_def db' db3 ids_of_def)
  ultimately show "mutates k ver ik rc e
      (e\<lparr>ev1_state := g e, ev1_row_version := ver + 1, ev1_updated_at := now\<rparr>) db db'"
    using e e3 by (simp add: mutates_def db' db3)
qed

lemma checkpoint_receipt_valid:
  assumes "valid_command r" and "0 < after"
  shows "valid_receipt_v1 (timeline_receipt_v1.truncate (checkpoint_receipt r op knd result after now))"
  using assms by (simp add: valid_receipt_v1_def checkpoint_receipt_def timeline_receipt_v1.truncate_def
      positive_option_def valid_command_def)

text \<open>Rows that an update of checkpoints leaves as they identify each checkpoint.\<close>

lemma evidence_move:
  assumes "evidence_ok cs ats vfs" and "\<And>c. c \<in> set cs \<Longrightarrow> P c \<Longrightarrow> cp_state (f c) = CP_VERIFIED \<Longrightarrow> verified_by ats vfs c"
    and f: "keeps_identity f"
  shows "evidence_ok (map (\<lambda>c. if P c then bumped f c else c) cs) ats vfs"
proof -
  have ac: "attested_completion (bumped f c) a = attested_completion c a" for c a
    using f by (simp add: attested_completion_def)
  have vb: "verified_by ats vfs (bumped f c) = verified_by ats vfs c" for c
    using f ac [of c] by (simp add: verified_by_def)
  show ?thesis using assms(1,2) f ac vb unfolding evidence_ok_def by (auto split: if_splits)
qed

lemma evidence_attest:
  assumes "evidence_ok cs ats vfs" and "valid_attestation_v1 (timeline_attestation_v1.truncate a)"
    and "av1_kind a = KIND_COMPLETION \<Longrightarrow> \<forall>c\<in>set cs. cp_id c = av1_checkpoint a \<longrightarrow> attested_completion c a"
  shows "evidence_ok cs (ats @ [a]) vfs"
  using assms unfolding evidence_ok_def verified_by_def by (auto 0 3)

lemma insert_attestation_Inr:
  assumes "insert_attestation a now db = Inr db1"
  obtains row where "db1 = db\<lparr>tl_attestations := tl_attestations db @ [(execution_key a, row)]\<rparr>"
    "av1_checkpoint row = tq_checkpoint a" "av1_kind row = aq_kind a" "av1_status row = aq_status a"
    "av1_code row = aq_code a" "av1_role row = tq_role a" "av1_id row = aq_attestation a"
    "valid_command a \<Longrightarrow> tq_role a \<in> {''student'', ''parent''} \<Longrightarrow>
       valid_attestation_v1 (timeline_attestation_v1.truncate row)"
  using assms that
  by (auto simp: insert_attestation_def valid_attestation_v1_def timeline_attestation_v1.truncate_def
      valid_command_def split: if_splits)

lemma attest_effect:
  assumes inv: "timeline_invariant db"
    and e: "map_of (tl_executions db) (execution_key a) = Some e"
    and v: "valid_command a" "tq_role a \<in> {''student'', ''parent''}"
    and c: "current_target a e db = Inr c" "check_versions a e c = Inr ()" "cp_role c = tq_role a"
    and codes: "\<not> attestation_codes_refused a c" and ins: "insert_attestation a now db = Inr db1"
    and up: "update_checkpoints (\<lambda>k' c'. fst k' = tq_org a \<and> cp_id c' = tq_checkpoint a)
          (\<lambda>c'. c'\<lparr>cp_state := attested_state (aq_kind a), cp_attested_at := Some now,
                   cp_updated_at := now\<rparr>) db1 = Inr db2"
    and ue: "update_timeline_execution (execution_key a) (\<lambda>e'. e') now db2 = Inr db3"
    and rec: "record_mutation (tq_org a) (timeline_key ''timeline_checkpoint_attest'' a)
        ''timeline_checkpoint_attested'' rc db3 = Inr (db', out)"
    and rc: "rc = checkpoint_receipt a OP_ATTEST TIMELINE_CHECKPOINT_ATTESTED (aq_attestation a)
             (tq_checkpoint_version a + 1) now"
  defines "k \<equiv> execution_key a"
  shows "mutates k (tq_execution_version a) (timeline_key ''timeline_checkpoint_attest'' a) rc e
           (e\<lparr>ev1_row_version := tq_execution_version a + 1, ev1_updated_at := now\<rparr>) db db'"
    and "timeline_invariant db'" and "out = Some (timeline_receipt_v1.truncate rc)"
proof -
  let ?f = "\<lambda>c'. c'\<lparr>cp_state := attested_state (aq_kind a), cp_attested_at := Some now, cp_updated_at := now\<rparr>"
  obtain row where db1: "db1 = db\<lparr>tl_attestations := tl_attestations db @ [(k, row)]\<rparr>"
    and row: "av1_checkpoint row = tq_checkpoint a" "av1_kind row = aq_kind a" "av1_status row = aq_status a"
      "av1_code row = aq_code a" "av1_role row = tq_role a"
      "valid_attestation_v1 (timeline_attestation_v1.truncate row)"
    using insert_attestation_Inr [OF ins] v unfolding k_def by metis
  obtain i where i: "i < 4" "rows_of k (tl_checkpoints db) ! i = c"
      "map cp_state (rows_of k (tl_checkpoints db)) = plan_states i (cp_state c)"
      "checkpoints_ok e (rows_of k (tl_checkpoints db))" "c \<in> set (rows_of k (tl_checkpoints db))"
      "distinct (ids_of db)" "cp_id c = tq_checkpoint a" "ev1_state e = TE_ACTIVE"
    using target_facts [OF inv e c(1)] unfolding k_def by metis
  have f: "keeps_identity ?f" by (simp add: keeps_identity_def)
  obtain crows where db2: "db2 = db1\<lparr>tl_checkpoints := crows\<rparr>"
    and rows: "rows_of k crows = map (\<lambda>x. if cp_id x = cp_id c then bumped ?f x else x) (rows_of k (tl_checkpoints db))"
    and other: "\<And>k'. k' \<noteq> k \<Longrightarrow> rows_of k' crows = rows_of k' (tl_checkpoints db)"
    and ids: "ids_of db2 = ids_of db"
    using update_target [OF inv e c(1) _ f up] unfolding k_def [symmetric] by (auto simp: db1)
  have ver: "ev1_row_version e = tq_execution_version a" using c(2) by (simp add: check_versions_Inr)
  note m = commit_mutates [OF e [folded k_def] i(8) ver, of db2 "\<lambda>e'. e'" now db3 ev1_state
      "timeline_key ''timeline_checkpoint_attest'' a" "''timeline_checkpoint_attested''" rc db' out]
  have mut: "mutates k (tq_execution_version a) (timeline_key ''timeline_checkpoint_attest'' a) rc e
           (e\<lparr>ev1_row_version := tq_execution_version a + 1, ev1_updated_at := now\<rparr>) db db'"
    and tables: "tl_checkpoints db' = crows" "tl_attestations db' = tl_attestations db @ [(k, row)]"
      "tl_verifications db' = tl_verifications db" "tl_reassessments db' = tl_reassessments db"
    and out: "out = Some (timeline_receipt_v1.truncate rc)"
    using m ue rec other ids
    by (simp_all add: db1 db2 k_def execution_key_def rc checkpoint_receipt_def timeline_key_def idem_key_of_def)
  show "mutates k (tq_execution_version a) (timeline_key ''timeline_checkpoint_attest'' a) rc e
           (e\<lparr>ev1_row_version := tq_execution_version a + 1, ev1_updated_at := now\<rparr>) db db'"
    "out = Some (timeline_receipt_v1.truncate rc)" by (rule mut, rule out)
  have open': "attested_state (aq_kind a) \<in> OPEN_CHECKPOINTS"
    by (cases "aq_kind a") (simp_all add: OPEN_CHECKPOINTS_def)
  note ok = timeline_invariantD [OF inv e [folded k_def]]
  show "timeline_invariant db'"
  proof (rule mutates_invariant [OF inv mut])
    show "checkpoints_ok (e\<lparr>ev1_row_version := tq_execution_version a + 1, ev1_updated_at := now\<rparr>)
        (rows_of k (tl_checkpoints db'))"
      unfolding tables rows by (rule move_current [OF i(4,1-3) f _ open']) (simp_all add: i(8))
    have "evidence_ok (rows_of k crows) (rows_of k (tl_attestations db)) (rows_of k (tl_verifications db))"
      unfolding rows
    proof (rule evidence_move [OF _ _ f])
      show "evidence_ok (rows_of k (tl_checkpoints db)) (rows_of k (tl_attestations db)) (rows_of k (tl_verifications db))"
        using ok by (simp add: timeline_ok_def)
    qed (use open' in \<open>auto simp: OPEN_CHECKPOINTS_def\<close>)
    then have "evidence_ok (rows_of k crows) (rows_of k (tl_attestations db) @ [row]) (rows_of k (tl_verifications db))"
    proof (rule evidence_attest [OF _ row(6)])
      assume comp: "av1_kind row = KIND_COMPLETION"
      have "attested_completion c row"
        using codes comp row c(3) i(7) by (simp add: attested_completion_def attestation_codes_refused_def)
      then show "\<forall>c'\<in>set (rows_of k crows). cp_id c' = av1_checkpoint row \<longrightarrow> attested_completion c' row"
        using f i(7) row(1) same_checkpoint [OF i(4,5)] by (auto simp: rows attested_completion_def)
    qed
    then show "evidence_ok (rows_of k (tl_checkpoints db')) (rows_of k (tl_attestations db'))
      (rows_of k (tl_verifications db'))" by (simp add: tables)
    show "valid_receipt_v1 (timeline_receipt_v1.truncate rc)"
      unfolding rc by (rule checkpoint_receipt_valid [OF v(1)]) (use v(1) in \<open>simp add: valid_command_def\<close>)
  qed (use ok i(8) in \<open>simp add: tables timeline_ok_def\<close>)
qed

section \<open>Verification\<close>

lemma evidence_verification:
  "evidence_ok cs ats vfs \<Longrightarrow> valid_verification_v1 (timeline_verification_v1.truncate v) \<Longrightarrow>
     evidence_ok cs ats (vfs @ [v])"
  unfolding evidence_ok_def verified_by_def by (auto 0 3)

lemma latest_attestation_in: "latest_attestation rows = Some a \<Longrightarrow> a \<in> set rows"
  by (auto simp: latest_attestation_def split: if_splits) (metis last_in_set set_sort sort_key_simps(1) length_0_conv length_sort)

lemma verify_checkpoints:
  assumes ok: "checkpoints_ok e cs" and "i < 4" and "cs ! i = c" and "map cp_state cs = plan_states i (cp_state c)"
    and f: "keeps_identity f" "\<And>c. cp_state (f c) = CP_VERIFIED"
    and g: "keeps_identity g" "\<And>c. cp_state (g c) = CP_IN_PROGRESS"
  defines "cs1 \<equiv> map (\<lambda>x. if cp_id x = cp_id c then bumped f x else x) cs"
  shows "cp_milestone c = ''arrival'' \<Longrightarrow> ev1_state e' = TE_COMPLETED \<Longrightarrow> checkpoints_ok e' cs1"
    and "cp_milestone c \<noteq> ''arrival'' \<Longrightarrow> ev1_state e' \<noteq> TE_COMPLETED \<Longrightarrow> checkpoints_ok e'
       (map (\<lambda>x. if cp_ordinal x = cp_ordinal c + 1 \<and> cp_state x = CP_PENDING then bumped g x else x) cs1)"
proof -
  from ok obtain c1 c2 c3 c4 where cs: "cs = [c1, c2, c3, c4]" "distinct [cp_id c1, cp_id c2, cp_id c3, cp_id c4]"
    "map cp_ordinal cs = [1, 2, 3, 4]" "map cp_milestone cs = MILESTONES" "map cp_role cs = ACCOUNTABLE_ROLES"
    by (rule four_checkpoints)
  have i: "i = 0 \<or> i = Suc 0 \<or> i = 2 \<or> i = 3" using assms(2) by auto
  let ?cs2 = "map (\<lambda>x. if cp_ordinal x = cp_ordinal c + 1 \<and> cp_state x = CP_PENDING then bumped g x else x) cs1"
  have p1: "same_plan cs cs1" unfolding cs1_def by (rule same_plan_update [OF f(1)])
  have p2: "same_plan cs ?cs2" by (rule same_plan_trans [OF p1 same_plan_update [OF g(1)]])
  show "checkpoints_ok e' cs1" if "cp_milestone c = ''arrival''" "ev1_state e' = TE_COMPLETED"
  proof (rule checkpoints_okI [OF ok p1])
    have "i = 3" using i assms(3) cs that(1) by (elim disjE) (auto simp: MILESTONES_def)
    then show "map cp_state cs1 = plan_states 4 CP_IN_PROGRESS"
      using assms(3,4) cs f(2) by (auto simp: cs1_def)
  qed (simp_all add: OPEN_CHECKPOINTS_def that(2))
  show "checkpoints_ok e' ?cs2" if "cp_milestone c \<noteq> ''arrival''" "ev1_state e' \<noteq> TE_COMPLETED"
  proof (rule checkpoints_okI [OF ok p2])
    have i3: "i = 0 \<or> i = Suc 0 \<or> i = 2" using i assms(3) cs that(1) by (elim disjE) (auto simp: MILESTONES_def)
    then show "map cp_state ?cs2 = plan_states (Suc i) CP_IN_PROGRESS"
      using assms(3,4) cs f g by (elim disjE) (auto simp: cs1_def simp flip: numeral_2_eq_2 numeral_3_eq_3)
    show "Suc i \<le> 4" "ev1_state e' = TE_COMPLETED \<longleftrightarrow> Suc i = 4" using i3 that(2) by auto
  qed (simp add: OPEN_CHECKPOINTS_def)
qed

lemma insert_verification_Inr:
  assumes "insert_verification r now db = Inr db1"
  obtains row where "db1 = db\<lparr>tl_verifications := tl_verifications db @ [(execution_key r, row)]\<rparr>"
    "vv1_checkpoint row = tq_checkpoint r" "vv1_action row = vq_action r" "vv1_reason row = vq_reason r"
    "vv1_attestation row = vq_attestation r" "vv1_id row = vq_verification r"
    "valid_command r \<Longrightarrow> valid_verification_v1 (timeline_verification_v1.truncate row)"
  using assms that
  by (auto simp: insert_verification_def valid_verification_v1_def timeline_verification_v1.truncate_def
      valid_command_def split: if_splits)

text \<open>The update of the execution row as the state it writes.\<close>

definition verified_state :: "verify_request \<Rightarrow> timeline_checkpoint \<Rightarrow> timeline_execution_state" where
  "verified_state r c =
     (if vq_action r = VERIFY \<and> cp_milestone c = ''arrival'' then TE_COMPLETED else TE_ACTIVE)"

lemma apply_verification_rows:
  assumes inv: "timeline_invariant db" and e: "map_of (tl_executions db) (execution_key r) = Some e"
    and c: "current_target r e db = Inr c" and same: "tl_checkpoints dbx = tl_checkpoints db"
    and ap: "apply_verification r c now dbx = Inr db3"
    and verified: "vq_action r = VERIFY \<Longrightarrow> verified_by ats vfs c"
    and ev: "evidence_ok (rows_of (execution_key r) (tl_checkpoints db)) ats vfs"
  defines "k \<equiv> execution_key r"
  obtains crows f where
    "update_timeline_execution k f now (dbx\<lparr>tl_checkpoints := crows\<rparr>) = Inr db3"
    "\<And>e. f e = e\<lparr>ev1_state := (if verified_state r c = TE_COMPLETED then TE_COMPLETED else ev1_state e)\<rparr>"
    "\<And>k'. k' \<noteq> k \<Longrightarrow> rows_of k' crows = rows_of k' (tl_checkpoints db)"
    "ids_of (dbx\<lparr>tl_checkpoints := crows\<rparr>) = ids_of db"
    "\<And>e'. ev1_state e' = verified_state r c \<Longrightarrow> checkpoints_ok e' (rows_of k crows)"
    "evidence_ok (rows_of k crows) ats vfs"
proof -
  let ?cs = "rows_of k (tl_checkpoints db)"
  obtain i where i: "i < 4" "?cs ! i = c" "map cp_state ?cs = plan_states i (cp_state c)" "checkpoints_ok e ?cs"
    "c \<in> set ?cs" "cp_id c = tq_checkpoint r" "ev1_state e = TE_ACTIVE"
    using target_facts [OF inv e c] unfolding k_def by metis
  let ?one = "\<lambda>f. map (\<lambda>x. if cp_id x = cp_id c then bumped f x else x) ?cs"
  note target = update_target [OF inv e c same, folded k_def]
  consider "vq_action r = REQUEST_UPDATE" | "vq_action r = VERIFY" "cp_milestone c = ''arrival''"
    | "vq_action r = VERIFY" "cp_milestone c \<noteq> ''arrival''" by (cases "vq_action r") auto
  then show ?thesis
  proof cases
    case 1
    let ?f = "\<lambda>c'. c'\<lparr>cp_state := CP_IN_PROGRESS, cp_verified_at := None, cp_updated_at := now\<rparr>"
    have f: "keeps_identity ?f" by (simp add: keeps_identity_def)
    obtain db1 where u: "update_checkpoints (\<lambda>k' c'. fst k' = tq_org r \<and> cp_id c' = tq_checkpoint r) ?f dbx = Inr db1"
      "update_timeline_execution k (\<lambda>e. e) now db1 = Inr db3"
      using ap 1 by (auto simp: apply_verification_def Let_def k_def)
    obtain rows where rows: "db1 = dbx\<lparr>tl_checkpoints := rows\<rparr>" "rows_of k rows = ?one ?f"
      "\<And>k'. k' \<noteq> k \<Longrightarrow> rows_of k' rows = rows_of k' (tl_checkpoints db)" "ids_of db1 = ids_of db"
      using target [OF f u(1)] by blast
    show ?thesis
    proof (rule that [of "\<lambda>e. e" rows])
      show "checkpoints_ok e' (rows_of k rows)" if "ev1_state e' = verified_state r c" for e'
        unfolding rows(2) using 1 that
        by (intro move_current [where cur = CP_IN_PROGRESS, OF i(4,1-3) f]) (simp_all add: OPEN_CHECKPOINTS_def verified_state_def)
      show "evidence_ok (rows_of k rows) ats vfs"
        unfolding rows(2) by (rule evidence_move [OF ev [folded k_def] _ f]) simp
    qed (use 1 u(2) rows in \<open>simp_all add: verified_state_def\<close>)
  next
    case 2
    let ?f = "\<lambda>c'. c'\<lparr>cp_state := CP_VERIFIED, cp_verified_at := Some now, cp_updated_at := now\<rparr>"
    have f: "keeps_identity ?f" by (simp add: keeps_identity_def)
    obtain db1 where u: "update_checkpoints (\<lambda>k' c'. fst k' = tq_org r \<and> cp_id c' = tq_checkpoint r) ?f dbx = Inr db1"
      "update_timeline_execution k (\<lambda>e. e\<lparr>ev1_state := TE_COMPLETED\<rparr>) now db1 = Inr db3"
      using ap 2 by (auto simp: apply_verification_def Let_def k_def)
    obtain rows where rows: "db1 = dbx\<lparr>tl_checkpoints := rows\<rparr>" "rows_of k rows = ?one ?f"
      "\<And>k'. k' \<noteq> k \<Longrightarrow> rows_of k' rows = rows_of k' (tl_checkpoints db)" "ids_of db1 = ids_of db"
      using target [OF f u(1)] by blast
    show ?thesis
    proof (rule that [of "\<lambda>e. e\<lparr>ev1_state := TE_COMPLETED\<rparr>" rows])
      show "checkpoints_ok e' (rows_of k rows)" if "ev1_state e' = verified_state r c" for e'
        unfolding rows(2) using 2 that
        by (intro verify_checkpoints(1) [where g = "\<lambda>c'. c'\<lparr>cp_state := CP_IN_PROGRESS\<rparr>", OF i(4,1-3) f])
          (simp_all add: verified_state_def keeps_identity_def)
      show "evidence_ok (rows_of k rows) ats vfs"
        unfolding rows(2)
        by (rule evidence_move [OF ev [folded k_def] _ f]) (use verified [OF 2(1)] same_checkpoint [OF i(4,5)] in blast)
    qed (use 2 u(2) rows in \<open>simp_all add: verified_state_def\<close>)
  next
    case 3
    let ?f = "\<lambda>c'. c'\<lparr>cp_state := CP_VERIFIED, cp_verified_at := Some now, cp_updated_at := now\<rparr>"
    let ?g = "\<lambda>c'. c'\<lparr>cp_state := CP_IN_PROGRESS, cp_updated_at := now\<rparr>"
    have f: "keeps_identity ?f" "keeps_identity ?g" by (simp_all add: keeps_identity_def)
    obtain db1 db2 where u: "update_checkpoints (\<lambda>k' c'. fst k' = tq_org r \<and> cp_id c' = tq_checkpoint r) ?f dbx = Inr db1"
      "update_checkpoints (\<lambda>k' c'. k' = k \<and> cp_ordinal c' = cp_ordinal c + 1 \<and> cp_state c' = CP_PENDING) ?g db1 = Inr db2"
      "update_timeline_execution k (\<lambda>e. e) now db2 = Inr db3"
      using ap 3 by (auto simp: apply_verification_def Let_def k_def)
    obtain rows where rows: "db1 = dbx\<lparr>tl_checkpoints := rows\<rparr>" "rows_of k rows = ?one ?f"
      "\<And>k'. k' \<noteq> k \<Longrightarrow> rows_of k' rows = rows_of k' (tl_checkpoints db)" "ids_of db1 = ids_of db"
      using target [OF f(1) u(1)] by blast
    from update_checkpoints_rows [OF u(2)] obtain rows2 where rows2: "db2 = db1\<lparr>tl_checkpoints := rows2\<rparr>"
      "rows_of k rows2 = map (\<lambda>x. if cp_ordinal x = cp_ordinal c + 1 \<and> cp_state x = CP_PENDING then bumped ?g x else x)
         (?one ?f)"
      "\<And>k'. k' \<noteq> k \<Longrightarrow> rows_of k' rows2 = rows_of k' (tl_checkpoints db)" "ids_of db2 = ids_of db"
      using rows by auto
    show ?thesis
    proof (rule that [of "\<lambda>e. e" rows2])
      show "checkpoints_ok e' (rows_of k rows2)" if "ev1_state e' = verified_state r c" for e'
        unfolding rows2(2) using 3 that
        by (intro verify_checkpoints(2) [OF i(4,1-3) f(1) _ f(2)]) (simp_all add: verified_state_def)
      have "evidence_ok (?one ?f) ats vfs"
        by (rule evidence_move [OF ev [folded k_def] _ f(1)]) (use verified [OF 3(1)] same_checkpoint [OF i(4,5)] in blast)
      from evidence_move [OF this _ f(2)] show "evidence_ok (rows_of k rows2) ats vfs"
        unfolding rows2(2) by simp
    qed (use 3 u(3) rows rows2 in \<open>simp_all add: verified_state_def\<close>)
  qed
qed

end
