(* ===== verification/Timeline_Effects.thy ===== *)
theory Timeline_Effects
  imports Timeline_Safety
begin

text \<open>
  The effects of verification, reassessment and start on the rows of their execution, and
  that they keep the invariant, as \<open>Timeline_Safety\<close> does for attestation.
\<close>

section \<open>Verify\<close>

lemma verify_cases:
  assumes "verify_timeline_checkpoint cat ses r now db = Inr (db', out)"
  obtains (replay) e prior where "map_of (tl_executions db) (execution_key r) = Some e"
      "map_of (tl_idempotency db) (timeline_key ''timeline_checkpoint_verify'' r) = Some prior"
      "ir_request_sha256 prior = tq_request_hash r" "db' = db"
      "out = receipt_json (tq_org r, ir_response_id prior) db"
  | (fresh) e c a db1 db2 where "map_of (tl_executions db) (execution_key r) = Some e"
      "map_of (tl_idempotency db) (timeline_key ''timeline_checkpoint_verify'' r) = None"
      "valid_command r" "tq_role r = ''advisor''"
      "current_target r e db = Inr c" "check_versions r e c = Inr ()" "cp_state c = CP_AWAITING_ADVISOR"
      "a \<in> set (rows_of (execution_key r) (tl_attestations db))" "av1_checkpoint a = tq_checkpoint r"
      "av1_kind a = KIND_COMPLETION" "av1_id a = vq_attestation r"
      "participates cat (tq_org r) (ev1_case e) (tq_actor r) ''advisor''"
      "\<not> verification_refused r" "insert_verification r now db = Inr db1"
      "apply_verification r c now db1 = Inr db2"
      "record_mutation (tq_org r) (timeline_key ''timeline_checkpoint_verify'' r) ''timeline_checkpoint_verified''
          (checkpoint_receipt r OP_VERIFY TIMELINE_CHECKPOINT_VERIFIED (vq_verification r)
             (tq_checkpoint_version r + 1) now) db2 = Inr (db', out)"
proof -
  note u = assms [unfolded verify_timeline_checkpoint_def Let_def]
  from u have v: "tq_role r = ''advisor''" "valid_command r" by (auto split: if_splits)
  from u obtain e where e: "map_of (tl_executions db) (execution_key r) = Some e"
    by (cases "map_of (tl_executions db) (execution_key r)") (auto split: if_splits)
  show ?thesis
  proof (cases "map_of (tl_idempotency db) (timeline_key ''timeline_checkpoint_verify'' r)")
    case (Some prior)
    with u e show ?thesis by (intro replay [OF e Some]) (auto simp: replay_receipt_Inr split: if_splits)
  next
    case None
    from u v e None obtain c where c: "current_target r e db = Inr c" "check_versions r e c = Inr ()"
      by (auto split: if_splits)
    from u v e None c have l: "map_option av1_id (latest_attestation (filter (\<lambda>a. av1_checkpoint a = tq_checkpoint r
                \<and> av1_kind a = KIND_COMPLETION) (rows_of (execution_key r) (tl_attestations db))))
          = Some (vq_attestation r)" by (simp split: if_splits)
    then obtain a where "latest_attestation (filter (\<lambda>a. av1_checkpoint a = tq_checkpoint r
                \<and> av1_kind a = KIND_COMPLETION) (rows_of (execution_key r) (tl_attestations db))) = Some a"
      and id: "av1_id a = vq_attestation r" by blast
    from latest_attestation_in [OF this(1)] have a: "a \<in> set (rows_of (execution_key r) (tl_attestations db))"
      "av1_checkpoint a = tq_checkpoint r" "av1_kind a = KIND_COMPLETION" by auto
    from u v e None c show ?thesis by (auto split: if_splits intro: fresh [OF e None v(2,1) c _ a id])
  qed
qed

lemma verify_effect:
  assumes inv: "timeline_invariant db"
    and e: "map_of (tl_executions db) (execution_key r) = Some e" and v: "valid_command r"
    and c: "current_target r e db = Inr c" "check_versions r e c = Inr ()"
    and a: "a \<in> set (rows_of (execution_key r) (tl_attestations db))" "av1_checkpoint a = tq_checkpoint r"
      "av1_kind a = KIND_COMPLETION" "av1_id a = vq_attestation r"
    and ref: "\<not> verification_refused r" and ins: "insert_verification r now db = Inr db1"
    and ap: "apply_verification r c now db1 = Inr db2"
    and rec: "record_mutation (tq_org r) (timeline_key ''timeline_checkpoint_verify'' r)
        ''timeline_checkpoint_verified'' rc db2 = Inr (db', out)"
    and rc: "rc = checkpoint_receipt r OP_VERIFY TIMELINE_CHECKPOINT_VERIFIED (vq_verification r)
             (tq_checkpoint_version r + 1) now"
  defines "k \<equiv> execution_key r"
  shows "mutates k (tq_execution_version r) (timeline_key ''timeline_checkpoint_verify'' r) rc e
           (e\<lparr>ev1_state := verified_state r c, ev1_row_version := tq_execution_version r + 1,
              ev1_updated_at := now\<rparr>) db db'"
    and "timeline_invariant db'" and "out = Some (timeline_receipt_v1.truncate rc)"
proof -
  let ?e' = "e\<lparr>ev1_state := verified_state r c, ev1_row_version := tq_execution_version r + 1, ev1_updated_at := now\<rparr>"
  note ok = timeline_invariantD [OF inv e [folded k_def]]
  obtain row where db1: "db1 = db\<lparr>tl_verifications := tl_verifications db @ [(k, row)]\<rparr>"
    and row: "vv1_checkpoint row = tq_checkpoint r" "vv1_action row = vq_action r" "vv1_reason row = vq_reason r"
      "vv1_attestation row = vq_attestation r" "valid_verification_v1 (timeline_verification_v1.truncate row)"
    using insert_verification_Inr [OF ins] v unfolding k_def by metis
  from target_facts [OF inv e c(1)] have t: "cp_id c = tq_checkpoint r" "ev1_state e = TE_ACTIVE"
    "c \<in> set (rows_of k (tl_checkpoints db))" unfolding k_def by metis+
  have ver: "ev1_row_version e = tq_execution_version r" using c(2) by (simp add: check_versions_Inr)
  let ?ats = "rows_of k (tl_attestations db)" and ?vfs = "rows_of k (tl_verifications db) @ [row]"
  have ev: "evidence_ok (rows_of k (tl_checkpoints db)) ?ats ?vfs"
    using evidence_verification [OF _ row(5)] ok by (simp add: timeline_ok_def)
  have vb: "verified_by ?ats ?vfs c" if "vq_action r = VERIFY"
  proof -
    have "attested_completion c a" using ev a t(1,3) unfolding evidence_ok_def k_def by auto
    then show ?thesis using that ref row a(1,4) t(1) unfolding verified_by_def k_def
      by (auto simp: verification_refused_def)
  qed
  have same: "tl_checkpoints db1 = tl_checkpoints db" by (simp add: db1)
  obtain crows f where
    up: "update_timeline_execution k f now (db1\<lparr>tl_checkpoints := crows\<rparr>) = Inr db2"
    and f: "\<And>e. f e = e\<lparr>ev1_state := (if verified_state r c = TE_COMPLETED then TE_COMPLETED else ev1_state e)\<rparr>"
    and other: "\<And>k'. k' \<noteq> k \<Longrightarrow> rows_of k' crows = rows_of k' (tl_checkpoints db)"
    and ids: "ids_of (db1\<lparr>tl_checkpoints := crows\<rparr>) = ids_of db"
    and cs: "\<And>e'. ev1_state e' = verified_state r c \<Longrightarrow> checkpoints_ok e' (rows_of k crows)"
    and ev': "evidence_ok (rows_of k crows) ?ats ?vfs"
    by (rule apply_verification_rows [OF inv e c(1) same ap vb [unfolded k_def] ev [unfolded k_def], folded k_def])
      (assumption, (rule that; (assumption | simp)))
  note m = commit_mutates [OF e [folded k_def] t(2) ver, of "db1\<lparr>tl_checkpoints := crows\<rparr>" f now db2
      "\<lambda>e. if verified_state r c = TE_COMPLETED then TE_COMPLETED else ev1_state e"
      "timeline_key ''timeline_checkpoint_verify'' r" "''timeline_checkpoint_verified''" rc db' out]
  have st: "(if verified_state r c = TE_COMPLETED then TE_COMPLETED else ev1_state e) = verified_state r c"
    using t(2) by (simp add: verified_state_def)
  have mut: "mutates k (tq_execution_version r) (timeline_key ''timeline_checkpoint_verify'' r) rc e ?e' db db'"
    and tables: "tl_checkpoints db' = crows" "tl_attestations db' = tl_attestations db"
      "tl_verifications db' = tl_verifications db @ [(k, row)]" "tl_reassessments db' = tl_reassessments db"
    and out: "out = Some (timeline_receipt_v1.truncate rc)"
    using m up rec other ids f st
    by (simp_all add: db1 k_def execution_key_def rc checkpoint_receipt_def timeline_key_def idem_key_of_def)
  show "mutates k (tq_execution_version r) (timeline_key ''timeline_checkpoint_verify'' r) rc e ?e' db db'"
    "out = Some (timeline_receipt_v1.truncate rc)" by (rule mut, rule out)
  show "timeline_invariant db'"
  proof (rule mutates_invariant [OF inv mut])
    show "checkpoints_ok ?e' (rows_of k (tl_checkpoints db'))" unfolding tables by (rule cs) simp
    show "evidence_ok (rows_of k (tl_checkpoints db')) (rows_of k (tl_attestations db'))
      (rows_of k (tl_verifications db'))" using ev' by (simp add: tables)
    show "valid_receipt_v1 (timeline_receipt_v1.truncate rc)"
      unfolding rc by (rule checkpoint_receipt_valid [OF v]) (use v in \<open>simp add: valid_command_def\<close>)
  qed (use ok t(2) in \<open>simp add: tables timeline_ok_def verified_state_def\<close>)
qed

section \<open>Reassess\<close>

lemma reassess_cases:
  assumes "request_timeline_reassessment cat ses r today now db = Inr (db', out)"
  obtains (replay) e prior where "map_of (tl_executions db) (execution_key r) = Some e"
      "map_of (tl_idempotency db) (timeline_key ''timeline_reassessment_request'' r) = Some prior"
      "ir_request_sha256 prior = tq_request_hash r" "db' = db"
      "out = receipt_json (tq_org r, ir_response_id prior) db"
  | (fresh) e c hash db1 db2 where "map_of (tl_executions db) (execution_key r) = Some e"
      "map_of (tl_idempotency db) (timeline_key ''timeline_reassessment_request'' r) = None"
      "valid_command r" "tq_role r = ''advisor''"
      "current_target r e db = Inr c" "check_versions r e c = Inr ()"
      "participates cat (tq_org r) (ev1_case e) (tq_actor r) ''advisor''"
      "\<not> trigger_refused r c today db" "insert_reassessment r e hash today now db = Inr db1"
      "update_timeline_execution (execution_key r) (\<lambda>e'. e'\<lparr>ev1_state := TE_REASSESSMENT_REQUIRED\<rparr>) now db1 = Inr db2"
      "record_mutation (tq_org r) (timeline_key ''timeline_reassessment_request'' r)
          ''timeline_reassessment_requested''
          (checkpoint_receipt r OP_REASSESS TIMELINE_REASSESSMENT_REQUESTED (eq_reassessment r)
             (tq_checkpoint_version r) now) db2 = Inr (db', out)"
proof -
  note u = assms [unfolded request_timeline_reassessment_def]
  from u have v: "tq_role r = ''advisor''" "valid_command r" by (auto split: if_splits)
  from u obtain e where e: "map_of (tl_executions db) (execution_key r) = Some e"
    by (cases "map_of (tl_executions db) (execution_key r)") (auto split: if_splits)
  show ?thesis
  proof (cases "map_of (tl_idempotency db) (timeline_key ''timeline_reassessment_request'' r)")
    case (Some prior)
    with u e show ?thesis by (intro replay [OF e Some]) (auto simp: replay_receipt_Inr split: if_splits)
  next
    case None
    with u e show ?thesis by (auto split: if_splits intro: fresh [OF e None v(2,1)])
  qed
qed

lemma insert_reassessment_Inr:
  assumes "insert_reassessment r e hash today now db = Inr db1"
    and "ev1_id e = tq_execution r" and "ev1_case_revision e \<ge> 1"
  obtains row where "db1 = db\<lparr>tl_reassessments := tl_reassessments db @ [(execution_key r, row)]\<rparr>"
    "\<And>e'. e' = e\<lparr>ev1_state := ev1_state e', ev1_row_version := ev1_row_version e', ev1_updated_at := ev1_updated_at e'\<rparr>
       \<Longrightarrow> lineage_ok (execution_key r) e' row"
    "rows_of (execution_key r) (tl_reassessments db) = []"
proof -
  let ?row = "\<lparr>rv1_id = eq_reassessment r, rv1_execution = tq_execution r, rv1_checkpoint = tq_checkpoint r,
              rv1_advisor = tq_actor r, rv1_trigger = eq_trigger r, rv1_reference = eq_reference r,
              rv1_date = today, rv1_projection_sha256 = hash, rv1_case = ev1_case e,
              rv1_case_revision = ev1_case_revision e, rv1_decision = ev1_decision e,
              rv1_receipt = ev1_receipt e, rv1_plan = ev1_plan e, rv1_pred_execution = tq_execution r,
              rv1_pred_checkpoint = tq_checkpoint r, rv1_owner_role = ''advisor'',
              rv1_successor_status = ''pending_future_authorization'', rv1_created_at = now,
              rs_execution_version = tq_execution_version r, rs_checkpoint_version = tq_checkpoint_version r,
              rs_request_sha256 = tq_request_hash r\<rparr>"
  have f: "e' = e\<lparr>ev1_state := x, ev1_row_version := y, ev1_updated_at := z\<rparr> \<Longrightarrow>
      ev1_case e' = ev1_case e \<and> ev1_case_revision e' = ev1_case_revision e \<and> ev1_decision e' = ev1_decision e
      \<and> ev1_receipt e' = ev1_receipt e \<and> ev1_plan e' = ev1_plan e" for e' x y z by simp
  show ?thesis
  proof (rule that [of ?row])
    show "db1 = db\<lparr>tl_reassessments := tl_reassessments db @ [(execution_key r, ?row)]\<rparr>"
      "rows_of (execution_key r) (tl_reassessments db) = []"
      using assms(1) by (auto simp: insert_reassessment_def split: if_splits)
    show "lineage_ok (execution_key r) e' ?row"
      if "e' = e\<lparr>ev1_state := ev1_state e', ev1_row_version := ev1_row_version e', ev1_updated_at := ev1_updated_at e'\<rparr>" for e'
      using assms f [OF that] by (auto simp: insert_reassessment_def lineage_ok_def execution_key_def
          valid_reassessment_v1_def timeline_reassessment_v1.truncate_def split: if_splits)
  qed
qed

lemma reassess_effect:
  assumes inv: "timeline_invariant db"
    and e: "map_of (tl_executions db) (execution_key r) = Some e" and v: "valid_command r"
    and c: "current_target r e db = Inr c" "check_versions r e c = Inr ()"
    and ins: "insert_reassessment r e hash today now db = Inr db1"
    and up: "update_timeline_execution (execution_key r) (\<lambda>e'. e'\<lparr>ev1_state := TE_REASSESSMENT_REQUIRED\<rparr>) now db1 = Inr db2"
    and rec: "record_mutation (tq_org r) (timeline_key ''timeline_reassessment_request'' r)
        ''timeline_reassessment_requested'' rc db2 = Inr (db', out)"
    and rc: "rc = checkpoint_receipt r OP_REASSESS TIMELINE_REASSESSMENT_REQUESTED (eq_reassessment r)
             (tq_checkpoint_version r) now"
  defines "k \<equiv> execution_key r"
  shows "mutates k (tq_execution_version r) (timeline_key ''timeline_reassessment_request'' r) rc e
           (e\<lparr>ev1_state := TE_REASSESSMENT_REQUIRED, ev1_row_version := tq_execution_version r + 1,
              ev1_updated_at := now\<rparr>) db db'"
    and "timeline_invariant db'" and "out = Some (timeline_receipt_v1.truncate rc)"
proof -
  let ?e' = "e\<lparr>ev1_state := TE_REASSESSMENT_REQUIRED, ev1_row_version := tq_execution_version r + 1, ev1_updated_at := now\<rparr>"
  note ok = timeline_invariantD [OF inv e [folded k_def]]
  from target_facts [OF inv e c(1)] obtain i where t: "i < 4"
    "map cp_state (rows_of k (tl_checkpoints db)) = plan_states i (cp_state c)" "ev1_state e = TE_ACTIVE"
    "checkpoints_ok e (rows_of k (tl_checkpoints db))" "cp_state c \<in> OPEN_CHECKPOINTS" unfolding k_def by metis
  have id: "ev1_id e = tq_execution r" "ev1_case_revision e \<ge> 1"
    using ok by (simp_all add: timeline_ok_def k_def execution_key_def)
  obtain row where db1: "db1 = db\<lparr>tl_reassessments := tl_reassessments db @ [(k, row)]\<rparr>"
    and row: "lineage_ok k ?e' row" "rows_of k (tl_reassessments db) = []"
    by (rule insert_reassessment_Inr [OF ins id, folded k_def]) auto
  have ver: "ev1_row_version e = tq_execution_version r" using c(2) by (simp add: check_versions_Inr)
  note m = commit_mutates [OF e [folded k_def] t(3) ver, of db1 "\<lambda>e'. e'\<lparr>ev1_state := TE_REASSESSMENT_REQUIRED\<rparr>"
      now db2 "\<lambda>e'. TE_REASSESSMENT_REQUIRED" "timeline_key ''timeline_reassessment_request'' r"
      "''timeline_reassessment_requested''" rc db' out]
  have mut: "mutates k (tq_execution_version r) (timeline_key ''timeline_reassessment_request'' r) rc e ?e' db db'"
    and tables: "tl_checkpoints db' = tl_checkpoints db" "tl_attestations db' = tl_attestations db"
      "tl_verifications db' = tl_verifications db" "tl_reassessments db' = tl_reassessments db @ [(k, row)]"
    and out: "out = Some (timeline_receipt_v1.truncate rc)"
    using m up rec
    by (simp_all add: db1 k_def execution_key_def rc checkpoint_receipt_def timeline_key_def idem_key_of_def ids_of_def)
  show "mutates k (tq_execution_version r) (timeline_key ''timeline_reassessment_request'' r) rc e ?e' db db'"
    "out = Some (timeline_receipt_v1.truncate rc)" by (rule mut, rule out)
  show "timeline_invariant db'"
  proof (rule mutates_invariant [OF inv mut])
    show "checkpoints_ok ?e' (rows_of k (tl_checkpoints db'))" unfolding tables
      by (rule checkpoints_okI [OF t(4) _ t(2) _ t(5)]) (use t(1) in \<open>simp_all add: same_plan_def\<close>)
    show "valid_receipt_v1 (timeline_receipt_v1.truncate rc)"
      unfolding rc by (rule checkpoint_receipt_valid [OF v]) (use v in \<open>simp add: valid_command_def\<close>)
  qed (use ok row in \<open>simp_all add: tables timeline_ok_def\<close>)
qed

section \<open>Start\<close>

lemma start_cases:
  assumes "start_timeline_execution cat ses r fresh now db = Inr (db', out)"
  obtains (replay) prior where
      "map_of (tl_idempotency db) (start_key r) = Some prior"
      "ir_request_sha256 prior = sq_request_hash r" "db' = db" "out \<noteq> None"
      "out = receipt_json (sq_org r, ir_response_id prior) db"
  | (fresh) anchor db1 where "map_of (tl_idempotency db) (start_key r) = None"
      "sq_role r \<in> {''student'', ''parent''}"
      "map_of (plan_rows cat) (sq_org r, sq_timeline r) = Some anchor"
      "participates cat (sq_org r) (pa_case anchor) (sq_actor r) (sq_role r)"
      "pa_case anchor = sq_case r" "pa_revision anchor = sq_revision r" "sq_revision r > 0"
      "\<not> milestone_mismatch (pa_milestones anchor)"
      "\<not> list_ex (\<lambda>(k, e). fst k = sq_org r \<and> ev1_plan e = sq_timeline r) (tl_executions db)"
      "map_of (tl_executions db) (sq_org r, sq_execution r) = None"
      "insert_checkpoints (sq_org r, sq_execution r) fresh (pa_milestones anchor) now
               (db\<lparr>tl_executions := tl_executions db @ [((sq_org r, sq_execution r), started_execution r anchor now)]\<rparr>) = Inr db1"
      "record_mutation (sq_org r) (start_key r) ''timeline_execution_started''
               (started_receipt r now) db1 = Inr (db', out)"
proof -
  note u = assms [unfolded start_timeline_execution_def]
  from u have v: "sq_role r \<in> {''student'', ''parent''}" "sq_revision r > 0" by (auto split: if_splits)
  show ?thesis
  proof (cases "map_of (tl_idempotency db) (start_key r)")
    case (Some prior)
    with u show ?thesis
      by (intro replay [OF Some]) (auto simp: replay_receipt_Inr split: if_splits)
  next
    case None
    from u None obtain anchor where a: "map_of (plan_rows cat) (sq_org r, sq_timeline r) = Some anchor"
      by (cases "map_of (plan_rows cat) (sq_org r, sq_timeline r)") (auto split: if_splits)
    from u None a show ?thesis by (auto split: if_splits intro: fresh [OF None v(1) a _ _ _ v(2)])
  qed
qed

lemma milestone_match:
  assumes "\<not> milestone_mismatch ms" and "\<not> list_ex (\<lambda>m. ms_key m = None \<or> ms_due m = None) ms"
  obtains d1 d2 d3 d4 where "map (\<lambda>m. (ms_key m, ms_due m)) ms =
    [(Some ''documents'', Some d1), (Some ''application'', Some d2), (Some ''visa'', Some d3), (Some ''arrival'', Some d4)]"
proof -
  have "length ms = 4" using assms(1) by (simp add: milestone_mismatch_def)
  then obtain m1 m2 m3 m4 where ms: "ms = [m1, m2, m3, m4]" by (auto simp: length_Suc_conv eval_nat_numeral)
  show ?thesis
    by (rule that [of "the (ms_due m1)" "the (ms_due m2)" "the (ms_due m3)" "the (ms_due m4)"])
      (use assms in \<open>auto simp: ms milestone_mismatch_def MILESTONES_def\<close>)
qed

text \<open>The rows that a start inserts, seen as a list of four checkpoints.\<close>

lemma new_checkpoints_ok:
  fixes now :: timestamp
  assumes "\<not> milestone_mismatch ms" and "\<not> list_ex (\<lambda>m. ms_key m = None \<or> ms_due m = None) ms"
    and "distinct (map (fresh \<circ> fst) (enumerate 1 ms))" and "ev1_state e = TE_ACTIVE"
  defines "cs \<equiv> map (\<lambda>(i, m). new_checkpoint now i (fresh i) (the (ms_key m)) (the (ms_due m))) (enumerate 1 ms)"
  shows "checkpoints_ok e cs" and "map cp_id cs = map (fresh \<circ> fst) (enumerate 1 ms)"
    and "evidence_ok cs [] []"
proof -
  obtain d1 d2 d3 d4 where m: "map (\<lambda>m. (ms_key m, ms_due m)) ms =
    [(Some ''documents'', Some d1), (Some ''application'', Some d2), (Some ''visa'', Some d3), (Some ''arrival'', Some d4)]"
    by (rule milestone_match [OF assms(1,2)])
  then obtain m1 m2 m3 m4 where ms: "ms = [m1, m2, m3, m4]" by (auto simp: map_eq_Cons_conv)
  show ids: "map cp_id cs = map (fresh \<circ> fst) (enumerate 1 ms)"
    by (simp add: cs_def ms new_checkpoint_def)
  have st: "map cp_state cs = plan_states 0 CP_IN_PROGRESS" by (simp add: cs_def ms new_checkpoint_def)
  have "distinct (map cp_id cs)" using ids assms(3) by simp
  moreover have "map cp_ordinal cs = [1, 2, 3, 4]" "map cp_milestone cs = MILESTONES"
    "map cp_role cs = ACCOUNTABLE_ROLES" "list_all (\<lambda>c. cp_row_version c \<ge> 1) cs"
    using m by (simp_all add: cs_def ms new_checkpoint_def MILESTONES_def ACCOUNTABLE_ROLES_def)
  ultimately show "checkpoints_ok e cs"
    using st assms(4) unfolding checkpoints_ok_def
    by (intro conjI exI [of _ "0::nat"] bexI [of _ CP_IN_PROGRESS]) (simp_all add: OPEN_CHECKPOINTS_def)
  have "cp_state ` set cs \<subseteq> {CP_IN_PROGRESS, CP_PENDING}" using arg_cong [OF st, of set] by simp
  then have "cp_state c \<noteq> CP_VERIFIED" if "c \<in> set cs" for c using that by auto
  then show "evidence_ok cs [] []" by (simp add: evidence_ok_def)
qed

lemma rows_of_keyed: "rows_of k' (map (\<lambda>(i, m). (k, g i m)) xs) = (if k' = k then map (\<lambda>(i, m). g i m) xs else [])"
  by (induction xs) (auto simp: rows_of_def)

lemma start_effect:
  assumes inv: "timeline_invariant db" and "\<not> milestone_mismatch ms"
    and plan: "\<not> list_ex (\<lambda>(k', e). fst k' = fst k \<and> ev1_plan e = ev1_plan e') (tl_executions db)"
    and none: "map_of (tl_executions db) k = None"
    and e': "ev1_id e' = snd k" "ev1_state e' = TE_ACTIVE" "ev1_row_version e' = 1" "ev1_case_revision e' \<ge> 1"
    and ins: "insert_checkpoints k fresh ms now (db\<lparr>tl_executions := tl_executions db @ [(k, e')]\<rparr>) = Inr db1"
    and rec: "record_mutation (fst k) ik response rc db1 = Inr (db', out)"
    and rc: "rc1_execution rc = snd k" "ik_organization ik = fst k"
      "valid_receipt_v1 (timeline_receipt_v1.truncate rc)"
  shows "timeline_invariant db'" and "map_of (tl_executions db') k = Some e'"
    and "records_mutation k ik rc db db'" and "other_rows_same k db db'"
    and "out = Some (timeline_receipt_v1.truncate rc)"
    and "tl_executions db' = tl_executions db @ [(k, e')]"
proof -
  let ?cs = "map (\<lambda>(i, m). new_checkpoint now i (fresh i) (the (ms_key m)) (the (ms_due m))) (enumerate 1 ms)"
  let ?rows = "map (\<lambda>(i, m). (k, new_checkpoint now i (fresh i) (the (ms_key m)) (the (ms_due m)))) (enumerate 1 ms)"
  have i: "\<not> list_ex (\<lambda>m. ms_key m = None \<or> ms_due m = None) ms"
    "distinct (map (fresh \<circ> fst) (enumerate 1 ms))"
    "\<not> list_ex (\<lambda>(k', c). fst k' = fst k \<and> cp_id c \<in> set (map (fresh \<circ> fst) (enumerate 1 ms))) (tl_checkpoints db)"
    "db1 = db\<lparr>tl_executions := tl_executions db @ [(k, e')], tl_checkpoints := tl_checkpoints db @ ?rows\<rparr>"
    using ins by (auto simp: insert_checkpoints_def split: if_splits)
  note cs = new_checkpoints_ok [OF assms(2) i(1,2) e'(2), of now]
  have db': "db' = db1\<lparr>tl_receipts := tl_receipts db1 @ [((fst k, rc1_id rc), rc)],
               tl_idempotency := AList.update ik
                 \<lparr>ir_request_sha256 = rc_request_sha256 rc, ir_response_id = rc1_id rc,
                  ir_response_kind = response\<rparr> (tl_idempotency db1)\<rparr>"
    and out: "out = Some (timeline_receipt_v1.truncate rc)"
    and new: "map_of (tl_receipts db1) (fst k, rc1_id rc) = None"
    using rec by (simp_all add: record_mutation_Inr)
  show "out = Some (timeline_receipt_v1.truncate rc)" by (rule out)
  show ex: "tl_executions db' = tl_executions db @ [(k, e')]" by (simp add: db' i(4))
  show e: "map_of (tl_executions db') k = Some e'" using none by (simp add: db' i(4) map_add_def)
  show m: "records_mutation k ik rc db db'" using new rc by (auto simp: records_mutation_def db' i(4))
  show o: "other_rows_same k db db'"
    by (simp add: other_rows_same_def db' i(4) map_add_def rows_of_keyed split: option.split)
  show "timeline_invariant db'"
  proof (rule invariant_commit [OF inv m o _ _ _ e])
    have empty: "rows_of k (tl_checkpoints db) = []" "rows_of k (tl_attestations db) = []"
      "rows_of k (tl_verifications db) = []" "rows_of k (tl_reassessments db) = []" "receipts_of k db = []"
    proof -
      have "view_of k db" using inv unfolding timeline_invariant_def by blast
      with none show "rows_of k (tl_checkpoints db) = []" "rows_of k (tl_attestations db) = []"
        "rows_of k (tl_verifications db) = []" "rows_of k (tl_reassessments db) = []" "receipts_of k db = []"
        by (simp_all add: view_of_def)
    qed
    show "timeline_ok k e' (rows_of k (tl_checkpoints db')) (rows_of k (tl_attestations db'))
          (rows_of k (tl_verifications db')) (rows_of k (tl_reassessments db')) (receipts_of k db @ [rc])"
      using cs(1,3) e' rc(3) by (simp add: empty timeline_ok_def db' i(4) rows_of_keyed)
    have d: "distinct (map (\<lambda>(k, e). (fst k, ev1_plan e)) (tl_executions db))" "distinct (map fst (tl_executions db))"
      "distinct (ids_of db)" using inv by (simp_all add: timeline_invariant_def)
    show "distinct (map (\<lambda>(k, e). (fst k, ev1_plan e)) (tl_executions db'))"
      using d(1) plan by (auto simp: ex list_ex_iff)
    show "distinct (map fst (tl_executions db'))" using d(2) none by (simp add: ex map_of_eq_None_iff)
    have "ids_of db' = ids_of db @ map (Pair (fst k)) (map (fresh \<circ> fst) (enumerate 1 ms))"
      by (simp add: ids_of_def db' i(4) comp_def case_prod_unfold new_checkpoint_def)
    then show "distinct (ids_of db')"
      using d(3) i(2,3) by (auto simp: distinct_map inj_on_def ids_of_def list_ex_iff)
  qed
qed

end
