(* ===== verification/Timeline_System.thy ===== *)
theory Timeline_System
  imports Timeline_Effects
begin

text \<open>
  The timeline authority as a step relation: any session may run any of its four commands at
  any time, with whatever plans and participants the catalog then holds, and other components write their own records to the shared idempotency table.
  Every reachable database satisfies the invariant, and what it holds only grows.
\<close>

section \<open>One command\<close>

datatype timeline_command =
    Start_command start_request
  | Attest_command attest_request
  | Verify_command verify_request
  | Reassess_command reassess_request

fun run_command ::
  "timeline_catalog \<Rightarrow> session \<Rightarrow> (nat \<Rightarrow> uuid) \<Rightarrow> date \<Rightarrow> timestamp \<Rightarrow> timeline_command \<Rightarrow> timeline_db
     \<Rightarrow> sql_error + timeline_db \<times> timeline_receipt_v1 option" where
  "run_command cat ses fresh today now (Start_command r) db = start_timeline_execution cat ses r fresh now db"
| "run_command cat ses fresh today now (Attest_command r) db = attest_timeline_checkpoint cat ses r now db"
| "run_command cat ses fresh today now (Verify_command r) db = verify_timeline_checkpoint cat ses r now db"
| "run_command cat ses fresh today now (Reassess_command r) db = request_timeline_reassessment cat ses r today now db"

fun command_key :: "timeline_command \<Rightarrow> idem_key" where
  "command_key (Start_command r) = start_key r"
| "command_key (Attest_command r) = timeline_key ''timeline_checkpoint_attest'' r"
| "command_key (Verify_command r) = timeline_key ''timeline_checkpoint_verify'' r"
| "command_key (Reassess_command r) = timeline_key ''timeline_reassessment_request'' r"

fun command_response :: "timeline_command \<Rightarrow> string" where
  "command_response (Start_command r) = ''timeline_execution_started''"
| "command_response (Attest_command r) = ''timeline_checkpoint_attested''"
| "command_response (Verify_command r) = ''timeline_checkpoint_verified''"
| "command_response (Reassess_command r) = ''timeline_reassessment_requested''"

fun command_hash :: "timeline_command \<Rightarrow> sha" where
  "command_hash (Start_command r) = sq_request_hash r"
| "command_hash (Attest_command r) = tq_request_hash r"
| "command_hash (Verify_command r) = tq_request_hash r"
| "command_hash (Reassess_command r) = tq_request_hash r"

fun command_target :: "timeline_command \<Rightarrow> row_key" where
  "command_target (Start_command r) = (sq_org r, sq_execution r)"
| "command_target (Attest_command r) = execution_key r"
| "command_target (Verify_command r) = execution_key r"
| "command_target (Reassess_command r) = execution_key r"

text \<open>The version that a command on an existing execution expects.\<close>

fun expected_version :: "timeline_command \<Rightarrow> int option" where
  "expected_version (Start_command r) = None"
| "expected_version (Attest_command r) = Some (tq_execution_version r)"
| "expected_version (Verify_command r) = Some (tq_execution_version r)"
| "expected_version (Reassess_command r) = Some (tq_execution_version r)"

text \<open>What a command leaves behind when it is not a replay.\<close>

definition performs :: "timeline_command \<Rightarrow> timeline_receipt \<Rightarrow> timeline_db \<Rightarrow> timeline_db \<Rightarrow> bool" where
  "performs cmd rc db db' \<longleftrightarrow>
     map_of (tl_idempotency db) (command_key cmd) = None
     \<and> map_of (tl_idempotency db') (command_key cmd) = Some \<lparr>ir_request_sha256 = command_hash cmd,
          ir_response_id = rc1_id rc, ir_response_kind = command_response cmd\<rparr>
     \<and> records_mutation (command_target cmd) (command_key cmd) rc db db'
     \<and> other_rows_same (command_target cmd) db db'
     \<and> (case expected_version cmd of
          None \<Rightarrow> map_of (tl_executions db) (command_target cmd) = None
            \<and> map_of (tl_executions db') (command_target cmd) \<noteq> None
        | Some ver \<Rightarrow> \<exists>e e'. mutates (command_target cmd) ver (command_key cmd) rc e e' db db')"

lemma record_mutation_record:
  "record_mutation org ik response rc db = Inr (db', out) \<Longrightarrow>
     map_of (tl_idempotency db') ik = Some \<lparr>ir_request_sha256 = rc_request_sha256 rc, ir_response_id = rc1_id rc,
        ir_response_kind = response\<rparr>"
  by (simp add: record_mutation_Inr)

lemma mutates_parts:
  "mutates k ver ik rc e e' db db' \<Longrightarrow> records_mutation k ik rc db db'"
  "mutates k ver ik rc e e' db db' \<Longrightarrow> other_rows_same k db db'"
  by (simp_all add: mutates_def)

lemma run_cases:
  assumes inv: "timeline_invariant db" and run: "run_command cat ses fresh today now cmd db = Inr (db', out)"
  obtains (replay) prior where "map_of (tl_idempotency db) (command_key cmd) = Some prior"
      "ir_request_sha256 prior = command_hash cmd" "db' = db"
      "out = receipt_json (ik_organization (command_key cmd), ir_response_id prior) db"
  | (performed) rc where "performs cmd rc db db'" "timeline_invariant db'"
      "out = Some (timeline_receipt_v1.truncate rc)"
proof (cases cmd)
  case (Start_command r)
  from run [unfolded Start_command run_command.simps] show ?thesis
  proof (cases rule: start_cases)
    case (replay prior)
    then show ?thesis using that(1) Start_command by (simp add: start_key_def idem_key_of_def)
  next
    case (fresh anchor db1)
    let ?k = "(sq_org r, sq_execution r)"
    have ik: "ik_organization (start_key r) = sq_org r" by (simp add: start_key_def idem_key_of_def)
    have rec: "record_mutation (fst ?k) (start_key r) ''timeline_execution_started'' (started_receipt r now) db1
        = Inr (db', out)" using fresh(12) by simp
    note eff = start_effect [OF inv fresh(8) _ fresh(10) _ _ _ _ fresh(11) rec]
    have "timeline_invariant db'" "map_of (tl_executions db') ?k \<noteq> None"
      "records_mutation ?k (start_key r) (started_receipt r now) db db'" "other_rows_same ?k db db'"
      "out = Some (timeline_receipt_v1.truncate (started_receipt r now))"
      using eff fresh(6,7,9) ik by (simp_all add: started_receipt_def started_execution_def valid_receipt_v1_def
          timeline_receipt_v1.truncate_def positive_option_def)
    with fresh(1,10) record_mutation_record [OF fresh(12)] Start_command show ?thesis
      by (intro that(2) [of "started_receipt r now"]) (simp_all add: performs_def started_receipt_def)
  qed
next
  case (Attest_command r)
  from run [unfolded Attest_command run_command.simps] show ?thesis
  proof (cases rule: attest_cases)
    case (replay e prior)
    then show ?thesis using that(1) Attest_command by (simp add: timeline_key_def idem_key_of_def)
  next
    case (fresh e c db1 db2 db3)
    note eff = attest_effect [OF inv fresh(1,3,4,5,6,8,10-14) refl]
    show ?thesis
      by (rule that(2)) (use eff fresh(2) record_mutation_record [OF fresh(14)] mutates_parts [OF eff(1)] Attest_command in
          \<open>auto simp: performs_def checkpoint_receipt_def\<close>)
  qed
next
  case (Verify_command r)
  from run [unfolded Verify_command run_command.simps] show ?thesis
  proof (cases rule: verify_cases)
    case (replay e prior)
    then show ?thesis using that(1) Verify_command by (simp add: timeline_key_def idem_key_of_def)
  next
    case (fresh e c a db1 db2)
    note eff = verify_effect [OF inv fresh(1,3,5,6,8-11,13-16) refl]
    show ?thesis
      by (rule that(2)) (use eff fresh(2) record_mutation_record [OF fresh(16)] mutates_parts [OF eff(1)] Verify_command in
          \<open>auto simp: performs_def checkpoint_receipt_def\<close>)
  qed
next
  case (Reassess_command r)
  from run [unfolded Reassess_command run_command.simps] show ?thesis
  proof (cases rule: reassess_cases)
    case (replay e prior)
    then show ?thesis using that(1) Reassess_command by (simp add: timeline_key_def idem_key_of_def)
  next
    case (fresh e c hash db1 db2)
    note eff = reassess_effect [OF inv fresh(1,3,5,6,9-11) refl]
    show ?thesis
      by (rule that(2)) (use eff fresh(2) record_mutation_record [OF fresh(11)] mutates_parts [OF eff(1)] Reassess_command in
          \<open>auto simp: performs_def checkpoint_receipt_def\<close>)
  qed
qed

section \<open>Idempotency\<close>

text \<open>What a command checks before it looks at the stored response.\<close>

definition checkpoint_guard :: "session \<Rightarrow> string set \<Rightarrow> 'a timeline_request_scheme \<Rightarrow> bool" where
  "checkpoint_guard ses roles r \<longleftrightarrow> tq_role r \<in> roles \<and> valid_command r
     \<and> is_ok (assert_m3b_context ses (tq_org r) (tq_actor r) (tq_role r))"

fun command_guard :: "session \<Rightarrow> timeline_command \<Rightarrow> bool" where
  "command_guard ses (Start_command r) \<longleftrightarrow>
     sq_role r \<in> {''student'', ''parent''} \<and> sq_revision r > 0 \<and> is_sha256 (sq_key_hash r)
     \<and> is_sha256 (sq_request_hash r) \<and> is_ok (assert_m3b_context ses (sq_org r) (sq_actor r) (sq_role r))"
| "command_guard ses (Attest_command r) \<longleftrightarrow> checkpoint_guard ses {''student'', ''parent''} r"
| "command_guard ses (Verify_command r) \<longleftrightarrow> checkpoint_guard ses {''advisor''} r"
| "command_guard ses (Reassess_command r) \<longleftrightarrow> checkpoint_guard ses {''advisor''} r"

definition command_ready :: "session \<Rightarrow> timeline_command \<Rightarrow> timeline_db \<Rightarrow> bool" where
  "command_ready ses cmd db \<longleftrightarrow> command_guard ses cmd
     \<and> (expected_version cmd \<noteq> None \<longrightarrow> map_of (tl_executions db) (command_target cmd) \<noteq> None)
     \<and> (\<forall>rec. map_of (tl_idempotency db) (command_key cmd) = Some rec \<longrightarrow>
          ir_response_kind rec = command_response cmd
          \<and> (expected_version cmd = None \<longrightarrow>
               receipt_json (ik_organization (command_key cmd), ir_response_id rec) db \<noteq> None))"

definition command_recall :: "timeline_command \<Rightarrow> timeline_db \<Rightarrow> idem_record option" where
  "command_recall cmd db = map_option idem_record.truncate (map_of (tl_idempotency db) (command_key cmd))"

lemma run_prior:
  assumes "command_ready ses cmd db" and "map_of (tl_idempotency db) (command_key cmd) = Some prior"
  shows "run_command cat ses fresh today now cmd db =
    (if ir_request_sha256 prior = command_hash cmd
     then Inr (db, receipt_json (ik_organization (command_key cmd), ir_response_id prior) db) else Inl NV008)"
  using assms
  by (cases cmd) (auto simp: command_ready_def checkpoint_guard_def is_ok_iff replay_receipt_def timeline_key_def
      start_key_def idem_key_of_def start_timeline_execution_def attest_timeline_checkpoint_def
      verify_timeline_checkpoint_def request_timeline_reassessment_def split: option.splits if_splits)

text \<open>The statements of a command keep the set of executions.\<close>

lemma executions_kept:
  "update_checkpoints P f db = Inr db' \<Longrightarrow> tl_executions db' = tl_executions db"
  "insert_attestation a now db = Inr db' \<Longrightarrow> tl_executions db' = tl_executions db"
  "insert_verification v now db = Inr db' \<Longrightarrow> tl_executions db' = tl_executions db"
  "insert_reassessment r e hash today now db = Inr db' \<Longrightarrow> tl_executions db' = tl_executions db"
  "record_mutation org ik response rc db = Inr (db', out) \<Longrightarrow> tl_executions db' = tl_executions db"
  by (auto simp: update_checkpoints_def insert_attestation_def insert_verification_def insert_reassessment_def
      record_mutation_Inr split: if_splits)

lemma execution_kept:
  "update_timeline_execution k f now db = Inr db' \<Longrightarrow> map_of (tl_executions db') k' = None \<longleftrightarrow> map_of (tl_executions db) k' = None"
  using update_timeline_execution_rows(2) by (metis map_of_eq_None_iff set_map)

lemma apply_verification_kept:
  assumes "apply_verification r c now db = Inr db'"
  shows "map_of (tl_executions db') k' = None \<longleftrightarrow> map_of (tl_executions db) k' = None"
  using assms by (auto simp: apply_verification_def Let_def execution_kept executions_kept(1) split: if_splits)

lemma run_guard:
  assumes "run_command cat ses fresh today now cmd db = Inr (db', out)"
  shows "command_guard ses cmd"
    and "expected_version cmd \<noteq> None \<Longrightarrow> map_of (tl_executions db) (command_target cmd) \<noteq> None"
  using assms
  by (cases cmd; auto simp: checkpoint_guard_def is_ok_iff
      start_timeline_execution_def attest_timeline_checkpoint_def
      verify_timeline_checkpoint_def request_timeline_reassessment_def split: option.splits if_splits)+

lemma record_mutation_receipt:
  "record_mutation org ik response rc db = Inr (db', out) \<Longrightarrow> receipt_json (org, rc1_id rc) db' \<noteq> None"
  by (auto simp: record_mutation_Inr receipt_json_def map_add_def)

text \<open>A successful command was ready, and leaves its own record.\<close>

lemma run_recorded:
  assumes run: "run_command cat ses fresh today now cmd db = Inr (db', out)"
  shows "command_ready ses cmd db \<and> command_ready ses cmd db'
    \<and> (\<exists>rec. map_of (tl_idempotency db') (command_key cmd) = Some rec \<and> ir_request_sha256 rec = command_hash cmd)"
proof -
  note g = run_guard [OF run]
  have new: ?thesis
    if "map_of (tl_idempotency db) (command_key cmd) = None"
      "expected_version cmd \<noteq> None \<Longrightarrow> map_of (tl_executions db') (command_target cmd) \<noteq> None"
      "map_of (tl_idempotency db') (command_key cmd) = Some \<lparr>ir_request_sha256 = command_hash cmd,
         ir_response_id = i, ir_response_kind = command_response cmd\<rparr>"
      "receipt_json (ik_organization (command_key cmd), i) db' \<noteq> None" for i
    using g that unfolding command_ready_def by auto
  have old: ?thesis
    if "map_of (tl_idempotency db) (command_key cmd) = Some prior" "ir_request_sha256 prior = command_hash cmd"
      "ir_response_kind prior = command_response cmd" "db' = db"
      "expected_version cmd = None \<Longrightarrow> receipt_json (ik_organization (command_key cmd), ir_response_id prior) db \<noteq> None" for prior
    using g that unfolding command_ready_def by auto
  show ?thesis
  proof (cases cmd)
    case (Start_command r)
    show ?thesis
    proof (cases "map_of (tl_idempotency db) (start_key r)")
      case (Some prior)
      then show ?thesis using run Start_command
        by (intro old [of prior]) (auto simp: start_timeline_execution_def replay_receipt_Inr start_key_def idem_key_of_def
            split: if_splits)
    next
      case None
      from run [unfolded Start_command run_command.simps] show ?thesis
      proof (cases rule: start_cases)
        case (fresh anchor db1)
        show ?thesis by (rule new [of "sq_receipt r"])
          (use None fresh(12) Start_command in \<open>auto simp: record_mutation_Inr started_receipt_def start_key_def
             idem_key_of_def receipt_json_def map_add_def\<close>)
      qed (use None in simp)
    qed
  next
    case (Attest_command r)
    from run [unfolded Attest_command run_command.simps] show ?thesis
    proof (cases rule: attest_cases)
      case (replay e prior)
      then show ?thesis using run Attest_command
        by (intro old [of prior]) (auto simp: attest_timeline_checkpoint_def replay_receipt_Inr split: if_splits)
    next
      case (fresh e c db1 db2 db3)
      show ?thesis by (rule new [of "tq_receipt r"])
        (use fresh(1,2) record_mutation_record [OF fresh(14)] record_mutation_receipt [OF fresh(14)]
           executions_kept(5) [OF fresh(14)] execution_kept [OF fresh(13)] executions_kept(1) [OF fresh(12)]
           executions_kept(2) [OF fresh(11)]
         in \<open>simp_all add: Attest_command checkpoint_receipt_def timeline_key_def idem_key_of_def\<close>)
    qed
  next
    case (Verify_command r)
    from run [unfolded Verify_command run_command.simps] show ?thesis
    proof (cases rule: verify_cases)
      case (replay e prior)
      then show ?thesis using run Verify_command
        by (intro old [of prior]) (auto simp: verify_timeline_checkpoint_def replay_receipt_Inr split: if_splits)
    next
      case (fresh e c a db1 db2)
      show ?thesis by (rule new [of "tq_receipt r"])
        (use fresh(1,2) record_mutation_record [OF fresh(16)] record_mutation_receipt [OF fresh(16)]
           executions_kept(5) [OF fresh(16)] apply_verification_kept [OF fresh(15)] executions_kept(3) [OF fresh(14)]
         in \<open>simp_all add: Verify_command checkpoint_receipt_def timeline_key_def idem_key_of_def\<close>)
    qed
  next
    case (Reassess_command r)
    from run [unfolded Reassess_command run_command.simps] show ?thesis
    proof (cases rule: reassess_cases)
      case (replay e prior)
      then show ?thesis using run Reassess_command
        by (intro old [of prior]) (auto simp: request_timeline_reassessment_def replay_receipt_Inr split: if_splits)
    next
      case (fresh e c hash db1 db2)
      show ?thesis by (rule new [of "tq_receipt r"])
        (use fresh(1,2) record_mutation_record [OF fresh(11)] record_mutation_receipt [OF fresh(11)]
           executions_kept(5) [OF fresh(11)] execution_kept [OF fresh(10)] executions_kept(4) [OF fresh(9)]
         in \<open>simp_all add: Reassess_command checkpoint_receipt_def timeline_key_def idem_key_of_def\<close>)
    qed
  qed
qed

interpretation timeline: idempotent_command command_recall "run_command cat ses fresh today now" command_hash
  "command_ready ses" "\<lambda>cmd i db. receipt_json (ik_organization (command_key cmd), i) db" NV008
  for cat ses fresh today now
proof
  fix cmd db rec
  assume "command_ready ses cmd db" "command_recall cmd db = Some rec"
  then obtain prior where "map_of (tl_idempotency db) (command_key cmd) = Some prior"
    "ir_request_sha256 rec = ir_request_sha256 prior" "ir_response_id rec = ir_response_id prior"
    by (auto simp: command_recall_def idem_record.truncate_def)
  with run_prior [OF \<open>command_ready ses cmd db\<close> this(1)]
  show "ir_request_sha256 rec = command_hash cmd \<Longrightarrow> run_command cat ses fresh today now cmd db
      = Inr (db, receipt_json (ik_organization (command_key cmd), ir_response_id rec) db)"
    "ir_request_sha256 rec \<noteq> command_hash cmd \<Longrightarrow> run_command cat ses fresh today now cmd db = Inl NV008"
    by simp_all
next
  fix cmd db db' out
  assume "run_command cat ses fresh today now cmd db = Inr (db', out)"
  from run_recorded [OF this] show "command_ready ses cmd db \<and> command_ready ses cmd db'
      \<and> (\<exists>rec. command_recall cmd db' = Some rec \<and> ir_request_sha256 rec = command_hash cmd)"
    by (auto simp: command_recall_def idem_record.truncate_def)
qed

section \<open>The system\<close>

inductive timeline_step :: "timeline_db \<Rightarrow> timeline_db \<Rightarrow> bool" where
  command: "run_command cat ses fresh today now cmd db = Inr (db', out) \<Longrightarrow> timeline_step db db'"
| other_record: "ik_operation ik \<notin> TIMELINE_OPERATIONS \<Longrightarrow>
     timeline_step db (db\<lparr>tl_idempotency := AList.update ik rec (tl_idempotency db)\<rparr>)"

definition timeline_reachable :: "timeline_db \<Rightarrow> bool" where
  "timeline_reachable db \<longleftrightarrow> timeline_step\<^sup>*\<^sup>* empty_timeline_db db"

definition live_timeline_step :: "timeline_db \<Rightarrow> timeline_db \<Rightarrow> bool" where
  "live_timeline_step db db' \<longleftrightarrow> timeline_reachable db \<and> timeline_step db db'"

lemma invariant_other_record:
  assumes "timeline_invariant db" and "ik_operation ik \<notin> TIMELINE_OPERATIONS"
  shows "timeline_invariant (db\<lparr>tl_idempotency := AList.update ik rec (tl_idempotency db)\<rparr>)"
proof -
  have "view_of k (db\<lparr>tl_idempotency := x\<rparr>) = view_of k db" for k x
    by (simp add: view_of_def receipts_of_def cong: option.case_cong)
  with assms show ?thesis by (simp add: timeline_invariant_def records_ok_def ids_of_def)
qed

lemma timeline_step_invariant:
  assumes "timeline_step db db'" and "timeline_invariant db"
  shows "timeline_invariant db'"
  using assms
proof cases
  case (command cat ses fresh today now cmd out)
  from run_cases [OF assms(2) this] show ?thesis by cases (use assms(2) in simp_all)
qed (use assms(2) invariant_other_record in blast)

lemma timeline_reachable_invariant: "timeline_reachable db \<Longrightarrow> timeline_invariant db"
  unfolding timeline_reachable_def
  by (induction rule: rtranclp_induct) (auto simp: timeline_invariant_empty intro: timeline_step_invariant)

lemma timeline_reachable_steps:
  "timeline_reachable db \<Longrightarrow> timeline_step\<^sup>*\<^sup>* db db' \<Longrightarrow> timeline_reachable db'"
  by (simp add: timeline_reachable_def)

lemma live_timeline_steps:
  assumes "timeline_reachable db" and "timeline_step\<^sup>*\<^sup>* db db'"
  shows "live_timeline_step\<^sup>*\<^sup>* db db'"
  using assms(2)
proof (induction rule: rtranclp_induct)
  case (step db1 db2)
  then have "live_timeline_step db1 db2"
    using timeline_reachable_steps [OF assms(1)] by (simp add: live_timeline_step_def)
  with step show ?case by simp
qed simp

interpretation receipt_log: growing_log live_timeline_step tl_receipts
proof
  fix db db' assume live: "live_timeline_step db db'"
  then have "timeline_invariant db" "timeline_step db db'"
    using timeline_reachable_invariant by (auto simp: live_timeline_step_def)
  from this(2) show "\<exists>es. tl_receipts db' = tl_receipts db @ es"
  proof cases
    case (command cat ses fresh today now cmd out)
    from run_cases [OF \<open>timeline_invariant db\<close> this] show ?thesis
      by cases (auto simp: performs_def records_mutation_def)
  qed simp
qed

section \<open>What a step keeps\<close>

definition rows_at :: "row_key \<Rightarrow> timeline_db \<Rightarrow> timeline_checkpoint list \<times> timeline_attestation list
    \<times> timeline_verification list \<times> timeline_reassessment list \<times> timeline_receipt list" where
  "rows_at k db = (rows_of k (tl_checkpoints db), rows_of k (tl_attestations db), rows_of k (tl_verifications db),
     rows_of k (tl_reassessments db), receipts_of k db)"

text \<open>An execution stays as it is with all its rows, or it was active and has a later version.\<close>

definition timeline_grows :: "timeline_db \<Rightarrow> timeline_db \<Rightarrow> bool" where
  "timeline_grows db db' \<longleftrightarrow>
     (\<forall>k e. map_of (tl_executions db) k = Some e \<longrightarrow>
        map_of (tl_executions db') k = Some e \<and> rows_at k db' = rows_at k db
        \<or> ev1_state e = TE_ACTIVE
          \<and> (\<exists>e'. map_of (tl_executions db') k = Some e' \<and> ev1_row_version e < ev1_row_version e'))
     \<and> (\<forall>ik rec. ik_operation ik \<in> TIMELINE_OPERATIONS \<longrightarrow> map_of (tl_idempotency db) ik = Some rec \<longrightarrow>
          map_of (tl_idempotency db') ik = Some rec)"

lemma timeline_grows_refl [simp]: "timeline_grows db db"
  by (simp add: timeline_grows_def)

lemma timeline_growsD:
  assumes "timeline_grows db db'" and "map_of (tl_executions db) k = Some e"
  shows "map_of (tl_executions db') k = Some e \<and> rows_at k db' = rows_at k db
        \<or> ev1_state e = TE_ACTIVE
          \<and> (\<exists>e'. map_of (tl_executions db') k = Some e' \<and> ev1_row_version e < ev1_row_version e')"
  using assms unfolding timeline_grows_def by (simp del: split_paired_All)

lemma timeline_grows_trans:
  assumes "timeline_grows db db1" and "timeline_grows db1 db2"
  shows "timeline_grows db db2"
  unfolding timeline_grows_def
proof (intro conjI allI impI)
  fix k e assume e: "map_of (tl_executions db) k = Some e"
  from timeline_growsD [OF assms(1) e] consider
      "map_of (tl_executions db1) k = Some e" "rows_at k db1 = rows_at k db"
    | e1 where "ev1_state e = TE_ACTIVE" "map_of (tl_executions db1) k = Some e1" "ev1_row_version e < ev1_row_version e1"
    by blast
  then show "map_of (tl_executions db2) k = Some e \<and> rows_at k db2 = rows_at k db
        \<or> ev1_state e = TE_ACTIVE
          \<and> (\<exists>e'. map_of (tl_executions db2) k = Some e' \<and> ev1_row_version e < ev1_row_version e')"
  proof cases
    case 1
    with timeline_growsD [OF assms(2) 1(1)] show ?thesis by simp
  next
    case 2
    with timeline_growsD [OF assms(2) 2(2)] show ?thesis by fastforce
  qed
next
  fix ik rec assume "ik_operation ik \<in> TIMELINE_OPERATIONS" "map_of (tl_idempotency db) ik = Some rec"
  with assms show "map_of (tl_idempotency db2) ik = Some rec" by (simp add: timeline_grows_def)
qed

lemma other_rows_sameD:
  assumes "other_rows_same k db db'" and "k' \<noteq> k"
  shows "map_of (tl_executions db') k' = map_of (tl_executions db) k'"
    and "rows_of k' (tl_checkpoints db') = rows_of k' (tl_checkpoints db)"
    and "rows_of k' (tl_attestations db') = rows_of k' (tl_attestations db)"
    and "rows_of k' (tl_verifications db') = rows_of k' (tl_verifications db)"
    and "rows_of k' (tl_reassessments db') = rows_of k' (tl_reassessments db)"
  using assms unfolding other_rows_same_def by blast+

lemma performs_grows:
  assumes "performs cmd rc db db'"
  shows "timeline_grows db db'"
  unfolding timeline_grows_def
proof (intro conjI allI impI)
  fix k e assume e: "map_of (tl_executions db) k = Some e"
  show "map_of (tl_executions db') k = Some e \<and> rows_at k db' = rows_at k db
        \<or> ev1_state e = TE_ACTIVE
          \<and> (\<exists>e'. map_of (tl_executions db') k = Some e' \<and> ev1_row_version e < ev1_row_version e')"
  proof (cases "k = command_target cmd")
    case True
    with assms e obtain ver e' where m: "mutates k ver (command_key cmd) rc e e' db db'"
      by (cases "expected_version cmd") (auto simp: performs_def mutates_def)
    then have "ev1_row_version e' = ev1_row_version e + 1" unfolding mutates_def
      by (metis timeline_execution_v1.select_convs timeline_execution_v1.surjective
          timeline_execution_v1.update_convs)
    with m show ?thesis by (auto simp: mutates_def)
  next
    case False
    have "receipts_of k db' = receipts_of k db @ (if k = command_target cmd then [rc] else [])"
      using assms by (intro receipts_of_append) (auto simp: performs_def records_mutation_def)
    moreover have "other_rows_same (command_target cmd) db db'" using assms by (simp add: performs_def)
    ultimately show ?thesis using e other_rows_sameD [OF _ False] False by (simp add: rows_at_def)
  qed
next
  fix ik rec assume "map_of (tl_idempotency db) ik = Some rec"
  with assms show "map_of (tl_idempotency db') ik = Some rec"
    by (auto simp: performs_def records_mutation_def)
qed

lemma timeline_step_grows:
  assumes "timeline_step db db'" and "timeline_invariant db"
  shows "timeline_grows db db'"
  using assms(1)
proof cases
  case (command cat ses fresh today now cmd out)
  from run_cases [OF assms(2) this] show ?thesis by cases (simp_all add: performs_grows)
qed (auto simp: timeline_grows_def rows_at_def receipts_of_def)

lemma timeline_steps_grow:
  assumes "timeline_invariant db" and "timeline_step\<^sup>*\<^sup>* db db'"
  shows "timeline_grows db db' \<and> timeline_invariant db'"
  using assms(2)
proof (induction rule: rtranclp_induct)
  case (step db1 db2)
  with timeline_step_invariant [OF step(2)] timeline_grows_trans [OF _ timeline_step_grows [OF step(2)]]
  show ?case by blast
qed (simp add: assms(1))

end
