(* ===== verification/Timeline_Consistency.thy ===== *)
theory Timeline_Consistency
  imports Timeline_System
begin

text \<open>
  The projection of an execution under the invariant: it passes the validators of its
  Python model, and the current action that the database writes is the one the policy
  derives from it.
\<close>

section \<open>Order of the activity\<close>

lemma activity_order_newest: "activity_order (take n (newest_first items)) = take n (newest_first items)"
proof -
  let ?f = "\<lambda>i. (ai_created_at i, ai_durable_id i)"
  let ?s = "sort_key ?f items"
  have r: "rev (take n (newest_first items)) = drop (length ?s - n) ?s"
    by (simp add: newest_first_def rev_take)
  have "sorted (map ?f (drop (length ?s - n) ?s))"
    using sorted_sort_key [of ?f items] by (simp add: drop_map [symmetric] sorted_wrt_drop)
  then show ?thesis unfolding activity_order_def r
    by (cases "n \<le> length items") (simp_all add: sort_key_id_if_sorted newest_first_def rev_drop)
qed

section \<open>The fields of a view\<close>

lemma checkpoints_sorted:
  assumes "checkpoints_ok e cs"
  shows "sort_key cp_ordinal cs = cs"
  by (rule sort_key_id_if_sorted) (use assms in \<open>simp add: checkpoints_ok_def\<close>)

lemma valid_checkpoint_json:
  assumes "checkpoints_ok e cs" and "c \<in> set cs"
  shows "valid_checkpoint_v1 (checkpoint_json i today c)"
proof -
  obtain c1 c2 c3 c4 where "cs = [c1, c2, c3, c4]" "map cp_ordinal cs = [1, 2, 3, 4]"
    "map cp_milestone cs = MILESTONES" "map cp_role cs = ACCOUNTABLE_ROLES"
    by (rule four_checkpoints [OF assms(1)])
  moreover have "cp_row_version c \<ge> 1" using assms by (auto simp: checkpoints_ok_def list_all_iff)
  ultimately show ?thesis using assms(2)
    by (auto simp: valid_checkpoint_v1_def checkpoint_json_def MILESTONES_def ACCOUNTABLE_ROLES_def)
qed

lemma last_of_sorted: "xs \<noteq> [] \<Longrightarrow> last (sort_key f xs) \<in> set xs"
  by (metis last_in_set set_sort length_0_conv length_sort)

lemma open_states: "s \<in> {CP_IN_PROGRESS, CP_AWAITING_ADVISOR, CP_BLOCKED} \<longleftrightarrow> s \<notin> {CP_PENDING, CP_VERIFIED}"
  by (cases s) simp_all

text \<open>Whether the numbers of checkpoints fit the state of the execution.\<close>

definition counts_fit :: "timeline_execution_v1 \<Rightarrow> nat \<Rightarrow> bool" where
  "counts_fit e n \<longleftrightarrow> \<not> (ev1_state e = TE_ACTIVE \<and> n \<noteq> 1 \<or> ev1_state e = TE_COMPLETED \<and> n \<noteq> 0
     \<or> ev1_state e = TE_REASSESSMENT_REQUIRED \<and> n > 1)"

lemma invariant_counts_fit:
  assumes "checkpoints_ok e cs"
  shows "counts_fit e (length (filter (\<lambda>c. cp_state c \<notin> {CP_PENDING, CP_VERIFIED}) cs))"
proof -
  obtain c1 c2 c3 c4 where cs: "cs = [c1, c2, c3, c4]" by (rule four_checkpoints [OF assms])
  obtain i cur where i: "i \<le> 4" "cur \<in> OPEN_CHECKPOINTS" "map cp_state cs = plan_states i cur"
    "ev1_state e = TE_COMPLETED \<longleftrightarrow> i = 4" using assms by (auto simp: checkpoints_ok_def)
  show ?thesis using i unfolding nat_le_4 by (elim disjE) (auto simp: cs counts_fit_def OPEN_CHECKPOINTS_def)
qed


lemma view_fields_valid:
  assumes ok: "timeline_ok k e (rows_of k (tl_checkpoints db)) (rows_of k (tl_attestations db))
          (rows_of k (tl_verifications db)) (rows_of k (tl_reassessments db)) (receipts_of k db)"
  shows "valid_view_fields (read_view k e today db)"
proof -
  let ?cs = "rows_of k (tl_checkpoints db)"
  have cs: "checkpoints_ok e ?cs" and ev: "evidence_ok ?cs (rows_of k (tl_attestations db)) (rows_of k (tl_verifications db))"
    and ver: "ev1_row_version e > 0" "ev1_case_revision e > 0"
    using ok by (auto simp: timeline_ok_def)
  note valid = valid_checkpoint_json [OF cs, of _ "snd k" today]
  have cur: "current_checkpoints k db = c # rest \<Longrightarrow> valid_checkpoint_v1 (checkpoint_json (snd k) today c)" for c rest
    by (rule valid) (metis current_checkpoints_def filter_is_subset list.set_intros(1) subsetD)
  have fit: "counts_fit e (length (current_checkpoints k db))"
    unfolding current_checkpoints_def by (rule invariant_counts_fit [OF cs])
  have at: "a \<in> set (rows_of k (tl_attestations db)) \<Longrightarrow> valid_attestation_v1 (timeline_attestation_v1.truncate a)" for a
    using ev by (simp add: evidence_ok_def)
  have vf: "v \<in> set (rows_of k (tl_verifications db)) \<Longrightarrow> valid_verification_v1 (timeline_verification_v1.truncate v)" for v
    using ev by (simp add: evidence_ok_def)
  have rs: "rows_of k (tl_reassessments db) = r # rest \<Longrightarrow> valid_reassessment_v1 (timeline_reassessment_v1.truncate r)" for r rest
    using ok by (auto simp: timeline_ok_def lineage_ok_def split: if_splits)
  have act: "valid_current_action (current_action_json e
      (case current_checkpoints k db of [] \<Rightarrow> None | c # _ \<Rightarrow> Some (checkpoint_json (snd k) today c)))"
    using fit ver cur
    by (cases "current_checkpoints k db"; cases "ev1_state e")
      (auto simp: counts_fit_def valid_current_action_def current_action_json_def Let_def positive_option_def
         valid_checkpoint_v1_def)
  show ?thesis unfolding valid_view_fields_def read_view_def Let_def
    using ver act at vf rs cur valid
    by (auto simp: valid_execution_v1_def list_all_iff last_of_sorted latest_attestation_def split: list.split)
qed

lemma view_bounded:
  assumes ok: "timeline_ok k e (rows_of k (tl_checkpoints db)) (rows_of k (tl_attestations db))
          (rows_of k (tl_verifications db)) (rows_of k (tl_reassessments db)) (receipts_of k db)"
  shows "bounded_activity (read_view k e today db) = Inr (read_view k e today db)"
proof -
  let ?v = "read_view k e today db"
  have le: "length (take 64 (newest_first (concat (map (take 64 \<circ> newest_first) xss)))) \<le> length (concat xss)" for xss
  proof -
    have "length (concat (map (take 64 \<circ> newest_first) xss)) \<le> length (concat xss)"
      by (induction xss) (simp_all add: newest_first_def add_mono)
    then show ?thesis by (simp add: newest_first_def)
  qed
  have total: "tv_activity_total ?v = int (length (concat (activity_rows k db)))"
    and act: "tv_activity ?v = take 64 (newest_first (concat (map (take 64 \<circ> newest_first) (activity_rows k db))))"
    and trunc: "tv_activity_truncated ?v = (length (concat (activity_rows k db)) > length (tv_activity ?v))"
    by (simp_all add: read_view_def Let_def)
  have "int (length (tv_activity ?v)) \<le> tv_activity_total ?v" using le [of "activity_rows k db"] by (simp add: total act)
  moreover have "length (tv_activity ?v) \<le> 64" by (simp add: act)
  moreover have "tv_activity_truncated ?v = (tv_activity_total ?v > int (length (tv_activity ?v)))"
    by (simp add: trunc total)
  moreover have "tv_activity ?v = activity_order (tv_activity ?v)" by (simp add: act activity_order_newest)
  moreover have "tv_activity_total ?v \<ge> 0" by (simp add: total)
  moreover have "tv_execution ?v = e" by (simp add: read_view_def Let_def)
  moreover have "rv1_execution r = ev1_id e \<and> rv1_pred_execution r = ev1_id e
              \<and> rv1_pred_checkpoint r = rv1_checkpoint r \<and> rv1_case r = ev1_case e
              \<and> rv1_case_revision r = ev1_case_revision e \<and> rv1_decision r = ev1_decision e
              \<and> rv1_receipt r = ev1_receipt e \<and> rv1_plan r = ev1_plan e" if "tv_reassessment ?v = Some r" for r
    using that ok by (auto simp: read_view_def Let_def timeline_ok_def lineage_ok_def
        timeline_reassessment_v1.truncate_def split: if_splits list.splits)
  ultimately show ?thesis
    by (cases "tv_reassessment ?v") (simp_all add: bounded_activity_def Let_def ensure_def)
qed

lemma filter_json:
  "filter (\<lambda>c. cv1_state c \<in> {CP_IN_PROGRESS, CP_AWAITING_ADVISOR, CP_BLOCKED}) (map (checkpoint_json i today) cs)
    = map (checkpoint_json i today) (filter (\<lambda>c. cp_state c \<notin> {CP_PENDING, CP_VERIFIED}) cs)"
  by (simp only: filter_map open_states comp_def) (simp add: checkpoint_json_def)

lemma view_action:
  assumes cs: "checkpoints_ok e (rows_of k (tl_checkpoints db))"
  shows "derive_current_action (read_view k e today db) = Inr (tv_current_action (read_view k e today db))"
proof -
  let ?v = "read_view k e today db"
  have v: "tv_execution ?v = e" "tv_current_action ?v = current_action_json e (tv_current_checkpoint ?v)"
    "tv_current_checkpoint ?v
      = (case current_checkpoints k db of [] \<Rightarrow> None | c # _ \<Rightarrow> Some (checkpoint_json (snd k) today c))"
    "filter (\<lambda>c. cv1_state c \<in> {CP_IN_PROGRESS, CP_AWAITING_ADVISOR, CP_BLOCKED}) (tv_checkpoints ?v)
      = map (checkpoint_json (snd k) today) (current_checkpoints k db)"
    using filter_json [of "snd k" today "rows_of k (tl_checkpoints db)"]
    by (simp_all add: read_view_def Let_def checkpoints_sorted [OF cs] current_checkpoints_def)
  have fit: "counts_fit e (length (current_checkpoints k db))"
    unfolding current_checkpoints_def by (rule invariant_counts_fit [OF cs])
  show ?thesis
  proof (cases "ev1_state e")
    case TE_ACTIVE
    with fit have "length (current_checkpoints k db) = Suc 0" by (simp add: counts_fit_def)
    then obtain c where c: "current_checkpoints k db = [c]" by (auto simp: length_Suc_conv)
    show ?thesis unfolding derive_current_action_def Let_def v
      using TE_ACTIVE by (simp add: c current_action_json_def)
  next
    case TE_REASSESSMENT_REQUIRED
    then show ?thesis by (simp add: derive_current_action_def v(1,2) current_action_json_def)
  next
    case TE_COMPLETED
    with fit have "current_checkpoints k db = []" by (simp add: counts_fit_def)
    with TE_COMPLETED show ?thesis by (simp add: derive_current_action_def v(1-3) current_action_json_def)
  qed
qed

end
