(* ===== verification/Timeline_Origin.thy ===== *)
theory Timeline_Origin
  imports Timeline_System
begin

text \<open>
  Where the rows of an execution come from: every verification was inserted by a call of an advisor of the case, and
  every attestation by a call of a participant in the role that the row names.
\<close>

declare split_paired_All [simp del] split_paired_Ex [simp del]

section \<open>The calls behind the rows\<close>

text \<open>A verification goes back to a call in a session of its advisor, who then took part in the case as one.\<close>

definition verified_in_session :: "row_key \<Rightarrow> timeline_execution_v1 \<Rightarrow> timeline_verification \<Rightarrow> timeline_db \<Rightarrow> bool" where
  "verified_in_session k e v db \<longleftrightarrow>
     (\<exists>cat ses r now db0 db1 out. timeline_reachable db0 \<and> verify_timeline_checkpoint cat ses r now db0 = Inr (db1, out)
        \<and> timeline_step\<^sup>*\<^sup>* db1 db \<and> execution_key r = k \<and> (k, v) \<notin> set (tl_verifications db0)
        \<and> (k, v) \<in> set (tl_verifications db1) \<and> ses_role ses = ''advisor'' \<and> ses_actor ses = vv1_advisor v
        \<and> participates cat (fst k) (ev1_case e) (vv1_advisor v) ''advisor'')"

definition attested_in_session :: "row_key \<Rightarrow> timeline_execution_v1 \<Rightarrow> timeline_attestation \<Rightarrow> timeline_db \<Rightarrow> bool" where
  "attested_in_session k e a db \<longleftrightarrow>
     (\<exists>cat ses r now db0 db1 out. timeline_reachable db0 \<and> attest_timeline_checkpoint cat ses r now db0 = Inr (db1, out)
        \<and> timeline_step\<^sup>*\<^sup>* db1 db \<and> execution_key r = k \<and> (k, a) \<notin> set (tl_attestations db0)
        \<and> (k, a) \<in> set (tl_attestations db1) \<and> ses_role ses = av1_role a \<and> ses_actor ses = av1_reporter a
        \<and> participates cat (fst k) (ev1_case e) (av1_reporter a) (av1_role a))"

section \<open>What the commands do to the two tables\<close>

lemma tables_kept:
  "update_checkpoints P f db = Inr db' \<Longrightarrow> tl_verifications db' = tl_verifications db \<and> tl_attestations db' = tl_attestations db"
  "update_timeline_execution k g now db = Inr db' \<Longrightarrow>
     tl_verifications db' = tl_verifications db \<and> tl_attestations db' = tl_attestations db"
  "record_mutation org ik response rc db = Inr (db', out) \<Longrightarrow>
     tl_verifications db' = tl_verifications db \<and> tl_attestations db' = tl_attestations db"
  "insert_reassessment r e hash today now db = Inr db' \<Longrightarrow>
     tl_verifications db' = tl_verifications db \<and> tl_attestations db' = tl_attestations db"
  "insert_checkpoints k fresh ms now db = Inr db' \<Longrightarrow>
     tl_verifications db' = tl_verifications db \<and> tl_attestations db' = tl_attestations db"
  by (auto simp: update_checkpoints_def update_timeline_execution_def record_mutation_Inr insert_reassessment_def
      insert_checkpoints_def split: if_splits)

lemma apply_verification_tables:
  assumes "apply_verification r c now db = Inr db'"
  shows "tl_verifications db' = tl_verifications db \<and> tl_attestations db' = tl_attestations db"
  using assms by (auto simp: apply_verification_def Let_def dest!: tables_kept(1,2) split: if_splits)

lemma session_role:
  assumes "assert_m3b_context ses org actor rl = Inr ()"
  shows "ses_organization ses = org" "ses_actor ses = actor" "ses_role ses = rl"
  using assms by (auto simp: assert_m3b_context_def split: if_splits)

lemma verify_row:
  assumes "verify_timeline_checkpoint cat ses r now db = Inr (db', out)"
  shows "tl_attestations db' = tl_attestations db
    \<and> (tl_verifications db' = tl_verifications db
       \<or> (\<exists>e v. map_of (tl_executions db) (execution_key r) = Some e
            \<and> tl_verifications db' = tl_verifications db @ [(execution_key r, v)]
            \<and> (execution_key r, v) \<notin> set (tl_verifications db)
            \<and> ses_role ses = ''advisor'' \<and> ses_actor ses = vv1_advisor v
            \<and> participates cat (fst (execution_key r)) (ev1_case e) (vv1_advisor v) ''advisor''))"
  using assms
proof (cases rule: verify_cases)
  case (fresh e c a db1 db2)
  let ?v = "\<lparr>vv1_id = vq_verification r, vv1_execution = tq_execution r, vv1_checkpoint = tq_checkpoint r,
              vv1_attestation = vq_attestation r, vv1_advisor = tq_actor r, vv1_action = vq_action r,
              vv1_reason = vq_reason r, vv1_execution_version = tq_execution_version r,
              vv1_checkpoint_version = tq_checkpoint_version r, vv1_created_at = now,
              vf_request_sha256 = tq_request_hash r\<rparr>"
  from fresh(14) have db1: "db1 = db\<lparr>tl_verifications := tl_verifications db @ [(execution_key r, ?v)]\<rparr>"
    and new: "(execution_key r, ?v) \<notin> set (tl_verifications db)"
    by (auto simp: insert_verification_def list_ex_iff execution_key_def split: if_splits)
  from apply_verification_tables [OF fresh(15)] tables_kept(3) [OF fresh(16)] db1
  have t: "tl_verifications db' = tl_verifications db @ [(execution_key r, ?v)]" "tl_attestations db' = tl_attestations db"
    by simp_all
  from assms fresh(1) have "assert_m3b_context ses (tq_org r) (tq_actor r) (tq_role r) = Inr ()"
    by (auto simp: verify_timeline_checkpoint_def split: if_splits)
  from session_role [OF this] fresh(1,4,12) t new show ?thesis by (simp add: execution_key_def)
qed simp

lemma attest_row:
  assumes "attest_timeline_checkpoint cat ses r now db = Inr (db', out)"
  shows "tl_verifications db' = tl_verifications db
    \<and> (tl_attestations db' = tl_attestations db
       \<or> (\<exists>e a. map_of (tl_executions db) (execution_key r) = Some e
            \<and> tl_attestations db' = tl_attestations db @ [(execution_key r, a)]
            \<and> (execution_key r, a) \<notin> set (tl_attestations db)
            \<and> ses_role ses = av1_role a \<and> ses_actor ses = av1_reporter a
            \<and> participates cat (fst (execution_key r)) (ev1_case e) (av1_reporter a) (av1_role a)))"
  using assms
proof (cases rule: attest_cases)
  case (fresh e c db1 db2 db3)
  let ?a = "\<lparr>av1_id = aq_attestation r, av1_execution = tq_execution r, av1_checkpoint = tq_checkpoint r,
              av1_reporter = tq_actor r, av1_role = tq_role r, av1_kind = aq_kind r, av1_status = aq_status r,
              av1_code = aq_code r, av1_reason = aq_reason r, av1_execution_version = tq_execution_version r,
              av1_checkpoint_version = tq_checkpoint_version r, av1_created_at = now,
              at_request_sha256 = tq_request_hash r\<rparr>"
  from fresh(11) have db1: "db1 = db\<lparr>tl_attestations := tl_attestations db @ [(execution_key r, ?a)]\<rparr>"
    and new: "(execution_key r, ?a) \<notin> set (tl_attestations db)"
    by (auto simp: insert_attestation_def list_ex_iff execution_key_def split: if_splits)
  from tables_kept(1) [OF fresh(12)] tables_kept(2) [OF fresh(13)] tables_kept(3) [OF fresh(14)] db1
  have t: "tl_attestations db' = tl_attestations db @ [(execution_key r, ?a)]" "tl_verifications db' = tl_verifications db"
    by simp_all
  from assms fresh(1) have "assert_m3b_context ses (tq_org r) (tq_actor r) (tq_role r) = Inr ()"
    by (auto simp: attest_timeline_checkpoint_def split: if_splits)
  from session_role [OF this] fresh(1,9) t new show ?thesis by (simp add: execution_key_def)
qed simp

lemma other_commands_kept:
  "start_timeline_execution cat ses s fresh now db = Inr (db', out) \<Longrightarrow>
     tl_verifications db' = tl_verifications db \<and> tl_attestations db' = tl_attestations db"
  "request_timeline_reassessment cat ses r today now db = Inr (db', out) \<Longrightarrow>
     tl_verifications db' = tl_verifications db \<and> tl_attestations db' = tl_attestations db"
  by (elim start_cases, simp, frule tables_kept(5), drule tables_kept(3), simp)
    (elim reassess_cases, simp, frule tables_kept(4), frule tables_kept(2), drule tables_kept(3), simp)

lemma row_appears:
  assumes run: "run_command cat ses fresh today now cmd db = Inr (db', out)"
  shows "tl_verifications db' = tl_verifications db \<or> (\<exists>r. cmd = Verify_command r)"
    and "tl_attestations db' = tl_attestations db \<or> (\<exists>r. cmd = Attest_command r)"
proof -
  have "(tl_verifications db' = tl_verifications db \<or> (\<exists>r. cmd = Verify_command r))
      \<and> (tl_attestations db' = tl_attestations db \<or> (\<exists>r. cmd = Attest_command r))"
  proof (cases cmd)
    case (Start_command r)
    with run show ?thesis using other_commands_kept(1) by simp
  next
    case (Attest_command r)
    with run show ?thesis using attest_row [of cat ses r now db db' out] by simp
  next
    case (Verify_command r)
    with run show ?thesis using verify_row [of cat ses r now db db' out] by simp
  next
    case (Reassess_command r)
    with run show ?thesis using other_commands_kept(2) by simp
  qed
  then show "tl_verifications db' = tl_verifications db \<or> (\<exists>r. cmd = Verify_command r)"
    "tl_attestations db' = tl_attestations db \<or> (\<exists>r. cmd = Attest_command r)" by blast+
qed

section \<open>Origins\<close>

lemma step_keeps_case:
  assumes "timeline_step db db'" and "timeline_invariant db" and "map_of (tl_executions db) k = Some e"
  shows "\<exists>e'. map_of (tl_executions db') k = Some e' \<and> ev1_case e' = ev1_case e"
  using assms(1)
proof cases
  case (command cat ses fresh today now cmd out)
  from run_cases [OF assms(2) this] show ?thesis
  proof cases
    case (2 rc)
    show ?thesis
    proof (cases "command_target cmd = k")
      case True
      from 2(1) assms(3) True obtain ver x e' where "mutates k ver x rc e e' db db'"
        by (auto simp: performs_def mutates_def split: option.splits)
      then have "map_of (tl_executions db') k = Some e'"
        "e' = e\<lparr>ev1_state := ev1_state e', ev1_row_version := ver + 1, ev1_updated_at := ev1_updated_at e'\<rparr>"
        by (simp_all add: mutates_def)
      then show ?thesis by (metis timeline_execution_v1.ext_inject timeline_execution_v1.surjective timeline_execution_v1.update_convs(7,8,10))
    next
      case False
      with 2(1) assms(3) show ?thesis by (auto simp: performs_def other_rows_same_def)
    qed
  qed (use assms(3) in simp)
qed (use assms(3) in simp)

text \<open>The origin of a row survives every later step.\<close>

lemma origin_later:
  assumes "timeline_step db db'" and "ev1_case e' = ev1_case e"
  shows "verified_in_session k e v db \<Longrightarrow> verified_in_session k e' v db'"
    and "attested_in_session k e a db \<Longrightarrow> attested_in_session k e' a db'"
  unfolding verified_in_session_def attested_in_session_def assms(2)
  by (blast intro: rtranclp.rtrancl_into_rtrancl [of timeline_step, OF _ assms(1)])+

definition origins :: "timeline_db \<Rightarrow> bool" where
  "origins db \<longleftrightarrow>
     (\<forall>k e. map_of (tl_executions db) k = Some e \<longrightarrow>
        (\<forall>v. (k, v) \<in> set (tl_verifications db) \<longrightarrow> verified_in_session k e v db)
        \<and> (\<forall>a. (k, a) \<in> set (tl_attestations db) \<longrightarrow> attested_in_session k e a db))"

lemma step_origins:
  assumes reach: "timeline_reachable db" and step: "timeline_step db db'" and ok: "origins db"
  shows "origins db'"
proof -
  note inv = timeline_reachable_invariant [OF reach]
  have old: "\<exists>e. map_of (tl_executions db) k = Some e" if "(k, v) \<in> set (tl_verifications db) \<or> (k, a) \<in> set (tl_attestations db)" for k v a
  proof (rule ccontr)
    assume "\<nexists>e. map_of (tl_executions db) k = Some e"
    moreover have "view_of k db" using inv by (simp add: timeline_invariant_def)
    ultimately show False using that by (auto simp: view_of_def simp flip: rows_of_set)
  qed
  have kept: "ev1_case e' = ev1_case e" if "map_of (tl_executions db) k = Some e" "map_of (tl_executions db') k = Some e'" for k e e'
    using step_keeps_case [OF step inv that(1)] that(2) by auto
  have new_v: "verified_in_session k e' v db'"
    if "map_of (tl_executions db') k = Some e'" "(k, v) \<in> set (tl_verifications db')" "(k, v) \<notin> set (tl_verifications db)" for k e' v
    using step
  proof cases
    case (command cat ses fresh today now cmd out)
    note new = that
    from command obtain r where cmd: "cmd = Verify_command r"
      using row_appears(1) [OF command] new(2,3) by auto
    with command have run: "verify_timeline_checkpoint cat ses r now db = Inr (db', out)" by simp
    from new(2,3) have "tl_verifications db' \<noteq> tl_verifications db" by metis
    with verify_row [OF run] obtain e w where e: "map_of (tl_executions db) (execution_key r) = Some e"
      and w: "tl_verifications db' = tl_verifications db @ [(execution_key r, w)]" and c: "ses_role ses = ''advisor''" "ses_actor ses = vv1_advisor w"
      "participates cat (fst (execution_key r)) (ev1_case e) (vv1_advisor w) ''advisor''" by blast
    from w new(2,3) have eq: "execution_key r = k" "w = v" by simp_all
    from c [unfolded eq] run reach new(2,3) eq(1) kept [OF e [unfolded eq] new(1)] show ?thesis unfolding verified_in_session_def
      by (intro exI [of _ cat] exI [of _ ses] exI [of _ r] exI [of _ now] exI [of _ db] exI [of _ db'] exI [of _ out]) simp
  qed (use that(2,3) in simp)
  have new_a: "attested_in_session k e' a db'"
    if "map_of (tl_executions db') k = Some e'" "(k, a) \<in> set (tl_attestations db')" "(k, a) \<notin> set (tl_attestations db)" for k e' a
    using step
  proof cases
    case (command cat ses fresh today now cmd out)
    note new = that
    from command obtain r where cmd: "cmd = Attest_command r"
      using row_appears(2) [OF command] new(2,3) by auto
    with command have run: "attest_timeline_checkpoint cat ses r now db = Inr (db', out)" by simp
    from new(2,3) have "tl_attestations db' \<noteq> tl_attestations db" by metis
    with attest_row [OF run] obtain e w where e: "map_of (tl_executions db) (execution_key r) = Some e"
      and w: "tl_attestations db' = tl_attestations db @ [(execution_key r, w)]" and c: "ses_role ses = av1_role w" "ses_actor ses = av1_reporter w"
      "participates cat (fst (execution_key r)) (ev1_case e) (av1_reporter w) (av1_role w)" by blast
    from w new(2,3) have eq: "execution_key r = k" "w = a" by simp_all
    from c [unfolded eq] run reach new(2,3) eq(1) kept [OF e [unfolded eq] new(1)] show ?thesis unfolding attested_in_session_def
      by (intro exI [of _ cat] exI [of _ ses] exI [of _ r] exI [of _ now] exI [of _ db] exI [of _ db'] exI [of _ out]) simp
  qed (use that(2,3) in simp)
  show ?thesis unfolding origins_def
  proof (intro allI impI conjI)
    fix k e' v assume e': "map_of (tl_executions db') k = Some e'" and v: "(k, v) \<in> set (tl_verifications db')"
    show "verified_in_session k e' v db'"
    proof (cases "(k, v) \<in> set (tl_verifications db)")
      case True
      with old obtain e where e: "map_of (tl_executions db) k = Some e" by blast
      with True ok have "verified_in_session k e v db" unfolding origins_def by blast
      then show ?thesis by (rule origin_later(1) [OF step kept [OF e e']])
    qed (rule new_v [OF e' v])
  next
    fix k e' a assume e': "map_of (tl_executions db') k = Some e'" and a: "(k, a) \<in> set (tl_attestations db')"
    show "attested_in_session k e' a db'"
    proof (cases "(k, a) \<in> set (tl_attestations db)")
      case True
      with old obtain e where e: "map_of (tl_executions db) k = Some e" by blast
      with True ok have "attested_in_session k e a db" unfolding origins_def by blast
      then show ?thesis by (rule origin_later(2) [OF step kept [OF e e']])
    qed (rule new_a [OF e' a])
  qed
qed

lemma reachable_origins: "timeline_reachable db \<Longrightarrow> origins db"
  unfolding timeline_reachable_def
proof (induction rule: rtranclp_induct)
  case (step db db')
  then show ?case using step_origins by (simp add: timeline_reachable_def)
qed (simp add: origins_def empty_timeline_db_def)

lemma row_origins:
  assumes "timeline_reachable db" and "map_of (tl_executions db) k = Some e"
  shows "v \<in> set (rows_of k (tl_verifications db)) \<Longrightarrow> verified_in_session k e v db"
    and "a \<in> set (rows_of k (tl_attestations db)) \<Longrightarrow> attested_in_session k e a db"
  using reachable_origins [OF assms(1)] assms(2) by (auto simp: origins_def rows_of_set)

end
