(* ===== verification/Timeline_Properties.thy ===== *)
theory Timeline_Properties
  imports Timeline_Consistency Timeline_Origin
begin

text \<open>
  The properties of the timeline authority, each with a witness on a concrete execution: a
  student starts the timeline of a plan and attests the first checkpoint, an advisor verifies
  it, and another advisor call asks for a reassessment.
\<close>

section \<open>A concrete execution\<close>

definition tl_hash :: "char \<Rightarrow> sha" where
  "tl_hash c = replicate 64 c"

definition tl_session :: "string \<Rightarrow> session" where
  "tl_session as_role = \<lparr>ses_organization = 1, ses_actor = (if as_role = ''advisor'' then 13 else 11), ses_role = as_role\<rparr>"

definition tl_milestones :: "milestone_json list" where
  "tl_milestones =
     [\<lparr>ms_key = Some ''documents'', ms_due = Some (2026, 9, 1), ms_other_keys = []\<rparr>,
      \<lparr>ms_key = Some ''application'', ms_due = Some (2026, 10, 15), ms_other_keys = []\<rparr>,
      \<lparr>ms_key = Some ''visa'', ms_due = Some (2026, 12, 15), ms_other_keys = []\<rparr>,
      \<lparr>ms_key = Some ''arrival'', ms_due = Some (2027, 1, 20), ms_other_keys = []\<rparr>]"

definition tl_catalog :: timeline_catalog where
  "tl_catalog = \<lparr>plan_rows =
       [((1, 7), \<lparr>pa_milestones = tl_milestones, pa_decision = 5, pa_receipt = 6, pa_case = 8, pa_revision = 1\<rparr>),
        ((1, 9), \<lparr>pa_milestones = tl_milestones, pa_decision = 15, pa_receipt = 16, pa_case = 10, pa_revision = 1\<rparr>)],
     participates = (\<lambda>org c actor as_role. True),
     trigger_sha256 = (\<lambda>t ref e c st due today. tl_hash CHR ''d'')\<rparr>"

definition tl_start :: start_request where
  "tl_start = \<lparr>sq_org = 1, sq_actor = 11, sq_role = ''student'', sq_timeline = 7, sq_case = 8, sq_revision = 1,
     sq_execution = 20, sq_receipt = 30, sq_key_hash = tl_hash CHR ''1'', sq_request_hash = tl_hash CHR ''2''\<rparr>"

definition tl_attest :: attest_request where
  "tl_attest = \<lparr>tq_org = 1, tq_actor = 11, tq_role = ''student'', tq_case = 8, tq_execution = 20,
     tq_checkpoint = 41, tq_execution_version = 1, tq_checkpoint_version = 1, tq_receipt = 31,
     tq_key_hash = tl_hash CHR ''3'', tq_request_hash = tl_hash CHR ''4'', aq_kind = KIND_COMPLETION,
     aq_status = READY_FOR_ADVISOR, aq_code = DOCUMENTS_STATUS_CONFIRMED, aq_reason = NOT_APPLICABLE,
     aq_attestation = 51\<rparr>"

definition tl_verify :: verify_request where
  "tl_verify = \<lparr>tq_org = 1, tq_actor = 13, tq_role = ''advisor'', tq_case = 8, tq_execution = 20,
     tq_checkpoint = 41, tq_execution_version = 2, tq_checkpoint_version = 2, tq_receipt = 32,
     tq_key_hash = tl_hash CHR ''5'', tq_request_hash = tl_hash CHR ''6'', vq_attestation = 51,
     vq_action = VERIFY, vq_reason = ATTESTATION_VERIFIED, vq_verification = 61\<rparr>"

definition tl_reassess :: reassess_request where
  "tl_reassess = \<lparr>tq_org = 1, tq_actor = 13, tq_role = ''advisor'', tq_case = 8, tq_execution = 20,
     tq_checkpoint = 42, tq_execution_version = 3, tq_checkpoint_version = 2, tq_receipt = 33,
     tq_key_hash = tl_hash CHR ''7'', tq_request_hash = tl_hash CHR ''8'', eq_reference = None,
     eq_trigger = DEADLINE_ELAPSED, eq_reassessment = 71\<rparr>"

definition tl_run :: "string \<Rightarrow> timestamp \<Rightarrow> timeline_command \<Rightarrow> timeline_db
    \<Rightarrow> sql_error + timeline_db \<times> timeline_receipt_v1 option" where
  "tl_run as_role now cmd db =
     run_command tl_catalog (tl_session as_role) (\<lambda>i. 40 + int i) (2026, 12, 1) now cmd db"

definition tl_started :: timeline_db where
  "tl_started = fst (projr (tl_run ''student'' 100 (Start_command tl_start) empty_timeline_db))"

definition tl_attested :: timeline_db where
  "tl_attested = fst (projr (tl_run ''student'' 200 (Attest_command tl_attest) tl_started))"

definition tl_verified :: timeline_db where
  "tl_verified = fst (projr (tl_run ''advisor'' 300 (Verify_command tl_verify) tl_attested))"

definition tl_closed :: timeline_db where
  "tl_closed = fst (projr (tl_run ''advisor'' 400 (Reassess_command tl_reassess) tl_verified))"

lemma tl_runs_ok:
  "is_ok (tl_run ''student'' 100 (Start_command tl_start) empty_timeline_db)"
  "is_ok (tl_run ''student'' 200 (Attest_command tl_attest) tl_started)"
  "is_ok (tl_run ''advisor'' 300 (Verify_command tl_verify) tl_attested)"
  "is_ok (tl_run ''advisor'' 400 (Reassess_command tl_reassess) tl_verified)"
  by code_simp+

lemma tl_runs:
  "\<exists>out. tl_run ''student'' 100 (Start_command tl_start) empty_timeline_db = Inr (tl_started, out)"
  "\<exists>out. tl_run ''student'' 200 (Attest_command tl_attest) tl_started = Inr (tl_attested, out)"
  "\<exists>out. tl_run ''advisor'' 300 (Verify_command tl_verify) tl_attested = Inr (tl_verified, out)"
  "\<exists>out. tl_run ''advisor'' 400 (Reassess_command tl_reassess) tl_verified = Inr (tl_closed, out)"
  using tl_runs_ok unfolding tl_started_def tl_attested_def tl_verified_def tl_closed_def
  by (auto simp: is_ok_iff)

lemma tl_steps:
  "timeline_step empty_timeline_db tl_started" "timeline_step tl_started tl_attested"
  "timeline_step tl_attested tl_verified" "timeline_step tl_verified tl_closed"
  using tl_runs unfolding tl_run_def by (blast intro: timeline_step.command)+

lemma tl_reachable:
  "timeline_reachable tl_started" "timeline_reachable tl_attested"
  "timeline_reachable tl_verified" "timeline_reachable tl_closed"
proof -
  note s1 = r_into_rtranclp [of timeline_step, OF tl_steps(1)]
  note s2 = rtranclp.rtrancl_into_rtrancl [OF s1 tl_steps(2)]
  note s3 = rtranclp.rtrancl_into_rtrancl [OF s2 tl_steps(3)]
  note s4 = rtranclp.rtrancl_into_rtrancl [OF s3 tl_steps(4)]
  show "timeline_reachable tl_started" "timeline_reachable tl_attested"
    "timeline_reachable tl_verified" "timeline_reachable tl_closed"
    unfolding timeline_reachable_def by (rule s1 s2 s3 s4)+
qed

text \<open>A later start of another plan.\<close>

definition tl_start_other :: timeline_command where
  "tl_start_other = Start_command (tl_start\<lparr>sq_timeline := 9, sq_case := 10, sq_execution := 21, sq_receipt := 34,
     sq_key_hash := tl_hash CHR ''9''\<rparr>)"

definition tl_other :: timeline_db where
  "tl_other = fst (projr (run_command tl_catalog (tl_session ''student'') (\<lambda>i. 60 + int i) (2026, 12, 2) 500
     tl_start_other tl_closed))"

lemma tl_other_step: "timeline_step tl_closed tl_other"
proof -
  have "is_ok (run_command tl_catalog (tl_session ''student'') (\<lambda>i. 60 + int i) (2026, 12, 2) 500
     tl_start_other tl_closed)" by code_simp
  then obtain db out where run: "run_command tl_catalog (tl_session ''student'') (\<lambda>i. 60 + int i) (2026, 12, 2) 500
     tl_start_other tl_closed = Inr (db, out)" by (metis is_ok_iff prod.exhaust)
  then have "tl_other = db" unfolding tl_other_def by simp
  with timeline_step.command [OF run] show ?thesis by simp
qed

lemma tl_executions_are:
  "map_option (\<lambda>e. (ev1_state e, ev1_row_version e)) (map_of (tl_executions tl_started) (1, 20)) = Some (TE_ACTIVE, 1)"
  "map_option (\<lambda>e. (ev1_state e, ev1_row_version e)) (map_of (tl_executions tl_verified) (1, 20)) = Some (TE_ACTIVE, 3)"
  "map_option (\<lambda>e. (ev1_state e, ev1_row_version e)) (map_of (tl_executions tl_closed) (1, 20))
     = Some (TE_REASSESSMENT_REQUIRED, 4)"
  by code_simp+

section \<open>Order and evidence\<close>

text \<open>C33: In every reachable database an execution has the four checkpoints of the plan in their order with their
  accountable roles, those before the current one are verified and those after it pending, it is completed exactly when
  all four are verified, and its version counts its receipts.\<close>

theorem checkpoints_in_plan_order:
  assumes "timeline_reachable db" and "map_of (tl_executions db) k = Some e"
  defines "cs \<equiv> rows_of k (tl_checkpoints db)"
  shows "map cp_ordinal cs = [1, 2, 3, 4] \<and> map cp_milestone cs = MILESTONES \<and> map cp_role cs = ACCOUNTABLE_ROLES
    \<and> (\<exists>i\<le>4. (\<forall>j<4. if j < i then cp_state (cs ! j) = CP_VERIFIED
             else if j = i then cp_state (cs ! j) \<in> {CP_IN_PROGRESS, CP_AWAITING_ADVISOR, CP_BLOCKED}
             else cp_state (cs ! j) = CP_PENDING)
         \<and> (ev1_state e = TE_COMPLETED \<longleftrightarrow> i = 4))
    \<and> ev1_row_version e = int (length (receipts_of k db))"
proof -
  have ok: "timeline_ok k e cs (rows_of k (tl_attestations db)) (rows_of k (tl_verifications db))
      (rows_of k (tl_reassessments db)) (receipts_of k db)"
    unfolding cs_def by (rule timeline_invariantD [OF timeline_reachable_invariant [OF assms(1)] assms(2)])
  then have cs: "checkpoints_ok e cs" by (simp add: timeline_ok_def)
  then obtain i cur where i: "i \<le> 4" "cur \<in> OPEN_CHECKPOINTS" "map cp_state cs = plan_states i cur"
    "ev1_state e = TE_COMPLETED \<longleftrightarrow> i = 4" by (auto simp: checkpoints_ok_def)
  obtain c1 c2 c3 c4 where "cs = [c1, c2, c3, c4]" by (rule four_checkpoints [OF cs])
  with i have "\<forall>j<4. if j < i then cp_state (cs ! j) = CP_VERIFIED
             else if j = i then cp_state (cs ! j) \<in> {CP_IN_PROGRESS, CP_AWAITING_ADVISOR, CP_BLOCKED}
             else cp_state (cs ! j) = CP_PENDING"
    unfolding nat_le_4 by (elim disjE) (auto simp: OPEN_CHECKPOINTS_def less_Suc_eq numeral_eq_Suc plan_states_def)
  with i(1,4) cs ok show ?thesis unfolding checkpoints_ok_def timeline_ok_def by blast
qed

lemma checkpoints_in_plan_order_witness:
  "\<exists>e. map_of (tl_executions tl_verified) (1, 20) = Some e
     \<and> map cp_milestone (rows_of (1, 20) (tl_checkpoints tl_verified)) = MILESTONES
     \<and> ev1_row_version e = int (length (receipts_of (1, 20) tl_verified))"
proof -
  obtain e where e: "map_of (tl_executions tl_verified) (1, 20) = Some e" using tl_executions_are(2) by blast
  from checkpoints_in_plan_order [OF tl_reachable(3) e] e show ?thesis by blast
qed



section \<open>Versions and closed executions\<close>

text \<open>C35: A version of an execution is used once: after a command was performed at a version, no other command that
  expects this version succeeds at any later time, whoever sends it, unless it replays a stored response.\<close>

theorem version_is_used_once:
  assumes "timeline_reachable db" and "run_command cat ses fresh today now cmd db = Inr (db1, out)"
    and "map_of (tl_idempotency db) (command_key cmd) = None" and "timeline_step\<^sup>*\<^sup>* db1 db2"
    and "expected_version cmd \<noteq> None" and "expected_version cmd' = expected_version cmd"
    and "command_target cmd' = command_target cmd" and "map_of (tl_idempotency db2) (command_key cmd') = None"
  shows "\<exists>err. run_command cat' ses' fresh' today' now' cmd' db2 = Inl err"
proof (rule ccontr)
  let ?k = "command_target cmd"
  assume "\<nexists>err. run_command cat' ses' fresh' today' now' cmd' db2 = Inl err"
  then obtain db3 out3 where run': "run_command cat' ses' fresh' today' now' cmd' db2 = Inr (db3, out3)"
    by (cases "run_command cat' ses' fresh' today' now' cmd' db2") auto
  obtain ver where ver: "expected_version cmd = Some ver" using assms(5) by blast
  note inv = timeline_reachable_invariant [OF assms(1)]
  from run_cases [OF inv assms(2)] assms(3) obtain rc where p: "performs cmd rc db db1" "timeline_invariant db1"
    by (metis option.distinct(1))
  then obtain e e1 where "mutates ?k ver (command_key cmd) rc e e1 db db1" using ver by (auto simp: performs_def)
  then have e1: "map_of (tl_executions db1) ?k = Some e1" "ev1_row_version e1 = ver + 1"
    unfolding mutates_def by (metis timeline_execution_v1.select_convs timeline_execution_v1.surjective
        timeline_execution_v1.update_convs)+
  from timeline_steps_grow [OF p(2) assms(4)] have g: "timeline_grows db1 db2" "timeline_invariant db2" by blast+
  from run_cases [OF g(2) run'] assms(8) obtain rc' where "performs cmd' rc' db2 db3" by (metis option.distinct(1))
  then obtain e2 where "map_of (tl_executions db2) ?k = Some e2" "ev1_row_version e2 = ver"
    using ver assms(6,7) by (auto simp: performs_def mutates_def)
  with timeline_growsD [OF g(1) e1(1)] e1(2) show False by auto
qed

lemma version_is_used_once_witness:
  "\<exists>err. tl_run ''student'' 900 (Attest_command (tl_attest\<lparr>tq_key_hash := tl_hash CHR ''9''\<rparr>)) tl_verified = Inl err"
proof -
  obtain out where run: "tl_run ''student'' 200 (Attest_command tl_attest) tl_started = Inr (tl_attested, out)"
    using tl_runs(2) by blast
  have none: "map_of (tl_idempotency tl_started) (command_key (Attest_command tl_attest)) = None"
    "map_of (tl_idempotency tl_verified) (command_key (Attest_command (tl_attest\<lparr>tq_key_hash := tl_hash CHR ''9''\<rparr>))) = None"
    by code_simp+
  show ?thesis unfolding tl_run_def
    by (rule version_is_used_once [OF tl_reachable(1) run [unfolded tl_run_def] none(1) r_into_rtranclp [of
        timeline_step, OF tl_steps(3)] _ _ _ none(2)]) (simp_all add: tl_attest_def execution_key_def)
qed

text \<open>An execution that is no longer active is final: it keeps its row and all its checkpoints, attestations,
  verifications, reassessments and receipts for ever.\<close>

theorem closed_execution_is_final:
  assumes "timeline_reachable db" and "map_of (tl_executions db) k = Some e" and "ev1_state e \<noteq> TE_ACTIVE"
    and "timeline_step\<^sup>*\<^sup>* db db'"
  shows "map_of (tl_executions db') k = Some e \<and> rows_at k db' = rows_at k db"
  using timeline_steps_grow [OF timeline_reachable_invariant [OF assms(1)] assms(4)] timeline_growsD [OF _ assms(2)] assms(3)
  by blast

lemma closed_execution_is_final_witness:
  "\<exists>e. map_of (tl_executions tl_closed) (1, 20) = Some e \<and> map_of (tl_executions tl_other) (1, 20) = Some e
     \<and> rows_at (1, 20) tl_other = rows_at (1, 20) tl_closed"
proof -
  obtain e where e: "map_of (tl_executions tl_closed) (1, 20) = Some e" "ev1_state e \<noteq> TE_ACTIVE"
    using tl_executions_are(3) by auto
  from closed_execution_is_final [OF tl_reachable(4) e r_into_rtranclp [of timeline_step, OF tl_other_step]] e(1)
  show ?thesis by blast
qed

section \<open>Retries\<close>

text \<open>A command that was answered can be sent again at any later time: it is answered with the same receipt and
  changes nothing.\<close>

theorem retry_returns_receipt:
  assumes "timeline_reachable db" and "run_command cat ses fresh today now cmd db = Inr (db1, out)"
    and "timeline_step\<^sup>*\<^sup>* db1 db2"
  shows "out \<noteq> None \<and> run_command cat' ses fresh' today' now' cmd db2 = Inr (db2, out)"
proof -
  let ?q = "\<lambda>rec. (ik_organization (command_key cmd), ir_response_id rec)"
  have op: "ik_operation (command_key cmd) \<in> TIMELINE_OPERATIONS"
    by (cases cmd) (simp_all add: TIMELINE_OPERATIONS_def start_key_def timeline_key_def idem_key_of_def)
  note inv = timeline_reachable_invariant [OF assms(1)]
  have inv1: "timeline_invariant db1" by (rule timeline_step_invariant [OF timeline_step.command [OF assms(2)] inv])
  obtain rec where rec: "map_of (tl_idempotency db1) (command_key cmd) = Some rec"
    "ir_request_sha256 rec = command_hash cmd" and out: "out = receipt_json (?q rec) db1"
  proof (cases rule: run_cases [OF inv assms(2)])
    case (1 prior)
    then show ?thesis using that by blast
  next
    case (2 rc)
    have "map_of (tl_receipts db1) (ik_organization (command_key cmd), rc1_id rc) = Some rc"
      using 2(1) by (auto simp: performs_def records_mutation_def map_add_def)
    with 2 that show ?thesis by (auto simp: performs_def receipt_json_def)
  qed
  from inv1 op rec(1) obtain rc where rc: "map_of (tl_receipts db1) (?q rec) = Some rc"
    unfolding timeline_invariant_def records_ok_def by blast
  have live: "timeline_reachable db1"
    using assms(1) timeline_step.command [OF assms(2)] by (auto simp: timeline_reachable_def)
  obtain es where "tl_receipts db2 = tl_receipts db1 @ es"
    using receipt_log.steps_append [OF live_timeline_steps [OF live assms(3)]] by blast
  with rc have rc2: "map_of (tl_receipts db2) (?q rec) = Some rc" by (simp add: map_add_def)
  have g: "timeline_grows db1 db2" using timeline_steps_grow [OF inv1 assms(3)] by blast
  have rec2: "map_of (tl_idempotency db2) (command_key cmd) = Some rec" using g op rec(1) by (simp add: timeline_grows_def)
  have ready1: "command_ready ses cmd db1" using timeline.run_records [OF assms(2)] by blast
  then have "command_ready ses cmd db2"
    using rec(1) rec2 rc2 timeline_growsD [OF g] unfolding command_ready_def receipt_json_def by fastforce
  from run_prior [OF this rec2] rec(2) rc rc2 out show ?thesis by (simp add: receipt_json_def)
qed

lemma retry_returns_receipt_witness:
  "\<exists>r. tl_run ''student'' 200 (Attest_command tl_attest) tl_started = Inr (tl_attested, Some r)
     \<and> tl_run ''student'' 900 (Attest_command tl_attest) tl_closed = Inr (tl_closed, Some r)"
proof -
  obtain out where run: "tl_run ''student'' 200 (Attest_command tl_attest) tl_started = Inr (tl_attested, out)"
    using tl_runs(2) by blast
  have "timeline_step\<^sup>*\<^sup>* tl_attested tl_closed"
    using tl_steps(3,4) by (meson rtranclp.rtrancl_refl rtranclp.rtrancl_into_rtrancl)
  from retry_returns_receipt [OF tl_reachable(1) run [unfolded tl_run_def] this] run
  show ?thesis unfolding tl_run_def by (cases out) simp_all
qed

section \<open>The projection\<close>

text \<open>C36: A read of a participant finds the one execution of its case, and the projection that the database returns is
  never refused by the validators of its Python model nor contradicted by the policy: the repository hands it on as it
  is, with the current action that \<open>derive_current_action\<close> derives.\<close>

theorem read_is_consistent:
  assumes "timeline_reachable db"
    and "as_role \<in> {''advisor'', ''student'', ''parent''}" and "is_ok (assert_m3b_context ses org actor as_role)"
    and "filter (\<lambda>(k, e). fst k = org \<and> ev1_case e = case_id
               \<and> participates cat org (ev1_case e) actor as_role) (tl_executions db) = [(k, e)]"
  shows "\<exists>view. repository_read (read_timeline_execution cat ses org actor as_role case_id today db) = Inr (Some view)
    \<and> tv_execution view = e \<and> derive_current_action view = Inr (tv_current_action view)
    \<and> map cv1_milestone (tv_checkpoints view) = MILESTONES"
proof -
  have "(k, e) \<in> set (tl_executions db)"
    using filter_is_subset [of "\<lambda>(k, e). fst k = org \<and> ev1_case e = case_id
       \<and> participates cat org (ev1_case e) actor as_role" "tl_executions db", unfolded assms(4)] by simp
  moreover note inv = timeline_reachable_invariant [OF assms(1)]
  moreover have "distinct (map fst (tl_executions db))" using inv unfolding timeline_invariant_def by blast
  ultimately have e: "map_of (tl_executions db) k = Some e" by (intro map_of_is_SomeI)
  note ok = timeline_invariantD [OF inv e]
  then have cs: "checkpoints_ok e (rows_of k (tl_checkpoints db))" by (simp add: timeline_ok_def)
  have fit: "counts_fit e (length (current_checkpoints k db))"
    unfolding current_checkpoints_def by (rule invariant_counts_fit [OF cs])
  let ?v = "read_view k e today db"
  have "read_timeline_execution cat ses org actor as_role case_id today db = Inr (Some ?v)"
  proof -
    have "\<not> (ev1_state e = TE_ACTIVE \<and> length (current_checkpoints k db) \<noteq> 1
              \<or> ev1_state e = TE_COMPLETED \<and> length (current_checkpoints k db) \<noteq> 0
              \<or> ev1_state e = TE_REASSESSMENT_REQUIRED \<and> length (current_checkpoints k db) > 1)"
      using fit unfolding counts_fit_def .
    moreover have "assert_m3b_context ses org actor as_role = Inr ()" using assms(3) by (simp add: is_ok_iff)
    ultimately show ?thesis using assms(2)
      unfolding read_timeline_execution_def assms(4) Let_def list.case prod.case by (simp only: if_False not_not) simp
  qed
  moreover have "decode_view ?v = Inr ?v"
    using view_fields_valid [OF ok] view_bounded [OF ok] by (simp add: decode_view_def)
  moreover have "map cv1_milestone (tv_checkpoints ?v) = MILESTONES"
    using cs checkpoints_sorted [OF cs] by (simp add: read_view_def Let_def comp_def checkpoint_json_def checkpoints_ok_def)
  ultimately show ?thesis using view_action [OF cs]
    by (simp add: repository_read_def call_sql_def) (simp add: read_view_def Let_def)
qed

lemma read_is_consistent_witness:
  "\<exists>view. repository_read (read_timeline_execution tl_catalog (tl_session ''student'') 1 11 ''student'' 8 (2026, 12, 1) tl_verified)
     = Inr (Some view) \<and> derive_current_action view = Inr (tv_current_action view)"
proof -
  have "map fst (filter (\<lambda>(k, e). fst k = 1 \<and> ev1_case e = 8
       \<and> participates tl_catalog 1 (ev1_case e) 11 ''student'') (tl_executions tl_verified)) = [(1, 20)]" by code_simp
  then obtain e where f: "filter (\<lambda>(k, e). fst k = 1 \<and> ev1_case e = 8
       \<and> participates tl_catalog 1 (ev1_case e) 11 ''student'') (tl_executions tl_verified) = [((1, 20), e)]"
    by (auto simp: map_eq_Cons_conv)
  have "is_ok (assert_m3b_context (tl_session ''student'') 1 11 ''student'')" by code_simp
  from read_is_consistent [OF tl_reachable(3) _ this f] show ?thesis by blast
qed

section \<open>Two implementations of one policy\<close>

text \<open>C37: The checks that the SQL functions repeat are those of the Python policy: the risk of a checkpoint, the codes
  of an attestation and the codes of a verification.\<close>

theorem sql_and_python_policies_agree:
  assumes "cp_milestone c \<in> set MILESTONES"
  shows "risk_case st due today = derive_risk_state st due today
    \<and> (attestation_codes_refused a c \<longleftrightarrow>
        \<not> is_ok (validate_attestation_codes (cp_milestone c) (aq_kind a) (aq_status a) (aq_code a) (aq_reason a)))
    \<and> (verification_refused r \<longleftrightarrow> \<not> is_ok (validate_verification_codes (vq_action r) (vq_reason r)))"
proof (intro conjI)
  show "risk_case st due today = derive_risk_state st due today"
    by (simp add: risk_case_def derive_risk_state_def Let_def)
  show "attestation_codes_refused a c \<longleftrightarrow>
        \<not> is_ok (validate_attestation_codes (cp_milestone c) (aq_kind a) (aq_status a) (aq_code a) (aq_reason a))"
    using assms by (cases "aq_kind a"; cases "aq_status a"; cases "aq_reason a")
      (simp_all add: attestation_codes_refused_def validate_attestation_codes_def)
  show "verification_refused r \<longleftrightarrow> \<not> is_ok (validate_verification_codes (vq_action r) (vq_reason r))"
    by (cases "vq_action r"; cases "vq_reason r")
      (simp_all add: verification_refused_def validate_verification_codes_def)
qed

lemma sql_and_python_policies_agree_witness:
  "risk_case CP_PENDING (2026, 12, 15) (2026, 12, 1) = DUE_SOON
   \<and> derive_risk_state CP_PENDING (2026, 12, 15) (2026, 12, 1) = DUE_SOON"
proof -
  let ?c = "new_checkpoint 0 1 41 ''documents'' (2026, 9, 1)"
  have "cp_milestone ?c \<in> set MILESTONES" by code_simp
  from sql_and_python_policies_agree [OF this, of CP_PENDING "(2026, 12, 15)" "(2026, 12, 1)"]
  have "risk_case CP_PENDING (2026, 12, 15) (2026, 12, 1) = derive_risk_state CP_PENDING (2026, 12, 15) (2026, 12, 1)"
    by blast
  moreover have "risk_case CP_PENDING (2026, 12, 15) (2026, 12, 1) = DUE_SOON" by code_simp
  ultimately show ?thesis by simp
qed

text \<open>A plan as the database stores it, and what identifies a stored checkpoint.\<close>

definition stored_milestones :: "timeline_plan \<Rightarrow> milestone_json list" where
  "stored_milestones plan =
     map (\<lambda>m. \<lparr>ms_key = Some (key m), ms_due = Some (due_date m), ms_other_keys = []\<rparr>) (milestones plan)"

definition checkpoint_seed_of :: "timeline_checkpoint \<Rightarrow> checkpoint_seed" where
  "checkpoint_seed_of c = \<lparr>seed_ordinal = cp_ordinal c, seed_milestone = cp_milestone c, seed_due = cp_due c,
     seed_role = cp_role c\<rparr>"

text \<open>Starting an execution snapshots its plan: the database accepts the stored milestones of a plan exactly when
  \<open>snapshot_timeline_plan\<close> does, and writes the checkpoints of that snapshot, the first one in progress and the others
  pending.\<close>

theorem start_snapshots_plan:
  "(milestone_mismatch (stored_milestones plan) \<longleftrightarrow> \<not> is_ok (snapshot_timeline_plan plan))
   \<and> (\<forall>seeds k fresh now db db'. snapshot_timeline_plan plan = Inr seeds \<longrightarrow>
        insert_checkpoints k fresh (stored_milestones plan) now db = Inr db' \<longrightarrow>
          map checkpoint_seed_of (rows_of k (tl_checkpoints db')) = seeds
          \<and> map cp_state (rows_of k (tl_checkpoints db')) = [CP_IN_PROGRESS, CP_PENDING, CP_PENDING, CP_PENDING])"
proof (intro conjI allI impI)
  show "milestone_mismatch (stored_milestones plan) \<longleftrightarrow> \<not> is_ok (snapshot_timeline_plan plan)"
  proof (cases "length (milestones plan) = 4")
    case True
    then obtain m1 m2 m3 m4 where "milestones plan = [m1, m2, m3, m4]" by (auto simp: length_Suc_conv eval_nat_numeral)
    then show ?thesis
      by (auto simp: milestone_mismatch_def stored_milestones_def snapshot_timeline_plan_def MILESTONES_def)
  next
    case False
    moreover have "map key (milestones plan) \<noteq> MILESTONES"
      using False by (auto simp: MILESTONES_def dest: arg_cong [of _ _ length])
    ultimately show ?thesis by (simp add: milestone_mismatch_def stored_milestones_def snapshot_timeline_plan_def)
  qed
next
  fix seeds k fresh now db db'
  assume snap: "snapshot_timeline_plan plan = Inr seeds"
    and ins: "insert_checkpoints k fresh (stored_milestones plan) now db = Inr db'"
  have keys: "map key (milestones plan) = MILESTONES"
    and seeds: "seeds = map (\<lambda>(index, m). \<lparr>seed_ordinal = int index, seed_milestone = key m, seed_due = due_date m,
                       seed_role = ACCOUNTABLE_ROLES ! (index - 1)\<rparr>) (enumerate 1 (milestones plan))"
    using snap by (auto simp: snapshot_timeline_plan_def split: if_splits)
  then obtain m1 m2 m3 m4 where ms: "milestones plan = [m1, m2, m3, m4]"
    by (auto simp: MILESTONES_def map_eq_Cons_conv)
  have "rows_of k (tl_checkpoints db') = map (\<lambda>(i, m). new_checkpoint now i (fresh i) (the (ms_key m)) (the (ms_due m)))
      (enumerate 1 (stored_milestones plan))"
    using ins by (auto simp: insert_checkpoints_def rows_of_keyed split: if_splits)
  then show "map checkpoint_seed_of (rows_of k (tl_checkpoints db')) = seeds"
    and "map cp_state (rows_of k (tl_checkpoints db')) = [CP_IN_PROGRESS, CP_PENDING, CP_PENDING, CP_PENDING]"
    by (simp_all add: seeds ms stored_milestones_def new_checkpoint_def checkpoint_seed_of_def ACCOUNTABLE_ROLES_def)
qed

lemma start_snapshots_plan_witness:
  "\<exists>db'. insert_checkpoints (1, 20) int (stored_milestones
       \<lparr>tp_schema_version = 1, tp_country = AUSTRALIA, tp_intake = ''2027-02'',
        milestones = [\<lparr>key = ''documents'', due_date = (2026, 9, 1)\<rparr>, \<lparr>key = ''application'', due_date = (2026, 10, 15)\<rparr>,
          \<lparr>key = ''visa'', due_date = (2026, 12, 15)\<rparr>, \<lparr>key = ''arrival'', due_date = (2027, 1, 20)\<rparr>]\<rparr>) 0 empty_timeline_db
     = Inr db' \<and> map (seed_due \<circ> checkpoint_seed_of) (rows_of (1, 20) (tl_checkpoints db'))
         = [(2026, 9, 1), (2026, 10, 15), (2026, 12, 15), (2027, 1, 20)]"
proof -
  define plan where "plan = \<lparr>tp_schema_version = 1, tp_country = AUSTRALIA, tp_intake = ''2027-02'',
        milestones = [\<lparr>key = ''documents'', due_date = (2026, 9, 1)\<rparr>, \<lparr>key = ''application'', due_date = (2026, 10, 15)\<rparr>,
          \<lparr>key = ''visa'', due_date = (2026, 12, 15)\<rparr>, \<lparr>key = ''arrival'', due_date = (2027, 1, 20)\<rparr>]\<rparr>"
  have "is_ok (insert_checkpoints (1, 20) int (stored_milestones plan) 0 empty_timeline_db)"
    unfolding plan_def by code_simp
  then obtain db' where ins: "insert_checkpoints (1, 20) int (stored_milestones plan) 0 empty_timeline_db = Inr db'"
    by (auto simp: is_ok_iff)
  have "case snapshot_timeline_plan plan of Inl _ \<Rightarrow> False
    | Inr seeds \<Rightarrow> map seed_due seeds = [(2026, 9, 1), (2026, 10, 15), (2026, 12, 15), (2027, 1, 20)]"
    unfolding plan_def by code_simp
  then obtain seeds where "snapshot_timeline_plan plan = Inr seeds"
    "map seed_due seeds = [(2026, 9, 1), (2026, 10, 15), (2026, 12, 15), (2027, 1, 20)]"
    by (cases "snapshot_timeline_plan plan") auto
  with start_snapshots_plan [of plan] ins show ?thesis unfolding plan_def [symmetric] by (metis map_map)
qed

end
