(* ===== verification/Decision_Authority.thy ===== *)
theory Decision_Authority
  imports Timeline_Authority Task_Authority
begin

text \<open>
  The SQL functions that own briefs, reviews and family decisions: \<open>app.review_planning_run\<close> (0003 as
  rewritten by 0012) and \<open>app.decide_family_brief\<close> (0003), over the tables of 0003, the cases and runs
  of the task authority and the shared idempotency records.  The rows of a run, of a source pack and of a case
  revision are written with it and never change: they are the record \<open>decision_facts\<close>.  Participants are an
  argument of each call.  A \<open>created_at\<close> is left out where no function reads it, and so are the random ids of
  audit events and risk acceptances.  Identifiers inside JSON are in the text form that PostgreSQL prints.
\<close>

section \<open>What the functions read\<close>

record cost_row =
  co_tuition :: int
  co_living :: int
  co_fx :: decimal

record decision_facts =
  routes_of_run :: "row_key \<Rightarrow> brief_route list"
  pack_snapshot :: "uuid \<Rightarrow> uuid \<Rightarrow> int \<Rightarrow> date option"
  pinned_intake :: "uuid \<Rightarrow> uuid \<Rightarrow> int \<Rightarrow> string option"
  pinned_hard_ceiling :: "uuid \<Rightarrow> uuid \<Rightarrow> int \<Rightarrow> int option"
  australia_costs :: "row_key \<Rightarrow> cost_row list"
  evidence_in_pack :: "uuid \<Rightarrow> uuid \<Rightarrow> uuid \<Rightarrow> int \<Rightarrow> bool"
  evidence_of_run :: "row_key \<Rightarrow> uuid \<Rightarrow> bool"

type_synonym participants = "uuid \<Rightarrow> uuid \<Rightarrow> uuid \<Rightarrow> string \<Rightarrow> bool"

text \<open>\<open>round(numeric)\<close> rounds half away from zero; \<open>::bigint\<close> is checked.\<close>

definition numeric_round :: "decimal \<Rightarrow> int" where
  "numeric_round d =
     (if 0 \<le> exponent d then coefficient d * 10 ^ nat (exponent d)
      else let s = 10 ^ nat (- exponent d) in
        sgn (coefficient d) * ((2 * \<bar>coefficient d\<bar> + s) div (2 * s)))"

definition bigint :: "int \<Rightarrow> sql_error + int" where
  "bigint n = (if - (2 ^ 63) \<le> n \<and> n < 2 ^ 63 then Inr n else Inl NUMERIC_OUT_OF_RANGE)"

definition cost_value :: "cost_row \<Rightarrow> sql_error + int" where
  "cost_value c =
     bind_result (bigint (co_tuition c + co_living c)) (\<lambda>total.
       bigint (numeric_round (Dec (total * coefficient (co_fx c)) (exponent (co_fx c)))))"

definition cost_cny :: "decision_facts \<Rightarrow> row_key \<Rightarrow> sql_error + int option" where
  "cost_cny facts run =
     (case australia_costs facts run of [] \<Rightarrow> Inr None
      | c # _ \<Rightarrow> bind_result (cost_value c) (\<lambda>cost. Inr (Some cost)))"

section \<open>Rows\<close>

text \<open>Members of a risk acceptance as \<open>->>\<close> reads them, and the family-safe projection.\<close>

record risk_json =
  rj_evidence :: "uuid option"
  rj_kind :: "string option"
  rj_reason :: "string option"

record brief_json =
  bj_schema_version :: int
  bj_routes :: "brief_route list"
  bj_eligible :: "uuid list"
  bj_risks :: "risk_json list"
  bj_intake :: string
  bj_synthetic_proof :: bool

record advisor_review =
  ar_case :: uuid
  ar_revision :: int
  ar_run :: uuid
  ar_version :: int
  ar_advisor :: uuid
  ar_action :: string
  ar_eligible :: "uuid list"
  ar_risks :: "risk_json list"
  ar_notes :: "string option"

record risk_acceptance =
  ra_evidence :: uuid
  ra_kind :: string
  ra_reason :: string

record brief_row =
  bw_case :: uuid
  bw_revision :: int
  bw_run :: uuid
  bw_review :: uuid
  bw_version :: int
  bw_policy :: string
  bw_pack :: uuid
  bw_pack_version :: int
  bw_evidence_sha256 :: sha
  bw_output_sha256 :: sha
  bw_snapshot :: date
  bw_projection :: brief_json
  bw_is_current :: bool

record decision_row =
  fd_receipt :: uuid
  fd_case :: uuid
  fd_brief :: uuid
  fd_brief_version :: int
  fd_route :: uuid
  fd_min :: int
  fd_max :: int
  fd_currency :: string
  fd_trade_offs :: "string list"
  fd_made_by :: uuid
  fd_recorded_by :: uuid
  fd_source :: string
  fd_run :: uuid

record plan_row =
  pl_decision :: uuid
  pl_schema_version :: int
  pl_country :: country
  pl_intake :: string
  pl_milestones :: "milestone_json list"

datatype audit_payload =
    Payload_action string | Payload_receipt uuid | Payload_candidate uuid | Payload_fact uuid int | Payload_empty

record audit_row =
  au_case :: uuid
  au_actor :: uuid
  au_event :: string
  au_subject :: uuid
  au_payload :: audit_payload

record decision_db =
  base :: task_db
  reviews :: "(row_key \<times> advisor_review) list"
  acceptances :: "(row_key \<times> risk_acceptance) list"
  briefs :: "(row_key \<times> brief_row) list"
  decisions :: "(row_key \<times> decision_row) list"
  plans :: "(row_key \<times> plan_row) list"
  audit :: "(uuid \<times> audit_row) list"

definition empty_decision_db :: decision_db where
  "empty_decision_db = \<lparr>base = empty_db, reviews = [], acceptances = [], briefs = [], decisions = [], plans = [],
     audit = []\<rparr>"

section \<open>Transitions of a case\<close>

text \<open>The trigger on the state of a case, in its last version (0003).\<close>

definition guard_case_state_transition ::
  "row_key \<Rightarrow> student_case \<Rightarrow> case_state \<Rightarrow> decision_db \<Rightarrow> sql_error + unit" where
  "guard_case_state_transition k c new db =
     (let old = sc_state c; of_case = (\<lambda>k' i. fst k' = fst k \<and> i = snd k) in
      ensure
       (old = new
        \<or> old = CS_INTAKE \<and> new = CS_PLANNING
        \<or> old = CS_PLANNING \<and> new = CS_ADVISOR_REVIEW
            \<and> list_ex (\<lambda>(k', r). of_case k' (run_case r) \<and> run_case_revision r = sc_current_revision c
                  \<and> run_is_current r \<and> run_status r = RS_REVIEW_REQUIRED) (runs (base db))
        \<or> old = CS_ADVISOR_REVIEW \<and> new = CS_FAMILY_REVIEW
            \<and> list_ex (\<lambda>(k', b). of_case k' (bw_case b) \<and> bw_revision b = sc_current_revision c
                  \<and> bw_is_current b) (briefs db)
        \<or> old = CS_ADVISOR_REVIEW \<and> new = CS_PLANNING
            \<and> list_ex (\<lambda>(k', a). of_case k' (ar_case a) \<and> ar_revision a = sc_current_revision c
                  \<and> ar_action a \<in> {''reject'', ''request_revision''}
                  \<and> (case map_of (runs (base db)) (fst k', ar_run a) of None \<Rightarrow> False
                     | Some r \<Rightarrow> run_is_current r)) (reviews db)
        \<or> old = CS_FAMILY_REVIEW \<and> new = CS_DECIDED
            \<and> list_ex (\<lambda>(k', d). of_case k' (fd_case d)) (decisions db)
        \<or> old = CS_DECIDED \<and> new = CS_PLAN_READY
            \<and> list_ex (\<lambda>(k', d). of_case k' (fd_case d)
                  \<and> list_ex (\<lambda>(kp, p). fst kp = fst k' \<and> pl_decision p = snd k') (plans db)) (decisions db))
       NV006)"

text \<open>\<open>UPDATE app.student_cases SET state=new WHERE ... AND state=old\<close>\<close>

definition advance_case :: "row_key \<Rightarrow> case_state \<Rightarrow> case_state \<Rightarrow> decision_db \<Rightarrow> sql_error + decision_db" where
  "advance_case k old new db =
     (case map_of (cases (base db)) k of None \<Rightarrow> Inr db
      | Some c \<Rightarrow>
          if sc_state c \<noteq> old then Inr db
          else bind_result (guard_case_state_transition k c new db) (\<lambda>_.
            Inr (db\<lparr>base := (base db)\<lparr>cases := AList.update k (c\<lparr>sc_state := new\<rparr>) (cases (base db))\<rparr>\<rparr>)))"

definition case_state_of :: "row_key \<Rightarrow> decision_db \<Rightarrow> case_state option" where
  "case_state_of k db = map_option sc_state (map_of (cases (base db)) k)"

definition write_audit :: "uuid \<Rightarrow> audit_row \<Rightarrow> decision_db \<Rightarrow> decision_db" where
  "write_audit org row db = db\<lparr>audit := audit db @ [(org, row)]\<rparr>"

definition remember :: "idem_key \<Rightarrow> sha \<Rightarrow> uuid \<Rightarrow> decision_db \<Rightarrow> decision_db" where
  "remember key_row hash response db =
     db\<lparr>base := (base db)\<lparr>idempotency := AList.update key_row
          \<lparr>ir_request_sha256 = hash, ir_response_id = response\<rparr> (idempotency (base db))\<rparr>\<rparr>"

section \<open>Advisor review\<close>

record review_request =
  vr_org :: uuid
  vr_actor :: uuid
  vr_case :: uuid
  vr_run :: uuid
  vr_revision :: int
  vr_action :: string
  vr_review :: uuid
  vr_eligible :: "uuid list"
  vr_risks :: "risk_json list"
  vr_notes :: "string option"
  vr_brief :: "uuid option"
  vr_projection :: "brief_json option"
  vr_source_date :: date
  vr_key_hash :: sha
  vr_request_hash :: sha

definition review_key :: "review_request \<Rightarrow> idem_key" where
  "review_key r = idem_key_of ''advisor_review'' (vr_org r) (vr_actor r) (vr_key_hash r)"

definition brief_of_review :: "row_key \<Rightarrow> decision_db \<Rightarrow> uuid option" where
  "brief_of_review k db =
     map_option (\<lambda>(k', b). snd k') (find (\<lambda>(k', b). fst k' = fst k \<and> bw_review b = snd k) (briefs db))"

type_synonym review_out = "uuid \<times> uuid option \<times> case_state option \<times> bool"

text \<open>The target of a review: an assigned advisor, the current revision in advisor review and its current run.
  The second lookup of the key, behind the lock of the case, finds what the first one found.\<close>

definition admit_review ::
  "participants \<Rightarrow> review_request \<Rightarrow> decision_db \<Rightarrow> sql_error + planning_run" where
  "admit_review part r db =
     (if \<not> part (vr_org r) (vr_case r) (vr_actor r) ''advisor'' then Inl NV007
      else case map_of (cases (base db)) (vr_org r, vr_case r) of None \<Rightarrow> Inl NV003
      | Some c \<Rightarrow>
        if vr_action r = ''request_revision''
           \<and> list_ex (\<lambda>(k, a). fst k = vr_org r \<and> ar_run a = vr_run r \<and> ar_action a = ''request_revision'') (reviews db)
        then Inl NV008
        else if sc_current_revision c \<noteq> vr_revision r \<or> sc_state c \<noteq> CS_ADVISOR_REVIEW then Inl NV003
        else case map_of (runs (base db)) (vr_org r, vr_run r) of None \<Rightarrow> Inl NV003
        | Some run \<Rightarrow>
            if run_case run = vr_case r \<and> run_case_revision run = vr_revision r
               \<and> run_status run = RS_REVIEW_REQUIRED \<and> run_is_current run then Inr run else Inl NV003)"

definition review_contract :: "review_request \<Rightarrow> bool" where
  "review_contract r \<longleftrightarrow>
     vr_action r \<in> {''approve_for_consultation'', ''reject'', ''request_revision''}
     \<and> (vr_action r = ''approve_for_consultation''
        \<or> vr_eligible r = [] \<and> vr_risks r = [] \<and> vr_brief r = None)
     \<and> distinct (vr_eligible r)
     \<and> distinct (map (\<lambda>k. (rj_evidence k, rj_kind k)) (vr_risks r))"

text \<open>The projection that the database computes itself, with the date of the sources.\<close>

definition canonical_projection ::
  "decision_facts \<Rightarrow> review_request \<Rightarrow> planning_run \<Rightarrow> sql_error + date \<times> brief_json" where
  "canonical_projection facts r run =
     (case (pack_snapshot facts (vr_org r) (run_source_pack run) (run_source_pack_version run),
            pinned_intake facts (vr_org r) (vr_case r) (vr_revision r)) of
        (Some d, Some i) \<Rightarrow>
          Inr (d, \<lparr>bj_schema_version = 1, bj_routes = routes_of_run facts (vr_org r, vr_run r),
            bj_eligible = vr_eligible r, bj_risks = vr_risks r, bj_intake = i, bj_synthetic_proof = True\<rparr>)
      | _ \<Rightarrow> Inl NV006)"

definition next_review_version :: "row_key \<Rightarrow> decision_db \<Rightarrow> int" where
  "next_review_version run db =
     fold max (map (\<lambda>(k, a). ar_version a)
       (filter (\<lambda>(k, a). fst k = fst run \<and> ar_run a = snd run) (reviews db))) 0 + 1"

definition insert_review :: "review_request \<Rightarrow> decision_db \<Rightarrow> sql_error + decision_db" where
  "insert_review r db =
     (let version = next_review_version (vr_org r, vr_run r) db in
      if map_of (reviews db) (vr_org r, vr_review r) \<noteq> None
         \<or> list_ex (\<lambda>(k, a). fst k = vr_org r \<and> ar_run a = vr_run r
              \<and> (ar_version a = version
                 \<or> ar_action a = ''request_revision'' \<and> vr_action r = ''request_revision'')) (reviews db)
      then Inl NV008
      else Inr (db\<lparr>reviews := reviews db @ [((vr_org r, vr_review r),
             \<lparr>ar_case = vr_case r, ar_revision = vr_revision r, ar_run = vr_run r, ar_version = version,
              ar_advisor = vr_actor r, ar_action = vr_action r, ar_eligible = vr_eligible r,
              ar_risks = vr_risks r, ar_notes = vr_notes r\<rparr>)]\<rparr>))"

definition explicit_risk :: "risk_json \<Rightarrow> bool" where
  "explicit_risk k \<longleftrightarrow>
     rj_kind k \<in> Some ` {''optional'', ''stale'', ''unverified''}
     \<and> (case rj_reason k of None \<Rightarrow> False | Some s \<Rightarrow> \<not> list_all (\<lambda>c. c = CHR '' '') s)"

definition accept_risk ::
  "decision_facts \<Rightarrow> review_request \<Rightarrow> planning_run \<Rightarrow> risk_json \<Rightarrow> decision_db \<Rightarrow> sql_error + decision_db" where
  "accept_risk facts r run k db =
     (if \<not> explicit_risk k then Inl NV006
      else case rj_evidence k of None \<Rightarrow> Inl NV006
      | Some e \<Rightarrow>
        if \<not> evidence_in_pack facts (vr_org r) e (run_source_pack run) (run_source_pack_version run)
           \<or> \<not> evidence_of_run facts (vr_org r, vr_run r) e then Inl NV006
        else
          let row = \<lparr>ra_evidence = e, ra_kind = the (rj_kind k), ra_reason = the (rj_reason k)\<rparr> in
          if list_ex (\<lambda>x. ra_evidence x = ra_evidence row \<and> ra_kind x = ra_kind row)
               (rows_of (vr_org r, vr_review r) (acceptances db)) then Inl UNIQUE_VIOLATION
          else Inr (db\<lparr>acceptances := acceptances db @ [((vr_org r, vr_review r), row)]\<rparr>))"

fun accept_risks ::
  "decision_facts \<Rightarrow> review_request \<Rightarrow> planning_run \<Rightarrow> risk_json list \<Rightarrow> decision_db \<Rightarrow> sql_error + decision_db" where
  "accept_risks facts r run [] db = Inr db"
| "accept_risks facts r run (k # ks) db =
     bind_result (accept_risk facts r run k db) (accept_risks facts r run ks)"

definition recommended_australia :: "decision_facts \<Rightarrow> row_key \<Rightarrow> uuid \<Rightarrow> bool" where
  "recommended_australia facts run i \<longleftrightarrow>
     list_ex (\<lambda>x. route_id x = i \<and> br_country x = AUSTRALIA \<and> br_outcome x = RO_RECOMMENDED_WITH_CONDITION)
       (routes_of_run facts run)"

definition new_brief :: "review_request \<Rightarrow> planning_run \<Rightarrow> sha \<Rightarrow> date \<Rightarrow> brief_json \<Rightarrow> brief_row" where
  "new_brief r run output_hash source_date canonical =
     \<lparr>bw_case = vr_case r, bw_revision = vr_revision r, bw_run = vr_run r, bw_review = vr_review r,
      bw_version = 1, bw_policy = run_policy_version run, bw_pack = run_source_pack run,
      bw_pack_version = run_source_pack_version run, bw_evidence_sha256 = run_evidence_sha256 run,
      bw_output_sha256 = output_hash, bw_snapshot = source_date, bw_projection = canonical,
      bw_is_current = True\<rparr>"

definition insert_brief :: "uuid \<Rightarrow> uuid \<Rightarrow> brief_row \<Rightarrow> decision_db \<Rightarrow> sql_error + decision_db" where
  "insert_brief org i b db =
     (if length (bw_evidence_sha256 b) \<noteq> 64 \<or> length (bw_output_sha256 b) \<noteq> 64 then Inl CHECK_VIOLATION
      else if map_of (briefs db) (org, i) \<noteq> None
              \<or> list_ex (\<lambda>(k, b'). fst k = org \<and> bw_case b' = bw_case b \<and> bw_is_current b') (briefs db)
      then Inl UNIQUE_VIOLATION
      else Inr (db\<lparr>briefs := briefs db @ [((org, i), b)]\<rparr>))"

definition approve_run ::
  "decision_facts \<Rightarrow> review_request \<Rightarrow> planning_run \<Rightarrow> date \<times> brief_json \<Rightarrow> decision_db \<Rightarrow> sql_error + decision_db" where
  "approve_run facts r run canonical db =
     (if vr_source_date r \<noteq> fst canonical \<or> vr_projection r \<noteq> Some (snd canonical) then Inl NV006
      else case vr_brief r of None \<Rightarrow> Inl NV006
      | Some i \<Rightarrow>
        if vr_eligible r = [] \<or> \<not> list_all (recommended_australia facts (vr_org r, vr_run r)) (vr_eligible r) then Inl NV006
        else case run_output_sha256 run of None \<Rightarrow> Inl NOT_NULL_VIOLATION
        | Some hash \<Rightarrow>
          bind_result (insert_brief (vr_org r) i (new_brief r run hash (fst canonical) (snd canonical)) db)
            (advance_case (vr_org r, vr_case r) CS_ADVISOR_REVIEW CS_FAMILY_REVIEW))"

definition conclude_review ::
  "decision_facts \<Rightarrow> review_request \<Rightarrow> planning_run \<Rightarrow> date \<times> brief_json \<Rightarrow> decision_db \<Rightarrow> sql_error + decision_db" where
  "conclude_review facts r run canonical db =
     (if vr_action r = ''approve_for_consultation'' then approve_run facts r run canonical db
      else advance_case (vr_org r, vr_case r) CS_ADVISOR_REVIEW CS_PLANNING db)"

definition record_review :: "review_request \<Rightarrow> decision_db \<Rightarrow> decision_db" where
  "record_review r db =
     remember (review_key r) (vr_request_hash r) (vr_review r)
       (write_audit (vr_org r) \<lparr>au_case = vr_case r, au_actor = vr_actor r, au_event = ''advisor_review'',
          au_subject = vr_review r, au_payload = Payload_action (vr_action r)\<rparr> db)"

definition review_planning_run ::
  "participants \<Rightarrow> decision_facts \<Rightarrow> session \<Rightarrow> review_request \<Rightarrow> decision_db
     \<Rightarrow> sql_error + decision_db \<times> review_out" where
  "review_planning_run part facts ses r db =
     bind_result (assert_m3b_context ses (vr_org r) (vr_actor r) ''advisor'') (\<lambda>_.
     case map_of (idempotency (base db)) (review_key r) of
       Some prior \<Rightarrow>
         if ir_request_sha256 prior \<noteq> vr_request_hash r then Inl NV008
         else Inr (db, ir_response_id prior, brief_of_review (vr_org r, ir_response_id prior) db,
                   case_state_of (vr_org r, vr_case r) db, True)
     | None \<Rightarrow>
         bind_result (admit_review part r db) (\<lambda>run.
         bind_result (ensure (review_contract r) NV006) (\<lambda>_.
         bind_result (canonical_projection facts r run) (\<lambda>canonical.
         bind_result (insert_review r db) (\<lambda>db1.
         bind_result (accept_risks facts r run (vr_risks r) db1) (\<lambda>db2.
         bind_result (conclude_review facts r run canonical db2) (\<lambda>db3.
           let db4 = record_review r db3 in
           Inr (db4, vr_review r, vr_brief r, case_state_of (vr_org r, vr_case r) db4, False))))))))"

section \<open>Family decision\<close>

record decide_request =
  dq_org :: uuid
  dq_actor :: uuid
  dq_role :: string
  dq_brief :: uuid
  dq_version :: int
  dq_decision :: uuid
  dq_receipt :: uuid
  dq_route :: uuid
  dq_min :: int
  dq_max :: int
  dq_currency :: string
  dq_trade_offs :: "string list"
  dq_made_by :: uuid
  dq_source :: string
  dq_timeline :: uuid
  dq_milestones :: "milestone_json list"
  dq_key_hash :: sha
  dq_request_hash :: sha

definition decide_key :: "decide_request \<Rightarrow> idem_key" where
  "decide_key r = idem_key_of ''family_decision'' (dq_org r) (dq_actor r) (dq_key_hash r)"

type_synonym decide_out = "uuid \<times> uuid option \<times> uuid option \<times> bool"

definition plan_of_decision :: "row_key \<Rightarrow> decision_db \<Rightarrow> uuid option" where
  "plan_of_decision k db =
     map_option (\<lambda>(k', p). snd k') (find (\<lambda>(k', p). fst k' = fst k \<and> pl_decision p = snd k) (plans db))"

definition current_brief :: "decide_request \<Rightarrow> decision_db \<Rightarrow> sql_error + brief_row" where
  "current_brief r db =
     (case map_of (briefs db) (dq_org r, dq_brief r) of None \<Rightarrow> Inl NV003
      | Some b \<Rightarrow>
        if bw_version b \<noteq> dq_version r \<or> \<not> bw_is_current b then Inl NV003
        else case map_of (cases (base db)) (dq_org r, bw_case b) of None \<Rightarrow> Inl NV003
        | Some c \<Rightarrow> if sc_current_revision c = bw_revision b \<and> sc_state c = CS_FAMILY_REVIEW then Inr b
                    else Inl NV003)"

definition may_decide :: "participants \<Rightarrow> decide_request \<Rightarrow> brief_row \<Rightarrow> bool" where
  "may_decide part r b \<longleftrightarrow>
     (if dq_role r \<in> {''student'', ''parent''} then dq_actor r = dq_made_by r \<and> dq_source r = ''direct''
      else dq_role r = ''advisor'' \<and> dq_source r = ''family_consultation''
        \<and> (part (dq_org r) (bw_case b) (dq_made_by r) ''student''
           \<or> part (dq_org r) (bw_case b) (dq_made_by r) ''parent''))
     \<and> part (dq_org r) (bw_case b) (dq_actor r) (dq_role r)"

text \<open>A comparison with a null is not true: an absent review, cost or ceiling refuses nothing.\<close>

definition selected_route :: "decision_facts \<Rightarrow> decide_request \<Rightarrow> brief_row \<Rightarrow> decision_db \<Rightarrow> sql_error + brief_route" where
  "selected_route facts r b db =
     (case find (\<lambda>x. route_id x = dq_route r) (routes_of_run facts (dq_org r, bw_run b)) of None \<Rightarrow> Inl NV006
      | Some x \<Rightarrow>
        if br_country x \<noteq> AUSTRALIA \<or> br_outcome x \<noteq> RO_RECOMMENDED_WITH_CONDITION
           \<or> (case map_of (reviews db) (dq_org r, bw_review b) of None \<Rightarrow> False
              | Some a \<Rightarrow> ar_action a = ''approve_for_consultation'' \<and> dq_route r \<notin> set (ar_eligible a))
        then Inl NV006 else Inr x)"

definition check_budget :: "decision_facts \<Rightarrow> decide_request \<Rightarrow> brief_row \<Rightarrow> sql_error + unit" where
  "check_budget facts r b =
     (if dq_currency r \<noteq> ''CNY'' \<or> dq_min r \<le> 0 \<or> dq_max r < dq_min r then Inl NV006
      else if ''budget_elasticity'' \<notin> set (dq_trade_offs r) then Inl NV006
      else bind_result (cost_cny facts (dq_org r, bw_run b)) (\<lambda>cost.
        if (case cost of None \<Rightarrow> False | Some c \<Rightarrow> \<not> (dq_min r \<le> c \<and> c \<le> dq_max r))
           \<or> (case pinned_hard_ceiling facts (dq_org r) (bw_case b) (bw_revision b) of None \<Rightarrow> False
              | Some h \<Rightarrow> dq_max r > h)
        then Inl NV006 else Inr ()))"

text \<open>\<open>'^[0-9]{4}-02$'\<close>\<close>

definition february_intake :: "string \<Rightarrow> bool" where
  "february_intake s \<longleftrightarrow> length s = 7 \<and> list_all (\<lambda>c. digit_value c \<noteq> None) (take 4 s) \<and> drop 4 s = ''-02''"

definition intake_year :: "string \<Rightarrow> int" where
  "intake_year s = foldl (\<lambda>n c. 10 * n + the (digit_value c)) 0 (take 4 s)"

definition milestone :: "string \<Rightarrow> date option \<Rightarrow> milestone_json" where
  "milestone k d = \<lparr>ms_key = Some k, ms_due = d, ms_other_keys = []\<rparr>"

text \<open>\<open>make_date\<close> has no year 0; a null intake gives null dates.\<close>

definition canonical_milestones :: "string option \<Rightarrow> sql_error + milestone_json list" where
  "canonical_milestones pin =
     (let plan = (\<lambda>documents application visa arrival.
            [milestone ''documents'' documents, milestone ''application'' application,
             milestone ''visa'' visa, milestone ''arrival'' arrival]) in
      case pin of None \<Rightarrow> Inr (plan None None None None)
      | Some s \<Rightarrow>
        if \<not> february_intake s then Inl NV006
        else let y = intake_year s in
          if y = 0 \<or> y = 1 then Inl DATETIME_OVERFLOW
          else Inr (plan (Some (y - 1, 9, 1)) (Some (y - 1, 10, 15)) (Some (y - 1, 12, 15)) (Some (y, 1, 20))))"

definition check_timeline :: "decision_facts \<Rightarrow> decide_request \<Rightarrow> brief_row \<Rightarrow> sql_error + milestone_json list" where
  "check_timeline facts r b =
     bind_result (canonical_milestones (pinned_intake facts (dq_org r) (bw_case b) (bw_revision b))) (\<lambda>ms.
       if dq_milestones r \<noteq> ms then Inl NV006 else Inr ms)"

definition insert_decision :: "decide_request \<Rightarrow> brief_row \<Rightarrow> decision_db \<Rightarrow> sql_error + decision_db" where
  "insert_decision r b db =
     (if dq_source r \<notin> {''direct'', ''family_consultation''} then Inl CHECK_VIOLATION
      else if map_of (decisions db) (dq_org r, dq_decision r) \<noteq> None
              \<or> list_ex (\<lambda>(k, d). fst k = dq_org r \<and> (fd_receipt d = dq_receipt r \<or> fd_brief d = dq_brief r)) (decisions db)
      then Inl UNIQUE_VIOLATION
      else Inr (db\<lparr>decisions := decisions db @ [((dq_org r, dq_decision r),
             \<lparr>fd_receipt = dq_receipt r, fd_case = bw_case b, fd_brief = dq_brief r, fd_brief_version = dq_version r,
              fd_route = dq_route r, fd_min = dq_min r, fd_max = dq_max r, fd_currency = dq_currency r,
              fd_trade_offs = dq_trade_offs r, fd_made_by = dq_made_by r, fd_recorded_by = dq_actor r,
              fd_source = dq_source r, fd_run = bw_run b\<rparr>)]\<rparr>))"

definition insert_plan ::
  "decide_request \<Rightarrow> country \<Rightarrow> string option \<Rightarrow> milestone_json list \<Rightarrow> decision_db \<Rightarrow> sql_error + decision_db" where
  "insert_plan r land pin ms db =
     (case pin of None \<Rightarrow> Inl NOT_NULL_VIOLATION
      | Some i \<Rightarrow>
        if map_of (plans db) (dq_org r, dq_timeline r) \<noteq> None
           \<or> list_ex (\<lambda>(k, p). fst k = dq_org r \<and> pl_decision p = dq_decision r) (plans db)
        then Inl UNIQUE_VIOLATION
        else Inr (db\<lparr>plans := plans db @ [((dq_org r, dq_timeline r),
               \<lparr>pl_decision = dq_decision r, pl_schema_version = 1, pl_country = land, pl_intake = i,
                pl_milestones = ms\<rparr>)]\<rparr>))"

text \<open>The trigger on briefs: only the current flag may change, and only to false.\<close>

definition guard_decision_brief_mutation :: "brief_row \<Rightarrow> brief_row \<Rightarrow> sql_error + brief_row" where
  "guard_decision_brief_mutation old new =
     (if bw_is_current old \<and> \<not> bw_is_current new \<and> new\<lparr>bw_is_current := True\<rparr> = old then Inr new else Inl NV006)"

definition retire_brief :: "row_key \<Rightarrow> decision_db \<Rightarrow> sql_error + decision_db" where
  "retire_brief k db =
     bind_result (update_where (\<lambda>k' b. k' = k)
         (\<lambda>b. guard_decision_brief_mutation b (b\<lparr>bw_is_current := False\<rparr>)) (briefs db))
       (\<lambda>rows. Inr (db\<lparr>briefs := rows\<rparr>))"

definition audit_decision :: "decide_request \<Rightarrow> brief_row \<Rightarrow> decision_db \<Rightarrow> decision_db" where
  "audit_decision r b db =
     write_audit (dq_org r) \<lparr>au_case = bw_case b, au_actor = dq_actor r, au_event = ''timeline_plan'',
         au_subject = dq_timeline r, au_payload = Payload_empty\<rparr>
       (write_audit (dq_org r) \<lparr>au_case = bw_case b, au_actor = dq_actor r, au_event = ''family_decision'',
         au_subject = dq_decision r, au_payload = Payload_receipt (dq_receipt r)\<rparr> db)"

definition record_decision ::
  "decision_facts \<Rightarrow> decide_request \<Rightarrow> brief_row \<Rightarrow> brief_route \<Rightarrow> milestone_json list \<Rightarrow> decision_db
     \<Rightarrow> sql_error + decision_db" where
  "record_decision facts r b route ms db =
     (let k = (dq_org r, bw_case b); pin = pinned_intake facts (dq_org r) (bw_case b) (bw_revision b) in
      bind_result (insert_decision r b db) (\<lambda>db1.
      bind_result (advance_case k CS_FAMILY_REVIEW CS_DECIDED db1) (\<lambda>db2.
      bind_result (insert_plan r (br_country route) pin ms db2) (\<lambda>db3.
      bind_result (advance_case k CS_DECIDED CS_PLAN_READY db3) (\<lambda>db4.
      bind_result (retire_brief (dq_org r, dq_brief r) (audit_decision r b db4)) (\<lambda>db5.
        Inr (remember (decide_key r) (dq_request_hash r) (dq_decision r) db5)))))))"

definition decide_family_brief ::
  "participants \<Rightarrow> decision_facts \<Rightarrow> session \<Rightarrow> decide_request \<Rightarrow> decision_db
     \<Rightarrow> sql_error + decision_db \<times> decide_out" where
  "decide_family_brief part facts ses r db =
     bind_result (assert_m3b_context ses (dq_org r) (dq_actor r) (dq_role r)) (\<lambda>_.
     case map_of (idempotency (base db)) (decide_key r) of
       Some prior \<Rightarrow>
         if ir_request_sha256 prior \<noteq> dq_request_hash r then Inl NV008
         else Inr (db, ir_response_id prior,
                   map_option fd_receipt (map_of (decisions db) (dq_org r, ir_response_id prior)),
                   plan_of_decision (dq_org r, ir_response_id prior) db, True)
     | None \<Rightarrow>
         bind_result (current_brief r db) (\<lambda>b.
         bind_result (ensure (may_decide part r b) NV007) (\<lambda>_.
         bind_result (selected_route facts r b db) (\<lambda>route.
         bind_result (check_budget facts r b) (\<lambda>_.
         bind_result (check_timeline facts r b) (\<lambda>ms.
         bind_result (record_decision facts r b route ms db) (\<lambda>db'.
           Inr (db', dq_decision r, Some (dq_receipt r), Some (dq_timeline r), False))))))))"

end
