(* ===== verification/Decision_Effects.thy ===== *)
theory Decision_Effects
  imports Decision_Authority
begin

text \<open>
  What a successful review and a successful decision leave behind, as explicit changes of the tables.
\<close>

section \<open>Statements\<close>

lemma update_update: "AList.update k v (AList.update k w xs) = AList.update k v xs"
  by (induction xs) auto

definition put_case :: "row_key \<Rightarrow> student_case \<Rightarrow> decision_db \<Rightarrow> decision_db" where
  "put_case k c db = db\<lparr>base := (base db)\<lparr>cases := AList.update k c (cases (base db))\<rparr>\<rparr>"

lemma put_case_simps [simp]:
  "cases (base (put_case k c db)) = AList.update k c (cases (base db))"
  "runs (base (put_case k c db)) = runs (base db)"
  "idempotency (base (put_case k c db)) = idempotency (base db)"
  "reviews (put_case k c db) = reviews db" "acceptances (put_case k c db) = acceptances db"
  "briefs (put_case k c db) = briefs db" "decisions (put_case k c db) = decisions db"
  "plans (put_case k c db) = plans db" "audit (put_case k c db) = audit db"
  "put_case k c (put_case k c' db) = put_case k c db"
  by (simp_all add: put_case_def update_update)

lemma remember_simps [simp]:
  "cases (base (remember key_row h i db)) = cases (base db)" "runs (base (remember key_row h i db)) = runs (base db)"
  "idempotency (base (remember key_row h i db)) =
     AList.update key_row \<lparr>ir_request_sha256 = h, ir_response_id = i\<rparr> (idempotency (base db))"
  "reviews (remember key_row h i db) = reviews db" "acceptances (remember key_row h i db) = acceptances db"
  "briefs (remember key_row h i db) = briefs db" "decisions (remember key_row h i db) = decisions db"
  "plans (remember key_row h i db) = plans db" "audit (remember key_row h i db) = audit db"
  by (simp_all add: remember_def)

lemma write_audit_simps [simp]:
  "base (write_audit org row db) = base db" "reviews (write_audit org row db) = reviews db"
  "acceptances (write_audit org row db) = acceptances db" "briefs (write_audit org row db) = briefs db"
  "decisions (write_audit org row db) = decisions db" "plans (write_audit org row db) = plans db"
  by (simp_all add: write_audit_def)

lemma record_review_simps [simp]:
  "cases (base (record_review r db)) = cases (base db)" "runs (base (record_review r db)) = runs (base db)"
  "idempotency (base (record_review r db)) = AList.update (review_key r)
     \<lparr>ir_request_sha256 = vr_request_hash r, ir_response_id = vr_review r\<rparr> (idempotency (base db))"
  "reviews (record_review r db) = reviews db" "acceptances (record_review r db) = acceptances db"
  "briefs (record_review r db) = briefs db" "decisions (record_review r db) = decisions db"
  "plans (record_review r db) = plans db"
  by (simp_all add: record_review_def)

lemma audit_decision_simps [simp]:
  "base (audit_decision r b db) = base db" "reviews (audit_decision r b db) = reviews db"
  "acceptances (audit_decision r b db) = acceptances db" "briefs (audit_decision r b db) = briefs db"
  "decisions (audit_decision r b db) = decisions db" "plans (audit_decision r b db) = plans db"
  by (simp_all add: audit_decision_def)

lemma advance_case_Inr:
  assumes "map_of (cases (base db)) k = Some c" "sc_state c = old"
  shows "advance_case k old new db = Inr db' \<longleftrightarrow>
    guard_case_state_transition k c new db = Inr () \<and> db' = put_case k (c\<lparr>sc_state := new\<rparr>) db"
  using assms by (auto simp: advance_case_def put_case_def)

definition governed_risk :: "decision_facts \<Rightarrow> uuid \<Rightarrow> uuid \<Rightarrow> planning_run \<Rightarrow> risk_acceptance \<Rightarrow> bool" where
  "governed_risk facts org run_id run x \<longleftrightarrow>
     ra_kind x \<in> {''optional'', ''stale'', ''unverified''} \<and> \<not> list_all (\<lambda>c. c = CHR '' '') (ra_reason x)
     \<and> evidence_in_pack facts org (ra_evidence x) (run_source_pack run) (run_source_pack_version run)
     \<and> evidence_of_run facts (org, run_id) (ra_evidence x)"

lemma accept_risk_Inr:
  assumes "accept_risk facts r run j db = Inr db'"
  shows "explicit_risk j \<and> rj_evidence j \<noteq> None \<and> (\<exists>x. governed_risk facts (vr_org r) (vr_run r) run x
    \<and> db' = db\<lparr>acceptances := acceptances db @ [((vr_org r, vr_review r), x)]\<rparr>)"
proof -
  from assms obtain e where e: "rj_evidence j = Some e" "explicit_risk j"
    "evidence_in_pack facts (vr_org r) e (run_source_pack run) (run_source_pack_version run)"
    "evidence_of_run facts (vr_org r, vr_run r) e"
    "db' = db\<lparr>acceptances := acceptances db @ [((vr_org r, vr_review r),
       \<lparr>ra_evidence = e, ra_kind = the (rj_kind j), ra_reason = the (rj_reason j)\<rparr>)]\<rparr>"
    by (auto simp: accept_risk_def Let_def split: option.splits if_splits)
  then have "governed_risk facts (vr_org r) (vr_run r) run
      \<lparr>ra_evidence = e, ra_kind = the (rj_kind j), ra_reason = the (rj_reason j)\<rparr>"
    by (auto simp: governed_risk_def explicit_risk_def split: option.splits)
  with e show ?thesis by blast
qed

lemma accept_risks_Inr:
  assumes "accept_risks facts r run js db = Inr db'"
  shows "\<exists>rows. db' = db\<lparr>acceptances := acceptances db @ map (Pair (vr_org r, vr_review r)) rows\<rparr>
    \<and> list_all (governed_risk facts (vr_org r) (vr_run r) run) rows
    \<and> list_all (\<lambda>j. explicit_risk j \<and> rj_evidence j \<noteq> None) js"
  using assms
proof (induction js arbitrary: db)
  case Nil
  then show ?case by (intro exI [of _ "[]"]) simp
next
  case (Cons j js)
  then obtain db1 where one: "accept_risk facts r run j db = Inr db1" and rest: "accept_risks facts r run js db1 = Inr db'"
    by auto
  from accept_risk_Inr [OF one] obtain x where x: "explicit_risk j" "rj_evidence j \<noteq> None"
    "governed_risk facts (vr_org r) (vr_run r) run x"
    "db1 = db\<lparr>acceptances := acceptances db @ [((vr_org r, vr_review r), x)]\<rparr>" by blast
  from Cons.IH [OF rest] obtain rows where
    "db' = db1\<lparr>acceptances := acceptances db1 @ map (Pair (vr_org r, vr_review r)) rows\<rparr>"
    "list_all (governed_risk facts (vr_org r) (vr_run r) run) rows"
    "list_all (\<lambda>j. explicit_risk j \<and> rj_evidence j \<noteq> None) js" by blast
  with x show ?case by (intro exI [of _ "x # rows"]) simp
qed

section \<open>Reviews\<close>

definition new_review :: "review_request \<Rightarrow> decision_db \<Rightarrow> advisor_review" where
  "new_review r db = \<lparr>ar_case = vr_case r, ar_revision = vr_revision r, ar_run = vr_run r,
     ar_version = next_review_version (vr_org r, vr_run r) db, ar_advisor = vr_actor r, ar_action = vr_action r,
     ar_eligible = vr_eligible r, ar_risks = vr_risks r, ar_notes = vr_notes r\<rparr>"

lemma insert_review_Inr:
  "insert_review r db = Inr db' \<longleftrightarrow>
     map_of (reviews db) (vr_org r, vr_review r) = None
     \<and> \<not> list_ex (\<lambda>(k, a). fst k = vr_org r \<and> ar_run a = vr_run r
          \<and> (ar_version a = next_review_version (vr_org r, vr_run r) db
             \<or> ar_action a = ''request_revision'' \<and> vr_action r = ''request_revision'')) (reviews db)
     \<and> db' = db\<lparr>reviews := reviews db @ [((vr_org r, vr_review r), new_review r db)]\<rparr>"
  by (auto simp: insert_review_def new_review_def Let_def)

text \<open>The target of a review that is admitted.\<close>

definition review_target :: "participants \<Rightarrow> review_request \<Rightarrow> student_case \<Rightarrow> planning_run \<Rightarrow> decision_db \<Rightarrow> bool" where
  "review_target part r c run db \<longleftrightarrow>
     part (vr_org r) (vr_case r) (vr_actor r) ''advisor''
     \<and> map_of (cases (base db)) (vr_org r, vr_case r) = Some c
     \<and> sc_current_revision c = vr_revision r \<and> sc_state c = CS_ADVISOR_REVIEW
     \<and> map_of (runs (base db)) (vr_org r, vr_run r) = Some run
     \<and> run_case run = vr_case r \<and> run_case_revision run = vr_revision r
     \<and> run_status run = RS_REVIEW_REQUIRED \<and> run_is_current run"

lemma admit_review_Inr:
  assumes "admit_review part r db = Inr run"
  obtains c where "review_target part r c run db"
    "vr_action r = ''request_revision'' \<Longrightarrow>
       \<not> list_ex (\<lambda>(k, a). fst k = vr_org r \<and> ar_run a = vr_run r \<and> ar_action a = ''request_revision'') (reviews db)"
proof -
  note u = assms [unfolded admit_review_def]
  from u obtain c where c: "map_of (cases (base db)) (vr_org r, vr_case r) = Some c"
    by (cases "map_of (cases (base db)) (vr_org r, vr_case r)") (auto split: if_splits)
  from u c obtain q where q: "map_of (runs (base db)) (vr_org r, vr_run r) = Some q"
    by (cases "map_of (runs (base db)) (vr_org r, vr_run r)") (auto split: if_splits)
  from u c q show ?thesis
    by (intro that [of c]) (auto simp: review_target_def split: if_splits)
qed

lemma review_cases:
  assumes "review_planning_run part facts ses r db = Inr (db', out)"
  obtains (replay) prior where "map_of (idempotency (base db)) (review_key r) = Some prior"
      "ir_request_sha256 prior = vr_request_hash r" "db' = db"
      "out = (ir_response_id prior, brief_of_review (vr_org r, ir_response_id prior) db,
                case_state_of (vr_org r, vr_case r) db, True)"
  | (returned) c run where "map_of (idempotency (base db)) (review_key r) = None"
      "review_target part r c run db" "map_of (reviews db) (vr_org r, vr_review r) = None"
      "vr_action r \<in> {''reject'', ''request_revision''}" "vr_eligible r = []"
      "db' = record_review r (put_case (vr_org r, vr_case r) (c\<lparr>sc_state := CS_PLANNING\<rparr>)
         (db\<lparr>reviews := reviews db @ [((vr_org r, vr_review r), new_review r db)]\<rparr>))"
      "out = (vr_review r, None, Some CS_PLANNING, False)"
  | (approved) c run i d s hash rows where "map_of (idempotency (base db)) (review_key r) = None"
      "review_target part r c run db" "map_of (reviews db) (vr_org r, vr_review r) = None"
      "vr_action r = ''approve_for_consultation''" "distinct (vr_eligible r)"
      "canonical_projection facts r run = Inr (d, s)" "vr_brief r = Some i"
      "vr_eligible r \<noteq> []" "list_all (recommended_australia facts (vr_org r, vr_run r)) (vr_eligible r)"
      "run_output_sha256 run = Some hash" "map_of (briefs db) (vr_org r, i) = None"
      "\<not> list_ex (\<lambda>(k, b). fst k = vr_org r \<and> bw_case b = vr_case r \<and> bw_is_current b) (briefs db)"
      "list_all (governed_risk facts (vr_org r) (vr_run r) run) rows"
      "list_all (\<lambda>j. explicit_risk j \<and> rj_evidence j \<noteq> None) (vr_risks r)"
      "db' = record_review r (put_case (vr_org r, vr_case r) (c\<lparr>sc_state := CS_FAMILY_REVIEW\<rparr>)
         (db\<lparr>reviews := reviews db @ [((vr_org r, vr_review r), new_review r db)],
             acceptances := acceptances db @ map (Pair (vr_org r, vr_review r)) rows,
             briefs := briefs db @ [((vr_org r, i), new_brief r run hash d s)]\<rparr>))"
      "out = (vr_review r, Some i, Some CS_FAMILY_REVIEW, False)"
proof (cases "map_of (idempotency (base db)) (review_key r)")
  case (Some prior)
  with assms replay show ?thesis by (auto simp: review_planning_run_def split: if_splits)
next
  case None
  with assms obtain run d s db1 db2 db3 where steps: "admit_review part r db = Inr run" "review_contract r"
    "canonical_projection facts r run = Inr (d, s)" "insert_review r db = Inr db1"
    "accept_risks facts r run (vr_risks r) db1 = Inr db2" "conclude_review facts r run (d, s) db2 = Inr db3"
    and out: "db' = record_review r db3"
      "out = (vr_review r, vr_brief r, case_state_of (vr_org r, vr_case r) (record_review r db3), False)"
    by (auto simp: review_planning_run_def Let_def)
  from steps(1) obtain c where t: "review_target part r c run db" by (rule admit_review_Inr)
  note ins = steps(4) [unfolded insert_review_Inr]
  from accept_risks_Inr [OF steps(5)] obtain rows where
    rows: "db2 = db1\<lparr>acceptances := acceptances db1 @ map (Pair (vr_org r, vr_review r)) rows\<rparr>"
      "list_all (governed_risk facts (vr_org r) (vr_run r) run) rows"
      "list_all (\<lambda>j. explicit_risk j \<and> rj_evidence j \<noteq> None) (vr_risks r)" by blast
  have c: "map_of (cases (base db)) (vr_org r, vr_case r) = Some c" "sc_state c = CS_ADVISOR_REVIEW"
    using t by (simp_all add: review_target_def)
  show ?thesis
  proof (cases "vr_action r = ''approve_for_consultation''")
    case True
    with steps(6) obtain i hash db4 where a: "vr_brief r = Some i" "vr_eligible r \<noteq> []"
      "list_all (recommended_australia facts (vr_org r, vr_run r)) (vr_eligible r)" "run_output_sha256 run = Some hash"
      "insert_brief (vr_org r) i (new_brief r run hash d s) db2 = Inr db4"
      "advance_case (vr_org r, vr_case r) CS_ADVISOR_REVIEW CS_FAMILY_REVIEW db4 = Inr db3"
      by (auto simp: conclude_review_def approve_run_def split: if_splits option.splits)
    from a(5) have b: "map_of (briefs db2) (vr_org r, i) = None"
      "\<not> list_ex (\<lambda>(k, b). fst k = vr_org r \<and> bw_case b = vr_case r \<and> bw_is_current b) (briefs db2)"
      "db4 = db2\<lparr>briefs := briefs db2 @ [((vr_org r, i), new_brief r run hash d s)]\<rparr>"
      by (auto simp: insert_brief_def new_brief_def split: if_splits)
    have "map_of (cases (base db4)) (vr_org r, vr_case r) = Some c" using c(1) ins rows b by simp
    with a(6) c(2) have "db3 = put_case (vr_org r, vr_case r) (c\<lparr>sc_state := CS_FAMILY_REVIEW\<rparr>) db4"
      by (simp add: advance_case_Inr)
    then show ?thesis using None t steps(2,3) True a(1-4) b ins rows out
      by (intro approved [of c run d s i hash rows]) (simp_all add: case_state_of_def review_contract_def)
  next
    case False
    with steps(2,5) have no: "vr_action r \<in> {''reject'', ''request_revision''}" "vr_eligible r = []" "vr_brief r = None"
      "db2 = db1" by (auto simp: review_contract_def)
    have "map_of (cases (base db1)) (vr_org r, vr_case r) = Some c" using c(1) ins by simp
    with steps(6) c(2) False no(4) have "db3 = put_case (vr_org r, vr_case r) (c\<lparr>sc_state := CS_PLANNING\<rparr>) db1"
      by (simp add: conclude_review_def advance_case_Inr)
    then show ?thesis using None t no ins out by (intro returned [of c run]) (simp_all add: case_state_of_def)
  qed
qed

section \<open>Decisions\<close>

lemma update_where_at:
  assumes "update_where (\<lambda>k' x. k' = k) f rows = Inr rows'"
  shows "map_of rows' k' = (if k' = k then (case map_of rows k of None \<Rightarrow> None | Some x \<Rightarrow> Some (projr (f x)))
                            else map_of rows k')"
    and "map fst rows' = map fst rows"
  using assms by (induction rows arbitrary: rows') (auto simp: update_where_def split: if_splits)

definition new_decision :: "decide_request \<Rightarrow> brief_row \<Rightarrow> decision_row" where
  "new_decision r b = \<lparr>fd_receipt = dq_receipt r, fd_case = bw_case b, fd_brief = dq_brief r,
     fd_brief_version = dq_version r, fd_route = dq_route r, fd_min = dq_min r, fd_max = dq_max r,
     fd_currency = dq_currency r, fd_trade_offs = dq_trade_offs r, fd_made_by = dq_made_by r,
     fd_recorded_by = dq_actor r, fd_source = dq_source r, fd_run = bw_run b\<rparr>"

definition new_plan :: "decide_request \<Rightarrow> brief_route \<Rightarrow> string \<Rightarrow> milestone_json list \<Rightarrow> plan_row" where
  "new_plan r route pin ms = \<lparr>pl_decision = dq_decision r, pl_schema_version = 1, pl_country = br_country route,
     pl_intake = pin, pl_milestones = ms\<rparr>"

lemma insert_decision_Inr:
  "insert_decision r b db = Inr db' \<longleftrightarrow>
     dq_source r \<in> {''direct'', ''family_consultation''} \<and> map_of (decisions db) (dq_org r, dq_decision r) = None
     \<and> \<not> list_ex (\<lambda>(k, d). fst k = dq_org r \<and> (fd_receipt d = dq_receipt r \<or> fd_brief d = dq_brief r)) (decisions db)
     \<and> db' = db\<lparr>decisions := decisions db @ [((dq_org r, dq_decision r), new_decision r b)]\<rparr>"
  by (auto simp: insert_decision_def new_decision_def)

lemma insert_plan_Inr:
  "insert_plan r (br_country route) pin ms db = Inr db' \<longleftrightarrow>
     (\<exists>i. pin = Some i \<and> map_of (plans db) (dq_org r, dq_timeline r) = None
       \<and> \<not> list_ex (\<lambda>(k, p). fst k = dq_org r \<and> pl_decision p = dq_decision r) (plans db)
       \<and> db' = db\<lparr>plans := plans db @ [((dq_org r, dq_timeline r), new_plan r route i ms)]\<rparr>)"
  by (auto simp: insert_plan_def new_plan_def split: option.splits)

text \<open>The target of a decision, and what the checks of a decision establish.\<close>

definition decision_target :: "decide_request \<Rightarrow> brief_row \<Rightarrow> student_case \<Rightarrow> decision_db \<Rightarrow> bool" where
  "decision_target r b c db \<longleftrightarrow>
     map_of (briefs db) (dq_org r, dq_brief r) = Some b \<and> bw_version b = dq_version r \<and> bw_is_current b
     \<and> map_of (cases (base db)) (dq_org r, bw_case b) = Some c
     \<and> sc_current_revision c = bw_revision b \<and> sc_state c = CS_FAMILY_REVIEW"

lemma current_brief_Inr: "current_brief r db = Inr b \<longleftrightarrow> (\<exists>c. decision_target r b c db)"
  by (auto simp: current_brief_def decision_target_def split: option.splits)

lemma decide_cases:
  assumes "decide_family_brief part facts ses r db = Inr (db', out)"
  obtains (replay) prior where "map_of (idempotency (base db)) (decide_key r) = Some prior"
      "ir_request_sha256 prior = dq_request_hash r" "db' = db"
      "out = (ir_response_id prior, map_option fd_receipt (map_of (decisions db) (dq_org r, ir_response_id prior)),
                plan_of_decision (dq_org r, ir_response_id prior) db, True)"
  | (decided) b c route ms i rows where "map_of (idempotency (base db)) (decide_key r) = None"
      "decision_target r b c db" "may_decide part r b" "selected_route facts r b db = Inr route"
      "check_budget facts r b = Inr ()" "pinned_intake facts (dq_org r) (bw_case b) (bw_revision b) = Some i"
      "canonical_milestones (Some i) = Inr ms" "dq_milestones r = ms"
      "map_of (decisions db) (dq_org r, dq_decision r) = None"
      "\<not> list_ex (\<lambda>(k, d). fst k = dq_org r \<and> (fd_receipt d = dq_receipt r \<or> fd_brief d = dq_brief r)) (decisions db)"
      "map_of (plans db) (dq_org r, dq_timeline r) = None"
      "\<not> list_ex (\<lambda>(k, p). fst k = dq_org r \<and> pl_decision p = dq_decision r) (plans db)"
      "map fst rows = map fst (briefs db)"
      "\<And>k. map_of rows k = (if k = (dq_org r, dq_brief r) then Some (b\<lparr>bw_is_current := False\<rparr>) else map_of (briefs db) k)"
      "db' = remember (decide_key r) (dq_request_hash r) (dq_decision r)
         ((audit_decision r b (put_case (dq_org r, bw_case b) (c\<lparr>sc_state := CS_PLAN_READY\<rparr>)
           (db\<lparr>decisions := decisions db @ [((dq_org r, dq_decision r), new_decision r b)],
               plans := plans db @ [((dq_org r, dq_timeline r), new_plan r route i ms)]\<rparr>)))\<lparr>briefs := rows\<rparr>)"
      "out = (dq_decision r, Some (dq_receipt r), Some (dq_timeline r), False)"
proof (cases "map_of (idempotency (base db)) (decide_key r)")
  case (Some prior)
  with assms replay show ?thesis by (auto simp: decide_family_brief_def split: if_splits)
next
  case None
  with assms obtain b route ms where steps: "current_brief r db = Inr b" "may_decide part r b"
    "selected_route facts r b db = Inr route" "check_budget facts r b = Inr ()" "check_timeline facts r b = Inr ms"
    "record_decision facts r b route ms db = Inr db'"
    and out: "out = (dq_decision r, Some (dq_receipt r), Some (dq_timeline r), False)"
    by (auto simp: decide_family_brief_def)
  from steps(1) obtain c where t: "decision_target r b c db" by (auto simp: current_brief_Inr)
  let ?k = "(dq_org r, bw_case b)"
  from steps(6) obtain db1 db2 db3 db4 db5 where
    1: "insert_decision r b db = Inr db1" and 2: "advance_case ?k CS_FAMILY_REVIEW CS_DECIDED db1 = Inr db2"
    and 3: "insert_plan r (br_country route) (pinned_intake facts (dq_org r) (bw_case b) (bw_revision b)) ms db2 = Inr db3"
    and 4: "advance_case ?k CS_DECIDED CS_PLAN_READY db3 = Inr db4"
    and 5: "retire_brief (dq_org r, dq_brief r) (audit_decision r b db4) = Inr db5"
    and db': "db' = remember (decide_key r) (dq_request_hash r) (dq_decision r) db5"
    by (auto simp: record_decision_def Let_def)
  have c: "map_of (cases (base db)) ?k = Some c" "sc_state c = CS_FAMILY_REVIEW"
    "map_of (briefs db) (dq_org r, dq_brief r) = Some b" "bw_is_current b" using t by (simp_all add: decision_target_def)
  note d1 = 1 [unfolded insert_decision_Inr]
  have "map_of (cases (base db1)) ?k = Some c" using d1 c by simp
  with 2 c have d2: "db2 = put_case ?k (c\<lparr>sc_state := CS_DECIDED\<rparr>) db1" by (simp add: advance_case_Inr)
  from 3 obtain i where d3: "pinned_intake facts (dq_org r) (bw_case b) (bw_revision b) = Some i"
    "map_of (plans db2) (dq_org r, dq_timeline r) = None"
    "\<not> list_ex (\<lambda>(k, p). fst k = dq_org r \<and> pl_decision p = dq_decision r) (plans db2)"
    "db3 = db2\<lparr>plans := plans db2 @ [((dq_org r, dq_timeline r), new_plan r route i ms)]\<rparr>"
    unfolding insert_plan_Inr by blast
  have "map_of (cases (base db3)) ?k = Some (c\<lparr>sc_state := CS_DECIDED\<rparr>)" using d2 d3 by simp
  with 4 have d4: "db4 = put_case ?k (c\<lparr>sc_state := CS_PLAN_READY\<rparr>) db3" by (simp add: advance_case_Inr)
  from 5 obtain rows where rows: "update_where (\<lambda>k' b. k' = (dq_org r, dq_brief r))
      (\<lambda>b. guard_decision_brief_mutation b (b\<lparr>bw_is_current := False\<rparr>)) (briefs (audit_decision r b db4)) = Inr rows"
    and d5: "db5 = (audit_decision r b db4)\<lparr>briefs := rows\<rparr>" by (auto simp: retire_brief_def)
  have br: "briefs (audit_decision r b db4) = briefs db" using d1 d2 d3 d4 by simp
  have "guard_decision_brief_mutation b (b\<lparr>bw_is_current := False\<rparr>) = Inr (b\<lparr>bw_is_current := False\<rparr>)"
    using c(4) by (simp add: guard_decision_brief_mutation_def)
  then have m: "map_of rows k = (if k = (dq_org r, dq_brief r) then Some (b\<lparr>bw_is_current := False\<rparr>) else map_of (briefs db) k)"
    for k using update_where_at(1) [OF rows, of k, unfolded br] c(3) by simp
  have "db4 = put_case ?k (c\<lparr>sc_state := CS_PLAN_READY\<rparr>)
           (db\<lparr>decisions := decisions db @ [((dq_org r, dq_decision r), new_decision r b)],
               plans := plans db @ [((dq_org r, dq_timeline r), new_plan r route i ms)]\<rparr>)"
    using d1 d2 d3 d4 by (simp add: put_case_def update_update)
  then show ?thesis using None t steps(2-5) d1 d2 d3 m db' d5 out update_where_at(2) [OF rows] br
    by (intro decided [of b c route i ms rows]) (auto simp: check_timeline_def split: if_splits)
qed

end
