(* ===== verification/Task_Calls.thy ===== *)
theory Task_Calls
  imports Task_Limits
begin

text \<open>
  The steps of the task system that are calls of the task authority itself, and what such a call may do to
  the tables it shares with other components: a case moves from intake to planning and from planning to advisor
  review, runs are only added, and idempotency records of other operations stay as they are.
\<close>

inductive task_call :: "task_db \<Rightarrow> task_db \<Rightarrow> bool" where
  call_create: "create_agent_task cat ses r now db = Inr (db', out) \<Longrightarrow> task_call db db'"
| call_cancel: "cancel_agent_task cat ses x now db = Inr (db', out) \<Longrightarrow> task_call db db'"
| call_claim: "claim_agent_task cat locked worker now db = Inr (db', claimed) \<Longrightarrow> task_call db db'"
| call_start: "start_agent_task ses k worker gen input now db = Inr db' \<Longrightarrow> task_call db db'"
| call_heartbeat: "heartbeat_agent_task ses k worker gen now db = Inr (db', expiry) \<Longrightarrow> task_call db db'"
| call_fail: "fail_agent_task ses k worker gen code again fallback now db = Inr (db', st) \<Longrightarrow> task_call db db'"
| call_finalize:
    "finalize_agent_task_result cat accepted ses k worker gen q now db = Inr (db', st) \<Longrightarrow> task_call db db'"
| call_retry: "retry_agent_task cat inner_key ses y now db = Inr (db', out) \<Longrightarrow> task_call db db'"

lemma task_call_step: "task_call db db' \<Longrightarrow> task_step db db'"
  by (induction rule: task_call.induct) (blast intro: task_step.intros)+

section \<open>Shared tables\<close>

definition case_moves :: "task_db \<Rightarrow> row_key \<Rightarrow> student_case \<Rightarrow> student_case \<Rightarrow> bool" where
  "case_moves db k c c' \<longleftrightarrow>
     c' = c
     \<or> sc_state c = CS_INTAKE \<and> c' = c\<lparr>sc_state := CS_PLANNING\<rparr>
     \<or> sc_state c = CS_PLANNING \<and> c' = c\<lparr>sc_state := CS_ADVISOR_REVIEW\<rparr>
         \<and> \<not> current_run_exists (fst k) (snd k) db"

definition shares :: "task_db \<Rightarrow> task_db \<Rightarrow> bool" where
  "shares db db' \<longleftrightarrow>
     (\<forall>k. rel_option (case_moves db k) (map_of (cases db) k) (map_of (cases db') k))
     \<and> (\<exists>rs. runs db' = runs db @ rs)
     \<and> (distinct (map fst (runs db)) \<longrightarrow> distinct (map fst (runs db')))
     \<and> (\<forall>key. ik_operation key \<notin> TASK_OPERATIONS \<longrightarrow>
          map_of (idempotency db') key = map_of (idempotency db) key)"

lemma case_moves_refl [simp]: "case_moves db k c c"
  by (simp add: case_moves_def)

lemma rel_option_case_moves_refl [simp]: "rel_option (case_moves db k) x x"
  by (cases x) simp_all

lemma shares_frame:
  assumes "cases db' = cases db" "runs db' = runs db"
    and "\<And>key. ik_operation key \<notin> TASK_OPERATIONS \<Longrightarrow> map_of (idempotency db') key = map_of (idempotency db) key"
  shows "shares db db'"
  using assms by (simp add: shares_def)

lemma update_execution_shared:
  "update_execution k gen f db = Inr db1 \<Longrightarrow> cases db1 = cases db \<and> runs db1 = runs db \<and> idempotency db1 = idempotency db"
  "close_open_execution k gen now st again c db = Inr db1 \<Longrightarrow>
     cases db1 = cases db \<and> runs db1 = runs db \<and> idempotency db1 = idempotency db"
  by (drule update_execution_only(1), simp add: only_executionsD(4-6))
    (drule close_open_only(1), simp add: only_executionsD(4-6))

lemma statements_shared [simp]:
  "cases (set_task k t db) = cases db" "runs (set_task k t db) = runs db"
  "cases (set_dispatch k a db) = cases db" "runs (set_dispatch k a db) = runs db"
  "cases (delete_dispatch k db) = cases db" "runs (delete_dispatch k db) = runs db"
  "cases (append_agent_task_event k c s p n r now db) = cases db"
  "runs (append_agent_task_event k c s p n r now db) = runs db"
  "cases (mark_retried k source db) = cases db" "runs (mark_retried k source db) = runs db"
  "idempotency (set_task k t db) = idempotency db" "idempotency (set_dispatch k a db) = idempotency db"
  "idempotency (delete_dispatch k db) = idempotency db"
  "idempotency (append_agent_task_event k c s p n r now db) = idempotency db"
  by (simp_all add: statement_defs mark_retried_def split: option.splits)

lemma task_keys_own:
  "ik_operation key \<notin> TASK_OPERATIONS \<Longrightarrow> key \<noteq> create_key r \<and> key \<noteq> cancel_key x \<and> key \<noteq> retry_key y"
  by (auto simp: TASK_OPERATIONS_def create_key_def cancel_key_def retry_key_def)

lemma create_shares:
  assumes "create_agent_task cat ses r now db = Inr (db', out)"
  shows "shares db db'"
proof (cases "map_of (idempotency db) (create_key r)")
  case (Some prior)
  with assms have "db' = db" by (auto simp: create_agent_task_def split: option.splits if_splits)
  then show ?thesis by (simp add: shares_frame)
next
  case None
  with assms obtain pin row c where adm: "admit_task cat r db = Inr (pin, row, c)"
    and ins: "insert_task r (new_task r pin row now) now
          (db\<lparr>cases := AList.update (cq_org r, cq_case r) c (cases db)\<rparr>) = Inr (db', out)"
    by (auto simp: create_agent_task_def create_fresh_def)
  from adm obtain old where old: "map_of (cases db) (cq_org r, cq_case r) = Some old" "check_case_state r old = Inr c"
    by (cases "map_of (cases db) (cq_org r, cq_case r)")
      (auto simp: admit_task_def split: if_splits option.splits)
  from old(2) have "case_moves db k old c" for k
    by (auto simp: check_case_state_def case_moves_def split: if_splits)
  moreover from ins have "cases db' = AList.update (cq_org r, cq_case r) c (cases db)" "runs db' = runs db"
    "idempotency db' = AList.update (create_key r)
       \<lparr>ir_request_sha256 = cq_request_hash r, ir_response_id = cq_task r\<rparr> (idempotency db)"
    by (auto simp: insert_task_def Let_def append_agent_task_event_def split: if_splits)
  ultimately show ?thesis using old(1) task_keys_own by (auto simp: shares_def)
qed

lemma finalize_shares:
  assumes "finalize_agent_task_result cat ok ses k worker gen q now db = Inr (db', st)"
  shows "shares db db'"
  using assms
proof (cases rule: finalize_cases)
  case (recorded t db1 db2)
  note p = recorded(5) [unfolded persist_planning_result_def Let_def]
  obtain c where c: "map_of (cases db) (fst k, t_case t) = Some c" "sc_state c = CS_PLANNING"
    "\<not> current_run_exists (fst k) (t_case t) db"
    using recorded(5) by (rule persist_result)
  from p c obtain c' run where "cases db1 = AList.update (fst k, t_case t) c' (cases db)"
    "runs db1 = runs db @ [((fst k, fq_run q), run)]" "map_of (runs db) (fst k, fq_run q) = None"
    "c' = (if fq_state q = RS_REVIEW_REQUIRED then c\<lparr>sc_state := CS_ADVISOR_REVIEW\<rparr> else c)"
    by (auto split: option.splits if_splits)
  moreover from this(3) have "distinct (map fst (runs db)) \<longrightarrow> distinct (map fst (runs db1))"
    by (simp add: \<open>runs db1 = _\<close> map_of_eq_None_iff image_iff)
  moreover from \<open>c' = _\<close> c have "case_moves db (fst k, t_case t) c c'" by (simp add: case_moves_def)
  moreover note update_execution_shared(1) [OF recorded(6)] persist_only_runs(5) [OF recorded(5)]
  ultimately show ?thesis using c(1) by (auto simp: shares_def recorded(8))
qed (simp add: shares_frame)

lemma retry_shares:
  assumes "retry_agent_task cat inner ses r now db = Inr (db', out)"
  shows "shares db db'"
  using assms
proof (cases rule: retry_cases)
  case (created t db1 c again created_id)
  from create_shares [OF created(4)] task_keys_own show ?thesis by (auto simp: created(6) shares_def)
qed (simp add: shares_frame)

lemma cancel_shares:
  assumes "cancel_agent_task cat ses r now db = Inr (db', out)"
  shows "shares db db'"
  using assms task_keys_own
  by (auto simp: cancel_agent_task_def Let_def dest!: update_execution_shared(2) intro!: shares_frame
      split: option.splits if_splits)

lemma claim_shares:
  assumes "claim_agent_task cat locked worker now db = Inr (db', out)"
  shows "shares db db'"
  using assms
  by (auto simp: claim_agent_task_def claim_failure_def lease_task_def Let_def dest!: update_execution_shared(2)
      intro!: shares_frame split: option.splits if_splits)

lemma lease_shares:
  "start_agent_task ses k worker gen input now db = Inr db' \<Longrightarrow> shares db db'"
  "heartbeat_agent_task ses k worker gen now db = Inr (db', e) \<Longrightarrow> shares db db'"
  "fail_agent_task ses k worker gen code again fallback now db = Inr (db', st) \<Longrightarrow> shares db db'"
  by (auto simp: start_agent_task_def heartbeat_agent_task_def fail_agent_task_def Let_def
      dest!: update_execution_shared(1) intro!: shares_frame split: if_splits)

theorem task_call_shares: "task_call db db' \<Longrightarrow> shares db db'"
  by (induction rule: task_call.induct)
    (blast intro: create_shares cancel_shares claim_shares lease_shares finalize_shares retry_shares)+

end
