(* ===== verification/Decision_System.thy ===== *)
theory Decision_System
  imports Decision_Effects Task_Calls
begin

text \<open>
  The decision authority composed with the task authority: one step per successful call of either, per
  published revision, per new case, and per write of another component to the shared tables.  Every reachable
  database satisfies the invariant that ties the state of a case to its brief, its decision and its plan.
\<close>

section \<open>Steps\<close>

definition DECISION_OPERATIONS :: "string set" where
  "DECISION_OPERATIONS = {''advisor_review'', ''family_decision''}"

text \<open>When the confirmation of a fact may publish the next revision of a case, and what that does to the case
  and its current run (\<open>app.verify_memory_candidate\<close> in 0017).\<close>

definition may_publish :: "row_key \<Rightarrow> student_case \<Rightarrow> decision_db \<Rightarrow> bool" where
  "may_publish k c db \<longleftrightarrow>
     sc_state c \<in> {CS_INTAKE, CS_PLANNING}
     \<and> (sc_state c = CS_PLANNING \<longrightarrow> current_run_exists (fst k) (snd k) (base db))
     \<and> list_all (\<lambda>(kr, r). fst kr = fst k \<and> run_case r = snd k \<and> run_is_current r \<longrightarrow>
          list_ex (\<lambda>(ka, a). fst ka = fst k \<and> ar_case a = snd k \<and> ar_revision a = sc_current_revision c
              \<and> ar_run a = snd kr \<and> ar_action a = ''request_revision'') (reviews db)
          \<and> \<not> list_ex (\<lambda>(kd, d). fst kd = fst k \<and> fd_case d = snd k) (decisions db)) (runs (base db))"

definition retire_runs :: "row_key \<Rightarrow> (row_key \<times> planning_run) list \<Rightarrow> (row_key \<times> planning_run) list" where
  "retire_runs k rows =
     map (\<lambda>(kr, r). (kr, if fst kr = fst k \<and> run_case r = snd k then r\<lparr>run_is_current := False\<rparr> else r)) rows"

definition publish_revision :: "row_key \<Rightarrow> student_case \<Rightarrow> decision_db \<Rightarrow> decision_db" where
  "publish_revision k c db =
     db\<lparr>base := (base db)\<lparr>
       cases := AList.update k (c\<lparr>sc_current_revision := sc_current_revision c + 1\<rparr>) (cases (base db)),
       runs := retire_runs k (runs (base db))\<rparr>\<rparr>"

inductive decision_step :: "decision_facts \<Rightarrow> decision_db \<Rightarrow> decision_db \<Rightarrow> bool" for facts where
  review: "review_planning_run part facts ses r db = Inr (db', out) \<Longrightarrow> decision_step facts db db'"
| decide: "decide_family_brief part facts ses y db = Inr (db', out') \<Longrightarrow> decision_step facts db db'"
| task: "task_call (base db) b \<Longrightarrow> decision_step facts db (db\<lparr>base := b\<rparr>)"
| publish: "map_of (cases (base db)) k = Some c \<Longrightarrow> may_publish k c db \<Longrightarrow>
     decision_step facts db (publish_revision k c db)"
| new_case: "map_of (cases (base db)) k = None \<Longrightarrow> sc_state c = CS_INTAKE \<Longrightarrow>
     decision_step facts db (db\<lparr>base := (base db)\<lparr>cases := cases (base db) @ [(k, c)]\<rparr>\<rparr>)"
| other: "(\<And>key. ik_operation key \<in> TASK_OPERATIONS \<union> DECISION_OPERATIONS \<Longrightarrow>
        map_of ids key = map_of (idempotency (base db)) key) \<Longrightarrow>
     decision_step facts db (db\<lparr>base := (base db)\<lparr>idempotency := ids\<rparr>, audit := audit db @ rows\<rparr>)"

inductive_cases decision_stepE: "decision_step facts db db'"

definition decision_reachable :: "decision_facts \<Rightarrow> decision_db \<Rightarrow> bool" where
  "decision_reachable facts db \<longleftrightarrow> (decision_step facts)\<^sup>*\<^sup>* empty_decision_db db"

section \<open>The invariant\<close>

text \<open>The states from which a case does not return to planning.\<close>

definition SETTLED :: "case_state set" where
  "SETTLED = {CS_FAMILY_REVIEW, CS_DECIDED, CS_PLAN_READY}"

definition review_approves :: "decision_facts \<Rightarrow> uuid \<Rightarrow> brief_row \<Rightarrow> advisor_review \<Rightarrow> bool" where
  "review_approves facts org b a \<longleftrightarrow>
     ar_action a = ''approve_for_consultation'' \<and> ar_case a = bw_case b \<and> ar_revision a = bw_revision b
     \<and> ar_run a = bw_run b \<and> ar_eligible a = bj_eligible (bw_projection b)"

definition projection_ok :: "decision_facts \<Rightarrow> uuid \<Rightarrow> brief_row \<Rightarrow> bool" where
  "projection_ok facts org b \<longleftrightarrow>
     bw_version b = 1 \<and> bj_schema_version (bw_projection b) = 1
     \<and> bj_routes (bw_projection b) = routes_of_run facts (org, bw_run b)
     \<and> bj_eligible (bw_projection b) \<noteq> [] \<and> distinct (bj_eligible (bw_projection b))
     \<and> list_all (recommended_australia facts (org, bw_run b)) (bj_eligible (bw_projection b))
     \<and> list_all (\<lambda>j. explicit_risk j \<and> rj_evidence j \<noteq> None) (bj_risks (bw_projection b))
     \<and> pinned_intake facts org (bw_case b) (bw_revision b) = Some (bj_intake (bw_projection b))"

definition run_ok :: "task_db \<Rightarrow> uuid \<Rightarrow> brief_row \<Rightarrow> bool" where
  "run_ok b0 org b \<longleftrightarrow>
     (\<exists>r. map_of (runs b0) (org, bw_run b) = Some r \<and> run_case r = bw_case b
        \<and> run_case_revision r = bw_revision b \<and> run_status r = RS_REVIEW_REQUIRED \<and> run_is_current r)"

definition brief_ok :: "decision_facts \<Rightarrow> decision_db \<Rightarrow> row_key \<Rightarrow> brief_row \<Rightarrow> bool" where
  "brief_ok facts db k b \<longleftrightarrow>
     (\<exists>a. map_of (reviews db) (fst k, bw_review b) = Some a \<and> review_approves facts (fst k) b a)
     \<and> projection_ok facts (fst k) b \<and> run_ok (base db) (fst k) b
     \<and> (\<exists>c. map_of (cases (base db)) (fst k, bw_case b) = Some c \<and> sc_current_revision c = bw_revision b
          \<and> sc_state c = (if bw_is_current b then CS_FAMILY_REVIEW else CS_PLAN_READY))"

definition within_budget :: "decision_facts \<Rightarrow> uuid \<Rightarrow> brief_row \<Rightarrow> decision_row \<Rightarrow> bool" where
  "within_budget facts org b d \<longleftrightarrow>
     fd_currency d = ''CNY'' \<and> 0 < fd_min d \<and> fd_min d \<le> fd_max d \<and> ''budget_elasticity'' \<in> set (fd_trade_offs d)
     \<and> (\<exists>cost. cost_cny facts (org, bw_run b) = Inr cost
          \<and> (\<forall>c. cost = Some c \<longrightarrow> fd_min d \<le> c \<and> c \<le> fd_max d))
     \<and> (\<forall>h. pinned_hard_ceiling facts org (bw_case b) (bw_revision b) = Some h \<longrightarrow> fd_max d \<le> h)"

definition plan_ok :: "brief_row \<Rightarrow> plan_row \<Rightarrow> bool" where
  "plan_ok b p \<longleftrightarrow>
     pl_schema_version p = 1 \<and> pl_country p = AUSTRALIA \<and> pl_intake p = bj_intake (bw_projection b)
     \<and> canonical_milestones (Some (pl_intake p)) = Inr (pl_milestones p)"

definition source_ok :: "decision_row \<Rightarrow> bool" where
  "source_ok d \<longleftrightarrow>
     fd_source d = ''direct'' \<and> fd_made_by d = fd_recorded_by d \<or> fd_source d = ''family_consultation''"

definition decision_ok :: "decision_facts \<Rightarrow> decision_db \<Rightarrow> row_key \<Rightarrow> decision_row \<Rightarrow> bool" where
  "decision_ok facts db k d \<longleftrightarrow>
     source_ok d
     \<and> (\<exists>b i p. map_of (briefs db) (fst k, fd_brief d) = Some b \<and> \<not> bw_is_current b
        \<and> bw_case b = fd_case d \<and> bw_run b = fd_run d \<and> bw_version b = fd_brief_version d
        \<and> fd_route d \<in> set (bj_eligible (bw_projection b)) \<and> within_budget facts (fst k) b d
        \<and> map_of (plans db) (fst k, i) = Some p \<and> pl_decision p = snd k \<and> plan_ok b p)"

definition unique_by :: "('r \<Rightarrow> 'v) \<Rightarrow> (row_key \<times> 'r) list \<Rightarrow> bool" where
  "unique_by f rows \<longleftrightarrow>
     distinct (map fst rows)
     \<and> (\<forall>k k' x x'. map_of rows k = Some x \<longrightarrow> map_of rows k' = Some x' \<longrightarrow> fst k = fst k' \<longrightarrow> f x = f x' \<longrightarrow> k = k')"

definition case_ok :: "decision_db \<Rightarrow> row_key \<Rightarrow> student_case \<Rightarrow> bool" where
  "case_ok db k c \<longleftrightarrow>
     sc_state c \<noteq> CS_DECIDED
     \<and> (sc_state c \<in> SETTLED \<longrightarrow> (\<exists>i b. map_of (briefs db) (fst k, i) = Some b \<and> bw_case b = snd k))"

definition risk_ok :: "decision_facts \<Rightarrow> decision_db \<Rightarrow> row_key \<Rightarrow> risk_acceptance \<Rightarrow> bool" where
  "risk_ok facts db k x \<longleftrightarrow>
     ra_kind x \<in> {''optional'', ''stale'', ''unverified''} \<and> \<not> list_all (\<lambda>c. c = CHR '' '') (ra_reason x)
     \<and> (\<exists>a. map_of (reviews db) k = Some a \<and> ar_action a = ''approve_for_consultation''
          \<and> evidence_of_run facts (fst k, ar_run a) (ra_evidence x))"

definition records_ok :: "decision_db \<Rightarrow> bool" where
  "records_ok db \<longleftrightarrow>
     (\<forall>key rec. map_of (idempotency (base db)) key = Some rec \<longrightarrow>
        (ik_operation key = ''advisor_review'' \<longrightarrow>
           map_of (reviews db) (ik_organization key, ir_response_id rec) \<noteq> None)
        \<and> (ik_operation key = ''family_decision'' \<longrightarrow>
           map_of (decisions db) (ik_organization key, ir_response_id rec) \<noteq> None))"

definition decision_invariant :: "decision_facts \<Rightarrow> decision_db \<Rightarrow> bool" where
  "decision_invariant facts db \<longleftrightarrow>
     (\<forall>k b. map_of (briefs db) k = Some b \<longrightarrow> brief_ok facts db k b)
     \<and> (\<forall>k d. map_of (decisions db) k = Some d \<longrightarrow> decision_ok facts db k d)
     \<and> (\<forall>k c. map_of (cases (base db)) k = Some c \<longrightarrow> case_ok db k c)
     \<and> (\<forall>k b. map_of (briefs db) k = Some b \<longrightarrow> \<not> bw_is_current b \<longrightarrow>
          (\<exists>i d. map_of (decisions db) (fst k, i) = Some d \<and> fd_brief d = snd k))
     \<and> (\<forall>k p. map_of (plans db) k = Some p \<longrightarrow> map_of (decisions db) (fst k, pl_decision p) \<noteq> None)
     \<and> unique_by bw_case (briefs db) \<and> unique_by fd_brief (decisions db) \<and> unique_by pl_decision (plans db)
     \<and> (\<forall>(k, x)\<in>set (acceptances db). risk_ok facts db k x)
     \<and> records_ok db"

lemma decision_invariantD:
  assumes "decision_invariant facts db"
  shows "map_of (briefs db) k = Some b \<Longrightarrow> brief_ok facts db k b"
    and "map_of (decisions db) k = Some d \<Longrightarrow> decision_ok facts db k d"
    and "map_of (cases (base db)) k = Some c \<Longrightarrow> case_ok db k c"
    and "map_of (briefs db) k = Some b \<Longrightarrow> \<not> bw_is_current b \<Longrightarrow>
          \<exists>i d. map_of (decisions db) (fst k, i) = Some d \<and> fd_brief d = snd k"
    and "map_of (plans db) k = Some p \<Longrightarrow> map_of (decisions db) (fst k, pl_decision p) \<noteq> None"
    and "unique_by bw_case (briefs db)" "unique_by fd_brief (decisions db)" "unique_by pl_decision (plans db)"
    and "(k, x) \<in> set (acceptances db) \<Longrightarrow> risk_ok facts db k x"
    and "records_ok db"
  using assms unfolding decision_invariant_def by blast+

lemma decision_invariantI:
  assumes "\<And>k b. map_of (briefs db) k = Some b \<Longrightarrow> brief_ok facts db k b"
    and "\<And>k d. map_of (decisions db) k = Some d \<Longrightarrow> decision_ok facts db k d"
    and "\<And>k c. map_of (cases (base db)) k = Some c \<Longrightarrow> case_ok db k c"
    and "\<And>k b. map_of (briefs db) k = Some b \<Longrightarrow> \<not> bw_is_current b \<Longrightarrow>
          \<exists>i d. map_of (decisions db) (fst k, i) = Some d \<and> fd_brief d = snd k"
    and "\<And>k p. map_of (plans db) k = Some p \<Longrightarrow> map_of (decisions db) (fst k, pl_decision p) \<noteq> None"
    and "unique_by bw_case (briefs db)" "unique_by fd_brief (decisions db)" "unique_by pl_decision (plans db)"
    and "\<And>k x. (k, x) \<in> set (acceptances db) \<Longrightarrow> risk_ok facts db k x"
    and "records_ok db"
  shows "decision_invariant facts db"
  unfolding decision_invariant_def using assms by blast

lemma decision_invariant_empty: "decision_invariant facts empty_decision_db"
  by (simp add: decision_invariant_def empty_decision_db_def empty_db_def unique_by_def records_ok_def)

section \<open>Tables that grow\<close>

lemma map_of_snoc:
  "map_of rows k = None \<Longrightarrow> map_of (rows @ [(k, x)]) k' = (if k' = k then Some x else map_of rows k')"
  by (auto simp: map_add_def split: option.splits)

lemma no_row: "\<not> list_ex P rows \<Longrightarrow> map_of rows k = Some x \<Longrightarrow> \<not> P (k, x)"
  by (auto simp: list_ex_iff dest: map_of_SomeD)

lemma unique_byD:
  "unique_by f rows \<Longrightarrow> map_of rows k = Some x \<Longrightarrow> map_of rows k' = Some x' \<Longrightarrow> fst k = fst k' \<Longrightarrow> f x = f x' \<Longrightarrow> k = k'"
  unfolding unique_by_def by blast

lemma unique_by_snoc:
  assumes "unique_by f rows" "map_of rows k = None"
    and "\<And>k' x'. map_of rows k' = Some x' \<Longrightarrow> fst k' = fst k \<Longrightarrow> f x' \<noteq> f x"
  shows "unique_by f (rows @ [(k, x)])"
  unfolding unique_by_def
proof (intro conjI allI impI)
  show "distinct (map fst (rows @ [(k, x)]))"
    using assms(1,2) by (simp add: unique_by_def map_of_eq_None_iff image_iff)
next
  fix k1 k2 x1 x2
  assume a: "map_of (rows @ [(k, x)]) k1 = Some x1" "map_of (rows @ [(k, x)]) k2 = Some x2"
    "fst k1 = fst k2" "f x1 = f x2"
  note a' = a(1,2) [unfolded map_of_snoc [OF assms(2)]]
  consider "k1 = k" "k2 = k" | "k1 = k" "k2 \<noteq> k" | "k1 \<noteq> k" "k2 = k" | "k1 \<noteq> k" "k2 \<noteq> k" by blast
  then show "k1 = k2"
  proof cases
    case 2 with a' a(3,4) assms(3) [of k2 x2] show ?thesis by simp
  next
    case 3 with a' a(3,4) assms(3) [of k1 x1] show ?thesis by simp
  next
    case 4
    with a' have "map_of rows k1 = Some x1" "map_of rows k2 = Some x2" by (simp_all only: if_False)
    from unique_byD [OF assms(1) this a(3,4)] show ?thesis .
  qed simp
qed

lemma unique_by_same:
  assumes "unique_by f rows" "map fst rows' = map fst rows"
    and "\<And>k x'. map_of rows' k = Some x' \<Longrightarrow> \<exists>x. map_of rows k = Some x \<and> f x = f x'"
  shows "unique_by f rows'"
  unfolding unique_by_def
proof (intro conjI allI impI)
  show "distinct (map fst rows')" using assms(1,2) by (simp add: unique_by_def)
next
  fix k1 k2 x1 x2
  assume a: "map_of rows' k1 = Some x1" "map_of rows' k2 = Some x2" "fst k1 = fst k2" "f x1 = f x2"
  from assms(3) [OF a(1)] assms(3) [OF a(2)] obtain y1 y2 where
    "map_of rows k1 = Some y1" "f y1 = f x1" "map_of rows k2 = Some y2" "f y2 = f x2" by blast
  with a unique_byD [OF assms(1)] show "k1 = k2" by simp
qed

section \<open>Frames\<close>

text \<open>Settled cases, but those of \<open>X\<close>, and their runs are kept, and no other case becomes settled.\<close>

definition keeps_settled :: "row_key set \<Rightarrow> task_db \<Rightarrow> task_db \<Rightarrow> bool" where
  "keeps_settled X b b' \<longleftrightarrow>
     (\<forall>k c. k \<notin> X \<longrightarrow> sc_state c \<in> SETTLED \<longrightarrow> (map_of (cases b') k = Some c \<longleftrightarrow> map_of (cases b) k = Some c))
     \<and> (\<forall>k r c. map_of (runs b) k = Some r \<longrightarrow> map_of (cases b) (fst k, run_case r) = Some c \<longrightarrow>
          sc_state c \<in> SETTLED \<longrightarrow> map_of (runs b') k = Some r)"

lemma keeps_settledD:
  assumes "keeps_settled X b b'"
  shows "k \<notin> X \<Longrightarrow> sc_state c \<in> SETTLED \<Longrightarrow> map_of (cases b') k = Some c \<longleftrightarrow> map_of (cases b) k = Some c"
    and "map_of (runs b) k = Some r \<Longrightarrow> map_of (cases b) (fst k, run_case r) = Some c \<Longrightarrow> sc_state c \<in> SETTLED \<Longrightarrow>
      map_of (runs b') k = Some r"
  using assms unfolding keeps_settled_def by blast+

lemma brief_state_settled: "(if x then CS_FAMILY_REVIEW else CS_PLAN_READY) \<in> SETTLED"
  by (simp add: SETTLED_def)

lemma brief_ok_mono:
  assumes ok: "brief_ok facts db k b" and rv: "map_of (reviews db) \<subseteq>\<^sub>m map_of (reviews db')"
    and ks: "keeps_settled X (base db) (base db')" and X: "(fst k, bw_case b) \<notin> X"
  shows "brief_ok facts db' k b"
proof -
  from ok obtain a c r where
    a: "map_of (reviews db) (fst k, bw_review b) = Some a" "review_approves facts (fst k) b a"
    and c: "map_of (cases (base db)) (fst k, bw_case b) = Some c" "sc_current_revision c = bw_revision b"
      "sc_state c = (if bw_is_current b then CS_FAMILY_REVIEW else CS_PLAN_READY)"
    and r: "map_of (runs (base db)) (fst k, bw_run b) = Some r" "run_case r = bw_case b"
      "run_case_revision r = bw_revision b" "run_status r = RS_REVIEW_REQUIRED" "run_is_current r"
    unfolding brief_ok_def run_ok_def by blast
  have s: "sc_state c \<in> SETTLED" by (simp only: c(3) brief_state_settled)
  have "map_of (reviews db') (fst k, bw_review b) = Some a" using rv a(1) by (metis map_le_def domI)
  moreover have "map_of (cases (base db')) (fst k, bw_case b) = Some c" using keeps_settledD(1) [OF ks X s] c(1) by simp
  moreover have "map_of (runs (base db')) (fst k, bw_run b) = Some r"
    by (rule keeps_settledD(2) [OF ks r(1) _ s]) (simp add: r(2) c(1))
  ultimately show ?thesis using ok a(2) c r unfolding brief_ok_def run_ok_def by auto
qed

lemma map_leD: "m \<subseteq>\<^sub>m m' \<Longrightarrow> m x = Some y \<Longrightarrow> m' x = Some y"
  by (metis map_le_def domI)

lemma decision_ok_mono:
  assumes ok: "decision_ok facts db k d"
    and briefs: "\<And>k b. map_of (briefs db) k = Some b \<Longrightarrow> \<not> bw_is_current b \<Longrightarrow> map_of (briefs db') k = Some b"
    and plans: "map_of (plans db) \<subseteq>\<^sub>m map_of (plans db')"
  shows "decision_ok facts db' k d"
proof -
  from ok obtain b i p where b: "map_of (briefs db) (fst k, fd_brief d) = Some b" "\<not> bw_is_current b"
    and p: "map_of (plans db) (fst k, i) = Some p"
    and rest: "bw_case b = fd_case d" "bw_run b = fd_run d" "bw_version b = fd_brief_version d"
      "fd_route d \<in> set (bj_eligible (bw_projection b))" "within_budget facts (fst k) b d"
      "pl_decision p = snd k" "plan_ok b p"
    unfolding decision_ok_def by blast
  from ok have "source_ok d" by (simp add: decision_ok_def)
  then show ?thesis unfolding decision_ok_def
    by (intro exI conjI) (assumption | rule briefs [OF b] map_leD [OF plans p] b(2) rest)+
qed

lemma risk_ok_mono:
  assumes "risk_ok facts db k x" and "map_of (reviews db) \<subseteq>\<^sub>m map_of (reviews db')"
  shows "risk_ok facts db' k x"
  using assms(1) map_leD [OF assms(2)] unfolding risk_ok_def by blast

lemma map_le_snoc: "map_of rows k = None \<Longrightarrow> map_of rows \<subseteq>\<^sub>m map_of (rows @ [(k, x)])"
  by (auto simp: map_le_def map_of_snoc)

lemma frame_invariant:
  assumes inv: "decision_invariant facts db" and ks: "keeps_settled {} (base db) b"
    and ids: "\<And>key. ik_operation key \<in> DECISION_OPERATIONS \<Longrightarrow>
      map_of (idempotency b) key = map_of (idempotency (base db)) key"
  shows "decision_invariant facts (db\<lparr>base := b, audit := a\<rparr>)"
proof (rule decision_invariantI)
  fix k c assume c: "map_of (cases (base (db\<lparr>base := b, audit := a\<rparr>))) k = Some c"
  show "case_ok (db\<lparr>base := b, audit := a\<rparr>) k c"
  proof (cases "sc_state c \<in> SETTLED")
    case True
    with c keeps_settledD(1) [OF ks] have "map_of (cases (base db)) k = Some c" by simp
    from decision_invariantD(3) [OF inv this] show ?thesis by (simp add: case_ok_def)
  next
    case False
    then show ?thesis by (auto simp: case_ok_def SETTLED_def)
  qed
next
  show "records_ok (db\<lparr>base := b, audit := a\<rparr>)"
    using decision_invariantD(10) [OF inv] ids by (auto simp: records_ok_def DECISION_OPERATIONS_def)
next
  fix k r assume "map_of (briefs (db\<lparr>base := b, audit := a\<rparr>)) k = Some r"
  then have "brief_ok facts db k r" by (simp add: decision_invariantD(1) [OF inv])
  then show "brief_ok facts (db\<lparr>base := b, audit := a\<rparr>) k r" by (rule brief_ok_mono [where X = "{}"]) (simp_all add: ks)
next
  fix k d assume "map_of (decisions (db\<lparr>base := b, audit := a\<rparr>)) k = Some d"
  then have "decision_ok facts db k d" by (simp add: decision_invariantD(2) [OF inv])
  then show "decision_ok facts (db\<lparr>base := b, audit := a\<rparr>) k d" by (rule decision_ok_mono) simp_all
next
  fix k x assume "(k, x) \<in> set (acceptances (db\<lparr>base := b, audit := a\<rparr>))"
  then have "risk_ok facts db k x" by (simp add: decision_invariantD(9) [OF inv])
  then show "risk_ok facts (db\<lparr>base := b, audit := a\<rparr>) k x" by (rule risk_ok_mono) simp
qed (simp_all add: decision_invariantD(4-8) [OF inv])

end
