(* ===== verification/Decision_Safety.thy ===== *)
theory Decision_Safety
  imports Decision_System
begin

text \<open>
  Every step of the composed system keeps the invariant.
\<close>

section \<open>Shared arguments\<close>

lemma records_ok_remember:
  assumes "records_ok db" and "map_of (reviews db) \<subseteq>\<^sub>m map_of (reviews db')" "map_of (decisions db) \<subseteq>\<^sub>m map_of (decisions db')"
    and "idempotency (base db') = AList.update ik rec (idempotency (base db))"
    and "ik_operation ik = ''advisor_review'' \<Longrightarrow> map_of (reviews db') (ik_organization ik, ir_response_id rec) \<noteq> None"
    and "ik_operation ik = ''family_decision'' \<Longrightarrow> map_of (decisions db') (ik_organization ik, ir_response_id rec) \<noteq> None"
  shows "records_ok db'"
proof -
  have old: "map_of (reviews db) k \<noteq> None \<Longrightarrow> map_of (reviews db') k \<noteq> None"
    "map_of (decisions db) k \<noteq> None \<Longrightarrow> map_of (decisions db') k \<noteq> None" for k
    using map_leD [OF assms(2)] map_leD [OF assms(3)] by fastforce+
  show ?thesis unfolding records_ok_def
  proof (intro allI impI)
    fix k r assume k: "map_of (idempotency (base db')) k = Some r"
    show "(ik_operation k = ''advisor_review'' \<longrightarrow> map_of (reviews db') (ik_organization k, ir_response_id r) \<noteq> None)
        \<and> (ik_operation k = ''family_decision'' \<longrightarrow> map_of (decisions db') (ik_organization k, ir_response_id r) \<noteq> None)"
    proof (cases "k = ik")
      case True with k assms(4-6) show ?thesis by auto
    next
      case False
      with k assms(4) have "map_of (idempotency (base db)) k = Some r" by simp
      with assms(1) old show ?thesis unfolding records_ok_def by blast
    qed
  qed
qed

lemma review_key_simps [simp]: "ik_operation (review_key r) = ''advisor_review''" "ik_organization (review_key r) = vr_org r"
  and decide_key_simps [simp]: "ik_operation (decide_key q) = ''family_decision''" "ik_organization (decide_key q) = dq_org q"
  by (simp_all add: review_key_def decide_key_def idem_key_of_def)

lemma brief_case_settled:
  assumes "brief_ok facts db k b" "map_of (cases (base db)) (fst k, bw_case b) = Some c"
  shows "sc_state c \<in> SETTLED"
proof -
  from assms have "sc_state c = (if bw_is_current b then CS_FAMILY_REVIEW else CS_PLAN_READY)"
    unfolding brief_ok_def by auto
  then show ?thesis by (simp only: brief_state_settled)
qed

lemma keeps_settled_put:
  assumes "cases b' = AList.update K c' (cases b)" "runs b' = runs b"
    and "K \<in> X \<or> (\<exists>c. map_of (cases b) K = Some c \<and> sc_state c \<notin> SETTLED) \<and> sc_state c' \<notin> SETTLED"
  shows "keeps_settled X b b'"
  using assms by (auto simp: keeps_settled_def)

section \<open>Reviews\<close>

lemma returned_keeps:
  assumes inv: "decision_invariant facts db" and c: "map_of (cases (base db)) K = Some c" "sc_state c = CS_ADVISOR_REVIEW"
    and fresh: "map_of (reviews db) (vr_org r, vr_review r) = None"
    and db': "db' = record_review r (put_case K (c\<lparr>sc_state := CS_PLANNING\<rparr>)
         (db\<lparr>reviews := reviews db @ [((vr_org r, vr_review r), a)]\<rparr>))"
  shows "decision_invariant facts db'"
proof -
  have le: "map_of (reviews db) \<subseteq>\<^sub>m map_of (reviews db')" using map_le_snoc [OF fresh] by (simp add: db')
  have ks: "keeps_settled {} (base db) (base db')"
    by (rule keeps_settled_put [where K = K and c' = "c\<lparr>sc_state := CS_PLANNING\<rparr>"]) (simp_all add: db' c SETTLED_def)
  note D = decision_invariantD [OF inv]
  show ?thesis
  proof (rule decision_invariantI)
    fix k b assume "map_of (briefs db') k = Some b"
    then have "brief_ok facts db k b" by (simp add: db' D(1))
    then show "brief_ok facts db' k b" by (rule brief_ok_mono [OF _ le ks]) simp
  next
    fix k d assume "map_of (decisions db') k = Some d"
    then have "decision_ok facts db k d" by (simp add: db' D(2))
    then show "decision_ok facts db' k d" by (rule decision_ok_mono) (simp_all add: db')
  next
    fix k c' assume "map_of (cases (base db')) k = Some c'"
    with D(3) [of k] show "case_ok db' k c'" by (auto simp: db' case_ok_def SETTLED_def split: if_splits)
  next
    fix k x assume "(k, x) \<in> set (acceptances db')"
    then have "risk_ok facts db k x" by (simp add: db' D(9))
    then show "risk_ok facts db' k x" by (rule risk_ok_mono [OF _ le])
  next
    show "records_ok db'"
      by (rule records_ok_remember [OF D(10) le, where ik = "review_key r"
            and rec = "\<lparr>ir_request_sha256 = vr_request_hash r, ir_response_id = vr_review r\<rparr>"])
        (simp_all add: db' map_of_snoc [OF fresh])
  qed (simp_all add: db' D(4-8))
qed

lemma approved_keeps:
  assumes inv: "decision_invariant facts db" and t: "review_target part r c run db"
    and fresh: "map_of (reviews db) (vr_org r, vr_review r) = None" and act: "vr_action r = ''approve_for_consultation''"
    and el: "vr_eligible r \<noteq> []" "distinct (vr_eligible r)"
      "list_all (recommended_australia facts (vr_org r, vr_run r)) (vr_eligible r)"
    and cp: "canonical_projection facts r run = Inr (d, s)"
    and new: "map_of (briefs db) (vr_org r, i) = None"
    and risks: "list_all (governed_risk facts (vr_org r) (vr_run r) run) rows"
      "list_all (\<lambda>j. explicit_risk j \<and> rj_evidence j \<noteq> None) (vr_risks r)"
    and db': "db' = record_review r (put_case (vr_org r, vr_case r) (c\<lparr>sc_state := CS_FAMILY_REVIEW\<rparr>)
         (db\<lparr>reviews := reviews db @ [((vr_org r, vr_review r), new_review r db)],
             acceptances := acceptances db @ map (Pair (vr_org r, vr_review r)) rows,
             briefs := briefs db @ [((vr_org r, i), new_brief r run hash d s)]\<rparr>))"
  shows "decision_invariant facts db'"
proof -
  let ?K = "(vr_org r, vr_case r)" and ?b = "new_brief r run hash d s"
  note D = decision_invariantD [OF inv]
  have c: "map_of (cases (base db)) ?K = Some c" "sc_state c = CS_ADVISOR_REVIEW"
    "sc_current_revision c = vr_revision r" and run: "map_of (runs (base db)) (vr_org r, vr_run r) = Some run"
    "run_case run = vr_case r" "run_case_revision run = vr_revision r" "run_status run = RS_REVIEW_REQUIRED"
    "run_is_current run" using t by (simp_all add: review_target_def)
  have le: "map_of (reviews db) \<subseteq>\<^sub>m map_of (reviews db')" using map_le_snoc [OF fresh] by (simp add: db')
  have ks: "keeps_settled {?K} (base db) (base db')"
    by (rule keeps_settled_put [where K = ?K and c' = "c\<lparr>sc_state := CS_FAMILY_REVIEW\<rparr>"]) (simp_all add: db')
  have other: "(fst k, bw_case b) \<noteq> ?K" if "map_of (briefs db) k = Some b" for k b
    using brief_case_settled [OF D(1) [OF that]] c by (auto simp: SETTLED_def)
  have briefs: "map_of (briefs db') k = (if k = (vr_org r, i) then Some ?b else map_of (briefs db) k)" for k
    using map_of_snoc [OF new] by (simp add: db')
  have s: "s = \<lparr>bj_schema_version = 1, bj_routes = routes_of_run facts (vr_org r, vr_run r),
      bj_eligible = vr_eligible r, bj_risks = vr_risks r, bj_intake = bj_intake s, bj_synthetic_proof = True\<rparr>"
    "pinned_intake facts (vr_org r) (vr_case r) (vr_revision r) = Some (bj_intake s)"
    using cp by (auto simp: canonical_projection_def split: option.splits)
  have proj: "bj_schema_version s = 1" "bj_routes s = routes_of_run facts (vr_org r, vr_run r)" "bj_eligible s = vr_eligible r"
    "bj_risks s = vr_risks r" by (subst s(1), simp)+
  have brief: "brief_ok facts db' (vr_org r, i) ?b"
    using c run el s(2) proj act risks(2) by (auto simp: brief_ok_def db' new_brief_def map_of_snoc [OF fresh] new_review_def
        review_approves_def projection_ok_def run_ok_def simp del: map_of_append)
  show ?thesis
  proof (rule decision_invariantI)
    fix k b assume b: "map_of (briefs db') k = Some b"
    show "brief_ok facts db' k b"
    proof (cases "k = (vr_org r, i)")
      case True with b brief briefs show ?thesis by simp
    next
      case False
      with b briefs have old: "map_of (briefs db) k = Some b" by simp
      from other [OF old] show ?thesis by (intro brief_ok_mono [OF D(1) [OF old] le ks]) simp
    qed
    from b show "\<not> bw_is_current b \<Longrightarrow> \<exists>i d. map_of (decisions db') (fst k, i) = Some d \<and> fd_brief d = snd k"
      using D(4) [of k b] unfolding briefs by (auto simp: db' new_brief_def split: if_splits)
  next
    fix k d assume "map_of (decisions db') k = Some d"
    then have "decision_ok facts db k d" by (simp add: db' D(2))
    then show "decision_ok facts db' k d" by (rule decision_ok_mono) (use briefs new in \<open>auto simp: db'\<close>)
  next
    fix k c' assume c': "map_of (cases (base db')) k = Some c'"
    show "case_ok db' k c'"
    proof (cases "k = ?K")
      case True
      with c' have "sc_state c' = CS_FAMILY_REVIEW" by (auto simp: db')
      moreover have "map_of (briefs db') (vr_org r, i) = Some ?b" "bw_case ?b = vr_case r"
        by (simp add: briefs) (simp add: new_brief_def)
      ultimately show ?thesis using True unfolding case_ok_def by auto
    next
      case False
      with c' D(3) [of k c'] have "case_ok db k c'" by (simp add: db')
      then show ?thesis using briefs new unfolding case_ok_def by (metis option.distinct(1))
    qed
  next
    show "unique_by bw_case (briefs db')"
      using unique_by_snoc [OF D(6) new] other by (fastforce simp: db' new_brief_def)
  next
    fix k x assume "(k, x) \<in> set (acceptances db')"
    then consider "(k, x) \<in> set (acceptances db)" | "k = (vr_org r, vr_review r)" "x \<in> set rows"
      by (auto simp: db')
    then show "risk_ok facts db' k x"
    proof cases
      case 1 then show ?thesis by (rule risk_ok_mono [OF D(9) le])
    next
      case 2 with risks act show ?thesis
        by (auto simp: risk_ok_def db' map_of_snoc [OF fresh] new_review_def governed_risk_def list_all_iff simp del: map_of_append)
    qed
  next
    show "records_ok db'"
      by (rule records_ok_remember [OF D(10) le, where ik = "review_key r"
            and rec = "\<lparr>ir_request_sha256 = vr_request_hash r, ir_response_id = vr_review r\<rparr>"])
        (simp_all add: db' map_of_snoc [OF fresh])
  qed (simp_all add: db' D(5,7,8))
qed

lemma review_keeps:
  assumes inv: "decision_invariant facts db" and "review_planning_run part facts ses r db = Inr (db', out)"
  shows "decision_invariant facts db'"
  using assms(2)
proof (cases rule: review_cases)
  case (returned c run)
  show ?thesis by (rule returned_keeps [OF inv _ _ returned(3,6)]) (use returned(2) in \<open>simp_all add: review_target_def\<close>)
next
  case (approved c run i d s hash rows)
  show ?thesis by (rule approved_keeps [OF inv approved(2,3,4,8,5,9,6,11,13,14,15)])
qed (simp add: inv)

section \<open>Decisions\<close>

lemma recommended_route:
  assumes "distinct (map route_id (routes_of_run facts run))" "recommended_australia facts run i"
  shows "\<exists>x. find (\<lambda>x. route_id x = i) (routes_of_run facts run) = Some x \<and> br_country x = AUSTRALIA
    \<and> br_outcome x = RO_RECOMMENDED_WITH_CONDITION"
  using eligible_route_unblocked [OF assms(1), of i] assms(2)
  by (auto simp: recommended_australia_def list_ex_iff eligible_route_ids_def)

lemma selected_route_Inr:
  assumes "selected_route facts r b db = Inr x"
  shows "br_country x = AUSTRALIA" "br_outcome x = RO_RECOMMENDED_WITH_CONDITION"
    and "map_of (reviews db) (dq_org r, bw_review b) = Some a \<Longrightarrow> ar_action a = ''approve_for_consultation'' \<Longrightarrow>
      dq_route r \<in> set (ar_eligible a)"
  using assms by (auto simp: selected_route_def split: option.splits if_splits)

lemma budget_checked:
  assumes "check_budget facts r b = Inr ()"
  shows "within_budget facts (dq_org r) b (new_decision r b)"
  using assms by (auto simp: check_budget_def within_budget_def new_decision_def not_le not_less split: if_splits option.splits)

lemma new_decision_ok:
  assumes "map_of (briefs db) (dq_org r, dq_brief r) = Some (b\<lparr>bw_is_current := False\<rparr>)"
    and "map_of (plans db) (dq_org r, dq_timeline r) = Some (new_plan r route pinned ms)"
    and may: "may_decide part r b" and "bw_version b = dq_version r"
    and "dq_route r \<in> set (bj_eligible (bw_projection b))"
    and "within_budget facts (dq_org r) b (new_decision r b)" and "br_country route = AUSTRALIA"
    and "bj_intake (bw_projection b) = pinned" and "canonical_milestones (Some pinned) = Inr ms"
  shows "decision_ok facts db (dq_org r, dq_decision r) (new_decision r b)"
proof -
  have "source_ok (new_decision r b)"
    using may by (auto simp: may_decide_def source_ok_def new_decision_def split: if_splits)
  moreover have "plan_ok (b\<lparr>bw_is_current := False\<rparr>) (new_plan r route pinned ms)"
    using assms(7-9) by (simp add: plan_ok_def new_plan_def)
  moreover have "within_budget facts (dq_org r) (b\<lparr>bw_is_current := False\<rparr>) (new_decision r b)"
    using assms(6) by (simp add: within_budget_def)
  moreover have "fd_brief (new_decision r b) = dq_brief r" "fd_case (new_decision r b) = bw_case b"
    "fd_run (new_decision r b) = bw_run b" "fd_brief_version (new_decision r b) = dq_version r"
    "fd_route (new_decision r b) = dq_route r" "pl_decision (new_plan r route pinned ms) = dq_decision r"
    by (simp_all add: new_decision_def new_plan_def)
  ultimately show ?thesis unfolding decision_ok_def using assms(1,2,4,5) by fastforce
qed

lemma decided_keeps:
  assumes inv: "decision_invariant facts db" and t: "decision_target r b c db"
    and may: "may_decide part r b" and route: "selected_route facts r b db = Inr route" and budget: "check_budget facts r b = Inr ()"
    and pin: "pinned_intake facts (dq_org r) (bw_case b) (bw_revision b) = Some pinned"
    and ms: "canonical_milestones (Some pinned) = Inr ms"
    and nd: "map_of (decisions db) (dq_org r, dq_decision r) = None"
    and ud: "\<not> list_ex (\<lambda>(k, d). fst k = dq_org r \<and> (fd_receipt d = dq_receipt r \<or> fd_brief d = dq_brief r)) (decisions db)"
    and np: "map_of (plans db) (dq_org r, dq_timeline r) = None"
    and up: "\<not> list_ex (\<lambda>(k, p). fst k = dq_org r \<and> pl_decision p = dq_decision r) (plans db)"
    and keys: "map fst rows = map fst (briefs db)"
    and rows: "\<And>k. map_of rows k = (if k = (dq_org r, dq_brief r) then Some (b\<lparr>bw_is_current := False\<rparr>) else map_of (briefs db) k)"
    and db': "db' = remember (decide_key r) (dq_request_hash r) (dq_decision r)
         ((audit_decision r b (put_case (dq_org r, bw_case b) (c\<lparr>sc_state := CS_PLAN_READY\<rparr>)
           (db\<lparr>decisions := decisions db @ [((dq_org r, dq_decision r), new_decision r b)],
               plans := plans db @ [((dq_org r, dq_timeline r), new_plan r route pinned ms)]\<rparr>)))\<lparr>briefs := rows\<rparr>)"
  shows "decision_invariant facts db'"
proof -
  let ?K = "(dq_org r, bw_case b)" and ?B = "(dq_org r, dq_brief r)" and ?b = "b\<lparr>bw_is_current := False\<rparr>"
  note D = decision_invariantD [OF inv]
  have b: "map_of (briefs db) ?B = Some b" "bw_is_current b" "bw_version b = dq_version r"
    and c: "map_of (cases (base db)) ?K = Some c" "sc_current_revision c = bw_revision b" "sc_state c = CS_FAMILY_REVIEW"
    using t by (simp_all add: decision_target_def)
  have tables: "reviews db' = reviews db" "acceptances db' = acceptances db" "briefs db' = rows"
    "decisions db' = decisions db @ [((dq_org r, dq_decision r), new_decision r b)]"
    "plans db' = plans db @ [((dq_org r, dq_timeline r), new_plan r route pinned ms)]"
    "cases (base db') = AList.update ?K (c\<lparr>sc_state := CS_PLAN_READY\<rparr>) (cases (base db))" "runs (base db') = runs (base db)"
    by (simp_all add: db' remember_def audit_decision_def write_audit_def put_case_def)
  have ids: "idempotency (base db') = AList.update (decide_key r)
      \<lparr>ir_request_sha256 = dq_request_hash r, ir_response_id = dq_decision r\<rparr> (idempotency (base db))"
    by (simp add: db' remember_def)
  have ks: "keeps_settled {?K} (base db) (base db')"
    by (rule keeps_settled_put [where K = ?K and c' = "c\<lparr>sc_state := CS_PLAN_READY\<rparr>"]) (simp_all add: tables)
  have dec: "map_of (decisions db') k = (if k = (dq_org r, dq_decision r) then Some (new_decision r b) else map_of (decisions db) k)"
    and plan: "map_of (plans db') k = (if k = (dq_org r, dq_timeline r) then Some (new_plan r route pinned ms) else map_of (plans db) k)"
    for k using map_of_snoc [OF nd] map_of_snoc [OF np] by (simp_all add: tables)
  have lep: "map_of (plans db) \<subseteq>\<^sub>m map_of (plans db')" and led: "map_of (decisions db) \<subseteq>\<^sub>m map_of (decisions db')"
    using np nd by (auto simp: map_le_def plan dec)
  note ok = D(1) [OF b(1)]
  have el: "dq_route r \<in> set (bj_eligible (bw_projection b))"
    using ok selected_route_Inr(3) [OF route] unfolding brief_ok_def review_approves_def by auto
  have pinned: "bj_intake (bw_projection b) = pinned" using ok pin by (auto simp: brief_ok_def projection_ok_def)
  have new: "decision_ok facts db' (dq_org r, dq_decision r) (new_decision r b)"
    by (rule new_decision_ok [OF _ _ may b(3) el budget_checked [OF budget] selected_route_Inr(1) [OF route] pinned ms])
      (simp_all add: tables(3) rows plan)
  show ?thesis
  proof (rule decision_invariantI)
    fix k x assume "map_of (briefs db') k = Some x"
    then have x: "(if k = ?B then Some ?b else map_of (briefs db) k) = Some x" by (simp only: tables rows)
    show "brief_ok facts db' k x"
    proof (cases "k = ?B")
      case True
      with x ok c show ?thesis
        by (auto simp: brief_ok_def tables review_approves_def projection_ok_def run_ok_def)
    next
      case False
      with x have old: "map_of (briefs db) k = Some x" by simp
      have "(fst k, bw_case x) \<noteq> ?K" using unique_byD [OF D(6) old b(1)] False by auto
      then show ?thesis by (intro brief_ok_mono [OF D(1) [OF old] _ ks]) (simp_all add: tables)
    qed
    show "\<exists>i d. map_of (decisions db') (fst k, i) = Some d \<and> fd_brief d = snd k" if "\<not> bw_is_current x"
    proof (cases "k = ?B")
      case True
      then show ?thesis by (intro exI [of _ "dq_decision r"] exI [of _ "new_decision r b"]) (simp add: dec new_decision_def)
    next
      case False
      with x have "map_of (briefs db) k = Some x" by simp
      from D(4) [OF this that] map_leD [OF led] show ?thesis by blast
    qed
  next
    fix k d assume d: "map_of (decisions db') k = Some d"
    show "decision_ok facts db' k d"
    proof (cases "k = (dq_org r, dq_decision r)")
      case True with d dec new show ?thesis by simp
    next
      case False
      with d dec have "decision_ok facts db k d" using D(2) by simp
      then show ?thesis by (rule decision_ok_mono [OF _ _ lep]) (use b in \<open>auto simp: tables rows\<close>)
    qed
  next
    fix k c' assume c': "map_of (cases (base db')) k = Some c'"
    have here: "map_of (briefs db') ?B = Some ?b" "bw_case ?b = bw_case b" by (simp_all add: tables rows)
    show "case_ok db' k c'"
    proof (cases "k = ?K")
      case True
      with c' have "sc_state c' = CS_PLAN_READY" by (auto simp: tables)
      moreover have "\<exists>i x. map_of (briefs db') (fst k, i) = Some x \<and> bw_case x = snd k"
        by (rule exI [of _ "dq_brief r"], rule exI [of _ ?b]) (simp add: here(1) True)
      ultimately show ?thesis by (simp add: case_ok_def)
    next
      case False
      with c' D(3) [of k c'] have "case_ok db k c'" by (simp add: tables)
      moreover have "map_of (briefs db') (fst k, i) = Some x" if "map_of (briefs db) (fst k, i) = Some x" "bw_case x = snd k" for i x
      proof -
        have "(fst k, i) \<noteq> ?B" using that b(1) False by (cases k) auto
        with that(1) show ?thesis by (simp only: tables rows if_False)
      qed
      ultimately show ?thesis unfolding case_ok_def by blast
    qed
  next
    fix k p assume "map_of (plans db') k = Some p"
    then have p: "(if k = (dq_org r, dq_timeline r) then Some (new_plan r route pinned ms) else map_of (plans db) k) = Some p"
      by (simp only: plan)
    show "map_of (decisions db') (fst k, pl_decision p) \<noteq> None"
    proof (cases "k = (dq_org r, dq_timeline r)")
      case True with p show ?thesis by (auto simp: dec new_plan_def)
    next
      case False
      with p D(5) [of k p] show ?thesis by (simp add: dec)
    qed
  next
    show "unique_by bw_case (briefs db')"
      by (rule unique_by_same [OF D(6)]) (use keys b(1) in \<open>auto simp: tables rows split: if_splits\<close>)
    show "unique_by fd_brief (decisions db')" unfolding tables
      by (rule unique_by_snoc [OF D(7) nd]) (use no_row [OF ud] in \<open>fastforce simp: new_decision_def\<close>)
    show "unique_by pl_decision (plans db')" unfolding tables
      by (rule unique_by_snoc [OF D(8) np]) (use no_row [OF up] in \<open>fastforce simp: new_plan_def\<close>)
  next
    fix k x assume "(k, x) \<in> set (acceptances db')"
    then have "risk_ok facts db k x" by (simp add: tables D(9))
    then show "risk_ok facts db' k x" by (rule risk_ok_mono) (simp add: tables)
  next
    show "records_ok db'"
      by (rule records_ok_remember [OF D(10) _ led ids]) (simp_all add: tables(1) dec)
  qed
qed

lemma decide_keeps:
  assumes inv: "decision_invariant facts db" and "decide_family_brief part facts ses r db = Inr (db', out)"
  shows "decision_invariant facts db'"
  using assms(2)
proof (cases rule: decide_cases)
  case (decided b c route ms i rows)
  show ?thesis by (rule decided_keeps [OF inv decided(2-7,9-15)])
qed (simp add: inv)

section \<open>Steps of other components\<close>

lemma shares_settled:
  assumes "shares b b'"
  shows "keeps_settled {} b b'"
proof -
  have cs: "map_of (cases b') k = Some c \<longleftrightarrow> map_of (cases b) k = Some c" if "sc_state c \<in> SETTLED" for k c
  proof -
    from assms have "rel_option (case_moves b k) (map_of (cases b) k) (map_of (cases b') k)" unfolding shares_def by blast
    with that show ?thesis
      by (cases "map_of (cases b) k"; cases "map_of (cases b') k") (auto simp: case_moves_def SETTLED_def)
  qed
  moreover from assms obtain rs where "runs b' = runs b @ rs" unfolding shares_def by blast
  ultimately show ?thesis unfolding keeps_settled_def by simp
qed

lemma retire_runs_other:
  "map_of rows kr = Some r \<Longrightarrow> (fst kr, run_case r) \<noteq> k \<Longrightarrow> map_of (retire_runs k rows) kr = Some r"
  by (induction rows) (auto simp: retire_runs_def split: if_splits)

lemma publish_settled:
  assumes "map_of (cases (base db)) k = Some c" "may_publish k c db"
  shows "keeps_settled {} (base db) (base (publish_revision k c db))"
proof -
  have "sc_state c \<notin> SETTLED" using assms(2) by (auto simp: may_publish_def SETTLED_def)
  with assms(1) show ?thesis
    by (auto simp: keeps_settled_def publish_revision_def intro!: retire_runs_other)
qed

lemma decision_ids_distinct: "ik_operation ik \<in> DECISION_OPERATIONS \<Longrightarrow> ik_operation ik \<notin> TASK_OPERATIONS"
  by (auto simp: DECISION_OPERATIONS_def TASK_OPERATIONS_def)

lemma frame_base:
  assumes "decision_invariant facts db" "keeps_settled {} (base db) b"
    and "\<And>ik. ik_operation ik \<in> DECISION_OPERATIONS \<Longrightarrow> map_of (idempotency b) ik = map_of (idempotency (base db)) ik"
  shows "decision_invariant facts (db\<lparr>base := b\<rparr>)"
  using frame_invariant [OF assms, of "audit db"] by simp

theorem decision_step_invariant:
  assumes "decision_step facts db db'" and inv: "decision_invariant facts db"
  shows "decision_invariant facts db'"
  using assms(1)
proof (cases rule: decision_step.cases)
  case review
  with inv show ?thesis by (rule review_keeps)
next
  case decide
  with inv show ?thesis by (rule decide_keeps)
next
  case (task b)
  have sh: "shares (base db) b" by (rule task_call_shares [OF task(2)])
  show ?thesis unfolding task(1)
    by (rule frame_base [OF inv shares_settled [OF sh]]) (use sh decision_ids_distinct in \<open>auto simp: shares_def\<close>)
next
  case (publish k c)
  have "decision_invariant facts (db\<lparr>base := base (publish_revision k c db)\<rparr>)"
    by (rule frame_base [OF inv publish_settled [OF publish(2,3)]]) (simp add: publish_revision_def)
  then show ?thesis by (simp add: publish publish_revision_def)
next
  case (new_case k c)
  have "keeps_settled {} (base db) ((base db)\<lparr>cases := cases (base db) @ [(k, c)]\<rparr>)"
    using new_case(2,3) by (auto simp: keeps_settled_def map_of_snoc [OF new_case(2)] SETTLED_def simp del: map_of_append)
  then show ?thesis unfolding new_case(1) by (rule frame_base [OF inv]) simp
next
  case (other ids rows)
  show ?thesis unfolding other(1)
    by (rule frame_invariant [OF inv]) (simp_all add: keeps_settled_def other(2))
qed

lemma decision_reachable_invariant: "decision_reachable facts db \<Longrightarrow> decision_invariant facts db"
  unfolding decision_reachable_def
  by (induction rule: rtranclp_induct) (auto intro: decision_step_invariant decision_invariant_empty)

lemma decision_reachable_steps:
  "decision_reachable facts db \<Longrightarrow> (decision_step facts)\<^sup>*\<^sup>* db db' \<Longrightarrow> decision_reachable facts db'"
  unfolding decision_reachable_def by (rule rtranclp_trans)

section \<open>The task authority inside\<close>

text \<open>A run of the composed system is, on the tables of the tasks, a run of the task system.\<close>

definition same_tasks :: "task_db \<Rightarrow> task_db \<Rightarrow> bool" where
  "same_tasks b b' \<longleftrightarrow> tasks b' = tasks b \<and> executions b' = executions b \<and> events b' = events b
     \<and> dispatch b' = dispatch b
     \<and> (\<forall>ik. ik_operation ik \<in> TASK_OPERATIONS \<longrightarrow> map_of (idempotency b') ik = map_of (idempotency b) ik)"

lemma same_tasks_step: "same_tasks b b' \<Longrightarrow> task_step b b'"
  by (rule step_environment) (simp_all add: same_tasks_def)

lemma decision_ids_other: "ik_operation ik \<in> TASK_OPERATIONS \<Longrightarrow> ik \<noteq> review_key r \<and> ik \<noteq> decide_key q"
  by (auto simp: TASK_OPERATIONS_def review_key_def decide_key_def idem_key_of_def)

lemma review_same_tasks:
  assumes "review_planning_run part facts ses r db = Inr (db', out)"
  shows "same_tasks (base db) (base db')"
  using assms
proof (cases rule: review_cases)
  case (returned c run)
  then show ?thesis using decision_ids_other
    by (auto simp: same_tasks_def record_review_def remember_def write_audit_def put_case_def)
next
  case (approved c run i d s hash rows)
  then show ?thesis using decision_ids_other
    by (auto simp: same_tasks_def record_review_def remember_def write_audit_def put_case_def)
qed (simp add: same_tasks_def)

lemma decide_same_tasks:
  assumes "decide_family_brief part facts ses r db = Inr (db', out)"
  shows "same_tasks (base db) (base db')"
  using assms
proof (cases rule: decide_cases)
  case (decided b c route ms i rows)
  show ?thesis unfolding decided(15) using decision_ids_other
    by (auto simp: same_tasks_def remember_def audit_decision_def write_audit_def put_case_def)
qed (simp add: same_tasks_def)

theorem decision_step_task:
  assumes "decision_step facts db db'"
  shows "task_step (base db) (base db')"
  using assms
proof (cases rule: decision_step.cases)
  case review
  then show ?thesis by (intro same_tasks_step review_same_tasks)
next
  case decide
  then show ?thesis by (intro same_tasks_step decide_same_tasks)
next
  case task
  then show ?thesis by (simp add: task_call_step)
qed (auto intro!: same_tasks_step simp: same_tasks_def publish_revision_def)

lemma decision_reachable_tasks:
  assumes "decision_reachable facts db"
  shows "task_reachable (base db)"
  using assms unfolding decision_reachable_def
proof (induction rule: rtranclp_induct)
  case base
  show ?case by (simp add: task_reachable_def empty_decision_db_def)
next
  case (step db1 db2)
  then show ?case using decision_step_task reachable_step by blast
qed

end
