(* ===== verification/Decision_Application.thy ===== *)
theory Decision_Application
  imports Decision_Authority
begin

text \<open>
  \<open>decision/postgres.py\<close> and \<open>decision/application.py\<close>: the JSON of a projection, the calls of the two SQL
  functions with their errors, the joined read of a brief, and the service.  The digests of a key, of a
  review and of a decision are arguments; the digest of a review leaves its two fresh identifiers out.
\<close>

section \<open>Projections as JSON\<close>

fun risk_kind_value :: "evidence_risk_kind \<Rightarrow> string" where
  "risk_kind_value RISK_OPTIONAL = ''optional''"
| "risk_kind_value RISK_STALE = ''stale''"
| "risk_kind_value RISK_UNVERIFIED = ''unverified''"

fun action_value :: "review_action \<Rightarrow> string" where
  "action_value APPROVE_FOR_CONSULTATION = ''approve_for_consultation''"
| "action_value REJECT = ''reject''"
| "action_value REQUEST_REVISION = ''request_revision''"

fun source_value :: "decision_source \<Rightarrow> string" where
  "source_value DIRECT = ''direct''"
| "source_value FAMILY_CONSULTATION = ''family_consultation''"

definition dump_risk :: "evidence_risk_acceptance \<Rightarrow> risk_json" where
  "dump_risk a = \<lparr>rj_evidence = Some (era_evidence_id a), rj_kind = Some (risk_kind_value (kind a)),
     rj_reason = Some (reason a)\<rparr>"

definition dump_projection :: "decision_brief \<Rightarrow> brief_json" where
  "dump_projection p = \<lparr>bj_schema_version = db_schema_version p, bj_routes = db_routes p,
     bj_eligible = db_eligible_route_ids p, bj_risks = map dump_risk (accepted_evidence_risks p),
     bj_intake = db_intake p, bj_synthetic_proof = synthetic_proof p\<rparr>"

definition parse_risk :: "risk_json \<Rightarrow> evidence_risk_acceptance result" where
  "parse_risk j =
     (case (rj_evidence j, rj_kind j, rj_reason j) of
        (Some e, Some k, Some why) \<Rightarrow>
          bind_result (narrow_kind k) (\<lambda>v. Inr \<lparr>era_evidence_id = e, kind = v, reason = why\<rparr>)
      | _ \<Rightarrow> Inl (ValueError ''field''))"

definition parse_projection :: "brief_json \<Rightarrow> decision_brief result" where
  "parse_projection j =
     bind_result (traverse parse_risk (bj_risks j)) (\<lambda>risks.
       eligible_routes_are_present_and_unblocked
         \<lparr>db_schema_version = bj_schema_version j, db_intake = bj_intake j, db_routes = bj_routes j,
          db_eligible_route_ids = bj_eligible j, accepted_evidence_risks = risks,
          synthetic_proof = bj_synthetic_proof j\<rparr>)"

section \<open>Errors\<close>

datatype decision_error =
    Raised exn
  | TypeFailure
  | Unavailable
  | MultipleRows
  | DecisionConflict sql_error
  | DecisionUnauthorized
  | DatabaseFailure sql_error

definition map_decision_error :: "sql_error \<Rightarrow> decision_error" where
  "map_decision_error e =
     (if e \<in> {NV003, NV006, NV008, UNIQUE_VIOLATION} then DecisionConflict e
      else if e = NV007 then DecisionUnauthorized else DatabaseFailure e)"

definition from_sql :: "sql_error + 'a \<Rightarrow> decision_error + 'a" where
  "from_sql r = (case r of Inl e \<Rightarrow> Inl (map_decision_error e) | Inr x \<Rightarrow> Inr x)"

definition from_python :: "'a result \<Rightarrow> decision_error + 'a" where
  "from_python r = (case r of Inl e \<Rightarrow> Inl (Raised e) | Inr x \<Rightarrow> Inr x)"

section \<open>The repository\<close>

type_synonym digested_review =
  "uuid \<times> uuid \<times> int \<times> review_action \<times> uuid list \<times> evidence_risk_acceptance list \<times> string option"

record digests =
  digest_of_key :: "string \<Rightarrow> sha"
  digest_of_review :: "digested_review \<Rightarrow> sha"
  digest_of_decision :: "family_decision_command \<Rightarrow> sha"

definition review_payload :: "review_command \<Rightarrow> digested_review" where
  "review_payload c = (rc_case_id c, rc_planning_run_id c, expected_case_revision c, action c,
     rc_eligible_route_ids c, risk_acceptances c, reviewer_notes c)"

text \<open>The projection that an approval sends, computed from the rows of the run; \<open>str(None)\<close> is the text \<open>None\<close>.\<close>

definition review_projection ::
  "decision_facts \<Rightarrow> uuid \<Rightarrow> review_command \<Rightarrow> decision_db \<Rightarrow> decision_error + brief_json option \<times> date" where
  "review_projection facts org c db =
     (if action c \<noteq> APPROVE_FOR_CONSULTATION then Inr (None, (1970, 1, 1))
      else
        let stored = pinned_intake facts org (rc_case_id c) (expected_case_revision c);
            snapshot = (case map_of (runs (base db)) (org, rc_planning_run_id c) of None \<Rightarrow> None
                        | Some q \<Rightarrow> pack_snapshot facts org (run_source_pack q) (run_source_pack_version q)) in
        bind_result (from_python (eligible_routes_are_present_and_unblocked
            \<lparr>db_schema_version = 1, db_intake = (case stored of None \<Rightarrow> ''None'' | Some i \<Rightarrow> i),
             db_routes = routes_of_run facts (org, rc_planning_run_id c),
             db_eligible_route_ids = rc_eligible_route_ids c, accepted_evidence_risks = risk_acceptances c,
             synthetic_proof = True\<rparr>))
          (\<lambda>p. Inr (Some (dump_projection p), case snapshot of None \<Rightarrow> (1970, 1, 1) | Some d \<Rightarrow> d)))"

definition review_request_of ::
  "digests \<Rightarrow> session \<Rightarrow> review_command \<Rightarrow> string \<Rightarrow> brief_json option \<times> date \<Rightarrow> review_request" where
  "review_request_of hashes ses c idempotency_key sent =
     \<lparr>vr_org = ses_organization ses, vr_actor = ses_actor ses, vr_case = rc_case_id c,
      vr_run = rc_planning_run_id c, vr_revision = expected_case_revision c, vr_action = action_value (action c),
      vr_review = rc_review_id c, vr_eligible = rc_eligible_route_ids c,
      vr_risks = map dump_risk (risk_acceptances c), vr_notes = reviewer_notes c, vr_brief = rc_brief_id c,
      vr_projection = fst sent, vr_source_date = snd sent,
      vr_key_hash = digest_of_key hashes idempotency_key,
      vr_request_hash = digest_of_review hashes (review_payload c)\<rparr>"

definition repository_review ::
  "participants \<Rightarrow> decision_facts \<Rightarrow> digests \<Rightarrow> session \<Rightarrow> review_command \<Rightarrow> string \<Rightarrow> decision_db
     \<Rightarrow> decision_error + decision_db \<times> review_out" where
  "repository_review part facts hashes ses c idempotency_key db =
     bind_result (review_projection facts (ses_organization ses) c db) (\<lambda>sent.
       from_sql (review_planning_run part facts ses
         (review_request_of hashes ses c idempotency_key sent) db))"

record decision_receipt =
  dr_decision :: uuid
  dr_receipt :: uuid
  dr_route :: uuid
  dr_min :: int
  dr_max :: int
  dr_currency :: string
  dr_trade_offs :: "string list"
  dr_made_by :: uuid
  dr_recorded_by :: uuid
  dr_source :: string

record brief_record =
  br_id :: uuid
  br_version :: int
  br_snapshot :: date
  br_projection :: brief_json
  br_is_current :: bool
  br_receipt :: "decision_receipt option"
  br_timeline :: "(uuid \<times> milestone_json list) option"
  br_hard_ceiling :: "int option"
  br_australia_cost :: "int option"

definition receipt_of :: "uuid \<Rightarrow> decision_row \<Rightarrow> decision_receipt result" where
  "receipt_of i d =
     (if 0 < fd_min d \<and> 0 < fd_max d \<and> fd_currency d = ''CNY''
         \<and> fd_source d \<in> {''direct'', ''family_consultation''}
      then Inr \<lparr>dr_decision = i, dr_receipt = fd_receipt d, dr_route = fd_route d, dr_min = fd_min d,
             dr_max = fd_max d, dr_currency = fd_currency d, dr_trade_offs = fd_trade_offs d,
             dr_made_by = fd_made_by d, dr_recorded_by = fd_recorded_by d, dr_source = fd_source d\<rparr>
      else Inl (ValueError ''field''))"

text \<open>A left join, and the rows that the query of a brief joins.\<close>

definition left_join :: "'a list \<Rightarrow> 'a option list" where
  "left_join xs = (if xs = [] then [None] else map Some xs)"

definition decisions_of_brief :: "row_key \<Rightarrow> decision_db \<Rightarrow> (row_key \<times> decision_row) list" where
  "decisions_of_brief k db = filter (\<lambda>(kd, d). fst kd = fst k \<and> fd_brief d = snd k) (decisions db)"

definition plans_of_decision :: "(row_key \<times> decision_row) option \<Rightarrow> decision_db \<Rightarrow> (row_key \<times> plan_row) list" where
  "plans_of_decision joined db =
     (case joined of None \<Rightarrow> []
      | Some (kd, d) \<Rightarrow> filter (\<lambda>(kp, p). fst kp = fst kd \<and> pl_decision p = snd kd) (plans db))"

definition joined_rows ::
  "row_key \<Rightarrow> int list \<Rightarrow> decision_db
     \<Rightarrow> ((row_key \<times> decision_row) option \<times> (row_key \<times> plan_row) option \<times> int option) list" where
  "joined_rows k prices db =
     concat (map (\<lambda>d. concat (map (\<lambda>p. map (\<lambda>c. (d, p, c)) (left_join prices))
        (left_join (plans_of_decision d db)))) (left_join (decisions_of_brief k db)))"

definition brief_view ::
  "decision_facts \<Rightarrow> row_key \<Rightarrow> brief_row
     \<Rightarrow> (row_key \<times> decision_row) option \<times> (row_key \<times> plan_row) option \<times> int option
     \<Rightarrow> brief_record result" where
  "brief_view facts k b joined =
     (let (d, p, cost) = joined in
      bind_result (parse_projection (bw_projection b)) (\<lambda>_.
      bind_result (case d of None \<Rightarrow> Inr None
                   | Some (kd, row) \<Rightarrow> bind_result (receipt_of (snd kd) row) (\<lambda>x. Inr (Some x))) (\<lambda>receipt.
        Inr \<lparr>br_id = snd k, br_version = bw_version b, br_snapshot = bw_snapshot b,
             br_projection = bw_projection b, br_is_current = bw_is_current b, br_receipt = receipt,
             br_timeline = map_option (\<lambda>(kp, row). (snd kp, pl_milestones row)) p,
             br_hard_ceiling = pinned_hard_ceiling facts (fst k) (bw_case b) (bw_revision b),
             br_australia_cost = cost\<rparr>)))"

definition repository_get_brief ::
  "participants \<Rightarrow> decision_facts \<Rightarrow> session \<Rightarrow> uuid \<Rightarrow> decision_db \<Rightarrow> decision_error + brief_record option" where
  "repository_get_brief part facts ses i db =
     (let org = ses_organization ses in
      case map_of (briefs db) (org, i) of None \<Rightarrow> Inr None
      | Some b \<Rightarrow>
        if \<not> part org (bw_case b) (ses_actor ses) (ses_role ses) then Inr None
        else bind_result (from_sql (traverse cost_value (australia_costs facts (org, bw_run b)))) (\<lambda>prices.
          case joined_rows (org, i) prices db of
            [row] \<Rightarrow> bind_result (from_python (brief_view facts (org, i) b row)) (\<lambda>v. Inr (Some v))
          | _ \<Rightarrow> Inl MultipleRows))"

definition milestone_dump :: "timeline_plan \<Rightarrow> milestone_json list" where
  "milestone_dump p = map (\<lambda>m. milestone (timeline_milestone.key m) (Some (due_date m))) (milestones p)"

definition decide_request_of ::
  "digests \<Rightarrow> session \<Rightarrow> family_decision_command \<Rightarrow> uuid \<times> uuid \<times> uuid \<Rightarrow> timeline_plan \<Rightarrow> string \<Rightarrow> decide_request" where
  "decide_request_of hashes ses c fresh plan idempotency_key =
     (let (decision_id, receipt_id, timeline_id) = fresh in
      \<lparr>dq_org = ses_organization ses, dq_actor = ses_actor ses, dq_role = ses_role ses, dq_brief = fdc_brief_id c,
       dq_version = expected_brief_version c, dq_decision = decision_id, dq_receipt = receipt_id,
       dq_route = selected_route_id c, dq_min = accepted_budget_min_minor c, dq_max = accepted_budget_max_minor c,
       dq_currency = fdc_currency c, dq_trade_offs = accepted_trade_offs c, dq_made_by = decision_made_by_actor_id c,
       dq_source = source_value (fdc_source c), dq_timeline = timeline_id, dq_milestones = milestone_dump plan,
       dq_key_hash = digest_of_key hashes idempotency_key, dq_request_hash = digest_of_decision hashes c\<rparr>)"

definition repository_decide ::
  "participants \<Rightarrow> decision_facts \<Rightarrow> digests \<Rightarrow> session \<Rightarrow> family_decision_command \<Rightarrow> uuid \<times> uuid \<times> uuid
     \<Rightarrow> timeline_plan \<Rightarrow> string \<Rightarrow> decision_db \<Rightarrow> decision_error + decision_db \<times> decide_out" where
  "repository_decide part facts hashes ses c fresh plan idempotency_key db =
     from_sql (decide_family_brief part facts ses (decide_request_of hashes ses c fresh plan idempotency_key) db)"

section \<open>The service\<close>

text \<open>The policy on pinned numbers that may be null: comparing with \<open>None\<close> is a type error, raised after the
  checks that the policy makes before it.  These are the ones that a command within every later bound can fail.\<close>

definition validate_pinned ::
  "family_decision_command \<Rightarrow> decision_brief \<Rightarrow> brief_record \<Rightarrow> decision_error + unit" where
  "validate_pinned c p r =
     (let check = (\<lambda>c h cost. from_python (validate_family_decision c p (br_id r) (br_version r) h cost));
          australian = (case find (\<lambda>x. route_id x = selected_route_id c) (db_routes p) of None \<Rightarrow> False
                        | Some x \<Rightarrow> br_country x = AUSTRALIA) in
      case (br_hard_ceiling r, br_australia_cost r) of
        (Some h, Some cost) \<Rightarrow> check c h cost
      | (Some h, None) \<Rightarrow>
          bind_result (check c h (accepted_budget_min_minor c)) (\<lambda>_.
            if australian then Inl TypeFailure else Inr ())
      | (None, _) \<Rightarrow>
          bind_result (check (c\<lparr>accepted_trade_offs := [''budget_elasticity'']\<rparr>)
              (accepted_budget_max_minor c) (accepted_budget_min_minor c)) (\<lambda>_. Inl TypeFailure))"

definition service_decision ::
  "participants \<Rightarrow> decision_facts \<Rightarrow> digests \<Rightarrow> session \<Rightarrow> family_decision_command \<Rightarrow> string
     \<Rightarrow> uuid \<times> uuid \<times> uuid \<Rightarrow> decision_db \<Rightarrow> decision_error + decision_db \<times> decide_out" where
  "service_decision part facts hashes ses c idempotency_key fresh db =
     bind_result (repository_get_brief part facts ses (fdc_brief_id c) db) (\<lambda>stored.
     case stored of None \<Rightarrow> Inl Unavailable
     | Some r \<Rightarrow>
         bind_result (from_python (parse_projection (br_projection r))) (\<lambda>p.
         bind_result (validate_pinned c p r) (\<lambda>_.
         case find (\<lambda>x. route_id x = selected_route_id c) (db_routes p) of
           None \<Rightarrow> Inl (Raised StopIteration)
         | Some route \<Rightarrow>
             bind_result (from_python (build_timeline_plan (br_country route) (db_intake p) (br_snapshot r))) (\<lambda>plan.
               repository_decide part facts hashes ses c fresh plan idempotency_key db))))"

definition service_decide_direct ::
  "participants \<Rightarrow> decision_facts \<Rightarrow> digests \<Rightarrow> session \<Rightarrow> family_decision_command \<Rightarrow> string
     \<Rightarrow> uuid \<times> uuid \<times> uuid \<Rightarrow> decision_db \<Rightarrow> decision_error + decision_db \<times> decide_out" where
  "service_decide_direct part facts hashes ses c idempotency_key fresh db =
     (if ses_role ses \<notin> {''student'', ''parent''} then
        Inl (Raised (ValueError ''direct decision requires assigned family role''))
      else if fdc_source c \<noteq> DIRECT \<or> decision_made_by_actor_id c \<noteq> ses_actor ses then
        Inl (Raised (ValueError ''direct decision actor mismatch''))
      else service_decision part facts hashes ses c idempotency_key fresh db)"

definition service_decide_as_advisor ::
  "participants \<Rightarrow> decision_facts \<Rightarrow> digests \<Rightarrow> session \<Rightarrow> family_decision_command \<Rightarrow> string
     \<Rightarrow> uuid \<times> uuid \<times> uuid \<Rightarrow> decision_db \<Rightarrow> decision_error + decision_db \<times> decide_out" where
  "service_decide_as_advisor part facts hashes ses c idempotency_key fresh db =
     (if ses_role ses \<noteq> ''advisor'' \<or> fdc_source c \<noteq> FAMILY_CONSULTATION then
        Inl (Raised (ValueError ''advisor-recorded decision requires family consultation''))
      else service_decision part facts hashes ses c idempotency_key fresh db)"

end
