(* ===== verification/Decision_History.thy ===== *)
theory Decision_History
  imports Decision_Safety Decision_Application
begin

text \<open>
  The calls of the application as steps of the composed system, and a concrete history: a case is created, planned, reviewed by its advisor and decided by
  its family; and the same case rejected by the advisor.
\<close>

section \<open>Calls of the application are steps\<close>

lemma from_sql_Inr [simp]: "from_sql x = Inr y \<longleftrightarrow> x = Inr y"
  by (simp add: from_sql_def split: sum.splits)

lemma from_python_Inr [simp]: "from_python x = Inr y \<longleftrightarrow> x = Inr y"
  by (simp add: from_python_def split: sum.splits)

lemma repository_review_call:
  assumes "repository_review part facts hashes ses c k db = Inr x"
  obtains sent where "review_projection facts (ses_organization ses) c db = Inr sent"
    "review_planning_run part facts ses (review_request_of hashes ses c k sent) db = Inr x"
  using assms by (auto simp: repository_review_def)

lemma service_decision_call:
  assumes "service_decision part facts hashes ses c k fresh db = Inr x"
  obtains plan where "decide_family_brief part facts ses (decide_request_of hashes ses c fresh plan k) db = Inr x"
  using assms by (auto simp: service_decision_def repository_decide_def split: option.splits)

lemma application_step:
  "repository_review part facts hashes ses c k db = Inr (db', out) \<Longrightarrow> decision_step facts db db'"
  "service_decide_direct part facts hashes ses y k fresh db = Inr (db', out') \<Longrightarrow> decision_step facts db db'"
  "service_decide_as_advisor part facts hashes ses y k fresh db = Inr (db', out') \<Longrightarrow> decision_step facts db db'"
  by (erule repository_review_call, erule decision_step.review)
    (auto simp: service_decide_direct_def service_decide_as_advisor_def elim!: service_decision_call
      intro: decision_step.decide split: if_splits)

section \<open>A history\<close>

definition family_facts :: decision_facts where
  "family_facts = \<lparr>routes_of_run = (\<lambda>q.
       [\<lparr>route_id = 500, br_country = AUSTRALIA, br_outcome = RO_RECOMMENDED_WITH_CONDITION, br_reason_code = ''eligible''\<rparr>,
        \<lparr>route_id = 501, br_country = JAPAN, br_outcome = RO_BLOCKED, br_reason_code = ''deadline''\<rparr>]),
     pack_snapshot = (\<lambda>org p v. Some (2026, 7, 1)), pinned_intake = (\<lambda>org c v. Some ''2027-02''),
     pinned_hard_ceiling = (\<lambda>org c v. Some 40000000),
     australia_costs = (\<lambda>q. [\<lparr>co_tuition = 5000000, co_living = 2000000, co_fx = Dec 47 (-1)\<rparr>]),
     evidence_in_pack = (\<lambda>org e p v. e = 700), evidence_of_run = (\<lambda>q e. e = 700)\<rparr>"

definition family_members :: participants where
  "family_members org c actor rl \<longleftrightarrow>
     org = 1 \<and> c = 10 \<and> (actor, rl) \<in> {(5, ''advisor''), (6, ''student''), (7, ''parent'')}"

definition family_session :: session where
  "family_session = \<lparr>ses_organization = 1, ses_actor = 7, ses_role = ''parent''\<rparr>"

definition family_digests :: digests where
  "family_digests = \<lparr>digest_of_key = (\<lambda>s. replicate 64 (case s of [] \<Rightarrow> CHR ''0'' | x # _ \<Rightarrow> x)),
     digest_of_review = (\<lambda>p. demo_hash (case p of (c, q, v, act, rest) \<Rightarrow> (case act of REJECT \<Rightarrow> CHR ''r'' | _ \<Rightarrow> CHR ''a''))),
     digest_of_decision = (\<lambda>c. demo_hash CHR ''d'')\<rparr>"

definition approval :: review_command where
  "approval = \<lparr>rc_schema_version = 1, rc_case_id = 10, rc_planning_run_id = 90, expected_case_revision = 1,
     action = APPROVE_FOR_CONSULTATION, rc_review_id = 600, rc_eligible_route_ids = [500],
     risk_acceptances = [\<lparr>era_evidence_id = 700, kind = RISK_STALE, reason = ''checked by phone''\<rparr>],
     reviewer_notes = None, rc_brief_id = Some 610\<rparr>"

definition rejection :: review_command where
  "rejection = approval\<lparr>action := REJECT, rc_eligible_route_ids := [], risk_acceptances := [], rc_brief_id := None\<rparr>"

definition choice :: family_decision_command where
  "choice = \<lparr>fdc_schema_version = 1, fdc_brief_id = 610, expected_brief_version = 1, selected_route_id = 500,
     accepted_budget_min_minor = 30000000, accepted_budget_max_minor = 40000000, fdc_currency = ''CNY'',
     accepted_trade_offs = [''budget_elasticity''], decision_made_by_actor_id = 7, fdc_source = DIRECT\<rparr>"

definition family_case :: decision_db where
  "family_case = empty_decision_db\<lparr>base := empty_db\<lparr>cases := [((1, 10), \<lparr>sc_current_revision = 1, sc_state = CS_INTAKE\<rparr>)]\<rparr>\<rparr>"

definition family_created :: task_db where
  "family_created = fst (projr (create_agent_task demo_catalog demo_session demo_create 1000 (base family_case)))"

definition family_claimed :: task_db where
  "family_claimed = fst (projr (claim_agent_task demo_catalog [] ''w1'' 2000 family_created))"

definition family_finished :: task_db where
  "family_finished = fst (projr (finalize_agent_task_result demo_catalog (\<lambda>q. True) demo_session (1, 50) ''w1'' 1
     \<lparr>fq_run = 90, fq_evidence_hash = demo_hash CHR ''7'', fq_state = RS_REVIEW_REQUIRED,
      fq_reason = Some ''explained'', fq_output_hash = demo_hash CHR ''8'', fq_supersedes = None\<rparr> 5000 family_claimed))"

definition family_planned :: decision_db where
  "family_planned = family_case\<lparr>base := family_finished\<rparr>"

definition family_reviewed :: decision_db where
  "family_reviewed = fst (projr (repository_review family_members family_facts family_digests demo_session approval
     ''key'' family_planned))"

definition family_rejected :: decision_db where
  "family_rejected = fst (projr (repository_review family_members family_facts family_digests demo_session rejection
     ''key'' family_planned))"

definition family_decided :: decision_db where
  "family_decided = fst (projr (service_decide_direct family_members family_facts family_digests family_session choice
     ''other'' (620, 630, 640) family_reviewed))"

text \<open>The planned case in full, which evaluation uses in place of its definition.\<close>

lemma family_planned_rows [code]:
  "family_planned =
     \<lparr>base = \<lparr>tasks = [((1, 50), \<lparr>t_case = 10, t_operation = GENERATE_PLANNING_RUN,
     t_case_revision = 1, t_source_pack = 106338239662793269832304564822427566081, t_source_pack_version = 1,
     t_policy_version = ''m3a-policy-v1'', t_request_sha256 = demo_hash CHR ''1'', t_created_by = 5,
     t_row_version = 3, t_state = TS_WAITING_REVIEW, t_attempt_count = 1, t_lease_owner = None,
     t_lease_generation = 1, t_lease_expires_at = None, t_result_run = Some 90, t_terminal_code = None, t_pin =
     Some \<lparr>pin_definition = 100, pin_version = 300, pin_activation = 200, pin_sequence = 1,
     pin_binding_sha256 = demo_hash CHR ''b''\<rparr>, t_predecessor_run = None, t_retried_from = None,
     t_created_at = 1000\<rparr>)], executions = [((1, 50), \<lparr>x_attempt_no = 1, x_lease_generation = 1,
     x_pin = Some \<lparr>pin_definition = 100, pin_version = 300, pin_activation = 200, pin_sequence = 1,
     pin_binding_sha256 = demo_hash CHR ''b''\<rparr>, x_adapter_id = ''deterministic_planning'',
     x_adapter_version = ''m4a-v1'', x_status = XS_SUCCEEDED, x_retryable = False, x_fallback_used = False,
     x_input_sha256 = None, x_output_sha256 = Some (demo_hash CHR ''8''), x_result_run = Some 90, x_public_code =
     Some ''explained'', x_duration_ms = Some 3, x_started_at = None, x_finished_at = Some 5000, x_created_at =
     2000\<rparr>)], events = [((1, 50), \<lparr>ev_sequence = 1, ev_code = EV_QUEUED, ev_status = PREPARING,
     ev_public_code = Some ''queued'', ev_attempt_no = 0, ev_result_run = None, ev_created_at = 1000\<rparr>),
     ((1, 50), \<lparr>ev_sequence = 2, ev_code = EV_LEASE_ACQUIRED, ev_status = PREPARING, ev_public_code =
     Some ''lease_acquired'', ev_attempt_no = 1, ev_result_run = None, ev_created_at = 2000\<rparr>), ((1, 50),
     \<lparr>ev_sequence = 3, ev_code = EV_WAITING_REVIEW, ev_status = NEEDS_ADVISOR_REVIEW, ev_public_code =
     Some ''explained'', ev_attempt_no = 1, ev_result_run = Some 90, ev_created_at = 5000\<rparr>)], dispatch =
     [], idempotency = [(\<lparr>ik_organization = 1, ik_actor = 5, ik_operation = ''agent_task_create'',
     ik_key_sha256 = demo_hash CHR ''2''\<rparr>, \<lparr>ir_request_sha256 = demo_hash CHR ''1'',
     ir_response_id = 50\<rparr>)], cases = [((1, 10), \<lparr>sc_current_revision = 1, sc_state =
     CS_ADVISOR_REVIEW\<rparr>)], runs = [((1, 90), \<lparr>run_case = 10, run_case_revision = 1,
     run_source_pack = 106338239662793269832304564822427566081, run_source_pack_version = 1, run_policy_version
     = ''m3a-policy-v1'', run_evidence_sha256 = demo_hash CHR ''7'', run_status = RS_REVIEW_REQUIRED, run_reason
     = Some ''explained'', run_output_sha256 = Some (demo_hash CHR ''8''), run_supersedes = None, run_is_current =
     True\<rparr>)]\<rparr>, reviews = [], acceptances = [], briefs = [], decisions = [], plans = [], audit =
     []\<rparr>"
  by code_simp

lemma family_ok:
  "is_ok (create_agent_task demo_catalog demo_session demo_create 1000 (base family_case))"
  "is_ok (claim_agent_task demo_catalog [] ''w1'' 2000 family_created)"
  "is_ok (finalize_agent_task_result demo_catalog (\<lambda>q. True) demo_session (1, 50) ''w1'' 1
     \<lparr>fq_run = 90, fq_evidence_hash = demo_hash CHR ''7'', fq_state = RS_REVIEW_REQUIRED,
      fq_reason = Some ''explained'', fq_output_hash = demo_hash CHR ''8'', fq_supersedes = None\<rparr> 5000 family_claimed)"
  by code_simp+

lemma family_review_ok:
  "is_ok (repository_review family_members family_facts family_digests demo_session approval ''key'' family_planned)"
  by code_simp

lemma family_reject_ok:
  "is_ok (repository_review family_members family_facts family_digests demo_session rejection ''key'' family_planned)"
  by code_simp

lemma family_reviewed_rows [code]:
  "family_reviewed =
     \<lparr>base = (base family_planned)\<lparr>cases := [((1, 10), \<lparr>sc_current_revision = 1, sc_state = CS_FAMILY_REVIEW\<rparr>)],
        idempotency :=
          [(\<lparr>ik_organization = 1, ik_actor = 5, ik_operation = ''agent_task_create'', ik_key_sha256 = demo_hash CHR ''2''\<rparr>,
            \<lparr>ir_request_sha256 = demo_hash CHR ''1'', ir_response_id = 50\<rparr>),
           (\<lparr>ik_organization = 1, ik_actor = 5, ik_operation = ''advisor_review'', ik_key_sha256 = demo_hash CHR ''k''\<rparr>,
            \<lparr>ir_request_sha256 = demo_hash CHR ''a'', ir_response_id = 600\<rparr>)]\<rparr>,
      reviews = [((1, 600), \<lparr>ar_case = 10, ar_revision = 1, ar_run = 90, ar_version = 1, ar_advisor = 5,
        ar_action = ''approve_for_consultation'', ar_eligible = [500],
        ar_risks = [\<lparr>rj_evidence = Some 700, rj_kind = Some ''stale'', rj_reason = Some ''checked by phone''\<rparr>],
        ar_notes = None\<rparr>)],
      acceptances = [((1, 600), \<lparr>ra_evidence = 700, ra_kind = ''stale'', ra_reason = ''checked by phone''\<rparr>)],
      briefs = [((1, 610), \<lparr>bw_case = 10, bw_revision = 1, bw_run = 90, bw_review = 600, bw_version = 1,
        bw_policy = ''m3a-policy-v1'', bw_pack = BASELINE_SOURCE_PACK_ID, bw_pack_version = 1,
        bw_evidence_sha256 = demo_hash CHR ''7'', bw_output_sha256 = demo_hash CHR ''8'', bw_snapshot = (2026, 7, 1),
        bw_projection = \<lparr>bj_schema_version = 1, bj_routes = routes_of_run family_facts (1, 90), bj_eligible = [500],
          bj_risks = [\<lparr>rj_evidence = Some 700, rj_kind = Some ''stale'', rj_reason = Some ''checked by phone''\<rparr>],
          bj_intake = ''2027-02'', bj_synthetic_proof = True\<rparr>, bw_is_current = True\<rparr>)],
      decisions = [], plans = [],
      audit = [(1, \<lparr>au_case = 10, au_actor = 5, au_event = ''advisor_review'', au_subject = 600,
        au_payload = Payload_action ''approve_for_consultation''\<rparr>)]\<rparr>"
  by code_simp

lemma family_decide_ok:
  "is_ok (service_decide_direct family_members family_facts family_digests family_session choice
     ''other'' (620, 630, 640) family_reviewed)"
  by code_simp

lemma family_steps:
  "decision_step family_facts family_planned family_reviewed"
  "decision_step family_facts family_planned family_rejected"
  "decision_step family_facts family_reviewed family_decided"
  unfolding family_reviewed_def family_rejected_def
    by (rule application_step(1) [OF family_review_ok [THEN projr_ok]]
        application_step(1) [OF family_reject_ok [THEN projr_ok]])+
    (unfold family_decided_def family_reviewed_def [symmetric],
      rule application_step(2) [OF family_decide_ok [THEN projr_ok]])

lemma family_reachable:
  "decision_reachable family_facts family_planned" "decision_reachable family_facts family_reviewed"
  "decision_reachable family_facts family_rejected" "decision_reachable family_facts family_decided"
proof -
  have 1: "decision_step family_facts empty_decision_db family_case"
    using decision_step.new_case [of empty_decision_db "(1, 10)" "\<lparr>sc_current_revision = 1, sc_state = CS_INTAKE\<rparr>"
        family_facts] by (simp add: empty_decision_db_def empty_db_def family_case_def)
  have calls: "task_call (base family_case) family_created" "task_call family_created family_claimed"
    "task_call family_claimed family_finished"
    unfolding family_created_def family_claimed_def family_finished_def
    by (rule call_create [OF family_ok(1) [THEN projr_ok]]
        call_claim [OF family_ok(2) [THEN projr_ok], unfolded family_created_def]
        call_finalize [OF family_ok(3) [THEN projr_ok], unfolded family_claimed_def family_created_def])+
  have 2: "decision_step family_facts family_case (family_case\<lparr>base := family_created\<rparr>)"
    by (rule decision_step.task) (rule calls(1))
  have 3: "decision_step family_facts (family_case\<lparr>base := family_created\<rparr>) (family_case\<lparr>base := family_claimed\<rparr>)"
    using decision_step.task [of "family_case\<lparr>base := family_created\<rparr>" family_claimed family_facts] calls(2) by simp
  have 4: "decision_step family_facts (family_case\<lparr>base := family_claimed\<rparr>) family_planned"
    using decision_step.task [of "family_case\<lparr>base := family_claimed\<rparr>" family_finished family_facts] calls(3)
    by (simp add: family_planned_def)
  from 1 2 3 4 show p: "decision_reachable family_facts family_planned"
    unfolding decision_reachable_def by (meson r_into_rtranclp rtranclp_trans)
  from decision_reachable_steps [OF p r_into_rtranclp] family_steps(1,2)
  show q: "decision_reachable family_facts family_reviewed" "decision_reachable family_facts family_rejected" by blast+
  from decision_reachable_steps [OF q(1) r_into_rtranclp] family_steps(3)
  show "decision_reachable family_facts family_decided" by blast
qed

lemma family_rows:
  "map_of (decisions family_decided) (1, 620) \<noteq> None" "map_of (cases (base family_decided)) (1, 10) \<noteq> None"
  "map_of (briefs family_reviewed) (1, 610) \<noteq> None"
  by code_simp+

end
