(* ===== verification/Decision_Properties.thy ===== *)
theory Decision_Properties
  imports Decision_History
begin

text \<open>
  What the decision authority guarantees in every reachable database: the state of a case agrees with its
  brief, decision and plan; a decision rests on an approved review; what was decided never changes.
\<close>

section \<open>What grows\<close>

definition decision_grows :: "decision_db \<Rightarrow> decision_db \<Rightarrow> bool" where
  "decision_grows db db' \<longleftrightarrow>
     map_of (reviews db) \<subseteq>\<^sub>m map_of (reviews db') \<and> map_of (decisions db) \<subseteq>\<^sub>m map_of (decisions db')
     \<and> map_of (plans db) \<subseteq>\<^sub>m map_of (plans db')
     \<and> (\<forall>k b. map_of (briefs db) k = Some b \<longrightarrow>
          (\<exists>x. map_of (briefs db') k = Some (b\<lparr>bw_is_current := x\<rparr>)))
     \<and> (\<forall>ik rec. ik_operation ik \<in> DECISION_OPERATIONS \<longrightarrow> map_of (idempotency (base db)) ik = Some rec \<longrightarrow>
          map_of (idempotency (base db')) ik = Some rec)"

lemma decision_growsD:
  assumes "decision_grows db db'"
  shows "map_of (reviews db) k = Some a \<Longrightarrow> map_of (reviews db') k = Some a"
    and "map_of (decisions db) k = Some d \<Longrightarrow> map_of (decisions db') k = Some d"
    and "map_of (plans db) k = Some p \<Longrightarrow> map_of (plans db') k = Some p"
    and "map_of (briefs db) k = Some b \<Longrightarrow> \<exists>x. map_of (briefs db') k = Some (b\<lparr>bw_is_current := x\<rparr>)"
    and "ik_operation ik \<in> DECISION_OPERATIONS \<Longrightarrow> map_of (idempotency (base db)) ik = Some rec \<Longrightarrow>
      map_of (idempotency (base db')) ik = Some rec"
  using assms unfolding decision_grows_def by (blast dest: map_leD)+

lemma same_current: "\<exists>x. Some b = Some (b\<lparr>bw_is_current := x\<rparr>)"
  by (rule exI [of _ "bw_is_current b"]) simp

lemma decision_grows_tables:
  assumes "reviews db' = reviews db" "decisions db' = decisions db" "plans db' = plans db" "briefs db' = briefs db"
    and "\<And>ik. ik_operation ik \<in> DECISION_OPERATIONS \<Longrightarrow>
      map_of (idempotency (base db')) ik = map_of (idempotency (base db)) ik"
  shows "decision_grows db db'"
  using assms by (simp add: decision_grows_def same_current del: option.inject split_paired_All)

lemma decision_grows_refl [simp]: "decision_grows db db"
  by (simp add: decision_grows_tables)

lemma decision_grows_trans:
  assumes "decision_grows db1 db2" "decision_grows db2 db3"
  shows "decision_grows db1 db3"
proof -
  note one = decision_growsD [OF assms(1)] and two = decision_growsD [OF assms(2)]
  have "map_of (reviews db1) \<subseteq>\<^sub>m map_of (reviews db3)" "map_of (decisions db1) \<subseteq>\<^sub>m map_of (decisions db3)"
    "map_of (plans db1) \<subseteq>\<^sub>m map_of (plans db3)"
    using assms unfolding decision_grows_def by (blast intro: map_le_trans)+
  moreover have "\<exists>x. map_of (briefs db3) k = Some (b\<lparr>bw_is_current := x\<rparr>)" if "map_of (briefs db1) k = Some b" for k b
  proof -
    from one(4) [OF that] obtain x where "map_of (briefs db2) k = Some (b\<lparr>bw_is_current := x\<rparr>)" by blast
    from two(4) [OF this] show ?thesis by simp
  qed
  moreover note one(5) two(5)
  ultimately show ?thesis unfolding decision_grows_def by blast
qed

lemma review_grows:
  assumes "review_planning_run part facts ses r db = Inr (db', out)"
  shows "decision_grows db db'"
  using assms
proof (cases rule: review_cases)
  case (returned c run)
  have "map_of (reviews db) \<subseteq>\<^sub>m map_of (reviews db')"
    unfolding returned(6) using map_le_snoc [OF returned(3)] by simp
  moreover have "briefs db' = briefs db" "decisions db' = decisions db" "plans db' = plans db" by (simp_all add: returned(6))
  moreover have "map_of (idempotency (base db')) ik = Some rec" if "map_of (idempotency (base db)) ik = Some rec" for ik rec
    using that returned(1) by (auto simp: returned(6))
  ultimately show ?thesis by (simp add: decision_grows_def same_current del: option.inject split_paired_All)
next
  case (approved c run i d s hash rows)
  have "map_of (reviews db) \<subseteq>\<^sub>m map_of (reviews db')"
    unfolding approved(15) using map_le_snoc [OF approved(3)] by simp
  moreover have "\<exists>x. map_of (briefs db') k = Some (b\<lparr>bw_is_current := x\<rparr>)" if "map_of (briefs db) k = Some b" for k b
    using map_leD [OF map_le_snoc [OF approved(11)] that] same_current [of b] by (auto simp: approved(15))
  moreover have "decisions db' = decisions db" "plans db' = plans db" by (simp_all add: approved(15))
  moreover have "map_of (idempotency (base db')) ik = Some rec" if "map_of (idempotency (base db)) ik = Some rec" for ik rec
    using that approved(1) by (auto simp: approved(15))
  ultimately show ?thesis by (simp add: decision_grows_def del: split_paired_All)
qed simp

lemma decide_grows:
  assumes "decide_family_brief part facts ses r db = Inr (db', out)"
  shows "decision_grows db db'"
  using assms
proof (cases rule: decide_cases)
  case (decided b c route ms i rows)
  have "map_of (decisions db) \<subseteq>\<^sub>m map_of (decisions db')" "map_of (plans db) \<subseteq>\<^sub>m map_of (plans db')"
    unfolding decided(15) using map_le_snoc [OF decided(9)] map_le_snoc [OF decided(11)] by simp_all
  moreover have "\<exists>x. map_of (briefs db') k = Some (b'\<lparr>bw_is_current := x\<rparr>)" if "map_of (briefs db) k = Some b'" for k b'
  proof (cases "k = (dq_org r, dq_brief r)")
    case True
    with that decided(2) have "b' = b" by (simp add: decision_target_def)
    with True show ?thesis by (auto simp: decided(15) decided(14))
  next
    case False
    with that same_current [of b'] show ?thesis by (simp add: decided(15) decided(14))
  qed
  moreover have "reviews db' = reviews db" by (simp add: decided(15))
  moreover have "map_of (idempotency (base db')) ik = Some rec" if "map_of (idempotency (base db)) ik = Some rec" for ik rec
    using that decided(1) by (auto simp: decided(15))
  ultimately show ?thesis by (simp add: decision_grows_def del: split_paired_All)
qed simp

lemma decision_step_grows:
  assumes "decision_step facts db db'"
  shows "decision_grows db db'"
  using assms
proof (cases rule: decision_step.cases)
  case review
  then show ?thesis by (rule review_grows)
next
  case decide
  then show ?thesis by (rule decide_grows)
next
  case (task b)
  from task_call_shares [OF task(2)] show ?thesis
    by (intro decision_grows_tables) (auto simp: task(1) shares_def dest: decision_ids_distinct)
qed (auto intro!: decision_grows_tables simp: publish_revision_def)

lemma decision_steps_grow: "(decision_step facts)\<^sup>*\<^sup>* db db' \<Longrightarrow> decision_grows db db'"
  by (induction rule: rtranclp_induct) (auto intro: decision_grows_trans decision_step_grows)

section \<open>States and records\<close>

lemma decision_retires_brief:
  assumes "decision_invariant facts db" and "map_of (decisions db) (org, k) = Some d"
  shows "\<exists>b. map_of (briefs db) (org, fd_brief d) = Some b \<and> \<not> bw_is_current b \<and> bw_case b = fd_case d"
  using decision_invariantD(2) [OF assms] unfolding decision_ok_def by auto

lemma one_decision:
  assumes inv: "decision_invariant facts db" and "map_of (decisions db) (org, k) = Some d"
    and "map_of (decisions db) (org, k') = Some d'" "fd_case d = fd_case d'"
  shows "k = k'"
proof -
  from decision_retires_brief [OF inv assms(2)] decision_retires_brief [OF inv assms(3)] obtain b b' where
    "map_of (briefs db) (org, fd_brief d) = Some b" "map_of (briefs db) (org, fd_brief d') = Some b'" "bw_case b = bw_case b'"
    using assms(4) by auto
  then have "fd_brief d = fd_brief d'" using unique_byD [OF decision_invariantD(6) [OF inv]] by fastforce
  with unique_byD [OF decision_invariantD(7) [OF inv] assms(2,3)] show ?thesis by simp
qed

text \<open>C4: The state of a case says exactly which records it has: it is in family review when it has a current brief
  and ready when it has a decision, no case rests in the state decided, and a case never has two briefs or two
  decisions.\<close>

theorem case_state_matches_records:
  assumes "decision_reachable facts db" and "map_of (cases (base db)) (org, i) = Some c"
  shows "sc_state c \<noteq> CS_DECIDED
    \<and> (sc_state c = CS_FAMILY_REVIEW \<longleftrightarrow>
         (\<exists>k b. map_of (briefs db) (org, k) = Some b \<and> bw_case b = i \<and> bw_is_current b))
    \<and> (sc_state c = CS_PLAN_READY \<longleftrightarrow> (\<exists>k d. map_of (decisions db) (org, k) = Some d \<and> fd_case d = i))
    \<and> (\<forall>k k' b b'. map_of (briefs db) (org, k) = Some b \<and> map_of (briefs db) (org, k') = Some b'
         \<and> bw_case b = i \<and> bw_case b' = i \<longrightarrow> k = k')
    \<and> (\<forall>k k' d d'. map_of (decisions db) (org, k) = Some d \<and> map_of (decisions db) (org, k') = Some d'
         \<and> fd_case d = i \<and> fd_case d' = i \<longrightarrow> k = k')"
proof -
  note D = decision_invariantD [OF decision_reachable_invariant [OF assms(1)]]
  have state: "sc_state c = (if bw_is_current b then CS_FAMILY_REVIEW else CS_PLAN_READY)"
    if "map_of (briefs db) (org, k) = Some b" "bw_case b = i" for k b
    using D(1) [OF that(1)] that(2) assms(2) by (auto simp: brief_ok_def)
  note brief = decision_retires_brief [OF decision_reachable_invariant [OF assms(1)]]
  have has: "\<exists>k b. map_of (briefs db) (org, k) = Some b \<and> bw_case b = i" if "sc_state c \<in> SETTLED"
    using D(3) [OF assms(2)] that unfolding case_ok_def by auto
  have one: "k = k'" if "map_of (briefs db) (org, k) = Some b" "map_of (briefs db) (org, k') = Some b'" "bw_case b = bw_case b'"
    for k k' b b' using unique_byD [OF D(6) that(1,2) _ that(3)] by simp
  have "sc_state c \<noteq> CS_DECIDED" using D(3) [OF assms(2)] by (simp add: case_ok_def)
  moreover have "sc_state c = CS_FAMILY_REVIEW \<longleftrightarrow>
      (\<exists>k b. map_of (briefs db) (org, k) = Some b \<and> bw_case b = i \<and> bw_is_current b)"
  proof
    assume "sc_state c = CS_FAMILY_REVIEW"
    with has obtain k b where b: "map_of (briefs db) (org, k) = Some b" "bw_case b = i" by (auto simp: SETTLED_def)
    from state [OF this] \<open>sc_state c = CS_FAMILY_REVIEW\<close> have "bw_is_current b" by (simp split: if_splits)
    with b show "\<exists>k b. map_of (briefs db) (org, k) = Some b \<and> bw_case b = i \<and> bw_is_current b" by blast
  qed (use state in auto)
  moreover have "sc_state c = CS_PLAN_READY \<longleftrightarrow> (\<exists>k d. map_of (decisions db) (org, k) = Some d \<and> fd_case d = i)"
  proof
    assume ready: "sc_state c = CS_PLAN_READY"
    with has obtain k b where b: "map_of (briefs db) (org, k) = Some b" "bw_case b = i" by (auto simp: SETTLED_def)
    from state [OF b] ready have "\<not> bw_is_current b" by (simp split: if_splits)
    with D(4) [OF b(1)] obtain j d where d: "map_of (decisions db) (org, j) = Some d" "fd_brief d = k" by auto
    with brief [OF d(1)] b have "fd_case d = i" by simp
    with d(1) show "\<exists>k d. map_of (decisions db) (org, k) = Some d \<and> fd_case d = i" by blast
  next
    assume "\<exists>k d. map_of (decisions db) (org, k) = Some d \<and> fd_case d = i"
    with brief state show "sc_state c = CS_PLAN_READY" by fastforce
  qed
  moreover note one_decision [OF decision_reachable_invariant [OF assms(1)]]
  ultimately show ?thesis using one by (auto 0 3)
qed

lemma family_present:
  obtains d c where "map_of (decisions family_decided) (1, 620) = Some d"
    "map_of (cases (base family_decided)) (1, 10) = Some c"
  using family_rows by auto

theorem case_state_matches_records_witness:
  "\<exists>c. map_of (cases (base family_decided)) (1, 10) = Some c
     \<and> (sc_state c = CS_PLAN_READY \<longleftrightarrow> (\<exists>k d. map_of (decisions family_decided) (1, k) = Some d \<and> fd_case d = 10))"
proof -
  obtain d c where "map_of (cases (base family_decided)) (1, 10) = Some c" by (rule family_present)
  with case_state_matches_records [OF family_reachable(4) this] show ?thesis by blast
qed

text \<open>C3: A recorded decision rests on authority: its case and revision have a review of the same run that approved the
  selected route, the run is the current reviewed run of the case, the route is a recommended Australian route of
  that run, the accepted budget contains the pinned cost and stays within the pinned ceiling, and the family member
  who decided is the one who recorded it unless an advisor recorded a consultation.\<close>

theorem decision_rests_on_review:
  assumes "decision_reachable facts db" and "map_of (decisions db) (org, i) = Some d"
  shows "\<exists>b a q. map_of (briefs db) (org, fd_brief d) = Some b
    \<and> map_of (reviews db) (org, bw_review b) = Some a \<and> map_of (runs (base db)) (org, fd_run d) = Some q
    \<and> ar_action a = ''approve_for_consultation'' \<and> ar_case a = fd_case d \<and> ar_run a = fd_run d
    \<and> ar_revision a = bw_revision b \<and> fd_route d \<in> set (ar_eligible a)
    \<and> run_case q = fd_case d \<and> run_case_revision q = bw_revision b
    \<and> run_status q = RS_REVIEW_REQUIRED \<and> run_is_current q
    \<and> recommended_australia facts (org, fd_run d) (fd_route d)
    \<and> 0 < fd_min d \<and> fd_min d \<le> fd_max d \<and> ''budget_elasticity'' \<in> set (fd_trade_offs d)
    \<and> (\<forall>cost. cost_cny facts (org, fd_run d) = Inr (Some cost) \<longrightarrow> fd_min d \<le> cost \<and> cost \<le> fd_max d)
    \<and> (\<forall>h. pinned_hard_ceiling facts org (fd_case d) (bw_revision b) = Some h \<longrightarrow> fd_max d \<le> h)
    \<and> (fd_made_by d = fd_recorded_by d \<or> fd_source d = ''family_consultation'')"
proof -
  note D = decision_invariantD [OF decision_reachable_invariant [OF assms(1)]]
  from D(2) [OF assms(2)] obtain b where b: "map_of (briefs db) (org, fd_brief d) = Some b" "bw_case b = fd_case d"
    "bw_run b = fd_run d" "fd_route d \<in> set (bj_eligible (bw_projection b))" "within_budget facts org b d" "source_ok d"
    unfolding decision_ok_def by auto
  from D(1) [OF b(1)] obtain a q where "map_of (reviews db) (org, bw_review b) = Some a" "review_approves facts org b a"
    "map_of (runs (base db)) (org, fd_run d) = Some q" "run_case q = bw_case b" "run_case_revision q = bw_revision b"
    "run_status q = RS_REVIEW_REQUIRED" "run_is_current q"
    "list_all (recommended_australia facts (org, bw_run b)) (bj_eligible (bw_projection b))"
    unfolding brief_ok_def run_ok_def projection_ok_def b(3) [symmetric] by auto
  with b show ?thesis
    by (intro exI [of _ b] exI [of _ a] exI [of _ q])
      (auto simp: review_approves_def within_budget_def source_ok_def list_all_iff)
qed

theorem decision_rests_on_review_witness:
  "\<exists>d (a :: advisor_review). map_of (decisions family_decided) (1, 620) = Some d
     \<and> ar_action a = ''approve_for_consultation'' \<and> fd_route d \<in> set (ar_eligible a)"
proof -
  obtain d c where "map_of (decisions family_decided) (1, 620) = Some d" by (rule family_present)
  with decision_rests_on_review [OF family_reachable(4) this] show ?thesis by blast
qed

text \<open>C5: What a family decided is final: whatever happens later, the decision, its brief and its plan keep every
  column, the case stays ready with the revision that was decided on, and no other decision of the case appears.\<close>

theorem decided_case_is_final:
  assumes "decision_reachable facts db" and "(decision_step facts)\<^sup>*\<^sup>* db db'"
    and "map_of (decisions db) (org, i) = Some d"
  shows "map_of (decisions db') (org, i) = Some d
    \<and> (\<exists>b. map_of (briefs db) (org, fd_brief d) = Some b \<and> map_of (briefs db') (org, fd_brief d) = Some b)
    \<and> (\<exists>j p. map_of (plans db) (org, j) = Some p \<and> pl_decision p = i \<and> map_of (plans db') (org, j) = Some p)
    \<and> (\<exists>c. map_of (cases (base db)) (org, fd_case d) = Some c \<and> map_of (cases (base db')) (org, fd_case d) = Some c
         \<and> sc_state c = CS_PLAN_READY)
    \<and> (\<forall>k d'. map_of (decisions db') (org, k) = Some d' \<and> fd_case d' = fd_case d \<longrightarrow> k = i)"
proof -
  note grow = decision_growsD [OF decision_steps_grow [OF assms(2)]]
  have r': "decision_reachable facts db'" by (rule decision_reachable_steps [OF assms(1,2)])
  note D = decision_invariantD [OF decision_reachable_invariant [OF assms(1)]]
    and D' = decision_invariantD [OF decision_reachable_invariant [OF r']]
  from D(2) [OF assms(3)] obtain b j p where b: "map_of (briefs db) (org, fd_brief d) = Some b" "\<not> bw_is_current b"
    "bw_case b = fd_case d" and p: "map_of (plans db) (org, j) = Some p" "pl_decision p = i"
    unfolding decision_ok_def by auto
  have d': "map_of (decisions db') (org, i) = Some d" by (rule grow(2) [OF assms(3)])
  obtain x where x: "map_of (briefs db') (org, fd_brief d) = Some (b\<lparr>bw_is_current := x\<rparr>)" using grow(4) [OF b(1)] by blast
  have "\<not> x" using D'(2) [OF d'] x by (auto simp: decision_ok_def)
  with b(2) x have b': "map_of (briefs db') (org, fd_brief d) = Some b" by simp
  from D(1) [OF b(1)] D'(1) [OF b'] b(2,3) obtain c c' where
    "map_of (cases (base db)) (org, fd_case d) = Some c" "map_of (cases (base db')) (org, fd_case d) = Some c'"
    "sc_state c = CS_PLAN_READY" "sc_state c' = CS_PLAN_READY" "sc_current_revision c = sc_current_revision c'"
    unfolding brief_ok_def by auto
  moreover from this have "c' = c" by (cases c; cases c') simp
  moreover have "k = i" if "map_of (decisions db') (org, k) = Some d'" "fd_case d' = fd_case d" for k d'
    using one_decision [OF decision_reachable_invariant [OF r'] that(1) d' that(2)] .
  ultimately show ?thesis using d' b(1) b' p grow(3) [OF p(1)] by blast
qed

definition family_later :: decision_db where
  "family_later = family_decided\<lparr>base := (base family_decided)\<lparr>idempotency := idempotency (base family_decided)\<rparr>,
     audit := audit family_decided @ [(1, \<lparr>au_case = 10, au_actor = 5, au_event = ''read'', au_subject = 620,
       au_payload = Payload_empty\<rparr>)]\<rparr>"

theorem decided_case_is_final_witness:
  "\<exists>d. map_of (decisions family_later) (1, 620) = Some d
     \<and> (\<exists>c. map_of (cases (base family_later)) (1, fd_case d) = Some c \<and> sc_state c = CS_PLAN_READY)"
proof -
  obtain d c where d: "map_of (decisions family_decided) (1, 620) = Some d" by (rule family_present)
  have "(decision_step family_facts)\<^sup>*\<^sup>* family_decided family_later"
    unfolding family_later_def by (rule r_into_rtranclp, rule decision_step.other) simp
  from decided_case_is_final [OF family_reachable(4) this d] show ?thesis by blast
qed

end
