(* ===== verification/Decision_Replay.thy ===== *)
theory Decision_Replay
  imports Decision_Properties
begin

text \<open>
  Reviews and decisions as commands with an idempotency key: a repeated request answers from the record, in
  every later database.  And what a review that returns a case leaves behind.
\<close>

section \<open>The two commands\<close>

definition review_recall :: "review_request \<Rightarrow> decision_db \<Rightarrow> idem_record option" where
  "review_recall r db = map_of (idempotency (base db)) (review_key r)"

definition decide_recall :: "decide_request \<Rightarrow> decision_db \<Rightarrow> idem_record option" where
  "decide_recall r db = map_of (idempotency (base db)) (decide_key r)"

definition replayed_review :: "review_request \<Rightarrow> uuid \<Rightarrow> decision_db \<Rightarrow> review_out" where
  "replayed_review r i db =
     (i, brief_of_review (vr_org r, i) db, case_state_of (vr_org r, vr_case r) db, True)"

definition replayed_decision :: "decide_request \<Rightarrow> uuid \<Rightarrow> decision_db \<Rightarrow> decide_out" where
  "replayed_decision r i db =
     (i, map_option fd_receipt (map_of (decisions db) (dq_org r, i)), plan_of_decision (dq_org r, i) db, True)"

lemmas command_defs = review_recall_def decide_recall_def replayed_review_def replayed_decision_def

interpretation reviewing: idempotent_command review_recall "review_planning_run part facts ses" vr_request_hash
  "\<lambda>r db. is_ok (assert_m3b_context ses (vr_org r) (vr_actor r) ''advisor'')" replayed_review NV008
  for part facts ses
proof
  fix r db db' out
  assume run: "review_planning_run part facts ses r db = Inr (db', out)"
  then have "is_ok (assert_m3b_context ses (vr_org r) (vr_actor r) ''advisor'')"
    by (auto simp: review_planning_run_def)
  moreover from run have "\<exists>rec. review_recall r db' = Some rec \<and> ir_request_sha256 rec = vr_request_hash r"
    by (cases rule: review_cases) (auto simp: review_recall_def)
  ultimately show "is_ok (assert_m3b_context ses (vr_org r) (vr_actor r) ''advisor'')
    \<and> is_ok (assert_m3b_context ses (vr_org r) (vr_actor r) ''advisor'')
    \<and> (\<exists>rec. review_recall r db' = Some rec \<and> ir_request_sha256 rec = vr_request_hash r)" by simp
qed (auto simp: command_defs review_planning_run_def is_ok_iff)

interpretation deciding: idempotent_command decide_recall "decide_family_brief part facts ses" dq_request_hash
  "\<lambda>r db. is_ok (assert_m3b_context ses (dq_org r) (dq_actor r) (dq_role r))" replayed_decision NV008
  for part facts ses
proof
  fix r db db' out
  assume run: "decide_family_brief part facts ses r db = Inr (db', out)"
  then have "is_ok (assert_m3b_context ses (dq_org r) (dq_actor r) (dq_role r))"
    by (auto simp: decide_family_brief_def)
  moreover from run have "\<exists>rec. decide_recall r db' = Some rec \<and> ir_request_sha256 rec = dq_request_hash r"
    by (cases rule: decide_cases) (auto simp: decide_recall_def)
  ultimately show "is_ok (assert_m3b_context ses (dq_org r) (dq_actor r) (dq_role r))
    \<and> is_ok (assert_m3b_context ses (dq_org r) (dq_actor r) (dq_role r))
    \<and> (\<exists>rec. decide_recall r db' = Some rec \<and> ir_request_sha256 rec = dq_request_hash r)" by simp
qed (auto simp: command_defs decide_family_brief_def is_ok_iff)

section \<open>What a record points at\<close>

lemma find_row:
  assumes "unique_by f rows"
  shows "map_option (\<lambda>(k, x). snd k) (find (\<lambda>(k, x). fst k = org \<and> f x = i) rows) = Some j
    \<longleftrightarrow> (\<exists>x. map_of rows (org, j) = Some x \<and> f x = i)"
proof -
  have d: "distinct (map fst rows)" using assms by (simp add: unique_by_def)
  show ?thesis
  proof
    assume "map_option (\<lambda>(k, x). snd k) (find (\<lambda>(k, x). fst k = org \<and> f x = i) rows) = Some j"
    then obtain k x where "find (\<lambda>(k, x). fst k = org \<and> f x = i) rows = Some (k, x)" "snd k = j"
      by auto
    then have "(k, x) \<in> set rows" "fst k = org" "f x = i" by (auto simp: find_Some_iff in_set_conv_nth)
    with d \<open>snd k = j\<close> show "\<exists>x. map_of rows (org, j) = Some x \<and> f x = i"
      by (metis map_of_is_SomeI prod.collapse)
  next
    assume "\<exists>x. map_of rows (org, j) = Some x \<and> f x = i"
    then obtain x where x: "map_of rows (org, j) = Some x" "f x = i" by blast
    then have "((org, j), x) \<in> set rows" by (simp add: map_of_SomeD)
    with x(2) have "find (\<lambda>(k, x). fst k = org \<and> f x = i) rows \<noteq> None" by (auto simp: find_None_iff)
    then obtain k y where y: "find (\<lambda>(k, x). fst k = org \<and> f x = i) rows = Some (k, y)" by auto
    then have "(k, y) \<in> set rows" "fst k = org" "f y = i" by (auto simp: find_Some_iff in_set_conv_nth)
    then have "k = (org, j)"
      using unique_byD [OF assms, of k y "(org, j)" x] d x by (simp add: map_of_is_SomeI)
    with y show "map_option (\<lambda>(k, x). snd k) (find (\<lambda>(k, x). fst k = org \<and> f x = i) rows) = Some j" by simp
  qed
qed

lemma plan_of_decision_iff:
  assumes "decision_invariant facts db"
  shows "plan_of_decision (org, i) db = Some j \<longleftrightarrow> (\<exists>p. map_of (plans db) (org, j) = Some p \<and> pl_decision p = i)"
  using find_row [OF decision_invariantD(8) [OF assms], of org i j] by (simp add: plan_of_decision_def)

lemma briefs_unique_by_review:
  assumes inv: "decision_invariant facts db"
  shows "unique_by bw_review (briefs db)"
proof -
  note u = decision_invariantD(6) [OF inv]
  have "k = k'" if b: "map_of (briefs db) k = Some b" "map_of (briefs db) k' = Some b'" "fst k = fst k'"
      "bw_review b = bw_review b'" for k k' b b'
  proof -
    from decision_invariantD(1) [OF inv b(1)] decision_invariantD(1) [OF inv b(2)] b(3,4)
    have "bw_case b = bw_case b'" by (auto simp: brief_ok_def review_approves_def)
    with unique_byD [OF u b(1,2,3)] show ?thesis .
  qed
  with u show ?thesis unfolding unique_by_def by blast
qed

lemma brief_of_review_iff:
  assumes "decision_invariant facts db"
  shows "brief_of_review (org, i) db = Some j \<longleftrightarrow> (\<exists>b. map_of (briefs db) (org, j) = Some b \<and> bw_review b = i)"
  using find_row [OF briefs_unique_by_review [OF assms], of org i j] by (simp add: brief_of_review_def)

text \<open>After a successful decision the record of its key points at the decision, its receipt and its plan.\<close>

lemma decision_recorded:
  assumes inv: "decision_invariant facts db'"
    and run: "decide_family_brief part facts ses r db = Inr (db', i, receipt, plan, replayed)"
  obtains rec d j p where "decide_recall r db' = Some rec" "ir_request_sha256 rec = dq_request_hash r"
    "ir_response_id rec = i" "map_of (decisions db') (dq_org r, i) = Some d" "receipt = Some (fd_receipt d)"
    "map_of (plans db') (dq_org r, j) = Some p" "pl_decision p = i" "plan = Some j"
proof -
  obtain rec where rec: "decide_recall r db' = Some rec" "ir_request_sha256 rec = dq_request_hash r"
    using deciding.run_records [OF run] by blast
  have again: "decide_family_brief part facts ses r db' = Inr (db', replayed_decision r (ir_response_id rec) db')"
    using deciding.run_known [OF _ rec] deciding.run_records [OF run] by blast
  have same: "ir_response_id rec = i
      \<and> (receipt, plan) = (map_option fd_receipt (map_of (decisions db') (dq_org r, i)), plan_of_decision (dq_org r, i) db')"
    using run
  proof (cases rule: decide_cases)
    case replay
    then show ?thesis using rec by (simp add: decide_recall_def)
  next
    case (decided b c route ms pin rows)
    note snoc = map_of_snoc [OF decided(9)] map_of_snoc [OF decided(11)]
    have "map_of (plans db') (dq_org r, dq_timeline r) = Some (new_plan r route pin ms)"
      by (simp add: decided(15) snoc(2) del: map_of_append)
    then have "plan_of_decision (dq_org r, dq_decision r) db' = Some (dq_timeline r)"
      unfolding plan_of_decision_iff [OF inv] by (simp add: new_plan_def)
    moreover have "map_of (decisions db') (dq_org r, dq_decision r) = Some (new_decision r b)"
      by (simp add: decided(15) snoc(1) del: map_of_append)
    moreover have "rec = \<lparr>ir_request_sha256 = dq_request_hash r, ir_response_id = dq_decision r\<rparr>"
      using rec(1) by (simp add: decided(15) decide_recall_def)
    ultimately show ?thesis using decided(16) by (simp add: new_decision_def)
  qed
  have "ik_organization (decide_key r) = dq_org r \<and> ik_operation (decide_key r) = ''family_decision''"
    by (simp add: decide_key_def idem_key_of_def)
  with decision_invariantD(10) [OF inv] rec(1) obtain d where d: "map_of (decisions db') (dq_org r, i) = Some d"
    using same unfolding records_ok_def decide_recall_def by fastforce
  from decision_invariantD(2) [OF inv d] obtain j p where "map_of (plans db') (dq_org r, j) = Some p" "pl_decision p = i"
    unfolding decision_ok_def by auto
  with rec same d show ?thesis using that [of rec d j p] plan_of_decision_iff [OF inv, of "dq_org r" i j] by auto
qed

lemma review_recorded:
  assumes inv: "decision_invariant facts db'"
    and run: "review_planning_run part facts ses r db = Inr (db', i, brief, st, False)"
  obtains rec a where "review_recall r db' = Some rec" "ir_request_sha256 rec = vr_request_hash r"
    "ir_response_id rec = i" "map_of (reviews db') (vr_org r, i) = Some a"
    "\<forall>j. brief = Some j \<longrightarrow> (\<exists>b. map_of (briefs db') (vr_org r, j) = Some b \<and> bw_review b = i)"
    "brief = None \<longrightarrow> ar_action a \<noteq> ''approve_for_consultation''"
  using run
proof (cases rule: review_cases)
  case (returned c q)
  show ?thesis
    by (rule that [of "\<lparr>ir_request_sha256 = vr_request_hash r, ir_response_id = vr_review r\<rparr>" "new_review r db"])
      (use returned in \<open>auto simp: review_recall_def map_of_snoc new_review_def simp del: map_of_append\<close>)
next
  case (approved c q j d s hash rows)
  show ?thesis
    by (rule that [of "\<lparr>ir_request_sha256 = vr_request_hash r, ir_response_id = vr_review r\<rparr>" "new_review r db"])
      (use approved in \<open>auto simp: review_recall_def map_of_snoc new_review_def new_brief_def simp del: map_of_append\<close>)
qed simp

section \<open>Replays\<close>

definition family_approval :: review_request where
  "family_approval = review_request_of family_digests demo_session approval ''key''
     (projr (review_projection family_facts 1 approval family_planned))"

definition family_request :: decide_request where
  "family_request = decide_request_of family_digests family_session choice (620, 630, 640)
     (projr (build_timeline_plan AUSTRALIA ''2027-02'' (2026, 7, 1))) ''other''"

definition family_rejection :: review_request where
  "family_rejection = review_request_of family_digests demo_session rejection ''key'' (None, (1970, 1, 1))"

lemma first_run:
  "(case x of Inl e \<Rightarrow> False | Inr (db', i, j, k, replayed) \<Rightarrow> \<not> replayed) \<Longrightarrow> \<exists>db' i j k. x = Inr (db', i, j, k, False)"
  by (auto split: sum.splits)

lemma family_requests:
  "\<exists>db' i brief st. review_planning_run family_members family_facts demo_session family_approval family_planned
     = Inr (db', i, brief, st, False)"
  "\<exists>db' i brief st. review_planning_run family_members family_facts demo_session family_rejection family_planned
     = Inr (db', i, brief, st, False)"
  "\<exists>db' i receipt plan. decide_family_brief family_members family_facts family_session family_request family_reviewed
     = Inr (db', i, receipt, plan, False)"
  by (rule first_run, code_simp)+

text \<open>C19: A family decision happens once: in every later database the same request answers with the decision, the
  receipt and the plan of the first call and changes nothing, and another request under the same key is refused.\<close>

theorem decision_replays:
  assumes "decision_reachable facts db"
    and "decide_family_brief part facts ses r db = Inr (db', i, receipt, plan, replayed)"
    and "(decision_step facts)\<^sup>*\<^sup>* db' db''"
  shows "decide_family_brief part' facts ses r db'' = Inr (db'', i, receipt, plan, True)
    \<and> (\<forall>r'. decide_key r' = decide_key r \<and> dq_role r' = dq_role r \<and> dq_request_hash r' \<noteq> dq_request_hash r \<longrightarrow>
         decide_family_brief part' facts ses r' db'' = Inl NV008)"
proof -
  have r': "decision_reachable facts db'"
    using decision_reachable_steps [OF assms(1) r_into_rtranclp] decision_step.decide [OF assms(2)] by blast
  note inv' = decision_reachable_invariant [OF r']
    and inv'' = decision_reachable_invariant [OF decision_reachable_steps [OF r' assms(3)]]
  note grow = decision_growsD [OF decision_steps_grow [OF assms(3)]]
  obtain rec d j p where rec: "decide_recall r db' = Some rec" "ir_request_sha256 rec = dq_request_hash r"
    "ir_response_id rec = i" and rows: "map_of (decisions db') (dq_org r, i) = Some d" "receipt = Some (fd_receipt d)"
    "map_of (plans db') (dq_org r, j) = Some p" "pl_decision p = i" "plan = Some j"
    by (rule decision_recorded [OF inv' assms(2)])
  have ready: "is_ok (assert_m3b_context ses (dq_org r) (dq_actor r) (dq_role r))"
    using deciding.run_records [OF assms(2)] by blast
  have "ik_operation (decide_key r) \<in> DECISION_OPERATIONS"
    by (simp add: decide_key_def idem_key_of_def DECISION_OPERATIONS_def)
  from grow(5) [OF this] rec(1) have known: "decide_recall r db'' = Some rec" by (simp add: decide_recall_def)
  have "plan_of_decision (dq_org r, i) db'' = Some j"
    using grow(3) [OF rows(3)] rows(4) by (simp add: plan_of_decision_iff [OF inv''])
  with grow(2) [OF rows(1)] rows(2,5) have "replayed_decision r i db'' = (i, receipt, plan, True)"
    by (simp add: replayed_decision_def)
  with deciding.run_known [OF ready known rec(2)] rec(3)
  have "decide_family_brief part' facts ses r db'' = Inr (db'', i, receipt, plan, True)" by simp
  moreover have "decide_family_brief part' facts ses y db'' = Inl NV008"
    if y: "decide_key y = decide_key r" "dq_role y = dq_role r" "dq_request_hash y \<noteq> dq_request_hash r" for y
  proof (rule deciding.run_mismatch)
    show "is_ok (assert_m3b_context ses (dq_org y) (dq_actor y) (dq_role y))"
      using ready y(1,2) by (simp add: decide_key_def idem_key_of_def)
    show "decide_recall y db'' = Some rec" using known y(1) by (simp add: decide_recall_def)
  qed (use rec(2) y(3) in simp)
  ultimately show ?thesis by blast
qed

theorem decision_replays_witness:
  "\<exists>db' i receipt plan. decide_family_brief family_members family_facts family_session family_request family_reviewed
        = Inr (db', i, receipt, plan, False)
     \<and> decide_family_brief (\<lambda>org c actor rl. False) family_facts family_session family_request db'
        = Inr (db', i, receipt, plan, True)"
proof -
  from family_requests(3) obtain db' i receipt plan where run: "decide_family_brief family_members family_facts
      family_session family_request family_reviewed = Inr (db', i, receipt, plan, False)" by blast
  from decision_replays [OF family_reachable(2) run rtranclp.rtrancl_refl, of "\<lambda>org c actor rl. False"] run
  show ?thesis by blast
qed

text \<open>A review happens once: in every later database the same request answers with the review and the brief of the
  first call, reports the state that the case has by then, and changes nothing.\<close>

theorem review_replays:
  assumes "decision_reachable facts db"
    and "review_planning_run part facts ses r db = Inr (db', i, brief, st, False)"
    and "(decision_step facts)\<^sup>*\<^sup>* db' db''"
  shows "review_planning_run part' facts ses r db''
      = Inr (db'', i, brief, case_state_of (vr_org r, vr_case r) db'', True)
    \<and> (\<forall>r'. review_key r' = review_key r \<and> vr_request_hash r' \<noteq> vr_request_hash r \<longrightarrow>
         review_planning_run part' facts ses r' db'' = Inl NV008)"
proof -
  have r': "decision_reachable facts db'"
    using decision_reachable_steps [OF assms(1) r_into_rtranclp] decision_step.review [OF assms(2)] by blast
  note inv' = decision_reachable_invariant [OF r']
    and inv'' = decision_reachable_invariant [OF decision_reachable_steps [OF r' assms(3)]]
  note grow = decision_growsD [OF decision_steps_grow [OF assms(3)]]
  obtain rec a where rec: "review_recall r db' = Some rec" "ir_request_sha256 rec = vr_request_hash r"
    "ir_response_id rec = i" and a: "map_of (reviews db') (vr_org r, i) = Some a"
    "\<forall>j. brief = Some j \<longrightarrow> (\<exists>b. map_of (briefs db') (vr_org r, j) = Some b \<and> bw_review b = i)"
    "brief = None \<longrightarrow> ar_action a \<noteq> ''approve_for_consultation''"
    by (rule review_recorded [OF inv' assms(2)])
  have ready: "is_ok (assert_m3b_context ses (vr_org r) (vr_actor r) ''advisor'')"
    using reviewing.run_records [OF assms(2)] by blast
  have "ik_operation (review_key r) \<in> DECISION_OPERATIONS"
    by (simp add: review_key_def idem_key_of_def DECISION_OPERATIONS_def)
  from grow(5) [OF this] rec(1) have known: "review_recall r db'' = Some rec" by (simp add: review_recall_def)
  have "brief_of_review (vr_org r, i) db'' = brief"
  proof (cases brief)
    case None
    have "brief_of_review (vr_org r, i) db'' \<noteq> Some j" for j
    proof
      assume "brief_of_review (vr_org r, i) db'' = Some j"
      then obtain b where b: "map_of (briefs db'') (vr_org r, j) = Some b" "bw_review b = i"
        by (auto simp: brief_of_review_iff [OF inv''])
      from decision_invariantD(1) [OF inv'' b(1)] b(2) grow(1) [OF a(1)] a(3) [rule_format, OF None] show False
        by (auto simp: brief_ok_def review_approves_def)
    qed
    with None show ?thesis by (cases "brief_of_review (vr_org r, i) db''") auto
  next
    case (Some j)
    with a(2) [rule_format, OF Some] obtain b where b: "map_of (briefs db') (vr_org r, j) = Some b" "bw_review b = i" by blast
    from grow(4) [OF b(1)] b(2) have "\<exists>b'. map_of (briefs db'') (vr_org r, j) = Some b' \<and> bw_review b' = i" by fastforce
    then show ?thesis by (simp add: brief_of_review_iff [OF inv''] Some)
  qed
  with reviewing.run_known [OF ready known rec(2)] rec(3)
  have "review_planning_run part' facts ses r db''
      = Inr (db'', i, brief, case_state_of (vr_org r, vr_case r) db'', True)"
    by (simp add: replayed_review_def)
  moreover have "review_planning_run part' facts ses y db'' = Inl NV008"
    if y: "review_key y = review_key r" "vr_request_hash y \<noteq> vr_request_hash r" for y
  proof (rule reviewing.run_mismatch)
    show "is_ok (assert_m3b_context ses (vr_org y) (vr_actor y) ''advisor'')"
      using ready y(1) by (simp add: review_key_def idem_key_of_def)
    show "review_recall y db'' = Some rec" using known y(1) by (simp add: review_recall_def)
  qed (use rec(2) y(2) in simp)
  ultimately show ?thesis by blast
qed

theorem review_replays_witness:
  "\<exists>db' i brief st. review_planning_run family_members family_facts demo_session family_approval family_planned
        = Inr (db', i, brief, st, False)
     \<and> review_planning_run (\<lambda>org c actor rl. False) family_facts demo_session family_approval db'
        = Inr (db', i, brief, case_state_of (1, 10) db', True)"
proof -
  from family_requests(1) obtain db' i brief st where run: "review_planning_run family_members family_facts demo_session
      family_approval family_planned = Inr (db', i, brief, st, False)" by blast
  have k: "vr_org family_approval = 1" "vr_case family_approval = 10"
    by (simp_all add: family_approval_def review_request_of_def approval_def demo_session_def)
  from review_replays [OF family_reachable(1) run rtranclp.rtrancl_refl, of "\<lambda>org c actor rl. False"] run
  show ?thesis unfolding k by blast
qed

section \<open>Returned runs\<close>

text \<open>A run that was returned is not current any more or its case is in planning.\<close>

definition returned_ok :: "decision_db \<Rightarrow> row_key \<Rightarrow> advisor_review \<Rightarrow> bool" where
  "returned_ok db k a \<longleftrightarrow>
     (\<exists>q. map_of (runs (base db)) (fst k, ar_run a) = Some q \<and> run_case q = ar_case a
        \<and> (ar_action a \<noteq> ''approve_for_consultation'' \<longrightarrow> run_is_current q \<longrightarrow>
             (\<exists>c. map_of (cases (base db)) (fst k, ar_case a) = Some c \<and> sc_state c = CS_PLANNING)))"

definition returns_ok :: "decision_db \<Rightarrow> bool" where
  "returns_ok db \<longleftrightarrow> (\<forall>(k, a)\<in>set (reviews db). returned_ok db k a)"

text \<open>What a step may do to runs, and to cases in planning that have a current run.\<close>

definition planning_kept :: "row_key set \<Rightarrow> decision_db \<Rightarrow> decision_db \<Rightarrow> bool" where
  "planning_kept X db db' \<longleftrightarrow>
     (\<forall>k q. map_of (runs (base db)) k = Some q \<longrightarrow>
        (\<exists>q'. map_of (runs (base db')) k = Some q' \<and> run_case q' = run_case q
           \<and> (if (fst k, run_case q) \<in> X then \<not> run_is_current q' else q' = q)))
     \<and> (\<forall>k c i q. map_of (cases (base db)) k = Some c \<longrightarrow> sc_state c = CS_PLANNING \<longrightarrow> k \<notin> X \<longrightarrow>
          map_of (runs (base db)) (fst k, i) = Some q \<longrightarrow> run_case q = snd k \<longrightarrow> run_is_current q \<longrightarrow>
          map_of (cases (base db')) k = Some c)"

lemma current_run_exists_map:
  "map_of (runs b) (org, i) = Some q \<Longrightarrow> run_case q = c \<Longrightarrow> run_is_current q \<Longrightarrow> current_run_exists org c b"
  by (force simp: current_run_exists_def list_ex_iff dest: map_of_SomeD)

lemma map_of_retire:
  "map_of (retire_runs k rows) j =
     map_option (\<lambda>r. if fst j = fst k \<and> run_case r = snd k then r\<lparr>run_is_current := False\<rparr> else r) (map_of rows j)"
  by (induction rows) (auto simp: retire_runs_def)

lemma step_keeps_planning:
  assumes "decision_step facts db db'"
  obtains (kept) "planning_kept {} db db'" "reviews db' = reviews db"
  | (reviewed) r i where "planning_kept {} db db'" "reviews db' = reviews db @ [((vr_org r, i), new_review r db)]"
      "map_of (reviews db) (vr_org r, i) = None"
      "\<exists>part c q. review_target part r c q db"
      "\<exists>c'. map_of (cases (base db')) (vr_org r, vr_case r) = Some c'
         \<and> (vr_action r \<noteq> ''approve_for_consultation'' \<longrightarrow> sc_state c' = CS_PLANNING)"
  | (published) k c where "map_of (cases (base db)) k = Some c" "may_publish k c db" "db' = publish_revision k c db"
      "planning_kept {k} db db'" "reviews db' = reviews db"
  using assms
proof (cases rule: decision_step.cases)
  case (review part ses r out)
  from review show ?thesis
  proof (cases rule: review_cases)
    case replay
    then show ?thesis by (intro kept) (simp_all add: planning_kept_def)
  next
    case (returned c q)
    have "planning_kept {} db db'"
      using returned(2) by (auto simp: planning_kept_def returned(6) review_target_def)
    with returned show ?thesis by (intro reviewed [of r "vr_review r"]) (auto simp: new_review_def)
  next
    case (approved c q i d s hash rows)
    have "planning_kept {} db db'"
      using approved(2) by (auto simp: planning_kept_def approved(15) review_target_def)
    with approved show ?thesis by (intro reviewed [of r "vr_review r"]) (auto simp: new_review_def)
  qed
next
  case (decide part ses y out)
  from decide show ?thesis
  proof (cases rule: decide_cases)
    case replay
    then show ?thesis by (intro kept) (simp_all add: planning_kept_def)
  next
    case (decided b c route ms i rows)
    have "planning_kept {} db db'"
      using decided(2) by (auto simp: planning_kept_def decided(15) decision_target_def)
    then show ?thesis by (rule kept) (simp add: decided(15))
  qed
next
  case (task b)
  note sh = task_call_shares [OF task(2), unfolded shares_def]
  from sh obtain rs where rs: "runs b = runs (base db) @ rs" by blast
  have "map_of (cases b) k = Some c" if c: "map_of (cases (base db)) k = Some c" "sc_state c = CS_PLANNING"
      "map_of (runs (base db)) (fst k, i) = Some q" "run_case q = snd k" "run_is_current q" for k c i q
  proof -
    from sh have "rel_option (case_moves (base db) k) (map_of (cases (base db)) k) (map_of (cases b) k)" by blast
    with c(1) obtain c' where "map_of (cases b) k = Some c'" "case_moves (base db) k c c'"
      by (cases "map_of (cases b) k") auto
    with c(2) current_run_exists_map [OF c(3,4,5)] show ?thesis by (auto simp: case_moves_def)
  qed
  then show ?thesis by (intro kept) (auto simp: planning_kept_def task(1) rs map_add_def)
next
  case (publish k c)
  have "planning_kept {k} db db'"
    by (auto simp: planning_kept_def publish(1) publish_revision_def map_of_retire)
  with publish show ?thesis by (intro published) (simp_all add: publish_revision_def)
next
  case (new_case k c)
  have "planning_kept {} db db'"
    using new_case(2) by (auto simp: planning_kept_def new_case(1) map_of_snoc simp del: map_of_append)
  then show ?thesis by (rule kept) (simp add: new_case(1))
qed (auto intro!: kept simp: planning_kept_def)

lemma planning_keptD:
  assumes "planning_kept X db db'"
  shows "map_of (runs (base db)) k = Some q \<Longrightarrow> \<exists>q'. map_of (runs (base db')) k = Some q' \<and> run_case q' = run_case q
      \<and> (if (fst k, run_case q) \<in> X then \<not> run_is_current q' else q' = q)"
    and "map_of (cases (base db)) k = Some c \<Longrightarrow> sc_state c = CS_PLANNING \<Longrightarrow> k \<notin> X \<Longrightarrow>
      map_of (runs (base db)) (fst k, i) = Some q \<Longrightarrow> run_case q = snd k \<Longrightarrow> run_is_current q \<Longrightarrow>
      map_of (cases (base db')) k = Some c"
  using assms unfolding planning_kept_def by blast+

lemma returned_ok_kept:
  assumes "planning_kept X db db'" and "returned_ok db k a"
  shows "returned_ok db' k a"
proof -
  from assms(2) obtain q where q: "map_of (runs (base db)) (fst k, ar_run a) = Some q" "run_case q = ar_case a"
    and returned: "ar_action a \<noteq> ''approve_for_consultation'' \<Longrightarrow> run_is_current q \<Longrightarrow>
      \<exists>c. map_of (cases (base db)) (fst k, ar_case a) = Some c \<and> sc_state c = CS_PLANNING"
    unfolding returned_ok_def by blast
  from planning_keptD(1) [OF assms(1) q(1)] q(2) obtain q' where q': "map_of (runs (base db')) (fst k, ar_run a) = Some q'"
    "run_case q' = ar_case a" "if (fst k, ar_case a) \<in> X then \<not> run_is_current q' else q' = q" by auto
  have "\<exists>c. map_of (cases (base db')) (fst k, ar_case a) = Some c \<and> sc_state c = CS_PLANNING"
    if "ar_action a \<noteq> ''approve_for_consultation''" "run_is_current q'"
  proof -
    from that(2) q'(3) have out: "(fst k, ar_case a) \<notin> X" and same: "q' = q" by (auto split: if_splits)
    with returned that obtain c where c: "map_of (cases (base db)) (fst k, ar_case a) = Some c" "sc_state c = CS_PLANNING"
      by blast
    have "map_of (cases (base db')) (fst k, ar_case a) = Some c"
      by (rule planning_keptD(2) [OF assms(1) c out]) (use q that(2) same in auto)
    with c(2) show ?thesis by blast
  qed
  with q' show ?thesis unfolding returned_ok_def by blast
qed

lemma step_returns_ok:
  assumes "decision_step facts db db'" and ok: "returns_ok db"
  shows "returns_ok db'"
  using assms(1)
proof (cases rule: step_keeps_planning)
  case kept
  with ok returned_ok_kept [OF kept(1)] show ?thesis by (auto simp: returns_ok_def)
next
  case (published k c)
  with ok returned_ok_kept [OF published(4)] show ?thesis by (auto simp: returns_ok_def)
next
  case (reviewed r i)
  then obtain q where q: "map_of (runs (base db)) (vr_org r, vr_run r) = Some q" "run_case q = vr_case r"
    by (auto simp: review_target_def)
  from planning_keptD(1) [OF reviewed(1) q(1)] q(2) reviewed(5) have "returned_ok db' (vr_org r, i) (new_review r db)"
    by (auto simp: returned_ok_def new_review_def)
  with ok returned_ok_kept [OF reviewed(1)] reviewed(2) show ?thesis by (auto simp: returns_ok_def)
qed

lemma reachable_returns_ok:
  assumes "decision_reachable facts db"
  shows "returns_ok db"
proof -
  from assms have "(decision_step facts)\<^sup>*\<^sup>* empty_decision_db db" by (simp add: decision_reachable_def)
  then show ?thesis
  proof (induction rule: rtranclp_induct)
    case base
    show ?case by (simp add: returns_ok_def empty_decision_db_def)
  qed (rule step_returns_ok)
qed

text \<open>A case in planning whose current run has no request for a revision.\<close>

definition no_way_on :: "row_key \<Rightarrow> student_case \<Rightarrow> uuid \<Rightarrow> planning_run \<Rightarrow> decision_db \<Rightarrow> bool" where
  "no_way_on k c i q db \<longleftrightarrow>
     map_of (cases (base db)) k = Some c \<and> sc_state c = CS_PLANNING
     \<and> map_of (runs (base db)) (fst k, i) = Some q \<and> run_case q = snd k \<and> run_is_current q
     \<and> \<not> list_ex (\<lambda>(ka, a). fst ka = fst k \<and> ar_run a = i \<and> ar_action a = ''request_revision'') (reviews db)"

lemma no_way_on_step:
  assumes "decision_step facts db db'" and now: "no_way_on k c i q db"
  shows "no_way_on k c i q db'"
proof -
  from now have c: "map_of (cases (base db)) k = Some c" "sc_state c = CS_PLANNING"
    and q: "map_of (runs (base db)) (fst k, i) = Some q" "run_case q = snd k" "run_is_current q"
    and none: "\<not> list_ex (\<lambda>(ka, a). fst ka = fst k \<and> ar_run a = i \<and> ar_action a = ''request_revision'') (reviews db)"
    by (simp_all add: no_way_on_def)
  have stay: "map_of (cases (base db')) k = Some c \<and> map_of (runs (base db')) (fst k, i) = Some q"
    if "planning_kept X db db'" "k \<notin> X" for X
    using planning_keptD(1) [OF that(1) q(1)] planning_keptD(2) [OF that(1) c that(2) q] that(2) q(2) by auto
  from assms(1) show ?thesis
  proof (cases rule: step_keeps_planning)
    case kept
    with stay [OF kept(1)] c q none show ?thesis by (simp add: no_way_on_def)
  next
    case (reviewed r j)
    then obtain c0 q0 where target: "map_of (cases (base db)) (vr_org r, vr_case r) = Some c0" "sc_state c0 = CS_ADVISOR_REVIEW"
      "map_of (runs (base db)) (vr_org r, vr_run r) = Some q0" "run_case q0 = vr_case r"
      by (auto simp: review_target_def)
    have "\<not> (vr_org r = fst k \<and> vr_run r = i)"
    proof
      assume same: "vr_org r = fst k \<and> vr_run r = i"
      with target(3,4) q have "(vr_org r, vr_case r) = k" by (cases k) simp
      with target(1,2) c show False by simp
    qed
    with stay [OF reviewed(1)] c q none reviewed(2) show ?thesis by (auto simp: no_way_on_def new_review_def)
  next
    case (published k0 c0)
    have "k0 \<noteq> k"
    proof
      assume "k0 = k"
      with published(2) map_of_SomeD [OF q(1)] q none show False by (fastforce simp: may_publish_def list_all_iff list_ex_iff)
    qed
    with stay [OF published(4)] c q none published(5) show ?thesis by (simp add: no_way_on_def)
  qed
qed

lemma rejection_leaves_no_way_on:
  assumes reach: "decision_reachable facts db"
    and "review_planning_run part facts ses r db = Inr (db', i, brief, st, False)" and reject: "vr_action r = ''reject''"
  obtains c q where "no_way_on (vr_org r, vr_case r) c (vr_run r) q db'" "sc_current_revision c = vr_revision r"
    "run_case_revision q = vr_revision r"
  using assms(2)
proof (cases rule: review_cases)
  case (returned c q)
  note t = returned(2) [unfolded review_target_def]
  have "ar_action a \<noteq> ''request_revision''" if "(ka, a) \<in> set (reviews db)" "fst ka = vr_org r" "ar_run a = vr_run r" for ka a
  proof
    assume "ar_action a = ''request_revision''"
    with that reachable_returns_ok [OF reach] t show False by (auto simp: returns_ok_def returned_ok_def)
  qed
  then have "no_way_on (vr_org r, vr_case r) (c\<lparr>sc_state := CS_PLANNING\<rparr>) (vr_run r) q db'"
    using t reject by (auto simp: no_way_on_def returned(6) list_ex_iff new_review_def)
  with t show ?thesis by (intro that [of "c\<lparr>sc_state := CS_PLANNING\<rparr>" q]) simp_all
qed (use reject in simp_all)

text \<open>C18: An advisor's rejection is the end of a case: whatever is called afterwards, the case stays in planning with the
  revision that was rejected and the rejected run stays its current run, so no revision is published for it and no
  other run is reviewed.\<close>

theorem rejected_case_is_stuck:
  assumes "decision_reachable facts db"
    and "review_planning_run part facts ses r db = Inr (db', i, brief, st, False)" and "vr_action r = ''reject''"
    and "(decision_step facts)\<^sup>*\<^sup>* db' db''"
  shows "\<exists>c q. map_of (cases (base db'')) (vr_org r, vr_case r) = Some c \<and> sc_state c = CS_PLANNING
    \<and> sc_current_revision c = vr_revision r \<and> \<not> may_publish (vr_org r, vr_case r) c db''
    \<and> map_of (runs (base db'')) (vr_org r, vr_run r) = Some q \<and> run_is_current q
    \<and> run_case_revision q = vr_revision r
    \<and> (\<forall>part' r'. vr_org r' = vr_org r \<longrightarrow> vr_case r' = vr_case r \<longrightarrow> \<not> is_ok (admit_review part' r' db''))"
proof -
  obtain c q where start: "no_way_on (vr_org r, vr_case r) c (vr_run r) q db'" and rev: "sc_current_revision c = vr_revision r"
    "run_case_revision q = vr_revision r"
    by (rule rejection_leaves_no_way_on [OF assms(1,2,3)])
  from assms(4) have "no_way_on (vr_org r, vr_case r) c (vr_run r) q db''"
    by (induction rule: rtranclp_induct) (use start no_way_on_step in blast)+
  then have c: "map_of (cases (base db'')) (vr_org r, vr_case r) = Some c" "sc_state c = CS_PLANNING"
    and q: "map_of (runs (base db'')) (vr_org r, vr_run r) = Some q" "run_case q = vr_case r" "run_is_current q"
    and none: "\<not> list_ex (\<lambda>(ka, a). fst ka = vr_org r \<and> ar_run a = vr_run r \<and> ar_action a = ''request_revision'') (reviews db'')"
    by (simp_all add: no_way_on_def)
  have "\<not> may_publish (vr_org r, vr_case r) c db''"
    using map_of_SomeD [OF q(1)] q none by (fastforce simp: may_publish_def list_all_iff list_ex_iff)
  moreover have "\<not> is_ok (admit_review part' r' db'')" if "vr_org r' = vr_org r" "vr_case r' = vr_case r" for part' r'
    using that c by (auto simp: is_ok_iff elim!: admit_review_Inr simp: review_target_def)
  ultimately show ?thesis using c q rev by blast
qed

theorem rejected_case_is_stuck_witness:
  "\<exists>db' i brief st c. review_planning_run family_members family_facts demo_session family_rejection family_planned
        = Inr (db', i, brief, st, False)
     \<and> map_of (cases (base db')) (1, 10) = Some c \<and> sc_state c = CS_PLANNING \<and> \<not> may_publish (1, 10) c db'"
proof -
  from family_requests(2) obtain db' i brief st where run: "review_planning_run family_members family_facts demo_session
      family_rejection family_planned = Inr (db', i, brief, st, False)" by blast
  have k: "vr_org family_rejection = 1" "vr_case family_rejection = 10" "vr_action family_rejection = ''reject''"
    by (simp_all add: family_rejection_def review_request_of_def rejection_def approval_def demo_session_def)
  from rejected_case_is_stuck [OF family_reachable(1) run k(3) rtranclp.rtrancl_refl] run show ?thesis unfolding k by blast
qed

end
