(* ===== verification/Decision_Checks.thy ===== *)
theory Decision_Checks
  imports Decision_Replay
begin

text \<open>
  The checks of the service against the checks of the database: a decision on a visible current brief that
  the policy accepts is recorded, the database refuses nothing more.
\<close>

section \<open>What the database needs\<close>

text \<open>New identifiers and a new key.\<close>

definition decision_is_fresh :: "decide_request \<Rightarrow> decision_db \<Rightarrow> bool" where
  "decision_is_fresh r db \<longleftrightarrow>
     map_of (idempotency (base db)) (decide_key r) = None
     \<and> list_all (\<lambda>(k, d). k \<noteq> (dq_org r, dq_decision r) \<and> \<not> (fst k = dq_org r \<and> fd_receipt d = dq_receipt r)) (decisions db)
     \<and> list_all (\<lambda>(k, p). k \<noteq> (dq_org r, dq_timeline r)) (plans db)"

lemma current_brief_undecided:
  assumes inv: "decision_invariant facts db" and "map_of (briefs db) (org, i) = Some b" "bw_is_current b"
    and "(k, d) \<in> set (decisions db)" "fst k = org"
  shows "fd_brief d \<noteq> i"
proof
  assume "fd_brief d = i"
  have "distinct (map fst (decisions db))" using decision_invariantD(7) [OF inv] by (simp add: unique_by_def)
  with assms(4) have "map_of (decisions db) k = Some d" by (simp add: map_of_is_SomeI)
  from decision_invariantD(2) [OF inv this] assms(2,3,5) \<open>fd_brief d = i\<close> show False by (auto simp: decision_ok_def)
qed

lemma plan_has_decision:
  assumes inv: "decision_invariant facts db" and "(k, p) \<in> set (plans db)"
  shows "map_of (decisions db) (fst k, pl_decision p) \<noteq> None"
proof -
  have "distinct (map fst (plans db))" using decision_invariantD(8) [OF inv] by (simp add: unique_by_def)
  with assms(2) have "map_of (plans db) k = Some p" by (simp add: map_of_is_SomeI)
  with decision_invariantD(5) [OF inv] show ?thesis by blast
qed

lemma update_one_row:
  assumes "distinct (map fst rows)" and "map_of rows k = Some x" and "f x = Inr y"
  shows "\<exists>rows'. update_where (\<lambda>k' z. k' = k) f rows = Inr rows'"
  using assms(1,2)
proof (induction rows)
  case (Cons row rows)
  show ?case
  proof (cases "fst row = k")
    case True
    with Cons.prems assms(3) have "row = (k, x)" "k \<notin> fst ` set rows" by (cases row, auto)+
    moreover from this(2) have "update_where (\<lambda>k' z. k' = k) f rows = Inr rows"
      by (induction rows) (auto simp: update_where_def)
    ultimately show ?thesis using assms(3) by (auto simp: update_where_def)
  next
    case False
    with Cons show ?thesis by (auto simp: update_where_def split: prod.splits)
  qed
qed simp

lemma decide_accepts:
  assumes inv: "decision_invariant facts db" and fresh: "decision_is_fresh r db"
    and ctx: "assert_m3b_context ses (dq_org r) (dq_actor r) (dq_role r) = Inr ()"
    and target: "decision_target r b c db" and may: "may_decide part r b"
    and src: "dq_source r \<in> {''direct'', ''family_consultation''}"
    and route: "selected_route facts r b db = Inr route" and budget: "check_budget facts r b = Inr ()"
    and pin: "pinned_intake facts (dq_org r) (bw_case b) (bw_revision b) = Some i"
    and ms: "canonical_milestones (Some i) = Inr (dq_milestones r)"
  shows "\<exists>db'. decide_family_brief part facts ses r db
      = Inr (db', dq_decision r, Some (dq_receipt r), Some (dq_timeline r), False)"
proof -
  note t = target [unfolded decision_target_def]
  let ?k = "(dq_org r, bw_case b)"
  have none: "map_of (idempotency (base db)) (decide_key r) = None"
    "map_of (decisions db) (dq_org r, dq_decision r) = None" "map_of (plans db) (dq_org r, dq_timeline r) = None"
    using fresh by (auto simp: decision_is_fresh_def list_all_iff map_of_eq_None_iff)
  have no_plan: "\<not> list_ex (\<lambda>(k, p). fst k = dq_org r \<and> pl_decision p = dq_decision r) (plans db)"
    using plan_has_decision [OF inv] none(2) by (fastforce simp: list_ex_iff)
  have no_decision: "\<not> list_ex (\<lambda>(k, d). fst k = dq_org r \<and> (fd_receipt d = dq_receipt r \<or> fd_brief d = dq_brief r)) (decisions db)"
    using fresh current_brief_undecided [OF inv] t by (fastforce simp: decision_is_fresh_def list_all_iff list_ex_iff)
  let ?db1 = "db\<lparr>decisions := decisions db @ [((dq_org r, dq_decision r), new_decision r b)]\<rparr>"
  let ?db2 = "put_case ?k (c\<lparr>sc_state := CS_DECIDED\<rparr>) ?db1"
  let ?db3 = "?db2\<lparr>plans := plans ?db2 @ [((dq_org r, dq_timeline r), new_plan r route i (dq_milestones r))]\<rparr>"
  let ?db4 = "put_case ?k (c\<lparr>sc_state := CS_PLAN_READY\<rparr>) ?db3"
  have 1: "insert_decision r b db = Inr ?db1" using src none no_decision by (simp add: insert_decision_Inr)
  have "guard_case_state_transition ?k c CS_DECIDED ?db1 = Inr ()"
    using t by (auto simp: guard_case_state_transition_def new_decision_def)
  then have 2: "advance_case ?k CS_FAMILY_REVIEW CS_DECIDED ?db1 = Inr ?db2" using t by (subst advance_case_Inr) auto
  have 3: "insert_plan r (br_country route) (Some i) (dq_milestones r) ?db2 = Inr ?db3"
    using none no_plan by (subst insert_plan_Inr) auto
  have "guard_case_state_transition ?k (c\<lparr>sc_state := CS_DECIDED\<rparr>) CS_PLAN_READY ?db3 = Inr ()"
    by (auto simp: guard_case_state_transition_def new_decision_def new_plan_def)
  then have 4: "advance_case ?k CS_DECIDED CS_PLAN_READY ?db3 = Inr ?db4" by (subst advance_case_Inr) auto
  have "distinct (map fst (briefs db))" using decision_invariantD(6) [OF inv] by (simp add: unique_by_def)
  moreover have "guard_decision_brief_mutation b (b\<lparr>bw_is_current := False\<rparr>) = Inr (b\<lparr>bw_is_current := False\<rparr>)"
    using t by (simp add: guard_decision_brief_mutation_def)
  ultimately obtain rows where "update_where (\<lambda>k' x. k' = (dq_org r, dq_brief r))
      (\<lambda>b. guard_decision_brief_mutation b (b\<lparr>bw_is_current := False\<rparr>)) (briefs db) = Inr rows"
    using update_one_row [of "briefs db" "(dq_org r, dq_brief r)" b
        "\<lambda>b. guard_decision_brief_mutation b (b\<lparr>bw_is_current := False\<rparr>)"] t by blast
  then have 5: "retire_brief (dq_org r, dq_brief r) (audit_decision r b ?db4) = Inr ((audit_decision r b ?db4)\<lparr>briefs := rows\<rparr>)"
    by (simp add: retire_brief_def)
  have "\<exists>db'. record_decision facts r b route (dq_milestones r) db = Inr db'"
    unfolding record_decision_def Let_def pin using 1 2 3 4 5 by simp
  moreover have "current_brief r db = Inr b" using target by (auto simp: current_brief_Inr)
  moreover have "check_timeline facts r b = Inr (dq_milestones r)" by (simp add: check_timeline_def pin ms)
  ultimately show ?thesis
    using ctx none(1) may route budget by (auto simp: decide_family_brief_def)
qed

section \<open>What the service checks\<close>

lemma left_join_single: "left_join xs = [y] \<longleftrightarrow> (case y of None \<Rightarrow> xs = [] | Some x \<Rightarrow> xs = [x])"
  by (auto simp: left_join_def split: option.splits)

lemma left_join_nonempty [simp]: "left_join xs \<noteq> []"
  by (simp add: left_join_def)

lemma concat_single:
  assumes "concat (map f xs) = [y]" "xs \<noteq> []" "\<And>x. x \<in> set xs \<Longrightarrow> f x \<noteq> []"
  shows "\<exists>x. xs = [x] \<and> f x = [y]"
  using assms by (cases xs; cases "tl xs") (auto simp: Cons_eq_append_conv append_eq_Cons_conv)

lemma joined_single:
  assumes "joined_rows k prices db = [(d, p, cost)]"
  shows "left_join prices = [cost]"
proof -
  let ?inner = "\<lambda>d p. map (\<lambda>c. (d, p, c)) (left_join prices)"
  let ?mid = "\<lambda>d. concat (map (?inner d) (left_join (plans_of_decision d db)))"
  have ne: "?mid d \<noteq> []" for d by (cases "left_join (plans_of_decision d db)") auto
  from assms have "concat (map ?mid (left_join (decisions_of_brief k db))) = [(d, p, cost)]"
    by (simp add: joined_rows_def)
  from concat_single [OF this left_join_nonempty ne] obtain d' where "?mid d' = [(d, p, cost)]" by blast
  from concat_single [OF this left_join_nonempty] obtain p' where "?inner d' p' = [(d, p, cost)]" by auto
  then show ?thesis by (cases "left_join prices") auto
qed

lemma single_row_Inr:
  "(case xs of [row] \<Rightarrow> f row | _ \<Rightarrow> Inl e) = Inr y \<longleftrightarrow> (\<exists>row. xs = [row] \<and> f row = Inr y)"
  by (cases xs; cases "tl xs") auto

text \<open>A record of a brief shows the brief, and its cost is the only cost row of its run.\<close>

lemma get_brief_Some:
  assumes "repository_get_brief part facts ses i db = Inr (Some v)"
  obtains b p where "map_of (briefs db) (ses_organization ses, i) = Some b"
    "part (ses_organization ses) (bw_case b) (ses_actor ses) (ses_role ses)"
    "br_id v = i" "br_version v = bw_version b" "br_is_current v = bw_is_current b" "br_projection v = bw_projection b"
    "parse_projection (bw_projection b) = Inr p"
    "br_hard_ceiling v = pinned_hard_ceiling facts (ses_organization ses) (bw_case b) (bw_revision b)"
    "cost_cny facts (ses_organization ses, bw_run b) = Inr (br_australia_cost v)"
proof -
  let ?org = "ses_organization ses"
  from assms obtain b where b: "map_of (briefs db) (?org, i) = Some b"
    by (auto simp: repository_get_brief_def Let_def split: option.splits)
  with assms obtain prices row where part: "part ?org (bw_case b) (ses_actor ses) (ses_role ses)"
    and prices: "traverse cost_value (australia_costs facts (?org, bw_run b)) = Inr prices"
    and row: "joined_rows (?org, i) prices db = [row]" and view: "brief_view facts (?org, i) b row = Inr v"
    unfolding repository_get_brief_def Let_def
    by (auto simp: single_row_Inr split: if_split_asm simp del: split_paired_Ex)
  obtain d p cost where r: "row = (d, p, cost)" by (cases row)
  with joined_single row have cost: "left_join prices = [cost]" by blast
  have "cost_cny facts (?org, bw_run b) = Inr cost"
    using prices cost by (cases "australia_costs facts (?org, bw_run b)"; cases cost)
      (auto simp: cost_cny_def left_join_single)
  moreover from view r obtain q where "parse_projection (bw_projection b) = Inr q" "br_id v = i" "br_version v = bw_version b"
    "br_is_current v = bw_is_current b" "br_projection v = bw_projection b" "br_australia_cost v = cost"
    "br_hard_ceiling v = pinned_hard_ceiling facts ?org (bw_case b) (bw_revision b)"
    by (auto simp: brief_view_def Let_def)
  ultimately show ?thesis using b part that by simp
qed

lemma parse_projection_Inr:
  assumes "parse_projection j = Inr p"
  shows "db_routes p = bj_routes j \<and> db_eligible_route_ids p = bj_eligible j \<and> db_intake p = bj_intake j"
  using assms by (auto simp: parse_projection_def eligible_routes_are_present_and_unblocked_def split: if_splits)

lemma validate_pinned_Inr:
  assumes "validate_pinned c p v = Inr u"
    and "find (\<lambda>x. route_id x = selected_route_id c) (db_routes p) = Some route" "br_country route = AUSTRALIA"
  obtains h cost where "br_hard_ceiling v = Some h" "br_australia_cost v = Some cost"
    "expected_brief_version c = br_version v" "selected_route_id c \<in> set (db_eligible_route_ids p)"
    "accepted_budget_max_minor c \<le> h" "''budget_elasticity'' \<in> set (accepted_trade_offs c)"
    "accepted_budget_min_minor c \<le> cost" "cost \<le> accepted_budget_max_minor c"
  using assms
  by (auto simp: validate_pinned_def validate_family_decision_def from_python_def split: option.splits if_splits sum.splits)

section \<open>The same dates\<close>

lemma digit_plain:
  assumes "digit_value c = Some v"
  shows "\<not> is_space c" and "c \<noteq> CHR ''-''" and "c \<noteq> CHR ''+''" and "c \<noteq> CHR ''_''"
proof -
  have "(48::int) \<le> of_char c" using assms by (simp add: digit_value_def split: if_splits)
  moreover have "int (of_char c) = of_char c" by (rule of_nat_of_char)
  ultimately show "\<not> is_space c" by (auto simp: is_space_def)
qed (use assms in \<open>auto simp: digit_value_def\<close>)

lemma strip_plain:
  assumes "xs \<noteq> []" "\<not> is_space (hd xs)" "\<not> is_space (last xs)"
  shows "strip xs = xs"
proof -
  have "dropWhile is_space xs = xs" using assms by (cases xs) auto
  moreover have "dropWhile is_space (rev xs) = rev xs" using assms by (cases xs rule: rev_cases) auto
  ultimately show ?thesis by (simp add: strip_def)
qed

lemma february_year_month:
  assumes "february_intake s"
  shows "year_month s = Inr (intake_year s, 2)"
proof -
  from assms have "length s = 7" by (simp add: february_intake_def)
  then obtain a b c d e f g where s: "s = [a, b, c, d, e, f, g]"
    by (auto simp: numeral_eq_Suc length_Suc_conv)
  with assms obtain va vb vc vd where v: "digit_value a = Some va" "digit_value b = Some vb" "digit_value c = Some vc"
    "digit_value d = Some vd" and tail: "e = CHR ''-''" "f = CHR ''0''" "g = CHR ''2''"
    by (auto simp: february_intake_def numeral_eq_Suc)
  note plain = v [THEN digit_plain(1)] v [THEN digit_plain(2)] v [THEN digit_plain(3)] v [THEN digit_plain(4)]
  have "strip [a, b, c, d] = [a, b, c, d]" by (rule strip_plain) (use plain in auto)
  then have "py_int [a, b, c, d] = Inr (10 * (10 * (10 * va + vb) + vc) + vd)"
    using plain v by (simp add: py_int_def Let_def parse_unsigned_def)
  moreover have "py_int ''02'' = Inr 2" by code_simp
  moreover have "intake_year s = 10 * (10 * (10 * va + vb) + vc) + vd"
    using v by (simp add: intake_year_def s numeral_eq_Suc)
  ultimately show ?thesis using plain by (simp add: year_month_def s tail)
qed

text \<open>The plan of the service and the plan of the database are the same.\<close>

lemma timeline_is_canonical:
  assumes "february_intake s" and "build_timeline_plan country s decided_on = Inr plan"
  shows "country = AUSTRALIA \<and> canonical_milestones (Some s) = Inr (milestone_dump plan)"
  using assms
  by (auto simp: build_timeline_plan_def february_year_month mk_date_def canonical_milestones_def milestone_dump_def
      Let_def split: if_splits)

section \<open>The decision stands\<close>

text \<open>C6: The database refuses no direct decision that the service accepts: when the brief is visible and current, the
  policy accepts the command against the pinned numbers, the timeline can be built for a February intake, and key
  and identifiers are new, the decision is recorded as it was asked for and the case is ready.\<close>

theorem validated_decision_is_recorded:
  assumes "decision_reachable facts db"
    and "repository_get_brief part facts ses (fdc_brief_id c) db = Inr (Some v)" and "br_is_current v"
    and "ses_role ses \<in> {''student'', ''parent''}" and "fdc_source c = DIRECT"
    and "decision_made_by_actor_id c = ses_actor ses" and "valid_range c = Inr c"
    and "parse_projection (br_projection v) = Inr p" and "validate_pinned c p v = Inr ()"
    and "find (\<lambda>x. route_id x = selected_route_id c) (db_routes p) = Some route"
    and "distinct (map route_id (db_routes p))" and "february_intake (db_intake p)"
    and "build_timeline_plan (br_country route) (db_intake p) (br_snapshot v) = Inr plan"
    and "decision_is_fresh (decide_request_of hashes ses c (i, receipt, timeline) plan k) db"
  shows "\<exists>db' d cs. service_decide_direct part facts hashes ses c k (i, receipt, timeline) db
      = Inr (db', i, Some receipt, Some timeline, False)
    \<and> map_of (decisions db') (ses_organization ses, i) = Some d
    \<and> fd_route d = selected_route_id c \<and> fd_made_by d = ses_actor ses
    \<and> fd_min d = accepted_budget_min_minor c \<and> fd_max d = accepted_budget_max_minor c
    \<and> map_of (cases (base db')) (ses_organization ses, fd_case d) = Some cs \<and> sc_state cs = CS_PLAN_READY"
proof -
  let ?r = "decide_request_of hashes ses c (i, receipt, timeline) plan k"
  let ?org = "ses_organization ses"
  note inv = decision_reachable_invariant [OF assms(1)]
  have r: "dq_org ?r = ?org" "dq_actor ?r = ses_actor ses" "dq_role ?r = ses_role ses" "dq_brief ?r = fdc_brief_id c"
    "dq_version ?r = expected_brief_version c" "dq_decision ?r = i" "dq_receipt ?r = receipt" "dq_timeline ?r = timeline"
    "dq_route ?r = selected_route_id c" "dq_min ?r = accepted_budget_min_minor c" "dq_max ?r = accepted_budget_max_minor c"
    "dq_currency ?r = fdc_currency c" "dq_trade_offs ?r = accepted_trade_offs c" "dq_made_by ?r = ses_actor ses"
    "dq_source ?r = ''direct''" "dq_milestones ?r = milestone_dump plan"
    using assms(5,6) by (simp_all add: decide_request_of_def)
  obtain b where b: "map_of (briefs db) (?org, fdc_brief_id c) = Some b"
    "part ?org (bw_case b) (ses_actor ses) (ses_role ses)" and v: "br_version v = bw_version b"
    "br_is_current v = bw_is_current b" "br_projection v = bw_projection b"
    "br_hard_ceiling v = pinned_hard_ceiling facts ?org (bw_case b) (bw_revision b)"
    "cost_cny facts (?org, bw_run b) = Inr (br_australia_cost v)"
    using assms(2) by (rule get_brief_Some) blast
  note p = parse_projection_Inr [OF assms(8), unfolded v(3)]
  note same = timeline_is_canonical [OF assms(12,13)]
  obtain h cost where checked: "br_hard_ceiling v = Some h" "br_australia_cost v = Some cost"
    "expected_brief_version c = br_version v" "selected_route_id c \<in> set (db_eligible_route_ids p)"
    "accepted_budget_max_minor c \<le> h" "''budget_elasticity'' \<in> set (accepted_trade_offs c)"
    "accepted_budget_min_minor c \<le> cost" "cost \<le> accepted_budget_max_minor c"
    by (rule validate_pinned_Inr [OF assms(9,10)]) (use same in auto)
  from decision_invariantD(1) [OF inv b(1)] obtain a cs where
    a: "map_of (reviews db) (?org, bw_review b) = Some a" "ar_eligible a = bj_eligible (bw_projection b)"
    and proj: "bj_routes (bw_projection b) = routes_of_run facts (?org, bw_run b)"
      "list_all (recommended_australia facts (?org, bw_run b)) (bj_eligible (bw_projection b))"
      "pinned_intake facts ?org (bw_case b) (bw_revision b) = Some (bj_intake (bw_projection b))"
    and cs: "map_of (cases (base db)) (?org, bw_case b) = Some cs" "sc_current_revision cs = bw_revision b"
      "sc_state cs = CS_FAMILY_REVIEW"
    using assms(3) v(2) unfolding brief_ok_def review_approves_def projection_ok_def by auto
  have target: "decision_target ?r b cs db"
    using b(1) v checked(3) assms(3) cs by (simp add: decision_target_def r)
  have may: "may_decide part ?r b" using b(2) assms(4) by (auto simp: may_decide_def r)
  have rec: "recommended_australia facts (?org, bw_run b) (selected_route_id c)"
    using proj(2) checked(4) p by (simp add: list_all_iff)
  then obtain x where x: "x \<in> set (db_routes p)" "route_id x = selected_route_id c" "br_country x = AUSTRALIA"
    "br_outcome x = RO_RECOMMENDED_WITH_CONDITION"
    using p proj(1) by (auto simp: recommended_australia_def list_ex_iff)
  moreover have "route \<in> set (db_routes p)" "route_id route = selected_route_id c"
    using assms(10) by (auto simp: find_Some_iff in_set_conv_nth)
  ultimately have "x = route" using assms(11) by (auto simp: distinct_map inj_on_def)
  then have route: "selected_route facts ?r b db = Inr route"
    using assms(10) x a checked(4) p proj(1) by (simp add: selected_route_def r)
  have budget: "check_budget facts ?r b = Inr ()"
    using checked v assms(7) by (auto simp: check_budget_def r valid_range_def split: if_splits)
  have "canonical_milestones (Some (bj_intake (bw_projection b))) = Inr (dq_milestones ?r)"
    using same p by (simp add: r)
  moreover have "assert_m3b_context ses (dq_org ?r) (dq_actor ?r) (dq_role ?r) = Inr ()"
    by (simp add: r assert_m3b_context_def)
  ultimately obtain db' where run: "decide_family_brief part facts ses ?r db = Inr (db', i, Some receipt, Some timeline, False)"
    using decide_accepts [OF inv assms(14) _ target may _ route budget] proj(3) by (auto simp: r)
  then have call: "service_decide_direct part facts hashes ses c k (i, receipt, timeline) db
      = Inr (db', i, Some receipt, Some timeline, False)"
    using assms(2,4-6,8-10,13)
    by (simp add: service_decide_direct_def service_decision_def repository_decide_def from_python_def from_sql_def)
  from run obtain cs' where "map_of (decisions db') (?org, i) = Some (new_decision ?r b)"
    "map_of (cases (base db')) (?org, bw_case b) = Some cs'" "sc_state cs' = CS_PLAN_READY"
  proof (cases rule: decide_cases)
    case (decided b' c' route' ms pin rows)
    with target have "b' = b" by (simp add: decision_target_def)
    note after = decided(15) [unfolded this]
    show ?thesis
    proof (rule that)
      show "map_of (decisions db') (?org, i) = Some (new_decision ?r b)"
        by (simp add: after r map_of_snoc [OF decided(9) [unfolded r]] del: map_of_append)
      show "map_of (cases (base db')) (?org, bw_case b) = Some (c'\<lparr>sc_state := CS_PLAN_READY\<rparr>)"
        by (simp add: after r)
    qed simp
  qed simp
  with call show ?thesis
    by (intro exI [of _ db'] exI [of _ "new_decision ?r b"] exI [of _ cs']) (simp add: new_decision_def r)
qed

definition family_view :: brief_record where
  "family_view = the (projr (repository_get_brief family_members family_facts family_session 610 family_reviewed))"

definition family_projection :: decision_brief where
  "family_projection = projr (parse_projection (br_projection family_view))"

definition australian_route :: brief_route where
  "australian_route = \<lparr>route_id = 500, br_country = AUSTRALIA, br_outcome = RO_RECOMMENDED_WITH_CONDITION,
     br_reason_code = ''eligible''\<rparr>"

lemma is_Inr: "is_ok x \<Longrightarrow> x = Inr (projr x)"
  by (cases x) auto

lemma family_view_shown:
  "repository_get_brief family_members family_facts family_session (fdc_brief_id choice) family_reviewed
     = Inr (Some family_view)"
  "parse_projection (br_projection family_view) = Inr family_projection"
proof -
  have "case repository_get_brief family_members family_facts family_session (fdc_brief_id choice) family_reviewed of
      Inr (Some v) \<Rightarrow> is_ok (parse_projection (br_projection v)) | _ \<Rightarrow> False" by code_simp
  moreover have "fdc_brief_id choice = 610" by (simp add: choice_def)
  ultimately show "repository_get_brief family_members family_facts family_session (fdc_brief_id choice) family_reviewed
      = Inr (Some family_view)" and "parse_projection (br_projection family_view) = Inr family_projection"
    unfolding family_projection_def family_view_def by (auto split: sum.splits option.splits intro: is_Inr)
qed

lemma family_view_row [code]:
  "family_view = \<lparr>br_id = 610, br_version = 1, br_snapshot = (2026, 7, 1),
     br_projection = \<lparr>bj_schema_version = 1, bj_routes = routes_of_run family_facts (1, 90), bj_eligible = [500],
       bj_risks = [\<lparr>rj_evidence = Some 700, rj_kind = Some ''stale'', rj_reason = Some ''checked by phone''\<rparr>],
       bj_intake = ''2027-02'', bj_synthetic_proof = True\<rparr>,
     br_is_current = True, br_receipt = None, br_timeline = None, br_hard_ceiling = Some 40000000,
     br_australia_cost = Some 32900000\<rparr>"
  by code_simp

theorem validated_decision_is_recorded_witness:
  "\<exists>db' d. service_decide_direct family_members family_facts family_digests family_session choice ''other'' (620, 630, 640)
      family_reviewed = Inr (db', 620, Some 630, Some 640, False)
    \<and> map_of (decisions db') (1, 620) = Some d \<and> fd_max d = 40000000"
proof -
  let ?plan = "projr (build_timeline_plan AUSTRALIA ''2027-02'' (2026, 7, 1))"
  have view: "br_is_current family_view"
    "is_ok (validate_pinned choice family_projection family_view)"
    "find (\<lambda>x. route_id x = selected_route_id choice) (db_routes family_projection) = Some australian_route"
    "distinct (map route_id (db_routes family_projection))" "february_intake (db_intake family_projection)"
    "is_ok (build_timeline_plan (br_country australian_route) (db_intake family_projection) (br_snapshot family_view))"
    by code_simp+
  have cmd: "ses_role family_session \<in> {''student'', ''parent''}" "fdc_source choice = DIRECT"
    "decision_made_by_actor_id choice = ses_actor family_session" "valid_range choice = Inr choice"
    "accepted_budget_max_minor choice = 40000000" "ses_organization family_session = 1" by code_simp+
  have fresh: "decision_is_fresh (decide_request_of family_digests family_session choice (620, 630, 640)
      (projr (build_timeline_plan (br_country australian_route) (db_intake family_projection) (br_snapshot family_view)))
      ''other'') family_reviewed" by code_simp
  have checked: "validate_pinned choice family_projection family_view = Inr ()" using is_Inr [OF view(2)] by simp
  from validated_decision_is_recorded [OF family_reachable(2) family_view_shown(1) view(1) cmd(1-4) family_view_shown(2)
      checked view(3-5) is_Inr [OF view(6)] fresh] show ?thesis
    unfolding cmd(5,6) by blast
qed

end
