(* ===== verification/Decision_Timeline.thy ===== *)
theory Decision_Timeline
  imports Decision_Properties
begin

text \<open>
  The plan of a decision as the timeline authority sees it: the join of plans, decisions and cases that
  \<open>app.start_timeline_execution\<close> (0014) reads, and that every plan of a reachable database can be started.
\<close>

section \<open>The join\<close>

definition anchors_of_plan :: "decision_db \<Rightarrow> row_key \<times> plan_row \<Rightarrow> (row_key \<times> plan_anchor) list" where
  "anchors_of_plan db row =
     (let (k, p) = row in
      case map_of (decisions db) (fst k, pl_decision p) of None \<Rightarrow> []
      | Some d \<Rightarrow>
        (case map_of (cases (base db)) (fst k, fd_case d) of None \<Rightarrow> []
         | Some c \<Rightarrow> [(k, \<lparr>pa_milestones = pl_milestones p, pa_decision = pl_decision p, pa_receipt = fd_receipt d,
              pa_case = fd_case d, pa_revision = sc_current_revision c\<rparr>)]))"

definition plan_anchors :: "decision_db \<Rightarrow> (row_key \<times> plan_anchor) list" where
  "plan_anchors db = concat (map (anchors_of_plan db) (plans db))"

lemma map_of_concat_keyed:
  assumes "map_of rows k = Some x" and "\<And>y. fst ` set (f (k, y)) \<subseteq> {k}" and "f (k, x) = [(k, v)]"
    and "\<And>k' y. fst ` set (f (k', y)) \<subseteq> {k'}"
  shows "map_of (concat (map f rows)) k = Some v"
  using assms(1)
proof (induction rows)
  case (Cons row rows)
  obtain k' y where row: "row = (k', y)" by (cases row)
  show ?case
  proof (cases "k' = k")
    case True
    with Cons.prems row assms(3) show ?thesis by simp
  next
    case False
    with assms(4) [of k' y] have "k \<notin> fst ` set (f (k', y))" by auto
    then have "map_of (f (k', y)) k = None" by (simp add: map_of_eq_None_iff)
    with Cons False row show ?thesis by (simp add: map_add_def)
  qed
qed simp

lemma anchors_keyed: "fst ` set (anchors_of_plan db (k, p)) \<subseteq> {k}"
  by (auto simp: anchors_of_plan_def split: option.splits)

section \<open>Starting\<close>

text \<open>A start that only the plan could refuse: the caller has the role, the key is new and so are the ids.\<close>

definition start_is_fresh :: "session \<Rightarrow> start_request \<Rightarrow> (nat \<Rightarrow> uuid) \<Rightarrow> timeline_db \<Rightarrow> bool" where
  "start_is_fresh ses r fresh tdb \<longleftrightarrow>
     sq_role r \<in> {''student'', ''parent''} \<and> 0 < sq_revision r
     \<and> is_sha256 (sq_key_hash r) \<and> is_sha256 (sq_request_hash r)
     \<and> assert_m3b_context ses (sq_org r) (sq_actor r) (sq_role r) = Inr ()
     \<and> map_of (tl_idempotency tdb) (start_key r) = None
     \<and> list_all (\<lambda>(k, e). k \<noteq> (sq_org r, sq_execution r) \<and> \<not> (fst k = sq_org r \<and> ev1_plan e = sq_timeline r))
         (tl_executions tdb)
     \<and> distinct [fresh 1, fresh 2, fresh 3, fresh 4]
     \<and> list_all (\<lambda>(k, c). k \<noteq> (sq_org r, sq_execution r)
           \<and> \<not> (fst k = sq_org r \<and> cp_id c \<in> {fresh 1, fresh 2, fresh 3, fresh 4})) (tl_checkpoints tdb)
     \<and> list_all (\<lambda>(k, x). k \<noteq> (sq_org r, sq_receipt r)
           \<and> \<not> (fst k = sq_org r \<and> rc_actor x = sq_actor r \<and> rc1_operation x = OP_START
                \<and> rc_key_sha256 x = sq_key_hash r)) (tl_receipts tdb)"

text \<open>The dates of the plan of a February intake.\<close>

definition february_plan :: "int \<Rightarrow> (string \<times> date) list" where
  "february_plan y = [(''documents'', (y - 1, 9, 1)), (''application'', (y - 1, 10, 15)),
     (''visa'', (y - 1, 12, 15)), (''arrival'', (y, 1, 20))]"

lemma canonical_milestones_plan:
  assumes "canonical_milestones (Some s) = Inr ms"
  shows "ms = map (\<lambda>(n, d). milestone n (Some d)) (february_plan (intake_year s))"
  using assms by (auto simp: canonical_milestones_def february_plan_def Let_def split: if_splits)

lemma record_mutation_fresh:
  assumes "map_of (tl_receipts db) (org, rc1_id rc) = None"
    and "\<not> list_ex (\<lambda>(k, x). fst k = org \<and> rc_actor x = rc_actor rc \<and> rc1_operation x = rc1_operation rc
          \<and> rc_key_sha256 x = rc_key_sha256 rc) (tl_receipts db)"
  obtains db' receipt where "record_mutation org ik response rc db = Inr (db', Some receipt)"
    "tl_executions db' = tl_executions db" "tl_checkpoints db' = tl_checkpoints db"
  using assms by (auto simp: record_mutation_def receipt_json_def Let_def map_add_def)

lemma start_from_february_plan:
  assumes fresh: "start_is_fresh ses r fresh tdb"
    and anchor: "map_of (plan_rows cat) (sq_org r, sq_timeline r) = Some a"
    and part: "participates cat (sq_org r) (pa_case a) (sq_actor r) (sq_role r)"
    and target: "pa_case a = sq_case r" "pa_revision a = sq_revision r"
    and ms: "pa_milestones a = map (\<lambda>(n, d). milestone n (Some d)) (february_plan y)"
  shows "\<exists>tdb' receipt. start_timeline_execution cat ses r fresh now tdb = Inr (tdb', Some receipt)
    \<and> map_of (tl_executions tdb') (sq_org r, sq_execution r) = Some (started_execution r a now)
    \<and> map (\<lambda>c. (cp_milestone c, cp_due c)) (rows_of (sq_org r, sq_execution r) (tl_checkpoints tdb')) = february_plan y
    \<and> map cp_state (rows_of (sq_org r, sq_execution r) (tl_checkpoints tdb'))
        = [CP_IN_PROGRESS, CP_PENDING, CP_PENDING, CP_PENDING]"
proof -
  let ?k = "(sq_org r, sq_execution r)"
  note f = fresh [unfolded start_is_fresh_def]
  have e: "enumerate 1 (pa_milestones a) = [(1, milestone ''documents'' (Some (y - 1, 9, 1))),
      (2, milestone ''application'' (Some (y - 1, 10, 15))), (3, milestone ''visa'' (Some (y - 1, 12, 15))),
      (4, milestone ''arrival'' (Some (y, 1, 20)))]"
    by (simp add: ms february_plan_def numeral_eq_Suc)
  have ok: "\<not> milestone_mismatch (pa_milestones a)"
    by (simp add: ms february_plan_def milestone_mismatch_def milestone_def MILESTONES_def)
  have keyed: "\<not> list_ex (\<lambda>m. ms_key m = None \<or> ms_due m = None) (pa_milestones a)"
    by (simp add: ms february_plan_def milestone_def)
  let ?db1 = "tdb\<lparr>tl_executions := tl_executions tdb @ [(?k, started_execution r a now)]\<rparr>"
  let ?new = "map (\<lambda>(i, m). (?k, new_checkpoint now i (fresh i) (the (ms_key m)) (the (ms_due m))))
      (enumerate 1 (pa_milestones a))"
  let ?db2 = "?db1\<lparr>tl_checkpoints := tl_checkpoints tdb @ ?new\<rparr>"
  have rows: "rows_of ?k (tl_checkpoints tdb) = []"
    using f by (auto simp: rows_of_def list_all_iff filter_empty_conv)
  have "insert_checkpoints ?k fresh (pa_milestones a) now ?db1 = Inr ?db2"
    using f rows keyed unfolding insert_checkpoints_def e by (auto simp: list_all_iff list_ex_iff)
  moreover obtain tdb' receipt where rec: "record_mutation (sq_org r) (start_key r) ''timeline_execution_started''
      (started_receipt r now) ?db2 = Inr (tdb', Some receipt)"
    and same: "tl_executions tdb' = tl_executions ?db2" "tl_checkpoints tdb' = tl_checkpoints ?db2"
  proof (rule record_mutation_fresh)
    show "map_of (tl_receipts ?db2) (sq_org r, rc1_id (started_receipt r now)) = None"
      using f by (auto simp: started_receipt_def list_all_iff map_of_eq_None_iff)
  qed (use f in \<open>auto simp: started_receipt_def list_all_iff list_ex_iff\<close>)
  moreover have "map_of (tl_executions tdb) ?k = None" using f by (auto simp: list_all_iff map_of_eq_None_iff)
  ultimately have "start_timeline_execution cat ses r fresh now tdb = Inr (tdb', Some receipt)"
    using f anchor part target ok by (auto simp: start_timeline_execution_def list_all_iff list_ex_iff)
  moreover have "map_of (tl_executions tdb') ?k = Some (started_execution r a now)"
    using \<open>map_of (tl_executions tdb) ?k = None\<close> by (simp add: same map_add_def)
  moreover have "rows_of ?k (tl_checkpoints tdb') = map (\<lambda>(i, m). new_checkpoint now i (fresh i) (the (ms_key m)) (the (ms_due m)))
      (enumerate 1 (pa_milestones a))"
    using rows unfolding same e by (simp add: rows_of_def)
  ultimately show ?thesis unfolding e
    by (intro exI [of _ tdb'] exI [of _ receipt]) (simp add: new_checkpoint_def milestone_def february_plan_def)
qed

section \<open>From decision to execution\<close>

text \<open>C7: The plan that a family decision leaves can be executed: a family member of the case who asks to start it with
  fresh identifiers gets an active execution that names the decision and its receipt, with the four checkpoints of
  the intake that was pinned, the first one in progress.\<close>

theorem decided_plan_starts:
  assumes "decision_reachable facts db" and "map_of (plans db) (sq_org r, sq_timeline r) = Some p"
    and "map_of (decisions db) (sq_org r, pl_decision p) = Some d"
    and "map_of (cases (base db)) (sq_org r, fd_case d) = Some c"
    and "sq_case r = fd_case d" and "sq_revision r = sc_current_revision c"
    and "plan_rows cat = plan_anchors db" and "participates cat (sq_org r) (fd_case d) (sq_actor r) (sq_role r)"
    and "start_is_fresh ses r fresh tdb"
  shows "\<exists>tdb' receipt e. start_timeline_execution cat ses r fresh now tdb = Inr (tdb', Some receipt)
    \<and> map_of (tl_executions tdb') (sq_org r, sq_execution r) = Some e \<and> ev1_state e = TE_ACTIVE
    \<and> ev1_decision e = pl_decision p \<and> ev1_receipt e = fd_receipt d \<and> ev1_case e = fd_case d
    \<and> map (\<lambda>c. (cp_milestone c, cp_due c)) (rows_of (sq_org r, sq_execution r) (tl_checkpoints tdb'))
        = february_plan (intake_year (pl_intake p))
    \<and> map cp_state (rows_of (sq_org r, sq_execution r) (tl_checkpoints tdb'))
        = [CP_IN_PROGRESS, CP_PENDING, CP_PENDING, CP_PENDING]"
proof -
  note inv = decision_reachable_invariant [OF assms(1)]
  obtain b i q where q: "map_of (plans db) (sq_org r, i) = Some q" "pl_decision q = pl_decision p" "plan_ok b q"
    using decision_invariantD(2) [OF inv assms(3)] unfolding decision_ok_def by auto
  from unique_byD [OF decision_invariantD(8) [OF inv] q(1) assms(2) _ q(2)] have "q = p"
    using q(1) assms(2) by simp
  with q(3) have "canonical_milestones (Some (pl_intake p)) = Inr (pl_milestones p)" unfolding plan_ok_def by blast
  then have ms: "pl_milestones p = map (\<lambda>(n, d). milestone n (Some d)) (february_plan (intake_year (pl_intake p)))"
    by (rule canonical_milestones_plan)
  let ?a = "\<lparr>pa_milestones = pl_milestones p, pa_decision = pl_decision p, pa_receipt = fd_receipt d,
     pa_case = fd_case d, pa_revision = sc_current_revision c\<rparr>"
  have "map_of (plan_rows cat) (sq_org r, sq_timeline r) = Some ?a"
    unfolding assms(7) plan_anchors_def
    by (rule map_of_concat_keyed [OF assms(2)]) (use assms(3,4) anchors_keyed in \<open>auto simp: anchors_of_plan_def\<close>)
  from start_from_february_plan [OF assms(9) this, of "intake_year (pl_intake p)" now] assms(5,6,8) ms
  show ?thesis by (auto simp: started_execution_def)
qed

definition family_start :: start_request where
  "family_start = \<lparr>sq_org = 1, sq_actor = 7, sq_role = ''parent'', sq_timeline = 640, sq_case = 10, sq_revision = 1,
     sq_execution = 650, sq_receipt = 660, sq_key_hash = demo_hash CHR ''1'', sq_request_hash = demo_hash CHR ''2''\<rparr>"

definition family_catalog :: timeline_catalog where
  "family_catalog = \<lparr>plan_rows = plan_anchors family_decided, participates = family_members,
     trigger_sha256 = (\<lambda>t i e c st d today. demo_hash CHR ''3'')\<rparr>"

theorem decided_plan_starts_witness:
  "\<exists>tdb' receipt. start_timeline_execution family_catalog family_session family_start int 0 empty_timeline_db
        = Inr (tdb', Some receipt)
     \<and> map (\<lambda>c. (cp_milestone c, cp_due c)) (rows_of (1, 650) (tl_checkpoints tdb')) = february_plan 2027"
proof -
  let ?p = "the (map_of (plans family_decided) (1, 640))" and ?d = "the (map_of (decisions family_decided) (1, 620))"
    and ?c = "the (map_of (cases (base family_decided)) (1, 10))"
  have "let db = family_decided; p = the (map_of (plans db) (1, 640)); d = the (map_of (decisions db) (1, 620));
      c = the (map_of (cases (base db)) (1, 10)) in
    map_of (plans db) (sq_org family_start, sq_timeline family_start) = Some p
    \<and> map_of (decisions db) (sq_org family_start, pl_decision p) = Some d
    \<and> map_of (cases (base db)) (sq_org family_start, fd_case d) = Some c
    \<and> sq_case family_start = fd_case d \<and> sq_revision family_start = sc_current_revision c
    \<and> intake_year (pl_intake p) = 2027
    \<and> family_members (sq_org family_start) (fd_case d) (sq_actor family_start) (sq_role family_start)" by code_simp
  then have rows: "map_of (plans family_decided) (sq_org family_start, sq_timeline family_start) = Some ?p"
    "map_of (decisions family_decided) (sq_org family_start, pl_decision ?p) = Some ?d"
    "map_of (cases (base family_decided)) (sq_org family_start, fd_case ?d) = Some ?c"
    "sq_case family_start = fd_case ?d" "sq_revision family_start = sc_current_revision ?c"
    "intake_year (pl_intake ?p) = 2027"
    and part: "family_members (sq_org family_start) (fd_case ?d) (sq_actor family_start) (sq_role family_start)"
    unfolding Let_def by blast+
  have cat: "plan_rows family_catalog = plan_anchors family_decided" by (simp add: family_catalog_def)
  have part: "participates family_catalog (sq_org family_start) (fd_case ?d) (sq_actor family_start) (sq_role family_start)"
    using part by (simp add: family_catalog_def)
  have fresh: "start_is_fresh family_session family_start int empty_timeline_db" by code_simp
  have k: "sq_org family_start = 1" "sq_execution family_start = 650" by (simp_all add: family_start_def)
  from decided_plan_starts [OF family_reachable(4) rows(1-5) cat part fresh, of 0] show ?thesis
    unfolding rows(6) k by blast
qed

end
