(* ===== verification/Collaboration_Text.thy ===== *)
theory Collaboration_Text
  imports Decision
begin

text \<open>
  The checks of free text of the collaboration: regular expressions with a matcher, the patterns of
  \<open>collaboration/models.py\<close> and those of the SQL functions (0007, 0017).  Texts are ASCII: their length in
  bytes is their length, and a control character is one below 32 or 127.
\<close>

section \<open>Regular expressions\<close>

text \<open>A position is the character before it, if any, and the text behind it.\<close>

type_synonym position = "char option \<times> string"

datatype rx =
    Rx_class "char \<Rightarrow> bool"
  | Rx_empty
  | Rx_start
  | Rx_word_boundary
  | Rx_cat rx rx
  | Rx_alt rx rx
  | Rx_star rx

definition is_word :: "char \<Rightarrow> bool" where
  "is_word c \<longleftrightarrow> (let n = of_char c :: nat in
     48 \<le> n \<and> n \<le> 57 \<or> 65 \<le> n \<and> n \<le> 90 \<or> n = 95 \<or> 97 \<le> n \<and> n \<le> 122)"

definition at_boundary :: "position \<Rightarrow> bool" where
  "at_boundary p \<longleftrightarrow>
     (case fst p of None \<Rightarrow> False | Some c \<Rightarrow> is_word c) \<noteq> (case snd p of [] \<Rightarrow> False | c # _ \<Rightarrow> is_word c)"

text \<open>Repeating a match as long as it consumes text.\<close>

fun repeat_match :: "(position \<Rightarrow> position list) \<Rightarrow> nat \<Rightarrow> position \<Rightarrow> position list" where
  "repeat_match f 0 p = [p]"
| "repeat_match f (Suc n) p =
     p # concat (map (repeat_match f n) (filter (\<lambda>q. length (snd q) < length (snd p)) (f p)))"

text \<open>The positions behind the matches that start at a position.\<close>

primrec matches :: "rx \<Rightarrow> position \<Rightarrow> position list" where
  "matches (Rx_class f) p = (case snd p of [] \<Rightarrow> [] | c # cs \<Rightarrow> if f c then [(Some c, cs)] else [])"
| "matches Rx_empty p = [p]"
| "matches Rx_start p = (if fst p = None then [p] else [])"
| "matches Rx_word_boundary p = (if at_boundary p then [p] else [])"
| "matches (Rx_cat a b) p = concat (map (matches b) (matches a p))"
| "matches (Rx_alt a b) p = matches a p @ matches b p"
| "matches (Rx_star a) p = repeat_match (matches a) (length (snd p)) p"

fun positions :: "char option \<Rightarrow> string \<Rightarrow> position list" where
  "positions pv [] = [(pv, [])]"
| "positions pv (c # cs) = (pv, c # cs) # positions (Some c) cs"

definition rx_search :: "rx \<Rightarrow> string \<Rightarrow> bool" where
  "rx_search r s \<longleftrightarrow> list_ex (\<lambda>p. matches r p \<noteq> []) (positions None s)"

definition rx_fullmatch :: "rx \<Rightarrow> string \<Rightarrow> bool" where
  "rx_fullmatch r s \<longleftrightarrow> list_ex (\<lambda>q. snd q = []) (matches r (None, s))"

section \<open>Writing patterns\<close>

definition lower_char :: "char \<Rightarrow> char" where
  "lower_char c = (let n = of_char c :: nat in if 65 \<le> n \<and> n \<le> 90 then char_of (n + 32) else c)"

definition one_of :: "string \<Rightarrow> rx" where
  "one_of cs = Rx_class (\<lambda>c. c \<in> set cs)"

definition none_of :: "string \<Rightarrow> (char \<Rightarrow> bool) \<Rightarrow> rx" where
  "none_of cs f = Rx_class (\<lambda>c. c \<notin> set cs \<and> \<not> f c)"

definition in_range :: "char \<Rightarrow> char \<Rightarrow> char \<Rightarrow> bool" where
  "in_range a b c \<longleftrightarrow> (of_char a :: nat) \<le> of_char c \<and> (of_char c :: nat) \<le> of_char b"

definition is_letter :: "char \<Rightarrow> bool" where
  "is_letter c \<longleftrightarrow> in_range (CHR ''a'') (CHR ''z'') c \<or> in_range (CHR ''A'') (CHR ''Z'') c"

primrec lit :: "string \<Rightarrow> rx" where
  "lit [] = Rx_empty"
| "lit (c # cs) = Rx_cat (Rx_class (\<lambda>x. x = c)) (lit cs)"

text \<open>A literal without regard to case.\<close>

primrec lit_ci :: "string \<Rightarrow> rx" where
  "lit_ci [] = Rx_empty"
| "lit_ci (c # cs) = Rx_cat (Rx_class (\<lambda>x. lower_char x = lower_char c)) (lit_ci cs)"

primrec sequence_of :: "rx list \<Rightarrow> rx" where
  "sequence_of [] = Rx_empty"
| "sequence_of (r # rs) = (if rs = [] then r else Rx_cat r (sequence_of rs))"

fun choice_of :: "rx list \<Rightarrow> rx" where
  "choice_of [] = Rx_class (\<lambda>c. False)"
| "choice_of [r] = r"
| "choice_of (r # rs) = Rx_alt r (choice_of rs)"

definition rx_opt :: "rx \<Rightarrow> rx" where
  "rx_opt r = Rx_alt r Rx_empty"

definition rx_plus :: "rx \<Rightarrow> rx" where
  "rx_plus r = Rx_cat r (Rx_star r)"

definition is_control :: "char \<Rightarrow> bool" where
  "is_control c \<longleftrightarrow> (of_char c :: nat) < 32 \<or> (of_char c :: nat) = 127"

text \<open>\<open>[[:space:]]\<close>; \<open>is_space\<close> is \<open>\s\<close> of Python, with the four separators.\<close>

definition posix_space :: "char \<Rightarrow> bool" where
  "posix_space c \<longleftrightarrow> (of_char c :: nat) \<in> {9, 10, 11, 12, 13, 32}"

definition BACKSLASH :: char where
  "BACKSLASH = char_of (92 :: nat)"

section \<open>The patterns\<close>

definition secret_words :: rx where
  "secret_words = choice_of [
     sequence_of [lit_ci ''api'', rx_opt (one_of ''_-''), lit_ci ''key''], lit_ci ''password'', lit_ci ''passwd'',
     lit_ci ''secret'', sequence_of [lit_ci ''access'', rx_opt (one_of ''_-''), lit_ci ''token''], lit_ci ''bearer'']"

definition secret_assignment :: "(char \<Rightarrow> bool) \<Rightarrow> rx" where
  "secret_assignment space = sequence_of [secret_words, Rx_star (Rx_class space), one_of '':='']"

text \<open>\<open>(?i)\<close> covers the second alternative of the Python pattern too.\<close>

definition private_key :: rx where
  "private_key = sequence_of [lit ''-----BEGIN '', Rx_star (Rx_class (\<lambda>c. in_range (CHR ''A'') (CHR ''Z'') c \<or> c = CHR '' '')),
     lit ''PRIVATE KEY-----'']"

definition private_key_ci :: rx where
  "private_key_ci = sequence_of [lit_ci ''-----BEGIN '', Rx_star (Rx_class (\<lambda>c. is_letter c \<or> c = CHR '' '')),
     lit_ci ''PRIVATE KEY-----'']"

definition SECRET_PATTERN :: rx where
  "SECRET_PATTERN = Rx_alt (secret_assignment is_space) private_key_ci"

definition URL_PATTERN :: rx where
  "URL_PATTERN = sequence_of [Rx_word_boundary,
     choice_of [sequence_of [lit_ci ''http'', rx_opt (lit_ci ''s'')], lit_ci ''file'', lit_ci ''ftp'', lit_ci ''ssh''],
     lit ''://'', rx_plus (none_of [] is_space)]"

definition FILE_URL_PATTERN :: rx where
  "FILE_URL_PATTERN = lit_ci ''file://''"

definition URL_CREDENTIAL_PATTERN :: rx where
  "URL_CREDENTIAL_PATTERN = sequence_of [Rx_word_boundary,
     choice_of [sequence_of [lit_ci ''http'', rx_opt (lit_ci ''s'')], lit_ci ''ftp'', lit_ci ''ssh''], lit ''://'',
     rx_plus (none_of ''/:@'' is_space), lit '':'', rx_plus (none_of ''/@'' is_space), lit ''@'',
     rx_plus (none_of ''/'' is_space)]"

definition local_directories :: rx where
  "local_directories = choice_of (map lit [''Users'', ''home'', ''etc'', ''private'', ''var'', ''tmp''])"

definition local_path :: "(char \<Rightarrow> bool) \<Rightarrow> rx" where
  "local_path space = sequence_of [Rx_alt Rx_start (Rx_class space),
     Rx_alt (sequence_of [lit ''/'', local_directories, lit ''/'', rx_plus (none_of [] space)])
       (sequence_of [Rx_class is_letter, lit '':'', lit [BACKSLASH], rx_plus (none_of [] space)])]"

definition LOCAL_PATH_PATTERN :: rx where
  "LOCAL_PATH_PATTERN = local_path is_space"

definition shell_words :: "string list" where
  "shell_words = [''sudo'', ''rm'', ''bash'', ''sh'', ''zsh'', ''curl'', ''wget'', ''python'']"

definition shell_syntax :: rx where
  "shell_syntax = choice_of (map lit [[CHR 0x60], ''$('', ''&&'', ''||''])"

definition shell_command :: "(string \<Rightarrow> rx) \<Rightarrow> (char \<Rightarrow> bool) \<Rightarrow> rx" where
  "shell_command literal space = sequence_of [Rx_alt Rx_start (Rx_class space), choice_of (map literal shell_words),
     rx_plus (Rx_class space)]"

definition SHELL_PATTERN :: rx where
  "SHELL_PATTERN = Rx_alt shell_syntax (shell_command lit is_space)"

section \<open>The two checks of a text\<close>

fun nat_text :: "nat \<Rightarrow> string" where
  "nat_text n = (if n < 10 then [] else nat_text (n div 10)) @ [char_of (48 + n mod 10)]"

declare nat_text.simps [simp del]

definition validate_safe_text :: "string \<Rightarrow> nat \<Rightarrow> string \<Rightarrow> bool \<Rightarrow> string result" where
  "validate_safe_text value maximum_bytes label reject_plain_urls =
     (if \<not> (1 \<le> length value \<and> length value \<le> maximum_bytes) then
        Inl (ValueError (label @ '' must be 1..'' @ nat_text maximum_bytes @ '' UTF-8 bytes''))
      else if list_ex is_control value then Inl (ValueError (label @ '' contains a control character''))
      else if rx_search SECRET_PATTERN value then Inl (ValueError (label @ '' contains credential material''))
      else if reject_plain_urls \<and> rx_search URL_PATTERN value \<or> rx_search FILE_URL_PATTERN value
              \<or> rx_search URL_CREDENTIAL_PATTERN value then Inl (ValueError (label @ '' contains a URL''))
      else if rx_search LOCAL_PATH_PATTERN value then Inl (ValueError (label @ '' contains a local path''))
      else if rx_search SHELL_PATTERN value then Inl (ValueError (label @ '' contains executable structure''))
      else Inr value)"

definition validate_message_body :: "string \<Rightarrow> string result" where
  "validate_message_body value = validate_safe_text value 4096 ''message body'' False"

text \<open>\<open>[a-z][a-z0-9+.-]*://[^[:space:]/]+:[^[:space:]@]+@\<close> without regard to case.\<close>

definition sql_url_credentials :: rx where
  "sql_url_credentials = sequence_of [Rx_class is_letter,
     Rx_star (Rx_class (\<lambda>c. is_letter c \<or> in_range (CHR ''0'') (CHR ''9'') c \<or> c \<in> set ''+.-'')), lit ''://'',
     rx_plus (none_of ''/'' posix_space), lit '':'', rx_plus (none_of ''@'' posix_space), lit ''@'']"

definition sql_common :: "string \<Rightarrow> bool" where
  "sql_common s \<longleftrightarrow>
     list_ex is_control s \<or> rx_search (secret_assignment posix_space) s \<or> rx_search private_key s
     \<or> rx_search shell_syntax s \<or> rx_search (shell_command lit_ci posix_space) s"

definition unsafe_message :: "string \<Rightarrow> bool" where
  "unsafe_message s \<longleftrightarrow>
     \<not> (1 \<le> length s \<and> length s \<le> 4096) \<or> sql_common s
     \<or> rx_search (local_path posix_space) s \<or> rx_search (lit ''file://'') (map lower_char s)
     \<or> rx_search sql_url_credentials s"

text \<open>\<open>/(Users|home|etc|private|var|tmp)/|file://|[A-Za-z]:\\|://\<close>\<close>

definition sql_reference :: rx where
  "sql_reference = choice_of [sequence_of [lit ''/'', local_directories, lit ''/''], lit ''file://'',
     sequence_of [Rx_class is_letter, lit '':'', lit [BACKSLASH]], lit ''://'']"

definition unsafe_value :: "nat \<Rightarrow> string \<Rightarrow> bool" where
  "unsafe_value maximum_bytes s \<longleftrightarrow>
     \<not> (1 \<le> length s \<and> length s \<le> maximum_bytes) \<or> sql_common s \<or> rx_search sql_reference s"

end
