(* ===== verification/Collaboration_Models.thy ===== *)
theory Collaboration_Models
  imports Collaboration_Text Store
begin

text \<open>
  \<open>collaboration/models.py\<close> and \<open>policy.py\<close>: fact keys, the six typed proposals with their validators, the state of a
  candidate and the application of a fact to a case revision; and \<open>app.validate_collaboration_fact\<close> (0017) over
  \<open>jsonb\<close>.  A \<open>jsonb\<close> number keeps its scale; the keys of an object are distinct.
\<close>

section \<open>Facts\<close>

datatype fact_key =
    STUDENT_INTENDED_FIELD
  | STUDENT_PREFERRED_COUNTRIES
  | STUDENT_INTAKE
  | FAMILY_RISK_TOLERANCE
  | FAMILY_JAPAN_RISK_ACCEPTED
  | FAMILY_BUDGET

fun fact_key_value :: "fact_key \<Rightarrow> string" where
  "fact_key_value STUDENT_INTENDED_FIELD = ''student.intended_field''"
| "fact_key_value STUDENT_PREFERRED_COUNTRIES = ''student.preferred_countries''"
| "fact_key_value STUDENT_INTAKE = ''student.intake''"
| "fact_key_value FAMILY_RISK_TOLERANCE = ''family.risk_tolerance''"
| "fact_key_value FAMILY_JAPAN_RISK_ACCEPTED = ''family.japan_risk_accepted''"
| "fact_key_value FAMILY_BUDGET = ''family.budget''"

definition FACT_KEYS :: "fact_key list" where
  "FACT_KEYS = [STUDENT_INTENDED_FIELD, STUDENT_PREFERRED_COUNTRIES, STUDENT_INTAKE, FAMILY_RISK_TOLERANCE,
     FAMILY_JAPAN_RISK_ACCEPTED, FAMILY_BUDGET]"

definition fact_key_of :: "string \<Rightarrow> fact_key option" where
  "fact_key_of s = find (\<lambda>k. fact_key_value k = s) FACT_KEYS"

fun ROLE_FACTS :: "string \<Rightarrow> fact_key set option" where
  "ROLE_FACTS r =
     (if r = ''advisor'' then Some {}
      else if r = ''student'' then Some {STUDENT_INTENDED_FIELD, STUDENT_PREFERRED_COUNTRIES, STUDENT_INTAKE}
      else if r = ''parent'' then Some {FAMILY_RISK_TOLERANCE, FAMILY_JAPAN_RISK_ACCEPTED, FAMILY_BUDGET}
      else None)"

definition role_allows_fact :: "string \<Rightarrow> string \<Rightarrow> bool" where
  "role_allows_fact r k =
     (case (ROLE_FACTS r, fact_key_of k) of (Some ks, Some fk) \<Rightarrow> fk \<in> ks | _ \<Rightarrow> False)"

datatype candidate_state = PENDING | STALE | EXPIRED | CONFIRMED | REJECTED

datatype verification_decision = CONFIRM | REJECT_CANDIDATE

definition project_candidate_state ::
  "verification_decision option \<Rightarrow> int \<Rightarrow> int \<Rightarrow> timestamp \<Rightarrow> timestamp \<Rightarrow> candidate_state" where
  "project_candidate_state decision pinned_revision current_revision expires_at now =
     (if decision = Some CONFIRM then CONFIRMED
      else if decision = Some REJECT_CANDIDATE then REJECTED
      else if pinned_revision \<noteq> current_revision then STALE
      else if now \<ge> expires_at then EXPIRED
      else PENDING)"

text \<open>A proposal: the fact key is the constructor.\<close>

datatype fact_proposal =
    IntendedFieldProposal string
  | PreferredCountriesProposal "country list"
  | IntakeProposal string
  | RiskToleranceProposal risk_tolerance
  | JapanRiskAcceptedProposal bool
  | BudgetProposal budget_envelope

fun proposal_key :: "fact_proposal \<Rightarrow> fact_key" where
  "proposal_key (IntendedFieldProposal v) = STUDENT_INTENDED_FIELD"
| "proposal_key (PreferredCountriesProposal v) = STUDENT_PREFERRED_COUNTRIES"
| "proposal_key (IntakeProposal v) = STUDENT_INTAKE"
| "proposal_key (RiskToleranceProposal v) = FAMILY_RISK_TOLERANCE"
| "proposal_key (JapanRiskAcceptedProposal v) = FAMILY_JAPAN_RISK_ACCEPTED"
| "proposal_key (BudgetProposal v) = FAMILY_BUDGET"

definition validate_countries :: "country list \<Rightarrow> country list result" where
  "validate_countries cs =
     (if cs = [] then Inl (ValueError ''preferred countries must not be empty'')
      else if card (set cs) \<noteq> length cs then Inl (ValueError ''preferred countries must be unique'')
      else if cs \<noteq> sort cs then Inl (ValueError ''preferred countries must be sorted'')
      else Inr cs)"

definition calendar_month :: rx where
  "calendar_month =
     (let digit = Rx_class (in_range (CHR ''0'') (CHR ''9'')) in
      sequence_of [digit, digit, digit, digit, lit ''-'',
        Rx_alt (Rx_cat (lit ''0'') (Rx_class (in_range (CHR ''1'') (CHR ''9''))))
          (Rx_cat (lit ''1'') (Rx_class (in_range (CHR ''0'') (CHR ''2''))))])"

definition validate_intake :: "string \<Rightarrow> string result" where
  "validate_intake value =
     bind_result (validate_safe_text value 160 ''fact value'' True) (\<lambda>v.
       if \<not> rx_fullmatch calendar_month v \<or> take 4 v = ''0000'' then
         Inl (ValueError ''intake must be a valid calendar month in YYYY-MM'')
       else Inr v)"

fun valid_proposal :: "fact_proposal \<Rightarrow> fact_proposal result" where
  "valid_proposal (IntendedFieldProposal v) =
     bind_result (validate_safe_text v 160 ''fact value'' True) (\<lambda>v. Inr (IntendedFieldProposal v))"
| "valid_proposal (PreferredCountriesProposal v) =
     bind_result (validate_countries v) (\<lambda>v. Inr (PreferredCountriesProposal v))"
| "valid_proposal (IntakeProposal v) = bind_result (validate_intake v) (\<lambda>v. Inr (IntakeProposal v))"
| "valid_proposal (RiskToleranceProposal v) = Inr (RiskToleranceProposal v)"
| "valid_proposal (JapanRiskAcceptedProposal v) = Inr (JapanRiskAcceptedProposal v)"
| "valid_proposal (BudgetProposal v) =
     (if valid_budget_envelope v then Inr (BudgetProposal v) else Inl (ValueError ''field''))"

text \<open>Building the preferences runs their validators again.\<close>

definition mk_student :: "student_preferences \<Rightarrow> student_preferences result" where
  "mk_student s = (if valid_student_preferences s then Inr s else Inl (ValueError ''field''))"

definition mk_family :: "family_preferences \<Rightarrow> family_preferences result" where
  "mk_family f = (if valid_family_preferences f then Inr f else Inl (ValueError ''field''))"

definition next_case_revision ::
  "student_case_revision \<Rightarrow> student_preferences \<Rightarrow> family_preferences \<Rightarrow> student_case_revision result" where
  "next_case_revision r s f =
     (let r' = r\<lparr>revision := revision r + 1, student := s, family := f\<rparr> in
      if valid_student_case_revision r' then Inr r' else Inl (ValueError ''field''))"

fun apply_confirmed_fact :: "student_case_revision \<Rightarrow> fact_proposal \<Rightarrow> student_case_revision result" where
  "apply_confirmed_fact r (IntendedFieldProposal v) =
     bind_result (mk_student ((student r)\<lparr>intended_field := v\<rparr>)) (\<lambda>s. next_case_revision r s (family r))"
| "apply_confirmed_fact r (PreferredCountriesProposal v) =
     bind_result (mk_student ((student r)\<lparr>preferred_countries := v\<rparr>)) (\<lambda>s. next_case_revision r s (family r))"
| "apply_confirmed_fact r (IntakeProposal v) =
     bind_result (mk_student ((student r)\<lparr>intake := v\<rparr>)) (\<lambda>s. next_case_revision r s (family r))"
| "apply_confirmed_fact r (RiskToleranceProposal v) =
     bind_result (mk_family ((family r)\<lparr>risk_tolerance := v\<rparr>)) (\<lambda>f. next_case_revision r (student r) f)"
| "apply_confirmed_fact r (JapanRiskAcceptedProposal v) =
     bind_result (mk_family ((family r)\<lparr>japan_risk_accepted := v\<rparr>)) (\<lambda>f. next_case_revision r (student r) f)"
| "apply_confirmed_fact r (BudgetProposal v) =
     bind_result (mk_family ((family r)\<lparr>budget := v\<rparr>)) (\<lambda>f. next_case_revision r (student r) f)"

section \<open>\<open>jsonb\<close>\<close>

datatype jsonb =
    Jb_null
  | Jb_bool bool
  | Jb_number decimal
  | Jb_string string
  | Jb_array "jsonb list"
  | Jb_object "(string \<times> jsonb) list"

fun jb_get :: "jsonb \<Rightarrow> string \<Rightarrow> jsonb option" where
  "jb_get (Jb_object items) k = map_of items k"
| "jb_get _ k = None"

fun jb_keys :: "jsonb \<Rightarrow> string list" where
  "jb_keys (Jb_object items) = map fst items"
| "jb_keys _ = []"

text \<open>\<open>jsonb_set(value,'{k}',v,true)\<close> on an object.\<close>

fun jb_set :: "jsonb \<Rightarrow> string \<Rightarrow> jsonb \<Rightarrow> jsonb" where
  "jb_set (Jb_object items) k v = Jb_object (AList.update k v items)"
| "jb_set j k v = j"

text \<open>A number whose text is an integer: one without fractional digits.\<close>

fun jb_integer :: "jsonb option \<Rightarrow> int option" where
  "jb_integer (Some (Jb_number d)) =
     (if 0 \<le> exponent d then Some (coefficient d * 10 ^ nat (exponent d)) else None)"
| "jb_integer _ = None"

fun jb_string :: "jsonb option \<Rightarrow> string option" where
  "jb_string (Some (Jb_string s)) = Some s"
| "jb_string _ = None"

fun jb_bool :: "jsonb option \<Rightarrow> bool option" where
  "jb_bool (Some (Jb_bool b)) = Some b"
| "jb_bool _ = None"

section \<open>\<open>app.validate_collaboration_fact\<close>\<close>

definition sql_role_fact :: "string \<Rightarrow> string \<Rightarrow> bool" where
  "sql_role_fact r k \<longleftrightarrow>
     (r = ''student'' \<and> k \<in> {''student.intended_field'', ''student.preferred_countries'', ''student.intake''}
      \<or> r = ''parent'' \<and> k \<in> {''family.risk_tolerance'', ''family.japan_risk_accepted'', ''family.budget''})"

text \<open>The \<open>jsonb\<close> array of its own texts in order, without repetition.\<close>

definition sql_countries_ok :: "jsonb \<Rightarrow> bool" where
  "sql_countries_ok j \<longleftrightarrow>
     (case j of
        Jb_array items \<Rightarrow>
          1 \<le> length items \<and> length items \<le> 3
          \<and> list_all (\<lambda>x. case x of Jb_string s \<Rightarrow> s \<in> {''australia'', ''japan'', ''malaysia''} | _ \<Rightarrow> False) items
          \<and> distinct items
          \<and> (let texts = map (\<lambda>x. the (jb_string (Some x))) items in texts = sort texts)
      | _ \<Rightarrow> False)"

definition sql_budget_ok :: "jsonb \<Rightarrow> bool" where
  "sql_budget_ok j \<longleftrightarrow>
     (case j of Jb_object items \<Rightarrow> True | _ \<Rightarrow> False) \<and> length (jb_keys j) = 7
     \<and> set [''schema_version'', ''currency'', ''period'', ''preferred_minor'', ''hard_ceiling_minor'',
            ''elasticity_bps'', ''refused''] \<subseteq> set (jb_keys j)
     \<and> jb_integer (jb_get j ''schema_version'') = Some 1
     \<and> jb_string (jb_get j ''currency'') = Some ''CNY''
     \<and> jb_string (jb_get j ''period'') = Some ''program_total''
     \<and> (case jb_integer (jb_get j ''elasticity_bps'') of None \<Rightarrow> False | Some n \<Rightarrow> 0 \<le> n \<and> n \<le> 2500)
     \<and> (case jb_bool (jb_get j ''refused'') of
          None \<Rightarrow> False
        | Some True \<Rightarrow> jb_get j ''preferred_minor'' = Some Jb_null \<and> jb_get j ''hard_ceiling_minor'' = Some Jb_null
        | Some False \<Rightarrow>
            (case (jb_integer (jb_get j ''preferred_minor''), jb_integer (jb_get j ''hard_ceiling_minor'')) of
               (Some p, Some h) \<Rightarrow> 0 < p \<and> 0 < h \<and> p \<le> h
             | _ \<Rightarrow> False))"

definition validate_collaboration_fact :: "string \<Rightarrow> string \<Rightarrow> jsonb option \<Rightarrow> sql_error + unit" where
  "validate_collaboration_fact r k stored =
     (case stored of None \<Rightarrow> Inl NV006
      | Some j \<Rightarrow>
        if \<not> sql_role_fact r k then Inl NV006
        else if k = ''student.intended_field'' then
          (case j of Jb_string s \<Rightarrow> ensure (\<not> unsafe_value 160 s) NV006 | _ \<Rightarrow> Inl NV006)
        else if k = ''student.preferred_countries'' then ensure (sql_countries_ok j) NV006
        else if k = ''student.intake'' then
          (case j of
             Jb_string s \<Rightarrow> ensure (rx_fullmatch calendar_month s \<and> take 4 s \<noteq> ''0000'') NV006
           | _ \<Rightarrow> Inl NV006)
        else if k = ''family.risk_tolerance'' then
          (case j of Jb_string s \<Rightarrow> ensure (s \<in> {''low'', ''medium'', ''high''}) NV006 | _ \<Rightarrow> Inl NV006)
        else if k = ''family.japan_risk_accepted'' then
          (case j of Jb_bool b \<Rightarrow> Inr () | _ \<Rightarrow> Inl NV006)
        else ensure (sql_budget_ok j) NV006)"

end
