(* ===== verification/Collaboration_Authority.thy ===== *)
theory Collaboration_Authority
  imports Collaboration_Models Decision_Authority
begin

text \<open>
  The SQL functions that own threads, messages, candidates and confirmed facts (0007, with
  \<open>app.verify_memory_candidate\<close> and \<open>app.assert_controlled_intake_source\<close> of 0017 and \<open>app.publish_case_revision\<close>
  of 0002), over the tables of 0007, the case revisions and the database of the decision authority.  Participants
  are an argument of each call, the rows of the controlled source pack the record \<open>intake_sources\<close>.  A candidate is
  proposed by its subject: the two are one pair of columns.  The kind of an idempotent response is the one of its
  operation.  Locks are left out: a call is one step.
\<close>

section \<open>Rows\<close>

record thread_row =
  th_case :: uuid
  th_created_by :: uuid
  th_created_at :: timestamp

record message_row =
  me_thread :: uuid
  me_case :: uuid
  me_sequence :: int
  me_actor :: uuid
  me_role :: string
  me_body :: string
  me_content_sha256 :: sha
  me_request_sha256 :: sha
  me_created_at :: timestamp

record candidate_row =
  ca_case :: uuid
  ca_revision :: int
  ca_message :: uuid
  ca_subject :: uuid
  ca_role :: string
  ca_key :: string
  ca_value :: jsonb
  ca_value_sha256 :: sha
  ca_request_sha256 :: sha
  ca_created_at :: timestamp
  ca_expires_at :: timestamp

record verification_row =
  ve_candidate :: uuid
  ve_case :: uuid
  ve_advisor :: uuid
  ve_decision :: string
  ve_reason :: string
  ve_request_sha256 :: sha
  ve_fact :: "uuid option"
  ve_revision :: "int option"

record fact_row =
  cf_case :: uuid
  cf_key :: string
  cf_value :: jsonb
  cf_value_sha256 :: sha
  cf_candidate :: uuid
  cf_message :: uuid
  cf_subject :: uuid
  cf_role :: string
  cf_advisor :: uuid
  cf_supersedes :: "uuid option"
  cf_version :: int
  cf_confirmed_at :: timestamp

record revision_row =
  rv_student :: jsonb
  rv_family :: jsonb
  rv_review :: "uuid option"
  rv_superseded :: "uuid option"

record collaboration_db =
  core :: decision_db
  threads :: "(row_key \<times> thread_row) list"
  messages :: "(row_key \<times> message_row) list"
  candidates :: "(row_key \<times> candidate_row) list"
  verifications :: "(row_key \<times> verification_row) list"
  confirmed :: "(row_key \<times> fact_row) list"
  revision_rows :: "((row_key \<times> int) \<times> revision_row) list"
  fact_refs :: "(((row_key \<times> int) \<times> string) \<times> uuid) list"

definition empty_collaboration_db :: collaboration_db where
  "empty_collaboration_db = \<lparr>core = empty_decision_db, threads = [], messages = [], candidates = [],
     verifications = [], confirmed = [], revision_rows = [], fact_refs = []\<rparr>"

abbreviation case_rows :: "collaboration_db \<Rightarrow> (row_key \<times> student_case) list" where
  "case_rows db \<equiv> cases (base (core db))"

abbreviation run_rows :: "collaboration_db \<Rightarrow> (row_key \<times> planning_run) list" where
  "run_rows db \<equiv> runs (base (core db))"

section \<open>Shared statements\<close>

definition assert_collaboration_context :: "session \<Rightarrow> uuid \<Rightarrow> uuid \<Rightarrow> string \<Rightarrow> sql_error + unit" where
  "assert_collaboration_context ses org actor rl =
     (if rl \<notin> {''advisor'', ''student'', ''parent''} then Inl NV007
      else assert_m3b_context ses org actor rl)"

definition validate_collaboration_message :: "string \<Rightarrow> sql_error + unit" where
  "validate_collaboration_message body = ensure (\<not> unsafe_message body) NV006"

definition recalled :: "idem_key \<Rightarrow> collaboration_db \<Rightarrow> idem_record option" where
  "recalled k db = map_of (idempotency (base (core db))) k"

definition remember_call :: "idem_key \<Rightarrow> sha \<Rightarrow> uuid \<Rightarrow> collaboration_db \<Rightarrow> collaboration_db" where
  "remember_call k hash response db = db\<lparr>core := remember k hash response (core db)\<rparr>"

text \<open>The stored answer to a repeated call.\<close>

definition replay :: "idem_record \<Rightarrow> sha \<Rightarrow> (uuid \<Rightarrow> 'r option) \<Rightarrow> sql_error + 'r" where
  "replay prior hash lookup =
     (if ir_request_sha256 prior \<noteq> hash then Inl NV008
      else case lookup (ir_response_id prior) of None \<Rightarrow> Inl RAISE_EXCEPTION | Some row \<Rightarrow> Inr row)"

definition int4 :: "int \<Rightarrow> sql_error + int" where
  "int4 n = (if - (2 ^ 31) \<le> n \<and> n < 2 ^ 31 then Inr n else Inl NUMERIC_OUT_OF_RANGE)"

section \<open>Threads\<close>

record thread_request =
  tr_org :: uuid
  tr_actor :: uuid
  tr_role :: string
  tr_case :: uuid
  tr_thread :: uuid
  tr_request_hash :: sha
  tr_key_hash :: sha

definition thread_key :: "thread_request \<Rightarrow> idem_key" where
  "thread_key r = idem_key_of ''collaboration_thread_create'' (tr_org r) (tr_actor r) (tr_key_hash r)"

type_synonym 'r answer = "(uuid \<times> 'r) \<times> bool"

definition create_collaboration_thread ::
  "participants \<Rightarrow> session \<Rightarrow> thread_request \<Rightarrow> timestamp \<Rightarrow> collaboration_db
     \<Rightarrow> sql_error + collaboration_db \<times> thread_row answer" where
  "create_collaboration_thread part ses r now db =
     (if tr_role r \<noteq> ''advisor'' \<or> \<not> is_sha256 (tr_request_hash r) \<or> \<not> is_sha256 (tr_key_hash r) then Inl NV006
      else bind_result (assert_collaboration_context ses (tr_org r) (tr_actor r) (tr_role r)) (\<lambda>_.
      case recalled (thread_key r) db of
        Some prior \<Rightarrow>
          bind_result (replay prior (tr_request_hash r) (\<lambda>i. map_of (threads db) (tr_org r, i))) (\<lambda>row.
            Inr (db, (ir_response_id prior, row), True))
      | None \<Rightarrow>
          if map_of (case_rows db) (tr_org r, tr_case r) = None
             \<or> \<not> part (tr_org r) (tr_case r) (tr_actor r) ''advisor'' then Inl NV007
          else case find (\<lambda>(k, t). fst k = tr_org r \<and> th_case t = tr_case r) (threads db) of
            Some (k, t) \<Rightarrow>
              Inr (remember_call (thread_key r) (tr_request_hash r) (snd k) db, (snd k, t), False)
          | None \<Rightarrow>
              let t = \<lparr>th_case = tr_case r, th_created_by = tr_actor r, th_created_at = now\<rparr> in
              if map_of (threads db) (tr_org r, tr_thread r) \<noteq> None then Inl UNIQUE_VIOLATION
              else Inr (remember_call (thread_key r) (tr_request_hash r) (tr_thread r)
                          (db\<lparr>threads := threads db @ [((tr_org r, tr_thread r), t)]\<rparr>), (tr_thread r, t), False)))"

section \<open>Messages\<close>

record message_request =
  mr_org :: uuid
  mr_actor :: uuid
  mr_role :: string
  mr_thread :: uuid
  mr_message :: uuid
  mr_body :: string
  mr_content_hash :: sha
  mr_request_hash :: sha
  mr_key_hash :: sha

definition message_key :: "message_request \<Rightarrow> idem_key" where
  "message_key r = idem_key_of ''collaboration_message_append'' (mr_org r) (mr_actor r) (mr_key_hash r)"

definition thread_messages :: "row_key \<Rightarrow> collaboration_db \<Rightarrow> (row_key \<times> message_row) list" where
  "thread_messages k db = filter (\<lambda>(km, m). fst km = fst k \<and> me_thread m = snd k) (messages db)"

definition next_message_sequence :: "row_key \<Rightarrow> collaboration_db \<Rightarrow> int" where
  "next_message_sequence k db = fold max (map (\<lambda>(km, m). me_sequence m) (thread_messages k db)) 0 + 1"

definition insert_message :: "message_request \<Rightarrow> thread_row \<Rightarrow> timestamp \<Rightarrow> collaboration_db
     \<Rightarrow> sql_error + collaboration_db \<times> message_row" where
  "insert_message r t now db =
     (let n = next_message_sequence (mr_org r, mr_thread r) db;
          m = \<lparr>me_thread = mr_thread r, me_case = th_case t, me_sequence = n, me_actor = mr_actor r,
               me_role = mr_role r, me_body = mr_body r, me_content_sha256 = mr_content_hash r,
               me_request_sha256 = mr_request_hash r, me_created_at = now\<rparr> in
      if \<not> (1 \<le> n \<and> n \<le> 1000) then Inl CHECK_VIOLATION
      else if map_of (messages db) (mr_org r, mr_message r) \<noteq> None then Inl UNIQUE_VIOLATION
      else Inr (db\<lparr>messages := messages db @ [((mr_org r, mr_message r), m)]\<rparr>, m))"

definition append_collaboration_message ::
  "participants \<Rightarrow> session \<Rightarrow> message_request \<Rightarrow> timestamp \<Rightarrow> collaboration_db
     \<Rightarrow> sql_error + collaboration_db \<times> message_row answer" where
  "append_collaboration_message part ses r now db =
     (if \<not> is_sha256 (mr_content_hash r) \<or> \<not> is_sha256 (mr_request_hash r) \<or> \<not> is_sha256 (mr_key_hash r)
      then Inl NV006
      else bind_result (assert_collaboration_context ses (mr_org r) (mr_actor r) (mr_role r)) (\<lambda>_.
      bind_result (validate_collaboration_message (mr_body r)) (\<lambda>_.
      case recalled (message_key r) db of
        Some prior \<Rightarrow>
          bind_result (replay prior (mr_request_hash r) (\<lambda>i. map_of (messages db) (mr_org r, i))) (\<lambda>row.
            Inr (db, (ir_response_id prior, row), True))
      | None \<Rightarrow>
          case map_of (threads db) (mr_org r, mr_thread r) of None \<Rightarrow> Inl NV007
          | Some t \<Rightarrow>
              if \<not> part (mr_org r) (th_case t) (mr_actor r) (mr_role r) then Inl NV007
              else if 1000 \<le> length (thread_messages (mr_org r, mr_thread r) db) then Inl NV012
              else bind_result (insert_message r t now db) (\<lambda>(db1, m).
                Inr (remember_call (message_key r) (mr_request_hash r) (mr_message r) db1, (mr_message r, m), False)))))"

section \<open>Candidates\<close>

definition SEVEN_DAYS :: int where
  "SEVEN_DAYS = 7 * 24 * 60 * 60 * 1000000"

record propose_request =
  pq_org :: uuid
  pq_actor :: uuid
  pq_role :: string
  pq_message :: uuid
  pq_candidate :: uuid
  pq_revision :: int
  pq_key :: string
  pq_value :: jsonb
  pq_value_hash :: sha
  pq_request_hash :: sha
  pq_key_hash :: sha

definition propose_key :: "propose_request \<Rightarrow> idem_key" where
  "propose_key r = idem_key_of ''memory_candidate_propose'' (pq_org r) (pq_actor r) (pq_key_hash r)"

definition verification_of :: "row_key \<Rightarrow> collaboration_db \<Rightarrow> (row_key \<times> verification_row) option" where
  "verification_of k db = find (\<lambda>(kv, v). fst kv = fst k \<and> ve_candidate v = snd k) (verifications db)"

text \<open>The state of a candidate; \<open>None\<close> as the current revision stands for a missing case.\<close>

definition projected_state :: "row_key \<Rightarrow> candidate_row \<Rightarrow> timestamp \<Rightarrow> collaboration_db \<Rightarrow> string" where
  "projected_state k ca now db =
     (let decision = map_option (\<lambda>(kv, v). ve_decision v) (verification_of k db) in
      if decision = Some ''confirm'' then ''confirmed''
      else if decision = Some ''reject'' then ''rejected''
      else if (case map_of (case_rows db) (fst k, ca_case ca) of None \<Rightarrow> False
               | Some c \<Rightarrow> ca_revision ca \<noteq> sc_current_revision c) then ''stale''
      else if ca_expires_at ca \<le> now then ''expired'' else ''pending'')"

record candidate_view =
  cv_key :: string
  cv_value :: jsonb
  cv_state :: string
  cv_created_at :: timestamp
  cv_expires_at :: timestamp

definition view_candidate :: "row_key \<Rightarrow> candidate_row \<Rightarrow> timestamp \<Rightarrow> collaboration_db \<Rightarrow> candidate_view" where
  "view_candidate k ca now db =
     \<lparr>cv_key = ca_key ca, cv_value = ca_value ca, cv_state = projected_state k ca now db,
      cv_created_at = ca_created_at ca, cv_expires_at = ca_expires_at ca\<rparr>"

text \<open>The source of a proposal: a message of the actor, in a case at the pinned revision.\<close>

definition proposal_source :: "participants \<Rightarrow> propose_request \<Rightarrow> collaboration_db \<Rightarrow> sql_error + message_row" where
  "proposal_source part r db =
     (case map_of (messages db) (pq_org r, pq_message r) of None \<Rightarrow> Inl NV007
      | Some m \<Rightarrow>
        if me_actor m \<noteq> pq_actor r \<or> me_role m \<noteq> pq_role r \<or> pq_role r \<notin> {''student'', ''parent''} then Inl NV007
        else case map_of (case_rows db) (pq_org r, me_case m) of None \<Rightarrow> Inl NV003
        | Some c \<Rightarrow>
            if sc_current_revision c \<noteq> pq_revision r then Inl NV003
            else if \<not> part (pq_org r) (me_case m) (pq_actor r) (pq_role r) then Inl NV007
            else Inr m)"

definition same_proposal :: "propose_request \<Rightarrow> candidate_row \<Rightarrow> bool" where
  "same_proposal r ca \<longleftrightarrow>
     ca_revision ca = pq_revision r \<and> ca_key ca = pq_key r \<and> ca_value_sha256 ca = pq_value_hash r
     \<and> ca_request_sha256 ca = pq_request_hash r \<and> ca_subject ca = pq_actor r \<and> ca_role ca = pq_role r"

definition new_candidate :: "propose_request \<Rightarrow> message_row \<Rightarrow> timestamp \<Rightarrow> candidate_row" where
  "new_candidate r m now =
     \<lparr>ca_case = me_case m, ca_revision = pq_revision r, ca_message = pq_message r, ca_subject = pq_actor r,
      ca_role = pq_role r, ca_key = pq_key r, ca_value = pq_value r, ca_value_sha256 = pq_value_hash r,
      ca_request_sha256 = pq_request_hash r, ca_created_at = now, ca_expires_at = now + SEVEN_DAYS\<rparr>"

definition candidate_of_message ::
  "propose_request \<Rightarrow> message_row \<Rightarrow> timestamp \<Rightarrow> collaboration_db
     \<Rightarrow> sql_error + collaboration_db \<times> uuid \<times> candidate_row" where
  "candidate_of_message r m now db =
     (case find (\<lambda>(k, ca). fst k = pq_org r \<and> ca_message ca = pq_message r) (candidates db) of
        Some (k, ca) \<Rightarrow> if same_proposal r ca then Inr (db, snd k, ca) else Inl NV008
      | None \<Rightarrow>
          let ca = new_candidate r m now in
          if map_of (candidates db) (pq_org r, pq_candidate r) \<noteq> None then Inl UNIQUE_VIOLATION
          else Inr (db\<lparr>candidates := candidates db @ [((pq_org r, pq_candidate r), ca)]\<rparr>, pq_candidate r, ca))"

definition propose_contract :: "propose_request \<Rightarrow> bool" where
  "propose_contract r \<longleftrightarrow>
     0 < pq_revision r \<and> is_sha256 (pq_value_hash r) \<and> is_sha256 (pq_request_hash r) \<and> is_sha256 (pq_key_hash r)"

definition propose_memory_candidate ::
  "participants \<Rightarrow> session \<Rightarrow> propose_request \<Rightarrow> timestamp \<Rightarrow> collaboration_db
     \<Rightarrow> sql_error + collaboration_db \<times> candidate_view \<times> bool" where
  "propose_memory_candidate part ses r now db =
     (if \<not> propose_contract r then Inl NV006
      else bind_result (assert_collaboration_context ses (pq_org r) (pq_actor r) (pq_role r)) (\<lambda>_.
      bind_result (validate_collaboration_fact (pq_role r) (pq_key r) (Some (pq_value r))) (\<lambda>_.
      case recalled (propose_key r) db of
        Some prior \<Rightarrow>
          bind_result (replay prior (pq_request_hash r) (\<lambda>i. map_of (candidates db) (pq_org r, i))) (\<lambda>ca.
            Inr (db, view_candidate (pq_org r, ir_response_id prior) ca now db, True))
      | None \<Rightarrow>
          bind_result (proposal_source part r db) (\<lambda>m.
          bind_result (candidate_of_message r m now db) (\<lambda>(db1, i, ca).
            Inr (remember_call (propose_key r) (pq_request_hash r) i db1,
                 view_candidate (pq_org r, i) ca now db1, False))))))"

end
