(* ===== verification/Collaboration_Confirm.thy ===== *)
theory Collaboration_Confirm
  imports Collaboration_Authority
begin

text \<open>
  \<open>app.verify_memory_candidate\<close> (0017): the guards of a verification, its rejection, and its confirmation, which
  writes the fact, the next revision of the case with the references to the facts in force, and retires the
  current run; \<open>app.assert_controlled_intake_source\<close> (0017) and \<open>app.publish_case_revision\<close> (0002).
\<close>

section \<open>The controlled intake source\<close>

text \<open>The rows of a source pack: schema version and manifest hash, entries and evidence in the order of their ids.\<close>

record intake_sources =
  stored_pack :: "uuid \<Rightarrow> uuid \<Rightarrow> int \<Rightarrow> (int \<times> sha) option"
  stored_entries :: "uuid \<Rightarrow> uuid \<Rightarrow> int \<Rightarrow> source_pack_entry list"
  stored_evidence :: "uuid \<Rightarrow> uuid \<Rightarrow> int \<Rightarrow> evidence_ref list"

definition intake_entry :: "uuid \<Rightarrow> string \<Rightarrow> sha \<Rightarrow> string \<Rightarrow> string list \<Rightarrow> string list \<Rightarrow> source_pack_entry" where
  "intake_entry i land hash place covers gaps =
     \<lparr>spe_schema_version = 1, entry_id = i, path = ''sources/'' @ land @ ''.txt'', sha256 = hash,
      snapshot_date = (2026, 7, 1), publisher = ''Synthetic Demo Publisher'',
      institution = ''Synthetic '' @ place @ '' Institution'',
      canonical_url = ''https://example.invalid/intake-delay-v1/'' @ land, freshness_days = 365,
      redistribution_class = SYNTHETIC_PUBLIC, evidence_class = SYNTHETIC_DEMO, coverage = covers,
      known_gaps = gaps\<rparr>"

definition AUSTRALIA_SHA :: sha where
  "AUSTRALIA_SHA = ''b2ce10322347c2e68b0e342f9cc25f48fd844e72580238caef1c3b998921b647''"

definition JAPAN_SHA :: sha where
  "JAPAN_SHA = ''72c030094a536ec85421c5121a4b51998f7711cda6f5aac402a04b3bf0377c60''"

definition MALAYSIA_SHA :: sha where
  "MALAYSIA_SHA = ''e0bdb667e402c8a034c608f574ab1747866c22fe89f3ed32f766a6d20287ac6b''"

definition CONTROLLED_ENTRIES :: "source_pack_entry list" where
  "CONTROLLED_ENTRIES =
     [intake_entry 0x51000000000000000000000000001701 ''australia'' AUSTRALIA_SHA ''Australia''
        [''australia_program_fit'', ''australia_tuition'', ''australia_living_cost'', ''australia_fx'', ''australia_ranking''] [],
      intake_entry 0x51000000000000000000000000001702 ''japan'' JAPAN_SHA ''Japan''
        [''japan_program_fit''] [''high_risk_alternative''],
      intake_entry 0x51000000000000000000000000001703 ''malaysia'' MALAYSIA_SHA ''Malaysia''
        [''malaysia_context''] [''direct_program_fit'']]"

definition intake_evidence :: "uuid \<Rightarrow> uuid \<Rightarrow> string \<Rightarrow> uuid \<Rightarrow> sha \<Rightarrow> evidence_ref" where
  "intake_evidence org i what source hash =
     \<lparr>er_schema_version = 1, er_organization_id = org, evidence_id = i, claim = what,
      er_source_pack_id = INTAKE_DELAY_SOURCE_PACK_ID, source_pack_version = 1, source_entry_id = source,
      source_sha256 = hash, authority = ACCEPTED_SYNTHETIC_DEMO\<rparr>"

definition CONTROLLED_EVIDENCE :: "uuid \<Rightarrow> evidence_ref list" where
  "CONTROLLED_EVIDENCE org =
     (let au = 0x51000000000000000000000000001701; jp = 0x51000000000000000000000000001702 in
      [intake_evidence org 0x60000000000000000000000000001701 ''australia_program_fit'' au AUSTRALIA_SHA,
       intake_evidence org 0x60000000000000000000000000001702 ''australia_tuition'' au AUSTRALIA_SHA,
       intake_evidence org 0x60000000000000000000000000001703 ''australia_living_cost'' au AUSTRALIA_SHA,
       intake_evidence org 0x60000000000000000000000000001704 ''australia_fx'' au AUSTRALIA_SHA,
       intake_evidence org 0x60000000000000000000000000001705 ''japan_program_fit'' jp JAPAN_SHA,
       intake_evidence org 0x60000000000000000000000000001706 ''australia_ranking'' au AUSTRALIA_SHA])"

definition assert_controlled_intake_source ::
  "intake_sources \<Rightarrow> session \<Rightarrow> uuid \<Rightarrow> uuid \<Rightarrow> int \<Rightarrow> string option \<Rightarrow> sql_error + unit" where
  "assert_controlled_intake_source sources ses org pack ver wanted =
     bind_result (assert_context ses org) (\<lambda>_.
       ensure (pack = INTAKE_DELAY_SOURCE_PACK_ID \<and> ver = 1 \<and> wanted = Some ''2028-02''
         \<and> stored_pack sources org pack ver
             = Some (1, ''832aab1715564dee0e3a4530a181ccd4581bb7e5199144cb34dc55b20077add1'')
         \<and> stored_entries sources org pack ver = CONTROLLED_ENTRIES
         \<and> stored_evidence sources org pack ver = CONTROLLED_EVIDENCE org) NV027)"

section \<open>Publishing a revision\<close>

text \<open>\<open>app.publish_case_revision\<close>: it creates the case when there is none.\<close>

definition publish_case_revision ::
  "session \<Rightarrow> uuid \<Rightarrow> uuid \<Rightarrow> int option \<Rightarrow> int \<Rightarrow> jsonb \<Rightarrow> jsonb \<Rightarrow> collaboration_db \<Rightarrow> sql_error + collaboration_db" where
  "publish_case_revision ses org i expected new s f db =
     bind_result (assert_context ses org) (\<lambda>_.
     let stored = map_of (case_rows db) (org, i);
         actual = map_option sc_current_revision stored;
         c = (case stored of None \<Rightarrow> \<lparr>sc_current_revision = new, sc_state = CS_INTAKE\<rparr>
              | Some c \<Rightarrow> c\<lparr>sc_current_revision := new\<rparr>) in
     if actual \<noteq> expected \<or> new \<noteq> (case expected of None \<Rightarrow> 0 | Some n \<Rightarrow> n) + 1 then Inl NV003
     else if map_of (revision_rows db) ((org, i), new) \<noteq> None then Inl UNIQUE_VIOLATION
     else Inr (db\<lparr>core := (core db)\<lparr>base := (base (core db))\<lparr>cases := AList.update (org, i) c (case_rows db)\<rparr>\<rparr>,
          revision_rows := revision_rows db @ [(((org, i), new),
            \<lparr>rv_student = s, rv_family = f, rv_review = None, rv_superseded = None\<rparr>)]\<rparr>))"

section \<open>The guards of a verification\<close>

record verify_candidate_request =
  vy_org :: uuid
  vy_actor :: uuid
  vy_candidate :: uuid
  vy_revision :: int
  vy_decision :: string
  vy_reason :: string
  vy_verification :: uuid
  vy_fact :: "uuid option"
  vy_request_hash :: sha
  vy_key_hash :: sha

definition verify_key :: "verify_candidate_request \<Rightarrow> idem_key" where
  "verify_key r = idem_key_of ''memory_candidate_verify'' (vy_org r) (vy_actor r) (vy_key_hash r)"

definition verify_contract :: "verify_candidate_request \<Rightarrow> bool" where
  "verify_contract r \<longleftrightarrow>
     0 < vy_revision r \<and> vy_decision r \<in> {''confirm'', ''reject''} \<and> \<not> unsafe_value 512 (vy_reason r)
     \<and> is_sha256 (vy_request_hash r) \<and> is_sha256 (vy_key_hash r)
     \<and> (vy_decision r = ''confirm'' \<longrightarrow> vy_fact r \<noteq> None) \<and> (vy_decision r = ''reject'' \<longrightarrow> vy_fact r = None)"

definition succeeded :: "row_key \<Rightarrow> fact_row \<Rightarrow> (row_key \<times> fact_row) list \<Rightarrow> bool" where
  "succeeded k f rows \<longleftrightarrow>
     list_ex (\<lambda>(k', s). fst k' = fst k \<and> cf_case s = cf_case f \<and> cf_key s = cf_key f
        \<and> cf_supersedes s = Some (snd k)) rows"

text \<open>The facts of a case in force: those that no fact supersedes.\<close>

definition facts_in_force :: "row_key \<Rightarrow> (row_key \<times> fact_row) list \<Rightarrow> (row_key \<times> fact_row) list" where
  "facts_in_force k rows =
     filter (\<lambda>(k', f). fst k' = fst k \<and> cf_case f = snd k \<and> \<not> succeeded k' f rows) rows"

definition current_runs :: "row_key \<Rightarrow> collaboration_db \<Rightarrow> (row_key \<times> planning_run) list" where
  "current_runs k db = filter (\<lambda>(k', q). fst k' = fst k \<and> run_case q = snd k \<and> run_is_current q) (run_rows db)"

definition first_of :: "'a list \<Rightarrow> 'a option" where
  "first_of xs = (case xs of [] \<Rightarrow> None | x # _ \<Rightarrow> Some x)"

text \<open>What a verification works on: the candidate, its case, the fact in force and the current run.\<close>

type_synonym verification_target =
  "candidate_row \<times> student_case \<times> (row_key \<times> fact_row) option \<times> (row_key \<times> planning_run) option"

definition admit_verification ::
  "participants \<Rightarrow> verify_candidate_request \<Rightarrow> timestamp \<Rightarrow> collaboration_db \<Rightarrow> sql_error + verification_target" where
  "admit_verification part r now db =
     (case map_of (candidates db) (vy_org r, vy_candidate r) of None \<Rightarrow> Inl NV007
      | Some ca \<Rightarrow>
        (case map_of (case_rows db) (vy_org r, ca_case ca) of None \<Rightarrow> Inl NV007
         | Some c \<Rightarrow>
           let k = (vy_org r, ca_case ca); current = current_runs k db in
           if 1 < length current then Inl RAISE_EXCEPTION
           else if \<not> part (vy_org r) (ca_case ca) (vy_actor r) ''advisor'' then Inl NV007
           else if verification_of (vy_org r, vy_candidate r) db \<noteq> None then Inl NV012
           else if ca_revision ca \<noteq> vy_revision r \<or> sc_current_revision c \<noteq> vy_revision r then Inl NV003
           else if ca_expires_at ca \<le> now then Inl NV013
           else if sc_state c \<notin> {CS_INTAKE, CS_PLANNING} then Inl NV003
           else bind_result (validate_collaboration_fact (ca_role ca) (ca_key ca) (Some (ca_value ca))) (\<lambda>_.
             Inr (ca, c, find (\<lambda>(kf, f). cf_key f = ca_key ca) (facts_in_force k (confirmed db)), first_of current))))"

section \<open>Confirmation: what blocks it\<close>

text \<open>The review that requested a revision of the run, if any.\<close>

definition revision_review :: "row_key \<Rightarrow> int \<Rightarrow> row_key option \<Rightarrow> collaboration_db \<Rightarrow> uuid option" where
  "revision_review k rv run db =
     (case run of None \<Rightarrow> None
      | Some q \<Rightarrow> map_option (\<lambda>(ka, a). snd ka)
          (find (\<lambda>(ka, a). fst ka = fst k \<and> ar_case a = snd k \<and> ar_revision a = rv \<and> ar_run a = snd q
             \<and> ar_action a = ''request_revision'') (reviews (core db))))"

text \<open>Whether the run of a task was retired by a revision published for a review of it.\<close>

definition retired_by_revision :: "row_key \<Rightarrow> agent_task \<Rightarrow> int \<Rightarrow> collaboration_db \<Rightarrow> bool" where
  "retired_by_revision k t limit db \<longleftrightarrow>
     (case t_result_run t of None \<Rightarrow> False
      | Some i \<Rightarrow>
        (case map_of (run_rows db) (fst k, i) of None \<Rightarrow> False
         | Some q \<Rightarrow>
            run_case q = t_case t \<and> run_case_revision q = t_case_revision t \<and> run_status q = RS_REVIEW_REQUIRED
            \<and> \<not> run_is_current q
            \<and> (case map_of (revision_rows db) ((fst k, run_case q), run_case_revision q + 1) of None \<Rightarrow> False
               | Some row \<Rightarrow>
                   rv_superseded row = Some i \<and> run_case_revision q + 1 \<le> limit
                   \<and> (case rv_review row of None \<Rightarrow> False
                      | Some ir \<Rightarrow>
                        (case map_of (reviews (core db)) (fst k, ir) of None \<Rightarrow> False
                         | Some a \<Rightarrow> ar_case a = run_case q \<and> ar_revision a = run_case_revision q
                             \<and> ar_run a = i \<and> ar_action a = ''request_revision'')))))"

text \<open>
  The task condition of the query, which is three-valued: \<open>result_planning_run_id=current_run.id\<close> is unknown when
  either is null, and a task whose condition is unknown does not block.
\<close>

definition task_blocks :: "row_key \<Rightarrow> int \<Rightarrow> row_key option \<Rightarrow> uuid option \<Rightarrow> collaboration_db \<Rightarrow> agent_task \<Rightarrow> bool" where
  "task_blocks k rv run review db t \<longleftrightarrow>
     t_state t \<in> {TS_QUEUED, TS_LEASED, TS_RUNNING}
     \<or> t_state t = TS_WAITING_REVIEW
       \<and> \<not> (t_case_revision t = rv \<and> review \<noteq> None
              \<and> (case (t_result_run t, run) of (Some i, Some q) \<Rightarrow> i = snd q | _ \<Rightarrow> True))
       \<and> \<not> (t_case_revision t < rv \<and> retired_by_revision k t rv db)"

definition blocked_by_task :: "row_key \<Rightarrow> int \<Rightarrow> row_key option \<Rightarrow> uuid option \<Rightarrow> collaboration_db \<Rightarrow> bool" where
  "blocked_by_task k rv run review db \<longleftrightarrow>
     list_ex (\<lambda>(kt, t). fst kt = fst k \<and> t_case t = snd k \<and> task_blocks k rv run review db t) (tasks (base (core db)))"

text \<open>A case with a current run is revised on request, in three facts only, and not once it is decided.\<close>

definition admit_revision ::
  "row_key \<Rightarrow> candidate_row \<Rightarrow> student_case \<Rightarrow> row_key option \<Rightarrow> uuid option \<Rightarrow> collaboration_db \<Rightarrow> sql_error + unit" where
  "admit_revision k ca c run review db =
     (if blocked_by_task k (ca_revision ca) run review db then Inl NV014
      else if sc_state c = CS_PLANNING \<and> run = None then Inl NV003
      else if run = None then Inr ()
      else if review = None then Inl NV003
      else if ca_key ca \<notin> {''student.preferred_countries'', ''family.budget'', ''student.intake''} then Inl NV006
      else ensure (\<not> list_ex (\<lambda>(kd, d). fst kd = fst k \<and> fd_case d = snd k) (decisions (core db))) NV003)"

section \<open>Confirmation: the next revision\<close>

definition projection_head_ok :: "jsonb \<Rightarrow> bool" where
  "projection_head_ok j \<longleftrightarrow> length (jb_keys j) = 4 \<and> jb_integer (jb_get j ''schema_version'') = Some 1"

text \<open>\<open>unsafe Case revision projection\<close>, and each stored preference is a fact its role may state.\<close>

definition check_projection :: "revision_row \<Rightarrow> sql_error + unit" where
  "check_projection row =
     (let s = rv_student row; f = rv_family row in
      bind_result (ensure (projection_head_ok s \<and> projection_head_ok f) NV006) (\<lambda>_.
      bind_result (validate_collaboration_fact ''student'' ''student.intended_field'' (jb_get s ''intended_field'')) (\<lambda>_.
      bind_result (validate_collaboration_fact ''student'' ''student.preferred_countries'' (jb_get s ''preferred_countries'')) (\<lambda>_.
      bind_result (validate_collaboration_fact ''student'' ''student.intake'' (jb_get s ''intake'')) (\<lambda>_.
      bind_result (validate_collaboration_fact ''parent'' ''family.risk_tolerance'' (jb_get f ''risk_tolerance'')) (\<lambda>_.
      bind_result (validate_collaboration_fact ''parent'' ''family.japan_risk_accepted'' (jb_get f ''japan_risk_accepted'')) (\<lambda>_.
        validate_collaboration_fact ''parent'' ''family.budget'' (jb_get f ''budget''))))))))"

definition next_projection :: "string \<Rightarrow> jsonb \<Rightarrow> jsonb \<times> jsonb \<Rightarrow> jsonb \<times> jsonb" where
  "next_projection k new old =
     (let (s, f) = old in
      if k = ''student.intended_field'' then (jb_set s ''intended_field'' new, f)
      else if k = ''student.preferred_countries'' then (jb_set s ''preferred_countries'' new, f)
      else if k = ''student.intake'' then (jb_set s ''intake'' new, f)
      else if k = ''family.risk_tolerance'' then (s, jb_set f ''risk_tolerance'' new)
      else if k = ''family.japan_risk_accepted'' then (s, jb_set f ''japan_risk_accepted'' new)
      else if k = ''family.budget'' then (s, jb_set f ''budget'' new)
      else (s, f))"

definition check_intake_change ::
  "intake_sources \<Rightarrow> session \<Rightarrow> uuid \<Rightarrow> candidate_row \<Rightarrow> revision_row \<Rightarrow> (row_key \<times> planning_run) option
     \<Rightarrow> sql_error + unit" where
  "check_intake_change sources ses org ca row run =
     (case run of None \<Rightarrow> Inr ()
      | Some (kq, q) \<Rightarrow>
        if ca_key ca \<noteq> ''student.intake'' then Inr ()
        else if Some (ca_value ca) = jb_get (rv_student row) ''intake'' then Inl NV006
        else if jb_string (jb_get (rv_student row) ''intake'') \<noteq> Some ''2027-02''
                \<or> ca_value ca \<noteq> Jb_string ''2028-02'' \<or> run_source_pack q \<noteq> BASELINE_SOURCE_PACK_ID
                \<or> run_source_pack_version q \<noteq> 1 \<or> run_policy_version q \<noteq> ''m3a-policy-v1'' then Inl NV027
        else assert_controlled_intake_source sources ses org INTAKE_DELAY_SOURCE_PACK_ID 1 (Some ''2028-02''))"

section \<open>The statements\<close>

definition insert_candidate_verification :: "verify_candidate_request \<Rightarrow> uuid \<Rightarrow> int option \<Rightarrow> collaboration_db \<Rightarrow> sql_error + collaboration_db" where
  "insert_candidate_verification r of_case result db =
     (if map_of (verifications db) (vy_org r, vy_verification r) \<noteq> None then Inl UNIQUE_VIOLATION
      else Inr (db\<lparr>verifications := verifications db @ [((vy_org r, vy_verification r),
        \<lparr>ve_candidate = vy_candidate r, ve_case = of_case, ve_advisor = vy_actor r, ve_decision = vy_decision r,
         ve_reason = vy_reason r, ve_request_sha256 = vy_request_hash r, ve_fact = vy_fact r,
         ve_revision = result\<rparr>)]\<rparr>))"

definition new_fact :: "verify_candidate_request \<Rightarrow> candidate_row \<Rightarrow> (row_key \<times> fact_row) option \<Rightarrow> timestamp \<Rightarrow> fact_row" where
  "new_fact r ca prior now =
     \<lparr>cf_case = ca_case ca, cf_key = ca_key ca, cf_value = ca_value ca, cf_value_sha256 = ca_value_sha256 ca,
      cf_candidate = vy_candidate r, cf_message = ca_message ca, cf_subject = ca_subject ca, cf_role = ca_role ca,
      cf_advisor = vy_actor r, cf_supersedes = map_option (\<lambda>(k, f). snd k) prior,
      cf_version = (case prior of None \<Rightarrow> 0 | Some (k, f) \<Rightarrow> cf_version f) + 1, cf_confirmed_at = now\<rparr>"

definition insert_fact :: "row_key \<Rightarrow> fact_row \<Rightarrow> collaboration_db \<Rightarrow> sql_error + collaboration_db" where
  "insert_fact k f db =
     (if map_of (confirmed db) k \<noteq> None
         \<or> list_ex (\<lambda>(k', f'). fst k' = fst k \<and> cf_case f' = cf_case f \<and> cf_key f' = cf_key f
              \<and> (cf_version f' = cf_version f \<or> cf_supersedes f \<noteq> None \<and> cf_supersedes f' = cf_supersedes f))
              (confirmed db)
      then Inl UNIQUE_VIOLATION
      else Inr (db\<lparr>confirmed := confirmed db @ [(k, f)]\<rparr>))"

definition insert_revision :: "row_key \<Rightarrow> int \<Rightarrow> revision_row \<Rightarrow> collaboration_db \<Rightarrow> sql_error + collaboration_db" where
  "insert_revision k n row db =
     (if (rv_review row = None) \<noteq> (rv_superseded row = None) then Inl CHECK_VIOLATION
      else if map_of (revision_rows db) (k, n) \<noteq> None
              \<or> rv_superseded row \<noteq> None
                \<and> list_ex (\<lambda>(k', row'). fst k' = k \<and> rv_superseded row' = rv_superseded row) (revision_rows db)
      then Inl UNIQUE_VIOLATION
      else Inr (db\<lparr>revision_rows := revision_rows db @ [((k, n), row)]\<rparr>))"

fun insert_refs :: "row_key \<times> int \<Rightarrow> (string \<times> uuid) list \<Rightarrow> collaboration_db \<Rightarrow> sql_error + collaboration_db" where
  "insert_refs kr [] db = Inr db"
| "insert_refs kr ((fk, i) # rest) db =
     (if map_of (fact_refs db) (kr, fk) \<noteq> None then Inl UNIQUE_VIOLATION
      else insert_refs kr rest (db\<lparr>fact_refs := fact_refs db @ [((kr, fk), i)]\<rparr>))"

text \<open>The facts in force of the other keys, and the new one.\<close>

definition refs_of :: "row_key \<Rightarrow> string \<Rightarrow> uuid \<Rightarrow> (row_key \<times> fact_row) list \<Rightarrow> (string \<times> uuid) list" where
  "refs_of k fk i rows =
     map (\<lambda>(k', f). (cf_key f, snd k')) (filter (\<lambda>(k', f). cf_key f \<noteq> fk) (facts_in_force k rows)) @ [(fk, i)]"

definition move_case :: "row_key \<Rightarrow> student_case \<Rightarrow> int \<Rightarrow> collaboration_db \<Rightarrow> collaboration_db" where
  "move_case k c n db =
     db\<lparr>core := (core db)\<lparr>base := (base (core db))
       \<lparr>cases := AList.update k (c\<lparr>sc_current_revision := n\<rparr>) (case_rows db)\<rparr>\<rparr>\<rparr>"

text \<open>The trigger on runs (0007) for a statement that only clears the current flag: the run is the one that the new
  revision replaces, or it is terminal.\<close>

definition guard_run_retirement :: "planning_run \<Rightarrow> int \<Rightarrow> sql_error + unit" where
  "guard_run_retirement q current =
     ensure (current = run_case_revision q + 1 \<or> run_status q \<in> {RS_FAILED, RS_BLOCKED, RS_REVIEW_REQUIRED}) NV006"

definition retire_run :: "(row_key \<times> planning_run) option \<Rightarrow> int \<Rightarrow> collaboration_db \<Rightarrow> sql_error + collaboration_db" where
  "retire_run run current db =
     (case run of None \<Rightarrow> Inr db
      | Some (k, q) \<Rightarrow>
          bind_result (guard_run_retirement q current) (\<lambda>_.
            Inr (db\<lparr>core := (core db)\<lparr>base := (base (core db))
              \<lparr>runs := AList.update k (q\<lparr>run_is_current := False\<rparr>) (run_rows db)\<rparr>\<rparr>\<rparr>)))"

definition audit_call :: "verify_candidate_request \<Rightarrow> uuid \<Rightarrow> string \<Rightarrow> audit_payload \<Rightarrow> collaboration_db \<Rightarrow> collaboration_db" where
  "audit_call r of_case what detail db =
     db\<lparr>core := write_audit (vy_org r) \<lparr>au_case = of_case, au_actor = vy_actor r, au_event = what,
       au_subject = vy_verification r, au_payload = detail\<rparr> (core db)\<rparr>"

type_synonym verify_out = "uuid \<times> verification_row \<times> bool"

definition reject_candidate :: "verify_candidate_request \<Rightarrow> candidate_row \<Rightarrow> collaboration_db \<Rightarrow> sql_error + collaboration_db" where
  "reject_candidate r ca db =
     bind_result (insert_candidate_verification r (ca_case ca) None db) (\<lambda>db1.
       Inr (audit_call r (ca_case ca) ''memory_candidate_rejected'' (Payload_candidate (vy_candidate r)) db1))"

definition confirm_candidate ::
  "intake_sources \<Rightarrow> session \<Rightarrow> verify_candidate_request \<Rightarrow> verification_target \<Rightarrow> timestamp \<Rightarrow> collaboration_db
     \<Rightarrow> sql_error + collaboration_db" where
  "confirm_candidate sources ses r target now db =
     (let (ca, c, prior, run) = target; k = (vy_org r, ca_case ca); i = the (vy_fact r);
          review = revision_review k (ca_revision ca) (map_option fst run) db in
      bind_result (admit_revision k ca c (map_option fst run) review db) (\<lambda>_.
      case map_of (revision_rows db) (k, vy_revision r) of None \<Rightarrow> Inl NV003
      | Some row \<Rightarrow>
        bind_result (check_projection row) (\<lambda>_.
        bind_result (int4 (vy_revision r + 1)) (\<lambda>n.
        bind_result (int4 (cf_version (new_fact r ca prior now))) (\<lambda>_.
        let (s, f) = next_projection (ca_key ca) (ca_value ca) (rv_student row, rv_family row) in
        bind_result (check_intake_change sources ses (vy_org r) ca row run) (\<lambda>_.
        bind_result (insert_candidate_verification r (ca_case ca) (Some n) db) (\<lambda>db1.
        bind_result (insert_fact (vy_org r, i) (new_fact r ca prior now) db1) (\<lambda>db2.
        bind_result (insert_revision k n \<lparr>rv_student = s, rv_family = f, rv_review = review,
             rv_superseded = map_option (\<lambda>(kq, q). snd kq) run\<rparr> db2) (\<lambda>db3.
        bind_result (insert_refs (k, n) (refs_of k (ca_key ca) i (confirmed db3)) db3) (\<lambda>db4.
        bind_result (retire_run run n (move_case k c n db4)) (\<lambda>db5.
          Inr (audit_call r (ca_case ca) ''memory_candidate_confirmed'' (Payload_fact i n) db5))))))))))))"

definition verify_memory_candidate ::
  "intake_sources \<Rightarrow> participants \<Rightarrow> session \<Rightarrow> verify_candidate_request \<Rightarrow> timestamp \<Rightarrow> collaboration_db
     \<Rightarrow> sql_error + collaboration_db \<times> verify_out" where
  "verify_memory_candidate sources part ses r now db =
     (if \<not> verify_contract r then Inl NV006
      else bind_result (assert_collaboration_context ses (vy_org r) (vy_actor r) ''advisor'') (\<lambda>_.
      case recalled (verify_key r) db of
        Some prior \<Rightarrow>
          bind_result (replay prior (vy_request_hash r) (\<lambda>i. map_of (verifications db) (vy_org r, i))) (\<lambda>v.
            Inr (db, ir_response_id prior, v, True))
      | None \<Rightarrow>
          bind_result (admit_verification part r now db) (\<lambda>target.
          bind_result (if vy_decision r = ''reject'' then reject_candidate r (fst target) db
                       else confirm_candidate sources ses r target now db) (\<lambda>db1.
            Inr (remember_call (verify_key r) (vy_request_hash r) (vy_verification r) db1, vy_verification r,
                 the (map_of (verifications db1) (vy_org r, vy_verification r)), False)))))"

end
