(* ===== verification/Collaboration_Read.thy ===== *)
theory Collaboration_Read
  imports Collaboration_Confirm
begin

text \<open>
  The reads of the collaboration (0007): the thread of a case, the messages of a thread after a sequence number, the
  candidates of a case, and its facts: those in force, and the superseded ones page by page at a snapshot revision.
  A projection is a record in place of the \<open>jsonb\<close> object; the participants see less of it than the advisor.
\<close>

section \<open>Threads and messages\<close>

definition admit_reader :: "participants \<Rightarrow> uuid \<Rightarrow> uuid \<Rightarrow> string \<Rightarrow> uuid \<Rightarrow> sql_error + unit" where
  "admit_reader part org actor rl c = ensure (part org c actor rl) NV007"

definition read_collaboration_thread ::
  "participants \<Rightarrow> session \<Rightarrow> uuid \<Rightarrow> uuid \<Rightarrow> string \<Rightarrow> uuid \<Rightarrow> collaboration_db
     \<Rightarrow> sql_error + (uuid \<times> thread_row) list" where
  "read_collaboration_thread part ses org actor rl c db =
     bind_result (assert_collaboration_context ses org actor rl) (\<lambda>_.
     bind_result (admit_reader part org actor rl c) (\<lambda>_.
       Inr (map (\<lambda>(k, t). (snd k, t)) (filter (\<lambda>(k, t). fst k = org \<and> th_case t = c) (threads db)))))"

text \<open>The columns of a message that a read returns.\<close>

record message_event =
  mv_message :: uuid
  mv_thread :: uuid
  mv_case :: uuid
  mv_sequence :: int
  mv_actor :: uuid
  mv_role :: string
  mv_body :: string
  mv_content_sha256 :: sha
  mv_created_at :: timestamp

definition view_message :: "uuid \<Rightarrow> message_row \<Rightarrow> message_event" where
  "view_message i m = \<lparr>mv_message = i, mv_thread = me_thread m, mv_case = me_case m, mv_sequence = me_sequence m,
     mv_actor = me_actor m, mv_role = me_role m, mv_body = me_body m, mv_content_sha256 = me_content_sha256 m,
     mv_created_at = me_created_at m\<rparr>"

definition messages_after :: "row_key \<Rightarrow> int \<Rightarrow> collaboration_db \<Rightarrow> message_event list" where
  "messages_after k after db =
     sort_key mv_sequence (map (\<lambda>(km, m). view_message (snd km) m)
       (filter (\<lambda>(km, m). me_sequence m > after) (thread_messages k db)))"

definition read_collaboration_messages ::
  "participants \<Rightarrow> session \<Rightarrow> uuid \<Rightarrow> uuid \<Rightarrow> string \<Rightarrow> uuid \<Rightarrow> int \<Rightarrow> int \<Rightarrow> collaboration_db
     \<Rightarrow> sql_error + message_event list" where
  "read_collaboration_messages part ses org actor rl thread after limit db =
     (if after < 0 \<or> \<not> (1 \<le> limit \<and> limit \<le> 100) then Inl NV006
      else bind_result (assert_collaboration_context ses org actor rl) (\<lambda>_.
      case map_of (threads db) (org, thread) of None \<Rightarrow> Inl NV007
      | Some t \<Rightarrow>
        bind_result (admit_reader part org actor rl (th_case t)) (\<lambda>_.
          Inr (take (nat limit) (messages_after (org, thread) after db)))))"

section \<open>Candidates\<close>

text \<open>What only the advisor sees of a candidate.\<close>

record candidate_detail =
  cd_candidate :: uuid
  cd_message :: uuid
  cd_sequence :: int
  cd_subject :: uuid
  cd_role :: string
  cd_revision :: int
  cd_verification :: "uuid option"
  cd_decision :: "string option"
  cd_reason :: "string option"
  cd_request_sha256 :: sha
  cd_value_sha256 :: sha

text \<open>The rows of a case, the newest first, with their case; a candidate without one is not joined.\<close>

definition case_candidates :: "row_key \<Rightarrow> collaboration_db \<Rightarrow> (row_key \<times> candidate_row) list" where
  "case_candidates k db =
     sort_key (\<lambda>(kc, ca). (- ca_created_at ca, snd kc))
       (filter (\<lambda>(kc, ca). fst kc = fst k \<and> ca_case ca = snd k \<and> map_of (case_rows db) k \<noteq> None) (candidates db))"

definition detail_candidate :: "row_key \<Rightarrow> candidate_row \<Rightarrow> message_row \<Rightarrow> collaboration_db \<Rightarrow> candidate_detail" where
  "detail_candidate k ca m db =
     (let v = verification_of k db in
      \<lparr>cd_candidate = snd k, cd_message = ca_message ca, cd_sequence = me_sequence m, cd_subject = ca_subject ca,
       cd_role = ca_role ca, cd_revision = ca_revision ca, cd_verification = map_option (\<lambda>(kv, v). snd kv) v,
       cd_decision = map_option (\<lambda>(kv, v). ve_decision v) v, cd_reason = map_option (\<lambda>(kv, v). ve_reason v) v,
       cd_request_sha256 = ca_request_sha256 ca, cd_value_sha256 = ca_value_sha256 ca\<rparr>)"

definition read_memory_candidates ::
  "participants \<Rightarrow> session \<Rightarrow> uuid \<Rightarrow> uuid \<Rightarrow> string \<Rightarrow> uuid \<Rightarrow> int \<Rightarrow> timestamp \<Rightarrow> collaboration_db
     \<Rightarrow> sql_error + (candidate_view \<times> candidate_detail option) list" where
  "read_memory_candidates part ses org actor rl c limit now db =
     bind_result (assert_collaboration_context ses org actor rl) (\<lambda>_.
     if \<not> (1 \<le> limit \<and> limit \<le> 100) then Inl NV006
     else bind_result (admit_reader part org actor rl c) (\<lambda>_.
       if rl = ''advisor'' then
         Inr (take (nat limit) (List.map_filter
           (\<lambda>(k, ca). map_option (\<lambda>m. (view_candidate k ca now db, Some (detail_candidate k ca m db)))
              (map_of (messages db) (org, ca_message ca)))
           (case_candidates (org, c) db)))
       else
         Inr (take (nat limit) (map (\<lambda>(k, ca). (view_candidate k ca now db, None))
           (filter (\<lambda>(k, ca). ca_subject ca = actor \<and> ca_role ca = rl) (case_candidates (org, c) db))))))"

section \<open>Facts\<close>

record fact_view =
  fv_key :: string
  fv_value :: jsonb
  fv_version :: int
  fv_confirmed_at :: timestamp
  fv_role :: string

text \<open>What only the advisor sees of a fact.\<close>

record fact_detail =
  ft_fact :: uuid
  ft_candidate :: uuid
  ft_verification :: uuid
  ft_message :: uuid
  ft_sequence :: int
  ft_sha256_prefix :: string
  ft_advisor :: uuid
  ft_reason :: string
  ft_supersedes :: "uuid option"

definition view_fact :: "fact_row \<Rightarrow> fact_view" where
  "view_fact f = \<lparr>fv_key = cf_key f, fv_value = cf_value f, fv_version = cf_version f,
     fv_confirmed_at = cf_confirmed_at f, fv_role = cf_role f\<rparr>"

text \<open>The verifications that name a fact, and the join of a fact with them and its message.\<close>

definition verifications_of_fact :: "row_key \<Rightarrow> collaboration_db \<Rightarrow> (row_key \<times> verification_row) list" where
  "verifications_of_fact k db = filter (\<lambda>(kv, v). fst kv = fst k \<and> ve_fact v = Some (snd k)) (verifications db)"

definition detail_fact :: "collaboration_db \<Rightarrow> row_key \<times> fact_row \<Rightarrow> (fact_view \<times> fact_detail) list" where
  "detail_fact db kf =
     (let (k, f) = kf in
      case map_of (messages db) (fst k, cf_message f) of None \<Rightarrow> []
      | Some m \<Rightarrow>
          map (\<lambda>(kv, v). (view_fact f,
              \<lparr>ft_fact = snd k, ft_candidate = cf_candidate f, ft_verification = snd kv, ft_message = cf_message f,
               ft_sequence = me_sequence m, ft_sha256_prefix = take 12 (me_content_sha256 m), ft_advisor = cf_advisor f,
               ft_reason = ve_reason v, ft_supersedes = cf_supersedes f\<rparr>))
            (verifications_of_fact k db))"

definition current_facts :: "row_key \<Rightarrow> collaboration_db \<Rightarrow> (row_key \<times> fact_row) list" where
  "current_facts k db = sort_key (\<lambda>(kf, f). cf_key f) (facts_in_force k (confirmed db))"

text \<open>The facts that were superseded at a revision: once for each verification of a successor by then.\<close>

definition succession ::
  "int \<Rightarrow> collaboration_db \<Rightarrow> row_key \<times> fact_row \<Rightarrow> row_key \<times> fact_row \<Rightarrow> (row_key \<times> fact_row) list" where
  "succession snapshot db kf ks =
     (if fst (fst ks) = fst (fst kf) \<and> cf_case (snd ks) = cf_case (snd kf) \<and> cf_key (snd ks) = cf_key (snd kf)
         \<and> cf_supersedes (snd ks) = Some (snd (fst kf)) then
        map (\<lambda>_. kf) (filter (\<lambda>(kv, v). case ve_revision v of None \<Rightarrow> False | Some n \<Rightarrow> n \<le> snapshot)
          (verifications_of_fact (fst ks) db))
      else [])"

definition supersessions :: "int \<Rightarrow> collaboration_db \<Rightarrow> row_key \<times> fact_row \<Rightarrow> (row_key \<times> fact_row) list" where
  "supersessions snapshot db kf = concat (map (succession snapshot db kf) (confirmed db))"

definition superseded_facts :: "row_key \<Rightarrow> int \<Rightarrow> collaboration_db \<Rightarrow> (row_key \<times> fact_row) list" where
  "superseded_facts k snapshot db =
     sort_key (\<lambda>(kf, f). (cf_key f, - cf_version f))
       (concat (map (supersessions snapshot db)
          (filter (\<lambda>(kf, f). fst kf = fst k \<and> cf_case f = snd k) (confirmed db))))"

definition after_cursor :: "(string \<times> int) option \<Rightarrow> fact_row \<Rightarrow> bool" where
  "after_cursor cursor f \<longleftrightarrow>
     (case cursor of None \<Rightarrow> True | Some (fk, n) \<Rightarrow> cf_key f > fk \<or> cf_key f = fk \<and> cf_version f < n)"

text \<open>A page has one row more than its limit when there is more.  The snapshot and the cursor come together.\<close>

definition history_page ::
  "row_key \<Rightarrow> int \<Rightarrow> (string \<times> int) option \<Rightarrow> int \<Rightarrow> collaboration_db \<Rightarrow> (fact_view \<times> fact_detail) list" where
  "history_page k snapshot cursor limit db =
     take (nat (limit + 1)) (concat (map (detail_fact db)
       (filter (\<lambda>(kf, f). after_cursor cursor f) (superseded_facts k snapshot db))))"

record facts_page =
  fg_current :: "(fact_view \<times> fact_detail option) list"
  fg_history :: "(fact_view \<times> fact_detail) list"
  fg_snapshot :: int

definition cursor_contract :: "(int \<times> string \<times> int) option \<Rightarrow> bool" where
  "cursor_contract cursor \<longleftrightarrow>
     (case cursor of None \<Rightarrow> True
      | Some (snapshot, fk, n) \<Rightarrow> 0 < snapshot \<and> fk \<in> fact_key_value ` set FACT_KEYS \<and> 0 < n)"

definition read_confirmed_facts ::
  "participants \<Rightarrow> session \<Rightarrow> uuid \<Rightarrow> uuid \<Rightarrow> string \<Rightarrow> uuid \<Rightarrow> (int \<times> string \<times> int) option \<Rightarrow> int \<Rightarrow> collaboration_db
     \<Rightarrow> sql_error + facts_page" where
  "read_confirmed_facts part ses org actor rl c cursor limit db =
     (if \<not> cursor_contract cursor then Inl NV006
      else bind_result (assert_collaboration_context ses org actor rl) (\<lambda>_.
      if \<not> (1 \<le> limit \<and> limit \<le> 100) then Inl NV006
      else bind_result (admit_reader part org actor rl c) (\<lambda>_.
      case map_of (case_rows db) (org, c) of None \<Rightarrow> Inl NV007
      | Some row \<Rightarrow>
          let live = sc_current_revision row; snapshot = (case cursor of None \<Rightarrow> live | Some (n, _) \<Rightarrow> n) in
          if snapshot > live then Inl NV006
          else if rl = ''advisor'' then
            Inr \<lparr>fg_current = map (map_prod id Some) (concat (map (detail_fact db) (current_facts (org, c) db))),
                 fg_history = history_page (org, c) snapshot (map_option snd cursor) limit db, fg_snapshot = snapshot\<rparr>
          else
            Inr \<lparr>fg_current = map (\<lambda>(k, f). (view_fact f, None)) (current_facts (org, c) db),
                 fg_history = [], fg_snapshot = snapshot\<rparr>)))"

end
