(* ===== verification/Collaboration_Effects.thy ===== *)
theory Collaboration_Effects
  imports Collaboration_Confirm Decision_System
begin

text \<open>
  What a successful call of the collaboration authority leaves behind, as explicit changes of the tables, and the
  lists the tables are read through: the lineage of a fact key and the messages of a thread.
\<close>

section \<open>Statements\<close>

lemma remember_call_simps [simp]:
  "threads (remember_call k h i db) = threads db" "messages (remember_call k h i db) = messages db"
  "candidates (remember_call k h i db) = candidates db" "verifications (remember_call k h i db) = verifications db"
  "confirmed (remember_call k h i db) = confirmed db" "revision_rows (remember_call k h i db) = revision_rows db"
  "fact_refs (remember_call k h i db) = fact_refs db"
  "case_rows (remember_call k h i db) = case_rows db" "run_rows (remember_call k h i db) = run_rows db"
  "core (remember_call k h i db) = remember k h i (core db)"
  by (simp_all add: remember_call_def)

lemma audit_call_simps [simp]:
  "threads (audit_call r c w d db) = threads db" "messages (audit_call r c w d db) = messages db"
  "candidates (audit_call r c w d db) = candidates db" "verifications (audit_call r c w d db) = verifications db"
  "confirmed (audit_call r c w d db) = confirmed db" "revision_rows (audit_call r c w d db) = revision_rows db"
  "fact_refs (audit_call r c w d db) = fact_refs db" "base (core (audit_call r c w d db)) = base (core db)"
  by (simp_all add: audit_call_def)

lemma move_case_simps [simp]:
  "threads (move_case k c n db) = threads db" "messages (move_case k c n db) = messages db"
  "candidates (move_case k c n db) = candidates db" "verifications (move_case k c n db) = verifications db"
  "confirmed (move_case k c n db) = confirmed db" "revision_rows (move_case k c n db) = revision_rows db"
  "fact_refs (move_case k c n db) = fact_refs db" "run_rows (move_case k c n db) = run_rows db"
  "case_rows (move_case k c n db) = AList.update k (c\<lparr>sc_current_revision := n\<rparr>) (case_rows db)"
  by (simp_all add: move_case_def)

lemma first_of_eq: "first_of xs = Some x \<longleftrightarrow> (\<exists>ys. xs = x # ys)" "first_of xs = None \<longleftrightarrow> xs = []"
  by (cases xs; simp add: first_of_def)+

lemma replay_Inr: "replay prior h f = Inr row \<longleftrightarrow> ir_request_sha256 prior = h \<and> f (ir_response_id prior) = Some row"
  by (auto simp: replay_def split: option.splits)

lemma find_SomeD: "find P xs = Some x \<Longrightarrow> x \<in> set xs \<and> P x"
  by (auto simp: find_Some_iff)

lemma find_NoneD: "find P xs = None \<Longrightarrow> x \<in> set xs \<Longrightarrow> \<not> P x"
  by (auto simp: find_None_iff)

lemma insert_refs_Inr:
  "insert_refs kr refs db = Inr db' \<Longrightarrow>
     db' = db\<lparr>fact_refs := fact_refs db @ map (\<lambda>(fk, i). ((kr, fk), i)) refs\<rparr>
     \<and> distinct (map fst refs) \<and> (\<forall>fk \<in> fst ` set refs. map_of (fact_refs db) (kr, fk) = None)"
proof (induction kr refs db rule: insert_refs.induct)
  case (2 kr fk i rest db)
  from "2.prems" have new: "map_of (fact_refs db) (kr, fk) = None"
    and ins: "insert_refs kr rest (db\<lparr>fact_refs := fact_refs db @ [((kr, fk), i)]\<rparr>) = Inr db'"
    by (auto split: if_splits)
  from "2.IH" [OF _ ins] new have IH:
    "db' = db\<lparr>fact_refs := (fact_refs db @ [((kr, fk), i)]) @ map (\<lambda>(fk, i). ((kr, fk), i)) rest\<rparr>"
    "distinct (map fst rest)"
    "\<forall>fk' \<in> fst ` set rest. map_of (fact_refs db @ [((kr, fk), i)]) (kr, fk') = None"
    by simp_all
  from IH(3) have old: "\<forall>fk' \<in> fst ` set rest. fk' \<noteq> fk \<and> map_of (fact_refs db) (kr, fk') = None"
    by (auto simp: map_of_snoc [OF new] simp del: map_of_append split: if_splits)
  then have "fk \<notin> fst ` set rest" by blast
  with IH old new show ?case by simp
qed simp

section \<open>Calls\<close>

lemma thread_cases [consumes 1, case_names replayed existing created]:
  assumes "create_collaboration_thread part ses r now db = Inr (db', out)"
  obtains (replayed) rec row where "db' = db" "recalled (thread_key r) db = Some rec"
      "ir_request_sha256 rec = tr_request_hash r" "map_of (threads db) (tr_org r, ir_response_id rec) = Some row"
      "out = ((ir_response_id rec, row), True)"
  | (existing) k t where "db' = remember_call (thread_key r) (tr_request_hash r) (snd k) db"
      "recalled (thread_key r) db = None" "(k, t) \<in> set (threads db)" "fst k = tr_org r" "th_case t = tr_case r"
      "part (tr_org r) (tr_case r) (tr_actor r) ''advisor''" "out = ((snd k, t), False)"
  | (created) t where "db' = remember_call (thread_key r) (tr_request_hash r) (tr_thread r)
        (db\<lparr>threads := threads db @ [((tr_org r, tr_thread r), t)]\<rparr>)"
      "recalled (thread_key r) db = None" "t = \<lparr>th_case = tr_case r, th_created_by = tr_actor r, th_created_at = now\<rparr>"
      "map_of (threads db) (tr_org r, tr_thread r) = None"
      "map_of (case_rows db) (tr_org r, tr_case r) \<noteq> None"
      "\<And>k t'. (k, t') \<in> set (threads db) \<Longrightarrow> fst k = tr_org r \<Longrightarrow> th_case t' \<noteq> tr_case r"
      "part (tr_org r) (tr_case r) (tr_actor r) ''advisor''" "out = ((tr_thread r, t), False)"
proof (cases "recalled (thread_key r) db")
  case (Some rec)
  with assms replayed show ?thesis
    by (auto simp: create_collaboration_thread_def replay_Inr split: if_splits)
next
  case None
  show ?thesis
  proof (cases "find (\<lambda>(k, t). fst k = tr_org r \<and> th_case t = tr_case r) (threads db)")
    case (Some kt)
    with None assms show ?thesis
      by (auto simp: create_collaboration_thread_def split: if_splits dest!: find_SomeD intro!: existing)
  next
    case none: None
    show ?thesis
    proof (rule created)
      show "\<And>k t'. (k, t') \<in> set (threads db) \<Longrightarrow> fst k = tr_org r \<Longrightarrow> th_case t' \<noteq> tr_case r"
        using find_NoneD [OF none] by fastforce
    qed (use None none assms in \<open>auto simp: create_collaboration_thread_def Let_def split: if_splits\<close>)
  qed
qed

lemma append_cases [consumes 1, case_names replayed appended]:
  assumes "append_collaboration_message part ses r now db = Inr (db', out)"
  obtains (replayed) rec row where "db' = db" "recalled (message_key r) db = Some rec"
      "ir_request_sha256 rec = mr_request_hash r" "map_of (messages db) (mr_org r, ir_response_id rec) = Some row"
      "out = ((ir_response_id rec, row), True)"
  | (appended) t m where "db' = remember_call (message_key r) (mr_request_hash r) (mr_message r)
        (db\<lparr>messages := messages db @ [((mr_org r, mr_message r), m)]\<rparr>)"
      "recalled (message_key r) db = None" "map_of (threads db) (mr_org r, mr_thread r) = Some t"
      "part (mr_org r) (th_case t) (mr_actor r) (mr_role r)" "mr_role r \<in> {''advisor'', ''student'', ''parent''}"
      "length (thread_messages (mr_org r, mr_thread r) db) < 1000"
      "m = \<lparr>me_thread = mr_thread r, me_case = th_case t,
         me_sequence = next_message_sequence (mr_org r, mr_thread r) db, me_actor = mr_actor r,
         me_role = mr_role r, me_body = mr_body r, me_content_sha256 = mr_content_hash r,
         me_request_sha256 = mr_request_hash r, me_created_at = now\<rparr>"
      "map_of (messages db) (mr_org r, mr_message r) = None" "\<not> unsafe_message (mr_body r)"
      "out = ((mr_message r, m), False)"
proof (cases "recalled (message_key r) db")
  case (Some rec)
  with assms replayed show ?thesis
    by (auto simp: append_collaboration_message_def replay_Inr split: if_splits)
next
  case None
  with assms appended show ?thesis
    by (auto simp: append_collaboration_message_def assert_collaboration_context_def validate_collaboration_message_def
        insert_message_def Let_def split: if_splits option.splits)
qed

lemma propose_cases [consumes 1, case_names replayed known proposed]:
  assumes "propose_memory_candidate part ses r now db = Inr (db', out)"
  obtains (replayed) rec ca where "db' = db" "recalled (propose_key r) db = Some rec"
      "ir_request_sha256 rec = pq_request_hash r" "map_of (candidates db) (pq_org r, ir_response_id rec) = Some ca"
      "out = (view_candidate (pq_org r, ir_response_id rec) ca now db, True)"
  | (known) k ca where "db' = remember_call (propose_key r) (pq_request_hash r) (snd k) db"
      "recalled (propose_key r) db = None" "(k, ca) \<in> set (candidates db)" "fst k = pq_org r"
      "ca_message ca = pq_message r" "same_proposal r ca" "out = (view_candidate k ca now db, False)"
  | (proposed) m c where "db' = remember_call (propose_key r) (pq_request_hash r) (pq_candidate r)
        (db\<lparr>candidates := candidates db @ [((pq_org r, pq_candidate r), new_candidate r m now)]\<rparr>)"
      "recalled (propose_key r) db = None" "map_of (messages db) (pq_org r, pq_message r) = Some m"
      "me_actor m = pq_actor r" "me_role m = pq_role r" "part (pq_org r) (me_case m) (pq_actor r) (pq_role r)"
      "map_of (case_rows db) (pq_org r, me_case m) = Some c" "sc_current_revision c = pq_revision r"
      "validate_collaboration_fact (pq_role r) (pq_key r) (Some (pq_value r)) = Inr ()"
      "map_of (candidates db) (pq_org r, pq_candidate r) = None"
      "\<And>k ca. (k, ca) \<in> set (candidates db) \<Longrightarrow> fst k = pq_org r \<Longrightarrow> ca_message ca \<noteq> pq_message r"
proof (cases "recalled (propose_key r) db")
  case (Some rec)
  with assms replayed show ?thesis
    by (auto simp: propose_memory_candidate_def replay_Inr split: if_splits)
next
  case None
  with assms obtain m db1 i ca where m: "proposal_source part r db = Inr m"
    and c: "candidate_of_message r m now db = Inr (db1, i, ca)"
    and out: "db' = remember_call (propose_key r) (pq_request_hash r) i db1"
      "out = (view_candidate (pq_org r, i) ca now db1, False)"
    and v: "validate_collaboration_fact (pq_role r) (pq_key r) (Some (pq_value r)) = Inr ()"
    by (auto simp: propose_memory_candidate_def split: if_splits)
  show ?thesis
  proof (cases "find (\<lambda>(k, ca). fst k = pq_org r \<and> ca_message ca = pq_message r) (candidates db)")
    case (Some kc)
    with c out None show ?thesis
      by (auto simp: candidate_of_message_def split: if_splits dest!: find_SomeD intro!: known)
  next
    case none: None
    from m obtain cs where "map_of (messages db) (pq_org r, pq_message r) = Some m" "me_actor m = pq_actor r"
      "me_role m = pq_role r" "part (pq_org r) (me_case m) (pq_actor r) (pq_role r)"
      "map_of (case_rows db) (pq_org r, me_case m) = Some cs" "sc_current_revision cs = pq_revision r"
      by (auto simp: proposal_source_def split: option.splits if_splits)
    moreover have "ca_message ca' \<noteq> pq_message r" if "(k, ca') \<in> set (candidates db)" "fst k = pq_org r" for k ca'
      using find_NoneD [OF none that(1)] that(2) by simp
    moreover from none c out have "map_of (candidates db) (pq_org r, pq_candidate r) = None"
      "db' = remember_call (propose_key r) (pq_request_hash r) (pq_candidate r)
        (db\<lparr>candidates := candidates db @ [((pq_org r, pq_candidate r), new_candidate r m now)]\<rparr>)"
      by (auto simp: candidate_of_message_def Let_def split: if_splits)
    ultimately show ?thesis using None v proposed by metis
  qed
qed

section \<open>Verification\<close>

definition verification_row_of :: "verify_candidate_request \<Rightarrow> uuid \<Rightarrow> int option \<Rightarrow> verification_row" where
  "verification_row_of r of_case result =
     \<lparr>ve_candidate = vy_candidate r, ve_case = of_case, ve_advisor = vy_actor r, ve_decision = vy_decision r,
      ve_reason = vy_reason r, ve_request_sha256 = vy_request_hash r, ve_fact = vy_fact r, ve_revision = result\<rparr>"

lemma insert_candidate_verification_Inr:
  "insert_candidate_verification r cs res db = Inr db' \<longleftrightarrow>
     map_of (verifications db) (vy_org r, vy_verification r) = None
     \<and> db' = db\<lparr>verifications := verifications db @ [((vy_org r, vy_verification r), verification_row_of r cs res)]\<rparr>"
  by (auto simp: insert_candidate_verification_def verification_row_of_def)

text \<open>The target of an admitted verification.\<close>

definition admitted :: "participants \<Rightarrow> verify_candidate_request \<Rightarrow> timestamp \<Rightarrow> collaboration_db \<Rightarrow> verification_target \<Rightarrow> bool" where
  "admitted part r now db target \<longleftrightarrow>
     (let (ca, c, prior, run) = target; k = (vy_org r, ca_case ca) in
      map_of (candidates db) (vy_org r, vy_candidate r) = Some ca \<and> map_of (case_rows db) k = Some c
      \<and> part (vy_org r) (ca_case ca) (vy_actor r) ''advisor''
      \<and> verification_of (vy_org r, vy_candidate r) db = None
      \<and> ca_revision ca = vy_revision r \<and> sc_current_revision c = vy_revision r \<and> now < ca_expires_at ca
      \<and> sc_state c \<in> {CS_INTAKE, CS_PLANNING}
      \<and> validate_collaboration_fact (ca_role ca) (ca_key ca) (Some (ca_value ca)) = Inr ()
      \<and> prior = find (\<lambda>(kf, f). cf_key f = ca_key ca) (facts_in_force k (confirmed db))
      \<and> current_runs k db = (case run of None \<Rightarrow> [] | Some q \<Rightarrow> [q]))"

lemma short_list: "\<not> 1 < length xs \<Longrightarrow> xs = (case first_of xs of None \<Rightarrow> [] | Some x \<Rightarrow> [x])"
  by (cases xs) (auto simp: first_of_def)

lemma admit_verification_Inr:
  assumes "admit_verification part r now db = Inr target"
  shows "admitted part r now db target"
proof -
  obtain ca c prior run where t: "target = (ca, c, prior, run)" by (cases target)
  from assms have "\<not> 1 < length (current_runs (vy_org r, ca_case ca) db)"
    and "run = first_of (current_runs (vy_org r, ca_case ca) db)"
    by (auto simp: t admit_verification_def Let_def split: option.splits if_splits)
  then have "current_runs (vy_org r, ca_case ca) db = (case run of None \<Rightarrow> [] | Some q \<Rightarrow> [q])"
    using short_list by metis
  with assms show ?thesis
    by (auto simp: t admitted_def admit_verification_def Let_def simp del: split_paired_All split_paired_Ex
        split: option.splits if_splits)
qed

definition run_rows_after ::
  "(row_key \<times> planning_run) option \<Rightarrow> (row_key \<times> planning_run) list \<Rightarrow> (row_key \<times> planning_run) list" where
  "run_rows_after run rows =
     (case run of None \<Rightarrow> rows | Some (kq, q) \<Rightarrow> AList.update kq (q\<lparr>run_is_current := False\<rparr>) rows)"

text \<open>The tables after the confirmation of a target: fact \<open>i\<close> and revision \<open>n\<close> are new.\<close>

definition confirmed_db ::
  "verify_candidate_request \<Rightarrow> verification_target \<Rightarrow> timestamp \<Rightarrow> uuid \<Rightarrow> revision_row \<Rightarrow> collaboration_db \<Rightarrow> collaboration_db" where
  "confirmed_db r target now i row' db =
     (let (ca, c, prior, run) = target; k = (vy_org r, ca_case ca); n = vy_revision r + 1;
          rows = confirmed db @ [((vy_org r, i), new_fact r ca prior now)]; b = base (core db) in
      db\<lparr>core := (core db)\<lparr>base := b\<lparr>cases := AList.update k (c\<lparr>sc_current_revision := n\<rparr>) (cases b),
             runs := run_rows_after run (runs b)\<rparr>\<rparr>,
         verifications := verifications db @ [((vy_org r, vy_verification r), verification_row_of r (ca_case ca) (Some n))],
         confirmed := rows,
         revision_rows := revision_rows db @ [((k, n), row')],
         fact_refs := fact_refs db @ map (\<lambda>(fk, j). (((k, n), fk), j)) (refs_of k (ca_key ca) i rows)\<rparr>)"

lemma confirmed_db_simps [simp]:
  "threads (confirmed_db r target now i row' db) = threads db"
  "messages (confirmed_db r target now i row' db) = messages db"
  "candidates (confirmed_db r target now i row' db) = candidates db"
  "idempotency (base (core (confirmed_db r target now i row' db))) = idempotency (base (core db))"
  by (simp_all add: confirmed_db_def Let_def split: prod.splits)

text \<open>What holds when the statements of a confirmation succeed.\<close>

definition confirmable ::
  "intake_sources \<Rightarrow> session \<Rightarrow> verify_candidate_request \<Rightarrow> verification_target \<Rightarrow> timestamp \<Rightarrow> uuid \<Rightarrow> revision_row
     \<Rightarrow> revision_row \<Rightarrow> collaboration_db \<Rightarrow> bool" where
  "confirmable sources ses r target now i row row' db \<longleftrightarrow>
     (let (ca, c, prior, run) = target; k = (vy_org r, ca_case ca); n = vy_revision r + 1;
          f = new_fact r ca prior now;
          review = revision_review k (ca_revision ca) (map_option fst run) db in
      vy_fact r = Some i
      \<and> admit_revision k ca c (map_option fst run) review db = Inr ()
      \<and> map_of (revision_rows db) (k, vy_revision r) = Some row \<and> check_projection row = Inr ()
      \<and> check_intake_change sources ses (vy_org r) ca row run = Inr ()
      \<and> map_of (verifications db) (vy_org r, vy_verification r) = None
      \<and> map_of (confirmed db) (vy_org r, i) = None
      \<and> \<not> list_ex (\<lambda>(k', f'). fst k' = vy_org r \<and> cf_case f' = cf_case f \<and> cf_key f' = cf_key f
              \<and> (cf_version f' = cf_version f \<or> cf_supersedes f \<noteq> None \<and> cf_supersedes f' = cf_supersedes f))
              (confirmed db)
      \<and> map_of (revision_rows db) (k, n) = None
      \<and> (rv_student row', rv_family row') = next_projection (ca_key ca) (ca_value ca) (rv_student row, rv_family row)
      \<and> rv_review row' = review \<and> rv_superseded row' = map_option (\<lambda>(kq, q). snd kq) run
      \<and> (review = None \<longleftrightarrow> run = None)
      \<and> distinct (map fst (refs_of k (ca_key ca) i (confirmed db @ [((vy_org r, i), f)])))
      \<and> (\<forall>fk \<in> fst ` set (refs_of k (ca_key ca) i (confirmed db @ [((vy_org r, i), f)])).
            map_of (fact_refs db) ((k, n), fk) = None)
      \<and> (case run of None \<Rightarrow> True | Some (kq, q) \<Rightarrow> guard_run_retirement q n = Inr ()))"

lemma insert_fact_Inr:
  "insert_fact k f db = Inr db' \<longleftrightarrow>
     map_of (confirmed db) k = None
     \<and> \<not> list_ex (\<lambda>(k', f'). fst k' = fst k \<and> cf_case f' = cf_case f \<and> cf_key f' = cf_key f
          \<and> (cf_version f' = cf_version f \<or> cf_supersedes f \<noteq> None \<and> cf_supersedes f' = cf_supersedes f))
          (confirmed db)
     \<and> db' = db\<lparr>confirmed := confirmed db @ [(k, f)]\<rparr>"
  by (auto simp: insert_fact_def)

lemma insert_revision_Inr:
  "insert_revision k n row db = Inr db' \<Longrightarrow>
     (rv_review row = None \<longleftrightarrow> rv_superseded row = None) \<and> map_of (revision_rows db) (k, n) = None
     \<and> db' = db\<lparr>revision_rows := revision_rows db @ [((k, n), row)]\<rparr>"
  by (auto simp: insert_revision_def split: if_splits)

lemma confirm_Inr:
  assumes "confirm_candidate sources ses r target now db = Inr db'" "vy_fact r \<noteq> None"
  shows "\<exists>i row row'. confirmable sources ses r target now i row row' db
    \<and> db' = audit_call r (ca_case (fst target)) ''memory_candidate_confirmed''
         (Payload_fact i (vy_revision r + 1)) (confirmed_db r target now i row' db)"
proof -
  obtain ca c prior run where t: "target = (ca, c, prior, run)" by (cases target)
  from assms(2) obtain i where i: "vy_fact r = Some i" by blast
  let ?k = "(vy_org r, ca_case ca)" and ?n = "vy_revision r + 1" and ?f = "new_fact r ca prior now"
  let ?review = "revision_review ?k (ca_revision ca) (map_option fst run) db"
  let ?row' = "\<lambda>row. \<lparr>rv_student = fst (next_projection (ca_key ca) (ca_value ca) (rv_student row, rv_family row)),
      rv_family = snd (next_projection (ca_key ca) (ca_value ca) (rv_student row, rv_family row)), rv_review = ?review,
      rv_superseded = map_option (\<lambda>(kq, q). snd kq) run\<rparr>"
  from assms(1) i obtain row db1 db2 db3 db4 db5 where
    adm: "admit_revision ?k ca c (map_option fst run) ?review db = Inr ()"
    and row: "map_of (revision_rows db) (?k, vy_revision r) = Some row" "check_projection row = Inr ()"
      "check_intake_change sources ses (vy_org r) ca row run = Inr ()"
    and v: "insert_candidate_verification r (ca_case ca) (Some ?n) db = Inr db1"
    and f: "insert_fact (vy_org r, i) ?f db1 = Inr db2"
    and rv: "insert_revision ?k ?n (?row' row) db2 = Inr db3"
    and refs: "insert_refs (?k, ?n) (refs_of ?k (ca_key ca) i (confirmed db3)) db3 = Inr db4"
    and rt: "retire_run run ?n (move_case ?k c ?n db4) = Inr db5"
    and db': "db' = audit_call r (ca_case ca) ''memory_candidate_confirmed'' (Payload_fact i ?n) db5"
    by (auto simp: t confirm_candidate_def Let_def int4_def split: option.splits if_splits prod.splits)
  note v' = v [unfolded insert_candidate_verification_Inr] and f' = f [unfolded insert_fact_Inr]
    and rv' = insert_revision_Inr [OF rv] and refs' = insert_refs_Inr [OF refs]
  have "db5 = confirmed_db r target now i (?row' row) db"
    using rt v' f' rv' refs' by (auto simp: t retire_run_def confirmed_db_def run_rows_after_def Let_def move_case_def split: option.splits)
  moreover have "confirmable sources ses r target now i row (?row' row) db"
    using adm row i v' f' rv' refs' rt
    by (auto simp: t confirmable_def Let_def retire_run_def split: option.splits)
  ultimately show ?thesis using db' by (auto simp: t)
qed

lemma candidate_verify_cases [consumes 1, case_names replayed rejected confirmed]:
  assumes "verify_memory_candidate sources part ses r now db = Inr (db', out)"
  obtains (replayed) rec v where "db' = db" "recalled (verify_key r) db = Some rec"
      "ir_request_sha256 rec = vy_request_hash r" "map_of (verifications db) (vy_org r, ir_response_id rec) = Some v"
      "out = (ir_response_id rec, v, True)"
  | (rejected) ca c prior run where "recalled (verify_key r) db = None" "admitted part r now db (ca, c, prior, run)"
      "vy_decision r = ''reject''" "vy_fact r = None"
      "map_of (verifications db) (vy_org r, vy_verification r) = None"
      "db' = remember_call (verify_key r) (vy_request_hash r) (vy_verification r)
         (audit_call r (ca_case ca) ''memory_candidate_rejected'' (Payload_candidate (vy_candidate r))
           (db\<lparr>verifications := verifications db @
              [((vy_org r, vy_verification r), verification_row_of r (ca_case ca) None)]\<rparr>))"
  | (confirmed) ca c prior run i row row' where "recalled (verify_key r) db = None"
      "admitted part r now db (ca, c, prior, run)" "vy_decision r = ''confirm''" "0 < vy_revision r"
      "confirmable sources ses r (ca, c, prior, run) now i row row' db"
      "db' = remember_call (verify_key r) (vy_request_hash r) (vy_verification r)
         (audit_call r (ca_case ca) ''memory_candidate_confirmed'' (Payload_fact i (vy_revision r + 1))
           (confirmed_db r (ca, c, prior, run) now i row' db))"
proof (cases "recalled (verify_key r) db")
  case (Some rec)
  with assms replayed show ?thesis
    by (auto simp: verify_memory_candidate_def replay_Inr split: if_splits)
next
  case None
  from assms have c: "verify_contract r" by (rule contrapos_pp) (simp add: verify_memory_candidate_def)
  with None assms obtain target db1 where t: "admit_verification part r now db = Inr target"
    and run: "(if vy_decision r = ''reject'' then reject_candidate r (fst target) db
               else confirm_candidate sources ses r target now db) = Inr db1"
    and db': "db' = remember_call (verify_key r) (vy_request_hash r) (vy_verification r) db1"
    by (auto simp: verify_memory_candidate_def)
  obtain ca cs prior q where target: "target = (ca, cs, prior, q)" by (cases target)
  note adm = admit_verification_Inr [OF t]
  show ?thesis
  proof (cases "vy_decision r = ''reject''")
    case True
    with run c have "vy_fact r = None" "map_of (verifications db) (vy_org r, vy_verification r) = None"
      "db1 = audit_call r (ca_case ca) ''memory_candidate_rejected'' (Payload_candidate (vy_candidate r))
           (db\<lparr>verifications := verifications db @
              [((vy_org r, vy_verification r), verification_row_of r (ca_case ca) None)]\<rparr>)"
      by (auto simp: verify_contract_def reject_candidate_def insert_candidate_verification_Inr target)
    with rejected [OF None adm [unfolded target] True] db' show ?thesis by simp
  next
    case False
    with c have d: "vy_decision r = ''confirm''" "vy_fact r \<noteq> None" "0 < vy_revision r"
      by (auto simp: verify_contract_def)
    from False run have "confirm_candidate sources ses r target now db = Inr db1" by simp
    from confirm_Inr [OF this d(2)] obtain i row row' where
      "confirmable sources ses r target now i row row' db"
      "db1 = audit_call r (ca_case (fst target)) ''memory_candidate_confirmed''
         (Payload_fact i (vy_revision r + 1)) (confirmed_db r target now i row' db)" by blast
    with confirmed [OF None adm [unfolded target] d(1,3)] db' show ?thesis by (simp add: target)
  qed
qed

end
