(* ===== verification/Collaboration_System.thy ===== *)
theory Collaboration_System
  imports Collaboration_Effects Decision_Safety
begin

text \<open>
  The collaboration authority composed with the decision and task authorities: one step per successful call,
  and the chains that the confirmed facts of a case form.
\<close>

section \<open>Steps\<close>

definition COLLABORATION_OPERATIONS :: "string set" where
  "COLLABORATION_OPERATIONS = {''collaboration_thread_create'', ''collaboration_message_append'',
     ''memory_candidate_propose'', ''memory_candidate_verify''}"

text \<open>The calls of the authorities underneath, and the writes of other components.\<close>

inductive core_call :: "decision_facts \<Rightarrow> decision_db \<Rightarrow> decision_db \<Rightarrow> bool" for facts where
  core_review: "review_planning_run part facts ses r db = Inr (db', out) \<Longrightarrow> core_call facts db db'"
| core_decide: "decide_family_brief part facts ses y db = Inr (db', out') \<Longrightarrow> core_call facts db db'"
| core_task: "task_call (base db) b \<Longrightarrow> core_call facts db (db\<lparr>base := b\<rparr>)"
| core_other: "(\<And>key. ik_operation key \<in> TASK_OPERATIONS \<union> DECISION_OPERATIONS \<union> COLLABORATION_OPERATIONS \<Longrightarrow>
        map_of ids key = map_of (idempotency (base db)) key) \<Longrightarrow>
     core_call facts db (db\<lparr>base := (base db)\<lparr>idempotency := ids\<rparr>, audit := audit db @ rows\<rparr>)"

inductive collaboration_step :: "decision_facts \<Rightarrow> collaboration_db \<Rightarrow> collaboration_db \<Rightarrow> bool" for facts where
  thread: "create_collaboration_thread part ses r now db = Inr (db', out) \<Longrightarrow> collaboration_step facts db db'"
| append: "append_collaboration_message part ses m now db = Inr (db', out') \<Longrightarrow> collaboration_step facts db db'"
| propose: "propose_memory_candidate part ses p now db = Inr (db', out'') \<Longrightarrow> collaboration_step facts db db'"
| verify: "verify_memory_candidate sources part ses v now db = Inr (db', out3) \<Longrightarrow> collaboration_step facts db db'"
| first: "publish_case_revision ses org i None 1 s f db = Inr db' \<Longrightarrow> collaboration_step facts db db'"
| beneath: "core_call facts (core db) d \<Longrightarrow> collaboration_step facts db (db\<lparr>core := d\<rparr>)"

definition collaboration_reachable :: "decision_facts \<Rightarrow> collaboration_db \<Rightarrow> bool" where
  "collaboration_reachable facts db \<longleftrightarrow> (collaboration_step facts)\<^sup>*\<^sup>* empty_collaboration_db db"

declare split_paired_All [simp del] split_paired_Ex [simp del]

section \<open>Chains\<close>

text \<open>The facts of one key of a case, in the order of their confirmation.\<close>

definition lineage :: "row_key \<Rightarrow> string \<Rightarrow> (row_key \<times> fact_row) list \<Rightarrow> (row_key \<times> fact_row) list" where
  "lineage k fk rows = filter (\<lambda>(k', f). fst k' = fst k \<and> cf_case f = snd k \<and> cf_key f = fk) rows"

definition chained :: "(row_key \<times> fact_row) list \<Rightarrow> bool" where
  "chained l \<longleftrightarrow> distinct (map fst l)
     \<and> (\<forall>i < length l. cf_version (snd (l ! i)) = int i + 1
          \<and> cf_supersedes (snd (l ! i)) = (if i = 0 then None else Some (snd (fst (l ! (i - 1))))))"

definition in_force :: "row_key \<Rightarrow> string \<Rightarrow> (row_key \<times> fact_row) list \<Rightarrow> (row_key \<times> fact_row) option" where
  "in_force k fk rows = (let l = lineage k fk rows in if l = [] then None else Some (last l))"

lemma chained_Nil [simp]: "chained []"
  by (simp add: chained_def)

lemma chained_snoc:
  "chained (l @ [(k, f)]) \<longleftrightarrow> chained l \<and> k \<notin> fst ` set l \<and> cf_version f = int (length l) + 1
     \<and> cf_supersedes f = (if l = [] then None else Some (snd (fst (last l))))"
proof -
  have "(if length l = 0 then None else Some (snd (fst ((l @ [(k, f)]) ! (length l - 1)))))
      = (if l = [] then None else Some (snd (fst (last l))))"
    by (auto simp: nth_append last_conv_nth)
  moreover have "(\<forall>i < length l. cf_version (snd ((l @ [(k, f)]) ! i)) = int i + 1
          \<and> cf_supersedes (snd ((l @ [(k, f)]) ! i)) = (if i = 0 then None else Some (snd (fst ((l @ [(k, f)]) ! (i - 1))))))
      \<longleftrightarrow> (\<forall>i < length l. cf_version (snd (l ! i)) = int i + 1
          \<and> cf_supersedes (snd (l ! i)) = (if i = 0 then None else Some (snd (fst (l ! (i - 1))))))"
    by (rule all_cong) (simp add: nth_append less_imp_diff_less)
  ultimately show ?thesis
    by (auto simp: chained_def less_Suc_eq all_conj_distrib nth_append_length)
qed

lemma lineage_snoc:
  "lineage k fk (rows @ [(k', f)]) =
     lineage k fk rows @ (if fst k' = fst k \<and> cf_case f = snd k \<and> cf_key f = fk then [(k', f)] else [])"
  by (simp add: lineage_def)

lemma chained_leaf:
  assumes "chained l" and org: "\<And>k f. (k, f) \<in> set l \<Longrightarrow> fst k = org" and x: "x \<in> set l"
  shows "list_ex (\<lambda>(k', s). cf_supersedes s = Some (snd (fst x))) l \<longleftrightarrow> x \<noteq> last l"
proof -
  from assms(1) have d: "distinct (map fst l)" and dl: "distinct l"
    by (auto simp: chained_def distinct_map)
  from x obtain i where i: "i < length l" "x = l ! i" by (auto simp: in_set_conv_nth)
  show ?thesis
  proof
    assume "list_ex (\<lambda>(k', s). cf_supersedes s = Some (snd (fst x))) l"
    then obtain j where j: "j < length l" "cf_supersedes (snd (l ! j)) = Some (snd (fst x))"
      by (auto simp: list_ex_iff in_set_conv_nth)
    with assms(1) have "0 < j" "snd (fst (l ! (j - 1))) = snd (fst x)"
      by (auto simp: chained_def split: if_splits)
    moreover from this j have "fst (fst (l ! (j - 1))) = fst (fst x)"
      using org [of "fst (l ! (j - 1))"] org [of "fst x"] x by (metis less_imp_diff_less nth_mem prod.collapse)
    ultimately have "map fst l ! (j - 1) = map fst l ! i" using i j by (auto simp: prod_eq_iff)
    with d i j have "j - 1 = i" by (subst (asm) nth_eq_iff_index_eq) auto
    with \<open>0 < j\<close> j i have "i \<noteq> length l - 1" by linarith
    with i dl show "x \<noteq> last l" by (subst last_conv_nth) (auto simp: nth_eq_iff_index_eq)
  next
    assume "x \<noteq> last l"
    with i have "Suc i < length l" using last_conv_nth [of l] by (metis Suc_lessI diff_Suc_1 length_greater_0_conv list.size(3) not_less_zero)
    with assms(1) i have "cf_supersedes (snd (l ! Suc i)) = Some (snd (fst x))" by (simp add: chained_def)
    with \<open>Suc i < length l\<close> show "list_ex (\<lambda>(k', s). cf_supersedes s = Some (snd (fst x))) l"
      by (auto simp: list_ex_iff intro!: bexI [OF _ nth_mem [of "Suc i"]])
  qed
qed

lemma list_ex_filter: "list_ex P (filter Q xs) \<longleftrightarrow> list_ex (\<lambda>x. Q x \<and> P x) xs"
  by (induction xs) auto

lemma succeeded_lineage:
  "succeeded k' f rows \<longleftrightarrow>
     list_ex (\<lambda>(k'', s). cf_supersedes s = Some (snd k')) (lineage (fst k', cf_case f) (cf_key f) rows)"
  by (simp add: succeeded_def lineage_def list_ex_filter case_prod_unfold conj_assoc)

text \<open>Exactly one fact of a chain is in force: its last.\<close>

lemma facts_in_force_key:
  assumes "chained (lineage k fk rows)"
  shows "filter (\<lambda>(k', f). cf_key f = fk) (facts_in_force k rows) = (case in_force k fk rows of None \<Rightarrow> [] | Some x \<Rightarrow> [x])"
proof -
  let ?l = "lineage k fk rows"
  have "filter (\<lambda>(k', f). cf_key f = fk) (facts_in_force k rows) = filter (\<lambda>(k', f). \<not> succeeded k' f rows) ?l"
    by (auto simp: facts_in_force_def lineage_def intro: filter_cong)
  also have "\<dots> = filter (\<lambda>x. x = last ?l) ?l"
  proof (rule filter_cong [OF refl])
    fix x assume x: "x \<in> set ?l"
    then have "lineage (fst (fst x), cf_case (snd x)) (cf_key (snd x)) rows = ?l"
      by (auto simp: lineage_def)
    with chained_leaf [OF assms _ x, of "fst k"] have "succeeded (fst x) (snd x) rows \<longleftrightarrow> x \<noteq> last ?l"
      by (auto simp: succeeded_lineage lineage_def [of k])
    then show "(case x of (k', f) \<Rightarrow> \<not> succeeded k' f rows) \<longleftrightarrow> x = last ?l" by (cases x) simp
  qed
  also have "\<dots> = (case in_force k fk rows of None \<Rightarrow> [] | Some x \<Rightarrow> [x])"
  proof (cases "?l = []")
    case False
    then obtain ys y where l: "?l = ys @ [y]" by (metis append_butlast_last_id)
    with assms have "y \<notin> set ys" by (auto simp: chained_def distinct_map)
    then show ?thesis by (auto simp: in_force_def l Let_def filter_empty_conv)
  qed (simp add: in_force_def)
  finally show ?thesis .
qed

lemma facts_in_force_mem:
  assumes "chained (lineage k fk rows)"
  shows "(k', f) \<in> set (facts_in_force k rows) \<and> cf_key f = fk \<longleftrightarrow> in_force k fk rows = Some (k', f)"
proof -
  have "(k', f) \<in> set (facts_in_force k rows) \<and> cf_key f = fk
      \<longleftrightarrow> (k', f) \<in> set (filter (\<lambda>(k', f). cf_key f = fk) (facts_in_force k rows))" by auto
  also have "\<dots> \<longleftrightarrow> in_force k fk rows = Some (k', f)"
    unfolding facts_in_force_key [OF assms] by (auto split: option.splits)
  finally show ?thesis .
qed

lemma find_in_force:
  assumes "chained (lineage k fk rows)"
  shows "find (\<lambda>(k', f). cf_key f = fk) (facts_in_force k rows) = in_force k fk rows"
proof -
  have "find P xs = first_of (filter P xs)" for P and xs :: "(row_key \<times> fact_row) list"
    by (induction xs) (auto simp: first_of_def)
  then show ?thesis by (simp add: facts_in_force_key [OF assms] first_of_def split: option.splits)
qed

lemma in_force_snoc:
  "in_force k fk (rows @ [(k', f)]) =
     (if fst k' = fst k \<and> cf_case f = snd k \<and> cf_key f = fk then Some (k', f) else in_force k fk rows)"
  by (simp add: in_force_def lineage_snoc)

end
