(* ===== verification/Collaboration_Invariant.thy ===== *)
theory Collaboration_Invariant
  imports Collaboration_System
begin

text \<open>
  The invariant of the collaboration database: gapless threads, one candidate per message and one verification per
  candidate, facts that trace back to a verified candidate and form one chain per key, and case revisions that
  carry exactly the facts in force.
\<close>

section \<open>Predicates\<close>

definition threads_ok :: "collaboration_db \<Rightarrow> bool" where
  "threads_ok db \<longleftrightarrow> unique_by th_case (threads db)"

definition messages_ok :: "collaboration_db \<Rightarrow> bool" where
  "messages_ok db \<longleftrightarrow>
     distinct (map fst (messages db))
     \<and> (\<forall>k. length (thread_messages k db) \<le> 1000
          \<and> map (\<lambda>(km, m). me_sequence m) (thread_messages k db)
              = map int [1..<Suc (length (thread_messages k db))])
     \<and> (\<forall>k m. map_of (messages db) k = Some m \<longrightarrow> me_role m \<in> {''advisor'', ''student'', ''parent''}
          \<and> (\<exists>t. map_of (threads db) (fst k, me_thread m) = Some t \<and> th_case t = me_case m))"

definition candidate_ok :: "collaboration_db \<Rightarrow> row_key \<Rightarrow> candidate_row \<Rightarrow> bool" where
  "candidate_ok db k ca \<longleftrightarrow>
     validate_collaboration_fact (ca_role ca) (ca_key ca) (Some (ca_value ca)) = Inr ()
     \<and> ca_expires_at ca = ca_created_at ca + SEVEN_DAYS
     \<and> (\<exists>m. map_of (messages db) (fst k, ca_message ca) = Some m \<and> me_actor m = ca_subject ca
          \<and> me_role m = ca_role ca \<and> me_case m = ca_case ca)"

definition candidates_ok :: "collaboration_db \<Rightarrow> bool" where
  "candidates_ok db \<longleftrightarrow>
     unique_by ca_message (candidates db)
     \<and> (\<forall>k ca. map_of (candidates db) k = Some ca \<longrightarrow> candidate_ok db k ca)"

definition verification_ok :: "collaboration_db \<Rightarrow> row_key \<Rightarrow> verification_row \<Rightarrow> bool" where
  "verification_ok db k v \<longleftrightarrow>
     (\<exists>ca. map_of (candidates db) (fst k, ve_candidate v) = Some ca \<and> ve_case v = ca_case ca
        \<and> (ve_decision v = ''reject'' \<and> ve_fact v = None \<and> ve_revision v = None
           \<or> ve_decision v = ''confirm''
             \<and> (\<exists>i f. ve_fact v = Some i \<and> ve_revision v = Some (ca_revision ca + 1)
                  \<and> map_of (confirmed db) (fst k, i) = Some f \<and> cf_candidate f = ve_candidate v
                  \<and> cf_advisor f = ve_advisor v)))"

definition verifications_ok :: "collaboration_db \<Rightarrow> bool" where
  "verifications_ok db \<longleftrightarrow>
     unique_by ve_candidate (verifications db)
     \<and> (\<forall>k v. map_of (verifications db) k = Some v \<longrightarrow> verification_ok db k v)"

text \<open>A fact repeats its candidate, was confirmed while the candidate was alive, and has its verification.\<close>

definition fact_ok :: "collaboration_db \<Rightarrow> row_key \<Rightarrow> fact_row \<Rightarrow> bool" where
  "fact_ok db k f \<longleftrightarrow>
     (\<exists>ca i v. map_of (candidates db) (fst k, cf_candidate f) = Some ca
        \<and> cf_case f = ca_case ca \<and> cf_key f = ca_key ca \<and> cf_value f = ca_value ca \<and> cf_message f = ca_message ca
        \<and> cf_subject f = ca_subject ca \<and> cf_role f = ca_role ca \<and> cf_confirmed_at f < ca_expires_at ca
        \<and> map_of (verifications db) (fst k, i) = Some v \<and> ve_candidate v = cf_candidate f
        \<and> ve_decision v = ''confirm'' \<and> ve_fact v = Some (snd k) \<and> ve_advisor v = cf_advisor f)"

definition facts_ok :: "collaboration_db \<Rightarrow> bool" where
  "facts_ok db \<longleftrightarrow>
     distinct (map fst (confirmed db)) \<and> (\<forall>k fk. chained (lineage k fk (confirmed db)))
     \<and> (\<forall>k f. map_of (confirmed db) k = Some f \<longrightarrow> fact_ok db k f)"

text \<open>The preference of a revision that a fact key names.\<close>

definition preference :: "string \<Rightarrow> revision_row \<Rightarrow> jsonb option" where
  "preference fk row =
     (if fk = ''student.intended_field'' then jb_get (rv_student row) ''intended_field''
      else if fk = ''student.preferred_countries'' then jb_get (rv_student row) ''preferred_countries''
      else if fk = ''student.intake'' then jb_get (rv_student row) ''intake''
      else if fk = ''family.risk_tolerance'' then jb_get (rv_family row) ''risk_tolerance''
      else if fk = ''family.japan_risk_accepted'' then jb_get (rv_family row) ''japan_risk_accepted''
      else if fk = ''family.budget'' then jb_get (rv_family row) ''budget'' else None)"

definition ref_ok :: "collaboration_db \<Rightarrow> row_key \<Rightarrow> int \<Rightarrow> string \<Rightarrow> uuid \<Rightarrow> bool" where
  "ref_ok db k n fk i \<longleftrightarrow>
     (\<exists>row f. map_of (revision_rows db) (k, n) = Some row \<and> map_of (confirmed db) (fst k, i) = Some f
        \<and> cf_case f = snd k \<and> cf_key f = fk \<and> preference fk row = Some (cf_value f))"

definition current_of :: "row_key \<Rightarrow> collaboration_db \<Rightarrow> int option" where
  "current_of k db = map_option sc_current_revision (map_of (case_rows db) k)"

definition revisions_ok :: "collaboration_db \<Rightarrow> bool" where
  "revisions_ok db \<longleftrightarrow>
     distinct (map fst (run_rows db)) \<and> (\<forall>k n. current_of k db = Some n \<longrightarrow> 1 \<le> n)
     \<and> (\<forall>k n. map_of (revision_rows db) (k, n) \<noteq> None \<longleftrightarrow>
          (case current_of k db of None \<Rightarrow> False | Some m \<Rightarrow> 1 \<le> n \<and> n \<le> m))
     \<and> (\<forall>k n fk i. map_of (fact_refs db) ((k, n), fk) = Some i \<longrightarrow> ref_ok db k n fk i)
     \<and> (\<forall>k n fk. current_of k db = Some n \<longrightarrow>
          map_of (fact_refs db) ((k, n), fk) = map_option (\<lambda>(kf, f). snd kf) (in_force k fk (confirmed db)))
     \<and> (\<forall>k f. map_of (confirmed db) k = Some f \<longrightarrow> current_of (fst k, cf_case f) db \<noteq> None)"

definition collaboration_invariant :: "collaboration_db \<Rightarrow> bool" where
  "collaboration_invariant db \<longleftrightarrow>
     threads_ok db \<and> messages_ok db \<and> candidates_ok db \<and> verifications_ok db \<and> facts_ok db \<and> revisions_ok db"

lemma collaboration_invariant_empty: "collaboration_invariant empty_collaboration_db"
  by (simp add: collaboration_invariant_def threads_ok_def messages_ok_def candidates_ok_def verifications_ok_def
      facts_ok_def revisions_ok_def empty_collaboration_db_def empty_decision_db_def empty_db_def unique_by_def
      thread_messages_def lineage_def current_of_def)

section \<open>Frames\<close>

lemma threads_ok_cong: "threads db' = threads db \<Longrightarrow> threads_ok db' = threads_ok db"
  by (simp add: threads_ok_def)

lemma messages_ok_mono:
  assumes "messages_ok db" "messages db' = messages db" "map_of (threads db) \<subseteq>\<^sub>m map_of (threads db')"
  shows "messages_ok db'"
  using assms(1) map_leD [OF assms(3)] unfolding messages_ok_def thread_messages_def assms(2) by blast

lemma candidates_ok_mono:
  assumes "candidates_ok db" "candidates db' = candidates db" "map_of (messages db) \<subseteq>\<^sub>m map_of (messages db')"
  shows "candidates_ok db'"
  using assms(1) map_leD [OF assms(3)] unfolding candidates_ok_def candidate_ok_def assms(2) by blast

lemma verification_ok_mono:
  assumes "verification_ok db k v" "map_of (candidates db) \<subseteq>\<^sub>m map_of (candidates db')"
    and "map_of (confirmed db) \<subseteq>\<^sub>m map_of (confirmed db')"
  shows "verification_ok db' k v"
  using assms(1) map_leD [OF assms(2)] map_leD [OF assms(3)] unfolding verification_ok_def by blast

lemma fact_ok_mono:
  assumes "fact_ok db k f" "map_of (candidates db) \<subseteq>\<^sub>m map_of (candidates db')"
    and "map_of (verifications db) \<subseteq>\<^sub>m map_of (verifications db')"
  shows "fact_ok db' k f"
  using assms(1) map_leD [OF assms(2)] map_leD [OF assms(3)] unfolding fact_ok_def by blast

lemma ref_ok_mono:
  assumes "ref_ok db k n fk i" "map_of (revision_rows db) \<subseteq>\<^sub>m map_of (revision_rows db')"
    and "map_of (confirmed db) \<subseteq>\<^sub>m map_of (confirmed db')"
  shows "ref_ok db' k n fk i"
  using assms(1) map_leD [OF assms(2)] map_leD [OF assms(3)] unfolding ref_ok_def by blast

lemma verifications_ok_cong:
  assumes "verifications_ok db" "verifications db' = verifications db" "confirmed db' = confirmed db"
    and "map_of (candidates db) \<subseteq>\<^sub>m map_of (candidates db')"
  shows "verifications_ok db'"
  using assms(1) verification_ok_mono [OF _ assms(4), unfolded assms(3), OF _ map_le_refl]
  unfolding verifications_ok_def assms(2) by blast

lemma facts_ok_cong:
  assumes "facts_ok db" "confirmed db' = confirmed db" "map_of (candidates db) \<subseteq>\<^sub>m map_of (candidates db')"
    and "map_of (verifications db) \<subseteq>\<^sub>m map_of (verifications db')"
  shows "facts_ok db'"
  using assms(1) fact_ok_mono [OF _ assms(3,4)] unfolding facts_ok_def assms(2) by blast

lemma revisions_ok_cong:
  assumes "revisions_ok db" "revision_rows db' = revision_rows db" "confirmed db' = confirmed db"
    "fact_refs db' = fact_refs db" "\<And>k. current_of k db' = current_of k db" "distinct (map fst (run_rows db'))"
  shows "revisions_ok db'"
  using assms(1,6) unfolding revisions_ok_def ref_ok_def assms(2-5) by blast

lemma runs_distinct: "revisions_ok db \<Longrightarrow> distinct (map fst (run_rows db))"
  unfolding revisions_ok_def by blast

lemma collaboration_invariantD:
  assumes "collaboration_invariant db"
  shows "threads_ok db" "messages_ok db" "candidates_ok db" "verifications_ok db" "facts_ok db" "revisions_ok db"
  using assms by (simp_all add: collaboration_invariant_def)

section \<open>Threads, messages and candidates\<close>

lemma thread_keeps:
  assumes "create_collaboration_thread part ses r now db = Inr (db', out)" and inv: "collaboration_invariant db"
  shows "collaboration_invariant db'"
  using assms(1)
proof (cases rule: thread_cases)
  case (existing k t)
  have tab: "threads db' = threads db" "messages db' = messages db" "candidates db' = candidates db"
    "verifications db' = verifications db" "confirmed db' = confirmed db" "revision_rows db' = revision_rows db"
    "fact_refs db' = fact_refs db" "current_of k' db' = current_of k' db" "run_rows db' = run_rows db" for k'
    by (simp_all add: existing(1) current_of_def)
  from inv show ?thesis
    unfolding collaboration_invariant_def threads_ok_def messages_ok_def candidates_ok_def candidate_ok_def
      verifications_ok_def verification_ok_def facts_ok_def fact_ok_def revisions_ok_def ref_ok_def thread_messages_def tab .
next
  case (created t)
  have le: "map_of (threads db) \<subseteq>\<^sub>m map_of (threads db')" using map_le_snoc [OF created(4)] by (simp add: created(1))
  have "unique_by th_case (threads db @ [((tr_org r, tr_thread r), t)])"
    using inv created(3,4,6)
    by (intro unique_by_snoc) (auto simp: collaboration_invariant_def threads_ok_def dest: map_of_SomeD)
  then have "threads_ok db'" by (simp add: threads_ok_def created(1))
  moreover have "messages_ok db'"
    by (rule messages_ok_mono [OF collaboration_invariantD(2) [OF inv] _ le]) (simp_all add: created(1))
  moreover have "candidates_ok db'"
    by (rule candidates_ok_mono [OF collaboration_invariantD(3) [OF inv]]) (simp_all add: created(1))
  moreover have "verifications_ok db'"
    by (rule verifications_ok_cong [OF collaboration_invariantD(4) [OF inv]]) (simp_all add: created(1))
  moreover have "facts_ok db'"
    by (rule facts_ok_cong [OF collaboration_invariantD(5) [OF inv]]) (simp_all add: created(1))
  moreover have "revisions_ok db'"
    by (rule revisions_ok_cong [OF collaboration_invariantD(6) [OF inv]]) (simp_all add: created(1) current_of_def runs_distinct [OF collaboration_invariantD(6) [OF inv]])
  ultimately show ?thesis by (simp add: collaboration_invariant_def)
qed (simp add: inv)

lemma fold_max_messages: "fold max (map int [1..<Suc n]) 0 = int n"
  by (induction n) simp_all

lemma next_message:
  assumes "messages_ok db"
  shows "next_message_sequence k db = int (length (thread_messages k db)) + 1"
proof -
  from assms have "map (\<lambda>(km, m). me_sequence m) (thread_messages k db) = map int [1..<Suc (length (thread_messages k db))]"
    unfolding messages_ok_def by blast
  then show ?thesis unfolding next_message_sequence_def by (simp only: fold_max_messages)
qed

lemma append_keeps:
  assumes "append_collaboration_message part ses r now db = Inr (db', out)" and inv: "collaboration_invariant db"
  shows "collaboration_invariant db'"
  using assms(1)
proof (cases rule: append_cases)
  case (appended t m)
  have mo: "messages_ok db" using inv by (simp add: collaboration_invariant_def)
  have le: "map_of (messages db) \<subseteq>\<^sub>m map_of (messages db')" using map_le_snoc [OF appended(8)] by (simp add: appended(1))
  have tm: "thread_messages k db' = thread_messages k db
      @ (if k = (mr_org r, mr_thread r) then [((mr_org r, mr_message r), m)] else [])" for k
    by (cases k) (simp add: thread_messages_def appended(1,7))
  have "me_sequence m = int (length (thread_messages (mr_org r, mr_thread r) db)) + 1"
    by (simp add: appended(7) next_message [OF mo])
  with mo appended(6) have seqs: "length (thread_messages k db') \<le> 1000
      \<and> map (\<lambda>(km, m). me_sequence m) (thread_messages k db') = map int [1..<Suc (length (thread_messages k db'))]" for k
    unfolding tm messages_ok_def by (cases "k = (mr_org r, mr_thread r)") simp_all
  have "distinct (map fst (messages db'))" using mo appended(8)
    by (simp add: appended(1) messages_ok_def map_of_eq_None_iff image_iff)
  moreover have "me_role x \<in> {''advisor'', ''student'', ''parent''}
      \<and> (\<exists>t. map_of (threads db') (fst k, me_thread x) = Some t \<and> th_case t = me_case x)"
    if "map_of (messages db') k = Some x" for k x
  proof (cases "k = (mr_org r, mr_message r)")
    case True
    with that have "x = m" by (simp add: appended(1) map_of_snoc [OF appended(8)] del: map_of_append)
    with True appended(3,5) show ?thesis by (simp add: appended(1,7))
  next
    case False
    with that have "map_of (messages db) k = Some x" by (simp add: appended(1) map_of_snoc [OF appended(8)] del: map_of_append)
    with mo show ?thesis unfolding messages_ok_def by (simp add: appended(1))
  qed
  ultimately have "messages_ok db'" unfolding messages_ok_def using seqs by blast
  moreover from inv have "threads_ok db'" unfolding collaboration_invariant_def by (simp add: appended(1) threads_ok_def)
  moreover have "candidates_ok db'"
    by (rule candidates_ok_mono [OF collaboration_invariantD(3) [OF inv] _ le]) (simp_all add: appended(1))
  moreover have "verifications_ok db'"
    by (rule verifications_ok_cong [OF collaboration_invariantD(4) [OF inv]]) (simp_all add: appended(1))
  moreover have "facts_ok db'"
    by (rule facts_ok_cong [OF collaboration_invariantD(5) [OF inv]]) (simp_all add: appended(1))
  moreover have "revisions_ok db'"
    by (rule revisions_ok_cong [OF collaboration_invariantD(6) [OF inv]]) (simp_all add: appended(1) current_of_def runs_distinct [OF collaboration_invariantD(6) [OF inv]])
  ultimately show ?thesis by (simp add: collaboration_invariant_def)
qed (simp add: inv)

lemma propose_keeps:
  assumes "propose_memory_candidate part ses r now db = Inr (db', out)" and inv: "collaboration_invariant db"
  shows "collaboration_invariant db'"
  using assms(1)
proof (cases rule: propose_cases)
  case (known k ca)
  have tab: "threads db' = threads db" "messages db' = messages db" "candidates db' = candidates db"
    "verifications db' = verifications db" "confirmed db' = confirmed db" "revision_rows db' = revision_rows db"
    "fact_refs db' = fact_refs db" "current_of k' db' = current_of k' db" "run_rows db' = run_rows db" for k'
    by (simp_all add: known(1) current_of_def)
  from inv show ?thesis
    unfolding collaboration_invariant_def threads_ok_def messages_ok_def candidates_ok_def candidate_ok_def
      verifications_ok_def verification_ok_def facts_ok_def fact_ok_def revisions_ok_def ref_ok_def thread_messages_def tab .
next
  case (proposed m c)
  let ?k = "(pq_org r, pq_candidate r)" and ?ca = "new_candidate r m now"
  have le: "map_of (candidates db) \<subseteq>\<^sub>m map_of (candidates db')" using map_le_snoc [OF proposed(10)] by (simp add: proposed(1))
  have co: "candidates_ok db" using inv by (simp add: collaboration_invariant_def)
  have "unique_by ca_message (candidates db @ [(?k, ?ca)])"
    using co proposed(10,11) by (intro unique_by_snoc) (auto simp: candidates_ok_def new_candidate_def dest: map_of_SomeD)
  then have "unique_by ca_message (candidates db')" by (simp add: proposed(1))
  moreover have "candidate_ok db' k ca" if "map_of (candidates db') k = Some ca" for k ca
  proof (cases "k = ?k")
    case True
    with that have "ca = ?ca" by (simp add: proposed(1) map_of_snoc [OF proposed(10)] del: map_of_append)
    with True proposed(3-5,9) show ?thesis by (simp add: candidate_ok_def new_candidate_def proposed(1))
  next
    case False
    with that have "map_of (candidates db) k = Some ca" by (simp add: proposed(1) map_of_snoc [OF proposed(10)] del: map_of_append)
    with co have "candidate_ok db k ca" by (simp add: candidates_ok_def)
    then show ?thesis by (simp add: candidate_ok_def proposed(1))
  qed
  ultimately have "candidates_ok db'" by (simp add: candidates_ok_def)
  moreover from inv have "threads_ok db'" "messages_ok db'" unfolding collaboration_invariant_def
    by (simp_all add: proposed(1) threads_ok_def messages_ok_def thread_messages_def)
  moreover have "verifications_ok db'"
    by (rule verifications_ok_cong [OF collaboration_invariantD(4) [OF inv] _ _ le]) (simp_all add: proposed(1))
  moreover have "facts_ok db'"
    by (rule facts_ok_cong [OF collaboration_invariantD(5) [OF inv] _ le]) (simp_all add: proposed(1))
  moreover have "revisions_ok db'"
    by (rule revisions_ok_cong [OF collaboration_invariantD(6) [OF inv]]) (simp_all add: proposed(1) current_of_def runs_distinct [OF collaboration_invariantD(6) [OF inv]])
  ultimately show ?thesis by (simp add: collaboration_invariant_def)
qed (simp add: inv)

end
