(* ===== verification/Collaboration_Safety.thy ===== *)
theory Collaboration_Safety
  imports Collaboration_Invariant
begin

text \<open>
  Every step preserves the invariant of the collaboration: verifications, first revisions and the calls of the
  authorities underneath.
\<close>

section \<open>Rejection\<close>

lemma unverified:
  assumes "verification_of k db = None" "map_of (verifications db) k' = Some v" "fst k' = fst k"
  shows "ve_candidate v \<noteq> snd k"
  using find_NoneD [OF assms(1) [unfolded verification_of_def] map_of_SomeD [OF assms(2)]] assms(3) by simp

lemma verification_row_of_simps [simp]:
  "ve_candidate (verification_row_of r cs n) = vy_candidate r" "ve_case (verification_row_of r cs n) = cs"
  "ve_advisor (verification_row_of r cs n) = vy_actor r" "ve_decision (verification_row_of r cs n) = vy_decision r"
  "ve_fact (verification_row_of r cs n) = vy_fact r" "ve_revision (verification_row_of r cs n) = n"
  by (simp_all add: verification_row_of_def)

lemma unique_verification:
  assumes "verifications_ok db" "verification_of (vy_org r, vy_candidate r) db = None"
    and "map_of (verifications db) (vy_org r, vy_verification r) = None"
  shows "unique_by ve_candidate (verifications db @ [((vy_org r, vy_verification r), verification_row_of r cs n)])"
  using assms(1) by (intro unique_by_snoc [OF _ assms(3)])
    (auto simp: verifications_ok_def dest: unverified [OF assms(2)])

lemma rejected_keeps:
  assumes inv: "collaboration_invariant db" and a: "admitted part r now db (ca, c, prior, run)"
    and r: "vy_decision r = ''reject''" "vy_fact r = None"
    and new: "map_of (verifications db) (vy_org r, vy_verification r) = None"
    and db': "verifications db' = verifications db @ [((vy_org r, vy_verification r), verification_row_of r (ca_case ca) None)]"
      "threads db' = threads db" "messages db' = messages db" "candidates db' = candidates db"
      "confirmed db' = confirmed db" "revision_rows db' = revision_rows db" "fact_refs db' = fact_refs db"
      "case_rows db' = case_rows db" "run_rows db' = run_rows db"
  shows "collaboration_invariant db'"
proof -
  note D = collaboration_invariantD [OF inv]
  have le: "map_of (verifications db) \<subseteq>\<^sub>m map_of (verifications db')" using map_le_snoc [OF new] by (simp add: db'(1))
  have ca: "map_of (candidates db) (vy_org r, vy_candidate r) = Some ca"
    "verification_of (vy_org r, vy_candidate r) db = None" using a by (simp_all add: admitted_def Let_def)
  have "verification_ok db' k v" if "map_of (verifications db') k = Some v" for k v
  proof (cases "k = (vy_org r, vy_verification r)")
    case True
    with that have "v = verification_row_of r (ca_case ca) None"
      by (simp add: db'(1) map_of_snoc [OF new] del: map_of_append)
    with True ca r show ?thesis by (simp add: verification_ok_def db'(4))
  next
    case False
    with that have "map_of (verifications db) k = Some v" by (simp add: db'(1) map_of_snoc [OF new] del: map_of_append)
    with D(4) have "verification_ok db k v" by (simp add: verifications_ok_def)
    then show ?thesis by (simp add: verification_ok_def db')
  qed
  with unique_verification [OF D(4) ca(2) new] have "verifications_ok db'" by (simp add: verifications_ok_def db'(1))
  moreover have "facts_ok db'" by (rule facts_ok_cong [OF D(5) _ _ le]) (simp_all add: db')
  moreover have "revisions_ok db'"
    by (rule revisions_ok_cong [OF D(6)]) (simp_all add: db' current_of_def runs_distinct [OF D(6)])
  moreover have "threads_ok db'" "messages_ok db'" "candidates_ok db'" using D(1-3)
    by (simp_all add: db' threads_ok_def messages_ok_def thread_messages_def candidates_ok_def candidate_ok_def)
  ultimately show ?thesis by (simp add: collaboration_invariant_def)
qed

section \<open>Confirmation\<close>

lemma chained_last: "chained l \<Longrightarrow> l \<noteq> [] \<Longrightarrow> cf_version (snd (last l)) = int (length l)"
  by (cases l rule: rev_cases) (auto simp: chained_snoc)

text \<open>The new fact continues the chain of its key.\<close>

lemma new_fact_chained:
  assumes "chained (lineage (vy_org r, ca_case ca) (ca_key ca) rows)"
    and prior: "prior = in_force (vy_org r, ca_case ca) (ca_key ca) rows" and new: "map_of rows (vy_org r, i) = None"
    and "chained (lineage k fk rows)"
  shows "chained (lineage k fk (rows @ [((vy_org r, i), new_fact r ca prior now)]))"
proof -
  have "(vy_org r, i) \<notin> fst ` set (lineage k fk rows)"
    using new by (auto simp: lineage_def map_of_eq_None_iff)
  with assms show ?thesis
    by (cases k) (auto simp: lineage_snoc chained_snoc new_fact_def in_force_def Let_def chained_last case_prod_unfold)
qed

lemma validated_key:
  "validate_collaboration_fact rl fk v = Inr () \<Longrightarrow> fk \<in> fact_key_value ` set FACT_KEYS"
  by (auto simp: validate_collaboration_fact_def sql_role_fact_def FACT_KEYS_def split: option.splits if_splits)

lemma jb_get_set:
  "jb_get (jb_set (Jb_object items) k v) k' = (if k' = k then Some v else jb_get (Jb_object items) k')"
  by simp

text \<open>The next projection holds the new value, and every other preference as it was.\<close>

lemma preference_after:
  assumes "check_projection row = Inr ()" "fk \<in> fact_key_value ` set FACT_KEYS"
    and "(rv_student row', rv_family row') = next_projection fk v (rv_student row, rv_family row)"
  shows "preference fk' row' = (if fk' = fk then Some v else preference fk' row)"
proof -
  have obj: "\<exists>items. j = Jb_object items" if "length (jb_keys j) = 4" for j
    using that by (cases j) simp_all
  from assms(1) have "length (jb_keys (rv_student row)) = 4" "length (jb_keys (rv_family row)) = 4"
    by (auto simp: check_projection_def Let_def projection_head_ok_def)
  with obj obtain s f where o: "rv_student row = Jb_object s" "rv_family row = Jb_object f" by blast
  have "fk = ''student.intended_field'' \<or> fk = ''student.preferred_countries'' \<or> fk = ''student.intake''
      \<or> fk = ''family.risk_tolerance'' \<or> fk = ''family.japan_risk_accepted'' \<or> fk = ''family.budget''"
    using assms(2) by (auto simp: FACT_KEYS_def)
  with assms(3) show ?thesis
    by (elim disjE) (simp_all add: next_projection_def preference_def o)
qed

lemma option_ext: "(\<And>y. x = Some y \<longleftrightarrow> x' = Some y) \<Longrightarrow> x = x'"
  by (cases x; cases x') auto

text \<open>The references of the new revision name the facts in force.\<close>

lemma refs_lookup:
  assumes ch: "\<And>fk. chained (lineage k fk rows)" and i: "in_force k fk0 rows = Some ((fst k, i), f)"
    and d: "distinct (map fst (refs_of k fk0 i rows))"
  shows "map_of (refs_of k fk0 i rows) fk = map_option (\<lambda>(kf, f). snd kf) (in_force k fk rows)"
proof -
  have "map_of (refs_of k fk0 i rows) fk = Some j \<longleftrightarrow> map_option (\<lambda>(kf, f). snd kf) (in_force k fk rows) = Some j" for j
  proof -
    have "map_of (refs_of k fk0 i rows) fk = Some j \<longleftrightarrow> (fk, j) \<in> set (refs_of k fk0 i rows)"
      using d by simp
    also have "\<dots> \<longleftrightarrow> (fk = fk0 \<and> j = i)
        \<or> fk \<noteq> fk0 \<and> (\<exists>kf f. (kf, f) \<in> set (facts_in_force k rows) \<and> cf_key f = fk \<and> snd kf = j)"
      by (auto simp: refs_of_def)
    also have "\<dots> \<longleftrightarrow> map_option (\<lambda>(kf, f). snd kf) (in_force k fk rows) = Some j"
    proof (cases "fk = fk0")
      case False
      have "(\<exists>kf f. (kf, f) \<in> set (facts_in_force k rows) \<and> cf_key f = fk \<and> snd kf = j)
          \<longleftrightarrow> (\<exists>kf f. in_force k fk rows = Some (kf, f) \<and> snd kf = j)"
        using facts_in_force_mem [OF ch, of _ _ fk] by blast
      with False show ?thesis by (cases "in_force k fk rows") auto
    qed (use i in auto)
    finally show ?thesis .
  qed
  then show ?thesis by (rule option_ext)
qed

lemma map_of_refs: "map_of (map (\<lambda>(fk, j). ((kn, fk), j)) refs) ((kn', fk)) = (if kn' = kn then map_of refs fk else None)"
  by (induction refs) auto

text \<open>The revisions and references after a confirmation.\<close>

lemma confirmed_revisions:
  assumes R: "revisions_ok db" and c: "map_of (case_rows db) k = Some c" "sc_current_revision c = m" "0 < m"
    and row: "map_of (revision_rows db) (k, m) = Some row" and new: "map_of (revision_rows db) (k, m + 1) = None"
    and f: "cf_case f = snd k" "map_of (confirmed db) (fst k, i) = None"
    and pref: "\<And>fk'. preference fk' row' = (if fk' = cf_key f then Some (cf_value f) else preference fk' row)"
    and ch: "\<And>k fk. chained (lineage k fk (confirmed db'))"
    and tab: "confirmed db' = confirmed db @ [((fst k, i), f)]"
      "revision_rows db' = revision_rows db @ [((k, m + 1), row')]"
      "fact_refs db' = fact_refs db @ map (\<lambda>(fk, j). (((k, m + 1), fk), j)) (refs_of k (cf_key f) i (confirmed db'))"
      "run_rows db' = run_rows_after run (run_rows db)"
      "case_rows db' = AList.update k (c\<lparr>sc_current_revision := m + 1\<rparr>) (case_rows db)"
    and d: "distinct (map fst (refs_of k (cf_key f) i (confirmed db')))"
  shows "revisions_ok db'"
proof -
  let ?refs = "refs_of k (cf_key f) i (confirmed db')"
  from R have rows: "map_of (revision_rows db) (k', n') \<noteq> None \<longleftrightarrow>
        (case current_of k' db of None \<Rightarrow> False | Some m \<Rightarrow> 1 \<le> n' \<and> n' \<le> m)"
    and ref: "map_of (fact_refs db) ((k', n'), fk) = Some j \<Longrightarrow> ref_ok db k' n' fk j"
    and cur: "current_of k' db = Some n' \<Longrightarrow>
        map_of (fact_refs db) ((k', n'), fk) = map_option (\<lambda>(kf, f). snd kf) (in_force k' fk (confirmed db))"
    and facts: "map_of (confirmed db) kf = Some f' \<Longrightarrow> current_of (fst kf, cf_case f') db \<noteq> None"
    and pos: "current_of k' db = Some n' \<Longrightarrow> 1 \<le> n'"
    for k' n' fk j kf f' unfolding revisions_ok_def by blast+
  have mr: "map_of (revision_rows db') kn = (if kn = (k, m + 1) then Some row' else map_of (revision_rows db) kn)" for kn
    unfolding tab by (rule map_of_snoc [OF new])
  have mf: "map_of (confirmed db') kf = (if kf = (fst k, i) then Some f else map_of (confirmed db) kf)" for kf
    unfolding tab by (rule map_of_snoc [OF f(2)])
  have le: "map_of (revision_rows db) \<subseteq>\<^sub>m map_of (revision_rows db')" "map_of (confirmed db) \<subseteq>\<^sub>m map_of (confirmed db')"
    unfolding tab by (rule map_le_snoc, fact)+
  have current: "current_of k db = Some m" "current_of k' db' = (if k' = k then Some (m + 1) else current_of k' db)" for k'
    using c by (simp_all add: current_of_def tab)
  have none: "map_of (fact_refs db) ((k, m + 1), fk) = None" for fk
    using ref [of k "m + 1" fk] new by (cases "map_of (fact_refs db) ((k, m + 1), fk)") (auto simp: ref_ok_def)
  have mref: "map_of (fact_refs db') (kn, fk) =
      (if kn = (k, m + 1) then map_of ?refs fk else map_of (fact_refs db) (kn, fk))" for kn fk
    unfolding tab(3) map_of_append map_add_def map_of_refs using none by (auto split: option.split)
  have force: "in_force k' fk (confirmed db') =
      (if k' = k \<and> fk = cf_key f then Some ((fst k, i), f) else in_force k' fk (confirmed db))" for k' fk
    unfolding tab(1) in_force_snoc using f(1) by (auto simp: prod_eq_iff)
  have lookup: "map_of ?refs fk = map_option (\<lambda>(kf, f). snd kf) (in_force k fk (confirmed db'))" for fk
    by (rule refs_lookup [OF ch _ d]) (simp add: force)
  have "ref_ok db' k' n' fk j" if "map_of (fact_refs db') ((k', n'), fk) = Some j" for k' n' fk j
  proof (cases "(k', n') = (k, m + 1)")
    case False
    with that have "ref_ok db k' n' fk j" by (intro ref) (simp add: mref split: if_splits)
    then show ?thesis by (rule ref_ok_mono [OF _ le])
  next
    case True
    show ?thesis
    proof (cases "fk = cf_key f")
      case fk: True
      with that True have "j = i" by (simp add: mref lookup force)
      with True fk f(1) pref show ?thesis by (simp add: ref_ok_def mr mf)
    next
      case fk: False
      with that True have "map_option (\<lambda>(kf, f). snd kf) (in_force k fk (confirmed db)) = Some j"
        by (simp add: mref lookup force)
      with cur [OF current(1)] have "ref_ok db k m fk j" by (intro ref) simp
      then obtain f' where f': "map_of (confirmed db) (fst k, j) = Some f'" "cf_case f' = snd k" "cf_key f' = fk"
        "preference fk row = Some (cf_value f')" using row unfolding ref_ok_def by auto
      with fk True pref map_leD [OF le(2) f'(1)] show ?thesis by (simp add: ref_ok_def mr)
    qed
  qed
  moreover have "map_of (fact_refs db') ((k', n'), fk) = map_option (\<lambda>(kf, f). snd kf) (in_force k' fk (confirmed db'))"
    if "current_of k' db' = Some n'" for k' n' fk
    using that cur [of k' n' fk] by (cases "k' = k") (simp_all add: current(2) mref lookup force split: if_splits)
  moreover have "map_of (revision_rows db') (k', n') \<noteq> None \<longleftrightarrow>
        (case current_of k' db' of None \<Rightarrow> False | Some m \<Rightarrow> 1 \<le> n' \<and> n' \<le> m)" for k' n'
    using rows [of k' n'] c(3) by (auto simp: mr current)
  moreover have "current_of (fst kf, cf_case f') db' \<noteq> None" if "map_of (confirmed db') kf = Some f'" for kf f'
    using that facts [of kf f'] f(1) by (auto simp: mf current split: if_splits)
  moreover have "1 \<le> n'" if "current_of k' db' = Some n'" for k' n'
    using that pos [of k' n'] c(3) by (auto simp: current split: if_splits)
  moreover have "distinct (map fst (run_rows db'))"
    using runs_distinct [OF R] by (auto simp: tab(4) run_rows_after_def distinct_update split: option.split)
  ultimately show ?thesis unfolding revisions_ok_def by blast
qed

lemma confirmed_keeps:
  assumes inv: "collaboration_invariant db" and a: "admitted part r now db (ca, c, prior, run)"
    and r: "vy_decision r = ''confirm''" "0 < vy_revision r"
    and ok: "confirmable sources ses r (ca, c, prior, run) now i row row' db"
    and db': "db' = remember_call ik h j (audit_call r cs what detail (confirmed_db r (ca, c, prior, run) now i row' db))"
  shows "collaboration_invariant db'"
proof -
  note D = collaboration_invariantD [OF inv]
  let ?k = "(vy_org r, ca_case ca)" and ?n = "vy_revision r + 1" and ?f = "new_fact r ca prior now"
  let ?v = "verification_row_of r (ca_case ca) (Some ?n)" and ?rows = "confirmed db @ [((vy_org r, i), new_fact r ca prior now)]"
  let ?refs = "refs_of ?k (ca_key ca) i ?rows"
  from a have ca: "map_of (candidates db) (vy_org r, vy_candidate r) = Some ca"
    "verification_of (vy_org r, vy_candidate r) db = None" "map_of (case_rows db) ?k = Some c"
    "sc_current_revision c = vy_revision r" "now < ca_expires_at ca" "ca_revision ca = vy_revision r"
    "validate_collaboration_fact (ca_role ca) (ca_key ca) (Some (ca_value ca)) = Inr ()"
    "prior = find (\<lambda>(kf, f). cf_key f = ca_key ca) (facts_in_force ?k (confirmed db))"
    by (simp_all add: admitted_def Let_def)
  from ok have o: "vy_fact r = Some i" "map_of (revision_rows db) (?k, vy_revision r) = Some row" "check_projection row = Inr ()"
    "map_of (verifications db) (vy_org r, vy_verification r) = None" "map_of (confirmed db) (vy_org r, i) = None"
    "map_of (revision_rows db) (?k, ?n) = None"
    "(rv_student row', rv_family row') = next_projection (ca_key ca) (ca_value ca) (rv_student row, rv_family row)"
    "distinct (map fst ?refs)" by (simp_all add: confirmable_def Let_def)
  have tab: "threads db' = threads db" "messages db' = messages db" "candidates db' = candidates db"
    "verifications db' = verifications db @ [((vy_org r, vy_verification r), ?v)]" "confirmed db' = ?rows"
    "revision_rows db' = revision_rows db @ [((?k, ?n), row')]"
    "fact_refs db' = fact_refs db @ map (\<lambda>(fk, j). (((?k, ?n), fk), j)) ?refs"
    "run_rows db' = run_rows_after run (run_rows db)"
    "case_rows db' = AList.update ?k (c\<lparr>sc_current_revision := ?n\<rparr>) (case_rows db)"
    by (simp_all add: db' confirmed_db_def Let_def)
  have ch: "chained (lineage k fk (confirmed db))" for k fk using D(5) by (simp add: facts_ok_def)
  have prior: "prior = in_force ?k (ca_key ca) (confirmed db)" unfolding ca(8) by (rule find_in_force [OF ch])
  have ch': "chained (lineage k fk ?rows)" for k fk by (rule new_fact_chained [OF ch prior o(5) ch])
  have mv: "map_of (verifications db') k = (if k = (vy_org r, vy_verification r) then Some ?v else map_of (verifications db) k)" for k
    unfolding tab by (rule map_of_snoc [OF o(4)])
  have mf: "map_of (confirmed db') k = (if k = (vy_org r, i) then Some ?f else map_of (confirmed db) k)" for k
    unfolding tab by (rule map_of_snoc [OF o(5)])
  have mr: "map_of (revision_rows db') kn = (if kn = (?k, ?n) then Some row' else map_of (revision_rows db) kn)" for kn
    unfolding tab by (rule map_of_snoc [OF o(6)])
  have lev: "map_of (verifications db) \<subseteq>\<^sub>m map_of (verifications db')" unfolding tab by (rule map_le_snoc [OF o(4)])
  have lef: "map_of (confirmed db) \<subseteq>\<^sub>m map_of (confirmed db')" unfolding tab by (rule map_le_snoc [OF o(5)])
  have ler: "map_of (revision_rows db) \<subseteq>\<^sub>m map_of (revision_rows db')" unfolding tab by (rule map_le_snoc [OF o(6)])
  have fk: "ca_key ca \<in> fact_key_value ` set FACT_KEYS" by (rule validated_key [OF ca(7)])
  note pref = preference_after [OF o(3) fk o(7)]

  have "verification_ok db' k v" if "map_of (verifications db') k = Some v" for k v
  proof (cases "k = (vy_org r, vy_verification r)")
    case True
    with that have "v = ?v" by (simp add: mv)
    with True ca(1,6) o(1) r show ?thesis by (simp add: verification_ok_def tab(3) mf new_fact_def)
  next
    case False
    with that D(4) have "verification_ok db k v" by (simp add: mv verifications_ok_def)
    then show ?thesis by (rule verification_ok_mono [OF _ _ lef]) (simp add: tab)
  qed
  with unique_verification [OF D(4) ca(2) o(4)] have V: "verifications_ok db'" by (simp add: verifications_ok_def tab(4))

  have "fact_ok db' k f" if "map_of (confirmed db') k = Some f" for k f
  proof (cases "k = (vy_org r, i)")
    case True
    with that have "f = ?f" by (simp add: mf)
    with True ca(1,5) o(1) r show ?thesis unfolding fact_ok_def tab(3) mv
      by (intro exI [of _ ca] exI [of _ "vy_verification r"] exI [of _ ?v]) (simp add: new_fact_def)
  next
    case False
    with that D(5) have "fact_ok db k f" by (simp add: mf facts_ok_def)
    then show ?thesis by (rule fact_ok_mono [OF _ _ lev]) (simp add: tab)
  qed
  moreover have "distinct (map fst ?rows)" using D(5) o(5) by (simp add: facts_ok_def map_of_eq_None_iff image_iff)
  ultimately have F: "facts_ok db'" using ch' by (simp add: facts_ok_def tab(5))

  have R: "revisions_ok db'"
    by (rule confirmed_revisions [OF D(6) ca(3,4) r(2) o(2,6), of ?f i row'])
      (use pref o(5,8) ch' in \<open>simp_all add: tab new_fact_def\<close>)
  from D(1-3) have "threads_ok db'" "messages_ok db'" "candidates_ok db'"
    by (simp_all add: tab threads_ok_def messages_ok_def thread_messages_def candidates_ok_def candidate_ok_def)
  with V F R show ?thesis by (simp add: collaboration_invariant_def)
qed

end
