(* ===== verification/Collaboration_Refinement.thy ===== *)
theory Collaboration_Refinement
  imports Collaboration_Safety
begin

text \<open>
  Every reachable database of the collaboration satisfies its invariant, and its decision part is a reachable
  database of the decision authority: a confirmation publishes a revision, any other call of the collaboration
  only writes idempotency records and audit events there.
\<close>

section \<open>First revisions\<close>

lemma update_new: "map_of xs k = None \<Longrightarrow> AList.update k v xs = xs @ [(k, v)]"
  by (induction xs) (auto split: if_splits)

lemma first_Inr:
  assumes "publish_case_revision ses org i None 1 s f db = Inr db'"
  shows "map_of (case_rows db) (org, i) = None" "map_of (revision_rows db) ((org, i), 1) = None"
    "db' = db\<lparr>core := (core db)\<lparr>base := (base (core db))
         \<lparr>cases := case_rows db @ [((org, i), \<lparr>sc_current_revision = 1, sc_state = CS_INTAKE\<rparr>)]\<rparr>\<rparr>,
       revision_rows := revision_rows db @ [(((org, i), 1),
         \<lparr>rv_student = s, rv_family = f, rv_review = None, rv_superseded = None\<rparr>)]\<rparr>"
  using assms by (auto simp: publish_case_revision_def Let_def update_new split: if_splits)

lemma in_force_confirmed:
  "in_force k fk rows = Some (kf, f) \<Longrightarrow> (kf, f) \<in> set rows \<and> fst kf = fst k \<and> cf_case f = snd k \<and> cf_key f = fk"
  using last_in_set [of "lineage k fk rows"] by (auto simp: in_force_def Let_def lineage_def split: if_splits)

lemma first_keeps:
  assumes p: "publish_case_revision ses org i None 1 s f db = Inr db'" and inv: "collaboration_invariant db"
  shows "collaboration_invariant db'"
proof -
  note D = collaboration_invariantD [OF inv] and F = first_Inr [OF p]
  let ?k = "(org, i)" and ?row = "\<lparr>rv_student = s, rv_family = f, rv_review = None, rv_superseded = None\<rparr>"
  have old: "current_of ?k db = None" using F(1) by (simp add: current_of_def)
  have mr: "map_of (revision_rows db') kn = (if kn = (?k, 1) then Some ?row else map_of (revision_rows db) kn)" for kn
    using map_of_snoc [OF F(2)] by (simp add: F(3))
  have current: "current_of k' db' = (if k' = ?k then Some 1 else current_of k' db)" for k'
    using map_of_snoc [OF F(1)] by (simp add: current_of_def F(3))
  have tab: "confirmed db' = confirmed db" "fact_refs db' = fact_refs db" "run_rows db' = run_rows db" by (simp_all add: F(3))
  from D(6) have rows: "map_of (revision_rows db) (k', n') \<noteq> None \<longleftrightarrow>
        (case current_of k' db of None \<Rightarrow> False | Some m \<Rightarrow> 1 \<le> n' \<and> n' \<le> m)"
    and ref: "map_of (fact_refs db) ((k', n'), fk) = Some j \<Longrightarrow> ref_ok db k' n' fk j"
    and cur: "current_of k' db = Some n' \<Longrightarrow>
        map_of (fact_refs db) ((k', n'), fk) = map_option (\<lambda>(kf, f). snd kf) (in_force k' fk (confirmed db))"
    and facts: "map_of (confirmed db) kf = Some f' \<Longrightarrow> current_of (fst kf, cf_case f') db \<noteq> None"
    and pos: "current_of k' db = Some n' \<Longrightarrow> 1 \<le> n'"
    for k' n' fk j kf f' unfolding revisions_ok_def by blast+
  have le: "map_of (revision_rows db) \<subseteq>\<^sub>m map_of (revision_rows db')" using map_le_snoc [OF F(2)] by (simp add: F(3))
  have noref: "map_of (fact_refs db) ((?k, n'), fk) = None" for n' fk
    using ref [of ?k n' fk] rows [of ?k n'] old
    by (cases "map_of (fact_refs db) ((?k, n'), fk)") (auto simp: ref_ok_def)
  have noforce: "in_force ?k fk (confirmed db) = None" for fk
  proof (cases "in_force ?k fk (confirmed db)")
    case (Some x)
    then have x: "(fst x, snd x) \<in> set (confirmed db)" "fst (fst x) = org" "cf_case (snd x) = i"
      using in_force_confirmed [of ?k fk "confirmed db" "fst x" "snd x"] by simp_all
    with D(5) have "map_of (confirmed db) (fst x) = Some (snd x)" by (simp add: facts_ok_def)
    from facts [OF this] x old show ?thesis by simp
  qed
  have "ref_ok db' k' n' fk j" if "map_of (fact_refs db') ((k', n'), fk) = Some j" for k' n' fk j
    using ref [of k' n' fk j] that by (simp add: tab ref_ok_mono [OF _ le])
  moreover have "map_of (fact_refs db') ((k', n'), fk) = map_option (\<lambda>(kf, f). snd kf) (in_force k' fk (confirmed db'))"
    if "current_of k' db' = Some n'" for k' n' fk
    using that cur [of k' n' fk] by (cases "k' = ?k") (simp_all add: current tab noref noforce)
  moreover have "map_of (revision_rows db') (k', n') \<noteq> None \<longleftrightarrow>
        (case current_of k' db' of None \<Rightarrow> False | Some m \<Rightarrow> 1 \<le> n' \<and> n' \<le> m)" for k' n'
    using rows [of k' n'] old by (auto simp: mr current)
  moreover have "current_of (fst kf, cf_case f') db' \<noteq> None" if "map_of (confirmed db') kf = Some f'" for kf f'
    using that facts [of kf f'] by (auto simp: tab current)
  moreover have "1 \<le> n'" if "current_of k' db' = Some n'" for k' n'
    using that pos [of k' n'] by (auto simp: current split: if_splits)
  ultimately have "revisions_ok db'" using runs_distinct [OF D(6)] unfolding revisions_ok_def tab by blast
  with D(1-5) show ?thesis
    by (simp add: F(3) collaboration_invariant_def threads_ok_def messages_ok_def thread_messages_def candidates_ok_def
        candidate_ok_def verifications_ok_def verification_ok_def facts_ok_def fact_ok_def)
qed

section \<open>The authorities underneath\<close>

text \<open>They move the state of cases and add runs, and leave the current revisions and the records of the collaboration.\<close>

definition keeps_revisions :: "task_db \<Rightarrow> task_db \<Rightarrow> bool" where
  "keeps_revisions b b' \<longleftrightarrow>
     (\<forall>k. map_option sc_current_revision (map_of (cases b') k) = map_option sc_current_revision (map_of (cases b) k))
     \<and> (distinct (map fst (runs b)) \<longrightarrow> distinct (map fst (runs b')))
     \<and> (\<forall>key. ik_operation key \<in> COLLABORATION_OPERATIONS \<longrightarrow>
          map_of (idempotency b') key = map_of (idempotency b) key)"

lemma shares_revisions:
  assumes "shares b b'"
  shows "keeps_revisions b b'"
proof -
  have "map_option sc_current_revision (map_of (cases b') k) = map_option sc_current_revision (map_of (cases b) k)" for k
  proof -
    from assms have "rel_option (case_moves b k) (map_of (cases b) k) (map_of (cases b') k)" unfolding shares_def by blast
    then show ?thesis by (cases "map_of (cases b) k"; cases "map_of (cases b') k") (auto simp: case_moves_def)
  qed
  moreover have "ik_operation key \<in> COLLABORATION_OPERATIONS \<Longrightarrow> ik_operation key \<notin> TASK_OPERATIONS" for key :: idem_key
    by (auto simp: COLLABORATION_OPERATIONS_def TASK_OPERATIONS_def)
  ultimately show ?thesis using assms unfolding shares_def keeps_revisions_def by blast
qed

lemma decision_key_own:
  "ik_operation ik \<in> COLLABORATION_OPERATIONS \<Longrightarrow> ik \<noteq> review_key r \<and> ik \<noteq> decide_key y"
  by (auto simp: COLLABORATION_OPERATIONS_def review_key_def decide_key_def idem_key_of_def)

lemma core_call_revisions: "core_call facts d d' \<Longrightarrow> keeps_revisions (base d) (base d')"
proof (induction rule: core_call.induct)
  case (core_review part ses r db db' out)
  then show ?case
  proof (cases rule: review_cases)
    case (returned c run)
    then show ?thesis using decision_key_own
      by (auto simp: keeps_revisions_def review_target_def)
  next
    case (approved c run i d s hash rows)
    then show ?thesis using decision_key_own
      by (auto simp: keeps_revisions_def review_target_def)
  qed (simp add: keeps_revisions_def)
next
  case (core_decide part ses y db db' out')
  then show ?case
  proof (cases rule: decide_cases)
    case (decided b c route ms i rows)
    show ?thesis unfolding decided(15) using decided(2) decision_key_own
      by (auto simp: keeps_revisions_def decision_target_def)
  qed (simp add: keeps_revisions_def)
next
  case (core_task db b)
  then show ?case by (simp add: shares_revisions task_call_shares)
qed (simp add: keeps_revisions_def)

lemma beneath_keeps:
  assumes "core_call facts (core db) d" and inv: "collaboration_invariant db"
  shows "collaboration_invariant (db\<lparr>core := d\<rparr>)"
proof -
  note D = collaboration_invariantD [OF inv] and K = core_call_revisions [OF assms(1), unfolded keeps_revisions_def]
  have "revisions_ok (db\<lparr>core := d\<rparr>)"
    by (rule revisions_ok_cong [OF D(6)]) (use K runs_distinct [OF D(6)] in \<open>simp_all add: current_of_def\<close>)
  with D(1-5) show ?thesis
    by (simp add: collaboration_invariant_def threads_ok_def messages_ok_def thread_messages_def candidates_ok_def
        candidate_ok_def verifications_ok_def verification_ok_def facts_ok_def fact_ok_def)
qed

section \<open>The invariant\<close>

lemma verify_keeps:
  assumes "verify_memory_candidate sources part ses r now db = Inr (db', out)" and inv: "collaboration_invariant db"
  shows "collaboration_invariant db'"
  using assms(1)
proof (cases rule: candidate_verify_cases)
  case (rejected ca c prior run)
  show ?thesis by (rule rejected_keeps [OF inv rejected(2-5)]) (simp_all add: rejected(6))
next
  case (confirmed ca c prior run i row row')
  show ?thesis by (rule confirmed_keeps [OF inv confirmed(2-6)])
qed (simp add: inv)

theorem collaboration_step_invariant:
  assumes "collaboration_step facts db db'" and inv: "collaboration_invariant db"
  shows "collaboration_invariant db'"
  using assms(1)
proof (cases rule: collaboration_step.cases)
  case thread
  show ?thesis by (rule thread_keeps [OF thread inv])
next
  case append
  show ?thesis by (rule append_keeps [OF append inv])
next
  case propose
  show ?thesis by (rule propose_keeps [OF propose inv])
next
  case verify
  show ?thesis by (rule verify_keeps [OF verify inv])
next
  case first
  show ?thesis by (rule first_keeps [OF first inv])
next
  case (beneath d)
  with inv show ?thesis by (simp add: beneath_keeps)
qed

lemma collaboration_reachable_invariant: "collaboration_reachable facts db \<Longrightarrow> collaboration_invariant db"
  unfolding collaboration_reachable_def
  by (induction rule: rtranclp_induct) (auto intro: collaboration_step_invariant collaboration_invariant_empty)

section \<open>Refinement\<close>

lemma core_call_step: "core_call facts d d' \<Longrightarrow> decision_step facts d d'"
  by (induction rule: core_call.induct) (auto intro: decision_step.review decision_step.decide decision_step.task decision_step.other)

text \<open>A write of idempotency records of the collaboration and of audit events.\<close>

lemma bookkeeping_step:
  assumes "ik_operation ik \<in> COLLABORATION_OPERATIONS"
  shows "decision_step facts d (remember ik h i (d\<lparr>audit := audit d @ rows\<rparr>))"
proof -
  have "decision_step facts d (d\<lparr>base := (base d)\<lparr>idempotency := AList.update ik
          \<lparr>ir_request_sha256 = h, ir_response_id = i\<rparr> (idempotency (base d))\<rparr>, audit := audit d @ rows\<rparr>)"
    by (rule decision_step.other)
      (use assms in \<open>auto simp: COLLABORATION_OPERATIONS_def TASK_OPERATIONS_def DECISION_OPERATIONS_def\<close>)
  then show ?thesis by (cases d) (simp add: remember_def)
qed

lemma collaboration_keys [simp]:
  "ik_operation (thread_key r) \<in> COLLABORATION_OPERATIONS" "ik_operation (message_key m) \<in> COLLABORATION_OPERATIONS"
  "ik_operation (propose_key p) \<in> COLLABORATION_OPERATIONS" "ik_operation (verify_key v) \<in> COLLABORATION_OPERATIONS"
  by (simp_all add: thread_key_def message_key_def propose_key_def verify_key_def idem_key_of_def
      COLLABORATION_OPERATIONS_def)

lemma retire_one:
  assumes "distinct (map fst rows)"
    and "filter (\<lambda>(k', q). fst k' = fst k \<and> run_case q = snd k \<and> run_is_current q) rows
      = (case run of None \<Rightarrow> [] | Some q \<Rightarrow> [q])"
  shows "run_rows_after run rows = retire_runs k rows"
  using assms
proof (induction rows arbitrary: run)
  case (Cons x rows)
  obtain kq q where x: "x = (kq, q)" by (cases x)
  show ?case
  proof (cases "fst kq = fst k \<and> run_case q = snd k \<and> run_is_current q")
    case True
    with Cons.prems(2) have run: "run = Some (kq, q)"
      "filter (\<lambda>(k', q). fst k' = fst k \<and> run_case q = snd k \<and> run_is_current q) rows = []"
      by (auto simp: x split: option.splits)
    from Cons.IH [of None] Cons.prems(1) run(2) have "rows = retire_runs k rows" by (simp add: run_rows_after_def)
    with run(1) True show ?thesis by (simp add: run_rows_after_def retire_runs_def x)
  next
    case False
    with Cons.prems have IH: "run_rows_after run rows = retire_runs k rows"
      by (intro Cons.IH) (auto simp: x split: if_splits)
    have "run_rows_after run (x # rows) = x # run_rows_after run rows"
    proof (cases run)
      case (Some y)
      with Cons.prems(2) False have "y \<in> set rows"
        by (auto simp: x filter_eq_Cons_iff split: if_splits)
      with Cons.prems(1) have "fst y \<noteq> kq" by (auto simp: x)
      with Some show ?thesis by (cases y) (simp add: run_rows_after_def x)
    qed (simp add: run_rows_after_def)
    moreover from False have "retire_runs k (x # rows) = x # retire_runs k rows"
      by (cases q) (auto simp: retire_runs_def x)
    ultimately show ?thesis using IH by simp
  qed
qed (auto simp: run_rows_after_def retire_runs_def split: option.splits)

lemma admit_revision_publishes:
  assumes "admit_revision k ca c (map_option fst run) (revision_review k rv (map_option fst run) db) db' = Inr ()"
    and "reviews (core db) = reviews (core db')" "sc_state c \<in> {CS_INTAKE, CS_PLANNING}" "sc_current_revision c = rv"
    and "current_runs k db' = (case run of None \<Rightarrow> [] | Some q \<Rightarrow> [q])"
  shows "may_publish k c (core db')"
proof -
  have current: "fst kr = fst k \<and> run_case q = snd k \<and> run_is_current q \<and> (kr, q) \<in> set (run_rows db') \<longleftrightarrow> run = Some (kr, q)"
    for kr q
  proof -
    have "fst kr = fst k \<and> run_case q = snd k \<and> run_is_current q \<and> (kr, q) \<in> set (run_rows db')
        \<longleftrightarrow> (kr, q) \<in> set (current_runs k db')" by (auto simp: current_runs_def)
    then show ?thesis unfolding assms(5) by (auto split: option.splits)
  qed
  have "current_run_exists (fst k) (snd k) (base (core db'))" if "sc_state c = CS_PLANNING"
  proof -
    from assms(1) that obtain y where "run = Some y" by (cases run) (auto simp: admit_revision_def split: if_splits)
    with current [of "fst y" "snd y"] show ?thesis
      by (auto simp: current_run_exists_def list_ex_iff case_prod_unfold)
  qed
  moreover have "list_ex (\<lambda>(ka, a). fst ka = fst k \<and> ar_case a = snd k \<and> ar_revision a = sc_current_revision c
              \<and> ar_run a = snd kr \<and> ar_action a = ''request_revision'') (reviews (core db'))
          \<and> \<not> list_ex (\<lambda>(kd, d). fst kd = fst k \<and> fd_case d = snd k) (decisions (core db'))"
    if "(kr, q) \<in> set (run_rows db')" "fst kr = fst k \<and> run_case q = snd k \<and> run_is_current q" for kr q
  proof -
    from that current [of kr q] have run: "run = Some (kr, q)" by blast
    with assms(1) have "revision_review k rv (Some kr) db \<noteq> None"
      "\<not> list_ex (\<lambda>(kd, d). fst kd = fst k \<and> fd_case d = snd k) (decisions (core db'))"
      by (auto simp: admit_revision_def split: if_splits)
    with assms(2,4) show ?thesis
      by (auto simp: revision_review_def list_ex_iff dest!: find_SomeD)
  qed
  ultimately show ?thesis using assms(3) unfolding may_publish_def list_all_iff by fastforce
qed

theorem collaboration_refines_decision:
  assumes "collaboration_step facts db db'" and inv: "collaboration_invariant db"
  shows "(decision_step facts)\<^sup>*\<^sup>* (core db) (core db')"
  using assms(1)
proof (cases rule: collaboration_step.cases)
  case (thread part ses r now out)
  then show ?thesis
  proof (cases rule: thread_cases)
    case (existing k t)
    with bookkeeping_step [of "thread_key r" facts "core db" _ _ "[]"] show ?thesis by (simp add: r_into_rtranclp)
  next
    case (created t)
    with bookkeeping_step [of "thread_key r" facts "core db" _ _ "[]"] show ?thesis by (simp add: r_into_rtranclp)
  qed simp
next
  case (append part ses m now out')
  then show ?thesis
  proof (cases rule: append_cases)
    case (appended t x)
    with bookkeeping_step [of "message_key m" facts "core db" _ _ "[]"] show ?thesis by (simp add: r_into_rtranclp)
  qed simp
next
  case (propose part ses p now out'')
  then show ?thesis
  proof (cases rule: propose_cases)
    case (known k ca)
    with bookkeeping_step [of "propose_key p" facts "core db" _ _ "[]"] show ?thesis by (simp add: r_into_rtranclp)
  next
    case (proposed x c)
    with bookkeeping_step [of "propose_key p" facts "core db" _ _ "[]"] show ?thesis by (simp add: r_into_rtranclp)
  qed simp
next
  case (verify sources part ses v now out3)
  then show ?thesis
  proof (cases rule: candidate_verify_cases)
    case (rejected ca c prior run)
    with bookkeeping_step [of "verify_key v" facts "core db"] show ?thesis
      by (simp add: r_into_rtranclp audit_call_def write_audit_def)
  next
    case (confirmed ca c prior run i row row')
    let ?k = "(vy_org v, ca_case ca)" and ?d = "core (confirmed_db v (ca, c, prior, run) now i row' db)"
    have a: "map_of (case_rows db) ?k = Some c" "sc_current_revision c = vy_revision v" "ca_revision ca = vy_revision v"
      "sc_state c \<in> {CS_INTAKE, CS_PLANNING}" "current_runs ?k db = (case run of None \<Rightarrow> [] | Some q \<Rightarrow> [q])"
      using confirmed(2) by (simp_all add: admitted_def Let_def)
    have ok: "admit_revision ?k ca c (map_option fst run) (revision_review ?k (ca_revision ca) (map_option fst run) db) db = Inr ()"
      using confirmed(5) by (simp add: confirmable_def Let_def)
    have "may_publish ?k c (core db)"
      by (rule admit_revision_publishes [OF ok _ a(4) _ a(5)]) (simp_all add: a)
    with a(1) have "decision_step facts (core db) (publish_revision ?k c (core db))" by (rule decision_step.publish)
    moreover have "publish_revision ?k c (core db) = ?d"
      using retire_one [of "run_rows db" ?k run] a(2,5) runs_distinct [OF collaboration_invariantD(6) [OF inv]]
      by (simp add: publish_revision_def confirmed_db_def Let_def current_runs_def)
    moreover have "decision_step facts ?d (core db')"
      using bookkeeping_step [of "verify_key v" facts ?d] confirmed(6) by (simp add: audit_call_def write_audit_def)
    ultimately show ?thesis by (metis r_into_rtranclp rtranclp.rtrancl_into_rtrancl)
  qed simp
next
  case (first ses org i s f)
  note F = first_Inr [OF first]
  have "decision_step facts (core db) (core db')" unfolding F(3)
    using decision_step.new_case [OF F(1), of "\<lparr>sc_current_revision = 1, sc_state = CS_INTAKE\<rparr>"] by simp
  then show ?thesis by blast
next
  case (beneath d)
  with core_call_step show ?thesis by simp (blast intro: r_into_rtranclp)
qed

lemma collaboration_reachable_core:
  assumes "collaboration_reachable facts db"
  shows "decision_reachable facts (core db)"
proof -
  from assms have "collaboration_invariant db \<and> decision_reachable facts (core db)"
    unfolding collaboration_reachable_def
  proof (induction rule: rtranclp_induct)
    case base
    have "core empty_collaboration_db = empty_decision_db" by (simp add: empty_collaboration_db_def)
    then show ?case by (simp add: collaboration_invariant_empty decision_reachable_def)
  next
    case (step db1 db2)
    then show ?case using collaboration_step_invariant collaboration_refines_decision decision_reachable_steps by blast
  qed
  then show ?thesis by blast
qed

end
