(* ===== verification/Collaboration_History.thy ===== *)
theory Collaboration_History
  imports Collaboration_Refinement Decision_Application Decision_History
begin

text \<open>
  A concrete history: a planned case whose advisor requests a revision, a parent who proposes a smaller budget, and
  the advisor who confirms it; and the same proposal rejected.
\<close>

section \<open>Requests\<close>

definition baseline_student :: jsonb where
  "baseline_student = Jb_object [(''schema_version'', Jb_number (Dec 1 0)), (''intended_field'', Jb_string ''computing''),
     (''preferred_countries'', Jb_array [Jb_string ''australia'', Jb_string ''japan'']), (''intake'', Jb_string ''2027-02'')]"

definition budget_json :: "int \<Rightarrow> int \<Rightarrow> jsonb" where
  "budget_json p h = Jb_object [(''schema_version'', Jb_number (Dec 1 0)), (''currency'', Jb_string ''CNY''),
     (''period'', Jb_string ''program_total''), (''preferred_minor'', Jb_number (Dec p 0)),
     (''hard_ceiling_minor'', Jb_number (Dec h 0)), (''elasticity_bps'', Jb_number (Dec 1000 0)),
     (''refused'', Jb_bool False)]"

definition baseline_family :: jsonb where
  "baseline_family = Jb_object [(''schema_version'', Jb_number (Dec 1 0)), (''risk_tolerance'', Jb_string ''high''),
     (''japan_risk_accepted'', Jb_bool True), (''budget'', budget_json 34000000 40000000)]"

definition revision_request :: review_command where
  "revision_request = rejection\<lparr>action := REQUEST_REVISION\<rparr>"

definition open_thread :: thread_request where
  "open_thread = \<lparr>tr_org = 1, tr_actor = 5, tr_role = ''advisor'', tr_case = 10, tr_thread = 800,
     tr_request_hash = demo_hash CHR ''1'', tr_key_hash = demo_hash CHR ''a''\<rparr>"

definition parent_message :: message_request where
  "parent_message = \<lparr>mr_org = 1, mr_actor = 7, mr_role = ''parent'', mr_thread = 800, mr_message = 810,
     mr_body = ''less'', mr_content_hash = demo_hash CHR ''2'', mr_request_hash = demo_hash CHR ''3'',
     mr_key_hash = demo_hash CHR ''b''\<rparr>"

definition smaller_budget :: propose_request where
  "smaller_budget = \<lparr>pq_org = 1, pq_actor = 7, pq_role = ''parent'', pq_message = 810, pq_candidate = 820,
     pq_revision = 1, pq_key = ''family.budget'', pq_value = budget_json 30000000 36000000,
     pq_value_hash = demo_hash CHR ''4'', pq_request_hash = demo_hash CHR ''5'', pq_key_hash = demo_hash CHR ''c''\<rparr>"

definition confirmation :: verify_candidate_request where
  "confirmation = \<lparr>vy_org = 1, vy_actor = 5, vy_candidate = 820, vy_revision = 1, vy_decision = ''confirm'',
     vy_reason = ''ok'', vy_verification = 830, vy_fact = Some 840, vy_request_hash = demo_hash CHR ''6'',
     vy_key_hash = demo_hash CHR ''d''\<rparr>"

definition refusal :: verify_candidate_request where
  "refusal = confirmation\<lparr>vy_decision := ''reject'', vy_fact := None\<rparr>"

definition no_sources :: intake_sources where
  "no_sources = \<lparr>stored_pack = (\<lambda>org p v. None), stored_entries = (\<lambda>org p v. []), stored_evidence = (\<lambda>org p v. [])\<rparr>"

section \<open>Databases\<close>

definition shared_case :: collaboration_db where
  "shared_case = projr (publish_case_revision demo_session 1 10 None 1 baseline_student baseline_family
     empty_collaboration_db)"

definition shared_returned :: collaboration_db where
  "shared_returned = shared_case\<lparr>core := fst (projr (repository_review family_members family_facts family_digests
     demo_session revision_request ''key'' family_planned))\<rparr>"

definition shared_thread :: collaboration_db where
  "shared_thread = fst (projr (create_collaboration_thread family_members demo_session open_thread 6000 shared_returned))"

definition shared_message :: collaboration_db where
  "shared_message = fst (projr (append_collaboration_message family_members family_session parent_message 7000 shared_thread))"

definition shared_candidate :: collaboration_db where
  "shared_candidate = fst (projr (propose_memory_candidate family_members family_session smaller_budget 8000 shared_message))"

text \<open>The databases in full, which evaluation uses in place of their definitions.\<close>

lemma returned_ok:
  "is_ok (repository_review family_members family_facts family_digests demo_session revision_request ''key'' family_planned)"
  by code_simp

lemma shared_returned_rows [code]:
  "shared_returned =
     \<lparr>core = \<lparr>base = (base family_planned)\<lparr>cases := [((1, 10), \<lparr>sc_current_revision = 1, sc_state = CS_PLANNING\<rparr>)],
        idempotency := idempotency (base family_planned) @
          [(idem_key_of ''advisor_review'' 1 5 (demo_hash CHR ''k''),
            \<lparr>ir_request_sha256 = demo_hash CHR ''a'', ir_response_id = 600\<rparr>)]\<rparr>,
        reviews = [((1, 600), \<lparr>ar_case = 10, ar_revision = 1, ar_run = 90, ar_version = 1, ar_advisor = 5,
          ar_action = ''request_revision'', ar_eligible = [], ar_risks = [], ar_notes = None\<rparr>)],
        acceptances = [], briefs = [], decisions = [], plans = [],
        audit = [(1, \<lparr>au_case = 10, au_actor = 5, au_event = ''advisor_review'', au_subject = 600,
          au_payload = Payload_action ''request_revision''\<rparr>)]\<rparr>,
      threads = [], messages = [], candidates = [], verifications = [], confirmed = [],
      revision_rows = [(((1, 10), 1), \<lparr>rv_student = baseline_student, rv_family = baseline_family,
        rv_review = None, rv_superseded = None\<rparr>)], fact_refs = []\<rparr>"
  by code_simp

lemma open_ok:
  "is_ok (create_collaboration_thread family_members demo_session open_thread 6000 shared_returned)"
  by code_simp

lemma shared_thread_rows [code]:
  "shared_thread = remember_call (thread_key open_thread) (demo_hash CHR ''1'') 800
     (shared_returned\<lparr>threads := [((1, 800), \<lparr>th_case = 10, th_created_by = 5, th_created_at = 6000\<rparr>)]\<rparr>)"
  by code_simp

lemma message_ok:
  "is_ok (append_collaboration_message family_members family_session parent_message 7000 shared_thread)"
  by code_simp

lemma shared_message_rows [code]:
  "shared_message = remember_call (message_key parent_message) (demo_hash CHR ''3'') 810
     (shared_thread\<lparr>messages := [((1, 810), \<lparr>me_thread = 800, me_case = 10, me_sequence = 1, me_actor = 7,
        me_role = ''parent'', me_body = ''less'', me_content_sha256 = demo_hash CHR ''2'',
        me_request_sha256 = demo_hash CHR ''3'', me_created_at = 7000\<rparr>)]\<rparr>)"
  by code_simp

lemma candidate_proposed_ok:
  "is_ok (propose_memory_candidate family_members family_session smaller_budget 8000 shared_message)"
  by code_simp

lemma shared_candidate_rows [code]:
  "shared_candidate = remember_call (propose_key smaller_budget) (demo_hash CHR ''5'') 820
     (shared_message\<lparr>candidates := [((1, 820), \<lparr>ca_case = 10, ca_revision = 1, ca_message = 810, ca_subject = 7,
        ca_role = ''parent'', ca_key = ''family.budget'', ca_value = budget_json 30000000 36000000,
        ca_value_sha256 = demo_hash CHR ''4'', ca_request_sha256 = demo_hash CHR ''5'', ca_created_at = 8000,
        ca_expires_at = 604800008000\<rparr>)]\<rparr>)"
  by code_simp

text \<open>The proposal confirmed, and the proposal rejected.\<close>

definition shared_confirmed :: collaboration_db where
  "shared_confirmed = remember_call (verify_key confirmation) (demo_hash CHR ''6'') 830
     (audit_call confirmation 10 ''memory_candidate_confirmed'' (Payload_fact 840 2)
       (shared_candidate\<lparr>core := (core shared_candidate)\<lparr>base := (base (core shared_candidate))\<lparr>
            cases := [((1, 10), \<lparr>sc_current_revision = 2, sc_state = CS_PLANNING\<rparr>)],
            runs := map (\<lambda>(k, q). (k, q\<lparr>run_is_current := False\<rparr>)) (runs (base family_planned))\<rparr>\<rparr>,
        verifications := [((1, 830), verification_row_of confirmation 10 (Some 2))],
        confirmed := [((1, 840), new_fact confirmation (snd (hd (candidates shared_candidate))) None 9000)],
        revision_rows := revision_rows shared_candidate @ [(((1, 10), 2), \<lparr>rv_student = baseline_student,
          rv_family = Jb_object [(''schema_version'', Jb_number (Dec 1 0)), (''risk_tolerance'', Jb_string ''high''),
            (''japan_risk_accepted'', Jb_bool True), (''budget'', budget_json 30000000 36000000)],
          rv_review = Some 600, rv_superseded = Some 90\<rparr>)],
        fact_refs := [((((1, 10), 2), ''family.budget''), 840)]\<rparr>))"

definition shared_rejected :: collaboration_db where
  "shared_rejected = remember_call (verify_key refusal) (demo_hash CHR ''6'') 830
     (audit_call refusal 10 ''memory_candidate_rejected'' (Payload_candidate 820)
       (shared_candidate\<lparr>verifications := [((1, 830), verification_row_of refusal 10 None)]\<rparr>))"

lemma shared_confirmation:
  "verify_memory_candidate no_sources family_members demo_session confirmation 9000 shared_candidate
     = Inr (shared_confirmed, 830, verification_row_of confirmation 10 (Some 2), False)"
  by code_simp

lemma shared_refusal:
  "verify_memory_candidate no_sources family_members demo_session refusal 9000 shared_candidate
     = Inr (shared_rejected, 830, verification_row_of refusal 10 None, False)"
  by code_simp

section \<open>The databases are reachable\<close>

lemma shared_case_ok:
  "publish_case_revision demo_session 1 10 None 1 baseline_student baseline_family empty_collaboration_db = Inr shared_case"
  "core shared_case = family_case"
  by code_simp+

lemma shared_steps:
  "collaboration_step family_facts shared_returned shared_thread"
  "collaboration_step family_facts shared_thread shared_message"
  "collaboration_step family_facts shared_message shared_candidate"
  "collaboration_step family_facts shared_candidate shared_confirmed"
  "collaboration_step family_facts shared_candidate shared_rejected"
  unfolding shared_thread_def shared_message_def shared_candidate_def
  by (rule collaboration_step.thread [OF open_ok [THEN projr_ok]]
      collaboration_step.append [OF message_ok [THEN projr_ok], unfolded shared_thread_def]
      collaboration_step.propose [OF candidate_proposed_ok [THEN projr_ok], unfolded shared_message_def shared_thread_def]
      collaboration_step.verify [OF shared_confirmation, unfolded shared_candidate_def shared_message_def shared_thread_def]
      collaboration_step.verify [OF shared_refusal, unfolded shared_candidate_def shared_message_def shared_thread_def])+

lemma beneath_steps:
  "(core_call facts)\<^sup>*\<^sup>* (core db) d \<Longrightarrow> (collaboration_step facts)\<^sup>*\<^sup>* db (db\<lparr>core := d\<rparr>)"
proof (induction rule: rtranclp_induct)
  case (step d d')
  from collaboration_step.beneath [of facts "db\<lparr>core := d\<rparr>" d'] step(2)
  have "collaboration_step facts (db\<lparr>core := d\<rparr>) (db\<lparr>core := d'\<rparr>)" by simp
  with step(3) show ?case by (rule rtranclp.rtrancl_into_rtrancl)
qed simp

lemma review_core_call:
  "repository_review part facts hashes ses c k db = Inr (db', out) \<Longrightarrow> core_call facts db db'"
  by (erule repository_review_call, erule core_review)

lemma planned_calls: "(core_call family_facts)\<^sup>*\<^sup>* family_case (core shared_returned)"
proof -
  have calls: "task_call (base family_case) family_created" "task_call family_created family_claimed"
    "task_call family_claimed family_finished"
    unfolding family_created_def family_claimed_def family_finished_def
    by (rule call_create [OF family_ok(1) [THEN projr_ok]]
        call_claim [OF family_ok(2) [THEN projr_ok], unfolded family_created_def]
        call_finalize [OF family_ok(3) [THEN projr_ok], unfolded family_claimed_def family_created_def])+
  have 1: "core_call family_facts family_case (family_case\<lparr>base := family_created\<rparr>)"
    by (rule core_task) (rule calls(1))
  have 2: "core_call family_facts (family_case\<lparr>base := family_created\<rparr>) (family_case\<lparr>base := family_claimed\<rparr>)"
    using core_task [of "family_case\<lparr>base := family_created\<rparr>" family_claimed family_facts] calls(2) by simp
  have 3: "core_call family_facts (family_case\<lparr>base := family_claimed\<rparr>) family_planned"
    using core_task [of "family_case\<lparr>base := family_claimed\<rparr>" family_finished family_facts] calls(3)
    by (simp add: family_planned_def)
  from review_core_call [OF returned_ok [THEN projr_ok]]
  have "core_call family_facts family_planned (core shared_returned)" by (simp add: shared_returned_def)
  with 1 2 3 show ?thesis by (meson r_into_rtranclp rtranclp_trans)
qed

lemma shared_reachable:
  "collaboration_reachable family_facts shared_candidate" "collaboration_reachable family_facts shared_confirmed"
  "collaboration_reachable family_facts shared_rejected"
proof -
  have "(collaboration_step family_facts)\<^sup>*\<^sup>* empty_collaboration_db shared_case"
    using collaboration_step.first [OF shared_case_ok(1)] by blast
  also have "(collaboration_step family_facts)\<^sup>*\<^sup>* shared_case shared_returned"
    using beneath_steps [of family_facts shared_case "core shared_returned"] planned_calls
    by (simp add: shared_case_ok(2) shared_returned_def)
  also have "(collaboration_step family_facts)\<^sup>*\<^sup>* shared_returned shared_candidate"
    using shared_steps(1-3) by (meson r_into_rtranclp rtranclp_trans)
  finally show "collaboration_reachable family_facts shared_candidate" by (simp add: collaboration_reachable_def)
  with shared_steps(4,5) show "collaboration_reachable family_facts shared_confirmed"
    "collaboration_reachable family_facts shared_rejected"
    unfolding collaboration_reachable_def by (meson rtranclp.rtrancl_into_rtrancl)+
qed

end
