(* ===== verification/Collaboration_Properties.thy ===== *)
theory Collaboration_Properties
  imports Collaboration_History
begin

text \<open>
  What the collaboration guarantees in every reachable database: facts are traced and chained, the current revision
  carries exactly the facts in force, a verified candidate is final, threads are gapless, and a confirmation replaces
  the reviewed run.
\<close>

declare split_paired_All [simp del] split_paired_Ex [simp del]

section \<open>Facts\<close>

lemma sql_role_fact_python: "sql_role_fact rl fk \<longleftrightarrow> role_allows_fact rl fk"
proof (cases "fk \<in> fact_key_value ` set FACT_KEYS")
  case True
  then show ?thesis
    by (auto simp: FACT_KEYS_def sql_role_fact_def role_allows_fact_def fact_key_of_def)
next
  case False
  then have "fact_key_of fk = None" by (auto simp: fact_key_of_def find_None_iff)
  moreover from False have "\<not> sql_role_fact rl fk" by (auto simp: FACT_KEYS_def sql_role_fact_def)
  ultimately show ?thesis by (simp add: role_allows_fact_def split: option.split)
qed

lemma validated_role: "validate_collaboration_fact rl fk v = Inr () \<Longrightarrow> role_allows_fact rl fk"
  unfolding sql_role_fact_python [symmetric] by (auto simp: validate_collaboration_fact_def split: option.splits if_splits)

lemma message_thread:
  "messages_ok db \<Longrightarrow> map_of (messages db) k = Some m \<Longrightarrow>
     \<exists>t. map_of (threads db) (fst k, me_thread m) = Some t \<and> th_case t = me_case m"
  unfolding messages_ok_def by blast

text \<open>C8: Every confirmed fact is traced: to a confirming verification that names it, to the candidate it took its value
  from before that expired, and to a message of its subject, in a thread of its case, whose role may state the fact.\<close>

theorem confirmed_fact_is_traced:
  assumes "collaboration_reachable facts db" and "map_of (confirmed db) k = Some f"
  shows "\<exists>m t i v. map_of (messages db) (fst k, cf_message f) = Some m \<and> me_actor m = cf_subject f
      \<and> me_role m = cf_role f \<and> me_case m = cf_case f
      \<and> map_of (threads db) (fst k, me_thread m) = Some t \<and> th_case t = cf_case f
      \<and> role_allows_fact (cf_role f) (cf_key f)
      \<and> map_of (verifications db) (fst k, i) = Some v \<and> ve_decision v = ''confirm'' \<and> ve_fact v = Some (snd k)
      \<and> ve_candidate v = cf_candidate f \<and> ve_advisor v = cf_advisor f
      \<and> (\<exists>ca. map_of (candidates db) (fst k, cf_candidate f) = Some ca \<and> ca_value ca = cf_value f
           \<and> cf_confirmed_at f < ca_created_at ca + SEVEN_DAYS)"
proof -
  note D = collaboration_invariantD [OF collaboration_reachable_invariant [OF assms(1)]]
  from D(5) assms(2) have "fact_ok db k f" by (simp add: facts_ok_def)
  then obtain ca i v where ca: "map_of (candidates db) (fst k, cf_candidate f) = Some ca" "cf_case f = ca_case ca"
    "cf_key f = ca_key ca" "cf_value f = ca_value ca" "cf_message f = ca_message ca" "cf_subject f = ca_subject ca"
    "cf_role f = ca_role ca" "cf_confirmed_at f < ca_expires_at ca"
    and v: "map_of (verifications db) (fst k, i) = Some v" "ve_candidate v = cf_candidate f" "ve_decision v = ''confirm''"
      "ve_fact v = Some (snd k)" "ve_advisor v = cf_advisor f" unfolding fact_ok_def by blast
  from D(3) ca(1) have "candidate_ok db (fst k, cf_candidate f) ca" by (simp add: candidates_ok_def)
  then obtain m where m: "map_of (messages db) (fst k, ca_message ca) = Some m" "me_actor m = ca_subject ca"
    "me_role m = ca_role ca" "me_case m = ca_case ca" and e: "ca_expires_at ca = ca_created_at ca + SEVEN_DAYS"
    and role: "role_allows_fact (ca_role ca) (ca_key ca)" by (auto simp: candidate_ok_def dest: validated_role)
  from message_thread [OF D(2) m(1)] obtain t where
    "map_of (threads db) (fst k, me_thread m) = Some t" "th_case t = me_case m" by auto
  with ca v m e role show ?thesis
    by (intro exI [of _ m] exI [of _ t] exI [of _ i] exI [of _ v]) (auto intro: exI [of _ ca])
qed

text \<open>C9: The facts of a case under one key form one chain: versions 1, 2, 3 without gap, each superseding the one
  before, and exactly the last of them in force.\<close>

theorem facts_form_one_chain:
  assumes "collaboration_reachable facts db"
  shows "map (\<lambda>(k', f). cf_version f) (lineage k fk (confirmed db)) = map int [1..<Suc (length (lineage k fk (confirmed db)))]
    \<and> (\<forall>i. Suc i < length (lineage k fk (confirmed db)) \<longrightarrow>
         cf_supersedes (snd (lineage k fk (confirmed db) ! Suc i)) = Some (snd (fst (lineage k fk (confirmed db) ! i))))
    \<and> filter (\<lambda>(k', f). cf_key f = fk) (facts_in_force k (confirmed db))
        = (if lineage k fk (confirmed db) = [] then [] else [last (lineage k fk (confirmed db))])"
proof -
  have c: "chained (lineage k fk (confirmed db))"
    using collaboration_invariantD(5) [OF collaboration_reachable_invariant [OF assms]] by (simp add: facts_ok_def)
  then have "map (\<lambda>(k', f). cf_version f) (lineage k fk (confirmed db)) = map int [1..<Suc (length (lineage k fk (confirmed db)))]"
    by (intro nth_equalityI) (simp_all add: chained_def case_prod_unfold nth_append del: upt_Suc)
  with c facts_in_force_key [OF c] show ?thesis by (simp add: chained_def in_force_def Let_def del: upt_Suc)
qed

text \<open>C10: The current revision of a case is stored, its documents carry the values of all facts in force, and its
  references name exactly those facts.\<close>

theorem revision_carries_facts_in_force:
  assumes "collaboration_reachable facts db" and "map_of (case_rows db) k = Some c"
  shows "\<exists>row. map_of (revision_rows db) (k, sc_current_revision c) = Some row
    \<and> (\<forall>kf f. (kf, f) \<in> set (facts_in_force k (confirmed db)) \<longrightarrow>
         preference (cf_key f) row = Some (cf_value f)
         \<and> map_of (fact_refs db) ((k, sc_current_revision c), cf_key f) = Some (snd kf))
    \<and> (\<forall>fk i. map_of (fact_refs db) ((k, sc_current_revision c), fk) = Some i \<longrightarrow>
         (\<exists>kf f. (kf, f) \<in> set (facts_in_force k (confirmed db)) \<and> cf_key f = fk \<and> snd kf = i))"
proof -
  note D = collaboration_invariantD [OF collaboration_reachable_invariant [OF assms(1)]]
  have cur: "current_of k db = Some (sc_current_revision c)" using assms(2) by (simp add: current_of_def)
  have ch: "chained (lineage k fk (confirmed db))" for fk using D(5) by (simp add: facts_ok_def)
  from D(6) cur have ref: "map_of (fact_refs db) ((k, sc_current_revision c), fk)
      = map_option (\<lambda>(kf, f). snd kf) (in_force k fk (confirmed db))"
    and ok: "map_of (fact_refs db) ((k, sc_current_revision c), fk) = Some i \<Longrightarrow>
      ref_ok db k (sc_current_revision c) fk i" for fk i unfolding revisions_ok_def by blast+
  from D(6) have rows: "map_of (revision_rows db) (k, n) \<noteq> None \<longleftrightarrow> 1 \<le> n \<and> n \<le> sc_current_revision c" for n
    unfolding revisions_ok_def by (simp add: cur)
  from D(6) cur have one: "1 \<le> sc_current_revision c" unfolding revisions_ok_def by blast
  with rows obtain row where row: "map_of (revision_rows db) (k, sc_current_revision c) = Some row" by blast
  have "preference (cf_key f) row = Some (cf_value f)
         \<and> map_of (fact_refs db) ((k, sc_current_revision c), cf_key f) = Some (snd kf)"
    if f: "(kf, f) \<in> set (facts_in_force k (confirmed db))" for kf f
  proof -
    from f have force: "in_force k (cf_key f) (confirmed db) = Some (kf, f)"
      using facts_in_force_mem [OF ch] by blast
    then have r: "map_of (fact_refs db) ((k, sc_current_revision c), cf_key f) = Some (snd kf)" by (simp add: ref)
    from in_force_confirmed [OF force] have "(kf, f) \<in> set (confirmed db)" "(fst k, snd kf) = kf"
      by (simp_all add: prod_eq_iff)
    with D(5) have "map_of (confirmed db) (fst k, snd kf) = Some f" by (simp add: facts_ok_def)
    with ok [OF r] row r show ?thesis by (auto simp: ref_ok_def)
  qed
  moreover have "\<exists>kf f. (kf, f) \<in> set (facts_in_force k (confirmed db)) \<and> cf_key f = fk \<and> snd kf = i"
    if "map_of (fact_refs db) ((k, sc_current_revision c), fk) = Some i" for fk i
  proof -
    from that obtain kf f where "in_force k fk (confirmed db) = Some (kf, f)" "snd kf = i"
      unfolding ref by auto
    then show ?thesis using facts_in_force_mem [OF ch, of kf f] by blast
  qed
  ultimately show ?thesis using row by blast
qed

section \<open>Candidates\<close>

text \<open>What is written once and stays: the tables of the collaboration are append-only.\<close>

definition collaboration_grows :: "collaboration_db \<Rightarrow> collaboration_db \<Rightarrow> bool" where
  "collaboration_grows db db' \<longleftrightarrow>
     map_of (threads db) \<subseteq>\<^sub>m map_of (threads db') \<and> map_of (candidates db) \<subseteq>\<^sub>m map_of (candidates db')
     \<and> map_of (verifications db) \<subseteq>\<^sub>m map_of (verifications db') \<and> map_of (confirmed db) \<subseteq>\<^sub>m map_of (confirmed db')
     \<and> map_of (revision_rows db) \<subseteq>\<^sub>m map_of (revision_rows db')
     \<and> (\<exists>ms. messages db' = messages db @ ms)
     \<and> (\<forall>ik rec. ik_operation ik \<in> COLLABORATION_OPERATIONS \<longrightarrow> recalled ik db = Some rec \<longrightarrow> recalled ik db' = Some rec)"

lemma collaboration_grows_refl [simp]: "collaboration_grows db db"
  by (simp add: collaboration_grows_def)

lemma collaboration_grows_trans:
  assumes "collaboration_grows db1 db2" "collaboration_grows db2 db3"
  shows "collaboration_grows db1 db3"
proof -
  from assms obtain ms ms' where "messages db2 = messages db1 @ ms" "messages db3 = messages db2 @ ms'"
    unfolding collaboration_grows_def by blast
  then have "messages db3 = messages db1 @ ms @ ms'" by simp
  with assms show ?thesis unfolding collaboration_grows_def by (blast intro: map_le_trans)
qed

lemma remember_call_grows:
  assumes "recalled ik db = None" "recalled ik' db = Some rec" "idempotency (base (core db1)) = idempotency (base (core db))"
  shows "recalled ik' (remember_call ik h i db1) = Some rec"
  using assms by (auto simp: recalled_def)

lemma collaboration_step_grows:
  assumes "collaboration_step facts db db'"
  shows "collaboration_grows db db'"
  using assms
proof (cases rule: collaboration_step.cases)
  case (thread part ses r now out)
  then show ?thesis
    by (cases rule: thread_cases)
      (simp_all add: collaboration_grows_def map_le_snoc remember_call_grows del: map_of_append)
next
  case (append part ses m now out')
  then show ?thesis
    by (cases rule: append_cases)
      (simp_all add: collaboration_grows_def map_le_snoc remember_call_grows del: map_of_append)
next
  case (propose part ses p now out'')
  then show ?thesis
    by (cases rule: propose_cases)
      (simp_all add: collaboration_grows_def map_le_snoc remember_call_grows del: map_of_append)
next
  case (verify sources part ses v now out3)
  then show ?thesis
  proof (cases rule: candidate_verify_cases)
    case (rejected ca c prior run)
    then show ?thesis
      by (simp add: collaboration_grows_def map_le_snoc remember_call_grows audit_call_def write_audit_def del: map_of_append)
  next
    case (confirmed ca c prior run i row row')
    let ?d = "confirmed_db v (ca, c, prior, run) now i row' db"
    have new: "map_of (verifications db) (vy_org v, vy_verification v) = None" "map_of (confirmed db) (vy_org v, i) = None"
      "map_of (revision_rows db) ((vy_org v, ca_case ca), vy_revision v + 1) = None"
      using confirmed(5) by (simp_all add: confirmable_def Let_def)
    have "map_of (verifications db) \<subseteq>\<^sub>m map_of (verifications ?d)" "map_of (confirmed db) \<subseteq>\<^sub>m map_of (confirmed ?d)"
      "map_of (revision_rows db) \<subseteq>\<^sub>m map_of (revision_rows ?d)"
      using new by (simp_all add: confirmed_db_def Let_def map_le_snoc del: map_of_append)
    with confirmed(1) show ?thesis
      by (simp add: confirmed(6) collaboration_grows_def remember_call_grows audit_call_simps)
  qed simp
next
  case (first ses org i s f)
  note F = first_Inr [OF first]
  show ?thesis using F(2) by (simp add: F(3) collaboration_grows_def map_le_snoc recalled_def del: map_of_append)
next
  case (beneath d)
  from core_call_revisions [OF beneath(2)] show ?thesis
    by (simp add: beneath(1) collaboration_grows_def recalled_def keeps_revisions_def)
qed

lemma collaboration_steps_grow: "(collaboration_step facts)\<^sup>*\<^sup>* db db' \<Longrightarrow> collaboration_grows db db'"
  by (induction rule: rtranclp_induct) (auto intro: collaboration_grows_trans collaboration_step_grows)

lemma collaboration_reachable_steps:
  "collaboration_reachable facts db \<Longrightarrow> (collaboration_step facts)\<^sup>*\<^sup>* db db' \<Longrightarrow> collaboration_reachable facts db'"
  unfolding collaboration_reachable_def by (rule rtranclp_trans)

text \<open>The verification of a candidate, looked up.\<close>

lemma verification_found:
  assumes "collaboration_invariant db"
  shows "verification_of k db = Some (kv, v) \<longleftrightarrow>
    map_of (verifications db) kv = Some v \<and> fst kv = fst k \<and> ve_candidate v = snd k"
proof -
  have u: "unique_by ve_candidate (verifications db)"
    using collaboration_invariantD(4) [OF assms] by (simp add: verifications_ok_def)
  then have d: "distinct (map fst (verifications db))" by (simp add: unique_by_def)
  show ?thesis
  proof
    assume "verification_of k db = Some (kv, v)"
    with find_SomeD show "map_of (verifications db) kv = Some v \<and> fst kv = fst k \<and> ve_candidate v = snd k"
      unfolding verification_of_def using d by fastforce
  next
    assume v: "map_of (verifications db) kv = Some v \<and> fst kv = fst k \<and> ve_candidate v = snd k"
    then obtain kv' v' where f: "verification_of k db = Some (kv', v')"
      using unverified [of k db kv v] by (cases "verification_of k db") auto
    from find_SomeD [OF f [unfolded verification_of_def]] d
    have "map_of (verifications db) kv' = Some v'" "fst kv' = fst k" "ve_candidate v' = snd k" by simp_all
    with v unique_byD [OF u, of kv v kv' v'] f show "verification_of k db = Some (kv, v)" by auto
  qed
qed

text \<open>C17: A verified candidate is final: candidate and verification never change, it reads as confirmed or rejected at any
  time, and no later verification of it changes anything.\<close>

theorem verified_candidate_is_final:
  assumes "collaboration_reachable facts db" and "(collaboration_step facts)\<^sup>*\<^sup>* db db'"
    and "map_of (candidates db) k = Some ca" and "verification_of k db = Some (kv, v)"
  shows "map_of (candidates db') k = Some ca \<and> verification_of k db' = Some (kv, v)
    \<and> projected_state k ca now db' = (if ve_decision v = ''confirm'' then ''confirmed'' else ''rejected'')
    \<and> (verify_memory_candidate sources part ses r now db' = Inr (db'', out) \<longrightarrow>
         vy_org r = fst k \<longrightarrow> vy_candidate r = snd k \<longrightarrow> db'' = db')"
proof -
  note inv = collaboration_reachable_invariant [OF assms(1)]
    and inv' = collaboration_reachable_invariant [OF collaboration_reachable_steps [OF assms(1,2)]]
  note g = collaboration_steps_grow [OF assms(2), unfolded collaboration_grows_def]
  from g assms(3) have ca: "map_of (candidates db') k = Some ca" by (blast dest: map_leD)
  from assms(4) g have v: "map_of (verifications db') kv = Some v" "fst kv = fst k" "ve_candidate v = snd k"
    unfolding verification_found [OF inv] by (blast dest: map_leD)+
  then have f: "verification_of k db' = Some (kv, v)" unfolding verification_found [OF inv'] by simp
  from collaboration_invariantD(4) [OF inv'] v(1) have "verification_ok db' kv v" by (simp add: verifications_ok_def)
  then have "ve_decision v = ''reject'' \<or> ve_decision v = ''confirm''" by (auto simp: verification_ok_def)
  with f have "projected_state k ca now db' = (if ve_decision v = ''confirm'' then ''confirmed'' else ''rejected'')"
    by (auto simp: projected_state_def Let_def)
  moreover have "db'' = db'"
    if "verify_memory_candidate sources part ses r now db' = Inr (db'', out)" "vy_org r = fst k" "vy_candidate r = snd k"
    using that(1)
  proof (cases rule: candidate_verify_cases)
    case (rejected ca' c prior run)
    with f that(2,3) show ?thesis by (simp add: admitted_def Let_def)
  next
    case (confirmed ca' c prior run i row row')
    with f that(2,3) show ?thesis by (simp add: admitted_def Let_def)
  qed simp
  ultimately show ?thesis using ca f by blast
qed

section \<open>Threads\<close>

text \<open>The messages of a thread are numbered 1, 2, 3 without gap, are at most 1000, and only ever grow at the end.\<close>

theorem thread_is_gapless:
  assumes "collaboration_reachable facts db" and "(collaboration_step facts)\<^sup>*\<^sup>* db db'"
  shows "map (\<lambda>(km, m). me_sequence m) (thread_messages k db') = map int [1..<Suc (length (thread_messages k db'))]
    \<and> length (thread_messages k db') \<le> 1000
    \<and> take (length (thread_messages k db)) (thread_messages k db') = thread_messages k db"
proof -
  from collaboration_invariantD(2) [OF collaboration_reachable_invariant [OF collaboration_reachable_steps [OF assms]]]
  have "map (\<lambda>(km, m). me_sequence m) (thread_messages k db') = map int [1..<Suc (length (thread_messages k db'))]
    \<and> length (thread_messages k db') \<le> 1000" unfolding messages_ok_def by blast
  moreover from collaboration_steps_grow [OF assms(2)] obtain ms where "messages db' = messages db @ ms"
    unfolding collaboration_grows_def by blast
  ultimately show ?thesis by (simp add: thread_messages_def)
qed

section \<open>Confirmation and planning\<close>

lemma retired_none_current:
  "filter (\<lambda>(k', q). fst k' = fst k \<and> run_case q = snd k \<and> run_is_current q) (retire_runs k rows) = []"
  by (auto simp: retire_runs_def filter_empty_conv split: if_splits)

text \<open>C11: A confirmation makes the next revision: it has the confirmed value, no live task and no current run are left, and
  a run that was current was returned by its advisor, is named as superseded, and the fact is one of the three that may change.\<close>

theorem confirmation_replaces_run:
  assumes "collaboration_reachable facts db"
    and "verify_memory_candidate sources part ses r now db = Inr (db', i, v, False)" and "vy_decision r = ''confirm''"
  shows "\<exists>ca row'. map_of (candidates db) (vy_org r, vy_candidate r) = Some ca \<and> now < ca_expires_at ca
    \<and> current_of (vy_org r, ca_case ca) db = Some (ca_revision ca)
    \<and> current_of (vy_org r, ca_case ca) db' = Some (ca_revision ca + 1)
    \<and> map_of (revision_rows db') ((vy_org r, ca_case ca), ca_revision ca + 1) = Some row'
    \<and> preference (ca_key ca) row' = Some (ca_value ca)
    \<and> current_runs (vy_org r, ca_case ca) db' = []
    \<and> \<not> list_ex (\<lambda>(kt, t). fst kt = vy_org r \<and> t_case t = ca_case ca \<and> t_state t \<in> LIVE_STATES) (tasks (base (core db')))
    \<and> (current_runs (vy_org r, ca_case ca) db = [] \<and> rv_superseded row' = None
       \<or> (\<exists>kq q ia a. current_runs (vy_org r, ca_case ca) db = [(kq, q)] \<and> rv_superseded row' = Some (snd kq)
            \<and> rv_review row' = Some ia \<and> ((vy_org r, ia), a) \<in> set (reviews (core db))
            \<and> ar_run a = snd kq \<and> ar_revision a = ca_revision ca \<and> ar_action a = ''request_revision''
            \<and> ca_key ca \<in> {''student.preferred_countries'', ''family.budget'', ''student.intake''}))"
  using assms(2)
proof (cases rule: candidate_verify_cases)
  case (confirmed ca c prior run j row row')
  let ?k = "(vy_org r, ca_case ca)" and ?n = "vy_revision r + 1"
  from confirmed(2) have a: "map_of (candidates db) (vy_org r, vy_candidate r) = Some ca" "now < ca_expires_at ca"
    "map_of (case_rows db) ?k = Some c" "sc_current_revision c = vy_revision r" "ca_revision ca = vy_revision r"
    "current_runs ?k db = (case run of None \<Rightarrow> [] | Some q \<Rightarrow> [q])"
    "validate_collaboration_fact (ca_role ca) (ca_key ca) (Some (ca_value ca)) = Inr ()"
    by (simp_all add: admitted_def Let_def)
  let ?review = "revision_review ?k (ca_revision ca) (map_option fst run) db"
  from confirmed(5) have o: "admit_revision ?k ca c (map_option fst run) ?review db = Inr ()" "check_projection row = Inr ()"
    "(rv_student row', rv_family row') = next_projection (ca_key ca) (ca_value ca) (rv_student row, rv_family row)"
    "map_of (revision_rows db) (?k, ?n) = None" "rv_superseded row' = map_option (\<lambda>(kq, q). snd kq) run"
    "rv_review row' = ?review" by (simp_all add: confirmable_def Let_def)
  have rows: "map_of (revision_rows db') (?k, ?n) = Some row'"
    by (simp add: confirmed(6) confirmed_db_def Let_def map_of_snoc [OF o(4)] del: map_of_append)
  have "run_rows db' = run_rows_after run (run_rows db)" by (simp add: confirmed(6) confirmed_db_def Let_def)
  also have "\<dots> = retire_runs ?k (run_rows db)"
    using a(6) runs_distinct [OF collaboration_invariantD(6) [OF collaboration_reachable_invariant [OF assms(1)]]]
    by (intro retire_one) (simp_all add: current_runs_def)
  finally have none: "current_runs ?k db' = []" by (simp only: current_runs_def retired_none_current)
  have "tasks (base (core db')) = tasks (base (core db))"
    by (simp add: confirmed(6) confirmed_db_def Let_def remember_def)
  with o(1) have live: "\<not> list_ex (\<lambda>(kt, t). fst kt = vy_org r \<and> t_case t = ca_case ca \<and> t_state t \<in> LIVE_STATES)
      (tasks (base (core db')))"
    by (auto simp: admit_revision_def blocked_by_task_def task_blocks_def list_ex_iff LIVE_STATES_def split: if_splits)
  have cur: "current_of ?k db = Some (ca_revision ca)" "current_of ?k db' = Some (ca_revision ca + 1)"
    using a(3-5) by (simp_all add: current_of_def confirmed(6) confirmed_db_def Let_def)
  have pref: "preference (ca_key ca) row' = Some (ca_value ca)"
    using preference_after [OF o(2) validated_key [OF a(7)] o(3)] by simp
  have "current_runs ?k db = [] \<and> rv_superseded row' = None
       \<or> (\<exists>kq q ia x. current_runs ?k db = [(kq, q)] \<and> rv_superseded row' = Some (snd kq)
            \<and> rv_review row' = Some ia \<and> ((vy_org r, ia), x) \<in> set (reviews (core db))
            \<and> ar_run x = snd kq \<and> ar_revision x = ca_revision ca \<and> ar_action x = ''request_revision''
            \<and> ca_key ca \<in> {''student.preferred_countries'', ''family.budget'', ''student.intake''})"
  proof (cases run)
    case (Some y)
    obtain kq q where y: "y = (kq, q)" by (cases y)
    from o(1) Some y have key: "ca_key ca \<in> {''student.preferred_countries'', ''family.budget'', ''student.intake''}"
      and "?review \<noteq> None" by (auto simp: admit_revision_def split: if_splits)
    from \<open>?review \<noteq> None\<close> Some y obtain ka x where f: "find (\<lambda>(ka, a). fst ka = fst ?k \<and> ar_case a = snd ?k
        \<and> ar_revision a = ca_revision ca \<and> ar_run a = snd kq \<and> ar_action a = ''request_revision'')
        (reviews (core db)) = Some (ka, x)" "?review = Some (snd ka)"
      by (auto simp: revision_review_def)
    from find_SomeD [OF f(1)] f(2) have x: "?review = Some (snd ka)" "(ka, x) \<in> set (reviews (core db))"
      "fst ka = vy_org r" "ar_run x = snd kq" "ar_revision x = ca_revision ca" "ar_action x = ''request_revision''"
      by simp_all
    then have "((vy_org r, snd ka), x) \<in> set (reviews (core db))" by (metis prod.collapse)
    with x key a(6) o(5,6) Some y show ?thesis by auto
  qed (use a(6) o(5) in simp)
  with a(1,2) cur rows pref none live show ?thesis by (auto simp: a(5))
qed (use assms(3) in auto)

section \<open>Witnesses\<close>

lemma shared_rows:
  "map_of (confirmed shared_confirmed) (1, 840) = Some (new_fact confirmation
     (snd (hd (candidates shared_candidate))) None 9000)"
  "map_of (case_rows shared_confirmed) (1, 10) = Some \<lparr>sc_current_revision = 2, sc_state = CS_PLANNING\<rparr>"
  "map_of (candidates shared_confirmed) (1, 820) = Some (snd (hd (candidates shared_candidate)))"
  "verification_of (1, 820) shared_confirmed = Some ((1, 830), verification_row_of confirmation 10 (Some 2))"
  "vy_decision confirmation = ''confirm''"
  "length (thread_messages (1, 800) shared_candidate) = 1" "vy_org confirmation = 1" "vy_candidate confirmation = 820"
  by code_simp+

theorem confirmed_fact_is_traced_witness:
  "\<exists>i v. map_of (verifications shared_confirmed) (1, i) = Some v \<and> ve_decision v = ''confirm'' \<and> ve_fact v = Some 840"
  using confirmed_fact_is_traced [OF shared_reachable(2) shared_rows(1)] by auto

theorem facts_form_one_chain_witness:
  "map (\<lambda>(k', f). cf_version f) (lineage (1, 10) ''family.budget'' (confirmed shared_confirmed))
     = map int [1..<Suc (length (lineage (1, 10) ''family.budget'' (confirmed shared_confirmed)))]"
  using facts_form_one_chain [OF shared_reachable(2)] by blast

theorem revision_carries_facts_in_force_witness:
  "\<exists>row. map_of (revision_rows shared_confirmed) ((1, 10), 2) = Some row"
  using revision_carries_facts_in_force [OF shared_reachable(2) shared_rows(2)] by auto

theorem verified_candidate_is_final_witness:
  "projected_state (1, 820) (snd (hd (candidates shared_candidate))) 604800009000 shared_confirmed = ''confirmed''"
  using verified_candidate_is_final [OF shared_reachable(2) rtranclp.rtrancl_refl shared_rows(3,4)]
  by (simp add: verification_row_of_def shared_rows(5))

theorem thread_is_gapless_witness:
  "map (\<lambda>(km, m). me_sequence m) (thread_messages (1, 800) shared_confirmed)
     = map int [1..<Suc (length (thread_messages (1, 800) shared_confirmed))]
   \<and> take 1 (thread_messages (1, 800) shared_confirmed) = thread_messages (1, 800) shared_candidate"
  using thread_is_gapless [OF shared_reachable(1) r_into_rtranclp [where r = "collaboration_step family_facts", OF shared_steps(4)], of "(1, 800)"]
  by (simp add: shared_rows(6))

theorem confirmation_replaces_run_witness:
  "\<exists>ca. map_of (candidates shared_candidate) (1, 820) = Some ca
     \<and> current_of (1, ca_case ca) shared_confirmed = Some (ca_revision ca + 1)
     \<and> current_runs (1, ca_case ca) shared_confirmed = []"
  using confirmation_replaces_run [OF shared_reachable(1) shared_confirmation shared_rows(5)]
  unfolding shared_rows(7,8) by blast

end
