(* ===== verification/Collaboration_Paging.thy ===== *)
theory Collaboration_Paging
  imports Collaboration_Read Collaboration_Properties
begin

text \<open>
  The pages of a thread and of the history of facts while the database moves on: the pages of one snapshot, read one
  after the other from later and later databases, put together the history at that snapshot.
\<close>

declare split_paired_All [simp del] split_paired_Ex [simp del]

section \<open>What a step does to the facts\<close>

definition fact_verifications :: "collaboration_db \<Rightarrow> (row_key \<times> verification_row) list" where
  "fact_verifications db = filter (\<lambda>(kv, v). ve_fact v \<noteq> None) (verifications db)"

lemma verifications_of_fact_eq:
  "verifications_of_fact k db = filter (\<lambda>(kv, v). fst kv = fst k \<and> ve_fact v = Some (snd k)) (fact_verifications db)"
  by (auto simp: verifications_of_fact_def fact_verifications_def intro: filter_cong)

text \<open>The one step that adds a fact: with its verification, at the next revision of its case.\<close>

definition adds_fact :: "collaboration_db \<Rightarrow> collaboration_db \<Rightarrow> bool" where
  "adds_fact db db' \<longleftrightarrow>
     (\<exists>k f kv v n. confirmed db' = confirmed db @ [(k, f)]
        \<and> fact_verifications db' = fact_verifications db @ [(kv, v)] \<and> fst kv = fst k \<and> ve_fact v = Some (snd k)
        \<and> ve_revision v = Some (n + 1) \<and> current_of (fst k, cf_case f) db = Some n
        \<and> map_of (confirmed db) k = None \<and> cf_supersedes f \<noteq> Some (snd k))"

lemma step_facts:
  assumes "collaboration_step facts db db'" and inv: "collaboration_invariant db"
  shows "confirmed db' = confirmed db \<and> fact_verifications db' = fact_verifications db \<or> adds_fact db db'"
  using assms(1)
proof (cases rule: collaboration_step.cases)
  case (thread part ses r now out)
  then show ?thesis by (cases rule: thread_cases) (simp_all add: fact_verifications_def)
next
  case (append part ses m now out')
  then show ?thesis by (cases rule: append_cases) (simp_all add: fact_verifications_def)
next
  case (propose part ses p now out'')
  then show ?thesis by (cases rule: propose_cases) (simp_all add: fact_verifications_def)
next
  case (verify sources part ses v now out3)
  then show ?thesis
  proof (cases rule: candidate_verify_cases)
    case (rejected ca c prior run)
    then show ?thesis by (simp add: fact_verifications_def verification_row_of_def)
  next
    case (confirmed ca c prior run i row row')
    let ?k = "(vy_org v, i)" and ?f = "new_fact v ca prior now"
    from confirmed(2) have a: "current_of (vy_org v, ca_case ca) db = Some (vy_revision v)"
      "prior = find (\<lambda>(kf, f). cf_key f = ca_key ca) (facts_in_force (vy_org v, ca_case ca) (Collaboration_Authority.confirmed db))"
      by (simp_all add: admitted_def Let_def current_of_def)
    from confirmed(5) have c: "vy_fact v = Some i" "map_of (Collaboration_Authority.confirmed db) ?k = None"
      by (simp_all add: confirmable_def Let_def)
    have "cf_supersedes ?f \<noteq> Some i"
    proof
      assume "cf_supersedes ?f = Some i"
      then obtain kp p where p: "prior = Some (kp, p)" "snd kp = i" by (auto simp: new_fact_def)
      with a(2) have "find (\<lambda>(kf, f). cf_key f = ca_key ca)
          (facts_in_force (vy_org v, ca_case ca) (Collaboration_Authority.confirmed db)) = Some (kp, p)" by simp
      from find_SomeD [OF this] have "(kp, p) \<in> set (Collaboration_Authority.confirmed db)" "fst kp = vy_org v"
        by (auto simp: facts_in_force_def)
      with p(2) have "(?k, p) \<in> set (Collaboration_Authority.confirmed db)" by (metis prod.collapse)
      with c(2) show False by (auto simp: map_of_eq_None_iff image_iff)
    qed
    then have "adds_fact db db'"
      using a(1) c unfolding adds_fact_def
      by (intro exI [of _ ?k] exI [of _ ?f] exI [of _ "(vy_org v, vy_verification v)"]
          exI [of _ "verification_row_of v (ca_case ca) (Some (vy_revision v + 1))"] exI [of _ "vy_revision v"])
        (simp add: confirmed(6) confirmed_db_def Let_def fact_verifications_def verification_row_of_def new_fact_def)
    then show ?thesis ..
  qed simp
next
  case (first ses org i s f)
  from first_Inr(3) [OF first] show ?thesis by (simp add: fact_verifications_def)
next
  case (beneath d)
  then show ?thesis by (simp add: fact_verifications_def)
qed

lemma step_current:
  assumes "collaboration_step facts db db'" and inv: "collaboration_invariant db" and cur: "current_of k db = Some n"
  shows "\<exists>n'. current_of k db' = Some n' \<and> n \<le> n'"
  using assms(1)
proof (cases rule: collaboration_step.cases)
  case (thread part ses r now out)
  then show ?thesis by (cases rule: thread_cases) (simp_all add: current_of_def cur [unfolded current_of_def] remember_def)
next
  case (append part ses m now out')
  then show ?thesis by (cases rule: append_cases) (simp_all add: current_of_def cur [unfolded current_of_def] remember_def)
next
  case (propose part ses p now out'')
  then show ?thesis by (cases rule: propose_cases) (simp_all add: current_of_def cur [unfolded current_of_def] remember_def)
next
  case (verify sources part ses v now out3)
  then show ?thesis
  proof (cases rule: candidate_verify_cases)
    case (rejected ca c prior run)
    with cur show ?thesis by (auto simp: current_of_def remember_def)
  next
    case (confirmed ca c prior run i row row')
    from confirmed(2) have "current_of (vy_org v, ca_case ca) db = Some (vy_revision v)"
      by (simp add: admitted_def Let_def current_of_def)
    with cur show ?thesis
      by (cases "k = (vy_org v, ca_case ca)") (auto simp: confirmed(6) confirmed_db_def Let_def current_of_def remember_def)
  qed (use cur in simp)
next
  case (first ses org i s f)
  from first_Inr(1,3) [OF first] cur show ?thesis
    by (auto simp: current_of_def map_of_snoc simp del: map_of_append)
next
  case (beneath d)
  from core_call_revisions [OF beneath(2)] cur show ?thesis by (auto simp: beneath(1) keeps_revisions_def current_of_def)
qed

section \<open>The history at a snapshot\<close>

lemma named_fact:
  assumes "collaboration_invariant db" and v: "(kv, v) \<in> set (fact_verifications db)" and "ve_fact v = Some i"
  shows "map_of (confirmed db) (fst kv, i) \<noteq> None"
proof -
  have u: "unique_by ve_candidate (verifications db)" and ok: "\<And>k v. map_of (verifications db) k = Some v \<Longrightarrow> verification_ok db k v"
    using collaboration_invariantD(4) [OF assms(1)] by (simp_all add: verifications_ok_def)
  from v u have "map_of (verifications db) kv = Some v" by (auto simp: fact_verifications_def unique_by_def)
  from ok [OF this] assms(3) show ?thesis by (auto simp: verification_ok_def)
qed

lemma superseded_exists:
  assumes "collaboration_invariant db" and s: "(ks, s) \<in> set (confirmed db)" and "cf_supersedes s = Some j"
  shows "map_of (confirmed db) (fst ks, j) \<noteq> None"
proof -
  let ?l = "lineage (fst ks, cf_case s) (cf_key s) (confirmed db)"
  have ch: "chained ?l" using collaboration_invariantD(5) [OF assms(1)] by (simp add: facts_ok_def)
  from s have "(ks, s) \<in> set ?l" by (simp add: lineage_def)
  then obtain i where i: "i < length ?l" "?l ! i = (ks, s)" by (auto simp: in_set_conv_nth)
  with ch assms(3) have "i \<noteq> 0" "j = snd (fst (?l ! (i - 1)))" by (auto simp: chained_def split: if_splits)
  moreover from i \<open>i \<noteq> 0\<close> have "?l ! (i - 1) \<in> set ?l" by (intro nth_mem) simp
  moreover obtain kp p where "?l ! (i - 1) = (kp, p)" by (cases "?l ! (i - 1)")
  ultimately have "(kp, p) \<in> set (confirmed db)" "fst kp = fst ks" "j = snd kp" by (simp_all add: lineage_def)
  then have "((fst ks, j), p) \<in> set (confirmed db)" by (metis prod.collapse)
  then show ?thesis by (auto simp: map_of_eq_None_iff intro: rev_image_eqI)
qed

lemma superseded_step:
  assumes st: "collaboration_step facts db db'" and inv: "collaboration_invariant db"
    and cur: "current_of k db = Some n" "snapshot \<le> n"
  shows "superseded_facts k snapshot db' = superseded_facts k snapshot db"
  using step_facts [OF st inv]
proof
  assume "confirmed db' = confirmed db \<and> fact_verifications db' = fact_verifications db"
  then show ?thesis by (simp add: superseded_facts_def supersessions_def [abs_def] succession_def [abs_def] verifications_of_fact_eq cong: if_cong)
next
  assume "adds_fact db db'"
  then obtain k0 f0 kv v n0 where a: "confirmed db' = confirmed db @ [(k0, f0)]"
    "fact_verifications db' = fact_verifications db @ [(kv, v)]" "fst kv = fst k0" "ve_fact v = Some (snd k0)"
    "ve_revision v = Some (n0 + 1)" "current_of (fst k0, cf_case f0) db = Some n0" "map_of (confirmed db) k0 = None"
    "cf_supersedes f0 \<noteq> Some (snd k0)" unfolding adds_fact_def by blast
  have "filter (\<lambda>(kv, v). fst kv = fst k0 \<and> ve_fact v = Some (snd k0)) (fact_verifications db) = []"
    using named_fact [OF inv] a(7) by (auto simp: filter_empty_conv) (metis option.distinct(1) prod.collapse fst_conv)
  then have ver: "verifications_of_fact ks db' = (if ks = k0 then [(kv, v)] else verifications_of_fact ks db)" for ks
    using a(3,4) by (auto simp: verifications_of_fact_eq a(2) prod_eq_iff)
  have old: "succession snapshot db' kf ks = succession snapshot db kf ks" if "ks \<in> set (confirmed db)" for kf ks
  proof -
    from a(7) that have "fst ks \<noteq> k0" by (auto simp: map_of_eq_None_iff)
    then show ?thesis by (simp add: succession_def ver)
  qed
  have same: "supersessions snapshot db' kf = supersessions snapshot db kf"
    if "fst (fst kf) = fst k" "cf_case (snd kf) = snd k" for kf
  proof -
    have "succession snapshot db' kf (k0, f0) = []"
      using that a(6) cur by (auto simp: succession_def ver a(5))
    moreover have "map (succession snapshot db' kf) (confirmed db) = map (succession snapshot db kf) (confirmed db)"
      by (intro map_cong refl old)
    ultimately show ?thesis by (simp add: supersessions_def a(1) del: map_eq_conv)
  qed
  have none: "succession snapshot db' (k0, f0) ks = []" if "ks \<in> set (confirmed db')" for ks
  proof (rule ccontr)
    assume "succession snapshot db' (k0, f0) ks \<noteq> []"
    then have "fst (fst ks) = fst k0" "cf_supersedes (snd ks) = Some (snd k0)" by (auto simp: succession_def split: if_splits)
    with that superseded_exists [OF inv, of "fst ks" "snd ks" "snd k0"] a(7,8) show False by (auto simp: a(1))
  qed
  let ?in = "\<lambda>(kf, f). fst kf = fst k \<and> cf_case f = snd k"
  have "map (supersessions snapshot db') (filter ?in (confirmed db)) = map (supersessions snapshot db) (filter ?in (confirmed db))"
    by (intro map_cong refl same) auto
  moreover have "supersessions snapshot db' (k0, f0) = []" using none by (simp add: supersessions_def)
  ultimately show ?thesis by (simp add: superseded_facts_def a(1) del: map_eq_conv)
qed

section \<open>The rows of the history\<close>

lemma distinct_singleton: "distinct xs \<Longrightarrow> set xs = {x} \<Longrightarrow> xs = [x]"
  by (cases xs; cases "tl xs") auto

lemma fact_message:
  assumes "collaboration_invariant db" and "map_of (confirmed db) k = Some f"
  shows "\<exists>m. map_of (messages db) (fst k, cf_message f) = Some m"
proof -
  from collaboration_invariantD(5) [OF assms(1)] assms(2) have "fact_ok db k f" by (simp add: facts_ok_def)
  then obtain ca where ca: "map_of (candidates db) (fst k, cf_candidate f) = Some ca" "cf_message f = ca_message ca"
    unfolding fact_ok_def by blast
  from collaboration_invariantD(3) [OF assms(1)] ca(1) have "candidate_ok db (fst k, cf_candidate f) ca"
    by (simp add: candidates_ok_def)
  with ca(2) show ?thesis by (auto simp: candidate_ok_def)
qed

lemma fact_verified_once:
  assumes inv: "collaboration_invariant db" and f: "map_of (confirmed db) k = Some f"
  shows "\<exists>kv v. verifications_of_fact k db = [(kv, v)]"
proof -
  have u: "unique_by ve_candidate (verifications db)" and ok: "\<And>k v. map_of (verifications db) k = Some v \<Longrightarrow> verification_ok db k v"
    using collaboration_invariantD(4) [OF inv] by (simp_all add: verifications_ok_def)
  from u have d: "distinct (map fst (verifications db))" by (simp add: unique_by_def)
  from collaboration_invariantD(5) [OF inv] f have "fact_ok db k f" by (simp add: facts_ok_def)
  then obtain i v where v: "map_of (verifications db) (fst k, i) = Some v" "ve_candidate v = cf_candidate f"
    "ve_fact v = Some (snd k)" unfolding fact_ok_def by blast
  have one: "kv = (fst k, i)" if "map_of (verifications db) kv = Some w" "fst kv = fst k" "ve_fact w = Some (snd k)" for kv w
  proof -
    from ok [OF that(1)] that(2,3) f have "ve_candidate w = cf_candidate f" by (auto simp: verification_ok_def)
    with unique_byD [OF u that(1) v(1)] that(2) v(2) show ?thesis by simp
  qed
  have "(kv, w) \<in> set (verifications_of_fact k db) \<longleftrightarrow> (kv, w) = ((fst k, i), v)" for kv w
  proof -
    have "(kv, w) \<in> set (verifications_of_fact k db) \<longleftrightarrow>
        map_of (verifications db) kv = Some w \<and> fst kv = fst k \<and> ve_fact w = Some (snd k)"
      using d by (simp add: verifications_of_fact_def)
    then show ?thesis using v one [of kv w] by auto
  qed
  then have "x \<in> set (verifications_of_fact k db) \<longleftrightarrow> x = ((fst k, i), v)" for x by (cases x) (simp only:)
  then have "set (verifications_of_fact k db) = {((fst k, i), v)}" by (intro set_eqI) (simp only: singleton_iff)
  moreover have "distinct (verifications_of_fact k db)"
    using d unfolding distinct_map by (simp add: verifications_of_fact_def)
  ultimately have "verifications_of_fact k db = [((fst k, i), v)]" by (rule distinct_singleton [rotated])
  then show ?thesis by blast
qed

lemma detail_single:
  assumes "collaboration_invariant db" and "map_of (confirmed db) k = Some f"
  shows "\<exists>d. detail_fact db (k, f) = [(view_fact f, d)]"
  using fact_message [OF assms] fact_verified_once [OF assms] by (auto simp: detail_fact_def)

lemma concat_at_most_once:
  assumes "distinct xs" "\<And>x. x \<in> set xs \<Longrightarrow> f x \<noteq> [] \<Longrightarrow> f x = [y]"
    and "\<And>x x'. x \<in> set xs \<Longrightarrow> x' \<in> set xs \<Longrightarrow> f x \<noteq> [] \<Longrightarrow> f x' \<noteq> [] \<Longrightarrow> x = x'"
  shows "concat (map f xs) = [] \<or> concat (map f xs) = [y]"
  using assms
proof (induction xs)
  case (Cons x xs)
  show ?case
  proof (cases "f x = []")
    case True
    with Cons show ?thesis by simp
  next
    case False
    with Cons.prems have "f x' = []" if "x' \<in> set xs" for x' using that by (metis distinct.simps(2) list.set_intros)
    then have c: "concat (map f xs) = []" by simp
    have "f x = [y]" using False Cons.prems(2) [of x] by simp
    then show ?thesis unfolding list.map concat.simps c by simp
  qed
qed simp

lemma one_successor:
  assumes inv: "collaboration_invariant db" and "x \<in> set (confirmed db)" "y \<in> set (confirmed db)"
    and same: "fst (fst x) = fst (fst y)" "cf_case (snd x) = cf_case (snd y)" "cf_key (snd x) = cf_key (snd y)"
    and "cf_supersedes (snd x) = Some j" "cf_supersedes (snd y) = Some j"
  shows "x = y"
proof -
  let ?l = "lineage (fst (fst x), cf_case (snd x)) (cf_key (snd x)) (confirmed db)"
  have ch: "chained ?l" using collaboration_invariantD(5) [OF inv] by (simp add: facts_ok_def)
  have "x \<in> set ?l" "y \<in> set ?l" using assms(2,3) same by (auto simp: lineage_def)
  then obtain a b where ab: "a < length ?l" "x = ?l ! a" "b < length ?l" "y = ?l ! b" by (auto simp: in_set_conv_nth)
  with ch assms(7,8) have pos: "a \<noteq> 0" "b \<noteq> 0" "j = snd (fst (?l ! (a - 1)))" "j = snd (fst (?l ! (b - 1)))"
    by (auto simp: chained_def split: if_splits)
  have "fst (fst z) = fst (fst x)" if "z \<in> set ?l" for z using that by (auto simp: lineage_def)
  with ab pos have "map fst ?l ! (a - 1) = map fst ?l ! (b - 1)" by (simp add: prod_eq_iff)
  moreover from ch have "distinct (map fst ?l)" unfolding chained_def by blast
  ultimately have "a - 1 = b - 1" using nth_eq_iff_index_eq [of "map fst ?l" "a - 1" "b - 1"] ab(1,3) by simp
  with pos(1,2) have "a = b" by simp
  with ab(2,4) show ?thesis by simp
qed

lemma supersessions_once:
  assumes inv: "collaboration_invariant db"
  shows "supersessions snapshot db kf = [] \<or> supersessions snapshot db kf = [kf]"
  unfolding supersessions_def
proof (rule concat_at_most_once)
  from collaboration_invariantD(5) [OF inv] show d: "distinct (confirmed db)"
    by (simp add: facts_ok_def distinct_map)
  show "succession snapshot db kf ks = [kf]" if "ks \<in> set (confirmed db)" "succession snapshot db kf ks \<noteq> []" for ks
  proof -
    from that(1) collaboration_invariantD(5) [OF inv] have "map_of (confirmed db) (fst ks) = Some (snd ks)"
      by (simp add: facts_ok_def)
    from fact_verified_once [OF inv this] obtain kv v where "verifications_of_fact (fst ks) db = [(kv, v)]" by blast
    with that(2) show ?thesis by (auto simp: succession_def split: if_splits option.splits)
  qed
  show "ks = ks'" if "ks \<in> set (confirmed db)" "ks' \<in> set (confirmed db)" "succession snapshot db kf ks \<noteq> []"
    "succession snapshot db kf ks' \<noteq> []" for ks ks'
    by (rule one_successor [OF inv that(1,2)]) (use that(3,4) in \<open>auto simp: succession_def split: if_splits\<close>)
qed

definition history_order :: "row_key \<times> fact_row \<Rightarrow> string \<times> int" where
  "history_order kf = (cf_key (snd kf), - cf_version (snd kf))"

lemma same_version:
  assumes inv: "collaboration_invariant db" and "x \<in> set (confirmed db)" "y \<in> set (confirmed db)"
    and same: "fst (fst x) = fst (fst y)" "cf_case (snd x) = cf_case (snd y)" "history_order x = history_order y"
  shows "x = y"
proof -
  let ?l = "lineage (fst (fst x), cf_case (snd x)) (cf_key (snd x)) (confirmed db)"
  have ch: "chained ?l" using collaboration_invariantD(5) [OF inv] by (simp add: facts_ok_def)
  have "x \<in> set ?l" "y \<in> set ?l" using assms(2,3) same by (auto simp: lineage_def history_order_def)
  then obtain a b where ab: "a < length ?l" "x = ?l ! a" "b < length ?l" "y = ?l ! b" by (auto simp: in_set_conv_nth)
  with ch same(3) show ?thesis by (auto simp: chained_def history_order_def)
qed

lemma superseded_facts_filter:
  assumes inv: "collaboration_invariant db"
  shows "superseded_facts k snapshot db = sort_key history_order
     (filter (\<lambda>kf. supersessions snapshot db kf \<noteq> []) (filter (\<lambda>(kf, f). fst kf = fst k \<and> cf_case f = snd k) (confirmed db)))"
proof -
  have "concat (map (supersessions snapshot db) xs) = filter (\<lambda>kf. supersessions snapshot db kf \<noteq> []) xs" for xs
  proof (induction xs)
    case (Cons kf xs)
    from supersessions_once [OF inv, of snapshot kf] Cons show ?case by (elim disjE) simp_all
  qed simp
  moreover have "history_order = (\<lambda>(kf, f). (cf_key f, - cf_version f))" by (auto simp: history_order_def)
  ultimately show ?thesis by (simp add: superseded_facts_def)
qed

lemma history_sorted:
  assumes inv: "collaboration_invariant db"
  shows "sorted (map history_order (superseded_facts k snapshot db))" "distinct (map history_order (superseded_facts k snapshot db))"
    "set (superseded_facts k snapshot db) \<subseteq> set (confirmed db)"
proof -
  let ?xs = "filter (\<lambda>kf. supersessions snapshot db kf \<noteq> []) (filter (\<lambda>(kf, f). fst kf = fst k \<and> cf_case f = snd k) (confirmed db))"
  have "distinct (confirmed db)" using collaboration_invariantD(5) [OF inv] by (simp add: facts_ok_def distinct_map)
  then have "distinct ?xs" by simp
  moreover have "inj_on history_order (set ?xs)" using same_version [OF inv] by (auto intro!: inj_onI)
  ultimately have "distinct (map history_order (sort_key history_order ?xs))" by (simp add: distinct_map)
  then show "distinct (map history_order (superseded_facts k snapshot db))" by (simp add: superseded_facts_filter [OF inv])
qed (auto simp: superseded_facts_filter [OF inv])

section \<open>Pages\<close>

definition fact_history :: "row_key \<Rightarrow> int \<Rightarrow> collaboration_db \<Rightarrow> (fact_view \<times> fact_detail) list" where
  "fact_history k snapshot db = concat (map (detail_fact db) (superseded_facts k snapshot db))"

lemma detail_step:
  assumes st: "collaboration_step facts db db'" and inv: "collaboration_invariant db" and kf: "kf \<in> set (confirmed db)"
  shows "detail_fact db' kf = detail_fact db kf"
proof -
  obtain k f where e: "kf = (k, f)" by (cases kf)
  from kf collaboration_invariantD(5) [OF inv] have f: "map_of (confirmed db) k = Some f" by (simp add: e facts_ok_def)
  from fact_message [OF inv f] obtain m where m: "map_of (messages db) (fst k, cf_message f) = Some m" by blast
  from collaboration_step_grows [OF st] obtain ms where "messages db' = messages db @ ms"
    unfolding collaboration_grows_def by blast
  with m have "map_of (messages db') (fst k, cf_message f) = map_of (messages db) (fst k, cf_message f)"
    by (simp add: map_add_Some_iff)
  moreover have "verifications_of_fact k db' = verifications_of_fact k db"
    using step_facts [OF st inv]
  proof
    assume "adds_fact db db'"
    then obtain k0 kv v where "fact_verifications db' = fact_verifications db @ [(kv, v)]" "fst kv = fst k0"
      "ve_fact v = Some (snd k0)" "map_of (confirmed db) k0 = None" unfolding adds_fact_def by blast
    moreover from this(4) f have "k0 \<noteq> k" by auto
    ultimately show ?thesis by (auto simp: verifications_of_fact_eq prod_eq_iff)
  qed (simp add: verifications_of_fact_eq)
  ultimately show ?thesis by (simp only: detail_fact_def e Let_def prod.case)
qed

text \<open>The history at a snapshot is settled once the snapshot is the current revision.\<close>

lemma history_step:
  assumes st: "collaboration_step facts db db'" and inv: "collaboration_invariant db"
    and cur: "current_of k db = Some n" "snapshot \<le> n"
  shows "fact_history k snapshot db' = fact_history k snapshot db"
proof -
  have "map (detail_fact db') (superseded_facts k snapshot db) = map (detail_fact db) (superseded_facts k snapshot db)"
    using detail_step [OF st inv] history_sorted(3) [OF inv] by (intro map_cong refl) blast
  then show ?thesis by (simp add: fact_history_def superseded_step [OF st inv cur] del: map_eq_conv)
qed

lemma history_steps:
  assumes "(collaboration_step facts)\<^sup>*\<^sup>* db db'" and "collaboration_reachable facts db"
    and "current_of k db = Some n" "snapshot \<le> n"
  shows "fact_history k snapshot db' = fact_history k snapshot db \<and> (\<exists>n'. current_of k db' = Some n' \<and> n \<le> n')"
  using assms(1)
proof (induction rule: rtranclp_induct)
  case (step d d')
  then obtain n' where n': "current_of k d = Some n'" "n \<le> n'" by blast
  have inv: "collaboration_invariant d"
    by (rule collaboration_reachable_invariant [OF collaboration_reachable_steps [OF assms(2) step(1)]])
  from history_step [OF step(2) inv n'(1)] n'(2) assms(4) step(3)
  have "fact_history k snapshot d' = fact_history k snapshot db" by simp
  moreover from step_current [OF step(2) inv n'(1)] n'(2) have "\<exists>n''. current_of k d' = Some n'' \<and> n \<le> n''" by fastforce
  ultimately show ?case by blast
qed (use assms(3) in blast)

lemma filter_beyond:
  assumes "sorted (map f xs)" "distinct (map f xs)" "n < length xs"
  shows "filter (\<lambda>x. f (xs ! n) < f x) xs = drop (Suc n) xs"
proof -
  from assms(1,2) have "sorted_wrt (<) (map f xs)" by (simp add: strict_sorted_iff)
  then have lt: "i < j \<Longrightarrow> j < length xs \<Longrightarrow> f (xs ! i) < f (xs ! j)" for i j
    using sorted_wrt_nth_less [of "(<)" "map f xs" i j] by simp
  have split: "xs = take (Suc n) xs @ drop (Suc n) xs" by simp
  have "\<not> f (xs ! n) < f x" if "x \<in> set (take (Suc n) xs)" for x
  proof -
    from that assms(3) obtain i where "i \<le> n" "x = xs ! i" by (auto simp: in_set_conv_nth less_Suc_eq_le)
    with lt [of i n] assms(3) show ?thesis by (cases "i = n") auto
  qed
  then have "filter (\<lambda>x. f (xs ! n) < f x) (take (Suc n) xs) = []" by (simp add: filter_empty_conv)
  moreover have "filter (\<lambda>x. f (xs ! n) < f x) (drop (Suc n) xs) = drop (Suc n) xs"
    using lt by (auto simp: filter_id_conv in_set_conv_nth)
  ultimately show ?thesis by (subst split) (simp only: filter_append append_Nil)
qed

lemma details_map:
  assumes inv: "collaboration_invariant db" and "set xs \<subseteq> set (confirmed db)"
  shows "concat (map (detail_fact db) xs) = map (\<lambda>kf. hd (detail_fact db kf)) xs"
  using assms(2)
proof (induction xs)
  case (Cons kf xs)
  obtain k f where e: "kf = (k, f)" by (cases kf)
  with Cons.prems collaboration_invariantD(5) [OF inv] have "map_of (confirmed db) k = Some f" by (simp add: facts_ok_def)
  from detail_single [OF inv this] obtain d where "detail_fact db kf = [(view_fact f, d)]" unfolding e by blast
  then show ?case using Cons by simp
qed simp

lemma history_view:
  assumes inv: "collaboration_invariant db" and i: "i < length (superseded_facts k snapshot db)"
  shows "i < length (fact_history k snapshot db)"
    "fst (fact_history k snapshot db ! i) = view_fact (snd (superseded_facts k snapshot db ! i))"
proof -
  let ?x = "superseded_facts k snapshot db ! i"
  have h: "fact_history k snapshot db = map (\<lambda>kf. hd (detail_fact db kf)) (superseded_facts k snapshot db)"
    using details_map [OF inv history_sorted(3) [OF inv]] by (simp add: fact_history_def)
  with i show "i < length (fact_history k snapshot db)" by simp
  obtain kf f where e: "?x = (kf, f)" by (cases ?x)
  from i have "?x \<in> set (confirmed db)" using history_sorted(3) [OF inv] nth_mem by blast
  with e collaboration_invariantD(5) [OF inv] have "map_of (confirmed db) kf = Some f" by (simp add: facts_ok_def)
  from detail_single [OF inv this] h i e show "fst (fact_history k snapshot db ! i) = view_fact (snd ?x)" by auto
qed

lemma after_cursor_order:
  "after_cursor (Some (cf_key (snd x), cf_version (snd x))) (snd y) \<longleftrightarrow> history_order x < history_order y"
  by (auto simp: after_cursor_def history_order_def)

lemma history_page_from:
  assumes inv: "collaboration_invariant db" and i: "i \<le> length (fact_history k snapshot db)"
    and cursor: "cursor = (if i = 0 then None else
        let v = fst (fact_history k snapshot db ! (i - 1)) in Some (fv_key v, fv_version v))"
  shows "history_page k snapshot cursor limit db = take (nat (limit + 1)) (drop i (fact_history k snapshot db))"
proof -
  let ?s = "superseded_facts k snapshot db"
  have h: "fact_history k snapshot db = map (\<lambda>kf. hd (detail_fact db kf)) ?s"
    using details_map [OF inv history_sorted(3) [OF inv]] by (simp add: fact_history_def)
  have "filter (\<lambda>(kf, f). after_cursor cursor f) ?s = drop i ?s"
  proof (cases i)
    case 0
    then show ?thesis by (simp add: cursor after_cursor_def)
  next
    case (Suc n)
    with i h have n: "n < length ?s" by simp
    have "cursor = Some (cf_key (snd (?s ! n)), cf_version (snd (?s ! n)))"
      by (simp add: cursor Suc history_view(2) [OF inv n] view_fact_def)
    then have "filter (\<lambda>(kf, f). after_cursor cursor f) ?s = filter (\<lambda>y. history_order (?s ! n) < history_order y) ?s"
      by (intro filter_cong refl) (simp only: case_prod_unfold after_cursor_order)
    also have "\<dots> = drop (Suc n) ?s" by (rule filter_beyond [OF history_sorted(1,2) [OF inv] n])
    finally show ?thesis by (simp add: Suc)
  qed
  moreover have "concat (map (detail_fact db) (drop i ?s)) = map (\<lambda>kf. hd (detail_fact db kf)) (drop i ?s)"
    by (rule details_map [OF inv subset_trans [OF set_drop_subset history_sorted(3) [OF inv]]])
  ultimately show ?thesis by (simp add: history_page_def h drop_map)
qed

end
