(* ===== verification/Collaboration_Values.thy ===== *)
theory Collaboration_Values
  imports Collaboration_Models
begin

text \<open>
  Fact values as JSON: what \<open>model_dump(mode="json")\<close> makes of a proposal and of the preferences of a revision, and
  how a stored value is validated again when it is read (\<open>_FactProjection.bind_fact_value\<close>).
\<close>

section \<open>Dumps\<close>

definition json_int :: "int \<Rightarrow> jsonb" where
  "json_int n = Jb_number (Dec n 0)"

definition json_minor :: "int option \<Rightarrow> jsonb" where
  "json_minor v = (case v of None \<Rightarrow> Jb_null | Some n \<Rightarrow> json_int n)"

fun risk_text :: "risk_tolerance \<Rightarrow> string" where
  "risk_text Low = ''low''"
| "risk_text Medium = ''medium''"
| "risk_text High = ''high''"

definition dump_countries :: "country list \<Rightarrow> jsonb" where
  "dump_countries cs = Jb_array (map (\<lambda>c. Jb_string (country_value c)) cs)"

definition dump_budget :: "budget_envelope \<Rightarrow> jsonb" where
  "dump_budget b = Jb_object
     [(''schema_version'', json_int (be_schema_version b)), (''currency'', Jb_string (be_currency b)),
      (''period'', Jb_string (be_period b)), (''preferred_minor'', json_minor (preferred_minor b)),
      (''hard_ceiling_minor'', json_minor (hard_ceiling_minor b)), (''elasticity_bps'', json_int (elasticity_bps b)),
      (''refused'', Jb_bool (refused b))]"

fun dump_value :: "fact_proposal \<Rightarrow> jsonb" where
  "dump_value (IntendedFieldProposal v) = Jb_string v"
| "dump_value (PreferredCountriesProposal v) = dump_countries v"
| "dump_value (IntakeProposal v) = Jb_string v"
| "dump_value (RiskToleranceProposal v) = Jb_string (risk_text v)"
| "dump_value (JapanRiskAcceptedProposal v) = Jb_bool v"
| "dump_value (BudgetProposal v) = dump_budget v"

definition dump_student :: "student_preferences \<Rightarrow> jsonb" where
  "dump_student s = Jb_object
     [(''schema_version'', json_int (sp_schema_version s)), (''intended_field'', Jb_string (intended_field s)),
      (''preferred_countries'', dump_countries (preferred_countries s)), (''intake'', Jb_string (intake s))]"

definition dump_family :: "family_preferences \<Rightarrow> jsonb" where
  "dump_family f = Jb_object
     [(''schema_version'', json_int (fp_schema_version f)), (''risk_tolerance'', Jb_string (risk_text (risk_tolerance f))),
      (''japan_risk_accepted'', Jb_bool (japan_risk_accepted f)), (''budget'', dump_budget (budget f))]"

section \<open>Reading a stored value\<close>

lemma fact_key_of_value [simp]: "fact_key_of (fact_key_value k) = Some k"
  by (cases k) (simp_all add: fact_key_of_def FACT_KEYS_def)

definition row_error :: "string \<Rightarrow> 'a result" where
  "row_error k = Inl (ValueError k)"

definition country_of_text :: "string \<Rightarrow> country option" where
  "country_of_text s = find (\<lambda>c. country_value c = s) [AUSTRALIA, JAPAN, MALAYSIA]"

fun parse_json_countries :: "jsonb list \<Rightarrow> country list result" where
  "parse_json_countries [] = Inr []"
| "parse_json_countries (Jb_string s # rest) =
     (case country_of_text s of None \<Rightarrow> row_error ''Country''
      | Some c \<Rightarrow> bind_result (parse_json_countries rest) (\<lambda>cs. Inr (c # cs)))"
| "parse_json_countries (_ # rest) = row_error ''preferred countries contain an unsupported value''"

definition risk_of_text :: "string \<Rightarrow> risk_tolerance option" where
  "risk_of_text s = find (\<lambda>r. risk_text r = s) [Low, Medium, High]"

text \<open>A field of type \<open>PositiveInt | None\<close>; its sign is checked with the envelope.\<close>

fun parse_minor :: "jsonb option \<Rightarrow> int option option" where
  "parse_minor (Some Jb_null) = Some None"
| "parse_minor j = map_option Some (jb_integer j)"

definition BUDGET_FIELDS :: "string list" where
  "BUDGET_FIELDS = [''schema_version'', ''currency'', ''period'', ''preferred_minor'', ''hard_ceiling_minor'',
     ''elasticity_bps'', ''refused'']"

text \<open>\<open>BudgetEnvelope.model_validate(value, strict=True)\<close>: no other field, and only \<open>refused\<close> has a default.\<close>

definition parse_refused :: "jsonb option \<Rightarrow> bool option" where
  "parse_refused j = (if j = None then Some False else jb_bool j)"

definition strict_budget :: "jsonb \<Rightarrow> budget_envelope result" where
  "strict_budget j =
     (if (case j of Jb_object items \<Rightarrow> False | _ \<Rightarrow> True) \<or> \<not> set (jb_keys j) \<subseteq> set BUDGET_FIELDS then row_error ''value''
      else case (jb_integer (jb_get j ''schema_version''), jb_string (jb_get j ''currency''), jb_string (jb_get j ''period''),
                 parse_minor (jb_get j ''preferred_minor''), parse_minor (jb_get j ''hard_ceiling_minor''),
                 jb_integer (jb_get j ''elasticity_bps''), parse_refused (jb_get j ''refused'')) of
          (Some v, Some c, Some p, Some pm, Some hm, Some e, Some r) \<Rightarrow>
            let b = \<lparr>be_schema_version = v, be_currency = c, be_period = p, preferred_minor = pm,
                     hard_ceiling_minor = hm, elasticity_bps = e, refused = r\<rparr> in
            if valid_budget_envelope b then Inr b else row_error ''value''
        | _ \<Rightarrow> row_error ''value'')"

definition parse_proposal :: "string \<Rightarrow> jsonb \<Rightarrow> fact_proposal result" where
  "parse_proposal k j =
     (case (fact_key_of k, j) of
        (Some STUDENT_INTENDED_FIELD, Jb_string s) \<Rightarrow> valid_proposal (IntendedFieldProposal s)
      | (Some STUDENT_PREFERRED_COUNTRIES, Jb_array items) \<Rightarrow>
          bind_result (parse_json_countries items) (\<lambda>cs. valid_proposal (PreferredCountriesProposal cs))
      | (Some STUDENT_INTAKE, Jb_string s) \<Rightarrow> valid_proposal (IntakeProposal s)
      | (Some FAMILY_RISK_TOLERANCE, Jb_string s) \<Rightarrow>
          (case risk_of_text s of None \<Rightarrow> row_error ''value'' | Some r \<Rightarrow> Inr (RiskToleranceProposal r))
      | (Some FAMILY_JAPAN_RISK_ACCEPTED, Jb_bool b) \<Rightarrow> Inr (JapanRiskAcceptedProposal b)
      | (Some FAMILY_BUDGET, _) \<Rightarrow> bind_result (strict_budget j) (\<lambda>b. Inr (BudgetProposal b))
      | _ \<Rightarrow> row_error ''value'')"

section \<open>States and decisions\<close>

fun candidate_state_value :: "candidate_state \<Rightarrow> string" where
  "candidate_state_value PENDING = ''pending''"
| "candidate_state_value STALE = ''stale''"
| "candidate_state_value EXPIRED = ''expired''"
| "candidate_state_value CONFIRMED = ''confirmed''"
| "candidate_state_value REJECTED = ''rejected''"

definition candidate_state_of :: "string \<Rightarrow> candidate_state option" where
  "candidate_state_of s = find (\<lambda>c. candidate_state_value c = s) [PENDING, STALE, EXPIRED, CONFIRMED, REJECTED]"

fun verification_decision_value :: "verification_decision \<Rightarrow> string" where
  "verification_decision_value CONFIRM = ''confirm''"
| "verification_decision_value REJECT_CANDIDATE = ''reject''"

definition verification_decision_of :: "string \<Rightarrow> verification_decision option" where
  "verification_decision_of s = find (\<lambda>d. verification_decision_value d = s) [CONFIRM, REJECT_CANDIDATE]"

end
