(* ===== verification/Collaboration_Cursor.thy ===== *)
theory Collaboration_Cursor
  imports Collaboration_Values Stream_Properties
begin

text \<open>
  \<open>ConfirmedFactHistoryCursorV1\<close> of \<open>collaboration/models.py\<close>: the cursor of a page of facts as text, with the URL-safe
  base64 of the standard library.  A byte is a character.  The JSON parser of the validation library is an argument.
\<close>

section \<open>Base64\<close>

definition B64_ALPHABET :: string where
  "B64_ALPHABET = ''ABCDEFGHIJKLMNOPQRSTUVWXYZabcdefghijklmnopqrstuvwxyz0123456789-_''"

definition b64_char :: "nat \<Rightarrow> char" where
  "b64_char d = B64_ALPHABET ! d"

fun position :: "'a \<Rightarrow> 'a list \<Rightarrow> nat option" where
  "position x [] = None"
| "position x (y # ys) = (if x = y then Some 0 else map_option Suc (position x ys))"

definition b64_value :: "char \<Rightarrow> nat option" where
  "b64_value c = position c B64_ALPHABET"

definition byte :: "char \<Rightarrow> nat" where
  "byte c = of_char c"

definition b64_chars :: "nat \<Rightarrow> nat \<Rightarrow> nat \<Rightarrow> char list" where
  "b64_chars a b c =
     map b64_char [a div 4, a mod 4 * 16 + b div 16, b mod 16 * 4 + c div 64, c mod 64]"

fun urlsafe_b64encode :: "string \<Rightarrow> string" where
  "urlsafe_b64encode [] = []"
| "urlsafe_b64encode [a] = take 2 (b64_chars (byte a) 0 0) @ ''==''"
| "urlsafe_b64encode [a, b] = take 3 (b64_chars (byte a) (byte b) 0) @ ''=''"
| "urlsafe_b64encode (a # b # c # rest) = b64_chars (byte a) (byte b) (byte c) @ urlsafe_b64encode rest"

definition b64_bytes :: "char \<Rightarrow> char \<Rightarrow> char \<Rightarrow> char \<Rightarrow> string option" where
  "b64_bytes w x y z =
     (case (b64_value w, b64_value x, b64_value y, b64_value z) of
        (Some p, Some q, Some r, Some s) \<Rightarrow>
          Some (map char_of [p * 4 + q div 16, q mod 16 * 16 + r div 4, r mod 4 * 64 + s])
      | _ \<Rightarrow> None)"

text \<open>Applied to characters of the alphabet with padding at the end; the bits that a padding cuts off are ignored.\<close>

fun urlsafe_b64decode :: "string \<Rightarrow> string option" where
  "urlsafe_b64decode [] = Some []"
| "urlsafe_b64decode (w # x # y # z # rest) =
     (if rest = [] \<and> y = CHR ''='' \<and> z = CHR ''='' then map_option (take 1) (b64_bytes w x CHR ''A'' CHR ''A'')
      else if rest = [] \<and> z = CHR ''='' then map_option (take 2) (b64_bytes w x y CHR ''A'')
      else case (b64_bytes w x y z, urlsafe_b64decode rest) of
          (Some ds, Some es) \<Rightarrow> Some (ds @ es) | _ \<Rightarrow> None)"
| "urlsafe_b64decode _ = None"

definition rstrip_padding :: "string \<Rightarrow> string" where
  "rstrip_padding s = rev (dropWhile (\<lambda>c. c = CHR ''='') (rev s))"

section \<open>Cursors\<close>

record history_cursor =
  hc_snapshot :: int
  hc_key :: fact_key
  hc_version :: int

definition cursor_text :: "history_cursor \<Rightarrow> string" where
  "cursor_text c = json_object
     [(''fact_key'', json_string (fact_key_value (hc_key c))), (''fact_version'', int_text (hc_version c)),
      (''schema_version'', int_text 1), (''snapshot_revision'', int_text (hc_snapshot c))]"

definition encode_cursor :: "history_cursor \<Rightarrow> string" where
  "encode_cursor c = rstrip_padding (urlsafe_b64encode (cursor_text c))"

definition CURSOR_FIELDS :: "string list" where
  "CURSOR_FIELDS = [''schema_version'', ''snapshot_revision'', ''fact_key'', ''fact_version'']"

definition validate_cursor :: "jsonb \<Rightarrow> history_cursor option" where
  "validate_cursor j =
     (if \<not> set (jb_keys j) \<subseteq> set CURSOR_FIELDS then None
      else case (jb_integer (jb_get j ''schema_version''), jb_integer (jb_get j ''snapshot_revision''),
                 Option.bind (jb_string (jb_get j ''fact_key'')) fact_key_of, jb_integer (jb_get j ''fact_version'')) of
          (Some v, Some n, Some fk, Some m) \<Rightarrow>
            if v = 1 \<and> 0 < n \<and> 0 < m then Some \<lparr>hc_snapshot = n, hc_key = fk, hc_version = m\<rparr> else None
        | _ \<Rightarrow> None)"

definition decode_cursor :: "(string \<Rightarrow> jsonb option) \<Rightarrow> string \<Rightarrow> history_cursor result" where
  "decode_cursor json s =
     (let refusal = Inl (ValueError ''invalid confirmed fact cursor'') in
      if \<not> (1 \<le> length s \<and> length s \<le> 512) \<or> \<not> list_all (\<lambda>c. c \<in> set B64_ALPHABET) s then refusal
      else case Option.bind (urlsafe_b64decode (s @ replicate (nat (- int (length s) mod 4)) CHR ''='')) json of
          None \<Rightarrow> refusal
        | Some j \<Rightarrow> (case validate_cursor j of None \<Rightarrow> refusal | Some c \<Rightarrow> Inr c))"

section \<open>A cursor is read back\<close>

lemma b64_value_char: "d < 64 \<Longrightarrow> b64_value (b64_char d) = Some d"
proof -
  have "list_all (\<lambda>d. b64_value (b64_char d) = Some d) [0..<64]" by code_simp
  then show "d < 64 \<Longrightarrow> ?thesis" by (simp add: list_all_iff)
qed

lemma alphabet_length: "length B64_ALPHABET = 64"
  by code_simp

lemma b64_char_alphabet: "d < 64 \<Longrightarrow> b64_char d \<in> set B64_ALPHABET"
  unfolding b64_char_def by (rule nth_mem) (simp only: alphabet_length)

lemma no_padding: "CHR ''='' \<notin> set B64_ALPHABET"
  by code_simp

lemma byte_less: "byte c < 256"
proof -
  have "byte c = byte c mod 256" by (simp add: byte_def)
  then show ?thesis by simp
qed

lemma char_of_byte: "char_of (byte c) = c"
  by (simp add: byte_def)

lemma digits_less:
  assumes "a < 256" "b < 256" "c < (256 :: nat)"
  shows "a div 4 < 64" "a mod 4 * 16 + b div 16 < 64" "b mod 16 * 4 + c div 64 < 64" "c mod 64 < 64"
proof -
  have "a mod 4 < 4" "b div 16 < 16" "b mod 16 < 16" "c div 64 < 4" "a div 4 < 64"
    using assms by (simp_all add: div_less_iff_less_mult)
  then show "a div 4 < 64" "a mod 4 * 16 + b div 16 < 64" "b mod 16 * 4 + c div 64 < 64" "c mod 64 < 64" by simp_all
qed

lemma bytes_back:
  assumes "a < 256" "b < 256" "c < (256 :: nat)"
  shows "a div 4 * 4 + (a mod 4 * 16 + b div 16) div 16 = a"
    "(a mod 4 * 16 + b div 16) mod 16 * 16 + (b mod 16 * 4 + c div 64) div 4 = b"
    "(b mod 16 * 4 + c div 64) mod 4 * 64 + c mod 64 = c"
proof -
  have "b div 16 < 16" "c div 64 < 4" using assms by (simp_all add: div_less_iff_less_mult)
  then show "a div 4 * 4 + (a mod 4 * 16 + b div 16) div 16 = a"
    "(a mod 4 * 16 + b div 16) mod 16 * 16 + (b mod 16 * 4 + c div 64) div 4 = b"
    "(b mod 16 * 4 + c div 64) mod 4 * 64 + c mod 64 = c" by simp_all
qed

lemma b64_bytes_chars:
  assumes "b64_chars (byte a) (byte b) (byte c) = [w, x, y, z]"
  shows "b64_bytes w x y z = Some [a, b, c]"
proof -
  note l = byte_less [of a] byte_less [of b] byte_less [of c]
  from assms have e: "w = b64_char (byte a div 4)" "x = b64_char (byte a mod 4 * 16 + byte b div 16)"
    "y = b64_char (byte b mod 16 * 4 + byte c div 64)" "z = b64_char (byte c mod 64)"
    by (simp_all add: b64_chars_def)
  show ?thesis unfolding e b64_bytes_def
    by (simp only: digits_less [OF l, THEN b64_value_char] bytes_back [OF l] option.case prod.case list.map char_of_byte)
qed

lemma b64_chars_cases:
  obtains w x y z where "b64_chars (byte a) (byte b) (byte c) = [w, x, y, z]"
    "w \<in> set B64_ALPHABET" "x \<in> set B64_ALPHABET" "y \<in> set B64_ALPHABET" "z \<in> set B64_ALPHABET"
  using digits_less [OF byte_less [of a] byte_less [of b] byte_less [of c], THEN b64_char_alphabet]
  by (simp add: b64_chars_def)

definition NUL :: char where
  "NUL = char_of (0 :: nat)"

lemma byte_NUL [simp]: "byte NUL = 0"
  by code_simp

lemma b64_char_0: "b64_char 0 = CHR ''A''"
  by code_simp

lemma b64_chars_NUL:
  "b64_chars (byte a) 0 0 = [w, x, y, z] \<Longrightarrow> y = CHR ''A'' \<and> z = CHR ''A''"
  "b64_chars (byte a) (byte b) 0 = [w, x, y, z] \<Longrightarrow> z = CHR ''A''"
  by (auto simp: b64_chars_def b64_char_0)

lemma four: "Suc (Suc (Suc (Suc 0))) = 4" "4 dvd Suc (Suc (Suc (Suc n))) \<longleftrightarrow> 4 dvd n"
  by presburger+

lemma b64_shape:
  "\<exists>body p. urlsafe_b64encode s = body @ replicate p CHR ''='' \<and> list_all (\<lambda>c. c \<in> set B64_ALPHABET) body
     \<and> p < 4 \<and> 4 dvd length body + p \<and> length body \<le> 2 * length s \<and> (s \<noteq> [] \<longrightarrow> body \<noteq> [])"
proof (induction s rule: urlsafe_b64encode.induct)
  case (2 a)
  obtain w x y z where e: "b64_chars (byte a) (byte NUL) (byte NUL) = [w, x, y, z]"
    "w \<in> set B64_ALPHABET" "x \<in> set B64_ALPHABET" by (rule b64_chars_cases)
  then show ?case
    by (intro exI [of _ "[w, x]"] exI [of _ 2]) (simp_all add: numeral_2_eq_2 four)
next
  case (3 a b)
  obtain w x y z where e: "b64_chars (byte a) (byte b) (byte NUL) = [w, x, y, z]"
    "w \<in> set B64_ALPHABET" "x \<in> set B64_ALPHABET" "y \<in> set B64_ALPHABET" by (rule b64_chars_cases)
  then show ?case
    by (intro exI [of _ "[w, x, y]"] exI [of _ 1]) (simp add: four)
next
  case (4 a b c rest)
  then obtain body p where b: "urlsafe_b64encode rest = body @ replicate p CHR ''=''"
    "list_all (\<lambda>c. c \<in> set B64_ALPHABET) body" "p < 4" "4 dvd length body + p" "length body \<le> 2 * length rest" by blast
  obtain w x y z where e: "b64_chars (byte a) (byte b) (byte c) = [w, x, y, z]"
    "w \<in> set B64_ALPHABET" "x \<in> set B64_ALPHABET" "y \<in> set B64_ALPHABET" "z \<in> set B64_ALPHABET" by (rule b64_chars_cases)
  from b e show ?case
    by (intro exI [of _ "w # x # y # z # body"] exI [of _ p]) (simp add: four)
qed (intro exI [of _ "[]"] exI [of _ 0], simp)

lemma b64_roundtrip: "urlsafe_b64decode (urlsafe_b64encode s) = Some s"
proof (induction s rule: urlsafe_b64encode.induct)
  case (2 a)
  obtain w x y z where e: "b64_chars (byte a) (byte NUL) (byte NUL) = [w, x, y, z]" by (rule b64_chars_cases)
  from b64_bytes_chars [OF e] b64_chars_NUL(1) [OF e [simplified]] e show ?case by simp
next
  case (3 a b)
  obtain w x y z where e: "b64_chars (byte a) (byte b) (byte NUL) = [w, x, y, z]" "y \<in> set B64_ALPHABET"
    by (rule b64_chars_cases)
  from e(2) no_padding have "y \<noteq> CHR ''=''" by metis
  with b64_bytes_chars [OF e(1)] b64_chars_NUL(2) [OF e(1) [simplified]] e(1) show ?case by simp
next
  case (4 a b c rest)
  obtain w x y z where e: "b64_chars (byte a) (byte b) (byte c) = [w, x, y, z]"
    "y \<in> set B64_ALPHABET" "z \<in> set B64_ALPHABET" by (rule b64_chars_cases)
  from e(2,3) no_padding have "y \<noteq> CHR ''=''" "z \<noteq> CHR ''=''" by metis+
  with b64_bytes_chars [OF e(1)] e 4 show ?case by simp
qed simp

definition cursor_json :: "history_cursor \<Rightarrow> jsonb" where
  "cursor_json c = Jb_object
     [(''fact_key'', Jb_string (fact_key_value (hc_key c))), (''fact_version'', Jb_number (Dec (hc_version c) 0)),
      (''schema_version'', Jb_number (Dec 1 0)), (''snapshot_revision'', Jb_number (Dec (hc_snapshot c) 0))]"

lemma validate_cursor_json:
  "0 < hc_snapshot c \<Longrightarrow> 0 < hc_version c \<Longrightarrow> validate_cursor (cursor_json c) = Some c"
  by (simp add: validate_cursor_def cursor_json_def CURSOR_FIELDS_def)

lemma key_text_length: "length (json_string (fact_key_value k)) \<le> 29"
proof -
  have "list_all (\<lambda>k. length (json_string (fact_key_value k)) \<le> 29) FACT_KEYS" by code_simp
  moreover have "k \<in> set FACT_KEYS" by (cases k) (simp_all add: FACT_KEYS_def)
  ultimately show ?thesis unfolding list_all_iff by blast
qed

lemma int_text_length: "0 < n \<Longrightarrow> n < 2 ^ 31 \<Longrightarrow> length (int_text n) \<le> 10"
  by (simp add: int_text_def) (rule nat_digits_length, simp_all)

lemma cursor_text_length:
  assumes "0 < hc_snapshot c" "hc_snapshot c < 2 ^ 31" "0 < hc_version c" "hc_version c < 2 ^ 31"
  shows "length (cursor_text c) \<le> 256" "cursor_text c \<noteq> []"
proof -
  have "length (json_string ''fact_key'') = 10" "length (json_string ''fact_version'') = 14"
    "length (json_string ''schema_version'') = 16" "length (json_string ''snapshot_revision'') = 19" by code_simp+
  then show "length (cursor_text c) \<le> 256"
    using int_text_length [OF assms(1,2)] int_text_length [OF assms(3,4)] int_text_length [of 1] key_text_length [of "hc_key c"]
    by (simp add: cursor_text_def json_object_def)
  show "cursor_text c \<noteq> []" by (simp add: cursor_text_def json_object_def)
qed

text \<open>A cursor whose numbers are 32-bit columns is read back from its text, if the parser reads the text as JSON.\<close>

theorem cursor_roundtrip:
  assumes "0 < hc_snapshot c" "hc_snapshot c < 2 ^ 31" "0 < hc_version c" "hc_version c < 2 ^ 31"
    and "json (cursor_text c) = Some (cursor_json c)"
  shows "decode_cursor json (encode_cursor c) = Inr c"
proof -
  obtain body p where b: "urlsafe_b64encode (cursor_text c) = body @ replicate p CHR ''=''"
    "list_all (\<lambda>c. c \<in> set B64_ALPHABET) body" "p < 4" "4 dvd length body + p"
    "length body \<le> 2 * length (cursor_text c)" "cursor_text c \<noteq> [] \<longrightarrow> body \<noteq> []"
    using b64_shape [of "cursor_text c"] by blast
  from b(6) cursor_text_length(2) [OF assms(1-4)] have ne: "body \<noteq> []" by blast
  with b(2) no_padding have "last body \<noteq> CHR ''=''" by (metis last_in_set list_all_iff)
  then have strip: "encode_cursor c = body"
    using ne by (cases body rule: rev_cases) (simp_all add: encode_cursor_def rstrip_padding_def b(1) dropWhile_append3 rev_replicate)
  from b(4) obtain q where q: "length body + p = 4 * q" by (elim dvdE)
  then have "- int (length body) = int p + (- int q) * 4" by linarith
  then have "- int (length body) mod 4 = int p" using b(3) mod_mult_self1 [of "int p" "- int q" 4] by simp
  then have "nat (- int (length body) mod 4) = p" by simp
  then have "urlsafe_b64decode (body @ replicate (nat (- int (length body) mod 4)) CHR ''='') = Some (cursor_text c)"
    using b(1) b64_roundtrip [of "cursor_text c"] by simp
  then show ?thesis
    using b(2,5) ne cursor_text_length(1) [OF assms(1-4)] assms(5) validate_cursor_json [OF assms(1,3)]
    by (simp add: decode_cursor_def strip Let_def Suc_le_eq)
qed

end
