(* ===== verification/Collaboration_Repository.thy ===== *)
theory Collaboration_Repository
  imports Collaboration_Read Collaboration_Cursor
begin

text \<open>
  \<open>collaboration/errors.py\<close>, \<open>ports.py\<close>, \<open>postgres.py\<close> and \<open>application.py\<close>: the errors of a call, the validation of the
  rows that come back, the pages, and the service.  A call whose rows are refused raises, and its transaction is
  rolled back.  The digests are arguments, as are the identifiers that the service draws.  The next cursor of a page is
  kept as a record: its text is \<open>encode_cursor\<close>.  The row of a verification has more columns than the call returns.
\<close>

section \<open>Errors\<close>

datatype collaboration_error =
    IntakeEvidenceUnavailableError string
  | CollaborationAuthorizationError "string option"
  | InvalidCollaborationMessageError string
  | UnsafeFactValueError string
  | CaseRevisionStaleError string
  | MemoryCandidateStaleError string
  | MemoryCandidateExpiredError string
  | MemoryCandidateTerminalError string
  | ActiveTaskBlocksRevisionError string
  | CollaborationConflictError string
  | CollaborationPersistenceError string
  | CollaborationThreadFullError string

definition persistence_error :: collaboration_error where
  "persistence_error = CollaborationPersistenceError ''persistence_unavailable''"

text \<open>What a call expects: which error a stale revision is, and whether \<open>NV012\<close> and \<open>NV006\<close> have a meaning of their own.\<close>

datatype stale_error = Stale_case | Stale_candidate

record expectations =
  on_stale :: "stale_error option"
  on_terminal :: bool
  on_message :: bool
  on_full :: bool

definition expecting_nothing :: expectations where
  "expecting_nothing = \<lparr>on_stale = None, on_terminal = False, on_message = False, on_full = False\<rparr>"

definition raise_mapped :: "expectations \<Rightarrow> sql_error \<Rightarrow> collaboration_error" where
  "raise_mapped x e =
     (if e = NV003 \<and> on_stale x = Some Stale_case then CaseRevisionStaleError ''case_revision_stale''
      else if e = NV003 \<and> on_stale x = Some Stale_candidate then MemoryCandidateStaleError ''memory_candidate_stale''
      else if e = NV012 then
        (if on_terminal x then MemoryCandidateTerminalError ''memory_candidate_terminal''
         else if on_full x then CollaborationThreadFullError ''collaboration_thread_full''
         else persistence_error)
      else if e = NV006 \<and> on_message x then InvalidCollaborationMessageError ''invalid_collaboration_message''
      else case e of
          NV006 \<Rightarrow> UnsafeFactValueError ''unsafe_fact_value''
        | NV007 \<Rightarrow> CollaborationAuthorizationError (Some ''resource_unavailable'')
        | NV008 \<Rightarrow> CollaborationConflictError ''idempotency_conflict''
        | NV013 \<Rightarrow> MemoryCandidateExpiredError ''memory_candidate_expired''
        | NV014 \<Rightarrow> ActiveTaskBlocksRevisionError ''active_task_blocks_revision''
        | NV027 \<Rightarrow> IntakeEvidenceUnavailableError ''intake_evidence_unavailable''
        | _ \<Rightarrow> persistence_error)"

definition executed :: "expectations \<Rightarrow> sql_error + 'a \<Rightarrow> collaboration_error + 'a" where
  "executed x r = (case r of Inl e \<Rightarrow> Inl (raise_mapped x e) | Inr v \<Rightarrow> Inr v)"

definition persisted :: "'a result \<Rightarrow> collaboration_error + 'a" where
  "persisted r = (case r of Inl e \<Rightarrow> Inl persistence_error | Inr v \<Rightarrow> Inr v)"

section \<open>Validating rows\<close>

definition ACTOR_ROLES :: "string set" where
  "ACTOR_ROLES = {''advisor'', ''student'', ''parent''}"

definition checked :: "('a \<Rightarrow> bool) \<Rightarrow> 'a \<Rightarrow> 'a result" where
  "checked ok v = (if ok v then Inr v else row_error ''row'')"

definition valid_message_event :: "message_event \<Rightarrow> bool" where
  "valid_message_event m \<longleftrightarrow> 0 < mv_sequence m \<and> mv_role m \<in> ACTOR_ROLES \<and> is_sha256 (mv_content_sha256 m)"

record message_page =
  mp_items :: "message_event list"
  mp_next_after_sequence :: "int option"

definition page_of_messages :: "int \<Rightarrow> message_event list \<Rightarrow> message_page result" where
  "page_of_messages limit rows =
     (if limit < int (length rows) then Inl (ValueError ''database returned more messages than requested'')
      else bind_result (traverse (checked valid_message_event) rows) (\<lambda>items.
        Inr \<lparr>mp_items = items,
             mp_next_after_sequence =
               (if int (length items) = limit \<and> items \<noteq> [] then Some (mv_sequence (last items)) else None)\<rparr>))"

text \<open>A candidate and a fact as a participant sees them, and with what the advisor sees besides.\<close>

record candidate_participant =
  cn_proposal :: fact_proposal
  cn_state :: candidate_state
  cn_created_at :: timestamp
  cn_expires_at :: timestamp

definition parse_candidate :: "candidate_view \<Rightarrow> candidate_participant result" where
  "parse_candidate v =
     (case candidate_state_of (cv_state v) of None \<Rightarrow> row_error ''state''
      | Some st \<Rightarrow>
          bind_result (parse_proposal (cv_key v) (cv_value v)) (\<lambda>p.
            Inr \<lparr>cn_proposal = p, cn_state = st, cn_created_at = cv_created_at v, cn_expires_at = cv_expires_at v\<rparr>))"

definition valid_candidate_detail :: "candidate_detail \<Rightarrow> bool" where
  "valid_candidate_detail d \<longleftrightarrow>
     0 < cd_sequence d \<and> cd_role d \<in> ACTOR_ROLES \<and> 0 < cd_revision d
     \<and> (case cd_decision d of None \<Rightarrow> True | Some s \<Rightarrow> verification_decision_of s \<noteq> None)
     \<and> is_sha256 (cd_request_sha256 d) \<and> is_sha256 (cd_value_sha256 d)"

definition parse_candidate_row ::
  "bool \<Rightarrow> candidate_view \<times> candidate_detail option \<Rightarrow> (candidate_participant \<times> candidate_detail option) result" where
  "parse_candidate_row advisor row =
     (if advisor then
        (case snd row of None \<Rightarrow> row_error ''row''
         | Some d \<Rightarrow> bind_result (parse_candidate (fst row)) (\<lambda>p. bind_result (checked valid_candidate_detail d) (\<lambda>d. Inr (p, Some d))))
      else if snd row \<noteq> None then row_error ''row''
      else bind_result (parse_candidate (fst row)) (\<lambda>p. Inr (p, None)))"

record fact_participant =
  fp_proposal :: fact_proposal
  fp_version :: int
  fp_confirmed_at :: timestamp
  fp_role :: string

definition parse_fact :: "fact_view \<Rightarrow> fact_participant result" where
  "parse_fact v =
     bind_result (parse_proposal (fv_key v) (fv_value v)) (\<lambda>p.
       if 0 < fv_version v \<and> fv_role v \<in> ACTOR_ROLES then
         Inr \<lparr>fp_proposal = p, fp_version = fv_version v, fp_confirmed_at = fv_confirmed_at v, fp_role = fv_role v\<rparr>
       else row_error ''row'')"

definition valid_fact_detail :: "fact_detail \<Rightarrow> bool" where
  "valid_fact_detail d \<longleftrightarrow>
     0 < ft_sequence d \<and> length (ft_sha256_prefix d) = 12 \<and> list_all (\<lambda>c. c \<in> set hex_digits) (ft_sha256_prefix d)"

definition parse_fact_row :: "fact_view \<times> fact_detail \<Rightarrow> (fact_participant \<times> fact_detail) result" where
  "parse_fact_row row =
     bind_result (parse_fact (fst row)) (\<lambda>p. bind_result (checked valid_fact_detail (snd row)) (\<lambda>d. Inr (p, d)))"

record advisor_facts =
  af_current :: "(fact_participant \<times> fact_detail) list"
  af_history :: "(fact_participant \<times> fact_detail) list"
  af_next_cursor :: "history_cursor option"

text \<open>The rows of an advisor: those in force carry their details too.\<close>

definition with_detail :: "fact_view \<times> fact_detail option \<Rightarrow> (fact_view \<times> fact_detail) result" where
  "with_detail row = (case snd row of None \<Rightarrow> row_error ''row'' | Some d \<Rightarrow> Inr (fst row, d))"

definition page_of_facts :: "int \<Rightarrow> facts_page \<Rightarrow> advisor_facts result" where
  "page_of_facts limit page =
     (if 6 < length (fg_current page) then Inl (ValueError ''unexpected advisor confirmed fact page section'')
      else let has_more = limit < int (length (fg_history page)); returned = take (nat limit) (fg_history page) in
        bind_result (traverse parse_fact_row returned) (\<lambda>history.
          if has_more \<and> history = [] then Inl (ValueError ''invalid confirmed fact history continuation'')
          else if has_more \<and> fg_snapshot page \<le> 0 then Inl (ValueError ''invalid confirmed fact history snapshot'')
          else bind_result (traverse (\<lambda>row. bind_result (with_detail row) parse_fact_row) (fg_current page)) (\<lambda>current.
            let f = fst (last history) in
            Inr \<lparr>af_current = current, af_history = history,
                 af_next_cursor =
                   (if has_more then Some \<lparr>hc_snapshot = fg_snapshot page, hc_key = proposal_key (fp_proposal f), hc_version = fp_version f\<rparr>
                    else None)\<rparr>)))"

definition page_of_participant :: "facts_page \<Rightarrow> fact_participant list result" where
  "page_of_participant page =
     (if fg_history page \<noteq> [] then Inl (ValueError ''participant confirmed fact page exposed history'')
      else traverse (\<lambda>row. if snd row \<noteq> None then row_error ''row'' else parse_fact (fst row)) (fg_current page))"

definition parse_verification :: "uuid \<times> verification_row \<times> bool \<Rightarrow> (uuid \<times> verification_row \<times> bool) result" where
  "parse_verification row =
     (let (i, v, replayed) = row in
      case verification_decision_of (ve_decision v) of None \<Rightarrow> row_error ''decision''
      | Some d \<Rightarrow>
        if (case ve_revision v of None \<Rightarrow> False | Some n \<Rightarrow> n \<le> 0) then row_error ''result_revision''
        else if (ve_fact v \<noteq> None) \<noteq> (ve_revision v \<noteq> None) then Inl (ValueError ''verification result identities must be paired'')
        else if (d = CONFIRM) \<noteq> (ve_fact v \<noteq> None) then Inl (ValueError ''verification result does not match decision'')
        else Inr row)"

section \<open>The repository\<close>

record actor_context =
  ac_org :: uuid
  ac_actor :: uuid
  ac_role :: string

definition repository_create_thread ::
  "participants \<Rightarrow> session \<Rightarrow> thread_request \<Rightarrow> timestamp \<Rightarrow> collaboration_db
     \<Rightarrow> collaboration_error + collaboration_db \<times> uuid \<times> thread_row" where
  "repository_create_thread part ses r now db =
     bind_result (executed expecting_nothing (create_collaboration_thread part ses r now db)) (\<lambda>(db', row, _). Inr (db', row))"

definition repository_get_thread ::
  "participants \<Rightarrow> session \<Rightarrow> actor_context \<Rightarrow> uuid \<Rightarrow> collaboration_db \<Rightarrow> collaboration_error + (uuid \<times> thread_row) option" where
  "repository_get_thread part ses x c db =
     bind_result (executed expecting_nothing (read_collaboration_thread part ses (ac_org x) (ac_actor x) (ac_role x) c db)) (\<lambda>rows.
       case rows of [] \<Rightarrow> Inr None | [row] \<Rightarrow> Inr (Some row) | _ \<Rightarrow> Inl persistence_error)"

definition repository_list_messages ::
  "participants \<Rightarrow> session \<Rightarrow> actor_context \<Rightarrow> uuid \<Rightarrow> int \<Rightarrow> int \<Rightarrow> collaboration_db \<Rightarrow> collaboration_error + message_page" where
  "repository_list_messages part ses x thread after limit db =
     bind_result (executed expecting_nothing
         (read_collaboration_messages part ses (ac_org x) (ac_actor x) (ac_role x) thread after limit db)) (\<lambda>rows.
       persisted (page_of_messages limit rows))"

definition repository_append_message ::
  "participants \<Rightarrow> session \<Rightarrow> message_request \<Rightarrow> timestamp \<Rightarrow> collaboration_db
     \<Rightarrow> collaboration_error + collaboration_db \<times> message_event" where
  "repository_append_message part ses r now db =
     bind_result (executed (expecting_nothing\<lparr>on_message := True, on_full := True\<rparr>)
         (append_collaboration_message part ses r now db)) (\<lambda>(db', (i, m), _).
       bind_result (persisted (checked valid_message_event (view_message i m))) (\<lambda>e. Inr (db', e)))"

definition repository_propose_candidate ::
  "participants \<Rightarrow> session \<Rightarrow> propose_request \<Rightarrow> timestamp \<Rightarrow> collaboration_db
     \<Rightarrow> collaboration_error + collaboration_db \<times> candidate_participant" where
  "repository_propose_candidate part ses r now db =
     bind_result (executed (expecting_nothing\<lparr>on_stale := Some Stale_case\<rparr>)
         (propose_memory_candidate part ses r now db)) (\<lambda>(db', v, _).
       bind_result (persisted (parse_candidate v)) (\<lambda>p. Inr (db', p)))"

definition repository_list_candidates ::
  "participants \<Rightarrow> session \<Rightarrow> actor_context \<Rightarrow> uuid \<Rightarrow> int \<Rightarrow> timestamp \<Rightarrow> collaboration_db
     \<Rightarrow> collaboration_error + (candidate_participant \<times> candidate_detail option) list" where
  "repository_list_candidates part ses x c limit now db =
     bind_result (executed expecting_nothing
         (read_memory_candidates part ses (ac_org x) (ac_actor x) (ac_role x) c limit now db)) (\<lambda>rows.
       persisted (traverse (parse_candidate_row (ac_role x = ''advisor'')) rows))"

definition repository_verify_candidate ::
  "intake_sources \<Rightarrow> participants \<Rightarrow> session \<Rightarrow> verify_candidate_request \<Rightarrow> timestamp \<Rightarrow> collaboration_db
     \<Rightarrow> collaboration_error + collaboration_db \<times> uuid \<times> verification_row \<times> bool" where
  "repository_verify_candidate sources part ses r now db =
     bind_result (executed (expecting_nothing\<lparr>on_stale := Some Stale_candidate, on_terminal := True\<rparr>)
         (verify_memory_candidate sources part ses r now db)) (\<lambda>(db', row).
       bind_result (persisted (parse_verification row)) (\<lambda>v. Inr (db', v)))"

definition read_facts ::
  "participants \<Rightarrow> session \<Rightarrow> actor_context \<Rightarrow> uuid \<Rightarrow> int \<Rightarrow> history_cursor option \<Rightarrow> collaboration_db
     \<Rightarrow> collaboration_error + facts_page" where
  "read_facts part ses x c limit cursor db =
     executed expecting_nothing (read_confirmed_facts part ses (ac_org x) (ac_actor x) (ac_role x) c
       (map_option (\<lambda>h. (hc_snapshot h, fact_key_value (hc_key h), hc_version h)) cursor) limit db)"

text \<open>The page of an advisor, or of a participant.\<close>

definition repository_list_facts ::
  "participants \<Rightarrow> session \<Rightarrow> actor_context \<Rightarrow> uuid \<Rightarrow> int \<Rightarrow> history_cursor option \<Rightarrow> collaboration_db
     \<Rightarrow> collaboration_error + (advisor_facts + fact_participant list)" where
  "repository_list_facts part ses x c limit cursor db =
     bind_result (read_facts part ses x c limit cursor db) (\<lambda>page.
       if ac_role x \<noteq> ''advisor'' then bind_result (persisted (page_of_participant page)) (\<lambda>p. Inr (Inr p))
       else bind_result (persisted (page_of_facts limit page)) (\<lambda>p. Inr (Inl p)))"

section \<open>Commands\<close>

record append_command =
  ap_thread :: uuid
  ap_body :: string

record propose_command =
  pc_message :: uuid
  pc_revision :: int
  pc_proposal :: fact_proposal

record verify_command =
  vc_candidate :: uuid
  vc_revision :: int
  vc_decision :: verification_decision
  vc_reason :: string

definition mk_append_command :: "append_command \<Rightarrow> append_command result" where
  "mk_append_command c = bind_result (validate_safe_text (ap_body c) 4096 ''message body'' False) (\<lambda>_. Inr c)"

definition mk_propose_command :: "propose_command \<Rightarrow> propose_command result" where
  "mk_propose_command c =
     (if pc_revision c \<le> 0 then row_error ''case_revision'' else bind_result (valid_proposal (pc_proposal c)) (\<lambda>_. Inr c))"

definition mk_verify_command :: "verify_command \<Rightarrow> verify_command result" where
  "mk_verify_command c =
     (if vc_revision c \<le> 0 then row_error ''expected_case_revision''
      else bind_result (validate_safe_text (vc_reason c) 512 ''verification reason'' True) (\<lambda>_. Inr c))"

section \<open>The service\<close>

record collaboration_digests =
  digest_case :: "uuid \<Rightarrow> sha"
  digest_body :: "string \<Rightarrow> sha"
  digest_append :: "append_command \<Rightarrow> sha"
  digest_value :: "jsonb \<Rightarrow> sha"
  digest_propose :: "propose_command \<Rightarrow> sha"
  digest_verify :: "verify_command \<Rightarrow> sha"
  digest_idempotency :: "string \<Rightarrow> sha"

definition only_advisor :: "actor_context \<Rightarrow> collaboration_error + unit" where
  "only_advisor x = ensure (ac_role x = ''advisor'') (CollaborationAuthorizationError None)"

definition service_create_thread ::
  "participants \<Rightarrow> collaboration_digests \<Rightarrow> session \<Rightarrow> actor_context \<Rightarrow> uuid \<Rightarrow> uuid \<Rightarrow> string \<Rightarrow> timestamp \<Rightarrow> collaboration_db
     \<Rightarrow> collaboration_error + collaboration_db \<times> uuid \<times> thread_row" where
  "service_create_thread part hashes ses x c fresh k now db =
     bind_result (only_advisor x) (\<lambda>_.
       repository_create_thread part ses
         \<lparr>tr_org = ac_org x, tr_actor = ac_actor x, tr_role = ac_role x, tr_case = c, tr_thread = fresh,
          tr_request_hash = digest_case hashes c, tr_key_hash = digest_idempotency hashes k\<rparr> now db)"

definition service_append_message ::
  "participants \<Rightarrow> collaboration_digests \<Rightarrow> session \<Rightarrow> actor_context \<Rightarrow> append_command \<Rightarrow> uuid \<Rightarrow> string \<Rightarrow> timestamp
     \<Rightarrow> collaboration_db \<Rightarrow> collaboration_error + collaboration_db \<times> message_event" where
  "service_append_message part hashes ses x c fresh k now db =
     repository_append_message part ses
       \<lparr>mr_org = ac_org x, mr_actor = ac_actor x, mr_role = ac_role x, mr_thread = ap_thread c, mr_message = fresh,
        mr_body = ap_body c, mr_content_hash = digest_body hashes (ap_body c), mr_request_hash = digest_append hashes c,
        mr_key_hash = digest_idempotency hashes k\<rparr> now db"

definition propose_request_of ::
  "collaboration_digests \<Rightarrow> actor_context \<Rightarrow> propose_command \<Rightarrow> uuid \<Rightarrow> string \<Rightarrow> propose_request" where
  "propose_request_of hashes x c fresh k =
     \<lparr>pq_org = ac_org x, pq_actor = ac_actor x, pq_role = ac_role x, pq_message = pc_message c, pq_candidate = fresh,
      pq_revision = pc_revision c, pq_key = fact_key_value (proposal_key (pc_proposal c)), pq_value = dump_value (pc_proposal c),
      pq_value_hash = digest_value hashes (dump_value (pc_proposal c)), pq_request_hash = digest_propose hashes c,
      pq_key_hash = digest_idempotency hashes k\<rparr>"

definition service_propose_candidate ::
  "participants \<Rightarrow> collaboration_digests \<Rightarrow> session \<Rightarrow> actor_context \<Rightarrow> propose_command \<Rightarrow> uuid \<Rightarrow> string \<Rightarrow> timestamp
     \<Rightarrow> collaboration_db \<Rightarrow> collaboration_error + collaboration_db \<times> candidate_participant" where
  "service_propose_candidate part hashes ses x c fresh k now db =
     (if ac_role x \<notin> {''student'', ''parent''} \<or> \<not> role_allows_fact (ac_role x) (fact_key_value (proposal_key (pc_proposal c)))
      then Inl (CollaborationAuthorizationError None)
      else repository_propose_candidate part ses (propose_request_of hashes x c fresh k) now db)"

text \<open>The identifier of the fact is drawn after that of the verification, for a confirmation only.\<close>

definition service_verify_candidate ::
  "intake_sources \<Rightarrow> participants \<Rightarrow> collaboration_digests \<Rightarrow> session \<Rightarrow> actor_context \<Rightarrow> verify_command \<Rightarrow> uuid \<times> uuid
     \<Rightarrow> string \<Rightarrow> timestamp \<Rightarrow> collaboration_db \<Rightarrow> collaboration_error + collaboration_db \<times> uuid \<times> verification_row \<times> bool" where
  "service_verify_candidate sources part hashes ses x c fresh k now db =
     bind_result (only_advisor x) (\<lambda>_.
       repository_verify_candidate sources part ses
         \<lparr>vy_org = ac_org x, vy_actor = ac_actor x, vy_candidate = vc_candidate c, vy_revision = vc_revision c,
          vy_decision = verification_decision_value (vc_decision c), vy_reason = vc_reason c, vy_verification = fst fresh,
          vy_fact = (if vc_decision c = CONFIRM then Some (snd fresh) else None), vy_request_hash = digest_verify hashes c,
          vy_key_hash = digest_idempotency hashes k\<rparr> now db)"

text \<open>The reads of the service are those of the repository.\<close>

definition service_list_facts ::
  "participants \<Rightarrow> session \<Rightarrow> actor_context \<Rightarrow> uuid \<Rightarrow> int \<Rightarrow> history_cursor option \<Rightarrow> collaboration_db
     \<Rightarrow> collaboration_error + (advisor_facts + fact_participant list)" where
  "service_list_facts part ses x c limit cursor db = repository_list_facts part ses x c limit cursor db"

definition service_list_messages ::
  "participants \<Rightarrow> session \<Rightarrow> actor_context \<Rightarrow> uuid \<Rightarrow> int \<Rightarrow> int \<Rightarrow> collaboration_db \<Rightarrow> collaboration_error + message_page" where
  "service_list_messages part ses x thread after limit db = repository_list_messages part ses x thread after limit db"

definition service_list_candidates ::
  "participants \<Rightarrow> session \<Rightarrow> actor_context \<Rightarrow> uuid \<Rightarrow> int \<Rightarrow> timestamp \<Rightarrow> collaboration_db
     \<Rightarrow> collaboration_error + (candidate_participant \<times> candidate_detail option) list" where
  "service_list_candidates part ses x c limit now db = repository_list_candidates part ses x c limit now db"

definition service_get_thread ::
  "participants \<Rightarrow> session \<Rightarrow> actor_context \<Rightarrow> uuid \<Rightarrow> collaboration_db \<Rightarrow> collaboration_error + (uuid \<times> thread_row) option" where
  "service_get_thread part ses x c db = repository_get_thread part ses x c db"

end
