(* ===== verification/Collaboration_Regex.thy ===== *)
theory Collaboration_Regex
  imports Collaboration_Text
begin

text \<open>
  Reasoning about the matcher: a search finds the parts of a pattern, a pattern whose classes shrink finds less, and
  a pattern that needs a character finds nothing where there is none.  With this the text check of Python is compared
  with the check of the database.
\<close>

section \<open>Positions\<close>

definition later :: "position \<Rightarrow> position set" where
  "later p = set (positions (fst p) (snd p))"

lemma later_refl [simp]: "p \<in> later p"
  by (cases p; cases "snd p") (auto simp: later_def)

lemma later_trans: "q \<in> later p \<Longrightarrow> later q \<subseteq> later p"
proof -
  have "q \<in> set (positions pv s) \<Longrightarrow> set (positions (fst q) (snd q)) \<subseteq> set (positions pv s)" for pv s
    by (induction pv s rule: positions.induct) auto
  then show "q \<in> later p \<Longrightarrow> later q \<subseteq> later p" by (simp add: later_def)
qed

lemma later_all: "q \<in> later p \<Longrightarrow> list_all P (snd p) \<Longrightarrow> list_all P (snd q)"
proof -
  have "q \<in> set (positions pv s) \<Longrightarrow> list_all P s \<Longrightarrow> list_all P (snd q)" for pv s
    by (induction pv s rule: positions.induct) auto
  then show "q \<in> later p \<Longrightarrow> list_all P (snd p) \<Longrightarrow> list_all P (snd q)" by (simp add: later_def)
qed

lemma repeat_later:
  assumes f: "\<And>p q. q \<in> set (f p) \<Longrightarrow> q \<in> later p"
  shows "q \<in> set (repeat_match f n p) \<Longrightarrow> q \<in> later p"
proof (induction n arbitrary: p)
  case (Suc n)
  then consider "q = p" | x where "x \<in> set (f p)" "q \<in> set (repeat_match f n x)" by fastforce
  then show ?case
  proof cases
    case (2 x)
    from Suc.IH [OF 2(2)] f [OF 2(1)] later_trans show ?thesis by blast
  qed simp
qed simp

lemma matches_later: "q \<in> set (matches r p) \<Longrightarrow> q \<in> later p"
proof (induction r arbitrary: p q)
  case (Rx_class f)
  then obtain c cs where p: "snd p = c # cs" "q = (Some c, cs)" by (cases "snd p") (auto split: if_splits)
  then have "q \<in> later q" by simp
  with p show ?case by (simp add: later_def)
next
  case (Rx_cat a b)
  then obtain x where "x \<in> set (matches a p)" "q \<in> set (matches b x)" by auto
  with Rx_cat.IH later_trans show ?case by blast
next
  case (Rx_star a)
  show ?case by (rule repeat_later [OF Rx_star.IH]) (use Rx_star.prems in simp_all)
qed (auto split: if_splits)

section \<open>Searching\<close>

definition found :: "rx \<Rightarrow> position \<Rightarrow> bool" where
  "found r p \<longleftrightarrow> (\<exists>q \<in> later p. matches r q \<noteq> [])"

lemma rx_search_found: "rx_search r s \<longleftrightarrow> found r (None, s)"
  by (simp add: rx_search_def found_def later_def list_ex_iff)

lemma found_alt: "found (Rx_alt a b) p \<longleftrightarrow> found a p \<or> found b p"
  by (auto simp: found_def)

lemma matches_cat: "matches (Rx_cat a b) p \<noteq> [] \<longleftrightarrow> (\<exists>x \<in> set (matches a p). matches b x \<noteq> [])"
  by simp

lemma found_cat:
  assumes "found (Rx_cat a b) p"
  shows "found a p" "found b p"
proof -
  from assms obtain q x where q: "q \<in> later p" "x \<in> set (matches a q)" "matches b x \<noteq> []"
    unfolding found_def matches_cat by blast
  from q(2) have "matches a q \<noteq> []" by (cases "matches a q") simp_all
  with q(1) show "found a p" unfolding found_def by blast
  from later_trans [OF q(1)] matches_later [OF q(2)] q(3) show "found b p" unfolding found_def by blast
qed

text \<open>The first parts of a pattern are found where the whole is.\<close>

lemma matches_prefix: "matches (Rx_cat a (Rx_cat b c)) p \<noteq> [] \<Longrightarrow> matches (Rx_cat a b) p \<noteq> []"
proof -
  assume "matches (Rx_cat a (Rx_cat b c)) p \<noteq> []"
  then obtain x y where "x \<in> set (matches a p)" "y \<in> set (matches b x)" unfolding matches_cat by blast
  moreover from this(2) have "matches b x \<noteq> []" by (cases "matches b x") simp_all
  ultimately show ?thesis unfolding matches_cat by blast
qed

lemma matches_cat_mono:
  assumes "\<And>q. matches b q \<noteq> [] \<Longrightarrow> matches c q \<noteq> []"
  shows "matches (Rx_cat a b) p \<noteq> [] \<Longrightarrow> matches (Rx_cat a c) p \<noteq> []"
  using assms unfolding matches_cat by blast

lemma found_mono:
  assumes "\<And>q. q \<in> later p \<Longrightarrow> matches a q \<noteq> [] \<Longrightarrow> matches b q \<noteq> []"
  shows "found a p \<Longrightarrow> found b p"
  using assms by (auto simp: found_def)

section \<open>Smaller classes\<close>

fun below :: "(char \<Rightarrow> bool) \<Rightarrow> rx \<Rightarrow> rx \<Rightarrow> bool" where
  "below P (Rx_class f) (Rx_class g) \<longleftrightarrow> (\<forall>c. P c \<longrightarrow> f c \<longrightarrow> g c)"
| "below P Rx_empty Rx_empty \<longleftrightarrow> True"
| "below P Rx_start Rx_start \<longleftrightarrow> True"
| "below P Rx_word_boundary Rx_word_boundary \<longleftrightarrow> True"
| "below P (Rx_cat a b) (Rx_cat a' b') \<longleftrightarrow> below P a a' \<and> below P b b'"
| "below P (Rx_alt a b) (Rx_alt a' b') \<longleftrightarrow> below P a a' \<and> below P b b'"
| "below P (Rx_star a) (Rx_star a') \<longleftrightarrow> below P a a'"
| "below P _ _ \<longleftrightarrow> False"

lemma below_refl [simp]: "below P r r"
  by (induction r) auto

lemma repeat_mono:
  assumes sub: "\<And>p. list_all P (snd p) \<Longrightarrow> set (f p) \<subseteq> set (g p)" and lt: "\<And>p q. q \<in> set (f p) \<Longrightarrow> q \<in> later p"
  shows "list_all P (snd p) \<Longrightarrow> set (repeat_match f n p) \<subseteq> set (repeat_match g n p)"
proof (induction n arbitrary: p)
  case (Suc n)
  show ?case
  proof
    fix q
    assume "q \<in> set (repeat_match f (Suc n) p)"
    then consider "q = p" | x where "x \<in> set (f p)" "length (snd x) < length (snd p)" "q \<in> set (repeat_match f n x)"
      by fastforce
    then show "q \<in> set (repeat_match g (Suc n) p)"
    proof cases
      case (2 x)
      from later_all [OF lt [OF 2(1)] Suc.prems] Suc.IH 2(3) have "q \<in> set (repeat_match g n x)" by blast
      moreover have "x \<in> set (filter (\<lambda>q. length (snd q) < length (snd p)) (g p))"
        using subsetD [OF sub [OF Suc.prems] 2(1)] 2(2) by simp
      ultimately have "q \<in> set (concat (map (repeat_match g n) (filter (\<lambda>q. length (snd q) < length (snd p)) (g p))))"
        unfolding set_concat set_map by blast
      then show ?thesis by simp
    qed simp
  qed
qed simp

lemma below_matches: "below P r r' \<Longrightarrow> list_all P (snd p) \<Longrightarrow> set (matches r p) \<subseteq> set (matches r' p)"
proof (induction P r r' arbitrary: p rule: below.induct)
  case (1 P f g)
  then show ?case by (cases "snd p") auto
next
  case (5 P a b a' b')
  show ?case
  proof
    fix q
    assume "q \<in> set (matches (Rx_cat a b) p)"
    then obtain x where x: "x \<in> set (matches a p)" "q \<in> set (matches b x)" by auto
    from 5(3) have le: "below P a a'" "below P b b'" by simp_all
    from 5(1) [OF le(1) 5(4)] x(1) have "x \<in> set (matches a' p)" by (rule subsetD)
    moreover from 5(2) [OF le(2) later_all [OF matches_later [OF x(1)] 5(4)]] x(2) have "q \<in> set (matches b' x)"
      by (rule subsetD)
    ultimately show "q \<in> set (matches (Rx_cat a' b') p)" by auto
  qed
next
  case (6 P a b a' b')
  from 6(3) have le: "below P a a'" "below P b b'" by simp_all
  from 6(1) [OF le(1) 6(4)] 6(2) [OF le(2) 6(4)] show ?case by auto
next
  case (7 P a a')
  from 7(2) have "below P a a'" by simp
  note sub = 7(1) [OF this]
  show ?case unfolding matches.simps
    by (rule repeat_mono [where P = P, OF sub matches_later 7(3)])
qed auto

lemma below_search: "below P r r' \<Longrightarrow> list_all P s \<Longrightarrow> rx_search r s \<Longrightarrow> rx_search r' s"
  unfolding rx_search_found
proof (erule found_mono [rotated])
  fix q
  assume "below P r r'" "list_all P s" "q \<in> later (None, s)" "matches r q \<noteq> []"
  moreover from this have "list_all P (snd q)" using later_all [of q "(None, s)" P] by simp
  ultimately show "matches r' q \<noteq> []" using below_matches [of P r r' q] by (cases "matches r q") auto
qed

section \<open>Needed characters\<close>

text \<open>Every match consumes a character outside the set.\<close>

primrec needs :: "(char \<Rightarrow> bool) \<Rightarrow> rx \<Rightarrow> bool" where
  "needs P (Rx_class f) \<longleftrightarrow> (\<forall>c. f c \<longrightarrow> \<not> P c)"
| "needs P Rx_empty \<longleftrightarrow> False"
| "needs P Rx_start \<longleftrightarrow> False"
| "needs P Rx_word_boundary \<longleftrightarrow> False"
| "needs P (Rx_cat a b) \<longleftrightarrow> needs P a \<or> needs P b"
| "needs P (Rx_alt a b) \<longleftrightarrow> needs P a \<and> needs P b"
| "needs P (Rx_star a) \<longleftrightarrow> False"

lemma needs_none: "needs P r \<Longrightarrow> list_all P (snd p) \<Longrightarrow> matches r p = []"
proof (induction r arbitrary: p)
  case (Rx_class f)
  then show ?case by (cases "snd p") auto
next
  case (Rx_cat a b)
  show ?case
  proof (cases "needs P a")
    case False
    have "matches b q = []" if "q \<in> set (matches a p)" for q
      using Rx_cat False later_all [OF matches_later [OF that]] by simp
    then show ?thesis by simp
  qed (use Rx_cat in simp)
qed auto

lemma needs_search: "needs P r \<Longrightarrow> list_all P s \<Longrightarrow> \<not> rx_search r s"
  unfolding rx_search_found found_def using needs_none later_all by (metis snd_conv)

end
