(* ===== verification/Collaboration_Equivalence.thy ===== *)
theory Collaboration_Equivalence
  imports Collaboration_Values Collaboration_Regex Collaboration_Properties
begin

text \<open>
  Where Python and SQL agree: on the facts a role may state, on the values of facts but for some texts, and on what a
  confirmed fact does to the preferences of a case.
\<close>

declare split_paired_All [simp del] split_paired_Ex [simp del]

section \<open>Applying a fact\<close>

lemma dump_set [simp]:
  "jb_set (dump_student s) ''intended_field'' (Jb_string v) = dump_student (s\<lparr>intended_field := v\<rparr>)"
  "jb_set (dump_student s) ''preferred_countries'' (dump_countries cs) = dump_student (s\<lparr>preferred_countries := cs\<rparr>)"
  "jb_set (dump_student s) ''intake'' (Jb_string v) = dump_student (s\<lparr>intake := v\<rparr>)"
  "jb_set (dump_family f) ''risk_tolerance'' (Jb_string (risk_text r)) = dump_family (f\<lparr>risk_tolerance := r\<rparr>)"
  "jb_set (dump_family f) ''japan_risk_accepted'' (Jb_bool b) = dump_family (f\<lparr>japan_risk_accepted := b\<rparr>)"
  "jb_set (dump_family f) ''budget'' (dump_budget e) = dump_family (f\<lparr>budget := e\<rparr>)"
  by (simp_all add: dump_student_def dump_family_def)

lemma apply_total:
  assumes "valid_student_case_revision r" and "valid_proposal p = Inr q"
  shows "\<exists>r'. apply_confirmed_fact r p = Inr r' \<and> revision r' = revision r + 1"
proof (cases p)
  case (PreferredCountriesProposal cs)
  with assms(2) have "sorted cs" "distinct cs" "cs \<noteq> []"
    by (auto simp: validate_countries_def card_distinct split: if_splits) (metis sorted_sort)+
  with assms(1) show ?thesis unfolding PreferredCountriesProposal
    by (auto simp: mk_student_def next_case_revision_def valid_student_case_revision_def valid_student_preferences_def
        preferred_country_scope_iff Let_def)
qed (use assms in \<open>auto simp: mk_student_def mk_family_def next_case_revision_def valid_student_case_revision_def
      valid_student_preferences_def valid_family_preferences_def Let_def split: if_splits\<close>)

lemma next_projection_apply:
  assumes "apply_confirmed_fact r p = Inr r'"
  shows "next_projection (fact_key_value (proposal_key p)) (dump_value p) (dump_student (student r), dump_family (family r))
    = (dump_student (student r'), dump_family (family r'))"
  using assms
  by (cases p) (auto simp: next_projection_def mk_student_def mk_family_def next_case_revision_def Let_def split: if_splits)

section \<open>Texts\<close>

definition plain :: "char \<Rightarrow> bool" where
  "plain c \<longleftrightarrow> \<not> is_control c"

lemma space_plain: "plain c \<Longrightarrow> is_space c \<Longrightarrow> posix_space c"
  by (auto simp: plain_def is_control_def is_space_def posix_space_def)

lemma secret_below: "below plain (secret_assignment is_space) (secret_assignment posix_space)"
  by (simp add: secret_assignment_def space_plain)

lemma lit_below: "below P (lit w) (lit_ci w)"
  by (induction w) simp_all

lemma shell_below: "below plain (shell_command lit is_space) (shell_command lit_ci posix_space)"
  by (simp add: shell_command_def shell_words_def lit_below rx_plus_def space_plain del: lit.simps lit_ci.simps)

lemma lower_char_other:
  assumes "\<not> is_letter c"
  shows "lower_char x = lower_char c \<longleftrightarrow> x = c"
proof -
  have c: "lower_char c = c" using assms by (auto simp: lower_char_def is_letter_def in_range_def Let_def)
  have "x = c" if "lower_char x = c"
  proof (cases "65 \<le> (of_char x :: nat) \<and> (of_char x :: nat) \<le> 90")
    case True
    with that have "(of_char c :: nat) = of_char x + 32" by (auto simp: lower_char_def Let_def)
    with True assms show ?thesis by (simp add: is_letter_def in_range_def)
  next
    case False
    with that show ?thesis by (simp add: lower_char_def Let_def del: not_le)
  qed
  with c show ?thesis by auto
qed

lemma lit_ci_slashes: "lit_ci ''://'' = lit ''://''"
proof -
  have "\<not> is_letter CHR '':''" "\<not> is_letter CHR ''/''" by (simp_all add: is_letter_def in_range_def)
  from this [THEN lower_char_other] show ?thesis by simp
qed

lemma reference_search:
  "rx_search sql_reference s \<longleftrightarrow> rx_search (sequence_of [lit ''/'', local_directories, lit ''/'']) s
     \<or> rx_search (lit ''file://'') s \<or> rx_search (sequence_of [Rx_class is_letter, lit '':'', lit [BACKSLASH]]) s
     \<or> rx_search (lit ''://'') s"
  by (simp add: sql_reference_def rx_search_found found_alt del: lit.simps)

lemma url_search: "rx_search URL_PATTERN s \<Longrightarrow> rx_search (lit ''://'') s"
  "rx_search FILE_URL_PATTERN s \<Longrightarrow> rx_search (lit ''://'') s"
  "rx_search URL_CREDENTIAL_PATTERN s \<Longrightarrow> rx_search (lit ''://'') s"
proof -
  show "rx_search URL_PATTERN s \<Longrightarrow> rx_search (lit ''://'') s"
    unfolding URL_PATTERN_def rx_search_found sequence_of.simps
    by (simp del: lit.simps lit_ci.simps) (blast dest: found_cat)
  show "rx_search URL_CREDENTIAL_PATTERN s \<Longrightarrow> rx_search (lit ''://'') s"
    unfolding URL_CREDENTIAL_PATTERN_def rx_search_found sequence_of.simps
    by (simp del: lit.simps lit_ci.simps) (blast dest: found_cat)
  have "FILE_URL_PATTERN = Rx_cat (Rx_class (\<lambda>x. lower_char x = lower_char CHR ''f'')) (Rx_cat (Rx_class (\<lambda>x. lower_char x = lower_char CHR ''i''))
      (Rx_cat (Rx_class (\<lambda>x. lower_char x = lower_char CHR ''l'')) (Rx_cat (Rx_class (\<lambda>x. lower_char x = lower_char CHR ''e'')) (lit_ci ''://''))))"
    by (simp add: FILE_URL_PATTERN_def)
  note f = this [unfolded lit_ci_slashes]
  show "rx_search FILE_URL_PATTERN s \<Longrightarrow> rx_search (lit ''://'') s"
    unfolding rx_search_found f by (blast dest: found_cat)
qed

lemma path_search:
  assumes "rx_search LOCAL_PATH_PATTERN s"
  shows "rx_search (sequence_of [lit ''/'', local_directories, lit ''/'']) s
     \<or> rx_search (sequence_of [Rx_class is_letter, lit '':'', lit [BACKSLASH]]) s"
proof -
  from assms have "found (Rx_alt (Rx_cat (lit ''/'') (Rx_cat local_directories (Rx_cat (lit ''/'') (rx_plus (none_of [] is_space)))))
      (Rx_cat (Rx_class is_letter) (Rx_cat (lit '':'') (Rx_cat (lit [BACKSLASH]) (rx_plus (none_of [] is_space)))))) (None, s)"
    unfolding rx_search_found LOCAL_PATH_PATTERN_def local_path_def by (simp del: lit.simps) (blast dest: found_cat)
  then have "found (Rx_cat (lit ''/'') (Rx_cat local_directories (lit ''/''))) (None, s)
      \<or> found (Rx_cat (Rx_class is_letter) (Rx_cat (lit '':'') (lit [BACKSLASH]))) (None, s)"
    unfolding found_alt
    by (elim disj_forward) (rule found_mono [rotated], assumption, erule matches_cat_mono [rotated], erule matches_prefix)+
  then show ?thesis by (simp add: rx_search_found del: lit.simps)
qed

text \<open>What the database accepts as a text Python accepts, but for key markers that are not in capitals.\<close>

lemma safe_text_stored:
  assumes sql: "\<not> unsafe_value n s" and key: "\<not> rx_search private_key_ci s"
  shows "validate_safe_text s n label True = Inr s"
proof -
  from sql have ok: "1 \<le> length s" "length s \<le> n" "\<not> list_ex is_control s"
    "\<not> rx_search (secret_assignment posix_space) s" "\<not> rx_search shell_syntax s"
    "\<not> rx_search (shell_command lit_ci posix_space) s" "\<not> rx_search sql_reference s"
    by (simp_all add: unsafe_value_def sql_common_def)
  from ok(3) have p: "list_all plain s" by (auto simp: list_all_iff list_ex_iff plain_def)
  have "\<not> rx_search SECRET_PATTERN s"
    using ok(4) key below_search [OF secret_below p] by (auto simp: SECRET_PATTERN_def rx_search_found found_alt)
  moreover have "\<not> rx_search SHELL_PATTERN s"
    using ok(5,6) below_search [OF shell_below p] by (auto simp: SHELL_PATTERN_def rx_search_found found_alt)
  moreover have "\<not> rx_search URL_PATTERN s" "\<not> rx_search FILE_URL_PATTERN s" "\<not> rx_search URL_CREDENTIAL_PATTERN s"
    "\<not> rx_search LOCAL_PATH_PATTERN s"
    using ok(7) url_search path_search unfolding reference_search by blast+
  ultimately show ?thesis using ok(1-3) by (simp add: validate_safe_text_def)
qed

text \<open>
  The texts on which the two differ.  Only Python refuses a key marker that is not all in capitals.  Only the database
  refuses a shell word in other than small letters, an address of any scheme, and a path in the middle of a word.
\<close>

definition python_refuses :: "string \<Rightarrow> bool" where
  "python_refuses s \<longleftrightarrow> rx_search private_key_ci s"

definition sql_refuses :: "string \<Rightarrow> bool" where
  "sql_refuses s \<longleftrightarrow> rx_search (shell_command lit_ci posix_space) s \<or> rx_search sql_reference s"

lemma posix_space_space: "posix_space c \<Longrightarrow> is_space c"
  by (auto simp: is_space_def posix_space_def)

lemma secret_above: "below plain (secret_assignment posix_space) (secret_assignment is_space)"
  by (simp add: secret_assignment_def posix_space_space)

lemma private_key_below: "below plain private_key private_key_ci"
  by (simp add: private_key_def private_key_ci_def lit_below is_letter_def del: lit.simps lit_ci.simps)

lemma safe_text_iff:
  "\<not> unsafe_value n s \<and> \<not> python_refuses s \<longleftrightarrow> validate_safe_text s n label True = Inr s \<and> \<not> sql_refuses s"
proof
  assume "\<not> unsafe_value n s \<and> \<not> python_refuses s"
  then show "validate_safe_text s n label True = Inr s \<and> \<not> sql_refuses s"
    using safe_text_stored by (auto simp: python_refuses_def sql_refuses_def unsafe_value_def sql_common_def)
next
  assume ok: "validate_safe_text s n label True = Inr s \<and> \<not> sql_refuses s"
  then have t: "1 \<le> length s" "length s \<le> n" "\<not> list_ex is_control s" "\<not> rx_search SECRET_PATTERN s" "\<not> rx_search SHELL_PATTERN s"
    by (auto simp: validate_safe_text_def split: if_splits)
  from t(3) have p: "list_all plain s" by (auto simp: list_all_iff list_ex_iff plain_def)
  from t(4) have "\<not> rx_search (secret_assignment is_space) s" "\<not> rx_search private_key_ci s"
    by (simp_all add: SECRET_PATTERN_def rx_search_found found_alt)
  moreover from this have "\<not> rx_search (secret_assignment posix_space) s" "\<not> rx_search private_key s"
    using below_search [OF secret_above p] below_search [OF private_key_below p] by blast+
  moreover from t(5) have "\<not> rx_search shell_syntax s" by (simp add: SHELL_PATTERN_def rx_search_found found_alt)
  ultimately show "\<not> unsafe_value n s \<and> \<not> python_refuses s" using t(1-3) ok
    by (simp add: python_refuses_def sql_refuses_def unsafe_value_def sql_common_def)
qed

definition digit_or_dash :: "char \<Rightarrow> bool" where
  "digit_or_dash c \<longleftrightarrow> in_range (CHR ''0'') (CHR ''9'') c \<or> c = CHR ''-''"

lemma calendar_text:
  assumes "rx_fullmatch calendar_month s"
  shows "list_all digit_or_dash s" "length s = 7"
  using assms
  by (auto simp: rx_fullmatch_def calendar_month_def Let_def digit_or_dash_def in_range_def split: list.splits if_splits)

lemma digit_other: "digit_or_dash c \<Longrightarrow> \<not> is_letter c"
  by (auto simp: digit_or_dash_def is_letter_def in_range_def)

lemma needs_letter_ci: "is_letter c \<Longrightarrow> digit_or_dash x \<Longrightarrow> lower_char x \<noteq> lower_char c"
  using lower_char_other [OF digit_other, of x c] digit_other by metis

lemma needs_lit_ci: "list_ex is_letter w \<Longrightarrow> needs digit_or_dash (lit_ci w)"
  by (induction w) (auto dest: needs_letter_ci)

lemma needs_lit: "list_ex (\<lambda>c. \<not> digit_or_dash c) w \<Longrightarrow> needs digit_or_dash (lit w)"
  by (induction w) auto

lemma needs_patterns:
  "needs digit_or_dash sql_reference" "needs digit_or_dash private_key_ci" "needs digit_or_dash shell_syntax"
  "needs digit_or_dash (shell_command lit_ci posix_space)" "needs digit_or_dash (secret_assignment posix_space)"
  "needs digit_or_dash private_key"
  by (simp_all add: sql_reference_def local_directories_def private_key_ci_def private_key_def shell_syntax_def shell_words_def
      shell_command_def secret_assignment_def secret_words_def needs_lit needs_lit_ci is_letter_def in_range_def one_of_def
      digit_or_dash_def BACKSLASH_def del: lit.simps lit_ci.simps)

lemma validate_intake_iff: "validate_intake s = Inr s \<longleftrightarrow> rx_fullmatch calendar_month s \<and> take 4 s \<noteq> ''0000''"
proof (cases "rx_fullmatch calendar_month s")
  case True
  note t = calendar_text [OF True]
  have "list_all plain s" using t(1) by (auto simp: list_all_iff plain_def is_control_def digit_or_dash_def in_range_def)
  then have "\<not> list_ex is_control s" by (auto simp: list_all_iff list_ex_iff plain_def)
  then have "\<not> unsafe_value 160 s"
    using t needs_patterns [THEN needs_search, OF t(1)] by (simp add: unsafe_value_def sql_common_def)
  from safe_text_stored [OF this needs_search [OF needs_patterns(2) t(1)]] True show ?thesis
    by (simp add: validate_intake_def)
next
  case False
  then show ?thesis by (cases "validate_safe_text s 160 ''fact value'' True") (auto simp: validate_intake_def)
qed

section \<open>Values\<close>

lemma country_of_text_Some: "country_of_text s = Some c \<longleftrightarrow> s = country_value c"
  by (cases c) (auto simp: country_of_text_def split: if_splits)

lemma country_of_text_None: "country_of_text s = None \<longleftrightarrow> s \<notin> {''australia'', ''japan'', ''malaysia''}"
  by (auto simp: country_of_text_def split: if_splits)

lemma parse_json_countries_iff: "parse_json_countries items = Inr cs \<longleftrightarrow> items = map (\<lambda>c. Jb_string (country_value c)) cs"
proof (induction items arbitrary: cs rule: parse_json_countries.induct)
  case (2 s rest)
  show ?case
  proof (cases "country_of_text s")
    case None
    then have "s \<noteq> country_value c" for c using country_of_text_Some [of s c] by simp
    then show ?thesis using None by (cases cs) (auto simp: row_error_def)
  next
    case (Some c)
    with 2 [OF Some] country_of_text_Some [of s c] show ?thesis by (cases cs) auto
  qed
qed (auto simp: row_error_def)

lemma sorted_countries: "map country_value cs = sort (map country_value cs) \<longleftrightarrow> sorted cs"
proof -
  have "map country_value cs = sort (map country_value cs) \<longleftrightarrow> sorted (map country_value cs)" by (metis sorted_sort sorted_sort_id)
  then show ?thesis by (simp add: sorted_map less_eq_country_def [abs_def])
qed

lemma countries_length: "distinct (cs :: country list) \<Longrightarrow> length cs \<le> 3"
proof -
  assume "distinct cs"
  have "set cs \<subseteq> {AUSTRALIA, JAPAN, MALAYSIA}" using country.exhaust by blast
  then have "card (set cs) \<le> card {AUSTRALIA, JAPAN, MALAYSIA}" by (intro card_mono) simp_all
  with \<open>distinct cs\<close> show ?thesis by (simp add: distinct_card)
qed

lemma validate_countries_iff: "is_ok (validate_countries cs) \<longleftrightarrow> cs \<noteq> [] \<and> distinct cs \<and> sorted cs"
  by (auto simp: validate_countries_def is_ok_iff card_distinct distinct_card) (metis sorted_sort sorted_sort_id)+

lemma countries_agree:
  "sql_countries_ok (Jb_array items) \<longleftrightarrow>
     (\<exists>cs. parse_json_countries items = Inr cs \<and> is_ok (validate_countries cs))"
proof
  assume sql: "sql_countries_ok (Jb_array items)"
  have "\<exists>c. x = Jb_string (country_value c)" if "x \<in> set items" for x
  proof -
    from sql that have "case x of Jb_string s \<Rightarrow> s \<in> {''australia'', ''japan'', ''malaysia''} | _ \<Rightarrow> False"
      by (cases x) (auto simp: sql_countries_ok_def list_all_iff)
    then obtain s where "x = Jb_string s" "country_of_text s \<noteq> None"
      unfolding country_of_text_None by (cases x) auto
    then show ?thesis using country_of_text_Some by fastforce
  qed
  then obtain f where "\<forall>x \<in> set items. x = Jb_string (country_value (f x))" by metis
  then have items: "items = map (\<lambda>c. Jb_string (country_value c)) (map f items)"
    by (simp add: map_idI comp_def)
  define cs where "cs = map f items"
  from sql have "cs \<noteq> []" "distinct cs" "sorted cs" unfolding items [folded cs_def]
    by (auto simp: sql_countries_ok_def Let_def comp_def sorted_countries distinct_map)
  then show "\<exists>cs. parse_json_countries items = Inr cs \<and> is_ok (validate_countries cs)"
    using items [folded cs_def] by (auto simp: parse_json_countries_iff validate_countries_iff)
next
  assume "\<exists>cs. parse_json_countries items = Inr cs \<and> is_ok (validate_countries cs)"
  then obtain cs where cs: "items = map (\<lambda>c. Jb_string (country_value c)) cs" "cs \<noteq> []" "distinct cs" "sorted cs"
    by (auto simp: parse_json_countries_iff validate_countries_iff)
  have "country_value c \<in> {''australia'', ''japan'', ''malaysia''}" for c by (cases c) simp_all
  with cs countries_length [OF cs(3)] show "sql_countries_ok (Jb_array items)"
    by (auto simp: sql_countries_ok_def Let_def comp_def sorted_countries distinct_map list_all_iff inj_on_def Suc_le_eq)
qed

lemma parse_minor_simps:
  "parse_minor v = Some None \<longleftrightarrow> v = Some Jb_null" "parse_minor v = Some (Some n) \<longleftrightarrow> jb_integer v = Some n"
proof -
  have "(parse_minor v = Some None \<longleftrightarrow> v = Some Jb_null) \<and> (parse_minor v = Some (Some n) \<longleftrightarrow> jb_integer v = Some n)"
  proof (cases v)
    case (Some j)
    then show ?thesis by (cases j) auto
  qed simp
  then show "parse_minor v = Some None \<longleftrightarrow> v = Some Jb_null" "parse_minor v = Some (Some n) \<longleftrightarrow> jb_integer v = Some n"
    by blast+
qed

lemma budget_fields:
  assumes "distinct ks"
  shows "length ks = 7 \<and> set BUDGET_FIELDS \<subseteq> set ks \<longleftrightarrow> set ks = set BUDGET_FIELDS"
proof -
  have c: "card (set BUDGET_FIELDS) = 7" by (simp add: BUDGET_FIELDS_def)
  from assms have "length ks = card (set ks)" by (simp add: distinct_card)
  then show ?thesis using c card_subset_eq [of "set ks" "set BUDGET_FIELDS"] by auto
qed

text \<open>The budget that the fields of an object spell, if they all have the right type.\<close>

definition spelled_budget :: "jsonb \<Rightarrow> budget_envelope \<Rightarrow> bool" where
  "spelled_budget j b \<longleftrightarrow>
     jb_integer (jb_get j ''schema_version'') = Some (be_schema_version b) \<and> jb_string (jb_get j ''currency'') = Some (be_currency b)
     \<and> jb_string (jb_get j ''period'') = Some (be_period b) \<and> parse_minor (jb_get j ''preferred_minor'') = Some (preferred_minor b)
     \<and> parse_minor (jb_get j ''hard_ceiling_minor'') = Some (hard_ceiling_minor b)
     \<and> jb_integer (jb_get j ''elasticity_bps'') = Some (elasticity_bps b) \<and> parse_refused (jb_get j ''refused'') = Some (refused b)"

lemma strict_budget_iff:
  "strict_budget (Jb_object items) = Inr b \<longleftrightarrow>
     fst ` set items \<subseteq> set BUDGET_FIELDS \<and> spelled_budget (Jb_object items) b \<and> valid_budget_envelope b"
proof (cases "fst ` set items \<subseteq> set BUDGET_FIELDS \<and> (\<exists>b. spelled_budget (Jb_object items) b)")
  case True
  then obtain b' where b': "fst ` set items \<subseteq> set BUDGET_FIELDS" "spelled_budget (Jb_object items) b'" by blast
  then have "strict_budget (Jb_object items) = (if valid_budget_envelope b' then Inr b' else row_error ''value'')"
    by (cases b') (simp add: strict_budget_def spelled_budget_def Let_def)
  moreover have "spelled_budget (Jb_object items) b \<longleftrightarrow> b = b'"
    using b'(2) by (cases b; cases b') (auto simp: spelled_budget_def)
  ultimately show ?thesis using b'(1) by (auto simp: row_error_def)
next
  case False
  have "strict_budget (Jb_object items) \<noteq> Inr b"
  proof
    assume "strict_budget (Jb_object items) = Inr b"
    then have "fst ` set items \<subseteq> set BUDGET_FIELDS \<and> spelled_budget (Jb_object items) b"
      by (auto simp: strict_budget_def spelled_budget_def row_error_def Let_def split: option.splits if_splits)
    with False show False by blast
  qed
  with False show ?thesis by blast
qed

lemma budget_agree:
  assumes d: "distinct (jb_keys j)"
  shows "sql_budget_ok j \<longleftrightarrow> (\<exists>b. strict_budget j = Inr b) \<and> jb_get j ''refused'' \<noteq> None"
proof (cases j)
  case (Jb_object items)
  have keys: "jb_get j k \<noteq> None \<longleftrightarrow> k \<in> set (jb_keys j)" for k by (auto simp: Jb_object map_of_eq_None_iff)
  show ?thesis
  proof
    assume sql: "sql_budget_ok j"
    then have ks: "set (jb_keys j) = set BUDGET_FIELDS"
      using budget_fields [OF d] by (simp add: sql_budget_ok_def BUDGET_FIELDS_def)
    from sql obtain e r where e: "jb_integer (jb_get j ''elasticity_bps'') = Some e" "0 \<le> e" "e \<le> 2500"
      and r: "jb_bool (jb_get j ''refused'') = Some r"
      and s: "jb_integer (jb_get j ''schema_version'') = Some 1" "jb_string (jb_get j ''currency'') = Some ''CNY''"
        "jb_string (jb_get j ''period'') = Some ''program_total''"
      by (auto simp: sql_budget_ok_def split: option.splits)
    have "\<exists>p h. parse_minor (jb_get j ''preferred_minor'') = Some p \<and> parse_minor (jb_get j ''hard_ceiling_minor'') = Some h
        \<and> positive_opt p \<and> positive_opt h
        \<and> (if r then p = None \<and> h = None else (case (p, h) of (Some a, Some b) \<Rightarrow> a \<le> b | _ \<Rightarrow> False))"
    proof (cases r)
      case True
      with sql r show ?thesis by (auto simp: sql_budget_ok_def positive_opt_def)
    next
      case False
      with sql r obtain a b where "jb_integer (jb_get j ''preferred_minor'') = Some a"
        "jb_integer (jb_get j ''hard_ceiling_minor'') = Some b" "0 < a" "0 < b" "a \<le> b"
        by (auto simp: sql_budget_ok_def split: option.splits)
      with False show ?thesis
        by (intro exI [of _ "Some a"] exI [of _ "Some b"]) (simp add: positive_opt_def parse_minor_simps)
    qed
    then obtain p h where ph: "parse_minor (jb_get j ''preferred_minor'') = Some p"
      "parse_minor (jb_get j ''hard_ceiling_minor'') = Some h" "positive_opt p" "positive_opt h"
      "if r then p = None \<and> h = None else (case (p, h) of (Some a, Some b) \<Rightarrow> a \<le> b | _ \<Rightarrow> False)" by blast
    let ?b = "\<lparr>be_schema_version = 1, be_currency = ''CNY'', be_period = ''program_total'', preferred_minor = p,
      hard_ceiling_minor = h, elasticity_bps = e, refused = r\<rparr>"
    have "valid_budget_envelope ?b" using e ph(3-5)
      by (auto simp: valid_budget_envelope_def validate_envelope_def is_ok_iff split: option.splits if_splits)
    moreover have "spelled_budget j ?b" using s e r ph(1,2) by (auto simp: spelled_budget_def parse_refused_def)
    ultimately have "strict_budget j = Inr ?b" using ks by (simp add: strict_budget_iff Jb_object)
    moreover have "jb_get j ''refused'' \<noteq> None" using r by (cases "jb_get j ''refused''") auto
    ultimately show "(\<exists>b. strict_budget j = Inr b) \<and> jb_get j ''refused'' \<noteq> None" by blast
  next
    assume "(\<exists>b. strict_budget j = Inr b) \<and> jb_get j ''refused'' \<noteq> None"
    then obtain b where b: "set (jb_keys j) \<subseteq> set BUDGET_FIELDS" "spelled_budget j b" "valid_budget_envelope b"
      and r: "jb_get j ''refused'' \<noteq> None" by (auto simp: Jb_object strict_budget_iff)
    have "jb_get j k \<noteq> None" if "k \<in> set BUDGET_FIELDS" for k
    proof
      assume "jb_get j k = None"
      with b(2) r that show False by (auto simp: spelled_budget_def BUDGET_FIELDS_def)
    qed
    then have "set BUDGET_FIELDS \<subseteq> set (jb_keys j)" using keys by blast
    with b(1) have "set (jb_keys j) = set BUDGET_FIELDS" by blast
    then have "length (jb_keys j) = 7" "set BUDGET_FIELDS \<subseteq> set (jb_keys j)" using budget_fields [OF d] by simp_all
    moreover from b(2) r have "jb_bool (jb_get j ''refused'') = Some (refused b)"
      by (simp add: spelled_budget_def parse_refused_def)
    moreover from b(3) have v: "be_schema_version b = 1" "be_currency b = ''CNY''" "be_period b = ''program_total''"
      "positive_opt (preferred_minor b)" "positive_opt (hard_ceiling_minor b)" "is_ok (validate_envelope b)"
      by (simp_all add: valid_budget_envelope_def)
    from v(6) have e: "0 \<le> elasticity_bps b" "elasticity_bps b \<le> 2500"
      by (auto simp: validate_envelope_def is_ok_iff split: if_splits)
    have "case refused b of True \<Rightarrow> jb_get j ''preferred_minor'' = Some Jb_null \<and> jb_get j ''hard_ceiling_minor'' = Some Jb_null
        | False \<Rightarrow> (case (jb_integer (jb_get j ''preferred_minor''), jb_integer (jb_get j ''hard_ceiling_minor'')) of
               (Some p, Some h) \<Rightarrow> 0 < p \<and> 0 < h \<and> p \<le> h | _ \<Rightarrow> False)"
    proof (cases "refused b")
      case True
      with v(6) have "preferred_minor b = None" "hard_ceiling_minor b = None"
        by (auto simp: validate_envelope_def is_ok_iff split: if_splits)
      with True b(2) show ?thesis by (simp add: spelled_budget_def parse_minor_simps)
    next
      case False
      with v(6) obtain p h where "preferred_minor b = Some p" "hard_ceiling_minor b = Some h" "p \<le> h"
        by (auto simp: validate_envelope_def is_ok_iff split: if_splits option.splits)
      with False v(4,5) b(2) show ?thesis by (simp add: spelled_budget_def parse_minor_simps positive_opt_def)
    qed
    ultimately show "sql_budget_ok j" using b(2) v(1-3) e
      unfolding sql_budget_ok_def spelled_budget_def BUDGET_FIELDS_def by (simp add: Jb_object split: bool.splits)
  qed
qed (simp_all add: sql_budget_ok_def strict_budget_def row_error_def)

lemma risk_of_text_None: "risk_of_text s = None \<longleftrightarrow> s \<notin> {''low'', ''medium'', ''high''}"
  by (auto simp: risk_of_text_def split: if_splits)

lemma validate_safe_text_Inr: "validate_safe_text s n l u = Inr v \<Longrightarrow> v = s"
  by (auto simp: validate_safe_text_def split: if_splits)

lemma intake_ok: "is_ok (validate_intake s) \<longleftrightarrow> rx_fullmatch calendar_month s \<and> take 4 s \<noteq> ''0000''"
proof -
  have "validate_intake s = Inr v \<Longrightarrow> v = s" for v
    by (cases "validate_safe_text s 160 ''fact value'' True")
      (auto simp: validate_intake_def dest: validate_safe_text_Inr split: if_splits)
  then have "is_ok (validate_intake s) \<longleftrightarrow> validate_intake s = Inr s" by (auto simp: is_ok_iff)
  then show ?thesis by (simp add: validate_intake_iff)
qed

lemma is_ok_bind: "is_ok (bind_result r (\<lambda>x. Inr (f x))) \<longleftrightarrow> is_ok r"
  by (cases r) (simp_all add: is_ok_iff)

lemma ensure_iff: "ensure b e = Inr () \<longleftrightarrow> b"
  by (cases b) simp_all

lemmas fact_keys = fact_key_of_value [of STUDENT_INTENDED_FIELD, simplified] fact_key_of_value [of STUDENT_PREFERRED_COUNTRIES, simplified]
  fact_key_of_value [of STUDENT_INTAKE, simplified] fact_key_of_value [of FAMILY_RISK_TOLERANCE, simplified]
  fact_key_of_value [of FAMILY_JAPAN_RISK_ACCEPTED, simplified] fact_key_of_value [of FAMILY_BUDGET, simplified]

lemma role_keys:
  assumes "sql_role_fact rl fk"
  obtains "fk = ''student.intended_field''" | "fk = ''student.preferred_countries''" | "fk = ''student.intake''"
    | "fk = ''family.risk_tolerance''" | "fk = ''family.japan_risk_accepted''" | "fk = ''family.budget''"
  using assms unfolding sql_role_fact_def by (elim disjE conjE insertE emptyE; simp only:)

lemma row_error_not_ok [simp]: "is_ok (row_error k) \<longleftrightarrow> False"
  by (simp add: row_error_def is_ok_iff)

lemma ok_Inr [simp]: "is_ok (Inr x) \<longleftrightarrow> True"
  by (simp add: is_ok_iff)

lemma stored_intake:
  assumes "sql_role_fact rl ''student.intake''"
  shows "validate_collaboration_fact rl ''student.intake'' (Some j) = Inr () \<longleftrightarrow> is_ok (parse_proposal ''student.intake'' j)"
  unfolding validate_collaboration_fact_def parse_proposal_def fact_keys
  by (cases j) (simp_all add: assms ensure_iff is_ok_bind intake_ok)

lemma stored_risk:
  assumes "sql_role_fact rl ''family.risk_tolerance''"
  shows "validate_collaboration_fact rl ''family.risk_tolerance'' (Some j) = Inr ()
    \<longleftrightarrow> is_ok (parse_proposal ''family.risk_tolerance'' j)"
proof (cases j)
  case (Jb_string s)
  have "is_ok (parse_proposal ''family.risk_tolerance'' j) \<longleftrightarrow> risk_of_text s \<noteq> None"
    unfolding parse_proposal_def fact_keys Jb_string by (cases "risk_of_text s") simp_all
  then show ?thesis
    unfolding validate_collaboration_fact_def Jb_string risk_of_text_None by (simp add: assms ensure_iff)
qed (unfold validate_collaboration_fact_def parse_proposal_def fact_keys, simp_all add: assms)

lemma stored_japan:
  assumes "sql_role_fact rl ''family.japan_risk_accepted''"
  shows "validate_collaboration_fact rl ''family.japan_risk_accepted'' (Some j) = Inr ()
    \<longleftrightarrow> is_ok (parse_proposal ''family.japan_risk_accepted'' j)"
  unfolding validate_collaboration_fact_def parse_proposal_def fact_keys by (cases j) (simp_all add: assms)

lemma parse_text: "parse_proposal ''student.intended_field'' (Jb_string s) = valid_proposal (IntendedFieldProposal s)"
  unfolding parse_proposal_def fact_keys by (simp only: option.case fact_key.case jsonb.case prod.case)

lemma stored_text:
  assumes "sql_role_fact rl ''student.intended_field''"
  shows "validate_collaboration_fact rl ''student.intended_field'' (Some (Jb_string s)) = Inr () \<and> \<not> python_refuses s
    \<longleftrightarrow> is_ok (parse_proposal ''student.intended_field'' (Jb_string s)) \<and> \<not> sql_refuses s"
proof -
  have "validate_collaboration_fact rl ''student.intended_field'' (Some (Jb_string s)) = Inr () \<longleftrightarrow> \<not> unsafe_value 160 s"
    using assms by (simp add: validate_collaboration_fact_def ensure_iff)
  moreover have "is_ok (parse_proposal ''student.intended_field'' (Jb_string s))
      \<longleftrightarrow> validate_safe_text s 160 ''fact value'' True = Inr s"
    unfolding parse_text by (cases "validate_safe_text s 160 ''fact value'' True") (auto simp: is_ok_iff dest: validate_safe_text_Inr)
  ultimately show ?thesis using safe_text_iff by blast
qed

lemma stored_not_text:
  assumes "\<And>s. j \<noteq> Jb_string s"
  shows "validate_collaboration_fact rl ''student.intended_field'' (Some j) \<noteq> Inr ()"
    and "\<not> is_ok (parse_proposal ''student.intended_field'' j)"
  using assms by (cases j; simp add: validate_collaboration_fact_def ensure_iff parse_proposal_def fact_keys)+

lemma stored_countries:
  assumes "sql_role_fact rl ''student.preferred_countries''"
  shows "validate_collaboration_fact rl ''student.preferred_countries'' (Some j) = Inr ()
    \<longleftrightarrow> is_ok (parse_proposal ''student.preferred_countries'' j)"
proof -
  have "sql_countries_ok j \<longleftrightarrow> is_ok (parse_proposal ''student.preferred_countries'' j)"
  proof (cases j)
    case (Jb_array items)
    have "is_ok (parse_proposal ''student.preferred_countries'' j)
        \<longleftrightarrow> (\<exists>cs. parse_json_countries items = Inr cs \<and> is_ok (validate_countries cs))"
      by (cases "parse_json_countries items")
        (auto simp: Jb_array parse_proposal_def fact_keys is_ok_bind is_ok_iff)
    then show ?thesis using countries_agree by (simp add: Jb_array)
  qed (simp_all add: sql_countries_ok_def parse_proposal_def fact_keys row_error_def is_ok_iff)
  with assms show ?thesis by (simp add: validate_collaboration_fact_def ensure_iff)
qed

lemma stored_budget:
  assumes "sql_role_fact rl ''family.budget''" and d: "distinct (jb_keys j)"
  shows "validate_collaboration_fact rl ''family.budget'' (Some j) = Inr ()
    \<longleftrightarrow> is_ok (parse_proposal ''family.budget'' j) \<and> jb_get j ''refused'' \<noteq> None"
proof -
  have "parse_proposal ''family.budget'' j = bind_result (strict_budget j) (\<lambda>b. Inr (BudgetProposal b))"
    by (cases j) (simp_all add: parse_proposal_def fact_keys)
  with assms(1) budget_agree [OF d] show ?thesis
    by (auto simp: validate_collaboration_fact_def ensure_iff is_ok_bind is_ok_iff)
qed

lemma accepted_parses:
  assumes v: "validate_collaboration_fact rl fk (Some j) = Inr ()" and "distinct (jb_keys j)"
    and "\<And>s. j = Jb_string s \<Longrightarrow> \<not> python_refuses s"
  shows "is_ok (parse_proposal fk j)"
proof -
  from v have r: "sql_role_fact rl fk" by (simp add: validate_collaboration_fact_def split: if_splits)
  then show ?thesis
  proof (rule role_keys)
    assume k: "fk = ''student.intended_field''"
    with v stored_not_text(1) obtain s where s: "j = Jb_string s" by blast
    with stored_text [OF r [unfolded k]] v assms(3) k show ?thesis by blast
  next
    assume k: "fk = ''student.preferred_countries''"
    from stored_countries [OF r [unfolded k]] v show ?thesis unfolding k by blast
  next
    assume k: "fk = ''student.intake''"
    from stored_intake [OF r [unfolded k]] v show ?thesis unfolding k by blast
  next
    assume k: "fk = ''family.risk_tolerance''"
    from stored_risk [OF r [unfolded k]] v show ?thesis unfolding k by blast
  next
    assume k: "fk = ''family.japan_risk_accepted''"
    from stored_japan [OF r [unfolded k]] v show ?thesis unfolding k by blast
  next
    assume k: "fk = ''family.budget''"
    from stored_budget [OF r [unfolded k] assms(2)] v show ?thesis unfolding k by blast
  qed
qed

text \<open>C16: Python and the database accept the same keys from a role and, but for two cases, the same values under a key.
  A budget must spell its \<open>refused\<close> field for the database only.  An intended field is accepted by both or by none unless it
  has a key marker, which Python refuses in letters of any case, or a shell word in letters of any case, a colon with two slashes
  or a local path anywhere, which the database refuses: the database accepts it and it has no key marker exactly when Python accepts
  it and it has none of the three.\<close>

theorem values_agree:
  assumes d: "distinct (jb_keys j)"
  shows "(fk \<noteq> ''student.intended_field'' \<longrightarrow>
      (validate_collaboration_fact rl fk (Some j) = Inr () \<longleftrightarrow>
         role_allows_fact rl fk \<and> is_ok (parse_proposal fk j)
         \<and> (fk = ''family.budget'' \<longrightarrow> jb_get j ''refused'' \<noteq> None)))
    \<and> (fk = ''student.intended_field'' \<longrightarrow>
      (validate_collaboration_fact rl fk (Some j) = Inr () \<longrightarrow> role_allows_fact rl fk \<and> (\<exists>s. j = Jb_string s))
      \<and> (is_ok (parse_proposal fk j) \<longrightarrow> (\<exists>s. j = Jb_string s))
      \<and> (\<forall>s. j = Jb_string s \<and> role_allows_fact rl fk \<longrightarrow>
           (validate_collaboration_fact rl fk (Some j) = Inr () \<and> \<not> python_refuses s
             \<longleftrightarrow> is_ok (parse_proposal fk j) \<and> \<not> sql_refuses s)))"
proof (cases "sql_role_fact rl fk")
  case True
  then have role: "role_allows_fact rl fk" by (simp add: sql_role_fact_python)
  from True consider "fk = ''student.intended_field''" | "fk = ''student.preferred_countries''" | "fk = ''student.intake''"
    | "fk = ''family.risk_tolerance''" | "fk = ''family.japan_risk_accepted''" | "fk = ''family.budget''"
    by (rule role_keys)
  then show ?thesis
  proof cases
    case 1
    note texts = stored_text [OF True [unfolded 1]]
    show ?thesis using role texts stored_not_text [of j] unfolding 1 by (cases j) simp_all
  next
    case 2
    show ?thesis using role stored_countries [OF True [unfolded 2], of j] unfolding 2 by simp
  next
    case 3
    show ?thesis using role stored_intake [OF True [unfolded 3], of j] unfolding 3 by simp
  next
    case 4
    show ?thesis using role stored_risk [OF True [unfolded 4], of j] unfolding 4 by simp
  next
    case 5
    show ?thesis using role stored_japan [OF True [unfolded 5], of j] unfolding 5 by simp
  next
    case 6
    show ?thesis using role stored_budget [OF True [unfolded 6] d] unfolding 6 by simp
  qed
next
  case False
  then have "\<not> role_allows_fact rl fk" by (simp add: sql_role_fact_python)
  moreover from False have "validate_collaboration_fact rl fk (Some j) \<noteq> Inr ()" by (simp add: validate_collaboration_fact_def)
  moreover have "\<exists>s. j = Jb_string s" if "is_ok (parse_proposal ''student.intended_field'' j)"
    using stored_not_text(2) that by blast
  ultimately show ?thesis by blast
qed

section \<open>Confirmation\<close>

lemma apply_valid:
  assumes "apply_confirmed_fact r p = Inr r'"
  shows "valid_student_case_revision r' \<and> revision r' = revision r + 1"
  using assms by (cases p) (auto simp: mk_student_def mk_family_def next_case_revision_def Let_def split: if_splits)

text \<open>C15: The confirmation that the database runs implements \<open>apply_confirmed_fact\<close>: on a revision that stores preferences
  of Python and a proposal that passes its validators, it stores the preferences that Python computes, and these are valid.\<close>

theorem confirmation_applies_fact:
  assumes "verify_memory_candidate sources part ses r now db = Inr (db', i, v, False)" and "vy_decision r = ''confirm''"
    and ca: "map_of (candidates db) (vy_org r, vy_candidate r) = Some ca"
    and p: "ca_key ca = fact_key_value (proposal_key p)" "ca_value ca = dump_value p" "valid_proposal p = Inr p"
    and row: "map_of (revision_rows db) ((vy_org r, ca_case ca), vy_revision r) = Some row"
    and rv: "rv_student row = dump_student (student rv)" "rv_family row = dump_family (family rv)"
      "valid_student_case_revision rv" "revision rv = vy_revision r"
  shows "\<exists>rv' row'. apply_confirmed_fact rv p = Inr rv' \<and> valid_student_case_revision rv'
    \<and> map_of (revision_rows db') ((vy_org r, ca_case ca), revision rv') = Some row'
    \<and> rv_student row' = dump_student (student rv') \<and> rv_family row' = dump_family (family rv')"
  using assms(1)
proof (cases rule: candidate_verify_cases)
  case (confirmed ca' c prior run j row0 row')
  from confirmed(2) ca have e: "ca' = ca" by (simp add: admitted_def Let_def)
  note conf = confirmed(5) [unfolded confirmable_def Let_def e prod.case]
  from conf row have r0: "row0 = row" by simp
  from apply_total [OF rv(3) p(3)] obtain rv' where a: "apply_confirmed_fact rv p = Inr rv'" "revision rv' = revision rv + 1" by blast
  from conf have new: "map_of (revision_rows db) ((vy_org r, ca_case ca), vy_revision r + 1) = None"
    and next_row: "(rv_student row', rv_family row') = next_projection (ca_key ca) (ca_value ca) (rv_student row0, rv_family row0)"
    by blast+
  have "(rv_student row', rv_family row') = (dump_student (student rv'), dump_family (family rv'))"
    using next_projection_apply [OF a(1)] next_row by (simp only: r0 rv(1,2) p(1,2))
  moreover have "map_of (revision_rows db') ((vy_org r, ca_case ca), vy_revision r + 1) = Some row'"
    using new by (simp add: confirmed(6) e confirmed_db_def Let_def map_add_Some_iff map_of_eq_None_iff)
  ultimately show ?thesis using a apply_valid [OF a(1)] rv(4) by auto
qed (use assms(2) in simp_all)

definition python_programming :: jsonb where
  "python_programming = Jb_string ''Python programming''"

theorem values_agree_witness:
  "(validate_collaboration_fact ''parent'' ''family.budget'' (Some (budget_json 30000000 36000000)) = Inr ()
     \<longleftrightarrow> role_allows_fact ''parent'' ''family.budget'' \<and> is_ok (parse_proposal ''family.budget'' (budget_json 30000000 36000000)))
   \<and> is_ok (parse_proposal ''student.intended_field'' python_programming)
   \<and> validate_collaboration_fact ''student'' ''student.intended_field'' (Some python_programming) \<noteq> Inr ()"
proof -
  have "distinct (jb_keys (budget_json 30000000 36000000))" "jb_get (budget_json 30000000 36000000) ''refused'' \<noteq> None"
    by code_simp+
  with values_agree [of "budget_json 30000000 36000000" "''family.budget''" "''parent''"] have
    "validate_collaboration_fact ''parent'' ''family.budget'' (Some (budget_json 30000000 36000000)) = Inr ()
     \<longleftrightarrow> role_allows_fact ''parent'' ''family.budget'' \<and> is_ok (parse_proposal ''family.budget'' (budget_json 30000000 36000000))"
    by simp
  moreover have "distinct (jb_keys python_programming)" "is_ok (parse_proposal ''student.intended_field'' python_programming)"
    "sql_refuses ''Python programming''" "\<not> python_refuses ''Python programming''" "role_allows_fact ''student'' ''student.intended_field''"
    by code_simp+
  moreover from values_agree [OF this(1), of "''student.intended_field''" "''student''"] this(2-)
  have "validate_collaboration_fact ''student'' ''student.intended_field'' (Some python_programming) \<noteq> Inr ()"
    unfolding python_programming_def by blast
  ultimately show ?thesis by blast
qed

definition baseline_revision :: student_case_revision where
  "baseline_revision = \<lparr>scr_schema_version = 1, scr_organization_id = 1, scr_case_id = 10, revision = 1,
     student = \<lparr>sp_schema_version = 1, intended_field = ''computing'', preferred_countries = [AUSTRALIA, JAPAN], intake = ''2027-02''\<rparr>,
     family = \<lparr>fp_schema_version = 1, risk_tolerance = High, japan_risk_accepted = True,
       budget = \<lparr>be_schema_version = 1, be_currency = ''CNY'', be_period = ''program_total'', preferred_minor = Some 34000000,
         hard_ceiling_minor = Some 40000000, elasticity_bps = 1000, refused = False\<rparr>\<rparr>\<rparr>"

definition smaller_proposal :: fact_proposal where
  "smaller_proposal = BudgetProposal \<lparr>be_schema_version = 1, be_currency = ''CNY'', be_period = ''program_total'',
     preferred_minor = Some 30000000, hard_ceiling_minor = Some 36000000, elasticity_bps = 1000, refused = False\<rparr>"

lemma baseline_dumps:
  "baseline_student = dump_student (student baseline_revision)" "baseline_family = dump_family (family baseline_revision)"
  "budget_json 30000000 36000000 = dump_value smaller_proposal" "valid_student_case_revision baseline_revision"
  "valid_proposal smaller_proposal = Inr smaller_proposal" "fact_key_value (proposal_key smaller_proposal) = ''family.budget''"
  by code_simp+

lemma shared_candidate_row:
  "map_of (candidates shared_candidate) (1, 820) = Some (snd (hd (candidates shared_candidate)))"
  "ca_key (snd (hd (candidates shared_candidate))) = ''family.budget''"
  "ca_value (snd (hd (candidates shared_candidate))) = budget_json 30000000 36000000"
  "ca_case (snd (hd (candidates shared_candidate))) = 10"
  "map_of (revision_rows shared_candidate) ((1, 10), 1) = Some \<lparr>rv_student = baseline_student, rv_family = baseline_family,
     rv_review = None, rv_superseded = None\<rparr>"
  by code_simp+

theorem confirmation_applies_fact_witness:
  "\<exists>rv' row'. apply_confirmed_fact baseline_revision smaller_proposal = Inr rv'
     \<and> map_of (revision_rows shared_confirmed) ((1, 10), revision rv') = Some row' \<and> rv_family row' = dump_family (family rv')"
proof -
  have r: "vy_org confirmation = 1" "vy_candidate confirmation = 820" "vy_revision confirmation = 1" "vy_decision confirmation = ''confirm''"
    "revision baseline_revision = 1" by (simp_all add: confirmation_def baseline_revision_def)
  from confirmation_applies_fact [OF shared_confirmation r(4), of "snd (hd (candidates shared_candidate))" smaller_proposal _ baseline_revision]
  show ?thesis unfolding r shared_candidate_row baseline_dumps by (simp add: baseline_dumps) blast
qed

end
