(* ===== verification/Collaboration_Pages.thy ===== *)
theory Collaboration_Pages
  imports Collaboration_Paging Collaboration_Repository Collaboration_Equivalence
begin

text \<open>
  What the pages of the repository contain: every stored message, and every fact that was proposed through the service,
  passes the validation of the rows that are read, so no page is refused.
\<close>

declare split_paired_All [simp del] split_paired_Ex [simp del]

section \<open>Stored rows\<close>

definition hashed_messages :: "collaboration_db \<Rightarrow> bool" where
  "hashed_messages db \<longleftrightarrow> (\<forall>x \<in> set (messages db). is_sha256 (me_content_sha256 (snd x)))"

lemma hashed_step:
  assumes "collaboration_step facts db db'" and h: "hashed_messages db"
  shows "hashed_messages db'"
  using assms(1)
proof (cases rule: collaboration_step.cases)
  case (append part ses m now out')
  then have hash: "is_sha256 (mr_content_hash m)" by (rule contrapos_pp) (simp add: append_collaboration_message_def)
  from append show ?thesis
  proof (cases rule: append_cases)
    case (appended t row)
    from h hash show ?thesis unfolding hashed_messages_def appended(1) by (auto simp: appended(7))
  qed (use h in simp)
next
  case (thread part ses r now out)
  then show ?thesis using h by (cases rule: thread_cases) (simp_all add: hashed_messages_def)
next
  case (propose part ses p now out'')
  then show ?thesis using h by (cases rule: propose_cases) (simp_all add: hashed_messages_def)
next
  case (verify sources part ses v now out3)
  then show ?thesis using h
    by (cases rule: candidate_verify_cases) (simp_all add: hashed_messages_def confirmed_db_def Let_def)
next
  case (first ses org i s f)
  from first_Inr(3) [OF first] h show ?thesis by (simp add: hashed_messages_def)
next
  case (beneath d)
  with h show ?thesis by (simp add: hashed_messages_def)
qed

lemma hashed_reachable:
  assumes "collaboration_reachable facts db"
  shows "hashed_messages db"
  using assms unfolding collaboration_reachable_def
proof (induction rule: rtranclp_induct)
  case base
  show ?case by (simp add: hashed_messages_def empty_collaboration_db_def)
qed (rule hashed_step)

lemma message_events_valid:
  assumes "collaboration_reachable facts db" and "(km, m) \<in> set (messages db)"
  shows "valid_message_event (view_message (snd km) m)" "0 < me_sequence m"
proof -
  from assms(1) have ok: "messages_ok db" using collaboration_invariantD(2) [OF collaboration_reachable_invariant] by blast
  let ?l = "thread_messages (fst km, me_thread m) db"
  have "(km, m) \<in> set ?l" using assms(2) by (simp add: thread_messages_def)
  then have "me_sequence m \<in> set (map (\<lambda>(km, m). me_sequence m) ?l)" by force
  with ok have "me_sequence m \<in> set (map int [1..<Suc (length ?l)])" unfolding messages_ok_def by metis
  then show pos: "0 < me_sequence m" by auto
  from ok assms(2) have "map_of (messages db) km = Some m" by (simp add: messages_ok_def)
  with ok have "me_role m \<in> {''advisor'', ''student'', ''parent''}" by (simp add: messages_ok_def)
  moreover from hashed_reachable [OF assms(1)] assms(2) have "is_sha256 (me_content_sha256 m)"
    by (force simp: hashed_messages_def)
  ultimately show "valid_message_event (view_message (snd km) m)"
    using pos by (simp add: valid_message_event_def view_message_def ACTOR_ROLES_def)
qed

text \<open>A fact that Python reads as well: the keys of its objects are distinct, and a text has no key marker.\<close>

definition plain_fact :: "jsonb \<Rightarrow> bool" where
  "plain_fact j \<longleftrightarrow> distinct (jb_keys j) \<and> (case j of Jb_string s \<Rightarrow> \<not> python_refuses s | _ \<Rightarrow> True)"

lemma parse_proposal_key:
  assumes "parse_proposal fk j = Inr p"
  shows "fact_key_value (proposal_key p) = fk"
proof -
  from assms obtain k where k: "fact_key_of fk = Some k"
    by (cases "fact_key_of fk") (simp_all add: parse_proposal_def row_error_def)
  from assms have "proposal_key p = k"
    unfolding parse_proposal_def k
    by (cases k; cases j) (auto simp: row_error_def split: option.splits if_splits)
  moreover from k have "fact_key_value k = fk" by (auto simp: fact_key_of_def dest: find_SomeD)
  ultimately show ?thesis by simp
qed

lemma fact_candidate:
  assumes inv: "collaboration_invariant db" and "map_of (confirmed db) k = Some f"
  shows "validate_collaboration_fact (cf_role f) (cf_key f) (Some (cf_value f)) = Inr ()"
    "cf_role f \<in> ACTOR_ROLES" "0 < cf_version f"
proof -
  from collaboration_invariantD(5) [OF inv] assms(2) have "fact_ok db k f" and d: "distinct (map fst (confirmed db))"
    and ch: "chained (lineage (fst k, cf_case f) (cf_key f) (confirmed db))" by (simp_all add: facts_ok_def)
  then obtain ca where ca: "map_of (candidates db) (fst k, cf_candidate f) = Some ca" "cf_key f = ca_key ca"
    "cf_value f = ca_value ca" "cf_role f = ca_role ca" unfolding fact_ok_def by blast
  from collaboration_invariantD(3) [OF inv] ca(1) have "candidate_ok db (fst k, cf_candidate f) ca" by (simp add: candidates_ok_def)
  then show v: "validate_collaboration_fact (cf_role f) (cf_key f) (Some (cf_value f)) = Inr ()"
    by (simp add: candidate_ok_def ca(2-4))
  then have "sql_role_fact (cf_role f) (cf_key f)" by (simp add: validate_collaboration_fact_def split: if_splits)
  then show "cf_role f \<in> ACTOR_ROLES" unfolding sql_role_fact_def ACTOR_ROLES_def by blast
  let ?l = "lineage (fst k, cf_case f) (cf_key f) (confirmed db)"
  from d assms(2) have "(k, f) \<in> set (confirmed db)" by simp
  then have "(k, f) \<in> set ?l" by (simp add: lineage_def)
  then obtain i where "i < length ?l" "?l ! i = (k, f)" by (auto simp: in_set_conv_nth)
  with ch show "0 < cf_version f" by (auto simp: chained_def)
qed

definition plain_facts :: "collaboration_db \<Rightarrow> bool" where
  "plain_facts db \<longleftrightarrow> (\<forall>x \<in> set (confirmed db). plain_fact (cf_value (snd x)))"

lemma fact_parses:
  assumes "collaboration_invariant db" and "map_of (confirmed db) k = Some f" and "plain_fact (cf_value f)"
  shows "\<exists>p. parse_fact (view_fact f) = Inr p \<and> proposal_key (fp_proposal p) \<in> set FACT_KEYS
    \<and> fact_key_value (proposal_key (fp_proposal p)) = cf_key f \<and> fp_version p = cf_version f"
proof -
  note F = fact_candidate [OF assms(1,2)]
  from assms(3) have "is_ok (parse_proposal (cf_key f) (cf_value f))"
    by (intro accepted_parses [OF F(1)]) (auto simp: plain_fact_def)
  then obtain q where q: "parse_proposal (cf_key f) (cf_value f) = Inr q" unfolding is_ok_iff ..
  have "proposal_key q \<in> set FACT_KEYS" by (cases "proposal_key q") (simp_all add: FACT_KEYS_def)
  with q F(2,3) parse_proposal_key [OF q] show ?thesis by (simp add: parse_fact_def view_fact_def)
qed

lemma detail_parses:
  assumes reach: "collaboration_reachable facts db" and f: "map_of (confirmed db) k = Some f" and plain: "plain_fact (cf_value f)"
  shows "\<exists>d p. detail_fact db (k, f) = [(view_fact f, d)] \<and> parse_fact_row (view_fact f, d) = Inr (p, d)
    \<and> fact_key_value (proposal_key (fp_proposal p)) = cf_key f \<and> fp_version p = cf_version f"
proof -
  note inv = collaboration_reachable_invariant [OF reach]
  from fact_message [OF inv f] obtain m where m: "map_of (messages db) (fst k, cf_message f) = Some m" by blast
  from fact_verified_once [OF inv f] obtain kv v where v: "verifications_of_fact k db = [(kv, v)]" by blast
  define d where "d = \<lparr>ft_fact = snd k, ft_candidate = cf_candidate f, ft_verification = snd kv, ft_message = cf_message f,
    ft_sequence = me_sequence m, ft_sha256_prefix = take 12 (me_content_sha256 m), ft_advisor = cf_advisor f,
    ft_reason = ve_reason v, ft_supersedes = cf_supersedes f\<rparr>"
  have e: "detail_fact db (k, f) = [(view_fact f, d)]" by (simp add: detail_fact_def m v d_def)
  from m have "((fst k, cf_message f), m) \<in> set (messages db)" by (rule map_of_SomeD)
  from message_events_valid [OF reach this] have "0 < me_sequence m" "is_sha256 (me_content_sha256 m)"
    by (simp_all add: valid_message_event_def view_message_def)
  then have "valid_fact_detail d" by (auto simp: valid_fact_detail_def d_def is_sha256_def list_all_iff dest: in_set_takeD)
  with e fact_parses [OF inv f plain] show ?thesis by (auto simp: parse_fact_row_def checked_def)
qed

lemma traverse_values:
  assumes "\<And>x. x \<in> set xs \<Longrightarrow> f x = Inr (g x)"
  shows "traverse f xs = Inr (map g xs)"
  using assms by (induction xs) simp_all

lemma traverse_defined:
  assumes "\<And>x. x \<in> set xs \<Longrightarrow> \<exists>y. f x = Inr y"
  shows "\<exists>ys. traverse f xs = Inr ys"
  using traverse_total [of xs f] assms by (simp add: is_ok_iff)

definition read_row :: "fact_view \<times> fact_detail \<Rightarrow> fact_participant \<times> fact_detail" where
  "read_row row = projr (parse_fact_row row)"

lemma history_parses:
  assumes reach: "collaboration_reachable facts db" and plain: "plain_facts db" and row: "row \<in> set (fact_history k snapshot db)"
  shows "parse_fact_row row = Inr (read_row row)"
    "fact_key_value (proposal_key (fp_proposal (fst (read_row row)))) = fv_key (fst row)"
    "fp_version (fst (read_row row)) = fv_version (fst row)"
proof -
  note inv = collaboration_reachable_invariant [OF reach]
  from row obtain kf where kf: "kf \<in> set (superseded_facts k snapshot db)" "row \<in> set (detail_fact db kf)"
    by (auto simp: fact_history_def)
  obtain k' f where e: "kf = (k', f)" by (cases kf)
  from kf(1) have c: "(k', f) \<in> set (confirmed db)" using history_sorted(3) [OF inv] e by blast
  with collaboration_invariantD(5) [OF inv] have "map_of (confirmed db) k' = Some f" by (simp add: facts_ok_def)
  moreover from plain c have "plain_fact (cf_value f)" by (force simp: plain_facts_def)
  ultimately obtain d p where "detail_fact db (k', f) = [(view_fact f, d)]" "parse_fact_row (view_fact f, d) = Inr (p, d)"
    "fact_key_value (proposal_key (fp_proposal p)) = cf_key f" "fp_version p = cf_version f"
    using detail_parses [OF reach] by blast
  with kf(2) e show "parse_fact_row row = Inr (read_row row)"
    "fact_key_value (proposal_key (fp_proposal (fst (read_row row)))) = fv_key (fst row)"
    "fp_version (fst (read_row row)) = fv_version (fst row)"
    by (simp_all add: read_row_def view_fact_def)
qed

section \<open>One page\<close>

lemma distinct_keys:
  assumes "\<And>a. length (filter (\<lambda>x. f x = a) xs) \<le> 1"
  shows "distinct (map f xs)"
  using assms
proof (induction xs)
  case (Cons x xs)
  from Cons.prems [of "f x"] have "filter (\<lambda>y. f y = f x) xs = []" by simp
  then have "f x \<notin> f ` set xs" by (auto simp: filter_empty_conv)
  moreover have "length (filter (\<lambda>y. f y = a) xs) \<le> 1" for a using Cons.prems [of a] by (simp split: if_splits)
  ultimately show ?case using Cons.IH by simp
qed simp

lemma at_most_six:
  assumes inv: "collaboration_invariant db"
  shows "length (current_facts k db) \<le> 6" "set (current_facts k db) \<subseteq> set (confirmed db)"
proof -
  have ch: "chained (lineage k fk (confirmed db))" for fk using collaboration_invariantD(5) [OF inv] by (simp add: facts_ok_def)
  let ?x = "facts_in_force k (confirmed db)"
  show sub: "set (current_facts k db) \<subseteq> set (confirmed db)" by (auto simp: current_facts_def facts_in_force_def)
  have key: "(\<lambda>x. cf_key (snd x)) = (\<lambda>(k', f). cf_key f)" by (simp add: case_prod_unfold)
  have "length (filter (\<lambda>x. cf_key (snd x) = a) ?x) \<le> 1" for a
    using facts_in_force_key [OF ch, of a] by (simp add: case_prod_unfold split: option.splits)
  then have d: "distinct (map (\<lambda>x. cf_key (snd x)) ?x)" by (rule distinct_keys)
  have "cf_key (snd x) \<in> fact_key_value ` set FACT_KEYS" if "x \<in> set ?x" for x
  proof -
    from that have "(fst x, snd x) \<in> set (confirmed db)" by (auto simp: facts_in_force_def)
    with collaboration_invariantD(5) [OF inv] have "map_of (confirmed db) (fst x) = Some (snd x)" by (simp add: facts_ok_def)
    from fact_candidate(1) [OF inv this] have "sql_role_fact (cf_role (snd x)) (cf_key (snd x))"
      by (simp add: validate_collaboration_fact_def split: if_splits)
    then show ?thesis by (rule role_keys) (simp_all add: FACT_KEYS_def)
  qed
  then have "set (map (\<lambda>x. cf_key (snd x)) ?x) \<subseteq> fact_key_value ` set FACT_KEYS" unfolding set_map by blast
  then have "card (set (map (\<lambda>x. cf_key (snd x)) ?x)) \<le> card (fact_key_value ` set FACT_KEYS)" by (intro card_mono) simp_all
  also have "\<dots> \<le> 6" using card_image_le [of "set FACT_KEYS" fact_key_value] by (simp add: FACT_KEYS_def)
  finally show "length (current_facts k db) \<le> 6" using distinct_card [OF d] by (simp add: current_facts_def)
qed

lemma current_parses:
  assumes reach: "collaboration_reachable facts db" and plain: "plain_facts db"
  shows "\<exists>current. traverse (\<lambda>row. bind_result (with_detail row) parse_fact_row)
      (map (map_prod id Some) (concat (map (detail_fact db) (current_facts k db)))) = Inr current"
    "length (concat (map (detail_fact db) (current_facts k db))) \<le> 6"
proof -
  note inv = collaboration_reachable_invariant [OF reach]
  have one: "\<exists>d p. detail_fact db x = [(view_fact (snd x), d)] \<and> parse_fact_row (view_fact (snd x), d) = Inr (p, d)"
    if "x \<in> set (current_facts k db)" for x
  proof -
    from subsetD [OF at_most_six(2) [OF inv] that] have c: "(fst x, snd x) \<in> set (confirmed db)" by simp
    with collaboration_invariantD(5) [OF inv] have "map_of (confirmed db) (fst x) = Some (snd x)" by (simp add: facts_ok_def)
    moreover from plain c have "plain_fact (cf_value (snd x))" by (force simp: plain_facts_def)
    ultimately show ?thesis using detail_parses [OF reach, of "fst x" "snd x"] by auto
  qed
  have "length (concat (map (detail_fact db) xs)) = length xs" if "set xs \<subseteq> set (current_facts k db)" for xs
    using that by (induction xs) (use one in fastforce)+
  from this [OF subset_refl] at_most_six(1) [OF inv] show "length (concat (map (detail_fact db) (current_facts k db))) \<le> 6" by simp
  have "\<exists>p. bind_result (with_detail row) parse_fact_row = Inr p"
    if "row \<in> set (map (map_prod id Some) (concat (map (detail_fact db) (current_facts k db))))" for row
  proof -
    from that obtain x y where "x \<in> set (current_facts k db)" "y \<in> set (detail_fact db x)" "row = map_prod id Some y" by auto
    with one [of x] show ?thesis by (auto simp: with_detail_def)
  qed
  then show "\<exists>current. traverse (\<lambda>row. bind_result (with_detail row) parse_fact_row)
      (map (map_prod id Some) (concat (map (detail_fact db) (current_facts k db)))) = Inr current" by (rule traverse_defined)
qed

text \<open>The cursor after the first rows of a history.\<close>

definition cursor_at :: "int \<Rightarrow> nat \<Rightarrow> (fact_view \<times> fact_detail) list \<Rightarrow> history_cursor option" where
  "cursor_at n i rows =
     (if i = 0 then None
      else let v = fst (rows ! (i - 1)) in
        Some \<lparr>hc_snapshot = n, hc_key = the (fact_key_of (fv_key v)), hc_version = fv_version v\<rparr>)"

text \<open>An advisor of the case.\<close>

definition advises :: "participants \<Rightarrow> session \<Rightarrow> actor_context \<Rightarrow> uuid \<Rightarrow> bool" where
  "advises part ses x c \<longleftrightarrow>
     ac_role x = ''advisor'' \<and> assert_collaboration_context ses (ac_org x) (ac_actor x) ''advisor'' = Inr ()
     \<and> part (ac_org x) c (ac_actor x) ''advisor''"

lemma page_from:
  assumes reach: "collaboration_reachable facts db" and plain: "plain_facts db" and adv: "advises part ses x c"
    and limit: "1 \<le> limit" "limit \<le> 100" and live: "current_of (ac_org x, c) db = Some live" "n \<le> live" "0 < n"
    and H: "fact_history (ac_org x, c) n db = rows" and i: "i \<le> length rows" "i = 0 \<Longrightarrow> n = live"
  shows "\<exists>page. service_list_facts part ses x c limit (cursor_at n i rows) db = Inr (Inl page)
    \<and> af_history page = map read_row (take (nat limit) (drop i rows))
    \<and> af_next_cursor page = (if i + nat limit < length rows then cursor_at n (i + nat limit) rows else None)"
proof -
  note inv = collaboration_reachable_invariant [OF reach]
  let ?k = "(ac_org x, c)" and ?more = "i + nat limit < length rows"
  have row: "parse_fact_row row = Inr (read_row row)" "fact_key_value (proposal_key (fp_proposal (fst (read_row row)))) = fv_key (fst row)"
    "fp_version (fst (read_row row)) = fv_version (fst row)" "0 < fv_version (fst row)" if "row \<in> set rows" for row
  proof -
    from that history_parses [OF reach plain, of row ?k n]
    show p: "parse_fact_row row = Inr (read_row row)" "fact_key_value (proposal_key (fp_proposal (fst (read_row row)))) = fv_key (fst row)"
      "fp_version (fst (read_row row)) = fv_version (fst row)" by (simp_all add: H)
    from p(1) show "0 < fv_version (fst row)" by (auto simp: parse_fact_row_def parse_fact_def row_error_def split: if_splits)
  qed
  define sql where "sql = (if i = 0 then None else let v = fst (rows ! (i - 1)) in Some (fv_key v, fv_version v))"
  have cursor: "map_option (\<lambda>h. (hc_snapshot h, fact_key_value (hc_key h), hc_version h)) (cursor_at n i rows)
      = map_option (\<lambda>q. (n, q)) sql \<and> cursor_contract (map_option (\<lambda>q. (n, q)) sql)"
  proof (cases "i = 0")
    case False
    with i(1) have m: "rows ! (i - 1) \<in> set rows" by (intro nth_mem) simp
    let ?p = "proposal_key (fp_proposal (fst (read_row (rows ! (i - 1)))))"
    have "?p \<in> set FACT_KEYS" by (cases ?p) (simp_all add: FACT_KEYS_def)
    moreover from row(2) [OF m] have key: "fv_key (fst (rows ! (i - 1))) = fact_key_value ?p" by simp
    ultimately show ?thesis using False row(4) [OF m] live(3)
      by (simp add: cursor_at_def sql_def Let_def cursor_contract_def)
  qed (simp add: cursor_at_def sql_def cursor_contract_def)
  have snap: "(case map_option (\<lambda>q. (n, q)) sql of None \<Rightarrow> live | Some (m, _) \<Rightarrow> m) = n"
    using i(2) by (simp add: sql_def Let_def)
  have page: "history_page ?k n sql limit db = take (nat (limit + 1)) (drop i rows)"
    by (rule history_page_from [OF inv, of i ?k n, unfolded H, OF i(1) sql_def])
  obtain crow where crow: "map_of (case_rows db) ?k = Some crow" "sc_current_revision crow = live"
    using live(1) by (auto simp: current_of_def)
  let ?current = "map (map_prod id Some) (concat (map (detail_fact db) (current_facts ?k db)))"
  have "read_confirmed_facts part ses (ac_org x) (ac_actor x) ''advisor'' c (map_option (\<lambda>q. (n, q)) sql) limit db
      = Inr \<lparr>fg_current = ?current, fg_history = take (nat (limit + 1)) (drop i rows), fg_snapshot = n\<rparr>"
  proof (cases sql)
    case None
    with snap have "n = live" by simp
    with None show ?thesis using adv limit cursor page
      by (simp add: read_confirmed_facts_def advises_def admit_reader_def crow)
  next
    case (Some q)
    with adv limit cursor page live(2) show ?thesis
      by (simp add: read_confirmed_facts_def advises_def admit_reader_def crow)
  qed
  then have read: "read_facts part ses x c limit (cursor_at n i rows) db
      = Inr \<lparr>fg_current = ?current, fg_history = take (nat (limit + 1)) (drop i rows), fg_snapshot = n\<rparr>"
    using adv cursor by (simp add: read_facts_def advises_def executed_def)
  from current_parses [OF reach plain, of ?k] obtain current where
    current: "traverse (\<lambda>row. bind_result (with_detail row) parse_fact_row) ?current = Inr current" "length ?current \<le> 6" by auto
  have "traverse parse_fact_row (take (nat limit) (drop i rows)) = Inr (map read_row (take (nat limit) (drop i rows)))"
    using row(1) by (intro traverse_values) (meson in_set_dropD in_set_takeD)
  moreover have "take (nat limit) (take (nat (limit + 1)) (drop i rows)) = take (nat limit) (drop i rows)"
    using limit by (simp add: min_absorb1)
  moreover have more: "limit < int (length (take (nat (limit + 1)) (drop i rows))) \<longleftrightarrow> ?more" using limit i(1) by auto
  moreover have "?more \<Longrightarrow> map read_row (take (nat limit) (drop i rows)) \<noteq> []" using limit by auto
  moreover have "Some \<lparr>hc_snapshot = n, hc_key = proposal_key (fp_proposal (fst (last (map read_row (take (nat limit) (drop i rows)))))),
      hc_version = fp_version (fst (last (map read_row (take (nat limit) (drop i rows)))))\<rparr> = cursor_at n (i + nat limit) rows" if ?more
  proof -
    from that limit have ne: "take (nat limit) (drop i rows) \<noteq> []" by auto
    have "last (take (nat limit) (drop i rows)) = rows ! (i + nat limit - 1)"
      using that limit by (subst last_conv_nth [OF ne]) (simp add: min_absorb2)
    moreover from that limit have m: "rows ! (i + nat limit - 1) \<in> set rows" by (intro nth_mem) simp
    ultimately show ?thesis using limit row(3) [OF m] row(2) [OF m, symmetric]
      by (simp add: last_map [OF ne] cursor_at_def Let_def)
  qed
  ultimately show ?thesis
    using adv current(2) live(3)
    by (simp add: service_list_facts_def repository_list_facts_def read advises_def page_of_facts_def Let_def current(1) persisted_def
        cong: if_cong)
qed

section \<open>All pages\<close>

text \<open>A client that follows the cursors: one page from each database, until a page has no next cursor.\<close>

fun history_pages ::
  "participants \<Rightarrow> session \<Rightarrow> actor_context \<Rightarrow> uuid \<Rightarrow> int \<Rightarrow> history_cursor option \<Rightarrow> collaboration_db list
     \<Rightarrow> collaboration_error + (fact_participant \<times> fact_detail) list \<times> history_cursor option" where
  "history_pages part ses x c limit cursor [] = Inr ([], cursor)"
| "history_pages part ses x c limit cursor (db # dbs) =
     bind_result (service_list_facts part ses x c limit cursor db) (\<lambda>out.
       case out of Inr _ \<Rightarrow> Inr ([], None)
       | Inl page \<Rightarrow>
           (case af_next_cursor page of None \<Rightarrow> Inr (af_history page, None)
            | Some h \<Rightarrow>
                bind_result (history_pages part ses x c limit (Some h) dbs) (\<lambda>(rest, last_cursor).
                  Inr (af_history page @ rest, last_cursor))))"

text \<open>Databases of which each was reached from the one before.\<close>

fun evolves :: "decision_facts \<Rightarrow> collaboration_db list \<Rightarrow> bool" where
  "evolves facts (db # db' # dbs) \<longleftrightarrow> (collaboration_step facts)\<^sup>*\<^sup>* db db' \<and> evolves facts (db' # dbs)"
| "evolves facts _ \<longleftrightarrow> True"

lemma history_pages_from:
  assumes adv: "advises part ses x c" and limit: "1 \<le> limit" "limit \<le> 100" and "0 < n"
    and "collaboration_reachable facts db" and "evolves facts (db # dbs)" and "\<forall>d \<in> set (db # dbs). plain_facts d"
    and "current_of (ac_org x, c) db = Some live" "n \<le> live"
    and "fact_history (ac_org x, c) n db = rows" and "i \<le> length rows" "i = 0 \<Longrightarrow> n = live"
    and "length rows - i \<le> nat limit * length (db # dbs)"
  shows "history_pages part ses x c limit (cursor_at n i rows) (db # dbs) = Inr (map read_row (drop i rows), None)"
  using assms(5-)
proof (induction dbs arbitrary: db live i)
  case Nil
  have plain: "plain_facts db" using Nil.prems(3) by simp
  from page_from [OF Nil.prems(1) plain adv limit Nil.prems(4,5) assms(4) Nil.prems(6-8)]
  obtain page where page: "service_list_facts part ses x c limit (cursor_at n i rows) db = Inr (Inl page)"
    "af_history page = map read_row (take (nat limit) (drop i rows))"
    "af_next_cursor page = (if i + nat limit < length rows then cursor_at n (i + nat limit) rows else None)" by blast
  from Nil.prems(9) have "\<not> i + nat limit < length rows" "length (drop i rows) \<le> nat limit" by simp_all
  with page show ?case by simp
next
  case (Cons db' dbs)
  have plain: "plain_facts db" using Cons.prems(3) by simp
  from page_from [OF Cons.prems(1) plain adv limit Cons.prems(4,5) assms(4) Cons.prems(6-8)]
  obtain page where page: "service_list_facts part ses x c limit (cursor_at n i rows) db = Inr (Inl page)"
    "af_history page = map read_row (take (nat limit) (drop i rows))"
    "af_next_cursor page = (if i + nat limit < length rows then cursor_at n (i + nat limit) rows else None)" by blast
  show ?case
  proof (cases "i + nat limit < length rows")
    case True
    from Cons.prems(2) have steps: "(collaboration_step facts)\<^sup>*\<^sup>* db db'" and ev: "evolves facts (db' # dbs)" by simp_all
    from history_steps [OF steps Cons.prems(1,4,5)] Cons.prems(6) obtain live' where
      next_db: "fact_history (ac_org x, c) n db' = rows" "current_of (ac_org x, c) db' = Some live'" "n \<le> live'"
      using Cons.prems(5) by (metis order_trans)
    have "history_pages part ses x c limit (cursor_at n (i + nat limit) rows) (db' # dbs)
        = Inr (map read_row (drop (i + nat limit) rows), None)"
    proof (rule Cons.IH [OF collaboration_reachable_steps [OF Cons.prems(1) steps] ev _ next_db(2,3,1)])
      show "\<forall>d \<in> set (db' # dbs). plain_facts d" using Cons.prems(3) by simp
      show "i + nat limit \<le> length rows" using True by simp
      show "i + nat limit = 0 \<Longrightarrow> n = live'" using limit by simp
      show "length rows - (i + nat limit) \<le> nat limit * length (db' # dbs)" using Cons.prems(9) by simp
    qed
    moreover have "\<exists>h. cursor_at n (i + nat limit) rows = Some h" using limit by (simp add: cursor_at_def Let_def)
    moreover have "take (nat limit) (drop i rows) @ drop (i + nat limit) rows = drop i rows"
      by (metis add.commute append_take_drop_id drop_drop)
    ultimately show ?thesis using page True by (auto simp: simp flip: map_append)
  next
    case False
    with page show ?thesis by simp
  qed
qed

section \<open>Proposals through the service\<close>

text \<open>
  Candidates come from the service alone, with a proposal that the validators of its model have passed.  The SQL function
  would also take a text with a key marker in small letters, which Python does not read back.
\<close>

inductive served_step :: "decision_facts \<Rightarrow> collaboration_db \<Rightarrow> collaboration_db \<Rightarrow> bool" for facts where
  proposed: "valid_proposal (pc_proposal c) = Inr (pc_proposal c) \<Longrightarrow>
      service_propose_candidate part hashes ses x c fresh idem now db = Inr (db', p) \<Longrightarrow> served_step facts db db'"
| unproposed: "collaboration_step facts db db' \<Longrightarrow> candidates db' = candidates db \<Longrightarrow> served_step facts db db'"

definition served_reachable :: "decision_facts \<Rightarrow> collaboration_db \<Rightarrow> bool" where
  "served_reachable facts db \<longleftrightarrow> (served_step facts)\<^sup>*\<^sup>* empty_collaboration_db db"

fun served_evolves :: "decision_facts \<Rightarrow> collaboration_db list \<Rightarrow> bool" where
  "served_evolves facts (db # db' # dbs) \<longleftrightarrow> (served_step facts)\<^sup>*\<^sup>* db db' \<and> served_evolves facts (db' # dbs)"
| "served_evolves facts _ \<longleftrightarrow> True"

lemma service_proposes:
  assumes "service_propose_candidate part hashes ses x c fresh idem now db = Inr (db', p)"
  obtains v again where "propose_memory_candidate part ses (propose_request_of hashes x c fresh idem) now db = Inr (db', v, again)"
  using assms by (auto simp: service_propose_candidate_def repository_propose_candidate_def executed_def
      split: if_splits sum.splits)

lemma served_step_collaboration: "served_step facts db db' \<Longrightarrow> collaboration_step facts db db'"
  by (induction rule: served_step.induct) (auto elim!: service_proposes intro: collaboration_step.propose)

lemma served_steps_collaboration: "(served_step facts)\<^sup>*\<^sup>* db db' \<Longrightarrow> (collaboration_step facts)\<^sup>*\<^sup>* db db'"
  by (induction rule: rtranclp_induct) (auto dest: served_step_collaboration)

lemma served_collaboration: "served_reachable facts db \<Longrightarrow> collaboration_reachable facts db"
  by (simp add: served_reachable_def collaboration_reachable_def served_steps_collaboration)

lemma served_history:
  assumes "served_reachable facts db" and "served_evolves facts (db # dbs)"
  shows "evolves facts (db # dbs)" and "\<forall>d \<in> set (db # dbs). served_reachable facts d"
  using assms
proof (induction dbs arbitrary: db)
  case (Cons d dbs)
  case 1
  with Cons(1) [of d] show ?case
    by (auto simp: served_reachable_def served_steps_collaboration dest: rtranclp_trans)
next
  case (Cons d dbs)
  case 2
  with Cons(2) [of d] show ?case by (auto simp: served_reachable_def dest: rtranclp_trans)
qed simp_all

lemma safe_text_readable:
  "validate_safe_text s n l u = Inr v \<Longrightarrow> \<not> python_refuses s"
  by (auto simp: validate_safe_text_def python_refuses_def SECRET_PATTERN_def rx_search_found found_alt split: if_splits)

lemma dump_plain:
  assumes "valid_proposal p = Inr p"
  shows "plain_fact (dump_value p)"
proof (cases p)
  case (IntendedFieldProposal s)
  with assms show ?thesis
    by (cases "validate_safe_text s 160 ''fact value'' True") (auto simp: plain_fact_def dest: safe_text_readable)
next
  case (IntakeProposal s)
  with assms show ?thesis
    by (cases "validate_safe_text s 160 ''fact value'' True") (auto simp: plain_fact_def validate_intake_def dest: safe_text_readable)
next
  case (RiskToleranceProposal r)
  have "\<not> python_refuses (risk_text r)" by (cases r; simp only:; code_simp)
  then show ?thesis by (simp add: RiskToleranceProposal plain_fact_def)
qed (simp_all add: plain_fact_def dump_budget_def dump_countries_def)

definition plain_candidates :: "collaboration_db \<Rightarrow> bool" where
  "plain_candidates db \<longleftrightarrow> (\<forall>x \<in> set (candidates db). plain_fact (ca_value (snd x)))"

lemma served_plain_candidates:
  assumes "served_reachable facts db"
  shows "plain_candidates db"
  using assms unfolding served_reachable_def
proof (induction rule: rtranclp_induct)
  case base
  show ?case by (simp add: plain_candidates_def empty_collaboration_db_def)
next
  case (step db db')
  from step(2) show ?case
  proof cases
    case (proposed c part hashes ses x fresh idem now p)
    from proposed(2) obtain v again where
      "propose_memory_candidate part ses (propose_request_of hashes x c fresh idem) now db = Inr (db', v, again)"
      by (rule service_proposes)
    then show ?thesis using step(3) dump_plain [OF proposed(1)]
      by (cases rule: propose_cases) (auto simp: plain_candidates_def new_candidate_def propose_request_of_def)
  qed (use step(3) in \<open>simp add: plain_candidates_def\<close>)
qed

lemma served_plain_facts:
  assumes "served_reachable facts db"
  shows "plain_facts db"
proof -
  note inv = collaboration_reachable_invariant [OF served_collaboration [OF assms]]
  have "plain_fact (cf_value f)" if "(k, f) \<in> set (confirmed db)" for k f
  proof -
    from collaboration_invariantD(5) [OF inv] that have "map_of (confirmed db) k = Some f" by (simp add: facts_ok_def)
    with collaboration_invariantD(5) [OF inv] have "fact_ok db k f" by (simp add: facts_ok_def)
    then obtain ca where ca: "map_of (candidates db) (fst k, cf_candidate f) = Some ca" "cf_value f = ca_value ca"
      unfolding fact_ok_def by blast
    with served_plain_candidates [OF assms] show ?thesis by (force simp: plain_candidates_def dest: map_of_SomeD)
  qed
  then show ?thesis by (auto simp: plain_facts_def)
qed

text \<open>C12: Where candidates were proposed through the service, an advisor who follows the cursors gets, whatever happens to the
  database between the reads, the history of the first page's revision, each superseded fact once and in order; no page is
  refused: what the service proposed passes, once confirmed, the validation on reading.\<close>

theorem history_pages_complete:
  assumes served: "served_reachable facts db" "served_evolves facts (db # dbs)"
    and "advises part ses x c" and "1 \<le> limit" "limit \<le> 100" and "current_of (ac_org x, c) db = Some n"
    and "length (fact_history (ac_org x, c) n db) \<le> nat limit * length (db # dbs)"
  shows "\<exists>items. history_pages part ses x c limit None (db # dbs) = Inr (items, None)
    \<and> traverse parse_fact_row (fact_history (ac_org x, c) n db) = Inr items
    \<and> distinct (map (\<lambda>(p, d). (proposal_key (fp_proposal p), fp_version p)) items)"
proof -
  note reach = served_collaboration [OF served(1)]
  note inv = collaboration_reachable_invariant [OF reach]
  let ?rows = "fact_history (ac_org x, c) n db"
  have "\<forall>k n. current_of k db = Some n \<longrightarrow> 1 \<le> n"
    using collaboration_invariantD(6) [OF inv] unfolding revisions_ok_def by (elim conjE)
  with assms(6) have n: "0 < n" by fastforce
  have plain: "\<forall>d \<in> set (db # dbs). plain_facts d" using served_history(2) [OF served] served_plain_facts by blast
  then have "plain_facts db" by simp
  note parses = history_parses [OF reach this, of _ "(ac_org x, c)" n]
  from history_pages_from [OF assms(3-5) n reach served_history(1) [OF served] plain assms(6) order_refl refl le0 refl] assms(7)
  have "history_pages part ses x c limit None (db # dbs) = Inr (map read_row ?rows, None)" by (simp add: cursor_at_def)
  moreover have "traverse parse_fact_row ?rows = Inr (map read_row ?rows)" using parses(1) by (rule traverse_values)
  moreover have "distinct (map (\<lambda>(p, d). (proposal_key (fp_proposal p), fp_version p)) (map read_row ?rows))"
  proof -
    have h: "?rows = map (\<lambda>kf. hd (detail_fact db kf)) (superseded_facts (ac_org x, c) n db)"
      using details_map [OF inv history_sorted(3) [OF inv]] by (simp add: fact_history_def)
    have "map (\<lambda>row. (fv_key (fst row), - fv_version (fst row))) ?rows = map history_order (superseded_facts (ac_org x, c) n db)"
    proof (rule nth_equalityI)
      fix i assume "i < length (map (\<lambda>row. (fv_key (fst row), - fv_version (fst row))) ?rows)"
      then have i: "i < length (superseded_facts (ac_org x, c) n db)" by (simp add: h)
      from history_view [OF inv i] i
      show "map (\<lambda>row. (fv_key (fst row), - fv_version (fst row))) ?rows ! i
          = map history_order (superseded_facts (ac_org x, c) n db) ! i"
        by (simp add: view_fact_def history_order_def)
    qed (simp add: h)
    with history_sorted(2) [OF inv] have "distinct (map (\<lambda>row. (fv_key (fst row), - fv_version (fst row))) ?rows)" by simp
    then have "distinct (map ((\<lambda>(fk, v). (fact_key_value fk, - v)) \<circ> (\<lambda>row. (proposal_key (fp_proposal (fst (read_row row))), fp_version (fst (read_row row))))) ?rows)"
      by (rule back_subst [of distinct]) (use parses(2,3) in simp)
    then show ?thesis by (simp add: comp_def case_prod_unfold distinct_map inj_on_def)
  qed
  ultimately show ?thesis by blast
qed

end
