(* ===== verification/Collaboration_Intake.thy ===== *)
theory Collaboration_Intake
  imports Collaboration_Pages
begin

text \<open>
  A case in intake: its parent states a budget, and another one once the first is confirmed; the advisor confirms both.
\<close>

declare split_paired_All [simp del] split_paired_Ex [simp del]

definition budget_message :: "uuid \<Rightarrow> char \<Rightarrow> message_request" where
  "budget_message i d = parent_message\<lparr>mr_message := i, mr_request_hash := demo_hash d, mr_key_hash := demo_hash d\<rparr>"

definition budget_proposal :: "uuid \<Rightarrow> uuid \<Rightarrow> int \<Rightarrow> int \<Rightarrow> char \<Rightarrow> propose_request" where
  "budget_proposal i m n h d = smaller_budget\<lparr>pq_candidate := i, pq_message := m, pq_revision := n,
     pq_value := budget_json 30000000 h, pq_request_hash := demo_hash d, pq_key_hash := demo_hash d\<rparr>"

definition budget_confirmation :: "uuid \<Rightarrow> int \<Rightarrow> char \<Rightarrow> verify_candidate_request" where
  "budget_confirmation i n d = confirmation\<lparr>vy_candidate := i, vy_revision := n, vy_verification := i + 10, vy_fact := Some (i + 20),
     vy_request_hash := demo_hash d, vy_key_hash := demo_hash d\<rparr>"

definition stated_budget :: "int \<Rightarrow> uuid \<Rightarrow> int \<Rightarrow> char \<Rightarrow> timestamp \<Rightarrow> candidate_row" where
  "stated_budget n m h d t0 = \<lparr>ca_case = 10, ca_revision = n, ca_message = m, ca_subject = 7,
     ca_role = ''parent'', ca_key = ''family.budget'', ca_value = budget_json 30000000 h,
     ca_value_sha256 = demo_hash CHR ''4'', ca_request_sha256 = demo_hash d, ca_created_at = t0,
     ca_expires_at = t0 + SEVEN_DAYS\<rparr>"

definition said_budget :: "int \<Rightarrow> char \<Rightarrow> timestamp \<Rightarrow> message_row" where
  "said_budget n d t0 = \<lparr>me_thread = 800, me_case = 10, me_sequence = n, me_actor = 7, me_role = ''parent'', me_body = ''less'',
     me_content_sha256 = demo_hash CHR ''2'', me_request_sha256 = demo_hash d, me_created_at = t0\<rparr>"

definition family_with :: "int \<Rightarrow> revision_row" where
  "family_with h = \<lparr>rv_student = baseline_student,
     rv_family = Jb_object [(''schema_version'', Jb_number (Dec 1 0)), (''risk_tolerance'', Jb_string ''high''),
       (''japan_risk_accepted'', Jb_bool True), (''budget'', budget_json 30000000 h)], rv_review = None, rv_superseded = None\<rparr>"

definition after_confirmation ::
  "verify_candidate_request \<Rightarrow> candidate_row \<Rightarrow> (row_key \<times> fact_row) option \<Rightarrow> timestamp \<Rightarrow> int \<Rightarrow> collaboration_db \<Rightarrow> collaboration_db" where
  "after_confirmation r ca prior t0 h db =
     (let n = vy_revision r + 1; i = the (vy_fact r) in
      remember_call (verify_key r) (vy_request_hash r) (vy_verification r)
       (audit_call r 10 ''memory_candidate_confirmed'' (Payload_fact i n)
        (db\<lparr>core := (core db)\<lparr>base := (base (core db))\<lparr>cases := [((1, 10), \<lparr>sc_current_revision = n, sc_state = CS_INTAKE\<rparr>)]\<rparr>\<rparr>,
          verifications := verifications db @ [((1, vy_verification r), verification_row_of r 10 (Some n))],
          confirmed := confirmed db @ [((1, i), new_fact r ca prior t0)],
          revision_rows := revision_rows db @ [(((1, 10), n), family_with h)],
          fact_refs := fact_refs db @ [((((1, 10), n), ''family.budget''), i)]\<rparr>)))"

definition intake_thread :: collaboration_db where
  "intake_thread = remember_call (thread_key open_thread) (demo_hash CHR ''1'') 800
     (shared_case\<lparr>threads := [((1, 800), \<lparr>th_case = 10, th_created_by = 5, th_created_at = 6000\<rparr>)]\<rparr>)"

definition intake_said :: collaboration_db where
  "intake_said = remember_call (message_key (budget_message 811 CHR ''1'')) (demo_hash CHR ''1'') 811
     (intake_thread\<lparr>messages := [((1, 811), said_budget 1 CHR ''1'' 7000)]\<rparr>)"

definition intake_proposed :: collaboration_db where
  "intake_proposed = remember_call (propose_key (budget_proposal 821 811 1 36000000 CHR ''2'')) (demo_hash CHR ''2'') 821
     (intake_said\<lparr>candidates := [((1, 821), stated_budget 1 811 36000000 CHR ''2'' 8000)]\<rparr>)"

definition intake_confirmed :: collaboration_db where
  "intake_confirmed = after_confirmation (budget_confirmation 821 1 CHR ''3'')
     (stated_budget 1 811 36000000 CHR ''2'' 8000) None 9000 36000000 intake_proposed"

definition intake_said_more :: collaboration_db where
  "intake_said_more = remember_call (message_key (budget_message 812 CHR ''4'')) (demo_hash CHR ''4'') 812
     (intake_confirmed\<lparr>messages := messages intake_confirmed @ [((1, 812), said_budget 2 CHR ''4'' 9100)]\<rparr>)"

definition intake_changed :: collaboration_db where
  "intake_changed = remember_call (propose_key (budget_proposal 822 812 2 35000000 CHR ''5'')) (demo_hash CHR ''5'') 822
     (intake_said_more\<lparr>candidates := candidates intake_said_more @ [((1, 822), stated_budget 2 812 35000000 CHR ''5'' 9200)]\<rparr>)"

definition intake_revised :: collaboration_db where
  "intake_revised = after_confirmation (budget_confirmation 822 2 CHR ''6'') (stated_budget 2 812 35000000 CHR ''5'' 9200)
     (Some (hd (confirmed intake_confirmed))) 9300 35000000 intake_changed"

text \<open>The calls.\<close>

lemma shared_case_rows [code]:
  "shared_case = \<lparr>core = family_case, threads = [], messages = [], candidates = [], verifications = [], confirmed = [],
     revision_rows = [(((1, 10), 1), \<lparr>rv_student = baseline_student, rv_family = baseline_family, rv_review = None, rv_superseded = None\<rparr>)],
     fact_refs = []\<rparr>"
  by code_simp

definition reaches :: "collaboration_db \<Rightarrow> sql_error + collaboration_db \<times> 'a \<Rightarrow> bool" where
  "reaches db r \<longleftrightarrow> (case r of Inl e \<Rightarrow> False | Inr (db', out) \<Rightarrow> db' = db)"

lemma reachesD: "reaches db r \<Longrightarrow> \<exists>out. r = Inr (db, out)"
  by (auto simp: reaches_def split: sum.splits)

lemma thread_call: "reaches intake_thread (create_collaboration_thread family_members demo_session open_thread 6000 shared_case)"
  by code_simp

lemma said_call: "reaches intake_said
    (append_collaboration_message family_members family_session (budget_message 811 CHR ''1'') 7000 intake_thread)"
  by code_simp

lemma proposed_call: "reaches intake_proposed
    (propose_memory_candidate family_members family_session (budget_proposal 821 811 1 36000000 CHR ''2'') 8000 intake_said)"
  by code_simp

lemma confirmed_call: "reaches intake_confirmed
    (verify_memory_candidate no_sources family_members demo_session (budget_confirmation 821 1 CHR ''3'') 9000 intake_proposed)"
  by code_simp

lemma said_more_call: "reaches intake_said_more
    (append_collaboration_message family_members family_session (budget_message 812 CHR ''4'') 9100 intake_confirmed)"
  by code_simp

lemma changed_call: "reaches intake_changed
    (propose_memory_candidate family_members family_session (budget_proposal 822 812 2 35000000 CHR ''5'') 9200 intake_said_more)"
  by code_simp

lemma revised_call: "reaches intake_revised
    (verify_memory_candidate no_sources family_members demo_session (budget_confirmation 822 2 CHR ''6'') 9300 intake_changed)"
  by code_simp

lemma intake_steps:
  "collaboration_step family_facts shared_case intake_thread" "collaboration_step family_facts intake_thread intake_said"
  "collaboration_step family_facts intake_said intake_proposed" "collaboration_step family_facts intake_proposed intake_confirmed"
  "collaboration_step family_facts intake_confirmed intake_said_more" "collaboration_step family_facts intake_said_more intake_changed"
  "collaboration_step family_facts intake_changed intake_revised"
  using thread_call [THEN reachesD] said_call [THEN reachesD] proposed_call [THEN reachesD] confirmed_call [THEN reachesD]
    said_more_call [THEN reachesD] changed_call [THEN reachesD] revised_call [THEN reachesD]
  by (blast intro: collaboration_step.intros)+

lemma intake_reachable: "collaboration_reachable family_facts intake_confirmed" "collaboration_reachable family_facts intake_revised"
  "collaboration_reachable family_facts intake_said_more"
proof -
  have "collaboration_step family_facts empty_collaboration_db shared_case"
    by (rule collaboration_step.first [OF shared_case_ok(1)])
  then show "collaboration_reachable family_facts intake_confirmed" "collaboration_reachable family_facts intake_revised"
    "collaboration_reachable family_facts intake_said_more"
    unfolding collaboration_reachable_def using intake_steps by (meson r_into_rtranclp rtranclp_trans)+
qed

text \<open>The proposals through the service.\<close>

definition intake_digests :: "char \<Rightarrow> collaboration_digests" where
  "intake_digests d = \<lparr>digest_case = (\<lambda>_. demo_hash d), digest_body = (\<lambda>_. demo_hash d), digest_append = (\<lambda>_. demo_hash d),
     digest_value = (\<lambda>_. demo_hash CHR ''4''), digest_propose = (\<lambda>_. demo_hash d), digest_verify = (\<lambda>_. demo_hash d),
     digest_idempotency = (\<lambda>_. demo_hash d)\<rparr>"

definition ceiling_proposal :: "int \<Rightarrow> fact_proposal" where
  "ceiling_proposal h = BudgetProposal \<lparr>be_schema_version = 1, be_currency = ''CNY'', be_period = ''program_total'',
     preferred_minor = Some 30000000, hard_ceiling_minor = Some h, elasticity_bps = 1000, refused = False\<rparr>"

definition arrives :: "collaboration_db \<Rightarrow> collaboration_error + collaboration_db \<times> 'a \<Rightarrow> bool" where
  "arrives db r \<longleftrightarrow> (case r of Inl e \<Rightarrow> False | Inr (db', out) \<Rightarrow> db' = db)"

lemma arrivesD: "arrives db r \<Longrightarrow> \<exists>out. r = Inr (db, out)"
  by (auto simp: arrives_def split: sum.splits)

lemma proposed_service: "arrives intake_proposed (service_propose_candidate family_members (intake_digests CHR ''2'') family_session
    \<lparr>ac_org = 1, ac_actor = 7, ac_role = ''parent''\<rparr> \<lparr>pc_message = 811, pc_revision = 1, pc_proposal = ceiling_proposal 36000000\<rparr>
    821 ''first'' 8000 intake_said)"
  by code_simp

lemma changed_service: "arrives intake_changed (service_propose_candidate family_members (intake_digests CHR ''5'') family_session
    \<lparr>ac_org = 1, ac_actor = 7, ac_role = ''parent''\<rparr> \<lparr>pc_message = 812, pc_revision = 2, pc_proposal = ceiling_proposal 35000000\<rparr>
    822 ''second'' 9200 intake_said_more)"
  by code_simp

lemma ceiling_valid: "valid_proposal (ceiling_proposal 36000000) = Inr (ceiling_proposal 36000000)"
  "valid_proposal (ceiling_proposal 35000000) = Inr (ceiling_proposal 35000000)"
  by code_simp+

lemma intake_served: "served_reachable family_facts intake_revised"
proof -
  have first: "collaboration_step family_facts empty_collaboration_db shared_case"
    by (rule collaboration_step.first [OF shared_case_ok(1)])
  have "candidates shared_case = candidates empty_collaboration_db" "candidates intake_thread = candidates shared_case"
    "candidates intake_said = candidates intake_thread" "candidates intake_confirmed = candidates intake_proposed"
    "candidates intake_said_more = candidates intake_confirmed" "candidates intake_revised = candidates intake_changed"
    by code_simp+
  then have "served_step family_facts empty_collaboration_db shared_case" "served_step family_facts shared_case intake_thread"
    "served_step family_facts intake_thread intake_said" "served_step family_facts intake_proposed intake_confirmed"
    "served_step family_facts intake_confirmed intake_said_more" "served_step family_facts intake_changed intake_revised"
    using first intake_steps by (blast intro: served_step.unproposed)+
  moreover obtain p q where
    "service_propose_candidate family_members (intake_digests CHR ''2'') family_session \<lparr>ac_org = 1, ac_actor = 7, ac_role = ''parent''\<rparr>
       \<lparr>pc_message = 811, pc_revision = 1, pc_proposal = ceiling_proposal 36000000\<rparr> 821 ''first'' 8000 intake_said = Inr (intake_proposed, p)"
    "service_propose_candidate family_members (intake_digests CHR ''5'') family_session \<lparr>ac_org = 1, ac_actor = 7, ac_role = ''parent''\<rparr>
       \<lparr>pc_message = 812, pc_revision = 2, pc_proposal = ceiling_proposal 35000000\<rparr> 822 ''second'' 9200 intake_said_more = Inr (intake_changed, q)"
    using arrivesD [OF proposed_service] arrivesD [OF changed_service] by blast
  from served_step.proposed [OF _ this(1)] served_step.proposed [OF _ this(2)] ceiling_valid
  have "served_step family_facts intake_said intake_proposed" "served_step family_facts intake_said_more intake_changed" by simp_all
  ultimately show ?thesis unfolding served_reachable_def by (meson r_into_rtranclp rtranclp_trans)
qed

theorem history_pages_complete_witness:
  "\<exists>item. history_pages family_members demo_session \<lparr>ac_org = 1, ac_actor = 5, ac_role = ''advisor''\<rparr> 10 1 None
     [intake_revised, intake_revised] = Inr ([item], None)"
proof -
  let ?x = "\<lparr>ac_org = 1, ac_actor = 5, ac_role = ''advisor''\<rparr>"
  have "served_evolves family_facts [intake_revised, intake_revised]" by simp
  moreover have "advises family_members demo_session ?x 10" by code_simp
  moreover have c: "current_of (1, 10) intake_revised = Some 3" "length (fact_history (1, 10) 3 intake_revised) = 1" by code_simp+
  ultimately obtain items where i: "history_pages family_members demo_session ?x 10 1 None [intake_revised, intake_revised] = Inr (items, None)"
    "traverse parse_fact_row (fact_history (1, 10) 3 intake_revised) = Inr items"
    using history_pages_complete [OF intake_served, of "[intake_revised]" family_members demo_session ?x 10 1 3] by auto
  from c(2) obtain row where "fact_history (1, 10) 3 intake_revised = [row]" by (cases "fact_history (1, 10) 3 intake_revised") auto
  with i(2) obtain item where "items = [item]" by auto
  with i(1) show ?thesis by blast
qed

end
