(* ===== verification/Collaboration_Messages.thy ===== *)
theory Collaboration_Messages
  imports Collaboration_Intake
begin

text \<open>The pages of a thread: a member who follows the sequence numbers reads every message once, and comes to an end.\<close>

declare split_paired_All [simp del] split_paired_Ex [simp del]

definition thread_events :: "row_key \<Rightarrow> collaboration_db \<Rightarrow> message_event list" where
  "thread_events k db = map (\<lambda>(km, m). view_message (snd km) m) (thread_messages k db)"

lemma filter_beyond_index:
  assumes "map f xs = map int [1..<Suc (length xs)]"
  shows "filter (\<lambda>x. int a < f x) xs = drop a xs"
  using assms
proof (induction xs arbitrary: a rule: rev_induct)
  case (snoc x xs)
  then have x: "f x = int (Suc (length xs))" "map f xs = map int [1..<Suc (length xs)]" by simp_all
  show ?case
  proof (cases "a \<le> length xs")
    case True
    with snoc.IH [OF x(2), of a] x(1) show ?thesis by simp
  next
    case False
    with snoc.IH [OF x(2), of a] x(1) show ?thesis by simp
  qed
qed simp

lemma events_sequence:
  assumes "collaboration_reachable facts db"
  shows "map mv_sequence (thread_events k db) = map int [1..<Suc (length (thread_events k db))]" "length (thread_events k db) \<le> 1000"
proof -
  from collaboration_invariantD(2) [OF collaboration_reachable_invariant [OF assms]]
  have "map (\<lambda>(km, m). me_sequence m) (thread_messages k db) = map int [1..<Suc (length (thread_messages k db))]"
    "length (thread_messages k db) \<le> 1000" unfolding messages_ok_def by blast+
  then show "map mv_sequence (thread_events k db) = map int [1..<Suc (length (thread_events k db))]" "length (thread_events k db) \<le> 1000"
    by (simp_all add: thread_events_def comp_def case_prod_unfold view_message_def del: upt_Suc)
qed

lemma messages_after_drop:
  assumes "collaboration_reachable facts db"
  shows "messages_after k (int a) db = drop a (thread_events k db)"
proof -
  let ?view = "\<lambda>(km, m). view_message (snd km) m"
  have e: "map ?view (filter (\<lambda>(km, m). me_sequence m > int a) xs) = filter (\<lambda>v. int a < mv_sequence v) (map ?view xs)" for xs
    by (induction xs) (auto simp: view_message_def)
  note s = events_sequence(1) [OF assms, of k]
  have "filter (\<lambda>v. int a < mv_sequence v) (thread_events k db) = drop a (thread_events k db)"
    by (rule filter_beyond_index [OF s])
  moreover have "sorted (map mv_sequence (drop a (thread_events k db)))"
    unfolding drop_map [symmetric] s by (intro sorted_wrt_drop) (simp add: sorted_map del: upt_Suc)
  ultimately show ?thesis by (simp add: messages_after_def e thread_events_def [symmetric] sort_key_id_if_sorted)
qed

lemma events_grow:
  assumes "(collaboration_step facts)\<^sup>*\<^sup>* db db'"
  shows "\<exists>es. thread_events k db' = thread_events k db @ es"
proof -
  from collaboration_steps_grow [OF assms] obtain ms where "messages db' = messages db @ ms"
    unfolding collaboration_grows_def by blast
  then show ?thesis by (simp add: thread_events_def thread_messages_def)
qed

lemma events_valid:
  assumes "collaboration_reachable facts db"
  shows "\<forall>e \<in> set (thread_events k db). valid_message_event e"
  using message_events_valid(1) [OF assms] by (force simp: thread_events_def thread_messages_def)

definition reads_thread :: "participants \<Rightarrow> session \<Rightarrow> actor_context \<Rightarrow> thread_row \<Rightarrow> bool" where
  "reads_thread part ses x t \<longleftrightarrow>
     assert_collaboration_context ses (ac_org x) (ac_actor x) (ac_role x) = Inr ()
     \<and> part (ac_org x) (th_case t) (ac_actor x) (ac_role x)"

lemma messages_page:
  assumes reach: "collaboration_reachable facts db" and t: "map_of (threads db) (ac_org x, thread) = Some t"
    and reads: "reads_thread part ses x t" and limit: "1 \<le> limit" "limit \<le> 100"
  shows "service_list_messages part ses x thread (int a) limit db =
    Inr \<lparr>mp_items = take (nat limit) (drop a (thread_events (ac_org x, thread) db)),
         mp_next_after_sequence = (if a + nat limit \<le> length (thread_events (ac_org x, thread) db) then Some (int (a + nat limit)) else None)\<rparr>"
proof -
  let ?e = "thread_events (ac_org x, thread) db"
  let ?items = "take (nat limit) (drop a ?e)"
  have read: "read_collaboration_messages part ses (ac_org x) (ac_actor x) (ac_role x) thread (int a) limit db = Inr ?items"
    using reads limit by (simp add: read_collaboration_messages_def reads_thread_def t admit_reader_def messages_after_drop [OF reach])
  have "\<forall>e \<in> set ?items. valid_message_event e" using events_valid [OF reach] by (meson in_set_dropD in_set_takeD)
  then have items: "traverse (checked valid_message_event) ?items = Inr (map (\<lambda>e. e) ?items)"
    by (intro traverse_values) (simp add: checked_def)
  have full: "int (length ?items) = limit \<and> ?items \<noteq> [] \<longleftrightarrow> a + nat limit \<le> length ?e" using limit by auto
  have last: "mv_sequence (last ?items) = int (a + nat limit)" if "a + nat limit \<le> length ?e"
  proof -
    from that full have ne: "?items \<noteq> []" by blast
    have "last ?items = ?e ! (a + nat limit - 1)"
      using that limit by (subst last_conv_nth [OF ne]) (simp add: min_absorb2)
    moreover have "mv_sequence (?e ! (a + nat limit - 1)) = map mv_sequence ?e ! (a + nat limit - 1)" using that limit by simp
    moreover have "map mv_sequence ?e ! (a + nat limit - 1) = int (a + nat limit)"
      unfolding events_sequence(1) [OF reach] using that limit by (simp del: upt_Suc)
    ultimately show ?thesis by simp
  qed
  have "\<not> limit < int (length ?items)" using limit by simp
  then show ?thesis
    using last full by (simp add: service_list_messages_def repository_list_messages_def read executed_def persisted_def
        page_of_messages_def items cong: if_cong)
qed

text \<open>A client that follows the sequence numbers: one page from each database, until a page is not full.\<close>

fun message_pages ::
  "participants \<Rightarrow> session \<Rightarrow> actor_context \<Rightarrow> uuid \<Rightarrow> int \<Rightarrow> int \<Rightarrow> collaboration_db list
     \<Rightarrow> collaboration_error + message_event list \<times> int option" where
  "message_pages part ses x thread limit after [] = Inr ([], Some after)"
| "message_pages part ses x thread limit after (db # dbs) =
     bind_result (service_list_messages part ses x thread after limit db) (\<lambda>page.
       case mp_next_after_sequence page of None \<Rightarrow> Inr (mp_items page, None)
       | Some n \<Rightarrow>
           bind_result (message_pages part ses x thread limit n dbs) (\<lambda>(rest, last_sequence).
             Inr (mp_items page @ rest, last_sequence)))"

lemma message_pages_next:
  assumes "service_list_messages part ses x thread after limit db = Inr \<lparr>mp_items = es, mp_next_after_sequence = Some n\<rparr>"
    and "message_pages part ses x thread limit n dbs = Inr (rest, l)"
  shows "message_pages part ses x thread limit after (db # dbs) = Inr (es @ rest, l)"
  by (simp add: assms)

lemma message_pages_from:
  assumes reads: "reads_thread part ses x t" and limit: "1 \<le> limit" "limit \<le> 100"
    and "collaboration_reachable facts db" and "evolves facts (db # dbs)" and "map_of (threads db) (ac_org x, thread) = Some t"
    and "a \<le> length (thread_events (ac_org x, thread) db)" and "1000 - a < nat limit * length (db # dbs)"
  shows "\<exists>i < length (db # dbs). (collaboration_step facts)\<^sup>*\<^sup>* db ((db # dbs) ! i)
    \<and> message_pages part ses x thread limit (int a) (db # dbs)
        = Inr (drop a (thread_events (ac_org x, thread) ((db # dbs) ! i)), None)"
  using assms(4-)
proof (induction dbs arbitrary: db a)
  case Nil
  let ?e = "thread_events (ac_org x, thread) db"
  from Nil.prems(5) events_sequence(2) [OF Nil.prems(1), of "(ac_org x, thread)"] limit
  have "\<not> a + nat limit \<le> length ?e" "length (drop a ?e) \<le> nat limit" by simp_all
  then show ?case by (simp add: messages_page [OF Nil.prems(1,3) reads limit])
next
  case (Cons db' dbs)
  let ?k = "(ac_org x, thread)"
  let ?e = "thread_events ?k db"
  show ?case
  proof (cases "a + nat limit \<le> length ?e")
    case True
    from Cons.prems(2) have steps: "(collaboration_step facts)\<^sup>*\<^sup>* db db'" and ev: "evolves facts (db' # dbs)" by simp_all
    from collaboration_steps_grow [OF steps] Cons.prems(3) have t: "map_of (threads db') ?k = Some t"
      unfolding collaboration_grows_def by (blast dest: map_leD)
    from events_grow [OF steps, of ?k] obtain es where es: "thread_events ?k db' = ?e @ es" by blast
    have "1000 - (a + nat limit) < nat limit * length (db' # dbs)"
      using Cons.prems(5) limit events_sequence(2) [OF Cons.prems(1), of ?k] True by simp
    from Cons.IH [OF collaboration_reachable_steps [OF Cons.prems(1) steps] ev t _ this] es True
    obtain i where i: "i < length (db' # dbs)" "(collaboration_step facts)\<^sup>*\<^sup>* db' ((db' # dbs) ! i)"
      "message_pages part ses x thread limit (int (a + nat limit)) (db' # dbs)
        = Inr (drop (a + nat limit) (thread_events ?k ((db' # dbs) ! i)), None)" by auto
    from steps i(2) have s: "(collaboration_step facts)\<^sup>*\<^sup>* db ((db' # dbs) ! i)" by (rule rtranclp_trans)
    from events_grow [OF s, of ?k] obtain fs where fs: "thread_events ?k ((db' # dbs) ! i) = ?e @ fs" by blast
    have p: "service_list_messages part ses x thread (int a) limit db
        = Inr \<lparr>mp_items = take (nat limit) (drop a ?e), mp_next_after_sequence = Some (int (a + nat limit))\<rparr>"
      using messages_page [OF Cons.prems(1,3) reads limit, of a] True by simp
    have "take (nat limit) (drop a ?e) @ drop (a + nat limit) ?e = drop a ?e"
      using append_take_drop_id [of "nat limit" "drop a ?e"] by (simp add: add.commute)
    then have "take (nat limit) (drop a ?e) @ drop (a + nat limit) (?e @ fs) = drop a (?e @ fs)"
      using True by (simp flip: append_assoc)
    with message_pages_next [OF p i(3)]
    have "message_pages part ses x thread limit (int a) (db # db' # dbs) = Inr (drop a (thread_events ?k ((db' # dbs) ! i)), None)"
      by (simp only: fs)
    with s i(1) show ?thesis by (intro exI [of _ "Suc i"]) simp
  next
    case False
    then have "take (nat limit) (drop a ?e) = drop a ?e" by simp
    with False show ?thesis by (intro exI [of _ 0]) (simp add: messages_page [OF Cons.prems(1,3) reads limit])
  qed
qed

text \<open>C13: A member who reads a thread page by page, while others write to it, gets after at most a thousand messages the
  whole thread as one of the databases has it: no message is missed or read twice, and the reading ends.\<close>

theorem message_pages_complete:
  assumes "collaboration_reachable facts db" and "evolves facts (db # dbs)" and "map_of (threads db) (ac_org x, thread) = Some t"
    and "reads_thread part ses x t" and "1 \<le> limit" "limit \<le> 100" and "1000 < nat limit * length (db # dbs)"
  shows "\<exists>i < length (db # dbs). message_pages part ses x thread limit 0 (db # dbs)
    = Inr (thread_events (ac_org x, thread) ((db # dbs) ! i), None)"
  using message_pages_from [OF assms(4-6,1-3), of 0] assms(7) by auto

theorem message_pages_complete_witness:
  "\<exists>i < 11. message_pages family_members demo_session \<lparr>ac_org = 1, ac_actor = 5, ac_role = ''advisor''\<rparr> 800 100 0 (replicate 11 intake_revised)
     = Inr (thread_events (1, 800) (replicate 11 intake_revised ! i), None)"
proof -
  let ?x = "\<lparr>ac_org = 1, ac_actor = 5, ac_role = ''advisor''\<rparr>" and ?t = "\<lparr>th_case = 10, th_created_by = 5, th_created_at = 6000\<rparr>"
  have t: "map_of (threads intake_revised) (ac_org ?x, 800) = Some ?t" by code_simp
  have r: "reads_thread family_members demo_session ?x ?t" by code_simp
  have "evolves facts (db # replicate n db)" for facts db n by (induction n) simp_all
  from message_pages_complete [OF intake_reachable(2) this [of _ _ 10] t r, of 100] show ?thesis
    by (simp add: numeral_eq_Suc)
qed

end
