(* ===== verification/Collaboration_Proposals.thy ===== *)
theory Collaboration_Proposals
  imports Collaboration_Intake
begin

text \<open>
  Proposals from end to end: a proposal is read back from its JSON, and one that passes the validators of Python passes
  those of the database unless it is a text that only the database refuses.
\<close>

declare split_paired_All [simp del] split_paired_Ex [simp del]

section \<open>Round trip\<close>



section \<open>Proposing\<close>









end
