(* ===== verification/Spec2Isabelle.thy ===== *)
theory Spec2Isabelle
  imports Revision_Properties Materialize_Properties Stream_Frames Task_Limits Timeline_Properties
    Decision_Checks Decision_Timeline Collaboration_Messages Collaboration_Proposals
begin

text \<open>
  Night Voyager plans study abroad with an advisor and a family.  A case goes through four
  stages.  Its facts and its evidence are materialized into a planning input; a worker runs the
  deterministic planning policy on it as a durable task with leases; an advisor reviews the run
  and the family decides on a brief; the timeline of the decision is then executed checkpoint by
  checkpoint.  The Python package \<open>src/night_voyager\<close> computes; the authority over state is in
  PL/pgSQL functions that the Python migrations \<open>migrations/versions\<close> install.  This development
  models both sides and what connects them.

  Shared.  \<open>Prelude\<close>: exceptions and results, identifiers and times as numbers, dates, hashes,
  dictionaries.  \<open>Decimals\<close>: the decimal arithmetic of the policy, with its precision of 28 digits.
  \<open>Store\<close>: SQL errors, sessions, tables as association lists, filtered updates, and the two
  interfaces as locales: \<open>idempotent_command\<close> (a command with an idempotency key, interpreted for the
  creation and the cancellation of tasks, for reviews and decisions, and for the four commands of a timeline) and
  \<open>growing_log\<close> (interpreted for the events of a task and the receipts of timelines).

  Planning.  \<open>Planning_Models\<close> (\<open>planning/models.py\<close>, \<open>trusted.py\<close>), \<open>Planning_Policy\<close> (\<open>policy.py\<close>,
  \<open>transitions.py\<close>), \<open>Planning_Fixtures\<close> (\<open>fixtures.py\<close>), \<open>Planning_Materialize\<close> (\<open>synthetic.py\<close>,
  \<open>intake_fixture.py\<close>, \<open>mixed.py\<close>), \<open>Planning_Revision\<close> (\<open>revision.py\<close>).  A validator that raises is
  a function into a sum, in the order of the source.  \<open>Planning_Properties\<close> characterizes the
  outcome of a run by its input (exact budget arithmetic included), the evidence it uses and the
  shape of its result; \<open>Materialize_Properties\<close> shows that a materialized input passes the checks of
  the policy and of the worker as soon as its evidence has distinct identifiers; \<open>Revision_Properties\<close> characterizes deltas and comparisons.

  Tasks.  \<open>Task_Policy\<close> (\<open>tasks/models.py\<close>, \<open>policy.py\<close>, \<open>adapters/\<close>, part of \<open>skills/models.py\<close>).
  \<open>Task_Authority\<close>: the functions \<open>app.*_agent_task\<close> in their current versions (migrations 0002 to
  0017) over tasks, executions, events, dispatch rows, cases, runs and idempotency records.
  \<open>Task_Invariant\<close> states the invariant of one task and describes each statement by the rows it
  changes, \<open>Task_Safety\<close> shows that every function keeps it, \<open>Task_System\<close> makes them a step
  relation with steps of other components.  \<open>Task_Properties\<close>, \<open>Task_Commands\<close> and \<open>Task_Limits\<close> hold
  leases, final states, the event log, idempotency, claims, results, recovery, and three places
  where the code does not do what it means to do.  \<open>Task_Streaming\<close> (\<open>tasks/streaming.py\<close>) and
  \<open>Stream_Properties\<close>: what a client of the event stream receives while the database moves on;
  \<open>Stream_Frames\<close>: a client's reader of JSON takes the frames apart again.

  Decisions.  \<open>Decision\<close> (\<open>decision/models.py\<close>, \<open>policy.py\<close>): the brief, the family decision and the
  timeline plan.  \<open>Decision_Authority\<close>: \<open>app.review_planning_run\<close> and \<open>app.decide_family_brief\<close> (0003, 0012)
  over reviews, risk acceptances, briefs, decisions, plans and audit events, with the tables of the
  tasks as their base; \<open>Decision_Application\<close>: \<open>decision/postgres.py\<close> and \<open>application.py\<close>.
  \<open>Decision_Effects\<close> gives the changes of a successful call, \<open>Decision_System\<close> composes the two functions
  with the calls of the task authority (\<open>Task_Calls\<close> says what those do to cases and runs) and with
  the publication of a revision (0017), \<open>Decision_Safety\<close> proves the invariant.  \<open>Decision_Properties\<close>:
  the state of a case against its records, the authority behind a decision, its finality;
  \<open>Decision_Replay\<close>: idempotency, and the case that a rejection leaves behind; \<open>Decision_Checks\<close>: what the
  service accepts the database records; \<open>Decision_Timeline\<close>: every plan can be started.
  \<open>Decision_History\<close> is a concrete history that the witnesses use.

  Timelines.  \<open>Timeline_Models\<close> (\<open>timeline_execution/models.py\<close>, \<open>policy.py\<close>, \<open>errors.py\<close>),
  \<open>Timeline_Authority\<close> and \<open>Timeline_Read\<close> (migration 0014, \<open>postgres.py\<close>, \<open>application.py\<close>).
  \<open>Timeline_Invariant\<close>, \<open>Timeline_Safety\<close> and \<open>Timeline_Effects\<close> give the invariant of an execution with
  its checkpoints, attestations, verifications, reassessment and receipts, and that the four
  commands keep it; \<open>Timeline_System\<close> is the step relation, \<open>Timeline_Consistency\<close> the projection,
  \<open>Timeline_Origin\<close> traces attestations and verifications back to the sessions they were made in, and
  \<open>Timeline_Properties\<close> holds the properties.

  Collaboration.  \<open>Collaboration_Text\<close> and \<open>Collaboration_Models\<close> (\<open>collaboration/models.py\<close>, \<open>policy.py\<close>, and
  the text checks of the SQL): free text, the six typed facts, the policies of proposals.
  \<open>Collaboration_Authority\<close>, \<open>Collaboration_Confirm\<close> and \<open>Collaboration_Read\<close>: the SQL functions over threads, messages,
  candidates, facts and case revisions (0007, 0017, and \<open>app.publish_case_revision\<close> of 0002).
  \<open>Collaboration_Values\<close>: facts and preferences as JSON, written and parsed on both sides.
  \<open>Collaboration_Cursor\<close> and \<open>Collaboration_Repository\<close>: cursors, errors, rows, pages and the service (\<open>errors.py\<close>,
  \<open>ports.py\<close>, \<open>postgres.py\<close>, \<open>application.py\<close>).  \<open>Collaboration_Effects\<close> gives the changes of a successful call,
  \<open>Collaboration_System\<close> the step relation over the decision and task authorities, \<open>Collaboration_Invariant\<close>
  and \<open>Collaboration_Safety\<close> the invariant and its preservation, and \<open>Collaboration_Refinement\<close> that every step is
  one of the decision authority or leaves its cases alone.  \<open>Collaboration_Properties\<close>: a fact in force
  traces back to a candidate an advisor confirmed, the facts of a key form one chain, the
  revision of a case carries the facts in force, a confirmation replaces the reviewed run, a
  verified candidate is final.  \<open>Collaboration_Paging\<close>, \<open>Collaboration_Pages\<close> and \<open>Collaboration_Messages\<close>: a reader
  who follows the cursors or the sequence numbers reads every fact of the snapshot and every
  message once while the database moves on; the facts, where candidates come from the service (\<open>served_step\<close>).
  \<open>Collaboration_Regex\<close>, \<open>Collaboration_Equivalence\<close> and \<open>Collaboration_Proposals\<close>: which values the two sides accept,
  what a valid proposal leaves, and that both compute the same preferences.  Python and SQL accept the same values but
  for a budget without its \<open>refused\<close> field and for texts: the SQL also refuses shell words in any case,
  colons with two slashes and local paths anywhere, and Python key markers in any case.
  \<open>Collaboration_History\<close> and \<open>Collaboration_Intake\<close> are concrete histories.

  State and time.  A SQL function takes the database and returns an error, which rolls its
  transaction back, or the changed database and its answer; functions that serialize by row
  locks are single steps, and a step relation interleaves them in every order.  What a function
  only reads (participants, pins, plans, skill versions) is a catalog that may change between any
  two steps.  Clocks, fresh identifiers, hashes and UUID texts are arguments.  \<open>integer\<close> columns are
  numbers with their range check written out (versions, the cast of a duration).

  Bounds.  The streaming loop takes as fuel the number of rounds it may run; when the task has ended
  at the \<open>e\<close>-th load, \<open>e\<close> rounds and one for each event of the task are shown to be enough.  \<open>run_times\<close> in \<open>idempotent_command\<close> counts repetitions.  No other definition uses fuel; the
  parsers recurse on their text.

  Not modelled.  Pydantic's coercion of raw JSON, JSON and UTF-8 decoding, SHA-256, the HTTP
  interface, authentication, database roles and row level security, and the network.  Not
  modelled either: the SQL of skill versions (0008) and the skills package, the dra, evidence and evidence
  loop packages, which consume frozen artefacts of other systems, the worker loop of \<open>tasks/worker.py\<close>,
  the demo journey and its seeds, and the scripts under \<open>scripts\<close>, which drive a running installation.
\<close>

end
